(* ===== verification/Tofu_Prelude.thy ===== *)
theory Tofu_Prelude
  imports Main "HOL-Library.AList"
begin

text \<open>
  Shared vocabulary of the development.

  A Go \<^verbatim>\<open>map\<close> is an association list with distinct keys.  Go leaves the iteration
  order of a map open; here a \<^verbatim>\<open>for range\<close> visits the entries in list order, and every
  theorem is about an arbitrary list, so it holds for every iteration order.  A nil
  map reads like an empty one, and both are the empty list.

  A pointer that may be nil is an \<^typ>\<open>'a option\<close>.  A \<^verbatim>\<open>panic\<close> is the left
  summand of a sum type.
\<close>

section \<open>Go maps\<close>

type_synonym ('k, 'v) gomap = "('k \<times> 'v) list"

abbreviation gmap_get :: "('k, 'v) gomap \<Rightarrow> 'k \<Rightarrow> 'v option" where
  "gmap_get m k \<equiv> map_of m k"

abbreviation gmap_put :: "'k \<Rightarrow> 'v \<Rightarrow> ('k, 'v) gomap \<Rightarrow> ('k, 'v) gomap" where
  "gmap_put k v m \<equiv> AList.update k v m"

abbreviation gmap_del :: "'k \<Rightarrow> ('k, 'v) gomap \<Rightarrow> ('k, 'v) gomap" where
  "gmap_del k m \<equiv> AList.delete k m"

definition gmap_ok :: "('k, 'v) gomap \<Rightarrow> bool" where
  "gmap_ok m \<longleftrightarrow> distinct (map fst m)"

definition gmap_keys :: "('k, 'v) gomap \<Rightarrow> 'k set" where
  "gmap_keys m = set (map fst m)"

definition gmap_vals :: "('k, 'v) gomap \<Rightarrow> 'v list" where
  "gmap_vals m = map snd m"

text \<open>
  The interface of a Go map: what a read returns after a write or a \<^verbatim>\<open>delete\<close>, and that
  both keep the keys distinct.
\<close>

locale go_map =
  fixes get :: "'m \<Rightarrow> 'k \<Rightarrow> 'v option"
    and put :: "'k \<Rightarrow> 'v \<Rightarrow> 'm \<Rightarrow> 'm"
    and del :: "'k \<Rightarrow> 'm \<Rightarrow> 'm"
    and ok :: "'m \<Rightarrow> bool"
    and keys :: "'m \<Rightarrow> 'k set"
  assumes get_put: "get (put k v m) k' = (if k' = k then Some v else get m k')"
    and get_del: "get (del k m) k' = (if k' = k then None else get m k')"
    and ok_put: "ok m \<Longrightarrow> ok (put k v m)"
    and ok_del: "ok m \<Longrightarrow> ok (del k m)"
    and keys_get: "k \<in> keys m \<longleftrightarrow> get m k \<noteq> None"
begin

lemma keys_put: "keys (put k v m) = insert k (keys m)"
  by (auto simp: keys_get get_put split: if_splits)

lemma keys_del: "keys (del k m) = keys m - {k}"
  by (auto simp: keys_get get_del split: if_splits)

lemma get_none: "k \<notin> keys m \<Longrightarrow> get m k = None"
  by (simp add: keys_get)

end

interpretation gm: go_map "map_of :: ('k \<times> 'v) list \<Rightarrow> 'k \<Rightarrow> 'v option"
    "AList.update" "AList.delete" "gmap_ok" "gmap_keys"
proof unfold_locales
  fix k k' :: 'k and v :: 'v and m :: "('k \<times> 'v) list"
  show "map_of (AList.update k v m) k' = (if k' = k then Some v else map_of m k')"
    by (simp add: update_conv)
  show "map_of (AList.delete k m) k' = (if k' = k then None else map_of m k')"
    by (simp add: delete_conv)
  show "gmap_ok m \<Longrightarrow> gmap_ok (AList.update k v m)"
    by (simp add: gmap_ok_def distinct_update)
  show "gmap_ok m \<Longrightarrow> gmap_ok (AList.delete k m)"
    by (simp add: gmap_ok_def distinct_delete)
  show "(k \<in> gmap_keys m) = (map_of m k \<noteq> None)"
    by (auto simp: gmap_keys_def map_of_eq_None_iff)
qed

named_theorems gomap_simps \<open>reads and keys of a Go map after a write\<close>

lemmas gomap_laws [gomap_simps] =
  gm.get_put gm.get_del gm.keys_put gm.keys_del gm.ok_put gm.ok_del

lemma gmap_ok_Nil [simp]: "gmap_ok []"
  by (simp add: gmap_ok_def)

lemma gmap_keys_Nil [simp]: "gmap_keys [] = {}"
  by (simp add: gmap_keys_def)

lemma gmap_keys_Cons [simp]: "gmap_keys (e # m) = insert (fst e) (gmap_keys m)"
  by (simp add: gmap_keys_def)

lemma gmap_get_in_set: "gmap_ok m \<Longrightarrow> gmap_get m k = Some v \<longleftrightarrow> (k, v) \<in> set m"
  by (simp add: gmap_ok_def)

lemma set_update_subset: "set (AList.update k v m) \<subseteq> insert (k, v) (set m)"
  by (induction m) auto

lemma set_delete_subset: "set (AList.delete k m) \<subseteq> set m"
  by (auto simp: AList.delete_eq)

lemma set_delete_iff: "e \<in> set (AList.delete k m) \<longleftrightarrow> e \<in> set m \<and> fst e \<noteq> k"
  by (auto simp: AList.delete_eq)

lemma set_update_iff:
  assumes "gmap_ok m"
  shows "e \<in> set (AList.update k v m) \<longleftrightarrow> e = (k, v) \<or> e \<in> set m \<and> fst e \<noteq> k"
  using assms by (induction m) (auto simp: gmap_ok_def image_iff)

lemma gmap_finite_keys [simp]: "finite (gmap_keys m)"
  by (simp add: gmap_keys_def)

section \<open>Options and lists\<close>

lemma case_option_neq_None: "(case x of None \<Rightarrow> False | Some y \<Rightarrow> P y) \<longleftrightarrow> (\<exists>y. x = Some y \<and> P y)"
  by (cases x) auto

lemma distinct_concat_tagged:
  assumes "distinct (map h xs)" "\<And>x. x \<in> set xs \<Longrightarrow> distinct (f x)" "\<And>x y. x \<in> set xs \<Longrightarrow> y \<in> set (f x) \<Longrightarrow> g y = h x"
  shows "distinct (concat (map f xs))"
  using assms
proof (induction xs)
  case (Cons x xs)
  have "g y \<noteq> h x" if "x' \<in> set xs" "y \<in> set (f x')" for x' y
  proof
    assume "g y = h x"
    then have "h x = h x'" using that Cons.prems(3)[of x' y] by simp
    with that(1) have "h x \<in> set (map h xs)" by simp
    with Cons.prems(1) show False by simp
  qed
  moreover have "g y = h x" if "y \<in> set (f x)" for y using that Cons.prems(3)[of x y] by simp
  ultimately have "\<not> (\<exists>x' \<in> set xs. y \<in> set (f x'))" if "y \<in> set (f x)" for y using that by blast
  then have "set (f x) \<inter> set (concat (map f xs)) = {}" by auto
  with Cons show ?case by simp
qed simp

end
