(* ===== verification/Dag_Set.thy ===== *)
theory Dag_Set
  imports Tofu_Prelude
begin

text \<open>
  The set type of package \<^verbatim>\<open>internal/dag\<close> (\<^verbatim>\<open>set.go\<close>): a Go map from hash codes to
  elements.  The hash function \<open>hc\<close> is the method \<^verbatim>\<open>Hashcode\<close> of the elements, or the
  identity for elements that have none; it is a parameter of every operation.  The
  operations keep each element filed under its own hash code (\<open>dset_wf\<close>), and when
  \<open>hc\<close> tells the elements apart they compute union, difference and intersection of
  the element sets.
\<close>

type_synonym ('h, 'v) dset = "('h, 'v) gomap"

section \<open>Operations\<close>

definition set_Len :: "('h, 'v) dset \<Rightarrow> nat" where
  "set_Len s = length s"

definition set_Add :: "('v \<Rightarrow> 'h) \<Rightarrow> ('h, 'v) dset \<Rightarrow> 'v \<Rightarrow> ('h, 'v) dset" where
  "set_Add hc s v = gmap_put (hc v) v s"

definition set_Delete :: "('v \<Rightarrow> 'h) \<Rightarrow> ('h, 'v) dset \<Rightarrow> 'v \<Rightarrow> ('h, 'v) dset" where
  "set_Delete hc s v = gmap_del (hc v) s"

definition set_Include :: "('v \<Rightarrow> 'h) \<Rightarrow> ('h, 'v) dset \<Rightarrow> 'v \<Rightarrow> bool" where
  "set_Include hc s v = (case gmap_get s (hc v) of None \<Rightarrow> False | Some _ \<Rightarrow> True)"

definition set_List :: "('h, 'v) dset \<Rightarrow> 'v list" where
  "set_List s = gmap_vals s"

definition set_Copy :: "('h, 'v) dset \<Rightarrow> ('h, 'v) dset" where
  "set_Copy s = foldl (\<lambda>c (k, v). gmap_put k v c) [] s"

definition set_Filter :: "('v \<Rightarrow> 'h) \<Rightarrow> ('h, 'v) dset \<Rightarrow> ('v \<Rightarrow> bool) \<Rightarrow> ('h, 'v) dset" where
  "set_Filter hc s cb = foldl (\<lambda>r v. if cb v then set_Add hc r v else r) [] (set_List s)"

definition set_Intersection :: "('v \<Rightarrow> 'h) \<Rightarrow> ('h, 'v) dset \<Rightarrow> ('h, 'v) dset \<Rightarrow> ('h, 'v) dset" where
  "set_Intersection hc s other =
     (let (s', other') = (if set_Len other < set_Len s then (other, s) else (s, other))
      in foldl (\<lambda>r v. if set_Include hc other' v then set_Add hc r v else r) [] (set_List s'))"

definition set_Difference :: "('v \<Rightarrow> 'h) \<Rightarrow> ('h, 'v) dset \<Rightarrow> ('h, 'v) dset \<Rightarrow> ('h, 'v) dset" where
  "set_Difference hc s other =
     (if set_Len other = 0 then set_Copy s
      else foldl (\<lambda>r (k, v). if gmap_get other k = None then set_Add hc r v else r) [] s)"

section \<open>Invariant and abstraction\<close>

definition dset_wf :: "('v \<Rightarrow> 'h) \<Rightarrow> ('h, 'v) dset \<Rightarrow> bool" where
  "dset_wf hc s \<longleftrightarrow> gmap_ok s \<and> list_all (\<lambda>(k, v). k = hc v) s"

definition dset_elems :: "('h, 'v) dset \<Rightarrow> 'v set" where
  "dset_elems s = set (gmap_vals s)"

lemma dset_wf_Nil [simp]: "dset_wf hc []"
  by (simp add: dset_wf_def)

lemma dset_elems_Nil [simp]: "dset_elems [] = {}"
  by (simp add: dset_elems_def gmap_vals_def)

lemma dset_elems_iff: "v \<in> dset_elems s \<longleftrightarrow> (\<exists>k. (k, v) \<in> set s)"
  by (force simp: dset_elems_def gmap_vals_def)

lemma finite_dset_elems [simp]: "finite (dset_elems s)"
  by (simp add: dset_elems_def)

lemma set_set_List [simp]: "set (set_List s) = dset_elems s"
  by (simp add: set_List_def dset_elems_def)

lemma dset_wfD:
  assumes "dset_wf hc s"
  shows "gmap_ok s" and "(k, v) \<in> set s \<Longrightarrow> k = hc v"
  using assms by (auto simp: dset_wf_def list_all_iff)

lemma dset_elems_hc: "dset_wf hc s \<Longrightarrow> v \<in> dset_elems s \<longleftrightarrow> (hc v, v) \<in> set s"
  by (auto simp: dset_elems_iff dest: dset_wfD(2))

lemma dset_keys_elems: "dset_wf hc s \<Longrightarrow> gmap_keys s = hc ` dset_elems s"
  by (force simp: gmap_keys_def dset_elems_iff dest: dset_wfD)

lemma dset_elems_code_inj:
  assumes "dset_wf hc s" "u \<in> dset_elems s" "v \<in> dset_elems s" "hc u = hc v"
  shows "u = v"
  using assms dset_wfD[OF assms(1)]
  by (metis dset_elems_iff gmap_get_in_set option.inject)

text \<open>
  The interface the graph relies on.  The abstraction is the set of hash codes; it
  needs no assumption on the hash function.
\<close>

locale hash_set =
  fixes hc :: "'v \<Rightarrow> 'h"
    and add :: "'s \<Rightarrow> 'v \<Rightarrow> 's"
    and del :: "'s \<Rightarrow> 'v \<Rightarrow> 's"
    and inc :: "'s \<Rightarrow> 'v \<Rightarrow> bool"
    and codes :: "'s \<Rightarrow> 'h set"
    and elems :: "'s \<Rightarrow> 'v set"
    and wf :: "'s \<Rightarrow> bool"
  assumes inc_iff: "wf s \<Longrightarrow> inc s v \<longleftrightarrow> hc v \<in> codes s"
    and codes_elems: "wf s \<Longrightarrow> codes s = hc ` elems s"
    and elems_add: "wf s \<Longrightarrow> elems (add s v) = insert v {u \<in> elems s. hc u \<noteq> hc v}"
    and elems_del: "wf s \<Longrightarrow> elems (del s v) = {u \<in> elems s. hc u \<noteq> hc v}"
    and wf_add: "wf s \<Longrightarrow> wf (add s v)"
    and wf_del: "wf s \<Longrightarrow> wf (del s v)"
begin

lemma codes_add: "wf s \<Longrightarrow> codes (add s v) = insert (hc v) (codes s)"
  by (auto simp: codes_elems wf_add elems_add)

lemma codes_del: "wf s \<Longrightarrow> codes (del s v) = codes s - {hc v}"
  by (auto simp: codes_elems wf_del elems_del)

lemma wf_foldl_add:
  "wf s \<Longrightarrow> wf (foldl (\<lambda>r v. if P v then add r v else r) s vs)"
  by (induction vs arbitrary: s) (auto simp: wf_add)

lemma codes_foldl_add:
  "wf s \<Longrightarrow> codes (foldl (\<lambda>r v. if P v then add r v else r) s vs) = codes s \<union> hc ` {v \<in> set vs. P v}"
  by (induction vs arbitrary: s) (auto simp: wf_add codes_add)

lemma elems_foldl_add:
  assumes "inj hc"
  shows "wf s \<Longrightarrow> elems (foldl (\<lambda>r v. if P v then add r v else r) s vs) = elems s \<union> {v \<in> set vs. P v}"
  using assms by (induction vs arbitrary: s) (auto simp: wf_add elems_add inj_eq)

lemma elems_add_inj: "inj hc \<Longrightarrow> wf s \<Longrightarrow> elems (add s v) = insert v (elems s)"
  by (auto simp: elems_add inj_eq)

lemma elems_del_inj: "inj hc \<Longrightarrow> wf s \<Longrightarrow> elems (del s v) = elems s - {v}"
  by (auto simp: elems_del inj_eq)

lemma inc_inj: "inj hc \<Longrightarrow> wf s \<Longrightarrow> inc s v \<longleftrightarrow> v \<in> elems s"
  by (auto simp: inc_iff codes_elems inj_eq)

end

lemma set_Add_wf: "dset_wf hc s \<Longrightarrow> dset_wf hc (set_Add hc s v)"
  using set_update_subset[of "hc v" v s]
  by (fastforce simp: dset_wf_def set_Add_def list_all_iff gomap_simps)

lemma set_Delete_wf: "dset_wf hc s \<Longrightarrow> dset_wf hc (set_Delete hc s v)"
  using set_delete_subset[of "hc v" s]
  by (fastforce simp: dset_wf_def set_Delete_def list_all_iff gomap_simps)

lemma set_Add_elems:
  "dset_wf hc s \<Longrightarrow> dset_elems (set_Add hc s v) = insert v {u \<in> dset_elems s. hc u \<noteq> hc v}"
  using dset_elems_hc[OF set_Add_wf, of hc s] dset_elems_hc[of hc s]
  by (auto simp: set_Add_def set_update_iff dset_wfD(1))

lemma set_Delete_elems:
  "dset_wf hc s \<Longrightarrow> dset_elems (set_Delete hc s v) = {u \<in> dset_elems s. hc u \<noteq> hc v}"
  using dset_elems_hc[OF set_Delete_wf, of hc s] dset_elems_hc[of hc s]
  by (auto simp: set_Delete_def set_delete_iff)

lemma set_Include_code: "set_Include hc s v \<longleftrightarrow> hc v \<in> gmap_keys s"
  by (auto simp: set_Include_def gm.keys_get split: option.splits)

interpretation ds: hash_set hc "set_Add hc" "set_Delete hc" "set_Include hc" gmap_keys
    dset_elems "dset_wf hc" for hc :: "'v \<Rightarrow> 'h"
  by unfold_locales
    (simp_all add: set_Include_code dset_keys_elems set_Add_elems set_Delete_elems
      set_Add_wf set_Delete_wf)

lemmas dset_simps = ds.elems_add_inj ds.elems_del_inj ds.inc_inj

lemma distinct_set_List: "dset_wf hc s \<Longrightarrow> distinct (set_List s)"
proof (induction s)
  case (Cons e s)
  then show ?case by (cases e) (force simp: dset_wf_def gmap_ok_def set_List_def gmap_vals_def list_all_iff)
qed (simp add: set_List_def gmap_vals_def)

section \<open>The derived operations\<close>

lemma foldl_put_append:
  "distinct (map fst (c @ s)) \<Longrightarrow> foldl (\<lambda>c (k, v). gmap_put k v c) c s = c @ s"
proof (induction s arbitrary: c)
  case (Cons e s)
  obtain k v where e: "e = (k, v)" by (cases e)
  from Cons.prems e have "k \<notin> fst ` set c" by auto
  then have put: "gmap_put k v c = c @ [(k, v)]"
    by (induction c) auto
  from Cons.prems e have "distinct (map fst ((c @ [(k, v)]) @ s))" by auto
  then show ?case using Cons.IH[of "c @ [(k, v)]"] e put by simp
qed simp

lemma set_Copy_eq: "gmap_ok s \<Longrightarrow> set_Copy s = s"
  using foldl_put_append[of "[]" s] by (simp add: set_Copy_def gmap_ok_def)

lemma set_Filter_wf: "dset_wf hc (set_Filter hc s cb)"
  unfolding set_Filter_def by (rule ds.wf_foldl_add) simp

lemma set_Filter_elems: "inj hc \<Longrightarrow> dset_elems (set_Filter hc s cb) = {v \<in> dset_elems s. cb v}"
  by (simp add: set_Filter_def ds.elems_foldl_add)

lemma set_Intersection_wf: "dset_wf hc (set_Intersection hc s t)"
  by (simp add: set_Intersection_def ds.wf_foldl_add split: if_splits)

lemma set_Intersection_elems:
  assumes "inj hc" "dset_wf hc s" "dset_wf hc t"
  shows "dset_elems (set_Intersection hc s t) = dset_elems s \<inter> dset_elems t"
  using assms by (auto simp: set_Intersection_def ds.elems_foldl_add ds.inc_inj split: if_splits)

lemma foldl_entries:
  assumes "list_all (\<lambda>(k, v). k = hc v) s"
  shows "foldl (\<lambda>r (k, v). if P k then f r v else r) a s =
         foldl (\<lambda>r v. if P (hc v) then f r v else r) a (set_List s)"
  using assms by (induction s arbitrary: a) (auto simp: set_List_def gmap_vals_def)

lemma set_Difference_unfold:
  assumes "dset_wf hc s"
  shows "set_Difference hc s t = (if t = [] then s
    else foldl (\<lambda>r v. if gmap_get t (hc v) = None then set_Add hc r v else r) [] (set_List s))"
  using assms foldl_entries[of hc s "\<lambda>k. gmap_get t k = None" "set_Add hc" "[]"]
  by (auto simp: set_Difference_def set_Len_def set_Copy_eq dset_wf_def)

lemma set_Difference_wf: "dset_wf hc s \<Longrightarrow> dset_wf hc (set_Difference hc s t)"
  by (simp add: set_Difference_unfold ds.wf_foldl_add)

lemma set_Difference_elems:
  assumes "inj hc" "dset_wf hc s" "dset_wf hc t"
  shows "dset_elems (set_Difference hc s t) = dset_elems s - dset_elems t"
proof -
  have "gmap_get t (hc v) = None \<longleftrightarrow> v \<notin> dset_elems t" for v
    using gm.keys_get[of "hc v" t] dset_keys_elems[OF assms(3)] assms(1) by (auto simp: inj_eq)
  then show ?thesis
    using assms by (auto simp: set_Difference_unfold ds.elems_foldl_add)
qed

end
