(* ===== verification/Dag_Graph.thy ===== *)
theory Dag_Graph
  imports Dag_Set
begin

text \<open>
  The graph type of package \<^verbatim>\<open>internal/dag\<close> (\<^verbatim>\<open>graph.go\<close>, \<^verbatim>\<open>edge.go\<close>): a vertex set, an edge
  set and two adjacency maps that repeat the edge set in both directions.  The
  lemmas show that every operation keeps the three views of the edges in agreement
  (\<open>graph_wf\<close>) and give the edge relation (\<open>edge_rel\<close>) after it.  The method
  \<^verbatim>\<open>init\<close>, which replaces nil maps by empty ones, changes nothing here, because a nil
  map and an empty map are the same list.
\<close>

section \<open>Edges and graphs\<close>

record 'v basicEdge =
  edge_S :: 'v
  edge_T :: 'v

definition BasicEdge :: "'v \<Rightarrow> 'v \<Rightarrow> 'v basicEdge" where
  "BasicEdge source target = \<lparr>edge_S = source, edge_T = target\<rparr>"

definition edge_Hashcode :: "'v basicEdge \<Rightarrow> 'v \<times> 'v" where
  "edge_Hashcode e = (edge_S e, edge_T e)"

record ('h, 'v) graph =
  g_vertices :: "('h, 'v) dset"
  g_edges :: "('v \<times> 'v, 'v basicEdge) dset"
  g_downEdges :: "('h, ('h, 'v) dset) gomap"
  g_upEdges :: "('h, ('h, 'v) dset) gomap"

definition emptyGraph :: "('h, 'v) graph" where
  "emptyGraph = \<lparr>g_vertices = [], g_edges = [], g_downEdges = [], g_upEdges = []\<rparr>"

section \<open>Reading\<close>

definition graph_Vertices :: "('h, 'v) graph \<Rightarrow> 'v list" where
  "graph_Vertices g = set_List (g_vertices g)"

definition graph_Edges :: "('h, 'v) graph \<Rightarrow> 'v basicEdge list" where
  "graph_Edges g = set_List (g_edges g)"

definition graph_EdgesFrom :: "('v \<Rightarrow> 'h) \<Rightarrow> ('h, 'v) graph \<Rightarrow> 'v \<Rightarrow> 'v basicEdge list" where
  "graph_EdgesFrom hc g v = filter (\<lambda>e. hc (edge_S e) = hc v) (graph_Edges g)"

definition graph_EdgesTo :: "('v \<Rightarrow> 'h) \<Rightarrow> ('h, 'v) graph \<Rightarrow> 'v \<Rightarrow> 'v basicEdge list" where
  "graph_EdgesTo hc g v = filter (\<lambda>e. hc (edge_T e) = hc v) (graph_Edges g)"

definition graph_HasVertex :: "('v \<Rightarrow> 'h) \<Rightarrow> ('h, 'v) graph \<Rightarrow> 'v \<Rightarrow> bool" where
  "graph_HasVertex hc g v = set_Include hc (g_vertices g) v"

definition graph_HasEdge :: "('h, 'v) graph \<Rightarrow> 'v basicEdge \<Rightarrow> bool" where
  "graph_HasEdge g e = set_Include edge_Hashcode (g_edges g) e"

definition downEdgesNoCopy :: "('v \<Rightarrow> 'h) \<Rightarrow> ('h, 'v) graph \<Rightarrow> 'v \<Rightarrow> ('h, 'v) dset" where
  "downEdgesNoCopy hc g v = (case gmap_get (g_downEdges g) (hc v) of None \<Rightarrow> [] | Some s \<Rightarrow> s)"

definition upEdgesNoCopy :: "('v \<Rightarrow> 'h) \<Rightarrow> ('h, 'v) graph \<Rightarrow> 'v \<Rightarrow> ('h, 'v) dset" where
  "upEdgesNoCopy hc g v = (case gmap_get (g_upEdges g) (hc v) of None \<Rightarrow> [] | Some s \<Rightarrow> s)"

definition graph_DownEdges :: "('v \<Rightarrow> 'h) \<Rightarrow> ('h, 'v) graph \<Rightarrow> 'v \<Rightarrow> ('h, 'v) dset" where
  "graph_DownEdges hc g v = set_Copy (downEdgesNoCopy hc g v)"

definition graph_UpEdges :: "('v \<Rightarrow> 'h) \<Rightarrow> ('h, 'v) graph \<Rightarrow> 'v \<Rightarrow> ('h, 'v) dset" where
  "graph_UpEdges hc g v = set_Copy (upEdgesNoCopy hc g v)"

section \<open>Writing\<close>

definition graph_Add :: "('v \<Rightarrow> 'h) \<Rightarrow> ('h, 'v) graph \<Rightarrow> 'v \<Rightarrow> ('h, 'v) graph" where
  "graph_Add hc g v = g\<lparr>g_vertices := set_Add hc (g_vertices g) v\<rparr>"

definition adj_add ::
  "('v \<Rightarrow> 'h) \<Rightarrow> ('h, ('h, 'v) dset) gomap \<Rightarrow> 'v \<Rightarrow> 'v \<Rightarrow> ('h, ('h, 'v) dset) gomap" where
  "adj_add hc m u v =
     (let s = (case gmap_get m (hc u) of None \<Rightarrow> [] | Some s \<Rightarrow> s)
      in gmap_put (hc u) (set_Add hc s v) m)"

definition adj_del ::
  "('v \<Rightarrow> 'h) \<Rightarrow> ('h, ('h, 'v) dset) gomap \<Rightarrow> 'v \<Rightarrow> 'v \<Rightarrow> ('h, ('h, 'v) dset) gomap" where
  "adj_del hc m u v =
     (case gmap_get m (hc u) of None \<Rightarrow> m | Some s \<Rightarrow> gmap_put (hc u) (set_Delete hc s v) m)"

definition graph_Connect :: "('v \<Rightarrow> 'h) \<Rightarrow> ('h, 'v) graph \<Rightarrow> 'v basicEdge \<Rightarrow> ('h, 'v) graph" where
  "graph_Connect hc g edge =
     (let source = edge_S edge; target = edge_T edge in
      if (case gmap_get (g_downEdges g) (hc source) of
            None \<Rightarrow> False | Some s \<Rightarrow> set_Include hc s target)
      then g
      else g\<lparr>g_edges := set_Add edge_Hashcode (g_edges g) edge,
             g_downEdges := adj_add hc (g_downEdges g) source target,
             g_upEdges := adj_add hc (g_upEdges g) target source\<rparr>)"

definition graph_RemoveEdge :: "('v \<Rightarrow> 'h) \<Rightarrow> ('h, 'v) graph \<Rightarrow> 'v basicEdge \<Rightarrow> ('h, 'v) graph" where
  "graph_RemoveEdge hc g edge =
     g\<lparr>g_edges := set_Delete edge_Hashcode (g_edges g) edge,
       g_downEdges := adj_del hc (g_downEdges g) (edge_S edge) (edge_T edge),
       g_upEdges := adj_del hc (g_upEdges g) (edge_T edge) (edge_S edge)\<rparr>"

definition graph_Remove :: "('v \<Rightarrow> 'h) \<Rightarrow> ('h, 'v) graph \<Rightarrow> 'v \<Rightarrow> ('h, 'v) graph" where
  "graph_Remove hc g v =
     (let g1 = g\<lparr>g_vertices := set_Delete hc (g_vertices g) v\<rparr>;
          g2 = foldl (\<lambda>g target. graph_RemoveEdge hc g (BasicEdge v target)) g1
                 (set_List (downEdgesNoCopy hc g1 v))
      in foldl (\<lambda>g source. graph_RemoveEdge hc g (BasicEdge source v)) g2
           (set_List (upEdgesNoCopy hc g2 v)))"

definition graph_Replace ::
  "('v \<Rightarrow> 'h) \<Rightarrow> ('h, 'v) graph \<Rightarrow> 'v \<Rightarrow> 'v \<Rightarrow> ('h, 'v) graph \<times> bool" where
  "graph_Replace hc g original replacement =
     (if \<not> set_Include hc (g_vertices g) original then (g, False)
      else if original = replacement then (g, True)
      else
        let g1 = graph_Add hc g replacement;
            g2 = foldl (\<lambda>g target. graph_Connect hc g (BasicEdge replacement target)) g1
                   (set_List (downEdgesNoCopy hc g1 original));
            g3 = foldl (\<lambda>g source. graph_Connect hc g (BasicEdge source replacement)) g2
                   (set_List (upEdgesNoCopy hc g2 original))
        in (graph_Remove hc g3 original, True))"

definition graph_Subsume :: "('v \<Rightarrow> 'h) \<Rightarrow> ('h, 'v) graph \<Rightarrow> ('h, 'v) graph \<Rightarrow> ('h, 'v) graph" where
  "graph_Subsume hc g other =
     foldl (graph_Connect hc) (foldl (graph_Add hc) g (graph_Vertices other)) (graph_Edges other)"

section \<open>Invariant and abstraction\<close>

definition edge_rel :: "('h, 'v) graph \<Rightarrow> ('v \<times> 'v) set" where
  "edge_rel g = edge_Hashcode ` dset_elems (g_edges g)"

definition vertex_set :: "('h, 'v) graph \<Rightarrow> 'v set" where
  "vertex_set g = dset_elems (g_vertices g)"

definition adj_wf :: "('v \<Rightarrow> 'h) \<Rightarrow> ('h, ('h, 'v) dset) gomap \<Rightarrow> bool" where
  "adj_wf hc m \<longleftrightarrow> gmap_ok m \<and> list_all (\<lambda>(k, s). dset_wf hc s) m"

definition adj_elems :: "('v \<Rightarrow> 'h) \<Rightarrow> ('h, ('h, 'v) dset) gomap \<Rightarrow> 'v \<Rightarrow> 'v set" where
  "adj_elems hc m u = (case gmap_get m (hc u) of None \<Rightarrow> {} | Some s \<Rightarrow> dset_elems s)"

definition graph_wf :: "('v \<Rightarrow> 'h) \<Rightarrow> ('h, 'v) graph \<Rightarrow> bool" where
  "graph_wf hc g \<longleftrightarrow>
     dset_wf hc (g_vertices g) \<and> dset_wf edge_Hashcode (g_edges g) \<and>
     adj_wf hc (g_downEdges g) \<and> adj_wf hc (g_upEdges g) \<and>
     (\<forall>u. adj_elems hc (g_downEdges g) u = edge_rel g `` {u}) \<and>
     (\<forall>v. adj_elems hc (g_upEdges g) v = (edge_rel g)\<inverse> `` {v})"

text \<open>Every edge connects two vertices of the graph.\<close>

definition graph_closed :: "('h, 'v) graph \<Rightarrow> bool" where
  "graph_closed g \<longleftrightarrow> (\<forall>(u, v) \<in> edge_rel g. u \<in> vertex_set g \<and> v \<in> vertex_set g)"

lemma inj_edge_Hashcode: "inj edge_Hashcode"
  by (rule injI) (simp add: edge_Hashcode_def)

lemma edge_Hashcode_BasicEdge [simp]: "edge_Hashcode (BasicEdge u v) = (u, v)"
  by (simp add: edge_Hashcode_def BasicEdge_def)

lemma BasicEdge_sel [simp]: "edge_S (BasicEdge u v) = u" "edge_T (BasicEdge u v) = v"
  by (simp_all add: BasicEdge_def)

lemma finite_edge_rel [simp]: "finite (edge_rel g)"
  by (simp add: edge_rel_def)

lemma finite_vertex_set [simp]: "finite (vertex_set g)"
  by (simp add: vertex_set_def)

lemma set_graph_Vertices [simp]: "set (graph_Vertices g) = vertex_set g"
  by (simp add: graph_Vertices_def vertex_set_def)

lemma set_graph_Edges: "edge_Hashcode ` set (graph_Edges g) = edge_rel g"
  by (simp add: graph_Edges_def edge_rel_def)

lemma NoCopy_elems:
  "dset_elems (downEdgesNoCopy hc g u) = adj_elems hc (g_downEdges g) u"
  "dset_elems (upEdgesNoCopy hc g u) = adj_elems hc (g_upEdges g) u"
  by (simp_all add: adj_elems_def downEdgesNoCopy_def upEdgesNoCopy_def split: option.split)

lemma graph_wf_adj:
  assumes "graph_wf hc g"
  shows "dset_elems (downEdgesNoCopy hc g u) = edge_rel g `` {u}"
    and "dset_elems (upEdgesNoCopy hc g u) = (edge_rel g)\<inverse> `` {u}"
  using assms by (simp_all add: graph_wf_def NoCopy_elems)

lemma emptyGraph_wf: "graph_wf hc emptyGraph" "edge_rel emptyGraph = {}" "vertex_set emptyGraph = {}"
  by (simp_all add: emptyGraph_def graph_wf_def adj_wf_def adj_elems_def edge_rel_def vertex_set_def)

subsection \<open>Adjacency maps\<close>

lemma adj_wf_get: "adj_wf hc m \<Longrightarrow> gmap_get m k = Some s \<Longrightarrow> dset_wf hc s"
  by (auto simp: adj_wf_def list_all_iff dest: map_of_SomeD)

lemma adj_wf_put: "adj_wf hc m \<Longrightarrow> dset_wf hc s \<Longrightarrow> adj_wf hc (gmap_put k s m)"
  using set_update_subset[of k s m] by (fastforce simp: adj_wf_def list_all_iff gomap_simps)

lemma adj_add_wf: "adj_wf hc m \<Longrightarrow> adj_wf hc (adj_add hc m u v)"
  by (auto simp: adj_add_def Let_def split: option.split
      intro!: adj_wf_put set_Add_wf dest: adj_wf_get)

lemma adj_del_wf: "adj_wf hc m \<Longrightarrow> adj_wf hc (adj_del hc m u v)"
  by (auto simp: adj_del_def split: option.split intro!: adj_wf_put set_Delete_wf dest: adj_wf_get)

lemma adj_add_elems:
  assumes "inj hc" "adj_wf hc m"
  shows "adj_elems hc (adj_add hc m u v) w =
         (if w = u then insert v (adj_elems hc m u) else adj_elems hc m w)"
  using assms
  by (auto simp: adj_add_def adj_elems_def gomap_simps inj_eq dset_simps
      split: option.split dest: adj_wf_get)

lemma adj_del_elems:
  assumes "inj hc" "adj_wf hc m"
  shows "adj_elems hc (adj_del hc m u v) w =
         (if w = u then adj_elems hc m u - {v} else adj_elems hc m w)"
  using assms
  by (auto simp: adj_del_def adj_elems_def gomap_simps inj_eq dset_simps
      split: option.split dest: adj_wf_get)

lemma adj_include:
  assumes "inj hc" "adj_wf hc m"
  shows "(case gmap_get m (hc u) of None \<Rightarrow> False | Some s \<Rightarrow> set_Include hc s v) \<longleftrightarrow> v \<in> adj_elems hc m u"
  using assms by (auto simp: adj_elems_def dset_simps split: option.split dest: adj_wf_get)

lemma NoCopy_wf:
  assumes "graph_wf hc g"
  shows "dset_wf hc (downEdgesNoCopy hc g u)" and "dset_wf hc (upEdgesNoCopy hc g u)"
  using assms
  by (auto simp: graph_wf_def downEdgesNoCopy_def upEdgesNoCopy_def split: option.split dest: adj_wf_get)

subsection \<open>Operations keep the invariant\<close>

lemma graph_Add_spec:
  assumes "inj hc" "graph_wf hc g"
  shows "graph_wf hc (graph_Add hc g v)" and "edge_rel (graph_Add hc g v) = edge_rel g"
    and "vertex_set (graph_Add hc g v) = insert v (vertex_set g)"
  using assms
  by (auto simp: graph_Add_def graph_wf_def edge_rel_def vertex_set_def set_Add_wf dset_simps)

lemma graph_Connect_spec:
  assumes inj: "inj hc" and wf: "graph_wf hc g"
  shows "graph_wf hc (graph_Connect hc g e)"
    and "edge_rel (graph_Connect hc g e) = insert (edge_Hashcode e) (edge_rel g)"
    and "vertex_set (graph_Connect hc g e) = vertex_set g"
proof -
  let ?g = "graph_Connect hc g e"
  let ?dup = "case gmap_get (g_downEdges g) (hc (edge_S e)) of
            None \<Rightarrow> False | Some s \<Rightarrow> set_Include hc s (edge_T e)"
  have dup: "?dup \<longleftrightarrow> edge_Hashcode e \<in> edge_rel g"
    using wf inj by (simp add: adj_include graph_wf_def edge_Hashcode_def)
  show rel: "edge_rel ?g = insert (edge_Hashcode e) (edge_rel g)"
    using dup wf
    by (auto simp: graph_Connect_def Let_def edge_rel_def graph_wf_def dset_simps inj_edge_Hashcode)
  show "vertex_set ?g = vertex_set g"
    by (simp add: graph_Connect_def Let_def vertex_set_def)
  show "graph_wf hc ?g"
  proof (cases ?dup)
    case True
    then show ?thesis using wf by (simp add: graph_Connect_def Let_def)
  next
    case False
    then have adj: "g_downEdges ?g = adj_add hc (g_downEdges g) (edge_S e) (edge_T e)"
      "g_upEdges ?g = adj_add hc (g_upEdges g) (edge_T e) (edge_S e)"
      "g_vertices ?g = g_vertices g" "g_edges ?g = set_Add edge_Hashcode (g_edges g) e"
      by (simp_all add: graph_Connect_def Let_def)
    show ?thesis
      unfolding graph_wf_def rel adj
      using wf inj
      by (auto simp: graph_wf_def set_Add_wf adj_add_wf adj_add_elems edge_Hashcode_def)
  qed
qed

lemma graph_RemoveEdge_spec:
  assumes inj: "inj hc" and wf: "graph_wf hc g"
  shows "graph_wf hc (graph_RemoveEdge hc g e)"
    and "edge_rel (graph_RemoveEdge hc g e) = edge_rel g - {edge_Hashcode e}"
    and "vertex_set (graph_RemoveEdge hc g e) = vertex_set g"
proof -
  let ?g = "graph_RemoveEdge hc g e"
  show rel: "edge_rel ?g = edge_rel g - {edge_Hashcode e}"
    using wf
    by (simp add: graph_RemoveEdge_def edge_rel_def graph_wf_def
        ds.elems_del_inj[OF inj_edge_Hashcode] image_set_diff[OF inj_edge_Hashcode])
  show "vertex_set ?g = vertex_set g"
    by (simp add: graph_RemoveEdge_def vertex_set_def)
  have adj: "g_downEdges ?g = adj_del hc (g_downEdges g) (edge_S e) (edge_T e)"
      "g_upEdges ?g = adj_del hc (g_upEdges g) (edge_T e) (edge_S e)"
      "g_vertices ?g = g_vertices g" "g_edges ?g = set_Delete edge_Hashcode (g_edges g) e"
    by (simp_all add: graph_RemoveEdge_def)
  show "graph_wf hc ?g"
    unfolding graph_wf_def rel adj
    using wf inj
    by (auto simp: graph_wf_def set_Delete_wf adj_del_wf adj_del_elems edge_Hashcode_def)
qed

text \<open>A loop of edge insertions or removals.\<close>

lemma foldl_Connect_spec:
  assumes "inj hc" "graph_wf hc g"
  shows "graph_wf hc (foldl (\<lambda>g x. graph_Connect hc g (f x)) g xs) \<and>
    edge_rel (foldl (\<lambda>g x. graph_Connect hc g (f x)) g xs) = edge_rel g \<union> (edge_Hashcode \<circ> f) ` set xs \<and>
    vertex_set (foldl (\<lambda>g x. graph_Connect hc g (f x)) g xs) = vertex_set g"
  using assms(2) by (induction xs arbitrary: g) (auto simp: graph_Connect_spec[OF assms(1)])

lemma foldl_RemoveEdge_spec:
  assumes "inj hc" "graph_wf hc g"
  shows "graph_wf hc (foldl (\<lambda>g x. graph_RemoveEdge hc g (f x)) g xs) \<and>
    edge_rel (foldl (\<lambda>g x. graph_RemoveEdge hc g (f x)) g xs) = edge_rel g - (edge_Hashcode \<circ> f) ` set xs \<and>
    vertex_set (foldl (\<lambda>g x. graph_RemoveEdge hc g (f x)) g xs) = vertex_set g"
  using assms(2) by (induction xs arbitrary: g) (auto simp: graph_RemoveEdge_spec[OF assms(1)])

lemma foldl_Add_spec:
  assumes "inj hc" "graph_wf hc g"
  shows "graph_wf hc (foldl (graph_Add hc) g vs) \<and>
    edge_rel (foldl (graph_Add hc) g vs) = edge_rel g \<and>
    vertex_set (foldl (graph_Add hc) g vs) = vertex_set g \<union> set vs"
  using assms(2) by (induction vs arbitrary: g) (auto simp: graph_Add_spec[OF assms(1)])

lemma graph_Remove_spec:
  assumes inj: "inj hc" and wf: "graph_wf hc g"
  shows "graph_wf hc (graph_Remove hc g v)"
    and "edge_rel (graph_Remove hc g v) = {(a, b) \<in> edge_rel g. a \<noteq> v \<and> b \<noteq> v}"
    and "vertex_set (graph_Remove hc g v) = vertex_set g - {v}"
proof -
  define g1 where "g1 = g\<lparr>g_vertices := set_Delete hc (g_vertices g) v\<rparr>"
  define g2 where "g2 = foldl (\<lambda>g target. graph_RemoveEdge hc g (BasicEdge v target)) g1
                 (set_List (downEdgesNoCopy hc g1 v))"
  have g1: "graph_wf hc g1" "edge_rel g1 = edge_rel g" "vertex_set g1 = vertex_set g - {v}"
    using inj wf by (auto simp: g1_def graph_wf_def edge_rel_def vertex_set_def set_Delete_wf dset_simps)
  have g2: "graph_wf hc g2" "edge_rel g2 = {(a, b) \<in> edge_rel g. a \<noteq> v}" "vertex_set g2 = vertex_set g - {v}"
    using foldl_RemoveEdge_spec[OF inj g1(1), of "BasicEdge v" "set_List (downEdgesNoCopy hc g1 v)"]
    by (auto simp: g2_def g1 graph_wf_adj)
  have "graph_Remove hc g v =
      foldl (\<lambda>g source. graph_RemoveEdge hc g (BasicEdge source v)) g2 (set_List (upEdgesNoCopy hc g2 v))"
    by (simp add: graph_Remove_def g1_def g2_def Let_def)
  then show "graph_wf hc (graph_Remove hc g v)"
    and "edge_rel (graph_Remove hc g v) = {(a, b) \<in> edge_rel g. a \<noteq> v \<and> b \<noteq> v}"
    and "vertex_set (graph_Remove hc g v) = vertex_set g - {v}"
    using foldl_RemoveEdge_spec[OF inj g2(1), of "\<lambda>s. BasicEdge s v" "set_List (upEdgesNoCopy hc g2 v)"]
    by (auto simp: g2 graph_wf_adj)
qed

lemma graph_Replace_spec:
  assumes inj: "inj hc" and wf: "graph_wf hc g" and v: "orig \<in> vertex_set g" and neq: "orig \<noteq> repl"
  defines "f \<equiv> (\<lambda>x. if x = orig then repl else x)"
  shows "graph_wf hc (fst (graph_Replace hc g orig repl))"
    and "edge_rel (fst (graph_Replace hc g orig repl)) = map_prod f f ` edge_rel g"
    and "vertex_set (fst (graph_Replace hc g orig repl)) = f ` vertex_set g"
proof -
  define g1 where "g1 = graph_Add hc g repl"
  define g2 where "g2 = foldl (\<lambda>g target. graph_Connect hc g (BasicEdge repl target)) g1
                   (set_List (downEdgesNoCopy hc g1 orig))"
  define g3 where "g3 = foldl (\<lambda>g source. graph_Connect hc g (BasicEdge source repl)) g2
                   (set_List (upEdgesNoCopy hc g2 orig))"
  have g1: "graph_wf hc g1" "edge_rel g1 = edge_rel g" "vertex_set g1 = insert repl (vertex_set g)"
    by (simp_all add: g1_def graph_Add_spec[OF inj wf])
  have g2: "graph_wf hc g2" "edge_rel g2 = edge_rel g \<union> Pair repl ` (edge_rel g `` {orig})"
    "vertex_set g2 = insert repl (vertex_set g)"
    using foldl_Connect_spec[OF inj g1(1), of "BasicEdge repl" "set_List (downEdgesNoCopy hc g1 orig)"]
    by (auto simp: g2_def g1 graph_wf_adj)
  have g3: "graph_wf hc g3" "edge_rel g3 = edge_rel g2 \<union> (\<lambda>s. (s, repl)) ` ((edge_rel g2)\<inverse> `` {orig})"
    "vertex_set g3 = insert repl (vertex_set g)"
    using foldl_Connect_spec[OF inj g2(1), of "\<lambda>s. BasicEdge s repl" "set_List (upEdgesNoCopy hc g2 orig)"]
    by (auto simp: g3_def g2(1,3) graph_wf_adj(2)[OF g2(1)])
  have inc: "set_Include hc (g_vertices g) orig"
    using v wf inj by (simp add: vertex_set_def graph_wf_def dset_simps)
  then have eq: "fst (graph_Replace hc g orig repl) = graph_Remove hc g3 orig"
    using neq by (simp add: graph_Replace_def g1_def g2_def g3_def Let_def)
  show "graph_wf hc (fst (graph_Replace hc g orig repl))"
    unfolding eq by (rule graph_Remove_spec[OF inj g3(1)])
  show "vertex_set (fst (graph_Replace hc g orig repl)) = f ` vertex_set g"
    unfolding eq graph_Remove_spec(3)[OF inj g3(1)] g3 using v neq by (auto simp: f_def)
  show "edge_rel (fst (graph_Replace hc g orig repl)) = map_prod f f ` edge_rel g"
    unfolding eq graph_Remove_spec(2)[OF inj g3(1)] g3 g2
    using neq by (force simp: f_def map_prod_def image_iff split: if_splits)
qed

lemma graph_Replace_absent:
  "inj hc \<Longrightarrow> graph_wf hc g \<Longrightarrow> orig \<notin> vertex_set g \<Longrightarrow> graph_Replace hc g orig repl = (g, False)"
  by (simp add: graph_Replace_def vertex_set_def graph_wf_def dset_simps)

lemma graph_Subsume_spec:
  assumes inj: "inj hc" and wf: "graph_wf hc g"
  shows "graph_wf hc (graph_Subsume hc g h)"
    and "edge_rel (graph_Subsume hc g h) = edge_rel g \<union> edge_rel h"
    and "vertex_set (graph_Subsume hc g h) = vertex_set g \<union> vertex_set h"
proof -
  define g1 where "g1 = foldl (graph_Add hc) g (graph_Vertices h)"
  have g1: "graph_wf hc g1" "edge_rel g1 = edge_rel g" "vertex_set g1 = vertex_set g \<union> vertex_set h"
    using foldl_Add_spec[OF inj wf, of "graph_Vertices h"] by (simp_all add: g1_def)
  have "graph_Subsume hc g h = foldl (\<lambda>g x. graph_Connect hc g (id x)) g1 (graph_Edges h)"
    by (simp add: graph_Subsume_def g1_def)
  then show "graph_wf hc (graph_Subsume hc g h)"
    and "edge_rel (graph_Subsume hc g h) = edge_rel g \<union> edge_rel h"
    and "vertex_set (graph_Subsume hc g h) = vertex_set g \<union> vertex_set h"
    using foldl_Connect_spec[OF inj g1(1), of id "graph_Edges h"]
    by (simp_all add: g1 set_graph_Edges)
qed

subsection \<open>The graph interface\<close>

text \<open>
  What the algorithms on graphs use: the two successor functions, one the converse of
  the other on well-formed graphs, and the removal of an edge.
\<close>

definition down_list :: "('v \<Rightarrow> 'h) \<Rightarrow> ('h, 'v) graph \<Rightarrow> 'v \<Rightarrow> 'v list" where
  "down_list hc g v = set_List (downEdgesNoCopy hc g v)"

definition up_list :: "('v \<Rightarrow> 'h) \<Rightarrow> ('h, 'v) graph \<Rightarrow> 'v \<Rightarrow> 'v list" where
  "up_list hc g v = set_List (upEdgesNoCopy hc g v)"

lemma set_down_list: "graph_wf hc g \<Longrightarrow> set (down_list hc g v) = edge_rel g `` {v}"
  by (simp add: down_list_def graph_wf_adj)

lemma set_up_list: "graph_wf hc g \<Longrightarrow> set (up_list hc g v) = (edge_rel g)\<inverse> `` {v}"
  by (simp add: up_list_def graph_wf_adj)

lemma finite_adj_lists:
  "finite (\<Union>v. set (set_List (case gmap_get m (f v) of None \<Rightarrow> [] | Some s \<Rightarrow> s)))"
proof (rule finite_subset)
  show "(\<Union>v. set (set_List (case gmap_get m (f v) of None \<Rightarrow> [] | Some s \<Rightarrow> s)))
        \<subseteq> (\<Union>s \<in> snd ` set m. dset_elems s)"
    by (force split: option.splits dest: map_of_SomeD)
qed simp

lemma finite_down: "finite (\<Union>v. set (down_list hc g v))"
  unfolding down_list_def downEdgesNoCopy_def by (rule finite_adj_lists)

lemma finite_up: "finite (\<Union>v. set (up_list hc g v))"
  unfolding up_list_def upEdgesNoCopy_def by (rule finite_adj_lists)

end
