(* ===== verification/Dag_Walk.thy ===== *)
theory Dag_Walk
  imports Dag_Graph "HOL-Library.Word"
begin

text \<open>
  Depth-first and breadth-first walks of \<^verbatim>\<open>internal/dag/dag.go\<close>.  The callback may change the
  state it is given, and the graph itself when the graph is part of that state, as
  \<^verbatim>\<open>TransitiveReduction\<close> does; \<open>gr\<close> reads the graph out of the state.  The loop has no
  bound of its own, so it is a \<^theory_text>\<open>partial_function (option)\<close> with \<open>None\<close> for a walk that does
  not end; the locale \<open>walk_client\<close> states what a callback has to promise, and shows
  that the walk then ends and has visited exactly the vertices reachable from the start
  set.  The \<^verbatim>\<open>test\<close> flag, which only sorts each frontier by name for the package's own
  tests, is left out.
\<close>

unbundle bit_operations_syntax

section \<open>Walk orders\<close>

type_synonym walkType = "64 word"

definition depthFirst :: walkType where "depthFirst = push_bit 0 1"
definition breadthFirst :: walkType where "breadthFirst = push_bit 1 1"
definition downOrder :: walkType where "downOrder = push_bit 2 1"
definition upOrder :: walkType where "upOrder = push_bit 3 1"

lemmas walk_order_defs = depthFirst_def breadthFirst_def downOrder_def upOrder_def

record 'v vertexAtDepth =
  vad_Vertex :: 'v
  vad_Depth :: nat

datatype 'e walk_exit = CallbackError 'e | PanicOrder

section \<open>The walk\<close>

definition appendNext :: "'v vertexAtDepth list \<Rightarrow> 'v list \<Rightarrow> nat \<Rightarrow> 'v vertexAtDepth list" where
  "appendNext frontier nxt depth = frontier @ map (\<lambda>v. \<lparr>vad_Vertex = v, vad_Depth = depth\<rparr>) nxt"

definition walk_pop ::
  "walkType \<Rightarrow> 'v vertexAtDepth list \<Rightarrow> 'e walk_exit + ('v vertexAtDepth \<times> 'v vertexAtDepth list)" where
  "walk_pop order frontier =
     (if order AND depthFirst \<noteq> 0 then Inr (last frontier, butlast frontier)
      else if order AND breadthFirst \<noteq> 0 then Inr (hd frontier, tl frontier)
      else Inl PanicOrder)"

definition walk_edges ::
  "walkType \<Rightarrow> ('v \<Rightarrow> 'h) \<Rightarrow> ('h, 'v) graph \<Rightarrow> 'v \<Rightarrow> 'e walk_exit + 'v list" where
  "walk_edges order hc g v =
     (if order AND downOrder \<noteq> 0 then Inr (down_list hc g v)
      else if order AND upOrder \<noteq> 0 then Inr (up_list hc g v)
      else Inl PanicOrder)"

partial_function (option) walk_loop ::
  "walkType \<Rightarrow> ('v \<Rightarrow> 'h) \<Rightarrow> ('s \<Rightarrow> ('h, 'v) graph) \<Rightarrow> ('v \<Rightarrow> nat \<Rightarrow> 's \<Rightarrow> 'e + 's) \<Rightarrow>
   'v list \<Rightarrow> 'v vertexAtDepth list \<Rightarrow> 's \<Rightarrow> ('e walk_exit + 's) option" where
  "walk_loop order hc gr f seen frontier s =
     (if frontier = [] then Some (Inr s)
      else case walk_pop order frontier of
        Inl x \<Rightarrow> Some (Inl x)
      | Inr cr \<Rightarrow>
          (if vad_Vertex (fst cr) \<in> set seen then walk_loop order hc gr f seen (snd cr) s
           else case f (vad_Vertex (fst cr)) (vad_Depth (fst cr)) s of
             Inl e \<Rightarrow> Some (Inl (CallbackError e))
           | Inr s' \<Rightarrow>
               (case walk_edges order hc (gr s') (vad_Vertex (fst cr)) of
                  Inl x \<Rightarrow> Some (Inl x)
                | Inr edges \<Rightarrow>
                    walk_loop order hc gr f (vad_Vertex (fst cr) # seen)
                      (appendNext (snd cr) edges (vad_Depth (fst cr) + 1)) s')))"

definition graph_walk ::
  "walkType \<Rightarrow> ('v \<Rightarrow> 'h) \<Rightarrow> ('s \<Rightarrow> ('h, 'v) graph) \<Rightarrow> ('h, 'v) dset \<Rightarrow>
   ('v \<Rightarrow> nat \<Rightarrow> 's \<Rightarrow> 'e + 's) \<Rightarrow> 's \<Rightarrow> ('e walk_exit + 's) option" where
  "graph_walk order hc gr start f s = walk_loop order hc gr f [] (appendNext [] (set_List start) 0) s"

definition DepthFirstWalk ::
  "('v \<Rightarrow> 'h) \<Rightarrow> ('s \<Rightarrow> ('h, 'v) graph) \<Rightarrow> ('h, 'v) dset \<Rightarrow>
   ('v \<Rightarrow> nat \<Rightarrow> 's \<Rightarrow> 'e + 's) \<Rightarrow> 's \<Rightarrow> ('e walk_exit + 's) option" where
  "DepthFirstWalk hc gr start f s = graph_walk (depthFirst OR downOrder) hc gr start f s"

definition ReverseDepthFirstWalk ::
  "('v \<Rightarrow> 'h) \<Rightarrow> ('s \<Rightarrow> ('h, 'v) graph) \<Rightarrow> ('h, 'v) dset \<Rightarrow>
   ('v \<Rightarrow> nat \<Rightarrow> 's \<Rightarrow> 'e + 's) \<Rightarrow> 's \<Rightarrow> ('e walk_exit + 's) option" where
  "ReverseDepthFirstWalk hc gr start f s = graph_walk (depthFirst OR upOrder) hc gr start f s"

definition BreadthFirstWalk ::
  "('v \<Rightarrow> 'h) \<Rightarrow> ('s \<Rightarrow> ('h, 'v) graph) \<Rightarrow> ('h, 'v) dset \<Rightarrow>
   ('v \<Rightarrow> nat \<Rightarrow> 's \<Rightarrow> 'e + 's) \<Rightarrow> 's \<Rightarrow> ('e walk_exit + 's) option" where
  "BreadthFirstWalk hc gr start f s = graph_walk (breadthFirst OR downOrder) hc gr start f s"

definition ReverseBreadthFirstWalk ::
  "('v \<Rightarrow> 'h) \<Rightarrow> ('s \<Rightarrow> ('h, 'v) graph) \<Rightarrow> ('h, 'v) dset \<Rightarrow>
   ('v \<Rightarrow> nat \<Rightarrow> 's \<Rightarrow> 'e + 's) \<Rightarrow> 's \<Rightarrow> ('e walk_exit + 's) option" where
  "ReverseBreadthFirstWalk hc gr start f s = graph_walk (breadthFirst OR upOrder) hc gr start f s"

text \<open>The two walks that collect what they visit.\<close>

definition memoFunc :: "('v \<Rightarrow> 'h) \<Rightarrow> 'v \<Rightarrow> nat \<Rightarrow> ('h, 'v) dset \<Rightarrow> unit + ('h, 'v) dset" where
  "memoFunc hc v d s = Inr (set_Add hc s v)"

definition Ancestors ::
  "('v \<Rightarrow> 'h) \<Rightarrow> ('h, 'v) graph \<Rightarrow> 'v \<Rightarrow> (unit walk_exit + ('h, 'v) dset) option" where
  "Ancestors hc g v = DepthFirstWalk hc (\<lambda>_. g) (downEdgesNoCopy hc g v) (memoFunc hc) []"

definition Descendents ::
  "('v \<Rightarrow> 'h) \<Rightarrow> ('h, 'v) graph \<Rightarrow> 'v \<Rightarrow> (unit walk_exit + ('h, 'v) dset) option" where
  "Descendents hc g v = ReverseDepthFirstWalk hc (\<lambda>_. g) (upEdgesNoCopy hc g v) (memoFunc hc) []"

section \<open>What a callback promises, and what the walk then does\<close>

lemma walk_orders_ok:
  "(depthFirst OR downOrder) AND depthFirst \<noteq> 0 \<or> (depthFirst OR downOrder) AND breadthFirst \<noteq> 0"
  "(depthFirst OR upOrder) AND depthFirst \<noteq> 0 \<or> (depthFirst OR upOrder) AND breadthFirst \<noteq> 0"
  "(breadthFirst OR downOrder) AND depthFirst \<noteq> 0 \<or> (breadthFirst OR downOrder) AND breadthFirst \<noteq> 0"
  "(breadthFirst OR upOrder) AND depthFirst \<noteq> 0 \<or> (breadthFirst OR upOrder) AND breadthFirst \<noteq> 0"
  by (simp_all add: walk_order_defs)

lemma walk_edges_orders:
  "walk_edges (depthFirst OR downOrder) hc g v = Inr (down_list hc g v)"
  "walk_edges (depthFirst OR upOrder) hc g v = Inr (up_list hc g v)"
  "walk_edges (breadthFirst OR downOrder) hc g v = Inr (down_list hc g v)"
  "walk_edges (breadthFirst OR upOrder) hc g v = Inr (up_list hc g v)"
  by (simp_all add: walk_edges_def walk_order_defs)

definition succ_rel :: "('v \<Rightarrow> 'v set) \<Rightarrow> ('v \<times> 'v) set" where
  "succ_rel succ = {(u, v). v \<in> succ u}"

lemma walk_pop_split:
  assumes "frontier \<noteq> []" and "order AND depthFirst \<noteq> 0 \<or> order AND breadthFirst \<noteq> 0"
  shows "\<exists>c rest. walk_pop order frontier = Inr (c, rest) \<and> set frontier = insert c (set rest)
           \<and> length rest < length frontier"
proof (cases "order AND depthFirst \<noteq> 0")
  case True
  have "set frontier = insert (last frontier) (set (butlast frontier))"
    using append_butlast_last_id[OF assms(1)] by (metis list.set_intros(1) rotate1.simps(2) list.simps(15) set_rotate1)
  with True assms(1) show ?thesis by (simp add: walk_pop_def)
next
  case False
  then show ?thesis using assms by (cases frontier) (auto simp: walk_pop_def)
qed

locale walk_client =
  fixes order :: walkType
    and hc :: "'v \<Rightarrow> 'h"
    and gr :: "'s \<Rightarrow> ('h, 'v) graph"
    and f :: "'v \<Rightarrow> nat \<Rightarrow> 's \<Rightarrow> 'e + 's"
    and succ :: "'v \<Rightarrow> 'v set"
    and start :: "'v set"
    and inv :: "'v set \<Rightarrow> 's \<Rightarrow> bool"
  assumes order_ok: "order AND depthFirst \<noteq> 0 \<or> order AND breadthFirst \<noteq> 0"
    and finite_reach: "finite ((succ_rel succ)\<^sup>* `` start)"
    and visit_ok: "\<lbrakk>v \<in> (succ_rel succ)\<^sup>* `` start; seen \<subseteq> (succ_rel succ)\<^sup>* `` start; v \<notin> seen; inv seen s\<rbrakk> \<Longrightarrow>
      \<exists>s' es. f v d s = Inr s' \<and> inv (insert v seen) s' \<and> walk_edges order hc (gr s') v = (Inr es :: 'e walk_exit + 'v list) \<and> set es = succ v"
begin

lemma closed_reach:
  assumes "start \<subseteq> S" "\<And>v. v \<in> S \<Longrightarrow> succ v \<subseteq> S"
  shows "(succ_rel succ)\<^sup>* `` start \<subseteq> S"
proof
  fix y assume "y \<in> (succ_rel succ)\<^sup>* `` start"
  then obtain x where "x \<in> start" "(x, y) \<in> (succ_rel succ)\<^sup>*" by auto
  from this(2,1) show "y \<in> S"
    using assms by (induction rule: rtrancl_induct) (auto simp: succ_rel_def)
qed

lemma succ_reach:
  "v \<in> (succ_rel succ)\<^sup>* `` start \<Longrightarrow> succ v \<subseteq> (succ_rel succ)\<^sup>* `` start"
  by (auto simp: succ_rel_def intro: rtrancl_into_rtrancl)

lemma loop_correct:
  assumes "set seen \<subseteq> (succ_rel succ)\<^sup>* `` start"
    and "vad_Vertex ` set frontier \<subseteq> (succ_rel succ)\<^sup>* `` start"
    and "start \<subseteq> set seen \<union> vad_Vertex ` set frontier"
    and "\<And>v. v \<in> set seen \<Longrightarrow> succ v \<subseteq> set seen \<union> vad_Vertex ` set frontier"
    and "inv (set seen) s"
  shows "\<exists>s'. walk_loop order hc gr f seen frontier s = Some (Inr s') \<and> inv ((succ_rel succ)\<^sup>* `` start) s'"
  using assms
proof (induction "(card ((succ_rel succ)\<^sup>* `` start - set seen), length frontier)"
    arbitrary: seen frontier s rule: wf_induct_rule[OF wf_lex_prod[OF wf_less_than wf_less_than]])
  case 1
  note IH = "1.hyps" and prems = "1.prems"
  let ?R = "(succ_rel succ)\<^sup>* `` start"
  show ?case
  proof (cases "frontier = []")
    case True
    with prems closed_reach[of "set seen"] have "set seen = ?R" by auto
    with True prems(5) show ?thesis by (subst walk_loop.simps) simp
  next
    case False
    obtain c rest where pop: "walk_pop order frontier = (Inr (c, rest) :: 'e walk_exit + _)"
      and fr: "set frontier = insert c (set rest)" and len: "length rest < length frontier"
      using walk_pop_split[OF False order_ok] by blast
    show ?thesis
    proof (cases "vad_Vertex c \<in> set seen")
      case True
      have cl: "succ v \<subseteq> set seen \<union> vad_Vertex ` set rest" if "v \<in> set seen" for v
        using prems(4)[OF that] True fr by auto
      have "\<exists>s'. walk_loop order hc gr f seen rest s = Some (Inr s') \<and> inv ?R s'"
        using True len fr prems cl by (intro IH) auto
      with False pop True show ?thesis by (subst walk_loop.simps) simp
    next
      case unseen: False
      have cR: "vad_Vertex c \<in> ?R" using prems(2) fr by auto
      obtain s1 es where f: "f (vad_Vertex c) (vad_Depth c) s = Inr s1"
        and inv1: "inv (insert (vad_Vertex c) (set seen)) s1"
        and es: "walk_edges order hc (gr s1) (vad_Vertex c) = (Inr es :: 'e walk_exit + 'v list)" "set es = succ (vad_Vertex c)"
        using visit_ok[OF cR prems(1) unseen prems(5)] by blast
      have less: "card (?R - insert (vad_Vertex c) (set seen)) < card (?R - set seen)"
        using finite_reach cR unseen by (intro psubset_card_mono) auto
      have next_set: "vad_Vertex ` set (appendNext rest es d) = vad_Vertex ` set rest \<union> succ (vad_Vertex c)" for d
        by (force simp: appendNext_def es(2)[symmetric])
      have cl: "succ v \<subseteq> insert (vad_Vertex c) (set seen \<union> vad_Vertex ` set rest)" if "v \<in> set seen" for v
        using prems(4)[OF that] fr by auto
      have "\<exists>s'. walk_loop order hc gr f (vad_Vertex c # seen) (appendNext rest es (vad_Depth c + 1)) s1 = Some (Inr s') \<and> inv ?R s'"
        using prems(1-3) fr cR less inv1 succ_reach[OF cR] cl
        by (intro IH) (auto simp: next_set dest: subsetD[OF cl])
      with False pop unseen f es(1) show ?thesis by (subst walk_loop.simps) simp
    qed
  qed
qed

theorem walk_correct:
  assumes "dset_elems st = start" and "inv {} s"
  shows "\<exists>s'. graph_walk order hc gr st f s = Some (Inr s') \<and> inv ((succ_rel succ)\<^sup>* `` start) s'"
proof -
  have "vad_Vertex ` set (appendNext [] (set_List st) 0) = start"
    using assms(1) by (force simp: appendNext_def)
  then show ?thesis
    unfolding graph_walk_def using assms(2) by (intro loop_correct) auto
qed

end

section \<open>Ancestors and descendents\<close>

lemma succ_rel_list: "succ_rel (\<lambda>v. set (down_list hc g v)) = edge_rel g" if "graph_wf hc g"
  using set_down_list[OF that] by (auto simp: succ_rel_def)

lemma succ_rel_up_list: "succ_rel (\<lambda>v. set (up_list hc g v)) = (edge_rel g)\<inverse>" if "graph_wf hc g"
  using set_up_list[OF that] by (auto simp: succ_rel_def)

lemma finite_succ_reach:
  assumes "finite (\<Union>v. set (l v))"
  shows "finite ((succ_rel (\<lambda>v. set (l v)))\<^sup>* `` set (l v0))"
proof (rule finite_subset[OF _ assms])
  show "(succ_rel (\<lambda>v. set (l v)))\<^sup>* `` set (l v0) \<subseteq> (\<Union>v. set (l v))"
  proof
    fix y assume "y \<in> (succ_rel (\<lambda>v. set (l v)))\<^sup>* `` set (l v0)"
    then obtain x where "x \<in> set (l v0)" "(x, y) \<in> (succ_rel (\<lambda>v. set (l v)))\<^sup>*" by auto
    from this(2,1) show "y \<in> (\<Union>v. set (l v))"
      by (induction rule: rtrancl_induct) (auto simp: succ_rel_def)
  qed
qed

lemma memo_inv:
  assumes "dset_wf hc s" "gmap_keys s = hc ` seen"
  shows "dset_wf hc (set_Add hc s v)" "gmap_keys (set_Add hc s v) = hc ` insert v seen"
  using assms by (simp_all add: set_Add_wf ds.codes_add)

interpretation anc: walk_client "depthFirst OR downOrder" hc "\<lambda>_. g" "memoFunc hc"
    "\<lambda>v. set (down_list hc g v)" "set (down_list hc g v0)"
    "\<lambda>seen s. dset_wf hc s \<and> gmap_keys s = hc ` seen" for hc :: "'v \<Rightarrow> 'h" and g v0
proof (unfold_locales, goal_cases)
  case 1 show ?case by (rule walk_orders_ok)
next
  case 2 show ?case by (rule finite_succ_reach) (rule finite_down)
next
  case 3 then show ?case by (simp add: memoFunc_def walk_edges_orders memo_inv)
qed

interpretation desc: walk_client "depthFirst OR upOrder" hc "\<lambda>_. g" "memoFunc hc"
    "\<lambda>v. set (up_list hc g v)" "set (up_list hc g v0)"
    "\<lambda>seen s. dset_wf hc s \<and> gmap_keys s = hc ` seen" for hc :: "'v \<Rightarrow> 'h" and g v0
proof (unfold_locales, goal_cases)
  case 1 show ?case by (rule walk_orders_ok)
next
  case 2 show ?case by (rule finite_succ_reach) (rule finite_up)
next
  case 3 then show ?case by (simp add: memoFunc_def walk_edges_orders memo_inv)
qed

lemma elems_of_codes:
  assumes "inj hc" "dset_wf hc s" "gmap_keys s = hc ` A"
  shows "dset_elems s = A"
  using assms dset_keys_elems[of hc s] by (simp add: inj_image_eq_iff)

lemma trancl_Image: "r\<^sup>* `` (r `` {v}) = r\<^sup>+ `` {v}"
  by (auto simp: trancl_unfold_left dest: converse_rtrancl_into_rtrancl intro: relcompI)

lemma Ancestors_reach:
  assumes "inj hc" "graph_wf hc g"
  shows "\<exists>s. Ancestors hc g v = Some (Inr s) \<and> dset_wf hc s \<and> dset_elems s = (edge_rel g)\<^sup>+ `` {v}"
proof -
  have st: "dset_elems (downEdgesNoCopy hc g v) = set (down_list hc g v)"
    by (simp add: down_list_def)
  obtain s where s: "Ancestors hc g v = Some (Inr s)" "dset_wf hc s"
    "gmap_keys s = hc ` ((edge_rel g)\<^sup>* `` set (down_list hc g v))"
    using anc.walk_correct[OF st, of "[]"]
    unfolding Ancestors_def DepthFirstWalk_def succ_rel_list[OF assms(2)] by auto
  with elems_of_codes[OF assms(1) s(2,3)] show ?thesis
    by (simp add: set_down_list[OF assms(2)] trancl_Image)
qed

lemma Descendents_reach:
  assumes "inj hc" "graph_wf hc g"
  shows "\<exists>s. Descendents hc g v = Some (Inr s) \<and> dset_wf hc s \<and> dset_elems s = ((edge_rel g)\<^sup>+)\<inverse> `` {v}"
proof -
  have st: "dset_elems (upEdgesNoCopy hc g v) = set (up_list hc g v)"
    by (simp add: up_list_def)
  obtain s where s: "Descendents hc g v = Some (Inr s)" "dset_wf hc s"
    "gmap_keys s = hc ` (((edge_rel g)\<inverse>)\<^sup>* `` set (up_list hc g v))"
    using desc.walk_correct[OF st, of "[]"]
    unfolding Descendents_def ReverseDepthFirstWalk_def succ_rel_up_list[OF assms(2)] by auto
  with elems_of_codes[OF assms(1) s(2,3)] show ?thesis
    by (simp add: set_up_list[OF assms(2)] trancl_Image trancl_converse)
qed

end
