(* ===== verification/Dag_Order.thy ===== *)
theory Dag_Order
  imports Dag_Walk
begin

text \<open>
  Topological orders, the root and the transitive reduction (\<^verbatim>\<open>internal/dag/dag.go\<close>).

  The recursive closure \<^verbatim>\<open>visit\<close> inside \<^verbatim>\<open>topoOrder\<close> recurses along edges and panics when it
  meets a vertex of its own call stack, so its depth is bounded by the number of
  edges; it takes that bound as fuel, \<open>None\<close> is running out of fuel, and
  the lemmas \<open>TopologicalOrder_cases\<close> and \<open>ReverseTopologicalOrder_cases\<close> show that this never happens.  A successful order lists every
  vertex once, targets first (\<^verbatim>\<open>ReverseTopologicalOrder\<close>) or sources first
  (\<^verbatim>\<open>TopologicalOrder\<close>), and the panic occurs exactly on cyclic graphs.
\<close>

section \<open>Topological order\<close>

datatype topo_panic = CycleFound | InvalidTopoOrder

record 'v topo_state =
  topo_tmp :: "('v, bool) gomap"
  topo_perm :: "('v, bool) gomap"
  topo_sorted :: "'v list"

definition gmap_true :: "('v, bool) gomap \<Rightarrow> 'v \<Rightarrow> bool" where
  "gmap_true m v = (case gmap_get m v of None \<Rightarrow> False | Some b \<Rightarrow> b)"

definition topo_next :: "walkType \<Rightarrow> ('v \<Rightarrow> 'h) \<Rightarrow> ('h, 'v) graph \<Rightarrow> 'v \<Rightarrow> topo_panic + 'v list" where
  "topo_next order hc g v =
     (if order AND downOrder \<noteq> 0 then Inr (down_list hc g v)
      else if order AND upOrder \<noteq> 0 then Inr (up_list hc g v)
      else Inl InvalidTopoOrder)"

fun topo_visit :: "nat \<Rightarrow> ('v \<Rightarrow> topo_panic + 'v list) \<Rightarrow> 'v \<Rightarrow> 'v topo_state \<Rightarrow> (topo_panic + 'v topo_state) option"
  and topo_visits :: "nat \<Rightarrow> ('v \<Rightarrow> topo_panic + 'v list) \<Rightarrow> 'v list \<Rightarrow> 'v topo_state \<Rightarrow> (topo_panic + 'v topo_state) option"
where
  "topo_visit 0 nxt v st = None"
| "topo_visit (Suc n) nxt v st =
     (if gmap_true (topo_perm st) v then Some (Inr st)
      else if gmap_true (topo_tmp st) v then Some (Inl CycleFound)
      else
        let st1 = st\<lparr>topo_tmp := gmap_put v True (topo_tmp st)\<rparr> in
        case nxt v of
          Inl p \<Rightarrow> Some (Inl p)
        | Inr us \<Rightarrow>
            (case topo_visits n nxt us st1 of
               None \<Rightarrow> None
             | Some (Inl p) \<Rightarrow> Some (Inl p)
             | Some (Inr st2) \<Rightarrow>
                 Some (Inr (st2\<lparr>topo_tmp := gmap_put v False (topo_tmp st2),
                                topo_perm := gmap_put v True (topo_perm st2),
                                topo_sorted := topo_sorted st2 @ [v]\<rparr>))))"
| "topo_visits n nxt [] st = Some (Inr st)"
| "topo_visits n nxt (u # us) st =
     (case topo_visit n nxt u st of
        None \<Rightarrow> None
      | Some (Inl p) \<Rightarrow> Some (Inl p)
      | Some (Inr st1) \<Rightarrow> topo_visits n nxt us st1)"

definition topo_fuel :: "('h, 'v) graph \<Rightarrow> nat" where
  "topo_fuel g = length (graph_Vertices g) + length (graph_Edges g) + 1"

definition topoOrder :: "walkType \<Rightarrow> ('v \<Rightarrow> 'h) \<Rightarrow> ('h, 'v) graph \<Rightarrow> (topo_panic + 'v list) option" where
  "topoOrder order hc g =
     (case topo_visits (topo_fuel g) (topo_next order hc g) (graph_Vertices g)
             \<lparr>topo_tmp = [], topo_perm = [], topo_sorted = []\<rparr> of
        None \<Rightarrow> None
      | Some (Inl p) \<Rightarrow> Some (Inl p)
      | Some (Inr st) \<Rightarrow> Some (Inr (topo_sorted st)))"

definition TopologicalOrder :: "('v \<Rightarrow> 'h) \<Rightarrow> ('h, 'v) graph \<Rightarrow> (topo_panic + 'v list) option" where
  "TopologicalOrder hc g = topoOrder upOrder hc g"

definition ReverseTopologicalOrder :: "('v \<Rightarrow> 'h) \<Rightarrow> ('h, 'v) graph \<Rightarrow> (topo_panic + 'v list) option" where
  "ReverseTopologicalOrder hc g = topoOrder downOrder hc g"

section \<open>Root\<close>

datatype root_error = MultipleRoots | NoRoots

definition graph_Root :: "('v \<Rightarrow> 'h) \<Rightarrow> ('h, 'v) graph \<Rightarrow> root_error + 'v" where
  "graph_Root hc g =
     (let roots = filter (\<lambda>v. set_Len (upEdgesNoCopy hc g v) = 0) (graph_Vertices g) in
      if length roots > 1 then Inl MultipleRoots
      else case roots of [] \<Rightarrow> Inl NoRoots | r # _ \<Rightarrow> Inr r)"

section \<open>Transitive reduction\<close>

definition reduce_visit :: "('v \<Rightarrow> 'h) \<Rightarrow> 'v \<Rightarrow> 'v \<Rightarrow> nat \<Rightarrow> ('h, 'v) graph \<Rightarrow> unit + ('h, 'v) graph" where
  "reduce_visit hc u v d g =
     (let shared = set_Intersection hc (downEdgesNoCopy hc g u) (downEdgesNoCopy hc g v)
      in Inr (foldl (\<lambda>g v'. graph_RemoveEdge hc g (BasicEdge u v')) g (set_List shared)))"

fun reduce_all ::
  "('v \<Rightarrow> 'h) \<Rightarrow> 'v list \<Rightarrow> ('h, 'v) graph \<Rightarrow> (unit walk_exit + ('h, 'v) graph) option" where
  "reduce_all hc [] g = Some (Inr g)"
| "reduce_all hc (u # us) g =
     (case DepthFirstWalk hc (\<lambda>g. g) (downEdgesNoCopy hc g u) (reduce_visit hc u) g of
        None \<Rightarrow> None
      | Some (Inl x) \<Rightarrow> Some (Inl x)
      | Some (Inr g') \<Rightarrow> reduce_all hc us g')"

definition TransitiveReduction ::
  "('v \<Rightarrow> 'h) \<Rightarrow> ('h, 'v) graph \<Rightarrow> (unit walk_exit + ('h, 'v) graph) option" where
  "TransitiveReduction hc g = reduce_all hc (graph_Vertices g) g"

section \<open>Correctness of the topological order\<close>

definition marked :: "('v, bool) gomap \<Rightarrow> 'v set" where
  "marked m = {v. gmap_true m v}"

lemma marked_put [simp]:
  "marked (gmap_put v True m) = insert v (marked m)" "marked (gmap_put v False m) = marked m - {v}"
  by (auto simp: marked_def gmap_true_def gomap_simps split: if_splits)

lemma marked_Nil [simp]: "marked [] = {}"
  by (simp add: marked_def gmap_true_def)

lemma gmap_true_marked: "gmap_true m v \<longleftrightarrow> v \<in> marked m"
  by (simp add: marked_def)

text \<open>Every element comes after all its successors.\<close>

definition succs_first :: "('v \<Rightarrow> 'v set) \<Rightarrow> 'v list \<Rightarrow> bool" where
  "succs_first succ xs \<longleftrightarrow> (\<forall>ys v zs. xs = ys @ v # zs \<longrightarrow> succ v \<subseteq> set ys)"

lemma succs_first_Nil [simp]: "succs_first succ []"
  by (simp add: succs_first_def)

lemma succs_first_snoc: "succs_first succ (xs @ [v]) \<longleftrightarrow> succs_first succ xs \<and> succ v \<subseteq> set xs"
  (is "?l \<longleftrightarrow> ?r")
proof
  show "?l \<Longrightarrow> ?r" unfolding succs_first_def by fastforce
next
  assume r: ?r
  show ?l unfolding succs_first_def
  proof (intro allI impI)
    fix ys w zs assume eq: "xs @ [v] = ys @ w # zs"
    show "succ w \<subseteq> set ys"
    proof (cases zs rule: rev_cases)
      case Nil
      with eq r show ?thesis by simp
    next
      case (snoc zs' z)
      with eq have "xs = ys @ w # zs'" by simp
      with r show ?thesis by (auto simp: succs_first_def)
    qed
  qed
qed

definition topo_inv :: "('v \<Rightarrow> 'v set) \<Rightarrow> 'v topo_state \<Rightarrow> bool" where
  "topo_inv succ st \<longleftrightarrow> set (topo_sorted st) = marked (topo_perm st) \<and> distinct (topo_sorted st) \<and>
     succs_first succ (topo_sorted st)"

text \<open>What a completed visit of the vertices \<open>A\<close> has done to the state.\<close>

definition topo_ext :: "('v \<Rightarrow> 'v set) \<Rightarrow> 'v topo_state \<Rightarrow> 'v topo_state \<Rightarrow> 'v set \<Rightarrow> bool" where
  "topo_ext succ st st' A \<longleftrightarrow> topo_inv succ st' \<and> marked (topo_tmp st') = marked (topo_tmp st) \<and>
     marked (topo_perm st) \<union> A \<subseteq> marked (topo_perm st') \<and>
     marked (topo_perm st') \<inter> marked (topo_tmp st) \<subseteq> marked (topo_perm st) \<and>
     marked (topo_perm st') \<subseteq> marked (topo_perm st) \<union> (succ_rel succ)\<^sup>* `` A"

lemma topo_ext_refl: "topo_inv succ st \<Longrightarrow> A \<subseteq> marked (topo_perm st) \<Longrightarrow> topo_ext succ st st A"
  by (auto simp: topo_ext_def)

lemma topo_ext_trans:
  assumes "topo_ext succ st st1 A" "topo_ext succ st1 st2 B"
  shows "topo_ext succ st st2 (A \<union> B)"
proof -
  have chain: "P \<union> A \<subseteq> P1 \<Longrightarrow> P1 \<inter> T \<subseteq> P \<Longrightarrow> P1 \<subseteq> P \<union> RA \<Longrightarrow> P1 \<union> B \<subseteq> P2 \<Longrightarrow> P2 \<inter> T \<subseteq> P1 \<Longrightarrow> P2 \<subseteq> P1 \<union> RB
      \<Longrightarrow> P \<union> (A \<union> B) \<subseteq> P2 \<and> P2 \<inter> T \<subseteq> P \<and> P2 \<subseteq> P \<union> (RA \<union> RB)" for P P1 P2 T RA RB :: "'a set"
    by blast
  let ?P = "\<lambda>s. marked (topo_perm s)" and ?T = "marked (topo_tmp st)" and ?R = "(succ_rel succ)\<^sup>*"
  have tmp: "marked (topo_tmp st1) = ?T"
    using assms(1) by (simp add: topo_ext_def)
  have a: "?P st \<union> A \<subseteq> ?P st1" "?P st1 \<inter> ?T \<subseteq> ?P st" "?P st1 \<subseteq> ?P st \<union> ?R `` A"
    using assms(1) by (simp_all add: topo_ext_def)
  have b: "?P st1 \<union> B \<subseteq> ?P st2" "?P st2 \<inter> ?T \<subseteq> ?P st1" "?P st2 \<subseteq> ?P st1 \<union> ?R `` B"
    using assms(2) by (simp_all add: topo_ext_def tmp)
  have inv: "topo_inv succ st2" "marked (topo_tmp st2) = ?T"
    using assms(2) by (simp_all add: topo_ext_def tmp)
  show ?thesis
    unfolding topo_ext_def Image_Un using chain[OF a b] inv by simp
qed

lemma topo_ext_finish:
  assumes ext: "topo_ext succ (st\<lparr>topo_tmp := gmap_put v True (topo_tmp st)\<rparr>) st2 (succ v)"
    and new: "v \<notin> marked (topo_perm st)" "v \<notin> marked (topo_tmp st)"
  shows "topo_ext succ st (st2\<lparr>topo_tmp := gmap_put v False (topo_tmp st2),
      topo_perm := gmap_put v True (topo_perm st2), topo_sorted := topo_sorted st2 @ [v]\<rparr>) {v}"
proof -
  let ?R = "(succ_rel succ)\<^sup>*"
  have reach: "?R `` succ v \<subseteq> ?R `` {v}"
    by (auto simp: succ_rel_def intro: converse_rtrancl_into_rtrancl)
  have "marked (topo_perm st2) \<subseteq> marked (topo_perm st) \<union> ?R `` succ v"
    using ext by (simp add: topo_ext_def)
  also have "\<dots> \<subseteq> marked (topo_perm st) \<union> ?R `` {v}"
    by (rule Un_mono[OF order_refl reach])
  finally have "marked (topo_perm st2) \<subseteq> marked (topo_perm st) \<union> ?R `` {v}" .
  moreover have "v \<notin> marked (topo_perm st2)"
    using ext new by (auto simp: topo_ext_def)
  ultimately show ?thesis
    using ext new by (auto simp: topo_ext_def topo_inv_def succs_first_snoc)
qed

lemma closed_Image_rtrancl: "A \<subseteq> B \<Longrightarrow> r `` B \<subseteq> B \<Longrightarrow> r\<^sup>* `` A \<subseteq> B"
  using Image_closed_trancl[of r B] by (metis Image_mono order_refl)

locale topo_graph =
  fixes nxt :: "'v \<Rightarrow> topo_panic + 'v list"
    and succ :: "'v \<Rightarrow> 'v set"
  assumes nxt_succ: "\<exists>us. nxt v = Inr us \<and> set us = succ v"
begin

lemma visits_success_step:
  assumes "\<And>v st st'. topo_visit n nxt v st = Some (Inr st') \<Longrightarrow> topo_inv succ st \<Longrightarrow> topo_ext succ st st' {v}"
  shows "topo_visits n nxt us st = Some (Inr st') \<Longrightarrow> topo_inv succ st \<Longrightarrow> topo_ext succ st st' (set us)"
proof (induction us arbitrary: st)
  case Nil
  then show ?case by (simp add: topo_ext_refl)
next
  case (Cons u us)
  then obtain st1 where st1: "topo_visit n nxt u st = Some (Inr st1)" "topo_visits n nxt us st1 = Some (Inr st')"
    by (auto split: option.splits sum.splits)
  from assms[OF st1(1) Cons.prems(2)] have e: "topo_ext succ st st1 {u}" .
  then have "topo_ext succ st1 st' (set us)"
    using Cons.IH[OF st1(2)] by (simp add: topo_ext_def)
  with e show ?case using topo_ext_trans[OF e] by simp
qed

lemma visit_success:
  "topo_visit n nxt v st = Some (Inr st') \<Longrightarrow> topo_inv succ st \<Longrightarrow> topo_ext succ st st' {v}"
proof (induction n arbitrary: v st st')
  case (Suc n)
  obtain us where us: "nxt v = Inr us" "set us = succ v" using nxt_succ by blast
  show ?case
  proof (cases "gmap_true (topo_perm st) v")
    case True
    with Suc.prems show ?thesis by (simp add: topo_ext_refl gmap_true_marked)
  next
    case False
    let ?st1 = "st\<lparr>topo_tmp := gmap_put v True (topo_tmp st)\<rparr>"
    from False Suc.prems(1) us obtain st2 where st2: "topo_visits n nxt us ?st1 = Some (Inr st2)"
      and st': "st' = st2\<lparr>topo_tmp := gmap_put v False (topo_tmp st2),
        topo_perm := gmap_put v True (topo_perm st2), topo_sorted := topo_sorted st2 @ [v]\<rparr>"
      and tmp: "\<not> gmap_true (topo_tmp st) v"
      by (auto simp: Let_def split: if_splits option.splits sum.splits)
    have "topo_ext succ ?st1 st2 (succ v)"
      using visits_success_step[OF Suc.IH st2] Suc.prems(2) us by (simp add: topo_inv_def)
    then show ?thesis
      unfolding st' using False tmp by (intro topo_ext_finish) (simp_all add: gmap_true_marked)
  qed
qed simp

lemma visits_success:
  "topo_visits n nxt us st = Some (Inr st') \<Longrightarrow> topo_inv succ st \<Longrightarrow> topo_ext succ st st' (set us)"
  by (rule visits_success_step[OF visit_success])

text \<open>Enough fuel: the call stack is a set of distinct vertices of a closed finite set.\<close>

lemma visits_fuel_step:
  assumes "\<And>v st. v \<in> W \<Longrightarrow> card (W - marked (topo_tmp st)) < n \<Longrightarrow> topo_inv succ st \<Longrightarrow>
      topo_visit n nxt v st \<noteq> None"
  shows "set us \<subseteq> W \<Longrightarrow> card (W - marked (topo_tmp st)) < n \<Longrightarrow> topo_inv succ st \<Longrightarrow>
      topo_visits n nxt us st \<noteq> None"
proof (induction us arbitrary: st)
  case (Cons u us)
  then obtain r where r: "topo_visit n nxt u st = Some r" using assms[of u st] by auto
  show ?case
  proof (cases r)
    case (Inr st1)
    then have "topo_ext succ st st1 {u}" using r visit_success Cons.prems(3) by simp
    then have "topo_inv succ st1" "marked (topo_tmp st1) = marked (topo_tmp st)"
      by (auto simp: topo_ext_def)
    with Cons Inr r show ?thesis by simp
  qed (use r in simp)
qed simp

lemma visit_fuel:
  assumes "finite W" "\<And>v. v \<in> W \<Longrightarrow> succ v \<subseteq> W"
  shows "v \<in> W \<Longrightarrow> card (W - marked (topo_tmp st)) < n \<Longrightarrow> topo_inv succ st \<Longrightarrow> topo_visit n nxt v st \<noteq> None"
proof (induction n arbitrary: v st)
  case (Suc n)
  obtain us where us: "nxt v = Inr us" "set us = succ v" using nxt_succ by blast
  let ?st1 = "st\<lparr>topo_tmp := gmap_put v True (topo_tmp st)\<rparr>"
  show ?case
  proof (cases "gmap_true (topo_perm st) v \<or> gmap_true (topo_tmp st) v")
    case False
    then have "card (W - marked (topo_tmp ?st1)) < card (W - marked (topo_tmp st))"
      using Suc.prems(1) assms(1) by (intro psubset_card_mono) (auto simp: gmap_true_marked)
    then have "topo_visits n nxt us ?st1 \<noteq> None"
      using Suc.prems us assms(2)[OF Suc.prems(1)]
      by (intro visits_fuel_step[OF Suc.IH]) (auto simp: topo_inv_def)
    then show ?thesis using us by (auto simp: Let_def split: sum.splits)
  qed (auto simp: Let_def)
qed simp

lemma visits_fuel:
  assumes "finite W" "\<And>v. v \<in> W \<Longrightarrow> succ v \<subseteq> W"
  shows "set us \<subseteq> W \<Longrightarrow> card (W - marked (topo_tmp st)) < n \<Longrightarrow> topo_inv succ st \<Longrightarrow> topo_visits n nxt us st \<noteq> None"
  by (rule visits_fuel_step[OF visit_fuel[OF assms]])

text \<open>The panic means a cycle: every vertex of the call stack reaches the current one.\<close>

lemma visits_panic_step:
  assumes "\<And>v st. topo_visit n nxt v st = Some (Inl p) \<Longrightarrow> topo_inv succ st \<Longrightarrow>
      \<forall>t \<in> marked (topo_tmp st). (t, v) \<in> (succ_rel succ)\<^sup>+ \<Longrightarrow> p = CycleFound \<and> \<not> acyclic (succ_rel succ)"
  shows "topo_visits n nxt us st = Some (Inl p) \<Longrightarrow> topo_inv succ st \<Longrightarrow>
      \<forall>t \<in> marked (topo_tmp st). \<forall>u \<in> set us. (t, u) \<in> (succ_rel succ)\<^sup>+ \<Longrightarrow>
      p = CycleFound \<and> \<not> acyclic (succ_rel succ)"
proof (induction us arbitrary: st)
  case (Cons u us)
  then obtain r where r: "topo_visit n nxt u st = Some r" by (auto split: option.splits)
  show ?case
  proof (cases r)
    case (Inl p')
    with Cons.prems r show ?thesis using assms[of u st] by simp
  next
    case (Inr st1)
    then have "topo_ext succ st st1 {u}" using r visit_success Cons.prems(2) by simp
    then have "topo_inv succ st1" "marked (topo_tmp st1) = marked (topo_tmp st)"
      by (auto simp: topo_ext_def)
    with Cons r Inr show ?thesis by simp
  qed
qed simp

lemma visit_panic:
  "topo_visit n nxt v st = Some (Inl p) \<Longrightarrow> topo_inv succ st \<Longrightarrow>
   \<forall>t \<in> marked (topo_tmp st). (t, v) \<in> (succ_rel succ)\<^sup>+ \<Longrightarrow> p = CycleFound \<and> \<not> acyclic (succ_rel succ)"
proof (induction n arbitrary: v st)
  case (Suc n)
  obtain us where us: "nxt v = Inr us" "set us = succ v" using nxt_succ by blast
  let ?st1 = "st\<lparr>topo_tmp := gmap_put v True (topo_tmp st)\<rparr>"
  show ?case
  proof (cases "gmap_true (topo_tmp st) v")
    case True
    with Suc.prems show ?thesis by (auto simp: gmap_true_marked acyclic_def split: if_splits)
  next
    case False
    with Suc.prems(1) us have v: "topo_visits n nxt us ?st1 = Some (Inl p)"
      by (auto simp: Let_def split: if_splits option.splits sum.splits)
    have edge: "(v, u) \<in> succ_rel succ" if "u \<in> set us" for u
      using that us by (simp add: succ_rel_def)
    have inv: "topo_inv succ ?st1" using Suc.prems(2) by (simp add: topo_inv_def)
    have path: "\<forall>t \<in> marked (topo_tmp ?st1). \<forall>u \<in> set us. (t, u) \<in> (succ_rel succ)\<^sup>+"
      using Suc.prems(3) edge by (auto intro: trancl_into_trancl)
    show ?thesis
      by (rule visits_panic_step[OF _ v inv path]) (erule (2) Suc.IH)
  qed
qed simp

lemma visits_panic:
  assumes "topo_visits n nxt us st = Some (Inl p)" "topo_inv succ st" "marked (topo_tmp st) = {}"
  shows "p = CycleFound \<and> \<not> acyclic (succ_rel succ)"
  by (rule visits_panic_step[OF _ assms(1,2)]) (erule (2) visit_panic, simp add: assms(3))

lemma succs_first_acyclic:
  assumes "succs_first succ xs" "\<And>u v. v \<in> succ u \<Longrightarrow> u \<in> set xs" "distinct xs"
  shows "acyclic (succ_rel succ)"
proof -
  define pos where "pos v = (LEAST i. i < length xs \<and> xs ! i = v)" for v
  have pos_nth: "pos (xs ! i) = i" if "i < length xs" for i
    unfolding pos_def using assms(3) that by (intro Least_equality) (auto simp: nth_eq_iff_index_eq)
  have "pos v < pos u" if "(u, v) \<in> succ_rel succ" for u v
  proof -
    from that assms(2) have "v \<in> succ u" "u \<in> set xs" by (auto simp: succ_rel_def)
    then obtain i where i: "i < length xs" "xs ! i = u" by (auto simp: in_set_conv_nth)
    have "v \<in> set (take i xs)"
      using assms(1) id_take_nth_drop[OF i(1)] i(2) \<open>v \<in> succ u\<close> by (auto simp: succs_first_def)
    then obtain j where "j < i" "xs ! j = v" using i(1) by (auto simp: in_set_conv_nth)
    with i pos_nth show ?thesis by (metis order.strict_trans)
  qed
  then have "succ_rel succ \<subseteq> (measure pos)\<inverse>" by auto
  then show ?thesis
    by (meson acyclic_converse acyclic_subset wf_acyclic wf_measure)
qed

lemma topo_run:
  assumes "finite W" "\<And>v. v \<in> W \<Longrightarrow> succ v \<subseteq> W" "set vs \<subseteq> W" "card W < n"
  obtains (panic) "topo_visits n nxt vs \<lparr>topo_tmp = [], topo_perm = [], topo_sorted = []\<rparr> = Some (Inl CycleFound)"
      "\<not> acyclic (succ_rel succ)"
  | (sorted) st where
      "topo_visits n nxt vs \<lparr>topo_tmp = [], topo_perm = [], topo_sorted = []\<rparr> = Some (Inr st)"
      "distinct (topo_sorted st)" "succs_first succ (topo_sorted st)"
      "set (topo_sorted st) = (succ_rel succ)\<^sup>* `` set vs"
proof -
  let ?st0 = "\<lparr>topo_tmp = [], topo_perm = [], topo_sorted = []\<rparr> :: 'v topo_state"
  have inv0: "topo_inv succ ?st0" by (simp add: topo_inv_def)
  have "topo_visits n nxt vs ?st0 \<noteq> None"
    using visits_fuel[OF assms(1,2,3), of ?st0 n] assms(4) inv0 by simp
  then obtain r where r: "topo_visits n nxt vs ?st0 = Some r" by auto
  show thesis
  proof (cases r)
    case (Inl p)
    with visits_panic[of n vs ?st0 p] r inv0 panic show ?thesis by simp
  next
    case (Inr st)
    with r have ext: "topo_ext succ ?st0 st (set vs)" by (intro visits_success[OF _ inv0]) simp
    then have st: "distinct (topo_sorted st)" "succs_first succ (topo_sorted st)"
      "set vs \<subseteq> set (topo_sorted st)" "set (topo_sorted st) \<subseteq> (succ_rel succ)\<^sup>* `` set vs"
      by (simp_all add: topo_ext_def topo_inv_def)
    have "(succ_rel succ)\<^sup>* `` set vs \<subseteq> set (topo_sorted st)"
    proof (rule closed_Image_rtrancl)
      show "succ_rel succ `` set (topo_sorted st) \<subseteq> set (topo_sorted st)"
        using st(2) by (fastforce simp: succ_rel_def succs_first_def in_set_conv_decomp)
    qed (rule st(3))
    with st r Inr sorted[of st] show ?thesis by simp
  qed
qed

end

section \<open>The two directions\<close>

interpretation tdown: topo_graph "topo_next downOrder hc g" "\<lambda>v. set (down_list hc g v)"
  for hc :: "'v \<Rightarrow> 'h" and g
  by unfold_locales (simp add: topo_next_def walk_order_defs)

interpretation tup: topo_graph "topo_next upOrder hc g" "\<lambda>v. set (up_list hc g v)"
  for hc :: "'v \<Rightarrow> 'h" and g
  by unfold_locales (simp add: topo_next_def walk_order_defs)

lemma topo_fuel_enough:
  "card (vertex_set g \<union> Range (edge_rel g)) < topo_fuel g"
  "card (vertex_set g \<union> Domain (edge_rel g)) < topo_fuel g"
proof -
  have v: "card (vertex_set g) \<le> length (graph_Vertices g)"
    using card_length[of "graph_Vertices g"] by simp
  have e: "card (edge_rel g) \<le> length (graph_Edges g)"
    using card_length[of "map edge_Hashcode (graph_Edges g)"] by (simp add: set_graph_Edges)
  have "Range (edge_rel g) = snd ` edge_rel g" "Domain (edge_rel g) = fst ` edge_rel g"
    by (auto simp: snd_eq_Range fst_eq_Domain)
  then have "card (Range (edge_rel g)) \<le> card (edge_rel g)" "card (Domain (edge_rel g)) \<le> card (edge_rel g)"
    by (simp_all add: card_image_le)
  with v e show "card (vertex_set g \<union> Range (edge_rel g)) < topo_fuel g"
    "card (vertex_set g \<union> Domain (edge_rel g)) < topo_fuel g"
    using card_Un_le[of "vertex_set g" "Range (edge_rel g)"] card_Un_le[of "vertex_set g" "Domain (edge_rel g)"]
    by (auto simp: topo_fuel_def)
qed

lemma closed_reach_vertices:
  assumes "graph_closed g"
  shows "(edge_rel g)\<^sup>* `` vertex_set g = vertex_set g" "((edge_rel g)\<inverse>)\<^sup>* `` vertex_set g = vertex_set g"
  using assms closed_Image_rtrancl[of "vertex_set g" "vertex_set g" "edge_rel g"]
    closed_Image_rtrancl[of "vertex_set g" "vertex_set g" "(edge_rel g)\<inverse>"]
  by (fastforce simp: graph_closed_def)+

lemma ReverseTopologicalOrder_cases:
  assumes wf: "graph_wf hc g" and closed: "graph_closed g"
  shows "(\<not> acyclic (edge_rel g) \<and> ReverseTopologicalOrder hc g = Some (Inl CycleFound)) \<or>
    (acyclic (edge_rel g) \<and> (\<exists>xs. ReverseTopologicalOrder hc g = Some (Inr xs) \<and> distinct xs \<and>
       set xs = vertex_set g \<and> succs_first (\<lambda>v. edge_rel g `` {v}) xs))"
proof -
  let ?W = "vertex_set g \<union> Range (edge_rel g)"
  have cl: "v \<in> ?W \<Longrightarrow> set (down_list hc g v) \<subseteq> ?W" for v
    using set_down_list[OF wf, of v] by auto
  have fin: "finite ?W" by (simp add: finite_Range)
  have vs: "set (graph_Vertices g) \<subseteq> ?W" by simp
  show ?thesis
  proof (rule tdown.topo_run[OF fin cl vs topo_fuel_enough(1)], assumption, goal_cases)
    case 1
    then show ?case
      by (simp add: ReverseTopologicalOrder_def topoOrder_def succ_rel_list[OF wf])
  next
    case (2 st)
    from 2 have set: "set (topo_sorted st) = vertex_set g"
      by (simp add: succ_rel_list[OF wf] closed_reach_vertices[OF closed])
    have acyc: "acyclic (succ_rel (\<lambda>v. set (down_list hc g v)))"
      using 2(3) closed by (intro tdown.succs_first_acyclic[OF _ _ 2(2)])
        (auto simp: set set_down_list[OF wf] graph_closed_def)
    from acyc have "acyclic (edge_rel g)" by (simp add: succ_rel_list[OF wf])
    with 2(1-3) set show ?case
      by (simp add: ReverseTopologicalOrder_def topoOrder_def set_down_list[OF wf])
  qed
qed

lemma TopologicalOrder_cases:
  assumes wf: "graph_wf hc g" and closed: "graph_closed g"
  shows "(\<not> acyclic (edge_rel g) \<and> TopologicalOrder hc g = Some (Inl CycleFound)) \<or>
    (acyclic (edge_rel g) \<and> (\<exists>xs. TopologicalOrder hc g = Some (Inr xs) \<and> distinct xs \<and>
       set xs = vertex_set g \<and> succs_first (\<lambda>v. (edge_rel g)\<inverse> `` {v}) xs))"
proof -
  let ?W = "vertex_set g \<union> Domain (edge_rel g)"
  have cl: "v \<in> ?W \<Longrightarrow> set (up_list hc g v) \<subseteq> ?W" for v
    using set_up_list[OF wf, of v] by auto
  have fin: "finite ?W" by (simp add: finite_Domain)
  have vs: "set (graph_Vertices g) \<subseteq> ?W" by simp
  show ?thesis
  proof (rule tup.topo_run[OF fin cl vs topo_fuel_enough(2)], assumption, goal_cases)
    case 1
    then show ?case
      by (simp add: TopologicalOrder_def topoOrder_def succ_rel_up_list[OF wf] acyclic_converse)
  next
    case (2 st)
    from 2 have set: "set (topo_sorted st) = vertex_set g"
      by (simp add: succ_rel_up_list[OF wf] closed_reach_vertices[OF closed])
    have acyc: "acyclic (succ_rel (\<lambda>v. set (up_list hc g v)))"
      using 2(3) closed by (intro tup.succs_first_acyclic[OF _ _ 2(2)])
        (auto simp: set set_up_list[OF wf] graph_closed_def)
    from acyc have "acyclic (edge_rel g)" by (simp add: succ_rel_up_list[OF wf] acyclic_converse)
    with 2(1-3) set show ?case
      by (simp add: TopologicalOrder_def topoOrder_def set_up_list[OF wf])
  qed
qed

section \<open>Correctness of the transitive reduction\<close>

text \<open>One round of the outer loop removes the redundant edges out of \<open>u\<close>.\<close>

definition redundant :: "('v \<times> 'v) set \<Rightarrow> 'v \<Rightarrow> ('v \<times> 'v) set" where
  "redundant E u = {(x, w). x = u \<and> (\<exists>v. (u, v) \<in> E\<^sup>+ \<and> (v, w) \<in> E)}"

lemma rtrancl_avoid_source:
  assumes "(x, w) \<in> E\<^sup>*" "(u, x) \<in> E\<^sup>+" "acyclic E"
  shows "(x, w) \<in> (E - {u} \<times> A)\<^sup>*"
  using assms(1)
proof (induction rule: rtrancl_induct)
  case (step y z)
  have "y \<noteq> u"
    using step.hyps(1) assms(2,3) by (metis acyclic_def trancl_rtrancl_trancl)
  with step show ?case by (auto intro: rtrancl_into_rtrancl)
qed simp

lemma reduce_keeps_reach:
  assumes "finite E" "acyclic E"
  shows "(E - redundant E u)\<^sup>+ = E\<^sup>+"
proof
  let ?E = "E - redundant E u"
  show "?E\<^sup>+ \<subseteq> E\<^sup>+" by (rule trancl_mono_subset) auto
  have wfE: "wf (E\<^sup>+)"
    using assms by (simp add: finite_acyclic_wf wf_trancl)
  have bypass: "(u, w) \<in> ?E\<^sup>+" if "(u, w) \<in> E" for w
  proof -
    let ?X = "{x. (u, x) \<in> E \<and> (x, w) \<in> E\<^sup>*}"
    have "w \<in> ?X" using that by simp
    then obtain x where x: "x \<in> ?X" and min: "\<And>y. (y, x) \<in> E\<^sup>+ \<Longrightarrow> y \<notin> ?X"
      using wfE by (metis (no_types, lifting) wfE_min)
    have "(u, x) \<notin> redundant E u"
    proof
      assume "(u, x) \<in> redundant E u"
      then obtain v where v: "(u, v) \<in> E\<^sup>+" "(v, x) \<in> E" by (auto simp: redundant_def)
      then obtain y where y: "(u, y) \<in> E" "(y, v) \<in> E\<^sup>*" by (meson tranclD)
      with v have yx: "(y, x) \<in> E\<^sup>+" by (meson rtrancl_into_trancl1)
      then have "(y, w) \<in> E\<^sup>*" using x by (auto intro: trancl_into_rtrancl rtrancl_trans)
      with y min[OF yx] show False by simp
    qed
    then have ux: "(u, x) \<in> ?E" using x by simp
    have "(x, w) \<in> (E - {u} \<times> UNIV)\<^sup>*"
      using x assms(2) by (intro rtrancl_avoid_source) auto
    then have "(x, w) \<in> ?E\<^sup>*"
      by (rule rtrancl_mono[THEN subsetD, rotated]) (auto simp: redundant_def)
    with ux show ?thesis by (rule rtrancl_into_trancl2)
  qed
  have "E \<subseteq> ?E\<^sup>+"
    using bypass by (auto simp: redundant_def)
  then show "E\<^sup>+ \<subseteq> ?E\<^sup>+" by (metis trancl_mono_subset trancl_id trans_trancl)
qed

lemma reduce_step:
  assumes inj: "inj hc" and wf: "graph_wf hc g" and acyc: "acyclic (edge_rel g)"
  shows "\<exists>g'. DepthFirstWalk hc (\<lambda>g. g) (downEdgesNoCopy hc g u) (reduce_visit hc u) g = Some (Inr g') \<and>
    graph_wf hc g' \<and> vertex_set g' = vertex_set g \<and> edge_rel g' = edge_rel g - redundant (edge_rel g) u"
proof -
  let ?E = "edge_rel g" and ?start = "edge_rel g `` {u}"
  let ?inv = "\<lambda>seen h. graph_wf hc h \<and> vertex_set h = vertex_set g \<and>
      edge_rel h = ?E - {(x, w). x = u \<and> (\<exists>v \<in> seen. (v, w) \<in> ?E)}"
  have succ: "succ_rel (\<lambda>v. ?E `` {v}) = ?E" by (auto simp: succ_rel_def)
  have reach: "?E\<^sup>* `` ?start = ?E\<^sup>+ `` {u}" by (rule trancl_Image)
  have client: "walk_client (depthFirst OR downOrder) hc (\<lambda>g. g) (reduce_visit hc u) (\<lambda>v. ?E `` {v}) ?start ?inv"
  proof (unfold_locales, goal_cases)
    case 1 show ?case by (rule walk_orders_ok)
  next
    case 2
    have "?E\<^sup>+ `` {u} \<subseteq> Range ?E" by (auto dest: tranclD2)
    then show ?case unfolding succ reach by (rule finite_subset) (simp add: finite_Range)
  next
    case (3 v seen h d)
    then have vu: "v \<noteq> u" using acyc by (auto simp: succ reach acyclic_def)
    let ?sh = "set_Intersection hc (downEdgesNoCopy hc h u) (downEdgesNoCopy hc h v)"
    let ?h = "foldl (\<lambda>g v'. graph_RemoveEdge hc g (BasicEdge u v')) h (set_List ?sh)"
    have h: "graph_wf hc h" and eh: "edge_rel h = ?E - {(x, w). x = u \<and> (\<exists>v \<in> seen. (v, w) \<in> ?E)}"
      using 3 by simp_all
    have sh: "dset_elems ?sh = edge_rel h `` {u} \<inter> edge_rel h `` {v}"
      using inj h by (simp add: set_Intersection_elems NoCopy_wf graph_wf_adj)
    have spec: "graph_wf hc ?h" "edge_rel ?h = edge_rel h - Pair u ` (edge_rel h `` {u} \<inter> edge_rel h `` {v})"
      "vertex_set ?h = vertex_set g"
      using foldl_RemoveEdge_spec[OF inj h, of "BasicEdge u" "set_List ?sh"] sh 3 by (auto simp: image_iff)
    have "edge_rel ?h = ?E - {(x, w). x = u \<and> (\<exists>v \<in> insert v seen. (v, w) \<in> ?E)}"
      unfolding spec(2) eh using vu by auto
    moreover have "set (down_list hc ?h v) = ?E `` {v}"
      using vu by (auto simp: set_down_list[OF spec(1)] calculation)
    ultimately show ?case
      using spec by (simp add: reduce_visit_def Let_def walk_edges_orders)
  qed
  have "\<exists>g'. graph_walk (depthFirst OR downOrder) hc (\<lambda>g. g) (downEdgesNoCopy hc g u) (reduce_visit hc u) g
       = Some (Inr g') \<and> ?inv ((succ_rel (\<lambda>v. ?E `` {v}))\<^sup>* `` ?start) g'"
    using wf by (intro walk_client.walk_correct[OF client]) (auto simp: graph_wf_adj)
  moreover have "{(x, w). x = u \<and> (\<exists>v \<in> ?E\<^sup>+ `` {u}. (v, w) \<in> ?E)} = redundant ?E u"
    by (auto simp: redundant_def)
  ultimately show ?thesis
    unfolding DepthFirstWalk_def succ reach by auto
qed

lemma reduce_all_spec:
  assumes inj: "inj hc"
  shows "graph_wf hc g \<Longrightarrow> acyclic (edge_rel g) \<Longrightarrow>
    \<exists>g'. reduce_all hc us g = Some (Inr g') \<and> graph_wf hc g' \<and> vertex_set g' = vertex_set g \<and>
      edge_rel g' \<subseteq> edge_rel g \<and> (edge_rel g')\<^sup>+ = (edge_rel g)\<^sup>+ \<and>
      (\<forall>u \<in> set us. \<forall>v w. (u, w) \<in> edge_rel g' \<longrightarrow> \<not> ((u, v) \<in> (edge_rel g)\<^sup>+ \<and> (v, w) \<in> (edge_rel g)\<^sup>+))"
proof (induction us arbitrary: g)
  case (Cons u us)
  from reduce_step[OF inj Cons.prems, of u] obtain g1 where
    walk: "DepthFirstWalk hc (\<lambda>g. g) (downEdgesNoCopy hc g u) (reduce_visit hc u) g = Some (Inr g1)"
    and g1: "graph_wf hc g1" "vertex_set g1 = vertex_set g" "edge_rel g1 = edge_rel g - redundant (edge_rel g) u"
    by blast
  have tr: "(edge_rel g1)\<^sup>+ = (edge_rel g)\<^sup>+"
    unfolding g1(3) using Cons.prems(2) by (simp add: reduce_keeps_reach)
  then have "acyclic (edge_rel g1)" using Cons.prems(2) by (simp add: acyclic_def)
  from Cons.IH[OF g1(1) this] obtain g' where
    g': "reduce_all hc us g1 = Some (Inr g')" "graph_wf hc g'" "vertex_set g' = vertex_set g1"
      "edge_rel g' \<subseteq> edge_rel g1" "(edge_rel g')\<^sup>+ = (edge_rel g1)\<^sup>+"
      "\<forall>u \<in> set us. \<forall>v w. (u, w) \<in> edge_rel g' \<longrightarrow> \<not> ((u, v) \<in> (edge_rel g1)\<^sup>+ \<and> (v, w) \<in> (edge_rel g1)\<^sup>+)"
    by blast
  have "\<not> ((u, v) \<in> (edge_rel g)\<^sup>+ \<and> (v, w) \<in> (edge_rel g)\<^sup>+)" if "(u, w) \<in> edge_rel g'" for v w
  proof
    assume "(u, v) \<in> (edge_rel g)\<^sup>+ \<and> (v, w) \<in> (edge_rel g)\<^sup>+"
    then obtain y where "(u, y) \<in> (edge_rel g)\<^sup>+" "(y, w) \<in> edge_rel g"
      by (metis tranclD2 rtranclD trancl_trans)
    then have "(u, w) \<in> redundant (edge_rel g) u" by (auto simp: redundant_def)
    with that g'(4) g1(3) show False by auto
  qed
  with walk g' g1 tr show ?case by auto
qed simp

end
