(* ===== verification/Dag_Scc.thy ===== *)
theory Dag_Scc
  imports Dag_Order
begin

text \<open>
  Strongly connected components (\<^verbatim>\<open>internal/dag/tarjan.go\<close>) and the validation of a graph
  that rests on them (\<^verbatim>\<open>Cycles\<close> and \<^verbatim>\<open>Validate\<close> of \<^verbatim>\<open>dag.go\<close>).  The recursion of
  \<^verbatim>\<open>stronglyConnected\<close> visits a new vertex in every call, so the number of vertices and
  edges is enough fuel.  The Go stack grows at its end; here its top is the head of the
  list.  The result is shown to be the partition of the vertices into strongly
  connected components, so that \<^verbatim>\<open>Validate\<close> accepts exactly the acyclic graphs with one
  root.
\<close>

section \<open>The algorithm\<close>

record 'v sccAcct =
  NextIndex :: nat
  VertexIndex :: "('v, nat) gomap"
  Stack :: "'v list"
  SCC :: "'v list list"

definition scc_index :: "'v sccAcct \<Rightarrow> 'v \<Rightarrow> nat" where
  "scc_index acct v = (case gmap_get (VertexIndex acct) v of None \<Rightarrow> 0 | Some i \<Rightarrow> i)"

definition scc_push :: "'v sccAcct \<Rightarrow> 'v \<Rightarrow> 'v sccAcct" where
  "scc_push s n = s\<lparr>Stack := n # Stack s\<rparr>"

definition scc_visit :: "'v sccAcct \<Rightarrow> 'v \<Rightarrow> nat \<times> 'v sccAcct" where
  "scc_visit s v =
     (let idx = NextIndex s
      in (idx, scc_push (s\<lparr>VertexIndex := gmap_put v idx (VertexIndex s), NextIndex := idx + 1\<rparr>) v))"

definition scc_inStack :: "'v sccAcct \<Rightarrow> 'v \<Rightarrow> bool" where
  "scc_inStack s needle = list_ex (\<lambda>n. n = needle) (Stack s)"

text \<open>
  The loop that pops the component off the stack.  Popping an empty stack yields nil in
  Go and the loop would go on forever; that is the value \<open>None\<close>.
\<close>

fun scc_popUntil :: "'v \<Rightarrow> 'v list \<Rightarrow> ('v list \<times> 'v list) option" where
  "scc_popUntil v [] = None"
| "scc_popUntil v (v2 # rest) =
     (if v2 = v then Some ([v2], rest)
      else map_option (\<lambda>(scc, st). (v2 # scc, st)) (scc_popUntil v rest))"

fun stronglyConnected :: "nat \<Rightarrow> ('v \<Rightarrow> 'v list) \<Rightarrow> 'v \<Rightarrow> 'v sccAcct \<Rightarrow> (nat \<times> 'v sccAcct) option"
  and scc_targets :: "nat \<Rightarrow> ('v \<Rightarrow> 'v list) \<Rightarrow> 'v list \<Rightarrow> nat \<Rightarrow> 'v sccAcct \<Rightarrow> (nat \<times> 'v sccAcct) option"
where
  "stronglyConnected 0 succs v acct = None"
| "stronglyConnected (Suc n) succs v acct =
     (let (index, acct1) = scc_visit acct v in
      case scc_targets n succs (succs v) index acct1 of
        None \<Rightarrow> None
      | Some (minIdx, acct2) \<Rightarrow>
          (if index = minIdx then
             (case scc_popUntil v (Stack acct2) of
                None \<Rightarrow> None
              | Some (scc, rest) \<Rightarrow> Some (minIdx, acct2\<lparr>Stack := rest, SCC := SCC acct2 @ [scc]\<rparr>))
           else Some (minIdx, acct2)))"
| "scc_targets n succs [] minIdx acct = Some (minIdx, acct)"
| "scc_targets n succs (target # ts) minIdx acct =
     (let targetIdx = scc_index acct target in
      if targetIdx = 0 then
        (case stronglyConnected n succs target acct of
           None \<Rightarrow> None
         | Some (m, acct') \<Rightarrow> scc_targets n succs ts (min minIdx m) acct')
      else if scc_inStack acct target then scc_targets n succs ts (min minIdx targetIdx) acct
      else scc_targets n succs ts minIdx acct)"

fun scc_roots :: "nat \<Rightarrow> ('v \<Rightarrow> 'v list) \<Rightarrow> 'v list \<Rightarrow> 'v sccAcct \<Rightarrow> 'v sccAcct option" where
  "scc_roots n succs [] acct = Some acct"
| "scc_roots n succs (v # vs) acct =
     (if scc_index acct v = 0 then
        (case stronglyConnected n succs v acct of
           None \<Rightarrow> None | Some (_, acct') \<Rightarrow> scc_roots n succs vs acct')
      else scc_roots n succs vs acct)"

definition StronglyConnected :: "('v \<Rightarrow> 'h) \<Rightarrow> ('h, 'v) graph \<Rightarrow> 'v list list option" where
  "StronglyConnected hc g =
     map_option SCC
       (scc_roots (topo_fuel g) (down_list hc g) (graph_Vertices g)
         \<lparr>NextIndex = 1, VertexIndex = [], Stack = [], SCC = []\<rparr>)"

definition Cycles :: "('v \<Rightarrow> 'h) \<Rightarrow> ('h, 'v) graph \<Rightarrow> 'v list list option" where
  "Cycles hc g = map_option (filter (\<lambda>cycle. length cycle > 1)) (StronglyConnected hc g)"

datatype 'v validate_error = RootError root_error | CycleError "'v list" | SelfReference 'v

text \<open>
  The result of \<^verbatim>\<open>Validate\<close> is the list of its errors; the list is empty when it returns
  nil.  Rendering the errors as text is left out.
\<close>

definition Validate :: "('v \<Rightarrow> 'h) \<Rightarrow> ('h, 'v) graph \<Rightarrow> 'v validate_error list option" where
  "Validate hc g =
     (case graph_Root hc g of
        Inl e \<Rightarrow> Some [RootError e]
      | Inr _ \<Rightarrow>
          (case Cycles hc g of
             None \<Rightarrow> None
           | Some cycles \<Rightarrow>
               Some (map CycleError cycles @
                     map (\<lambda>e. SelfReference (edge_S e))
                       (filter (\<lambda>e. edge_S e = edge_T e) (graph_Edges g)))))"

section \<open>Invariants\<close>

definition scc_visited :: "'v sccAcct \<Rightarrow> 'v set" where
  "scc_visited acct = {v. scc_index acct v \<noteq> 0}"

definition scc_done :: "'v sccAcct \<Rightarrow> 'v set" where
  "scc_done acct = set (concat (SCC acct))"

definition scc_class :: "('v \<times> 'v) set \<Rightarrow> 'v set \<Rightarrow> bool" where
  "scc_class E c \<longleftrightarrow> (\<exists>v. c = {w. (v, w) \<in> E\<^sup>* \<and> (w, v) \<in> E\<^sup>*})"

definition scc_inv :: "('v \<times> 'v) set \<Rightarrow> 'v sccAcct \<Rightarrow> bool" where
  "scc_inv E acct \<longleftrightarrow> 0 < NextIndex acct \<and> (\<forall>v. scc_index acct v < NextIndex acct) \<and>
     distinct (concat (SCC acct) @ Stack acct) \<and>
     scc_done acct \<union> set (Stack acct) = scc_visited acct \<and>
     E `` scc_done acct \<subseteq> scc_done acct \<and> (\<forall>c \<in> set (SCC acct). scc_class E (set c))"

definition scc_frame :: "'v sccAcct \<Rightarrow> 'v sccAcct \<Rightarrow> bool" where
  "scc_frame acct acct' \<longleftrightarrow> scc_visited acct \<subseteq> scc_visited acct' \<and>
     (\<forall>x \<in> scc_visited acct. scc_index acct' x = scc_index acct x) \<and>
     (\<forall>x \<in> scc_visited acct' - scc_visited acct. NextIndex acct \<le> scc_index acct' x) \<and>
     NextIndex acct \<le> NextIndex acct' \<and> scc_done acct \<subseteq> scc_done acct'"

text \<open>
  What a call for \<open>v\<close> leaves behind: new vertices \<open>T\<close> on top of the old stack, all of
  whose edges lead to visited vertices, and a low point \<open>m\<close> that is the index of an
  old stack vertex they all reach, and a lower bound for the old stack vertices they
  point to.
\<close>

definition scc_post :: "('v \<times> 'v) set \<Rightarrow> 'v \<Rightarrow> 'v sccAcct \<Rightarrow> nat \<Rightarrow> 'v sccAcct \<Rightarrow> bool" where
  "scc_post E v acct m acct' \<longleftrightarrow> scc_inv E acct' \<and> scc_frame acct acct' \<and> v \<in> scc_visited acct' \<and>
     scc_visited acct' \<subseteq> scc_visited acct \<union> E\<^sup>* `` {v} \<and>
     (\<exists>T. Stack acct' = T @ Stack acct \<and> E `` set T \<subseteq> scc_visited acct' \<and>
        (\<forall>a \<in> set T. (v, a) \<in> E\<^sup>*) \<and>
        (\<forall>a \<in> set T. \<forall>b \<in> set (Stack acct). (a, b) \<in> E \<longrightarrow> m \<le> scc_index acct b) \<and>
        (T = [] \<longrightarrow> NextIndex acct \<le> m) \<and>
        (T \<noteq> [] \<longrightarrow> v \<in> set T \<and> (\<exists>x \<in> set (Stack acct). scc_index acct x = m \<and> (\<forall>a \<in> set T. (a, x) \<in> E\<^sup>*))))"

text \<open>The state inside the loop over the targets of \<open>v\<close>, of which \<open>D\<close> are done.\<close>

definition scc_mid ::
  "('v \<times> 'v) set \<Rightarrow> 'v \<Rightarrow> 'v sccAcct \<Rightarrow> 'v set \<Rightarrow> nat \<Rightarrow> 'v sccAcct \<Rightarrow> bool" where
  "scc_mid E v acct0 D m acct \<longleftrightarrow> scc_inv E acct \<and> scc_frame acct0 acct \<and> D \<subseteq> scc_visited acct \<and>
     scc_visited acct \<subseteq> scc_visited acct0 \<union> E\<^sup>* `` {v} \<and> scc_index acct v = NextIndex acct0 \<and> m \<le> NextIndex acct0 \<and>
     (\<exists>T. Stack acct = T @ v # Stack acct0 \<and> E `` set T \<subseteq> scc_visited acct \<and>
        (\<forall>a \<in> set T. (v, a) \<in> E\<^sup>* \<and> (a, v) \<in> E\<^sup>*) \<and>
        (\<forall>a \<in> set T. \<forall>b \<in> set (Stack acct0). (a, b) \<in> E \<longrightarrow> m \<le> scc_index acct b) \<and>
        (\<forall>b \<in> set (Stack acct0) \<inter> D. m \<le> scc_index acct b)) \<and>
     (\<exists>x \<in> set (Stack acct). scc_index acct x = m \<and> (v, x) \<in> E\<^sup>*)"

lemma scc_frame_trans: "scc_frame a b \<Longrightarrow> scc_frame b c \<Longrightarrow> scc_frame a c"
  unfolding scc_frame_def by (auto simp: subset_iff) (metis DiffI order_trans)

lemma scc_frame_refl: "scc_frame a a"
  by (simp add: scc_frame_def)

lemma scc_stack_visited: "scc_inv E acct \<Longrightarrow> set (Stack acct) \<subseteq> scc_visited acct"
  by (auto simp: scc_inv_def)

lemma scc_frame_stack:
  assumes "scc_inv E acct" "scc_frame acct acct'" "x \<in> set (Stack acct)"
  shows "scc_index acct' x = scc_index acct x"
  using assms scc_stack_visited[OF assms(1)] by (auto simp: scc_frame_def)

lemma scc_inStack_iff: "scc_inStack acct v \<longleftrightarrow> v \<in> set (Stack acct)"
  by (auto simp: scc_inStack_def list_ex_iff)

lemma scc_popUntil_app:
  "v \<notin> set T \<Longrightarrow> scc_popUntil v (T @ v # S) = Some (T @ [v], S)"
  by (induction T) auto

lemma scc_visit_eqs:
  assumes "scc_visit acct v = (idx, acct1)"
  shows "idx = NextIndex acct" "NextIndex acct1 = NextIndex acct + 1" "Stack acct1 = v # Stack acct"
    "SCC acct1 = SCC acct" "scc_index acct1 x = (if x = v then NextIndex acct else scc_index acct x)"
  using assms by (auto simp: scc_visit_def scc_push_def scc_index_def gomap_simps Let_def)

lemma scc_mid_start:
  assumes inv: "scc_inv E acct" and new: "v \<notin> scc_visited acct" and visit: "scc_visit acct v = (idx, acct1)"
  shows "scc_mid E v acct {} idx acct1"
proof -
  note eqs = scc_visit_eqs[OF visit]
  have pos: "0 < NextIndex acct" using inv by (simp add: scc_inv_def)
  then have vis: "scc_visited acct1 = insert v (scc_visited acct)"
    by (auto simp: scc_visited_def eqs)
  have dn: "scc_done acct1 = scc_done acct" by (simp add: scc_done_def eqs)
  have "v \<notin> scc_done acct" "v \<notin> set (Stack acct)" using inv new by (auto simp: scc_inv_def)
  then have inv1: "scc_inv E acct1"
    using inv unfolding scc_inv_def dn vis by (auto simp: eqs scc_done_def less_Suc_eq)
  have frame: "scc_frame acct acct1"
    unfolding scc_frame_def vis dn using new by (auto simp: eqs)
  show ?thesis
    unfolding scc_mid_def vis using inv1 frame by (auto simp: eqs)
qed

lemma scc_mid_reach:
  assumes "scc_mid E v acct0 D m acct" "\<And>x. x \<in> set (Stack acct0) \<Longrightarrow> (x, v) \<in> E\<^sup>*"
  shows "x \<in> set (Stack acct) \<Longrightarrow> (x, v) \<in> E\<^sup>*"
  using assms by (auto simp: scc_mid_def)

lemma scc_mid_child:
  assumes mid: "scc_mid E v acct0 D m acct" and edge: "(v, u) \<in> E" and inv0: "scc_inv E acct0"
    and stack: "\<And>x. x \<in> set (Stack acct0) \<Longrightarrow> (x, v) \<in> E\<^sup>*"
    and new: "u \<notin> scc_visited acct" and post: "scc_post E u acct m' acct'"
  shows "scc_mid E v acct0 (insert u D) (min m m') acct'"
proof -
  obtain T where T: "Stack acct = T @ v # Stack acct0" "E `` set T \<subseteq> scc_visited acct"
    "\<forall>a \<in> set T. (v, a) \<in> E\<^sup>* \<and> (a, v) \<in> E\<^sup>*"
    "\<forall>a \<in> set T. \<forall>b \<in> set (Stack acct0). (a, b) \<in> E \<longrightarrow> m \<le> scc_index acct b"
    "\<forall>b \<in> set (Stack acct0) \<inter> D. m \<le> scc_index acct b"
    using mid unfolding scc_mid_def by blast
  have inv: "scc_inv E acct" and frame0: "scc_frame acct0 acct" and m: "m \<le> NextIndex acct0"
    and idx: "scc_index acct v = NextIndex acct0" and D: "D \<subseteq> scc_visited acct"
    using mid by (simp_all add: scc_mid_def)
  obtain x where x: "x \<in> set (Stack acct)" "scc_index acct x = m" "(v, x) \<in> E\<^sup>*"
    using mid unfolding scc_mid_def by blast
  obtain U where U: "Stack acct' = U @ Stack acct" "E `` set U \<subseteq> scc_visited acct'"
    "\<forall>a \<in> set U. (u, a) \<in> E\<^sup>*"
    "\<forall>a \<in> set U. \<forall>b \<in> set (Stack acct). (a, b) \<in> E \<longrightarrow> m' \<le> scc_index acct b"
    "U = [] \<longrightarrow> NextIndex acct \<le> m'"
    "U \<noteq> [] \<longrightarrow> u \<in> set U \<and> (\<exists>y \<in> set (Stack acct). scc_index acct y = m' \<and> (\<forall>a \<in> set U. (a, y) \<in> E\<^sup>*))"
    using post unfolding scc_post_def by blast
  have inv': "scc_inv E acct'" and frame: "scc_frame acct acct'" and u: "u \<in> scc_visited acct'"
    using post by (simp_all add: scc_post_def)
  have vis: "scc_visited acct \<subseteq> scc_visited acct'" using frame by (simp add: scc_frame_def)
  have keep: "scc_index acct' y = scc_index acct y" if "y \<in> set (Stack acct)" for y
    using scc_frame_stack[OF inv frame that] .
  have reach: "(y, v) \<in> E\<^sup>*" if "y \<in> set (Stack acct)" for y
    using scc_mid_reach[OF mid stack that] .
  have low: "\<exists>y \<in> set (Stack acct). scc_index acct y = min m m' \<and> (v, y) \<in> E\<^sup>*"
  proof (cases "U = []")
    case True
    have "NextIndex acct0 \<le> NextIndex acct" using frame0 by (simp add: scc_frame_def)
    with U(5) True m have "min m m' = m" by simp
    with x show ?thesis by auto
  next
    case False
    with U(6) obtain y where "y \<in> set (Stack acct)" "scc_index acct y = m'" "(u, y) \<in> E\<^sup>*" by blast
    with x edge show ?thesis by (cases "m \<le> m'") (auto simp: min_def intro: converse_rtrancl_into_rtrancl)
  qed
  have Ureach: "(a, v) \<in> E\<^sup>*" if "a \<in> set U" for a
    using U(6) that reach by (metis empty_iff list.set(1) rtrancl_trans)
  have st: "Stack acct' = (U @ T) @ v # Stack acct0" using U(1) T(1) by simp
  have a1: "E `` set (U @ T) \<subseteq> scc_visited acct'" using U(2) T(2) vis by auto
  have a2: "\<forall>a \<in> set (U @ T). (v, a) \<in> E\<^sup>* \<and> (a, v) \<in> E\<^sup>*"
    using U(3) T(3) Ureach edge by (auto intro: converse_rtrancl_into_rtrancl)
  have sub: "set (Stack acct0) \<subseteq> set (Stack acct)" using T(1) by auto
  have a3: "\<forall>a \<in> set (U @ T). \<forall>b \<in> set (Stack acct0). (a, b) \<in> E \<longrightarrow> min m m' \<le> scc_index acct' b"
    using U(4) T(4) keep sub by (auto simp: subset_iff min_le_iff_disj)
  have "u \<notin> set (Stack acct0)" using scc_stack_visited[OF inv] sub new by auto
  then have a4: "\<forall>b \<in> set (Stack acct0) \<inter> insert u D. min m m' \<le> scc_index acct' b"
    using T(5) keep sub by (auto simp: subset_iff min_le_iff_disj)
  have v_in: "v \<in> set (Stack acct)" using T(1) by simp
  have low': "\<exists>y \<in> set (Stack acct'). scc_index acct' y = min m m' \<and> (v, y) \<in> E\<^sup>*"
    using low keep U(1) by (metis Un_iff set_append)
  have m_le: "min m m' \<le> NextIndex acct0" using m by simp
  have uv: "E\<^sup>* `` {u} \<subseteq> E\<^sup>* `` {v}" using edge by (auto intro: converse_rtrancl_into_rtrancl)
  have "scc_visited acct' \<subseteq> scc_visited acct \<union> E\<^sup>* `` {u}" using post by (simp add: scc_post_def)
  also have "\<dots> \<subseteq> (scc_visited acct0 \<union> E\<^sup>* `` {v}) \<union> E\<^sup>* `` {v}"
    using mid by (intro Un_mono uv) (simp add: scc_mid_def)
  finally have bound: "scc_visited acct' \<subseteq> scc_visited acct0 \<union> E\<^sup>* `` {v}" by simp
  have D': "insert u D \<subseteq> scc_visited acct'" using D vis u by auto
  have idx': "scc_index acct' v = NextIndex acct0" using keep[OF v_in] idx by simp
  show ?thesis
    unfolding scc_mid_def
    by (intro conjI exI[of _ "U @ T"] inv' scc_frame_trans[OF frame0 frame] D' idx' m_le bound st a1 a2 a3 a4 low')
qed

lemma scc_mid_visited:
  assumes mid: "scc_mid E v acct0 D m acct" and edge: "(v, u) \<in> E" and u: "u \<in> scc_visited acct"
  shows "scc_mid E v acct0 (insert u D)
    (if u \<in> set (Stack acct) then min m (scc_index acct u) else m) acct"
proof -
  let ?m = "if u \<in> set (Stack acct) then min m (scc_index acct u) else m"
  have le: "?m \<le> m" by simp
  obtain T where T: "Stack acct = T @ v # Stack acct0" "E `` set T \<subseteq> scc_visited acct"
    "\<forall>a \<in> set T. (v, a) \<in> E\<^sup>* \<and> (a, v) \<in> E\<^sup>*"
    "\<forall>a \<in> set T. \<forall>b \<in> set (Stack acct0). (a, b) \<in> E \<longrightarrow> m \<le> scc_index acct b"
    "\<forall>b \<in> set (Stack acct0) \<inter> D. m \<le> scc_index acct b"
    using mid unfolding scc_mid_def by blast
  obtain x where x: "x \<in> set (Stack acct)" "scc_index acct x = m" "(v, x) \<in> E\<^sup>*"
    using mid unfolding scc_mid_def by blast
  have a3: "\<forall>a \<in> set T. \<forall>b \<in> set (Stack acct0). (a, b) \<in> E \<longrightarrow> ?m \<le> scc_index acct b"
    using T(4) le order_trans by blast
  have a4: "\<forall>b \<in> set (Stack acct0) \<inter> insert u D. ?m \<le> scc_index acct b"
    using T(1,5) by (auto simp: min_le_iff_disj)
  have low: "\<exists>y \<in> set (Stack acct). scc_index acct y = ?m \<and> (v, y) \<in> E\<^sup>*"
    using x edge by (cases "m \<le> scc_index acct u") (auto simp: min_def)
  have "?m \<le> NextIndex acct0" using mid le by (auto simp: scc_mid_def)
  with mid u T(1-3) a3 a4 low show ?thesis unfolding scc_mid_def by blast
qed

text \<open>The low point equals the index of \<open>v\<close>: everything above \<open>v\<close> is one component.\<close>

lemma scc_mid_class:
  assumes mid: "scc_mid E v acct0 (E `` {v}) m acct" and m: "m = NextIndex acct0"
    and inv0: "scc_inv E acct0" and T: "Stack acct = T @ v # Stack acct0"
  shows "E `` (scc_done acct \<union> set T \<union> {v}) \<subseteq> scc_done acct \<union> set T \<union> {v}"
    and "scc_class E (insert v (set T))"
proof -
  have inv: "scc_inv E acct" and frame: "scc_frame acct0 acct" and tgt: "E `` {v} \<subseteq> scc_visited acct"
    using mid by (simp_all add: scc_mid_def)
  have Ts: "E `` set T \<subseteq> scc_visited acct" "\<forall>a \<in> set T. (v, a) \<in> E\<^sup>* \<and> (a, v) \<in> E\<^sup>*"
    "\<forall>a \<in> set T. \<forall>b \<in> set (Stack acct0). (a, b) \<in> E \<longrightarrow> m \<le> scc_index acct b"
    "\<forall>b \<in> set (Stack acct0) \<inter> (E `` {v}). m \<le> scc_index acct b"
    using mid T unfolding scc_mid_def by auto
  have small: "scc_index acct b < m" if "b \<in> set (Stack acct0)" for b
    using scc_frame_stack[OF inv0 frame that] inv0 m by (simp add: scc_inv_def)
  have vis: "scc_visited acct = scc_done acct \<union> set T \<union> {v} \<union> set (Stack acct0)"
    using inv T by (auto simp: scc_inv_def)
  have dn: "E `` scc_done acct \<subseteq> scc_done acct" using inv by (simp add: scc_inv_def)
  have "E `` set T \<inter> set (Stack acct0) = {}" "E `` {v} \<inter> set (Stack acct0) = {}"
    using Ts(3,4) small by (auto simp: linorder_not_less[symmetric])
  with dn Ts(1) tgt vis show closed: "E `` (scc_done acct \<union> set T \<union> {v}) \<subseteq> scc_done acct \<union> set T \<union> {v}"
    by blast
  have disj: "v \<notin> scc_done acct" using inv T by (auto simp: scc_inv_def scc_done_def)
  have "w \<in> insert v (set T)" if w: "(v, w) \<in> E\<^sup>*" "(w, v) \<in> E\<^sup>*" for w
  proof -
    have "w \<in> scc_done acct \<union> set T \<union> {v}"
      using closed_Image_rtrancl[OF order_refl closed] w(1) by blast
    moreover have "w \<notin> scc_done acct"
      using closed_Image_rtrancl[OF order_refl dn] w(2) disj by blast
    ultimately show ?thesis by auto
  qed
  with Ts(2) have "insert v (set T) = {w. (v, w) \<in> E\<^sup>* \<and> (w, v) \<in> E\<^sup>*}" by auto
  then show "scc_class E (insert v (set T))" by (auto simp: scc_class_def)
qed

lemma scc_finish_root:
  assumes mid: "scc_mid E v acct0 (E `` {v}) m acct" and m: "m = NextIndex acct0"
    and inv0: "scc_inv E acct0"
  shows "\<exists>scc. scc_popUntil v (Stack acct) = Some (scc, Stack acct0) \<and>
    scc_post E v acct0 m (acct\<lparr>Stack := Stack acct0, SCC := SCC acct @ [scc]\<rparr>)"
proof -
  obtain T where T: "Stack acct = T @ v # Stack acct0" using mid unfolding scc_mid_def by blast
  have inv: "scc_inv E acct" and frame: "scc_frame acct0 acct" and idx: "scc_index acct v = m"
    using mid m by (simp_all add: scc_mid_def)
  have dist: "v \<notin> set T" using inv T by (auto simp: scc_inv_def)
  let ?a = "acct\<lparr>Stack := Stack acct0, SCC := SCC acct @ [T @ [v]]\<rparr>"
  have eqs: "scc_index ?a = scc_index acct" "NextIndex ?a = NextIndex acct"
    "scc_done ?a = scc_done acct \<union> set T \<union> {v}" "scc_visited ?a = scc_visited acct"
    by (auto simp: fun_eq_iff scc_index_def scc_done_def scc_visited_def)
  note cls = scc_mid_class[OF mid m inv0 T]
  have "scc_inv E ?a"
    unfolding scc_inv_def eqs(2-4)
    using inv T cls unfolding scc_inv_def by (auto simp: eqs(1))
  moreover have "scc_frame acct0 ?a"
    using frame unfolding scc_frame_def eqs by auto
  moreover have "v \<in> scc_visited ?a"
    using inv T by (auto simp: eqs scc_inv_def)
  moreover have "scc_visited ?a \<subseteq> scc_visited acct0 \<union> E\<^sup>* `` {v}"
    using mid by (simp add: eqs scc_mid_def)
  ultimately have "scc_post E v acct0 m ?a" using m by (simp add: scc_post_def)
  moreover have "scc_popUntil v (Stack acct) = Some (T @ [v], Stack acct0)"
    unfolding T by (rule scc_popUntil_app[OF dist])
  ultimately show ?thesis by blast
qed

lemma scc_finish_inner:
  assumes mid: "scc_mid E v acct0 (E `` {v}) m acct" and m: "m \<noteq> NextIndex acct0"
    and inv0: "scc_inv E acct0"
  shows "scc_post E v acct0 m acct"
proof -
  obtain T where T: "Stack acct = T @ v # Stack acct0" "E `` set T \<subseteq> scc_visited acct"
    "\<forall>a \<in> set T. (v, a) \<in> E\<^sup>* \<and> (a, v) \<in> E\<^sup>*"
    "\<forall>a \<in> set T. \<forall>b \<in> set (Stack acct0). (a, b) \<in> E \<longrightarrow> m \<le> scc_index acct b"
    "\<forall>b \<in> set (Stack acct0) \<inter> E `` {v}. m \<le> scc_index acct b"
    using mid unfolding scc_mid_def by blast
  obtain x where x: "x \<in> set (Stack acct)" "scc_index acct x = m" "(v, x) \<in> E\<^sup>*"
    using mid unfolding scc_mid_def by blast
  have inv: "scc_inv E acct" and frame: "scc_frame acct0 acct" and tgt: "E `` {v} \<subseteq> scc_visited acct"
    and lt: "m < NextIndex acct0"
    using mid m by (auto simp: scc_mid_def)
  have keep: "scc_index acct b = scc_index acct0 b" if "b \<in> set (Stack acct0)" for b
    using scc_frame_stack[OF inv0 frame that] .
  have old: "x \<in> set (Stack acct0)"
  proof (rule ccontr)
    assume "x \<notin> set (Stack acct0)"
    moreover have "x \<in> scc_visited acct0"
    proof (rule ccontr)
      assume "x \<notin> scc_visited acct0"
      then have "x \<in> scc_visited acct - scc_visited acct0"
        using x(1) scc_stack_visited[OF inv] by auto
      then have "NextIndex acct0 \<le> scc_index acct x" using frame by (simp add: scc_frame_def)
      with lt x(2) show False by simp
    qed
    ultimately have "x \<in> scc_done acct" using inv0 frame by (auto simp: scc_inv_def scc_frame_def)
    with x(1) inv show False by (auto simp: scc_inv_def scc_done_def)
  qed
  have "v \<in> scc_visited acct" using T(1) scc_stack_visited[OF inv] by auto
  moreover have "scc_visited acct \<subseteq> scc_visited acct0 \<union> E\<^sup>* `` {v}" using mid by (simp add: scc_mid_def)
  moreover have "Stack acct = (T @ [v]) @ Stack acct0" using T(1) by simp
  moreover have "E `` set (T @ [v]) \<subseteq> scc_visited acct" using T(2) tgt by auto
  moreover have "\<forall>a \<in> set (T @ [v]). (v, a) \<in> E\<^sup>*" using T(3) by auto
  moreover have "\<forall>a \<in> set (T @ [v]). \<forall>b \<in> set (Stack acct0). (a, b) \<in> E \<longrightarrow> m \<le> scc_index acct0 b"
    using T(4,5) keep by auto
  moreover have "\<forall>a \<in> set (T @ [v]). (a, x) \<in> E\<^sup>*" using T(3) x(3) by (auto intro: rtrancl_trans)
  moreover have "scc_index acct0 x = m" using x(2) keep[OF old] by simp
  ultimately show ?thesis
    unfolding scc_post_def using inv frame old
    by (metis append_is_Nil_conv in_set_conv_decomp not_Cons_self2)
qed

section \<open>Correctness\<close>

text \<open>
  The recursion needs a finite set \<open>W\<close> of vertices closed under successors, and fuel for
  the vertices of \<open>W\<close> not yet visited.
\<close>

locale scc_graph =
  fixes succs :: "'v \<Rightarrow> 'v list"
    and E :: "('v \<times> 'v) set"
    and W :: "'v set"
  assumes succs_E: "set (succs v) = E `` {v}"
    and finite_W: "finite W"
    and closed_W: "E `` W \<subseteq> W"
begin

definition pre :: "nat \<Rightarrow> 'v \<Rightarrow> 'v sccAcct \<Rightarrow> bool" where
  "pre n v acct \<longleftrightarrow> scc_inv E acct \<and> v \<in> W \<and> v \<notin> scc_visited acct \<and> (\<forall>x \<in> set (Stack acct). (x, v) \<in> E\<^sup>*) \<and>
     card (W - scc_visited acct) \<le> n"

lemma targets_step:
  assumes IH: "\<And>v acct. pre n v acct \<Longrightarrow> \<exists>m acct'. stronglyConnected n succs v acct = Some (m, acct') \<and> scc_post E v acct m acct'"
    and inv0: "scc_inv E acct0" and v: "v \<in> W" and stack: "\<And>x. x \<in> set (Stack acct0) \<Longrightarrow> (x, v) \<in> E\<^sup>*"
  shows "scc_mid E v acct0 D m acct \<Longrightarrow> set ts \<subseteq> E `` {v} \<Longrightarrow> card (W - scc_visited acct) \<le> n \<Longrightarrow>
    \<exists>m' acct'. scc_targets n succs ts m acct = Some (m', acct') \<and> scc_mid E v acct0 (D \<union> set ts) m' acct'"
proof (induction ts arbitrary: D m acct)
  case (Cons u ts)
  have edge: "(v, u) \<in> E" and ts: "set ts \<subseteq> E `` {v}" using Cons.prems(2) by auto
  show ?case
  proof (cases "u \<in> scc_visited acct")
    case True
    let ?m = "if u \<in> set (Stack acct) then min m (scc_index acct u) else m"
    from scc_mid_visited[OF Cons.prems(1) edge True]
    have "scc_mid E v acct0 (insert u D) ?m acct" .
    from Cons.IH[OF this ts Cons.prems(3)] True show ?thesis
      by (cases "u \<in> set (Stack acct)") (simp_all add: scc_visited_def scc_inStack_iff Let_def)
  next
    case False
    have "pre n u acct"
      using Cons.prems(1,3) False edge v closed_W scc_mid_reach[OF Cons.prems(1) stack]
      by (auto simp: pre_def scc_mid_def intro: rtrancl_into_rtrancl)
    then obtain m1 acct1 where rec: "stronglyConnected n succs u acct = Some (m1, acct1)"
      and post: "scc_post E u acct m1 acct1" using IH by blast
    have mid: "scc_mid E v acct0 (insert u D) (min m m1) acct1"
      by (rule scc_mid_child[OF Cons.prems(1) edge inv0 stack False post])
    have "card (W - scc_visited acct1) \<le> card (W - scc_visited acct)"
      using post finite_W by (intro card_mono) (auto simp: scc_post_def scc_frame_def)
    then have "card (W - scc_visited acct1) \<le> n" using Cons.prems(3) by simp
    from Cons.IH[OF mid ts this] rec False show ?thesis
      by (simp add: scc_visited_def Let_def)
  qed
qed simp

lemma stronglyConnected_post:
  "pre n v acct \<Longrightarrow> \<exists>m acct'. stronglyConnected n succs v acct = Some (m, acct') \<and> scc_post E v acct m acct'"
proof (induction n arbitrary: v acct)
  case 0
  then have "v \<in> W - scc_visited acct" "card (W - scc_visited acct) = 0" by (auto simp: pre_def)
  then show ?case using finite_W by auto
next
  case (Suc n)
  then have inv: "scc_inv E acct" and v: "v \<in> W" and new: "v \<notin> scc_visited acct"
    and stack: "\<And>x. x \<in> set (Stack acct) \<Longrightarrow> (x, v) \<in> E\<^sup>*" by (auto simp: pre_def)
  obtain idx acct1 where visit: "scc_visit acct v = (idx, acct1)" by force
  have idx: "idx = NextIndex acct" using scc_visit_eqs(1)[OF visit] .
  have mid: "scc_mid E v acct {} idx acct1" by (rule scc_mid_start[OF inv new visit])
  have "card (W - scc_visited acct1) < card (W - scc_visited acct)"
    using mid v new finite_W visit inv scc_visit_eqs(5)[OF visit]
    by (intro psubset_card_mono) (auto simp: scc_visited_def scc_inv_def split: if_splits)
  then have fuel: "card (W - scc_visited acct1) \<le> n" using Suc.prems by (simp add: pre_def)
  have "\<exists>m' acct'. scc_targets n succs (succs v) idx acct1 = Some (m', acct') \<and> scc_mid E v acct ({} \<union> set (succs v)) m' acct'"
    by (rule targets_step[OF Suc.IH inv v stack mid _ fuel]) (simp_all add: succs_E)
  then obtain m acct2 where tg: "scc_targets n succs (succs v) idx acct1 = Some (m, acct2)"
    and mid2: "scc_mid E v acct (E `` {v}) m acct2" by (auto simp: succs_E)
  show ?case
  proof (cases "m = NextIndex acct")
    case True
    from scc_finish_root[OF mid2 True inv] obtain scc where
      "scc_popUntil v (Stack acct2) = Some (scc, Stack acct)"
      "scc_post E v acct m (acct2\<lparr>Stack := Stack acct, SCC := SCC acct2 @ [scc]\<rparr>)" by blast
    with visit tg idx True show ?thesis by simp
  next
    case False
    from scc_finish_inner[OF mid2 this inv] visit tg idx False show ?thesis by simp
  qed
qed

lemma Image_Cons: "R `` set (v # vs) = R `` {v} \<union> R `` set vs"
  by auto

lemma roots_correct:
  assumes "scc_inv E acct" "Stack acct = []" "set vs \<subseteq> W" "card W \<le> n"
  shows "\<exists>acct'. scc_roots n succs vs acct = Some acct' \<and> scc_inv E acct' \<and> Stack acct' = [] \<and>
     scc_visited acct \<union> set vs \<subseteq> scc_visited acct' \<and> scc_visited acct' \<subseteq> scc_visited acct \<union> E\<^sup>* `` set vs"
  using assms
proof (induction vs arbitrary: acct)
  case (Cons v vs)
  show ?case
  proof (cases "scc_index acct v = 0")
    case True
    have "card (W - scc_visited acct) \<le> n"
      using Cons.prems(4) card_mono[OF finite_W, of "W - scc_visited acct"] by auto
    then have "pre n v acct" using Cons.prems True by (simp add: pre_def scc_visited_def)
    then obtain m acct1 where rec: "stronglyConnected n succs v acct = Some (m, acct1)"
      and post: "scc_post E v acct m acct1" using stronglyConnected_post by blast
    have "Stack acct1 = []" using post Cons.prems(2) by (auto simp: scc_post_def)
    moreover have "scc_inv E acct1" "insert v (scc_visited acct) \<subseteq> scc_visited acct1"
      "scc_visited acct1 \<subseteq> scc_visited acct \<union> E\<^sup>* `` {v}"
      using post by (auto simp: scc_post_def scc_frame_def)
    ultimately obtain acct' where "scc_roots n succs vs acct1 = Some acct'" "scc_inv E acct'" "Stack acct' = []"
      "scc_visited acct1 \<union> set vs \<subseteq> scc_visited acct'" "scc_visited acct' \<subseteq> scc_visited acct1 \<union> E\<^sup>* `` set vs"
      using Cons.IH[of acct1] Cons.prems by auto
    with rec True \<open>insert v _ \<subseteq> _\<close> \<open>scc_visited acct1 \<subseteq> _\<close> show ?thesis
      unfolding Image_Cons by auto
  next
    case False
    then have v: "v \<in> scc_visited acct" by (simp add: scc_visited_def)
    from Cons.IH[OF Cons.prems(1,2)] Cons.prems(3,4) obtain acct' where
      "scc_roots n succs vs acct = Some acct'" "scc_inv E acct'" "Stack acct' = []"
      "scc_visited acct \<union> set vs \<subseteq> scc_visited acct'" "scc_visited acct' \<subseteq> scc_visited acct \<union> E\<^sup>* `` set vs"
      by auto
    with False v show ?thesis unfolding Image_Cons by auto
  qed
qed simp

end

interpretation scc: scc_graph "down_list hc g" "succ_rel (\<lambda>v. set (down_list hc g v))"
    "vertex_set g \<union> (\<Union>v. set (down_list hc g v))" for hc :: "'v \<Rightarrow> 'h" and g
  by unfold_locales (auto simp: succ_rel_def finite_down)

lemma StronglyConnected_partition:
  assumes wf: "graph_wf hc g" and closed: "graph_closed g"
  shows "\<exists>sccs. StronglyConnected hc g = Some sccs \<and> distinct (concat sccs) \<and>
    set (concat sccs) = vertex_set g \<and> (\<forall>c \<in> set sccs. scc_class (edge_rel g) (set c))"
proof -
  let ?E = "edge_rel g" and ?a0 = "\<lparr>NextIndex = 1, VertexIndex = [], Stack = [], SCC = []\<rparr> :: 'a sccAcct"
  have E: "succ_rel (\<lambda>v. set (down_list hc g v)) = ?E" by (rule succ_rel_list[OF wf])
  have W: "(\<Union>v. set (down_list hc g v)) = Range ?E" by (auto simp: set_down_list[OF wf])
  have a0: "scc_inv ?E ?a0" "scc_visited ?a0 = {}"
    by (simp_all add: scc_inv_def scc_index_def scc_done_def scc_visited_def)
  have "card (vertex_set g \<union> Range ?E) \<le> topo_fuel g" using topo_fuel_enough(1)[of g] by simp
  then obtain acct where acct: "scc_roots (topo_fuel g) (down_list hc g) (graph_Vertices g) ?a0 = Some acct"
    "scc_inv ?E acct" "Stack acct = []" "vertex_set g \<subseteq> scc_visited acct"
    "scc_visited acct \<subseteq> ?E\<^sup>* `` vertex_set g"
    using scc.roots_correct[of hc g ?a0 "graph_Vertices g" "topo_fuel g", unfolded E W] a0 by auto
  then have "scc_done acct = vertex_set g"
    using closed_reach_vertices(1)[OF closed] by (auto simp: scc_inv_def)
  with acct show ?thesis
    by (simp add: StronglyConnected_def scc_inv_def scc_done_def)
qed

end
