(* ===== verification/Dag_Props.thy ===== *)
theory Dag_Props
  imports Dag_Scc
begin

text \<open>
  The properties of the graph library that the rest of the program relies on: which
  graphs are accepted, in which order their vertices come, which vertices are reachable,
  and what the transitive reduction keeps.  A vertex is any value with a hash code; the
  properties that compare vertices by their hash code assume the code to be injective,
  which is what \<^verbatim>\<open>hashcode\<close> of \<^verbatim>\<open>set.go\<close> gives for pointer vertices and for values that
  are their own code.
\<close>

section \<open>Helper lemmas\<close>

lemma distinct_graph_Vertices: "graph_wf hc g \<Longrightarrow> distinct (graph_Vertices g)"
  using distinct_set_List[of hc "g_vertices g"] by (simp add: graph_Vertices_def graph_wf_def)

lemma set_Len_0: "set_Len s = 0 \<longleftrightarrow> dset_elems s = {}"
  by (cases s) (auto simp: set_Len_def dset_elems_def gmap_vals_def)

definition is_root :: "('h, 'v) graph \<Rightarrow> 'v \<Rightarrow> bool" where
  "is_root g r \<longleftrightarrow> r \<in> vertex_set g \<and> r \<notin> Range (edge_rel g)"

lemma roots_filter:
  assumes "graph_wf hc g"
  shows "set (filter (\<lambda>v. set_Len (upEdgesNoCopy hc g v) = 0) (graph_Vertices g)) = {r. is_root g r}"
  using assms by (auto simp: set_Len_0 graph_wf_adj is_root_def)

lemma graph_Root_cases:
  assumes wf: "graph_wf hc g"
  shows "graph_Root hc g = Inl NoRoots \<Longrightarrow> \<nexists>r. is_root g r"
    and "graph_Root hc g = Inl MultipleRoots \<Longrightarrow> \<exists>r s. r \<noteq> s \<and> is_root g r \<and> is_root g s"
    and "graph_Root hc g = Inr r \<longleftrightarrow> (\<forall>s. is_root g s \<longleftrightarrow> s = r)"
proof -
  let ?roots = "filter (\<lambda>v. set_Len (upEdgesNoCopy hc g v) = 0) (graph_Vertices g)"
  have set: "set ?roots = {r. is_root g r}" by (rule roots_filter[OF wf])
  have dist: "distinct ?roots" using distinct_graph_Vertices[OF wf] by simp
  consider (none) "?roots = []" | (one) r where "?roots = [r]" | (many) r s rs where "?roots = r # s # rs"
    by (metis neq_Nil_conv)
  then have "(graph_Root hc g = Inl NoRoots \<and> (\<nexists>r. is_root g r)) \<or>
    (graph_Root hc g = Inl MultipleRoots \<and> (\<exists>r s. r \<noteq> s \<and> is_root g r \<and> is_root g s)) \<or>
    (\<exists>r. graph_Root hc g = Inr r \<and> (\<forall>s. is_root g s \<longleftrightarrow> s = r))"
  proof cases
    case none
    with set show ?thesis by (simp add: graph_Root_def del: set_filter)
  next
    case (one r)
    with set have "\<forall>s. is_root g s \<longleftrightarrow> s = r" by (auto simp del: set_filter)
    with one show ?thesis by (simp add: graph_Root_def)
  next
    case (many r s rs)
    with set dist have "r \<noteq> s" "is_root g r" "is_root g s" by (auto simp del: set_filter)
    with many show ?thesis by (auto simp add: graph_Root_def)
  qed
  then show "graph_Root hc g = Inl NoRoots \<Longrightarrow> \<nexists>r. is_root g r"
    and "graph_Root hc g = Inl MultipleRoots \<Longrightarrow> \<exists>r s. r \<noteq> s \<and> is_root g r \<and> is_root g s"
    and "graph_Root hc g = Inr r \<longleftrightarrow> (\<forall>s. is_root g s \<longleftrightarrow> s = r)"
    by (fastforce, fastforce, metis Inl_Inr_False Inr_inject)
qed

lemma scc_class_mutual:
  assumes "scc_class E c" "v \<in> c"
  shows "w \<in> c \<longleftrightarrow> (v, w) \<in> E\<^sup>* \<and> (w, v) \<in> E\<^sup>*"
  using assms unfolding scc_class_def by (auto intro: rtrancl_trans)

lemma long_component:
  assumes "distinct c" "scc_class E (set c)"
  shows "length c > 1 \<longleftrightarrow> (\<exists>v \<in> set c. \<exists>w \<in> set c. v \<noteq> w)"
  using assms(1) by (cases c rule: remdups_adj.cases) auto

lemma acyclic_components:
  assumes part: "set (concat sccs) = V" "distinct (concat sccs)" "\<forall>c \<in> set sccs. scc_class E (set c)"
    and dom: "Domain E \<subseteq> V"
  shows "acyclic E \<longleftrightarrow> (\<forall>c \<in> set sccs. \<not> length c > 1) \<and> (\<forall>v. (v, v) \<notin> E)"
proof
  assume acyc: "acyclic E"
  have "\<not> length c > 1" if c: "c \<in> set sccs" for c
  proof
    assume "length c > 1"
    moreover have "distinct c" using part(2) c by (simp add: distinct_concat_iff)
    ultimately obtain v w where vw: "v \<in> set c" "w \<in> set c" "v \<noteq> w"
      using long_component part(3) c by blast
    then have "(v, w) \<in> E\<^sup>*" "(w, v) \<in> E\<^sup>*" using scc_class_mutual part(3) c by metis+
    with vw(3) have "(v, w) \<in> E\<^sup>+" by (auto dest: rtranclD)
    with \<open>(w, v) \<in> E\<^sup>*\<close> have "(v, v) \<in> E\<^sup>+" by simp
    with acyc show False by (simp add: acyclic_def)
  qed
  with acyc show "(\<forall>c \<in> set sccs. \<not> length c > 1) \<and> (\<forall>v. (v, v) \<notin> E)"
    by (auto simp: acyclic_def)
next
  assume short: "(\<forall>c \<in> set sccs. \<not> length c > 1) \<and> (\<forall>v. (v, v) \<notin> E)"
  show "acyclic E"
    unfolding acyclic_def
  proof (intro allI notI)
    fix v assume "(v, v) \<in> E\<^sup>+"
    then obtain w where w: "(v, w) \<in> E" "(w, v) \<in> E\<^sup>*" by (meson tranclD)
    then have "v \<in> V" using dom by auto
    then obtain c where c: "c \<in> set sccs" "v \<in> set c" using part(1) by auto
    have "scc_class E (set c)" using part(3) c(1) by blast
    then have "w \<in> set c" using scc_class_mutual[OF _ c(2)] w by blast
    moreover have "v \<noteq> w" using w(1) short by auto
    moreover have "distinct c" using part(2) c by (simp add: distinct_concat_iff)
    ultimately show False using long_component part(3) c short by blast
  qed
qed

lemma self_edges: "filter (\<lambda>e. edge_S e = edge_T e) (graph_Edges g) = [] \<longleftrightarrow> (\<forall>v. (v, v) \<notin> edge_rel g)"
  unfolding set_graph_Edges[symmetric] by (force simp: filter_empty_conv edge_Hashcode_def)

lemma Validate_empty:
  assumes wf: "graph_wf hc g" and closed: "graph_closed g"
  shows "Validate hc g \<noteq> None \<and>
    (Validate hc g = Some [] \<longleftrightarrow> (\<exists>r. graph_Root hc g = Inr r) \<and> acyclic (edge_rel g))"
proof -
  from StronglyConnected_partition[OF wf closed] obtain sccs where
    s: "StronglyConnected hc g = Some sccs" "distinct (concat sccs)" "set (concat sccs) = vertex_set g"
      "\<forall>c \<in> set sccs. scc_class (edge_rel g) (set c)" by blast
  have "acyclic (edge_rel g) \<longleftrightarrow> filter (\<lambda>c. length c > 1) sccs = [] \<and> (\<forall>v. (v, v) \<notin> edge_rel g)"
    using acyclic_components[OF s(3,2,4)] closed by (auto simp: graph_closed_def filter_empty_conv)
  then show ?thesis
    by (auto simp: Validate_def Cycles_def s(1) self_edges split: sum.split)
qed

section \<open>The operations as a specification\<close>

text \<open>
  A graph is specified by its vertices and its edges.  \<open>graph_step\<close> runs an operation of
  \<^verbatim>\<open>graph.go\<close>, \<open>spec_step\<close> says what it does to the two sets.
\<close>

datatype ('h, 'v) graph_op =
    OpAdd 'v | OpConnect 'v 'v | OpRemove 'v | OpRemoveEdge 'v 'v | OpReplace 'v 'v | OpSubsume "('h, 'v) graph"

fun graph_step :: "('v \<Rightarrow> 'h) \<Rightarrow> ('h, 'v) graph \<Rightarrow> ('h, 'v) graph_op \<Rightarrow> ('h, 'v) graph" where
  "graph_step hc g (OpAdd v) = graph_Add hc g v"
| "graph_step hc g (OpConnect u v) = graph_Connect hc g (BasicEdge u v)"
| "graph_step hc g (OpRemove v) = graph_Remove hc g v"
| "graph_step hc g (OpRemoveEdge u v) = graph_RemoveEdge hc g (BasicEdge u v)"
| "graph_step hc g (OpReplace u v) = fst (graph_Replace hc g u v)"
| "graph_step hc g (OpSubsume h) = graph_Subsume hc g h"

definition rename :: "'v \<Rightarrow> 'v \<Rightarrow> 'v \<Rightarrow> 'v" where
  "rename u v x = (if x = u then v else x)"

fun spec_step :: "'v set \<times> ('v \<times> 'v) set \<Rightarrow> ('h, 'v) graph_op \<Rightarrow> 'v set \<times> ('v \<times> 'v) set" where
  "spec_step (V, E) (OpAdd v) = (insert v V, E)"
| "spec_step (V, E) (OpConnect u v) = (V, insert (u, v) E)"
| "spec_step (V, E) (OpRemove v) = (V - {v}, {(a, b) \<in> E. a \<noteq> v \<and> b \<noteq> v})"
| "spec_step (V, E) (OpRemoveEdge u v) = (V, E - {(u, v)})"
| "spec_step (V, E) (OpReplace u v) =
     (if u \<in> V then (rename u v ` V, map_prod (rename u v) (rename u v) ` E) else (V, E))"
| "spec_step (V, E) (OpSubsume h) = (V \<union> vertex_set h, E \<union> edge_rel h)"

lemma rename_id: "rename u u = id"
  by (auto simp: rename_def)

lemma graph_Replace_same: "inj hc \<Longrightarrow> graph_wf hc g \<Longrightarrow> fst (graph_Replace hc g u u) = g"
  by (simp add: graph_Replace_def)

lemma graph_step_spec:
  assumes "inj hc" "graph_wf hc g"
  shows "graph_wf hc (graph_step hc g op) \<and>
    (vertex_set (graph_step hc g op), edge_rel (graph_step hc g op)) = spec_step (vertex_set g, edge_rel g) op"
proof (cases op)
  case (OpReplace u v)
  consider "u \<notin> vertex_set g" | "u = v" | "u \<in> vertex_set g" "u \<noteq> v" by blast
  then show ?thesis
  proof cases
    case 1
    with OpReplace assms show ?thesis by (simp add: graph_Replace_absent)
  next
    case 2
    with OpReplace assms show ?thesis by (simp add: graph_Replace_same rename_id prod.map_id0)
  next
    case 3
    with graph_Replace_spec[OF assms 3] OpReplace show ?thesis by (simp add: rename_def[abs_def])
  qed
qed (use assms in \<open>simp_all add: graph_Add_spec graph_Connect_spec graph_Remove_spec graph_RemoveEdge_spec graph_Subsume_spec\<close>)

section \<open>A concrete graph\<close>

text \<open>A diamond with a redundant edge from its top to its bottom.\<close>

definition diamond :: "(nat, nat) graph" where
  "diamond = foldl (\<lambda>g e. graph_Connect id g (case e of (u, v) \<Rightarrow> BasicEdge u v))
     (foldl (graph_Add id) emptyGraph [1, 2, 3, 4]) [(1, 2), (1, 3), (2, 4), (3, 4), (1, 4)]"

lemma diamond_spec:
  "graph_wf id diamond" "vertex_set diamond = {1, 2, 3, 4}"
  "edge_rel diamond = {(1, 2), (1, 3), (2, 4), (3, 4), (1, 4)}"
  using foldl_Add_spec[of id emptyGraph "[1, 2, 3, 4 :: nat]"]
    foldl_Connect_spec[of id "foldl (graph_Add id) emptyGraph [1, 2, 3, 4 :: nat]"
      "\<lambda>e. case e of (u, v) \<Rightarrow> BasicEdge u v" "[(1, 2), (1, 3), (2, 4), (3, 4), (1, 4)]"]
  by (simp_all add: diamond_def emptyGraph_wf insert_commute del: foldl.simps)

lemma diamond_closed: "graph_closed diamond"
  by (simp add: graph_closed_def diamond_spec)

lemma diamond_acyclic: "acyclic (edge_rel diamond)"
  by (rule acyclic_subset[OF wf_acyclic[OF wf_less_than]]) (auto simp: diamond_spec)

lemma diamond_reach:
  "(edge_rel diamond)\<^sup>+ = {(1, 2), (1, 3), (2, 4), (3, 4), (1, 4)}"
proof -
  have "trans (edge_rel diamond)" by (auto simp: trans_def diamond_spec)
  then show ?thesis by (simp add: diamond_spec)
qed

section \<open>Properties\<close>

text \<open>
  C25: whatever operations built a graph, its adjacency maps agree with its edge set
  (the invariant \<open>graph_wf\<close>), and its vertices and edges are those the abstract
  specification computes from the operations.
\<close>

theorem graph_operations_refine:
  assumes "inj hc"
  shows "graph_wf hc (foldl (graph_step hc) emptyGraph ops) \<and>
    (vertex_set (foldl (graph_step hc) emptyGraph ops), edge_rel (foldl (graph_step hc) emptyGraph ops)) =
      foldl spec_step ({}, {}) ops"
proof (induction ops rule: rev_induct)
  case Nil
  show ?case by (simp add: emptyGraph_wf)
next
  case (snoc op ops)
  with graph_step_spec[OF assms, of "foldl (graph_step hc) emptyGraph ops" op] show ?case by simp
qed

theorem graph_operations_refine_witness:
  "edge_rel (foldl (graph_step id) emptyGraph
     [OpAdd (1 :: nat), OpAdd 2, OpConnect 1 2, OpReplace 2 5, OpConnect 5 1, OpRemoveEdge 1 5]) = {(5, 1)}"
  using graph_operations_refine[of id "[OpAdd (1 :: nat), OpAdd 2, OpConnect 1 2, OpReplace 2 5, OpConnect 5 1, OpRemoveEdge 1 5]"]
  by (simp add: rename_def insert_Diff_if)

text \<open>
  C21: \<^verbatim>\<open>Validate\<close> always returns, and it reports no error exactly when the graph has one
  and only one vertex without incoming edges and no cycle, self references included.
\<close>

theorem Validate_ok_iff:
  assumes "graph_wf hc g" "graph_closed g"
  shows "Validate hc g \<noteq> None \<and>
    (Validate hc g = Some [] \<longleftrightarrow>
      (\<exists>!r. r \<in> vertex_set g \<and> r \<notin> Range (edge_rel g)) \<and> acyclic (edge_rel g))"
proof -
  have "(\<exists>r. graph_Root hc g = Inr r) \<longleftrightarrow> (\<exists>!r. is_root g r)"
    unfolding graph_Root_cases(3)[OF assms(1)] by metis
  with Validate_empty[OF assms] show ?thesis by (simp add: is_root_def)
qed

theorem Validate_ok_iff_witness: "Validate id diamond = Some []"
proof -
  have "\<exists>!r. r \<in> vertex_set diamond \<and> r \<notin> Range (edge_rel diamond)"
    by (rule ex1I[of _ 1]) (auto simp: diamond_spec)
  with Validate_ok_iff[OF diamond_spec(1) diamond_closed] diamond_acyclic show ?thesis by simp
qed

text \<open>
  C22: \<^verbatim>\<open>StronglyConnected\<close> always returns, and the components it returns are a partition of
  the vertices: two vertices are in the same component exactly when each is reachable
  from the other.
\<close>

theorem StronglyConnected_components:
  assumes wf: "graph_wf hc g" and closed: "graph_closed g"
  shows "\<exists>sccs. StronglyConnected hc g = Some sccs \<and> distinct (concat sccs) \<and> set (concat sccs) = vertex_set g \<and>
    (\<forall>c \<in> set sccs. \<forall>v \<in> set c. \<forall>w. w \<in> set c \<longleftrightarrow> (v, w) \<in> (edge_rel g)\<^sup>* \<and> (w, v) \<in> (edge_rel g)\<^sup>*)"
  using StronglyConnected_partition[OF assms] scc_class_mutual by metis

theorem StronglyConnected_components_witness:
  "\<exists>sccs. StronglyConnected id diamond = Some sccs \<and> set (concat sccs) = {1, 2, 3, 4} \<and>
    (\<forall>c \<in> set sccs. 1 \<in> set c \<longrightarrow> 2 \<notin> set c)"
proof -
  from StronglyConnected_components[OF diamond_spec(1) diamond_closed] obtain sccs where
    s: "StronglyConnected id diamond = Some sccs" "set (concat sccs) = vertex_set diamond"
      "\<forall>c \<in> set sccs. \<forall>v \<in> set c. \<forall>w. w \<in> set c \<longleftrightarrow>
         (v, w) \<in> (edge_rel diamond)\<^sup>* \<and> (w, v) \<in> (edge_rel diamond)\<^sup>*"
    by blast
  have "(2, 1) \<notin> (edge_rel diamond)\<^sup>*" by (auto simp: rtrancl_eq_or_trancl diamond_reach)
  with s diamond_spec(2) show ?thesis by metis
qed

text \<open>
  C23: on an acyclic graph \<^verbatim>\<open>TransitiveReduction\<close> terminates, keeps the vertices and the
  reachability relation, and leaves as few edges as possible: every relation with the
  same reachability contains all of the edges it leaves.
\<close>

theorem TransitiveReduction_minimal:
  assumes inj: "inj hc" and wf: "graph_wf hc g" and closed: "graph_closed g" and acyc: "acyclic (edge_rel g)"
  shows "\<exists>g'. TransitiveReduction hc g = Some (Inr g') \<and> graph_wf hc g' \<and> vertex_set g' = vertex_set g \<and>
    edge_rel g' \<subseteq> edge_rel g \<and> (edge_rel g')\<^sup>+ = (edge_rel g)\<^sup>+ \<and>
    (\<forall>F. F\<^sup>+ = (edge_rel g)\<^sup>+ \<longrightarrow> edge_rel g' \<subseteq> F)"
proof -
  from reduce_all_spec[OF inj wf acyc, of "graph_Vertices g"] obtain g' where
    g': "TransitiveReduction hc g = Some (Inr g')" "graph_wf hc g'" "vertex_set g' = vertex_set g"
      "edge_rel g' \<subseteq> edge_rel g" "(edge_rel g')\<^sup>+ = (edge_rel g)\<^sup>+"
      "\<forall>u \<in> vertex_set g. \<forall>v w. (u, w) \<in> edge_rel g' \<longrightarrow> \<not> ((u, v) \<in> (edge_rel g)\<^sup>+ \<and> (v, w) \<in> (edge_rel g)\<^sup>+)"
    unfolding TransitiveReduction_def by auto
  have "(u, w) \<in> F" if F: "F\<^sup>+ = (edge_rel g)\<^sup>+" and e: "(u, w) \<in> edge_rel g'" for F u w
  proof (rule ccontr)
    assume no: "(u, w) \<notin> F"
    have "(u, w) \<in> edge_rel g" using e g'(4) by blast
    then have uw: "(u, w) \<in> F\<^sup>+" and "u \<in> vertex_set g"
      using F closed by (auto simp: graph_closed_def)
    from uw no obtain y where "(u, y) \<in> F\<^sup>+" "(y, w) \<in> F\<^sup>+" by (metis r_into_trancl' trancl.cases)
    with g'(6) \<open>u \<in> vertex_set g\<close> e F show False by metis
  qed
  with g' show ?thesis by (metis subrelI)
qed

theorem TransitiveReduction_minimal_witness:
  "\<exists>g'. TransitiveReduction id diamond = Some (Inr g') \<and> (1, 4) \<notin> edge_rel g' \<and> (1, 4) \<in> (edge_rel g')\<^sup>+"
proof -
  have inj: "inj (id :: nat \<Rightarrow> nat)" by simp
  from TransitiveReduction_minimal[OF inj diamond_spec(1) diamond_closed diamond_acyclic] obtain g' where
    g': "TransitiveReduction id diamond = Some (Inr g')" "(edge_rel g')\<^sup>+ = (edge_rel diamond)\<^sup>+"
      "\<forall>F. F\<^sup>+ = (edge_rel diamond)\<^sup>+ \<longrightarrow> edge_rel g' \<subseteq> F" by blast
  let ?F = "{(1, 2), (1, 3), (2, 4), (3, 4)} :: (nat \<times> nat) set"
  have "(1, 4) \<in> ?F\<^sup>+" by (rule trancl_into_trancl[of 1 2]) auto
  then have "(edge_rel diamond)\<^sup>+ \<subseteq> ?F\<^sup>+" by (auto simp: diamond_reach)
  moreover have "?F\<^sup>+ \<subseteq> (edge_rel diamond)\<^sup>+"
    by (rule subsetI, erule trancl_mono) (auto simp: diamond_spec)
  ultimately have "?F\<^sup>+ = (edge_rel diamond)\<^sup>+" by blast
  with g'(3) have "edge_rel g' \<subseteq> ?F" by blast
  then have "(1, 4) \<notin> edge_rel g'" by auto
  with g'(1,2) show ?thesis by (simp add: diamond_reach)
qed

text \<open>
  C24: \<^verbatim>\<open>TopologicalOrder\<close> always comes to an end; on an acyclic graph it returns every
  vertex once, the source of each edge before its target, and on a graph with a cycle
  it panics with \<^verbatim>\<open>cycle found in dag\<close>.  \<^verbatim>\<open>ReverseTopologicalOrder\<close> does the same with the
  target of each edge first.
\<close>

theorem TopologicalOrder_sorted:
  assumes "graph_wf hc g" "graph_closed g"
  shows "if acyclic (edge_rel g)
    then (\<exists>xs ys. TopologicalOrder hc g = Some (Inr xs) \<and> distinct xs \<and> set xs = vertex_set g \<and>
           ReverseTopologicalOrder hc g = Some (Inr ys) \<and> distinct ys \<and> set ys = vertex_set g \<and>
           (\<forall>as v bs. xs = as @ v # bs \<longrightarrow> (edge_rel g)\<inverse> `` {v} \<subseteq> set as) \<and>
           (\<forall>as v bs. ys = as @ v # bs \<longrightarrow> edge_rel g `` {v} \<subseteq> set as))
    else TopologicalOrder hc g = Some (Inl CycleFound) \<and> ReverseTopologicalOrder hc g = Some (Inl CycleFound)"
  using TopologicalOrder_cases[OF assms] ReverseTopologicalOrder_cases[OF assms]
  unfolding succs_first_def by metis

theorem TopologicalOrder_sorted_witness:
  "\<exists>xs. TopologicalOrder id diamond = Some (Inr xs) \<and> distinct xs \<and> set xs = {1, 2, 3, 4} \<and>
     (\<forall>as bs. xs = as @ 4 # bs \<longrightarrow> {1, 2, 3} \<subseteq> set as)"
proof -
  have pre: "(edge_rel diamond)\<inverse> `` {4} = {1, 2, 3}" by (auto simp: diamond_spec)
  from TopologicalOrder_sorted[OF diamond_spec(1) diamond_closed] diamond_acyclic
  obtain xs where "TopologicalOrder id diamond = Some (Inr xs)" "distinct xs" "set xs = vertex_set diamond"
      "\<forall>as v bs. xs = as @ v # bs \<longrightarrow> (edge_rel diamond)\<inverse> `` {v} \<subseteq> set as" by auto
  with pre diamond_spec(2) show ?thesis by metis
qed

text \<open>
  \<^verbatim>\<open>Ancestors\<close> and \<^verbatim>\<open>Descendents\<close> terminate on every graph, cyclic ones included, and
  return the vertices reachable from the given one along the edges, and against them,
  in one step or more.
\<close>

theorem Ancestors_Descendents_reachable:
  assumes "inj hc" "graph_wf hc g"
  shows "\<exists>up down. Ancestors hc g v = Some (Inr up) \<and> dset_elems up = {w. (v, w) \<in> (edge_rel g)\<^sup>+} \<and>
    Descendents hc g v = Some (Inr down) \<and> dset_elems down = {w. (w, v) \<in> (edge_rel g)\<^sup>+}"
proof -
  obtain up down where "Ancestors hc g v = Some (Inr up)" "dset_elems up = (edge_rel g)\<^sup>+ `` {v}"
    "Descendents hc g v = Some (Inr down)" "dset_elems down = ((edge_rel g)\<^sup>+)\<inverse> `` {v}"
    using Ancestors_reach[OF assms] Descendents_reach[OF assms] by metis
  moreover have "(edge_rel g)\<^sup>+ `` {v} = {w. (v, w) \<in> (edge_rel g)\<^sup>+}"
    "((edge_rel g)\<^sup>+)\<inverse> `` {v} = {w. (w, v) \<in> (edge_rel g)\<^sup>+}" by auto
  ultimately show ?thesis by auto
qed

theorem Ancestors_Descendents_reachable_witness:
  "\<exists>up down. Ancestors id diamond 2 = Some (Inr up) \<and> dset_elems up = {4} \<and>
    Descendents id diamond 2 = Some (Inr down) \<and> dset_elems down = {1}"
  using Ancestors_Descendents_reachable[of id diamond 2] diamond_spec(1) by (simp add: diamond_reach)

end
