(* ===== verification/Tofu_Sort.thy ===== *)
theory Tofu_Sort
  imports Tofu_Prelude "HOL-Library.List_Lexorder" "HOL-Library.Char_ord" "HOL-Library.Multiset"
begin

text \<open>
  The parts of Go's standard library that several components use: decimal formatting of
  integers (\<^verbatim>\<open>%d\<close>), substring counting, and the sorting of a slice by a \<^verbatim>\<open>Less\<close> method.
  Strings are byte strings, compared lexicographically (\<open>List_Lexorder\<close>), as in Go.

  \<open>sort_Stable\<close> is the result of \<^verbatim>\<open>sort.Stable\<close>; for a strict weak order a stable sorted
  permutation is unique, so the algorithm behind it does not matter.  The locale
  \<open>strict_weak_order\<close> is the contract a \<^verbatim>\<open>Less\<close> method has to meet, and the lemmas in it are
  what its callers get.
\<close>

section \<open>Decimal formatting\<close>

definition digit_char :: "nat \<Rightarrow> char" where
  "digit_char d = char_of (48 + d)"

fun nat_dec :: "nat \<Rightarrow> string" where
  "nat_dec n = (if n < 10 then [digit_char n] else nat_dec (n div 10) @ [digit_char (n mod 10)])"

declare nat_dec.simps [simp del]

definition int_dec :: "int \<Rightarrow> string" where
  "int_dec i = (if i < 0 then CHR ''-'' # nat_dec (nat (- i)) else nat_dec (nat i))"

fun dec_val :: "string \<Rightarrow> nat \<Rightarrow> nat" where
  "dec_val [] acc = acc"
| "dec_val (c # cs) acc = dec_val cs (10 * acc + (of_char c - 48))"

lemma of_char_digit: "d < 10 \<Longrightarrow> (of_char (digit_char d) :: nat) = 48 + d"
  by (simp add: digit_char_def of_char_of)

lemma dec_val_append: "dec_val (xs @ ys) acc = dec_val ys (dec_val xs acc)"
  by (induction xs arbitrary: acc) auto

lemma dec_val_nat_dec: "dec_val (nat_dec n) 0 = n"
proof (induction n rule: nat_dec.induct)
  case (1 n)
  then show ?case
    by (subst nat_dec.simps) (auto simp: dec_val_append of_char_digit)
qed

lemma nat_dec_inj: "nat_dec m = nat_dec n \<longleftrightarrow> m = n"
  using dec_val_nat_dec by metis

lemma nat_dec_digits: "c \<in> set (nat_dec n) \<Longrightarrow> \<exists>d < 10. c = digit_char d"
proof (induction n rule: nat_dec.induct)
  case (1 n)
  then show ?case
    by (subst (asm) (2) nat_dec.simps) (auto split: if_splits intro: exI[of _ "n mod 10"])
qed

lemma nat_dec_not_Nil: "nat_dec n \<noteq> []"
  by (subst nat_dec.simps) simp

lemma digit_char_range: "d < 10 \<Longrightarrow> c = digit_char d \<Longrightarrow> 48 \<le> (of_char c :: nat) \<and> (of_char c :: nat) < 58"
  by (simp add: of_char_digit)

lemma minus_not_digit: "CHR ''-'' \<notin> set (nat_dec n)"
proof
  assume "CHR ''-'' \<in> set (nat_dec n)"
  then obtain d where "d < 10" "CHR ''-'' = digit_char d" using nat_dec_digits by blast
  then have "48 \<le> (of_char (CHR ''-'') :: nat)" using digit_char_range by blast
  then show False by simp
qed

lemma int_dec_inj: "int_dec i = int_dec j \<longleftrightarrow> i = j"
proof
  assume eq: "int_dec i = int_dec j"
  have no: "nat_dec n \<noteq> CHR ''-'' # xs" for n xs using minus_not_digit[of n] by auto
  show "i = j"
    using eq no no[symmetric] by (auto simp: int_dec_def nat_dec_inj split: if_splits)
qed simp

section \<open>Sorting by a Less method\<close>

fun sort_insert :: "('a \<Rightarrow> 'a \<Rightarrow> bool) \<Rightarrow> 'a \<Rightarrow> 'a list \<Rightarrow> 'a list" where
  "sort_insert lt x [] = [x]"
| "sort_insert lt x (y # ys) = (if lt y x then y # sort_insert lt x ys else x # y # ys)"

definition sort_Stable :: "('a \<Rightarrow> 'a \<Rightarrow> bool) \<Rightarrow> 'a list \<Rightarrow> 'a list" where
  "sort_Stable lt xs = foldr (sort_insert lt) xs []"

definition unordered :: "('a \<Rightarrow> 'a \<Rightarrow> bool) \<Rightarrow> 'a \<Rightarrow> 'a \<Rightarrow> bool" where
  "unordered lt x y \<longleftrightarrow> \<not> lt x y \<and> \<not> lt y x"

text \<open>
  \<^verbatim>\<open>sort.SliceStable\<close> with a comparison that may panic: the result is \<open>None\<close> when there are two
  elements whose comparison does.
\<close>

definition sort_SliceStable :: "('a \<Rightarrow> 'a \<Rightarrow> bool option) \<Rightarrow> 'a list \<Rightarrow> 'a list option" where
  "sort_SliceStable le xs =
     (if list_ex (\<lambda>x. list_ex (\<lambda>y. le x y = None) xs) xs then None
      else Some (sort_Stable (\<lambda>x y. le x y = Some True) xs))"

lemma mset_sort_insert [simp]: "mset (sort_insert lt x ys) = add_mset x (mset ys)"
  by (induction ys) auto

lemma mset_sort_Stable [simp]: "mset (sort_Stable lt xs) = mset xs"
  unfolding sort_Stable_def by (induction xs) auto

lemma set_sort_insert [simp]: "set (sort_insert lt x ys) = insert x (set ys)"
  by (induction ys) auto

lemma set_sort_Stable [simp]: "set (sort_Stable lt xs) = set xs"
  by (metis mset_sort_Stable set_mset_mset)

locale strict_weak_order =
  fixes lt :: "'a \<Rightarrow> 'a \<Rightarrow> bool"
  assumes lt_irrefl: "\<not> lt x x"
    and lt_trans: "lt x y \<Longrightarrow> lt y z \<Longrightarrow> lt x z"
    and lt_cotrans: "lt x z \<Longrightarrow> lt x y \<or> lt y z"
begin

lemma lt_asym: "lt x y \<Longrightarrow> \<not> lt y x"
  using lt_irrefl lt_trans by blast

lemma sorted_insert:
  "sorted_wrt (\<lambda>a b. \<not> lt b a) ys \<Longrightarrow> sorted_wrt (\<lambda>a b. \<not> lt b a) (sort_insert lt x ys)"
proof (induction ys)
  case (Cons y ys)
  then show ?case
    using lt_asym[of y x] lt_cotrans[of _ x y] by auto
qed simp

lemma sorted_Stable: "sorted_wrt (\<lambda>a b. \<not> lt b a) (sort_Stable lt xs)"
  unfolding sort_Stable_def by (induction xs) (auto intro: sorted_insert)

lemma filter_insert:
  assumes "sorted_wrt (\<lambda>a b. \<not> lt b a) ys"
  shows "filter (unordered lt z) (sort_insert lt x ys) = (if unordered lt z x then x # filter (unordered lt z) ys else filter (unordered lt z) ys)"
  using assms
proof (induction ys)
  case (Cons y ys)
  have "\<not> (unordered lt z y \<and> unordered lt z x)" if "lt y x"
    using lt_cotrans[OF that, of z] by (auto simp: unordered_def)
  with Cons show ?case by auto
qed simp

text \<open>Elements that neither precede nor follow one another keep their order.\<close>

lemma stable_Stable: "filter (unordered lt z) (sort_Stable lt xs) = filter (unordered lt z) xs"
proof (induction xs)
  case (Cons x xs)
  have "sort_Stable lt (x # xs) = sort_insert lt x (sort_Stable lt xs)"
    by (simp add: sort_Stable_def)
  with Cons filter_insert[OF sorted_Stable] show ?case by simp
qed (simp add: sort_Stable_def)

end

end
