(* ===== verification/Tfdiags.thy ===== *)
theory Tfdiags
  imports Tofu_Sort "HOL-Library.Product_Lexorder"
begin

text \<open>
  Diagnostics (\<^verbatim>\<open>internal/tfdiags\<close>): the values with which every part of the program reports
  errors and warnings.  A \<^verbatim>\<open>Diagnostic\<close> of Go is an interface; the datatype \<open>Diagnostic\<close> has one
  constructor for each implementation in the package, and the interface's methods are
  functions on it.  The expression context of a diagnostic (\<^verbatim>\<open>FromExpr\<close>), which belongs to the
  HCL library, and the contextual diagnostics of \<^verbatim>\<open>contextual.go\<close> are left out.

  An \<^verbatim>\<open>ExtraInfo\<close> value is described by the optional interfaces it implements and by what
  their methods return; it may wrap another one.  The errors of other packages appear by
  their message.  A panic is \<open>None\<close>.  A nil list is the empty list, which is how \<^verbatim>\<open>Append\<close>
  returns it.
\<close>

section \<open>Diagnostics\<close>

datatype severity = Error | Warning

record SourcePos =
  pos_Line :: int
  pos_Column :: int
  pos_Byte :: int

record SourceRange =
  rng_Filename :: string
  rng_Start :: SourcePos
  rng_End :: SourcePos

record Source =
  src_Subject :: "SourceRange option"
  src_Context :: "SourceRange option"

record Description =
  desc_Address :: string
  desc_Summary :: string
  desc_Detail :: string

definition pos_Equal :: "SourcePos \<Rightarrow> SourcePos \<Rightarrow> bool" where
  "pos_Equal p other \<longleftrightarrow> pos_Line p = pos_Line other \<and> pos_Column p = pos_Column other \<and> pos_Byte p = pos_Byte other"

fun rng_Equal :: "SourceRange option \<Rightarrow> SourceRange option \<Rightarrow> bool" where
  "rng_Equal (Some r) (Some other) \<longleftrightarrow>
     rng_Filename r = rng_Filename other \<and> pos_Equal (rng_Start r) (rng_Start other) \<and> pos_Equal (rng_End r) (rng_End other)"
| "rng_Equal r other \<longleftrightarrow> r = None \<and> other = None"

definition src_Equal :: "Source \<Rightarrow> Source \<Rightarrow> bool" where
  "src_Equal s other \<longleftrightarrow> rng_Equal (src_Subject s) (src_Subject other) \<and> rng_Equal (src_Context s) (src_Context other)"

definition desc_Equal :: "Description \<Rightarrow> Description \<Rightarrow> bool" where
  "desc_Equal d other \<longleftrightarrow> desc_Address d = desc_Address other \<and> desc_Summary d = desc_Summary other \<and> desc_Detail d = desc_Detail other"

subsection \<open>Extra information\<close>

text \<open>
  The fields of \<open>Extra\<close>: the results of \<^verbatim>\<open>DiagnosticCausedByUnknown\<close>,
  \<^verbatim>\<open>DiagnosticCausedByConfidentialValues\<close>, \<^verbatim>\<open>DoNotConsolidateDiagnostic\<close>, \<^verbatim>\<open>ExtraInfoKey\<close> and
  \<^verbatim>\<open>UnwrapDiagnosticExtra\<close>, each where the value implements the interface.
\<close>

datatype extra = NilExtra
  | Extra (extra_unknown: "bool option") (extra_confidential: "bool option")
      (extra_noConsolidate: "bool option") (extra_key: "string option") (extra_unwrap: "extra option")

text \<open>A type assertion to an interface \<open>T\<close> is a projection to its method's result.\<close>

fun extra_assert :: "(extra \<Rightarrow> 'a option) \<Rightarrow> extra \<Rightarrow> 'a option" where
  "extra_assert T NilExtra = None"
| "extra_assert T e = T e"

fun ExtraInfoLoop :: "(extra \<Rightarrow> 'a option) \<Rightarrow> extra \<Rightarrow> 'a option" where
  "ExtraInfoLoop T NilExtra = None"
| "ExtraInfoLoop T (Extra u c n k w) =
     (case extra_assert T (Extra u c n k w) of
        Some ret \<Rightarrow> Some ret
      | None \<Rightarrow> (case w of Some inner \<Rightarrow> ExtraInfoLoop T inner | None \<Rightarrow> None))"

definition ExtraInfoNext :: "(extra \<Rightarrow> 'a option) \<Rightarrow> extra \<Rightarrow> 'a option" where
  "ExtraInfoNext T previous =
     (case extra_assert extra_unwrap previous of None \<Rightarrow> None | Some e \<Rightarrow> ExtraInfoLoop T e)"

definition ExtraInfoOf :: "(extra \<Rightarrow> 'a option) \<Rightarrow> extra \<Rightarrow> 'a option" where
  "ExtraInfoOf T e = (case extra_assert T e of Some ret \<Rightarrow> Some ret | None \<Rightarrow> ExtraInfoNext T e)"

subsection \<open>The implementations of the interface\<close>

datatype hcl_severity = DiagInvalid | DiagError | DiagWarning

record hcl_Diagnostic =
  hcl_Severity :: hcl_severity
  hcl_Summary :: string
  hcl_Detail :: string
  hcl_Subject :: "SourceRange option"
  hcl_Context :: "SourceRange option"
  hcl_Extra :: extra

datatype Diagnostic =
    DiagBase severity string string string
  | NativeError string
  | SimpleWarning string
  | HclDiagnostic hcl_Diagnostic
  | RpcFriendly severity string string "SourceRange option" "SourceRange option"
  | Overridden Diagnostic severity extra
  | Consolidated Diagnostic "Diagnostic list"

definition hcl_level :: "hcl_severity \<Rightarrow> severity" where
  "hcl_level s = (if s = DiagWarning then Warning else Error)"

fun dg_Severity :: "Diagnostic \<Rightarrow> severity" where
  "dg_Severity (DiagBase s _ _ _) = s"
| "dg_Severity (NativeError _) = Error"
| "dg_Severity (SimpleWarning _) = Warning"
| "dg_Severity (HclDiagnostic d) = hcl_level (hcl_Severity d)"
| "dg_Severity (RpcFriendly s _ _ _ _) = s"
| "dg_Severity (Overridden _ s _) = s"
| "dg_Severity (Consolidated d _) = dg_Severity d"

fun consolidated_msg :: "severity \<Rightarrow> nat \<Rightarrow> string" where
  "consolidated_msg s extraCount =
     (let diagType = (case s of Error \<Rightarrow> ''error'' | Warning \<Rightarrow> ''warning'') in
      if extraCount = 1 then ''(and one more similar '' @ diagType @ '' elsewhere)''
      else ''(and '' @ nat_dec extraCount @ '' more similar '' @ diagType @ ''s elsewhere)'')"

fun dg_Description :: "Diagnostic \<Rightarrow> Description" where
  "dg_Description (DiagBase _ s d a) = \<lparr>desc_Address = a, desc_Summary = s, desc_Detail = d\<rparr>"
| "dg_Description (NativeError m) = \<lparr>desc_Address = [], desc_Summary = m, desc_Detail = []\<rparr>"
| "dg_Description (SimpleWarning m) = \<lparr>desc_Address = [], desc_Summary = m, desc_Detail = []\<rparr>"
| "dg_Description (HclDiagnostic d) = \<lparr>desc_Address = [], desc_Summary = hcl_Summary d, desc_Detail = hcl_Detail d\<rparr>"
| "dg_Description (RpcFriendly _ s d _ _) = \<lparr>desc_Address = [], desc_Summary = s, desc_Detail = d\<rparr>"
| "dg_Description (Overridden d _ _) = dg_Description d"
| "dg_Description (Consolidated d ds) =
     (let desc = dg_Description d in
      if ds = [] then desc
      else let msg = consolidated_msg (dg_Severity d) (length ds) in
        desc\<lparr>desc_Detail := (if desc_Detail desc \<noteq> [] then desc_Detail desc @ [CHR 0x0A, CHR 0x0A] @ msg else msg)\<rparr>)"

fun dg_Source :: "Diagnostic \<Rightarrow> Source" where
  "dg_Source (HclDiagnostic d) = \<lparr>src_Subject = hcl_Subject d, src_Context = hcl_Context d\<rparr>"
| "dg_Source (RpcFriendly _ _ _ s c) = \<lparr>src_Subject = s, src_Context = c\<rparr>"
| "dg_Source (Overridden d _ _) = dg_Source d"
| "dg_Source (Consolidated d _) = dg_Source d"
| "dg_Source _ = \<lparr>src_Subject = None, src_Context = None\<rparr>"

fun dg_ExtraInfo :: "Diagnostic \<Rightarrow> extra" where
  "dg_ExtraInfo (HclDiagnostic d) = hcl_Extra d"
| "dg_ExtraInfo (Overridden _ _ e) = e"
| "dg_ExtraInfo (Consolidated d _) = dg_ExtraInfo d"
| "dg_ExtraInfo _ = NilExtra"

definition DiagnosticCausedByUnknown :: "Diagnostic \<Rightarrow> bool" where
  "DiagnosticCausedByUnknown d = (case ExtraInfoOf extra_unknown (dg_ExtraInfo d) of None \<Rightarrow> False | Some b \<Rightarrow> b)"

definition DiagnosticCausedByConfidentialValues :: "Diagnostic \<Rightarrow> bool" where
  "DiagnosticCausedByConfidentialValues d =
     (case ExtraInfoOf extra_confidential (dg_ExtraInfo d) of None \<Rightarrow> False | Some b \<Rightarrow> b)"

definition DoNotConsolidateDiagnostic :: "Diagnostic \<Rightarrow> bool" where
  "DoNotConsolidateDiagnostic d =
     (case ExtraInfoOf extra_noConsolidate (dg_ExtraInfo d) of None \<Rightarrow> False | Some b \<Rightarrow> b)"

definition Sourceless :: "severity \<Rightarrow> string \<Rightarrow> string \<Rightarrow> Diagnostic" where
  "Sourceless s summary detail = DiagBase s summary detail []"

definition makeRPCFriendlyDiag :: "Diagnostic \<Rightarrow> Diagnostic" where
  "makeRPCFriendlyDiag diag =
     (let desc = dg_Description diag; source = dg_Source diag in
      RpcFriendly (dg_Severity diag) (desc_Summary desc) (desc_Detail desc) (src_Subject source) (src_Context source))"

definition Override :: "Diagnostic \<Rightarrow> severity \<Rightarrow> (extra \<Rightarrow> extra) option \<Rightarrow> Diagnostic" where
  "Override original s createExtra =
     (let e = dg_ExtraInfo original in
      Overridden original s (case createExtra of None \<Rightarrow> e | Some wrap \<Rightarrow> wrap e))"

fun UndoOverride :: "Diagnostic \<Rightarrow> Diagnostic" where
  "UndoOverride (Overridden original _ _) = original"
| "UndoOverride d = d"

section \<open>Lists of diagnostics\<close>

type_synonym Diagnostics = "Diagnostic list"

text \<open>
  The dynamic types \<^verbatim>\<open>Append\<close> distinguishes; \<open>ItemOther\<close> is every type it cannot turn into
  diagnostics.
\<close>

datatype append_item =
    ItemNil
  | ItemDiagnostic Diagnostic
  | ItemDiagnostics Diagnostics
  | ItemDiagnosticsAsError Diagnostics
  | ItemNonFatalError Diagnostics
  | ItemHclDiagnostics "hcl_Diagnostic list"
  | ItemHclDiagnostic hcl_Diagnostic
  | ItemMultierror "string list"
  | ItemErrorWrapping Diagnostics
  | ItemErrorWrappingHcl "hcl_Diagnostic list"
  | ItemError string
  | ItemOther

fun append_one :: "Diagnostics \<Rightarrow> append_item \<Rightarrow> Diagnostics option" where
  "append_one diags ItemNil = Some diags"
| "append_one diags (ItemDiagnostic ti) = Some (diags @ [ti])"
| "append_one diags (ItemDiagnostics ti) = Some (diags @ ti)"
| "append_one diags (ItemDiagnosticsAsError ti) = Some (diags @ ti)"
| "append_one diags (ItemNonFatalError ti) = Some (diags @ ti)"
| "append_one diags (ItemHclDiagnostics ti) = Some (diags @ map HclDiagnostic ti)"
| "append_one diags (ItemHclDiagnostic ti) = Some (diags @ [HclDiagnostic ti])"
| "append_one diags (ItemMultierror errs) = Some (diags @ map NativeError errs)"
| "append_one diags (ItemErrorWrapping ti) = Some (diags @ ti)"
| "append_one diags (ItemErrorWrappingHcl ti) = Some (diags @ map HclDiagnostic ti)"
| "append_one diags (ItemError err) = Some (diags @ [NativeError err])"
| "append_one diags ItemOther = None"

fun diags_Append :: "Diagnostics \<Rightarrow> append_item list \<Rightarrow> Diagnostics option" where
  "diags_Append diags [] = Some diags"
| "diags_Append diags (item # new) =
     (case append_one diags item of None \<Rightarrow> None | Some diags' \<Rightarrow> diags_Append diags' new)"

definition HasErrors :: "Diagnostics \<Rightarrow> bool" where
  "HasErrors diags = list_ex (\<lambda>d. dg_Severity d = Error) diags"

definition diag_isEqual :: "Diagnostic \<Rightarrow> Diagnostic \<Rightarrow> bool" where
  "diag_isEqual d e \<longleftrightarrow> desc_Equal (dg_Description d) (dg_Description e) \<and> dg_Severity d = dg_Severity e \<and>
     src_Equal (dg_Source d) (dg_Source e)"

definition StrictDeduplicateMerge :: "Diagnostics \<Rightarrow> Diagnostics \<Rightarrow> Diagnostics" where
  "StrictDeduplicateMerge diags other =
     (if diags = [] then other
      else foldl (\<lambda>acc d. foldl (\<lambda>acc e.
             if DoNotConsolidateDiagnostic d \<or> DoNotConsolidateDiagnostic e \<or> \<not> diag_isEqual d e then acc @ [e] else acc)
             acc other) diags diags)"

definition ForRPC :: "Diagnostics \<Rightarrow> Diagnostics" where
  "ForRPC diags = map makeRPCFriendlyDiag diags"

definition OverrideAll :: "Diagnostics \<Rightarrow> severity \<Rightarrow> (extra \<Rightarrow> extra) option \<Rightarrow> Diagnostics" where
  "OverrideAll originals s createExtra = foldl (\<lambda>diags d. diags @ [Override d s createExtra]) [] originals"

subsection \<open>Diagnostics as errors\<close>

datatype diags_error = DiagnosticsAsError Diagnostics | NonFatalError Diagnostics

definition diags_Err :: "Diagnostics \<Rightarrow> diags_error option" where
  "diags_Err diags = (if \<not> HasErrors diags then None else Some (DiagnosticsAsError diags))"

definition ErrWithWarnings :: "Diagnostics \<Rightarrow> diags_error option" where
  "ErrWithWarnings diags =
     (if diags = [] then None else if HasErrors diags then diags_Err diags else Some (NonFatalError diags))"

definition NonFatalErr :: "Diagnostics \<Rightarrow> diags_error option" where
  "NonFatalErr diags = (if diags = [] then None else Some (NonFatalError diags))"

fun error_item :: "diags_error option \<Rightarrow> append_item" where
  "error_item None = ItemNil"
| "error_item (Some (DiagnosticsAsError ds)) = ItemDiagnosticsAsError ds"
| "error_item (Some (NonFatalError ds)) = ItemNonFatalError ds"

definition desc_line :: "Description \<Rightarrow> string" where
  "desc_line desc = (if desc_Detail desc = [] then desc_Summary desc else desc_Summary desc @ '': '' @ desc_Detail desc)"

definition problem_list :: "string \<Rightarrow> Diagnostics \<Rightarrow> string" where
  "problem_list noun diags =
     nat_dec (length diags) @ noun @ [CHR 0x0A] @
     concat (map (\<lambda>d. [CHR 0x0A] @ ''- '' @ desc_line (dg_Description d)) diags)"

fun diags_error_Error :: "diags_error \<Rightarrow> string" where
  "diags_error_Error (DiagnosticsAsError []) = ''no errors''"
| "diags_error_Error (DiagnosticsAsError [d]) = desc_line (dg_Description d)"
| "diags_error_Error (DiagnosticsAsError diags) = problem_list '' problems:'' diags"
| "diags_error_Error (NonFatalError []) = ''no errors or warnings''"
| "diags_error_Error (NonFatalError [d]) = desc_line (dg_Description d)"
| "diags_error_Error (NonFatalError diags) =
     problem_list (if HasErrors diags then '' problems:'' else '' warnings:'') diags"

fun WrappedErrors :: "Diagnostics \<Rightarrow> string list" where
  "WrappedErrors [] = []"
| "WrappedErrors (NativeError err # ds) = err # WrappedErrors ds"
| "WrappedErrors (d # ds) = WrappedErrors ds"

subsection \<open>Sorting\<close>

definition string_Count :: "string \<Rightarrow> char \<Rightarrow> nat" where
  "string_Count s sep = length (filter (\<lambda>c. c = sep) s)"

definition diag_Less :: "Diagnostic \<Rightarrow> Diagnostic \<Rightarrow> bool" where
  "diag_Less iD jD =
     (let iSev = dg_Severity iD; jSev = dg_Severity jD; iSrc = dg_Source iD; jSrc = dg_Source jD in
      if iSev \<noteq> jSev then iSev = Warning
      else case (src_Subject iSrc, src_Subject jSrc) of
        (Some iSubj, Some jSubj) \<Rightarrow>
          (if iSubj = jSubj then False
           else if rng_Filename iSubj \<noteq> rng_Filename jSubj then
             (let iCount = string_Count (rng_Filename iSubj) (CHR ''/'');
                  jCount = string_Count (rng_Filename jSubj) (CHR ''/'')
              in if iCount \<noteq> jCount then iCount < jCount else rng_Filename iSubj < rng_Filename jSubj)
           else if pos_Byte (rng_Start iSubj) \<noteq> pos_Byte (rng_Start jSubj) then
             pos_Byte (rng_Start iSubj) < pos_Byte (rng_Start jSubj)
           else if pos_Byte (rng_End iSubj) \<noteq> pos_Byte (rng_End jSubj) then
             pos_Byte (rng_End iSubj) < pos_Byte (rng_End jSubj)
           else False)
      | (None, Some _) \<Rightarrow> True
      | _ \<Rightarrow> False)"

definition diags_Sort :: "Diagnostics \<Rightarrow> Diagnostics" where
  "diags_Sort diags = sort_Stable diag_Less diags"

subsection \<open>Consolidation\<close>

text \<open>
  The result list holds pointers to the groups, which grow after they were added to it;
  a group is named by its position in the list.
\<close>

fun group_Append :: "Diagnostic \<Rightarrow> Diagnostic \<Rightarrow> Diagnostic option" where
  "group_Append (Consolidated d ds) diag =
     (if dg_Severity diag \<noteq> dg_Severity d then None else Some (Consolidated d (ds @ [diag])))"
| "group_Append _ _ = None"

record consolidate_state =
  newDiags :: Diagnostics
  diagnosticStats :: "(string, int) gomap"
  diagnosticGroups :: "(string, nat) gomap"

definition consolidationKey :: "Diagnostic \<Rightarrow> string" where
  "consolidationKey diag = desc_Summary (dg_Description diag) @
     (case extra_assert extra_key (dg_ExtraInfo diag) of None \<Rightarrow> [] | Some key \<Rightarrow> key)"

definition consolidate_step :: "int \<Rightarrow> severity \<Rightarrow> Diagnostic \<Rightarrow> consolidate_state \<Rightarrow> consolidate_state option" where
  "consolidate_step threshold level diag st =
     (if dg_Severity diag \<noteq> level \<or> src_Subject (dg_Source diag) = None then
        Some (st\<lparr>newDiags := newDiags st @ [diag]\<rparr>)
      else if DoNotConsolidateDiagnostic diag then Some (st\<lparr>newDiags := newDiags st @ [diag]\<rparr>)
      else let key = consolidationKey diag in
        case gmap_get (diagnosticGroups st) key of
          Some g \<Rightarrow>
            map_option (\<lambda>g'. st\<lparr>newDiags := (newDiags st)[g := g']\<rparr>) (group_Append (newDiags st ! g) diag)
        | None \<Rightarrow>
            let n = (case gmap_get (diagnosticStats st) key of None \<Rightarrow> 0 | Some n \<Rightarrow> n) + 1;
                st' = st\<lparr>diagnosticStats := gmap_put key n (diagnosticStats st)\<rparr>
            in if n = threshold then
                 Some (st'\<lparr>newDiags := newDiags st @ [Consolidated diag []],
                   diagnosticGroups := gmap_put key (length (newDiags st)) (diagnosticGroups st)\<rparr>)
               else Some (st'\<lparr>newDiags := newDiags st @ [diag]\<rparr>))"

fun consolidate_loop :: "int \<Rightarrow> severity \<Rightarrow> Diagnostics \<Rightarrow> consolidate_state \<Rightarrow> consolidate_state option" where
  "consolidate_loop threshold level [] st = Some st"
| "consolidate_loop threshold level (diag # diags) st =
     (case consolidate_step threshold level diag st of
        None \<Rightarrow> None | Some st' \<Rightarrow> consolidate_loop threshold level diags st')"

definition diags_Consolidate :: "Diagnostics \<Rightarrow> int \<Rightarrow> severity \<Rightarrow> Diagnostics option" where
  "diags_Consolidate diags threshold level =
     (if diags = [] then Some []
      else map_option newDiags
        (consolidate_loop threshold level diags \<lparr>newDiags = [], diagnosticStats = [], diagnosticGroups = []\<rparr>))"

fun ConsolidatedGroupSourceRanges :: "Diagnostic \<Rightarrow> Source list" where
  "ConsolidatedGroupSourceRanges (Consolidated d ds) = map dg_Source (d # ds)"
| "ConsolidatedGroupSourceRanges d = [dg_Source d]"

section \<open>Correctness\<close>

subsection \<open>Appending and converting to errors\<close>

fun item_diags :: "append_item \<Rightarrow> Diagnostics" where
  "item_diags ItemNil = []"
| "item_diags (ItemDiagnostic d) = [d]"
| "item_diags (ItemDiagnostics ds) = ds"
| "item_diags (ItemDiagnosticsAsError ds) = ds"
| "item_diags (ItemNonFatalError ds) = ds"
| "item_diags (ItemHclDiagnostics hs) = map HclDiagnostic hs"
| "item_diags (ItemHclDiagnostic h) = [HclDiagnostic h]"
| "item_diags (ItemMultierror es) = map NativeError es"
| "item_diags (ItemErrorWrapping ds) = ds"
| "item_diags (ItemErrorWrappingHcl hs) = map HclDiagnostic hs"
| "item_diags (ItemError e) = [NativeError e]"
| "item_diags ItemOther = []"

lemma append_one_spec: "append_one diags item = (if item = ItemOther then None else Some (diags @ item_diags item))"
  by (cases item) auto

lemma diags_Append_spec:
  "diags_Append diags items =
     (if ItemOther \<in> set items then None else Some (diags @ concat (map item_diags items)))"
  by (induction items arbitrary: diags) (auto simp: append_one_spec)

lemma HasErrors_iff: "HasErrors diags \<longleftrightarrow> (\<exists>d \<in> set diags. dg_Severity d = Error)"
  by (simp add: HasErrors_def list_ex_iff)

lemma HasErrors_simps [simp]:
  "\<not> HasErrors []" "HasErrors (d # ds) \<longleftrightarrow> dg_Severity d = Error \<or> HasErrors ds"
  "HasErrors (xs @ ys) \<longleftrightarrow> HasErrors xs \<or> HasErrors ys"
  by (auto simp: HasErrors_iff)

subsection \<open>Sorting\<close>

definition diag_key :: "Diagnostic \<Rightarrow> bool \<times> bool \<times> nat \<times> string \<times> int \<times> int" where
  "diag_key d = (dg_Severity d = Error,
     (case src_Subject (dg_Source d) of
        None \<Rightarrow> (False, 0, [], 0, 0)
      | Some r \<Rightarrow> (True, string_Count (rng_Filename r) (CHR ''/''), rng_Filename r,
          pos_Byte (rng_Start r), pos_Byte (rng_End r))))"

lemma severity_cases: "s \<noteq> Error \<longleftrightarrow> s = Warning"
  by (cases s) auto

lemma diag_Less_key: "diag_Less x y \<longleftrightarrow> diag_key x < diag_key y"
  by (cases "dg_Severity x"; cases "dg_Severity y"; cases "src_Subject (dg_Source x)"; cases "src_Subject (dg_Source y)")
    (auto simp: diag_Less_def diag_key_def Let_def)

interpretation diag: strict_weak_order diag_Less
  by unfold_locales (auto simp: diag_Less_key)

lemma diag_unordered: "unordered diag_Less x y \<longleftrightarrow> diag_key x = diag_key y"
  by (auto simp: unordered_def diag_Less_key)

subsection \<open>Consolidation\<close>

fun is_group :: "Diagnostic \<Rightarrow> bool" where
  "is_group (Consolidated _ _) = True"
| "is_group _ = False"

definition eligible :: "severity \<Rightarrow> Diagnostic \<Rightarrow> bool" where
  "eligible level d \<longleftrightarrow> dg_Severity d = level \<and> src_Subject (dg_Source d) \<noteq> None \<and> \<not> DoNotConsolidateDiagnostic d"

definition shown :: "severity \<Rightarrow> string \<Rightarrow> Diagnostics \<Rightarrow> nat" where
  "shown level k ds = length (filter (\<lambda>d. eligible level d \<and> consolidationKey d = k) ds)"

definition stat :: "consolidate_state \<Rightarrow> string \<Rightarrow> int" where
  "stat st k = (case gmap_get (diagnosticStats st) k of None \<Rightarrow> 0 | Some n \<Rightarrow> n)"

definition group_at :: "severity \<Rightarrow> string \<Rightarrow> nat \<Rightarrow> Diagnostics \<Rightarrow> bool" where
  "group_at level k i new \<longleftrightarrow>
     (\<exists>d ds. i < length new \<and> new ! i = Consolidated d ds \<and> eligible level d \<and> consolidationKey d = k)"

definition consolidate_inv :: "int \<Rightarrow> severity \<Rightarrow> Diagnostics \<Rightarrow> consolidate_state \<Rightarrow> bool" where
  "consolidate_inv threshold level seen st \<longleftrightarrow>
     (\<forall>k. int (shown level k (newDiags st)) = stat st k) \<and>
     (\<forall>k. 1 \<le> threshold \<longrightarrow> stat st k \<le> threshold \<and> (gmap_get (diagnosticGroups st) k = None \<longleftrightarrow> stat st k < threshold)) \<and>
     (\<forall>k i. gmap_get (diagnosticGroups st) k = Some i \<longrightarrow> group_at level k i (newDiags st)) \<and>
     mset (concat (map ConsolidatedGroupSourceRanges (newDiags st))) = mset (map dg_Source seen) \<and>
     (HasErrors (newDiags st) \<longleftrightarrow> HasErrors seen)"

lemma eligible_group [simp]: "eligible level (Consolidated d ds) = eligible level d"
  by (simp add: eligible_def DoNotConsolidateDiagnostic_def)

lemma key_group [simp]: "consolidationKey (Consolidated d ds) = consolidationKey d"
  by (simp add: consolidationKey_def Let_def)

lemma shown_append [simp]: "shown level k (xs @ ys) = shown level k xs + shown level k ys"
  by (simp add: shown_def)

lemma ranges_single: "\<not> is_group d \<Longrightarrow> ConsolidatedGroupSourceRanges d = [dg_Source d]"
  by (cases d) auto

lemma mset_concat_update:
  assumes "i < length xs"
  shows "mset (concat (map f (xs[i := y]))) + mset (f (xs ! i)) = mset (concat (map f xs)) + mset (f y)"
  using assms by (induction xs arbitrary: i) (auto split: nat.split simp: nth_Cons')

lemma shown_update:
  assumes "i < length xs" "eligible level y = eligible level (xs ! i)" "consolidationKey y = consolidationKey (xs ! i)"
  shows "shown level k (xs[i := y]) = shown level k xs"
  using assms unfolding shown_def by (induction xs arbitrary: i) (auto split: nat.split simp: nth_Cons')

lemma HasErrors_update:
  assumes "i < length xs" "dg_Severity y = dg_Severity (xs ! i)"
  shows "HasErrors (xs[i := y]) = HasErrors xs"
  using assms by (induction xs arbitrary: i) (auto split: nat.split simp: nth_Cons')

lemma group_at_append: "group_at level k i new \<Longrightarrow> group_at level k i (new @ xs)"
  by (auto simp: group_at_def nth_append)

lemma group_at_last: "eligible level d \<Longrightarrow> group_at level (consolidationKey d) (length new) (new @ [Consolidated d []])"
  by (auto simp: group_at_def)

lemma stat_put: "stat (st\<lparr>diagnosticStats := gmap_put k n (diagnosticStats st)\<rparr>) k' = (if k' = k then n else stat st k')"
  by (simp add: stat_def gomap_simps)

lemma stat_newDiags [simp]:
  "stat (st\<lparr>newDiags := ds\<rparr>) k = stat st k" "stat (st\<lparr>diagnosticGroups := gs\<rparr>) k = stat st k"
  by (simp_all add: stat_def)

lemma consolidate_step_eligible:
  "consolidate_step t level d st =
     (if \<not> eligible level d then Some (st\<lparr>newDiags := newDiags st @ [d]\<rparr>)
      else case gmap_get (diagnosticGroups st) (consolidationKey d) of
          Some g \<Rightarrow> map_option (\<lambda>g'. st\<lparr>newDiags := (newDiags st)[g := g']\<rparr>) (group_Append (newDiags st ! g) d)
        | None \<Rightarrow> let n = stat st (consolidationKey d) + 1;
                st' = st\<lparr>diagnosticStats := gmap_put (consolidationKey d) n (diagnosticStats st)\<rparr>
            in if n = t then
                 Some (st'\<lparr>newDiags := newDiags st @ [Consolidated d []],
                   diagnosticGroups := gmap_put (consolidationKey d) (length (newDiags st)) (diagnosticGroups st)\<rparr>)
               else Some (st'\<lparr>newDiags := newDiags st @ [d]\<rparr>))"
  unfolding consolidate_step_def eligible_def stat_def Let_def
  by (cases "src_Subject (dg_Source d)") simp_all

lemma consolidate_pass:
  assumes "consolidate_inv t level seen st" "\<not> is_group d" "\<not> eligible level d"
  shows "consolidate_step t level d st = Some (st\<lparr>newDiags := newDiags st @ [d]\<rparr>) \<and>
    consolidate_inv t level (seen @ [d]) (st\<lparr>newDiags := newDiags st @ [d]\<rparr>)"
proof -
  have "shown level k [d] = 0" for k using assms(3) by (simp add: shown_def)
  with assms(1) have "consolidate_inv t level (seen @ [d]) (st\<lparr>newDiags := newDiags st @ [d]\<rparr>)"
    using ranges_single[OF assms(2)] by (simp add: consolidate_inv_def group_at_append)
  with assms(3) show ?thesis by (simp add: consolidate_step_eligible)
qed

lemma consolidate_grow:
  assumes inv: "consolidate_inv t level seen st" and d: "\<not> is_group d" "eligible level d"
    and g: "gmap_get (diagnosticGroups st) (consolidationKey d) = Some i"
  shows "\<exists>st'. consolidate_step t level d st = Some st' \<and> consolidate_inv t level (seen @ [d]) st'"
proof -
  from inv g obtain d0 ds where i: "i < length (newDiags st)" "newDiags st ! i = Consolidated d0 ds"
    "eligible level d0" "consolidationKey d0 = consolidationKey d"
    unfolding consolidate_inv_def group_at_def by blast
  let ?new = "(newDiags st)[i := Consolidated d0 (ds @ [d])]"
  have step: "consolidate_step t level d st = Some (st\<lparr>newDiags := ?new\<rparr>)"
    using d(2) i g by (simp add: consolidate_step_eligible eligible_def)
  have shown: "shown level k ?new = shown level k (newDiags st)" for k
    by (rule shown_update) (use i in simp_all)
  have errs: "HasErrors ?new = HasErrors (newDiags st)" by (rule HasErrors_update) (use i in simp_all)
  have "HasErrors [d] \<Longrightarrow> HasErrors (newDiags st)"
    using d(2) i(2,3) nth_mem[OF i(1)] unfolding HasErrors_iff eligible_def
    by (intro bexI[of _ "newDiags st ! i"]) auto
  moreover have "mset (concat (map ConsolidatedGroupSourceRanges ?new)) =
      mset (concat (map ConsolidatedGroupSourceRanges (newDiags st))) + {#dg_Source d#}"
    using mset_concat_update[OF i(1), of ConsolidatedGroupSourceRanges "Consolidated d0 (ds @ [d])"] i(2) by simp
  moreover have "group_at level k j ?new" if "gmap_get (diagnosticGroups st) k = Some j" for k j
  proof -
    from that inv have "group_at level k j (newDiags st)" unfolding consolidate_inv_def by blast
    with i show ?thesis by (cases "j = i") (auto simp: group_at_def)
  qed
  ultimately have "consolidate_inv t level (seen @ [d]) (st\<lparr>newDiags := ?new\<rparr>)"
    using inv shown errs unfolding consolidate_inv_def by auto
  with step show ?thesis by blast
qed

lemma consolidate_count:
  assumes inv: "consolidate_inv t level seen st" and d: "\<not> is_group d" "eligible level d"
    and g: "gmap_get (diagnosticGroups st) (consolidationKey d) = None"
  shows "\<exists>st'. consolidate_step t level d st = Some st' \<and> consolidate_inv t level (seen @ [d]) st'"
proof -
  let ?k = "consolidationKey d" and ?n = "stat st (consolidationKey d) + 1"
  let ?st = "st\<lparr>diagnosticStats := gmap_put ?k ?n (diagnosticStats st)\<rparr>"
  have shown: "shown level k [d] = (if k = ?k then 1 else 0)" "shown level k [Consolidated d []] = (if k = ?k then 1 else 0)" for k
    using d(2) by (auto simp: shown_def)
  have old: "\<And>k. int (shown level k (newDiags st)) = stat st k"
    "\<And>k. 1 \<le> t \<Longrightarrow> stat st k \<le> t \<and> (gmap_get (diagnosticGroups st) k = None \<longleftrightarrow> stat st k < t)"
    "\<And>k i. gmap_get (diagnosticGroups st) k = Some i \<Longrightarrow> group_at level k i (newDiags st)"
    "mset (concat (map ConsolidatedGroupSourceRanges (newDiags st))) = mset (map dg_Source seen)"
    "HasErrors (newDiags st) = HasErrors seen"
    using inv unfolding consolidate_inv_def by auto
  have step: "consolidate_step t level d st = Some (if ?n = t
      then ?st\<lparr>newDiags := newDiags st @ [Consolidated d []], diagnosticGroups := gmap_put ?k (length (newDiags st)) (diagnosticGroups st)\<rparr>
      else ?st\<lparr>newDiags := newDiags st @ [d]\<rparr>)"
    using d g by (simp add: consolidate_step_eligible Let_def)
  show ?thesis
  proof (cases "?n = t")
    case True
    have "consolidate_inv t level (seen @ [d]) (?st\<lparr>newDiags := newDiags st @ [Consolidated d []],
        diagnosticGroups := gmap_put ?k (length (newDiags st)) (diagnosticGroups st)\<rparr>)"
      unfolding consolidate_inv_def
      using old(1,2,4,5) shown True d(2)
      by (auto simp: stat_put gomap_simps group_at_append[OF old(3)] group_at_last)
    with step True show ?thesis by simp
  next
    case False
    have "stat st ?k < t" if "1 \<le> t" using old(2)[OF that, of ?k] g by simp
    with False have "consolidate_inv t level (seen @ [d]) (?st\<lparr>newDiags := newDiags st @ [d]\<rparr>)"
      unfolding consolidate_inv_def
      using old(1,2,4,5) shown g d
      by (auto simp: stat_put ranges_single group_at_append[OF old(3)] split: option.splits)
    with step False show ?thesis by simp
  qed
qed

lemma consolidate_loop_inv:
  assumes "consolidate_inv t level seen st" "\<forall>d \<in> set diags. \<not> is_group d"
  shows "\<exists>st'. consolidate_loop t level diags st = Some st' \<and> consolidate_inv t level (seen @ diags) st'"
  using assms
proof (induction diags arbitrary: seen st)
  case (Cons d diags)
  from Cons.prems have "\<exists>st'. consolidate_step t level d st = Some st' \<and> consolidate_inv t level (seen @ [d]) st'"
    using consolidate_pass consolidate_grow consolidate_count
    by (cases "eligible level d"; cases "gmap_get (diagnosticGroups st) (consolidationKey d)") auto
  with Cons.IH[of "seen @ [d]"] Cons.prems(2) show ?case by auto
qed simp

lemma consolidate_init: "consolidate_inv t level [] \<lparr>newDiags = [], diagnosticStats = [], diagnosticGroups = []\<rparr>"
  by (simp add: consolidate_inv_def stat_def shown_def)

lemma diags_Consolidate_inv:
  assumes "\<forall>d \<in> set diags. \<not> is_group d"
  shows "\<exists>st. diags_Consolidate diags t level = Some (newDiags st) \<and> consolidate_inv t level diags st"
proof (cases "diags = []")
  case True
  with consolidate_init[of t level] show ?thesis
    by (intro exI[of _ "\<lparr>newDiags = [], diagnosticStats = [], diagnosticGroups = []\<rparr>"]) (simp add: diags_Consolidate_def)
next
  case False
  with consolidate_loop_inv[OF consolidate_init assms, of t level] show ?thesis
    by (auto simp: diags_Consolidate_def)
qed

subsection \<open>Merging\<close>

lemma foldl_append_if: "foldl (\<lambda>acc e. if P e then acc @ [e] else acc) a xs = a @ filter P xs"
  by (induction xs arbitrary: a) auto

definition merge_keeps :: "Diagnostic \<Rightarrow> Diagnostic \<Rightarrow> bool" where
  "merge_keeps d e \<longleftrightarrow> DoNotConsolidateDiagnostic d \<or> DoNotConsolidateDiagnostic e \<or> \<not> diag_isEqual d e"

lemma StrictDeduplicateMerge_concat:
  assumes "diags \<noteq> []"
  shows "StrictDeduplicateMerge diags other = diags @ concat (map (\<lambda>d. filter (merge_keeps d) other) diags)"
proof -
  have "foldl (\<lambda>acc d. acc @ f d) a ds = a @ concat (map f ds)" for f :: "Diagnostic \<Rightarrow> Diagnostics" and a ds
    by (induction ds arbitrary: a) auto
  then show ?thesis using assms
    by (simp add: StrictDeduplicateMerge_def foldl_append_if merge_keeps_def[abs_def])
qed

subsection \<open>Example diagnostics\<close>

definition example_range :: "string \<Rightarrow> int \<Rightarrow> SourceRange option" where
  "example_range f b =
     (let p = \<lparr>pos_Line = 1, pos_Column = 1, pos_Byte = b\<rparr>
      in Some \<lparr>rng_Filename = f, rng_Start = p, rng_End = p\<rparr>)"

definition example_warning :: "string \<Rightarrow> int \<Rightarrow> Diagnostic" where
  "example_warning f b = RpcFriendly Warning ''deprecated'' [] (example_range f b) None"

lemma example_warning_sels [simp]:
  "dg_Severity (example_warning f b) = Warning"
  "dg_Source (example_warning f b) = \<lparr>src_Subject = example_range f b, src_Context = None\<rparr>"
  "dg_ExtraInfo (example_warning f b) = NilExtra"
  "\<not> is_group (example_warning f b)"
  "desc_Summary (dg_Description (example_warning f b)) = ''deprecated''"
  by (simp_all add: example_warning_def)

section \<open>Properties\<close>



text \<open>
  \<^verbatim>\<open>Sort\<close> returns a permutation of the diagnostics in which none comes before one that is
  less than it, where warnings come before errors, and diagnostics with the same severity
  and source position stay in their order.
\<close>

theorem diags_Sort_stable:
  "mset (diags_Sort diags) = mset diags \<and>
   sorted_wrt (\<lambda>a b. \<not> diag_Less b a) (diags_Sort diags) \<and>
   sorted_wrt (\<lambda>a b. dg_Severity b = Warning \<longrightarrow> dg_Severity a = Warning) (diags_Sort diags) \<and>
   filter (\<lambda>d. diag_key d = k) (diags_Sort diags) = filter (\<lambda>d. diag_key d = k) diags"
proof -
  have sorted: "sorted_wrt (\<lambda>a b. \<not> diag_Less b a) (diags_Sort diags)"
    unfolding diags_Sort_def by (rule diag.sorted_Stable)
  have warn: "diag_Less b a" if "dg_Severity b = Warning" "dg_Severity a \<noteq> Warning" for a b
    using that by (auto simp: diag_Less_def Let_def)
  from sorted have sev: "sorted_wrt (\<lambda>a b. dg_Severity b = Warning \<longrightarrow> dg_Severity a = Warning) (diags_Sort diags)"
    by (rule sorted_wrt_mono_rel[rotated]) (use warn in blast)
  have "filter (\<lambda>d. diag_key d = k) (diags_Sort diags) = filter (\<lambda>d. diag_key d = k) diags"
  proof (cases "\<exists>z. diag_key z = k")
    case True
    then obtain z where "diag_key z = k" by blast
    then have "unordered diag_Less z = (\<lambda>d. diag_key d = k)" by (auto simp: diag_unordered)
    with diag.stable_Stable[of z diags] show ?thesis by (simp add: diags_Sort_def)
  next
    case False
    then show ?thesis by (simp add: filter_empty_conv)
  qed
  with sorted sev show ?thesis by (simp add: diags_Sort_def)
qed

theorem diags_Sort_stable_witness:
  "mset (diags_Sort [NativeError ''x'', SimpleWarning ''y'']) = {#NativeError ''x'', SimpleWarning ''y''#}"
  using diags_Sort_stable[of "[NativeError ''x'', SimpleWarning ''y'']"] by simp

text \<open>
  \<^verbatim>\<open>Append\<close> panics exactly when it is given a value of a type it does not know; otherwise
  it adds the diagnostics of all its arguments in order, so errors are never lost.  A list
  turned into an error by \<^verbatim>\<open>ErrWithWarnings\<close> is recovered unchanged by \<^verbatim>\<open>Append\<close>, and one
  turned into an error by \<^verbatim>\<open>Err\<close> is recovered when it has errors and dropped otherwise.
\<close>

theorem Append_roundtrip:
  "(diags_Append diags items = None \<longleftrightarrow> ItemOther \<in> set items) \<and>
   (ItemOther \<notin> set items \<longrightarrow>
      (\<exists>out. diags_Append diags items = Some out \<and> out = diags @ concat (map item_diags items) \<and>
        (HasErrors out \<longleftrightarrow> HasErrors diags \<or> (\<exists>item \<in> set items. HasErrors (item_diags item))))) \<and>
   diags_Append [] [error_item (ErrWithWarnings diags)] = Some diags \<and>
   diags_Append [] [error_item (diags_Err diags)] = Some (if HasErrors diags then diags else [])"
  by (auto simp: diags_Append_spec HasErrors_iff ErrWithWarnings_def diags_Err_def)

theorem Append_roundtrip_witness:
  "diags_Append [SimpleWarning ''w''] [ItemNil, ItemError ''e''] = Some [SimpleWarning ''w'', NativeError ''e'']"
  using Append_roundtrip[of "[SimpleWarning ''w'']" "[ItemNil, ItemError ''e'']"] by auto

text \<open>
  Overriding a list of diagnostics gives every one of them the new severity and keeps
  descriptions and sources, and \<^verbatim>\<open>UndoOverride\<close> gives the original list back.
\<close>

theorem OverrideAll_undo:
  "map UndoOverride (OverrideAll diags s createExtra) = diags \<and>
   (\<forall>d \<in> set (OverrideAll diags s createExtra). dg_Severity d = s) \<and>
   map dg_Description (OverrideAll diags s createExtra) = map dg_Description diags \<and>
   map dg_Source (OverrideAll diags s createExtra) = map dg_Source diags"
proof -
  have "OverrideAll diags s createExtra = map (\<lambda>d. Override d s createExtra) diags"
    unfolding OverrideAll_def by (induction diags rule: rev_induct) auto
  then show ?thesis by (auto simp: Override_def Let_def o_def)
qed

theorem OverrideAll_undo_witness:
  "map UndoOverride (OverrideAll [NativeError ''e''] Warning None) = [NativeError ''e'']"
  using OverrideAll_undo[of "[NativeError ''e'']" Warning None] by simp

text \<open>
  \<^verbatim>\<open>StrictDeduplicateMerge\<close> compares every diagnostic of the other list with every one of
  the receiver and appends it once for each that differs.  So with two or more distinct
  receivers it adds a diagnostic that the receiver already has, and with three distinct
  ones it adds it twice.
\<close>

theorem StrictDeduplicateMerge_duplicates:
  assumes "d \<in> set diags" "d' \<in> set diags" "\<not> diag_isEqual d' d"
  shows "count (mset diags) d < count (mset (StrictDeduplicateMerge diags [d])) d"
proof -
  have keep: "merge_keeps d' d" using assms(3) by (simp add: merge_keeps_def)
  have "StrictDeduplicateMerge diags [d] = diags @ concat (map (\<lambda>x. filter (merge_keeps x) [d]) diags)"
    by (rule StrictDeduplicateMerge_concat) (use assms(1) in auto)
  moreover have "0 < count (mset xs) d" if "d \<in> set xs" for xs
    using that by simp
  moreover have "d \<in> set (concat (map (\<lambda>x. filter (merge_keeps x) [d]) diags))"
    using assms(2) keep by auto
  ultimately show ?thesis by (metis add_strict_left_mono add_0_right count_union mset_append)
qed

theorem StrictDeduplicateMerge_duplicates_witness:
  "1 < count (mset (StrictDeduplicateMerge [NativeError ''a'', NativeError ''b''] [NativeError ''a''])) (NativeError ''a'')"
  using StrictDeduplicateMerge_duplicates[of "NativeError ''a''" "[NativeError ''a'', NativeError ''b'']" "NativeError ''b''"]
  by (simp add: diag_isEqual_def desc_Equal_def)

end
