(* ===== verification/Dag_Walker.thy ===== *)
theory Dag_Walker
  imports Dag_Scc Tfdiags
begin

text \<open>
  The parallel walk of a graph (\<^verbatim>\<open>internal/dag/walk.go\<close>).  A \<^verbatim>\<open>Walker\<close> starts two goroutines for
  each vertex: \<^verbatim>\<open>walkVertex\<close> runs the callback once the dependencies are complete, and
  \<^verbatim>\<open>waitDeps\<close> waits for them and tells it whether they succeeded.  They talk through channels.

  The state holds the fields of the \<^verbatim>\<open>Walker\<close>, the heap of \<^verbatim>\<open>walkerVertex\<close> objects (named by
  numbers), the channels and the program counter of every goroutine.  Each call of
  \<^verbatim>\<open>make(chan ...)\<close> gives a new channel; it is named by the object it belongs to, the field
  it is made for and how often that field was set before.  A channel without values is
  described by whether it is closed; the buffered ones also by the value in the buffer.
  \<open>walk_step\<close> is one atomic step of some goroutine; the sections under a lock are one step.
  A step that runs the callback is labelled, so that a trace shows its calls.  The debug
  timer of \<^verbatim>\<open>waitDeps\<close>, which only logs, is left out.
\<close>

section \<open>State\<close>

datatype chan =
    ChDone nat | ChCancel nat | ChStart nat
  | ChDeps nat nat | ChDepsUpdate nat nat | ChDepsCancel nat nat

record 'v walkerVertex =
  DoneCh :: chan
  CancelCh :: chan
  DepsCh :: "chan option"
  DepsUpdateCh :: "chan option"
  wv_deps :: "('v, chan) gomap"
  depsCancelCh :: "chan option"
  depsGen :: nat

text \<open>
  The places of \<^verbatim>\<open>walkVertex\<close>: at the \<^verbatim>\<open>select\<close> with its local variables \<^verbatim>\<open>depsSuccess\<close>, \<^verbatim>\<open>depsCh\<close> and
  \<^verbatim>\<open>depsUpdateCh\<close>, before the section under \<^verbatim>\<open>DepsLock\<close>, at the second look at \<^verbatim>\<open>CancelCh\<close>, in the
  callback, before recording the result, and in the two deferred calls.
\<close>

datatype walk_pc =
    WSelect bool "chan option" "chan option"
  | WDeps bool "chan option" "chan option"
  | WCheck bool | WCall | WRecord Diagnostics bool | WClose | WWaitDone | WEnd

text \<open>The places of \<^verbatim>\<open>waitDeps\<close>: the dependencies still to be awaited, or the answer was sent.\<close>

datatype 'v wait_pc = DWait "('v \<times> chan) list" | DSent

record 'v waiter =
  wt_deps :: "('v, chan) gomap"
  wt_cancel :: chan
  wt_pc :: "'v wait_pc"

record ('h, 'v) Walker =
  w_Reverse :: bool
  w_vertices :: "('h, 'v) dset"
  w_edges :: "('v \<times> 'v, 'v basicEdge) dset"
  w_vertexMap :: "('v, nat) gomap"
  w_wait :: int
  w_diagsMap :: "('v, Diagnostics) gomap"
  w_upstreamFailed :: "('v, unit) gomap"
  w_infos :: "(nat, 'v walkerVertex) gomap"
  w_next :: nat
  w_closed :: "chan list"
  w_buf :: "(chan, bool) gomap"
  w_walking :: "(nat, 'v \<times> walk_pc) gomap"
  w_waiting :: "(chan, 'v waiter) gomap"

definition newWalker :: "bool \<Rightarrow> ('h, 'v) Walker" where
  "newWalker reverse = \<lparr>w_Reverse = reverse, w_vertices = [], w_edges = [], w_vertexMap = [], w_wait = 0,
     w_diagsMap = [], w_upstreamFailed = [], w_infos = [], w_next = 0, w_closed = [], w_buf = [],
     w_walking = [], w_waiting = []\<rparr>"

section \<open>Update\<close>

definition edgeParts :: "('h, 'v) Walker \<Rightarrow> 'v basicEdge \<Rightarrow> 'v \<times> 'v" where
  "edgeParts w e = (if w_Reverse w then (edge_S e, edge_T e) else (edge_T e, edge_S e))"

definition update_newVertex :: "('v \<Rightarrow> 'h) \<Rightarrow> ('h, 'v) Walker \<Rightarrow> 'v \<Rightarrow> ('h, 'v) Walker" where
  "update_newVertex hc w v =
     (let p = w_next w;
          info = \<lparr>DoneCh = ChDone p, CancelCh = ChCancel p, DepsCh = None, DepsUpdateCh = None,
                  wv_deps = [], depsCancelCh = None, depsGen = 0\<rparr>
      in w\<lparr>w_wait := w_wait w + 1, w_vertices := set_Add hc (w_vertices w) v,
           w_infos := gmap_put p info (w_infos w), w_next := p + 1,
           w_vertexMap := gmap_put v p (w_vertexMap w)\<rparr>)"

definition walker_info :: "('h, 'v) Walker \<Rightarrow> 'v \<Rightarrow> (nat \<times> 'v walkerVertex) option" where
  "walker_info w v =
     (case gmap_get (w_vertexMap w) v of
        None \<Rightarrow> None
      | Some p \<Rightarrow> (case gmap_get (w_infos w) p of None \<Rightarrow> None | Some info \<Rightarrow> Some (p, info)))"

definition update_oldVertex :: "('v \<Rightarrow> 'h) \<Rightarrow> ('h, 'v) Walker \<Rightarrow> 'v \<Rightarrow> ('h, 'v) Walker" where
  "update_oldVertex hc w v =
     (case walker_info w v of
        None \<Rightarrow> w
      | Some (p, info) \<Rightarrow>
          w\<lparr>w_closed := CancelCh info # w_closed w, w_vertexMap := gmap_del v (w_vertexMap w),
            w_vertices := set_Delete hc (w_vertices w) v\<rparr>)"

definition update_newEdge ::
  "('v \<Rightarrow> 'h) \<Rightarrow> ('h, 'v) Walker \<times> ('h, 'v) dset \<Rightarrow> 'v basicEdge \<Rightarrow> ('h, 'v) Walker \<times> ('h, 'v) dset" where
  "update_newEdge hc st e =
     (let (w, changed) = st; (waiter, dep) = edgeParts w e in
      case walker_info w waiter of
        None \<Rightarrow> st
      | Some (p, waiterInfo) \<Rightarrow>
          (case walker_info w dep of
             None \<Rightarrow> st
           | Some (q, depInfo) \<Rightarrow>
               (w\<lparr>w_infos := gmap_put p (waiterInfo\<lparr>wv_deps := gmap_put dep (DoneCh depInfo) (wv_deps waiterInfo)\<rparr>) (w_infos w),
                  w_edges := set_Add edge_Hashcode (w_edges w) e\<rparr>,
                set_Add hc changed waiter)))"

definition update_oldEdge ::
  "('v \<Rightarrow> 'h) \<Rightarrow> ('h, 'v) Walker \<times> ('h, 'v) dset \<Rightarrow> 'v basicEdge \<Rightarrow> ('h, 'v) Walker \<times> ('h, 'v) dset" where
  "update_oldEdge hc st e =
     (let (w, changed) = st; (waiter, dep) = edgeParts w e in
      case walker_info w waiter of
        None \<Rightarrow> st
      | Some (p, waiterInfo) \<Rightarrow>
          (w\<lparr>w_infos := gmap_put p (waiterInfo\<lparr>wv_deps := gmap_del dep (wv_deps waiterInfo)\<rparr>) (w_infos w),
             w_edges := set_Delete edge_Hashcode (w_edges w) e\<rparr>,
           set_Add hc changed waiter))"

definition close_opt :: "chan option \<Rightarrow> chan list \<Rightarrow> chan list" where
  "close_opt c cs = (case c of None \<Rightarrow> cs | Some ch \<Rightarrow> ch # cs)"

definition update_waiter :: "('h, 'v) Walker \<Rightarrow> 'v \<Rightarrow> ('h, 'v) Walker" where
  "update_waiter w v =
     (case walker_info w v of
        None \<Rightarrow> w
      | Some (p, info) \<Rightarrow>
          (let n = depsGen info; doneCh = ChDeps p n; cancelCh = ChDepsCancel p n; deps = wv_deps info
           in w\<lparr>w_closed := close_opt (depsCancelCh info) (close_opt (DepsUpdateCh info) (w_closed w)),
                w_infos := gmap_put p (info\<lparr>DepsCh := Some doneCh, DepsUpdateCh := Some (ChDepsUpdate p n),
                  depsCancelCh := Some cancelCh, depsGen := n + 1\<rparr>) (w_infos w),
                w_waiting := gmap_put doneCh \<lparr>wt_deps = deps, wt_cancel = cancelCh, wt_pc = DWait deps\<rparr> (w_waiting w)\<rparr>))"

text \<open>
  Starting \<^verbatim>\<open>walkVertex\<close>.  Its first channel is local, so that it is made and filled when the
  goroutine starts.
\<close>

definition update_start :: "('h, 'v) Walker \<Rightarrow> 'v \<Rightarrow> ('h, 'v) Walker" where
  "update_start w v =
     (case gmap_get (w_vertexMap w) v of
        None \<Rightarrow> w
      | Some p \<Rightarrow>
          w\<lparr>w_buf := gmap_put (ChStart p) True (w_buf w), w_closed := ChStart p # w_closed w,
            w_walking := gmap_put p (v, WSelect False (Some (ChStart p)) None) (w_walking w)\<rparr>)"

definition walker_Update :: "('v \<Rightarrow> 'h) \<Rightarrow> ('h, 'v) Walker \<Rightarrow> ('h, 'v) graph option \<Rightarrow> ('h, 'v) Walker" where
  "walker_Update hc w g =
     (let (v, e) = (case g of None \<Rightarrow> ([], []) | Some gr \<Rightarrow> (g_vertices gr, g_edges gr));
          newEdges = set_List (set_Difference edge_Hashcode e (w_edges w));
          oldEdges = set_List (set_Difference edge_Hashcode (w_edges w) e);
          newVerts = set_List (set_Difference hc v (w_vertices w));
          oldVerts = set_List (set_Difference hc (w_vertices w) v);
          w1 = foldl (update_newVertex hc) w newVerts;
          w2 = foldl (update_oldVertex hc) w1 oldVerts;
          (w3, changed) = foldl (update_newEdge hc) (w2, []) newEdges;
          (w4, changedDeps) = foldl (update_oldEdge hc) (w3, changed) oldEdges;
          w5 = foldl update_waiter w4 (set_List changedDeps)
      in foldl update_start w5 newVerts)"

section \<open>The goroutines\<close>

datatype 'v walk_event = CallStart 'v | CallEnd 'v Diagnostics | Internal

definition set_pc :: "nat \<Rightarrow> 'v \<Rightarrow> walk_pc \<Rightarrow> ('h, 'v) Walker \<Rightarrow> ('h, 'v) Walker" where
  "set_pc p v pc w = w\<lparr>w_walking := gmap_put p (v, pc) (w_walking w)\<rparr>"

definition upstream_diags :: Diagnostics where
  "upstream_diags = [NativeError ''upstream dependencies failed'']"

definition walk_lock_deps :: "nat \<Rightarrow> 'v \<Rightarrow> bool \<Rightarrow> chan option \<Rightarrow> chan option \<Rightarrow> 'v walkerVertex \<Rightarrow> ('h, 'v) Walker \<Rightarrow> ('h, 'v) Walker" where
  "walk_lock_deps p v ok depsCh depsUpdateCh info w =
     (let depsCh' = (case DepsCh info of Some c \<Rightarrow> Some c | None \<Rightarrow> depsCh);
          depsUpdateCh' = (case DepsUpdateCh info of Some c \<Rightarrow> Some c | None \<Rightarrow> depsUpdateCh)
      in set_pc p v (if depsCh' = None then WCheck ok else WSelect ok depsCh' depsUpdateCh')
           (w\<lparr>w_infos := gmap_put p (info\<lparr>DepsCh := None\<rparr>) (w_infos w)\<rparr>))"

definition walk_record :: "nat \<Rightarrow> 'v \<Rightarrow> Diagnostics \<Rightarrow> bool \<Rightarrow> ('h, 'v) Walker \<Rightarrow> ('h, 'v) Walker" where
  "walk_record p v diags failed w =
     set_pc p v WClose
       (w\<lparr>w_diagsMap := gmap_put v diags (w_diagsMap w),
          w_upstreamFailed := (if failed then gmap_put v () (w_upstreamFailed w) else w_upstreamFailed w)\<rparr>)"

definition diags_of :: "('h, 'v) Walker \<Rightarrow> 'v \<Rightarrow> Diagnostics" where
  "diags_of w v = (case gmap_get (w_diagsMap w) v of None \<Rightarrow> [] | Some ds \<Rightarrow> ds)"

text \<open>The check at the end of \<^verbatim>\<open>waitDeps\<close>, which holds \<^verbatim>\<open>diagsLock\<close>.\<close>

definition deps_ok :: "('h, 'v) Walker \<Rightarrow> ('v, chan) gomap \<Rightarrow> bool" where
  "deps_ok w deps = list_all (\<lambda>(dep, _). \<not> HasErrors (diags_of w dep)) deps"

definition wait_send :: "chan \<Rightarrow> 'v waiter \<Rightarrow> bool \<Rightarrow> ('h, 'v) Walker \<Rightarrow> ('h, 'v) Walker" where
  "wait_send doneCh wt b w =
     w\<lparr>w_buf := gmap_put doneCh b (w_buf w), w_waiting := gmap_put doneCh (wt\<lparr>wt_pc := DSent\<rparr>) (w_waiting w)\<rparr>"

inductive walk_step ::
  "('v \<Rightarrow> Diagnostics \<Rightarrow> bool) \<Rightarrow> ('h, 'v) Walker \<Rightarrow> 'v walk_event \<Rightarrow> ('h, 'v) Walker \<Rightarrow> bool"
  for cb :: "'v \<Rightarrow> Diagnostics \<Rightarrow> bool" where
  select_cancel:
    "gmap_get (w_walking w) p = Some (v, WSelect ok dc uc) \<Longrightarrow> gmap_get (w_infos w) p = Some info \<Longrightarrow>
     CancelCh info \<in> set (w_closed w) \<Longrightarrow> walk_step cb w Internal (set_pc p v WClose w)"
| select_deps:
    "gmap_get (w_walking w) p = Some (v, WSelect ok (Some c) uc) \<Longrightarrow> gmap_get (w_buf w) c = Some b \<Longrightarrow>
     walk_step cb w Internal (set_pc p v (WDeps b None uc) (w\<lparr>w_buf := gmap_del c (w_buf w)\<rparr>))"
| select_deps_closed:
    "gmap_get (w_walking w) p = Some (v, WSelect ok (Some c) uc) \<Longrightarrow> gmap_get (w_buf w) c = None \<Longrightarrow>
     c \<in> set (w_closed w) \<Longrightarrow> walk_step cb w Internal (set_pc p v (WDeps False None uc) w)"
| select_update:
    "gmap_get (w_walking w) p = Some (v, WSelect ok dc (Some u)) \<Longrightarrow> u \<in> set (w_closed w) \<Longrightarrow>
     walk_step cb w Internal (set_pc p v (WDeps ok dc (Some u)) w)"
| lock_deps:
    "gmap_get (w_walking w) p = Some (v, WDeps ok dc uc) \<Longrightarrow> gmap_get (w_infos w) p = Some info \<Longrightarrow>
     walk_step cb w Internal (walk_lock_deps p v ok dc uc info w)"
| check_cancel:
    "gmap_get (w_walking w) p = Some (v, WCheck ok) \<Longrightarrow> gmap_get (w_infos w) p = Some info \<Longrightarrow>
     CancelCh info \<in> set (w_closed w) \<Longrightarrow> walk_step cb w Internal (set_pc p v WClose w)"
| check_call:
    "gmap_get (w_walking w) p = Some (v, WCheck True) \<Longrightarrow> gmap_get (w_infos w) p = Some info \<Longrightarrow>
     CancelCh info \<notin> set (w_closed w) \<Longrightarrow> walk_step cb w (CallStart v) (set_pc p v WCall w)"
| check_skip:
    "gmap_get (w_walking w) p = Some (v, WCheck False) \<Longrightarrow> gmap_get (w_infos w) p = Some info \<Longrightarrow>
     CancelCh info \<notin> set (w_closed w) \<Longrightarrow> walk_step cb w Internal (set_pc p v (WRecord upstream_diags True) w)"
| call_return:
    "gmap_get (w_walking w) p = Some (v, WCall) \<Longrightarrow> cb v ds \<Longrightarrow>
     walk_step cb w (CallEnd v ds) (set_pc p v (WRecord ds False) w)"
| record_result:
    "gmap_get (w_walking w) p = Some (v, WRecord ds failed) \<Longrightarrow> walk_step cb w Internal (walk_record p v ds failed w)"
| close_done:
    "gmap_get (w_walking w) p = Some (v, WClose) \<Longrightarrow> gmap_get (w_infos w) p = Some info \<Longrightarrow>
     walk_step cb w Internal (set_pc p v WWaitDone (w\<lparr>w_closed := DoneCh info # w_closed w\<rparr>))"
| wait_done:
    "gmap_get (w_walking w) p = Some (v, WWaitDone) \<Longrightarrow>
     walk_step cb w Internal (set_pc p v WEnd (w\<lparr>w_wait := w_wait w - 1\<rparr>))"
| dep_satisfied:
    "gmap_get (w_waiting w) c = Some wt \<Longrightarrow> wt_pc wt = DWait ((d, dc) # rest) \<Longrightarrow> dc \<in> set (w_closed w) \<Longrightarrow>
     walk_step cb w Internal (w\<lparr>w_waiting := gmap_put c (wt\<lparr>wt_pc := DWait rest\<rparr>) (w_waiting w)\<rparr>)"
| dep_cancel:
    "gmap_get (w_waiting w) c = Some wt \<Longrightarrow> wt_pc wt = DWait (d # rest) \<Longrightarrow> wt_cancel wt \<in> set (w_closed w) \<Longrightarrow>
     walk_step cb w Internal (wait_send c wt False w)"
| deps_complete:
    "gmap_get (w_waiting w) c = Some wt \<Longrightarrow> wt_pc wt = DWait [] \<Longrightarrow>
     walk_step cb w Internal (wait_send c wt (deps_ok w (wt_deps wt)) w)"

inductive walk_run ::
  "('v \<Rightarrow> Diagnostics \<Rightarrow> bool) \<Rightarrow> ('h, 'v) Walker \<Rightarrow> 'v walk_event list \<Rightarrow> ('h, 'v) Walker \<Rightarrow> bool"
  for cb :: "'v \<Rightarrow> Diagnostics \<Rightarrow> bool" and w0 :: "('h, 'v) Walker" where
  run_start: "walk_run cb w0 [] w0"
| run_step: "walk_run cb w0 tr w \<Longrightarrow> walk_step cb w e w' \<Longrightarrow> walk_run cb w0 (tr @ [e]) w'"

text \<open>\<^verbatim>\<open>Wait\<close> blocks (\<open>None\<close>) until the wait group is at zero.\<close>

definition walker_Wait :: "('h, 'v) Walker \<Rightarrow> Diagnostics option" where
  "walker_Wait w =
     (if w_wait w \<noteq> 0 then None
      else Some (foldl (\<lambda>diags (v, vDiags). if gmap_get (w_upstreamFailed w) v \<noteq> None then diags else diags @ vDiags)
        [] (w_diagsMap w)))"

text \<open>The walk that \<^verbatim>\<open>AcyclicGraph.Walk\<close> starts.\<close>

definition graph_Walk_start :: "('v \<Rightarrow> 'h) \<Rightarrow> ('h, 'v) graph \<Rightarrow> ('h, 'v) Walker" where
  "graph_Walk_start hc g = walker_Update hc (newWalker True) (Some g)"

section \<open>The invariant of a walk\<close>

text \<open>
  \<open>D\<close> relates a vertex to its dependencies.  The local state of a vertex is the part of the
  walker that only its own two goroutines change.
\<close>

record 'v vertex_view =
  vv_ptr :: nat
  vv_info :: "'v walkerVertex option"
  vv_walk :: "('v \<times> walk_pc) option"
  vv_wait :: "'v waiter option"
  vv_start :: "bool option"
  vv_answer :: "bool option"
  vv_diags :: "Diagnostics option"
  vv_failed :: bool

definition view :: "('h, 'v) Walker \<Rightarrow> 'v \<Rightarrow> 'v vertex_view" where
  "view w v =
     (let p = the (gmap_get (w_vertexMap w) v) in
      \<lparr>vv_ptr = p, vv_info = gmap_get (w_infos w) p, vv_walk = gmap_get (w_walking w) p,
       vv_wait = gmap_get (w_waiting w) (ChDeps p 0), vv_start = gmap_get (w_buf w) (ChStart p),
       vv_answer = gmap_get (w_buf w) (ChDeps p 0), vv_diags = gmap_get (w_diagsMap w) v,
       vv_failed = (gmap_get (w_upstreamFailed w) v \<noteq> None)\<rparr>)"

abbreviation ptr :: "('h, 'v) Walker \<Rightarrow> 'v \<Rightarrow> nat" where
  "ptr w v \<equiv> the (gmap_get (w_vertexMap w) v)"

text \<open>What the rest of the walk means to a vertex: which dependencies are done and whether they failed.\<close>

definition vertex_done :: "('h, 'v) Walker \<Rightarrow> 'v \<Rightarrow> bool" where
  "vertex_done w v \<longleftrightarrow> ChDone (ptr w v) \<in> set (w_closed w)"

definition deps_done :: "('v \<times> 'v) set \<Rightarrow> ('h, 'v) Walker \<Rightarrow> 'v \<Rightarrow> bool" where
  "deps_done D w v \<longleftrightarrow> (\<forall>d \<in> D `` {v}. vertex_done w d)"

definition verdict :: "('v \<times> 'v) set \<Rightarrow> ('h, 'v) Walker \<Rightarrow> 'v \<Rightarrow> bool" where
  "verdict D w v \<longleftrightarrow> (\<forall>d \<in> D `` {v}. \<not> HasErrors (diags_of w d))"

fun after_call :: "walk_pc \<Rightarrow> bool" where
  "after_call (WRecord _ _) = True" | "after_call WClose = True" | "after_call WWaitDone = True"
| "after_call WEnd = True" | "after_call _ = False"

fun pc_ended :: "walk_pc \<Rightarrow> bool" where
  "pc_ended WWaitDone = True" | "pc_ended WEnd = True" | "pc_ended _ = False"

text \<open>
  How the callback of a vertex appears in the trace: \<open>outcome v tr ds failed\<close> says that it
  was skipped because of a failed dependency, or that it returned \<open>ds\<close>.
\<close>

definition outcome :: "'v \<Rightarrow> 'v walk_event list \<Rightarrow> Diagnostics \<Rightarrow> bool \<Rightarrow> bool" where
  "outcome v tr ds failed \<longleftrightarrow>
     (if failed then CallStart v \<notin> set tr \<and> (\<forall>ds'. CallEnd v ds' \<notin> set tr) \<and> ds = upstream_diags
      else CallStart v \<in> set tr \<and> (\<forall>ds'. CallEnd v ds' \<in> set tr \<longleftrightarrow> ds' = ds))"

definition uncalled :: "'v \<Rightarrow> 'v walk_event list \<Rightarrow> bool" where
  "uncalled v tr \<longleftrightarrow> CallStart v \<notin> set tr \<and> (\<forall>ds. CallEnd v ds \<notin> set tr)"

text \<open>The places of \<^verbatim>\<open>walkVertex\<close> and the state that goes with them.\<close>

definition first_deps :: "bool \<Rightarrow> nat \<Rightarrow> chan option" where
  "first_deps has_deps p = (if has_deps then Some (ChDeps p 0) else None)"

fun walk_ok :: "('v \<times> 'v) set \<Rightarrow> 'v walk_event list \<Rightarrow> ('h, 'v) Walker \<Rightarrow> 'v \<Rightarrow> 'v walkerVertex \<Rightarrow> walk_pc \<Rightarrow> bool" where
  "walk_ok D tr w v info (WSelect ok dc uc) \<longleftrightarrow>
     uncalled v tr \<and> vv_diags (view w v) = None \<and> \<not> vv_failed (view w v) \<and>
     (dc = Some (ChStart (ptr w v)) \<and> uc = None \<and> vv_start (view w v) = Some True \<and>
        DepsCh info = first_deps (D `` {v} \<noteq> {}) (ptr w v) \<or>
      D `` {v} \<noteq> {} \<and> dc = Some (ChDeps (ptr w v) 0) \<and> uc = Some (ChDepsUpdate (ptr w v) 0) \<and> DepsCh info = None)"
| "walk_ok D tr w v info (WDeps ok dc uc) \<longleftrightarrow>
     uncalled v tr \<and> vv_diags (view w v) = None \<and> \<not> vv_failed (view w v) \<and> dc = None \<and>
     (uc = None \<and> ok \<and> DepsCh info = first_deps (D `` {v} \<noteq> {}) (ptr w v) \<or>
      uc \<noteq> None \<and> D `` {v} \<noteq> {} \<and> DepsCh info = None \<and> deps_done D w v \<and> ok = verdict D w v)"
| "walk_ok D tr w v info (WCheck ok) \<longleftrightarrow>
     uncalled v tr \<and> vv_diags (view w v) = None \<and> \<not> vv_failed (view w v) \<and> deps_done D w v \<and> ok = verdict D w v"
| "walk_ok D tr w v info WCall \<longleftrightarrow>
     CallStart v \<in> set tr \<and> (\<forall>ds. CallEnd v ds \<notin> set tr) \<and> vv_diags (view w v) = None \<and> \<not> vv_failed (view w v) \<and>
     deps_done D w v \<and> verdict D w v"
| "walk_ok D tr w v info (WRecord ds failed) \<longleftrightarrow>
     outcome v tr ds failed \<and> vv_diags (view w v) = None \<and> \<not> vv_failed (view w v) \<and>
     deps_done D w v \<and> failed = (\<not> verdict D w v)"
| "walk_ok D tr w v info pc \<longleftrightarrow>
     (\<exists>ds. vv_diags (view w v) = Some ds \<and> outcome v tr ds (vv_failed (view w v))) \<and>
     deps_done D w v \<and> vv_failed (view w v) = (\<not> verdict D w v)"

text \<open>The places of \<^verbatim>\<open>walkVertex\<close> at which it has not yet received the answer of \<^verbatim>\<open>waitDeps\<close>.\<close>

fun awaiting :: "walk_pc \<Rightarrow> bool" where
  "awaiting (WSelect _ _ _) = True"
| "awaiting (WDeps _ _ uc) = (uc = None)"
| "awaiting _ = False"

fun wait_pc_ok :: "('v \<times> 'v) set \<Rightarrow> ('h, 'v) Walker \<Rightarrow> 'v \<Rightarrow> bool \<Rightarrow> ('v, chan) gomap \<Rightarrow> 'v wait_pc \<Rightarrow> bool" where
  "wait_pc_ok D w v waits deps (DWait rest) \<longleftrightarrow> set rest \<subseteq> set deps \<and>
     (\<forall>d \<in> D `` {v} - fst ` set rest. vertex_done w d) \<and> vv_answer (view w v) = None \<and> waits"
| "wait_pc_ok D w v waits deps DSent \<longleftrightarrow> deps_done D w v \<and>
     vv_answer (view w v) = (if waits then Some (verdict D w v) else None)"

definition wait_ok :: "('v \<times> 'v) set \<Rightarrow> ('h, 'v) Walker \<Rightarrow> 'v \<Rightarrow> bool \<Rightarrow> bool" where
  "wait_ok D w v waits \<longleftrightarrow>
     (if D `` {v} = {} then vv_wait (view w v) = None
      else \<exists>wt. vv_wait (view w v) = Some wt \<and> wt_cancel wt = ChDepsCancel (ptr w v) 0 \<and>
        gmap_ok (wt_deps wt) \<and> set (wt_deps wt) = (\<lambda>d. (d, ChDone (ptr w d))) ` (D `` {v}) \<and>
        wait_pc_ok D w v waits (wt_deps wt) (wt_pc wt))"

definition vertex_inv :: "('v \<times> 'v) set \<Rightarrow> 'v walk_event list \<Rightarrow> ('h, 'v) Walker \<Rightarrow> 'v \<Rightarrow> bool" where
  "vertex_inv D tr w v \<longleftrightarrow>
     (\<exists>info pc. vv_info (view w v) = Some info \<and> vv_walk (view w v) = Some (v, pc) \<and>
        DoneCh info = ChDone (ptr w v) \<and> CancelCh info = ChCancel (ptr w v) \<and>
        DepsUpdateCh info = (if D `` {v} = {} then None else Some (ChDepsUpdate (ptr w v) 0)) \<and>
        (vertex_done w v \<longleftrightarrow> pc_ended pc) \<and> walk_ok D tr w v info pc \<and> wait_ok D w v (awaiting pc))"

definition ended :: "('h, 'v) Walker \<Rightarrow> 'v \<Rightarrow> bool" where
  "ended w v \<longleftrightarrow> vv_walk (view w v) = Some (v, WEnd)"

text \<open>The shape of the state that does not change during a walk.\<close>

definition walker_shape :: "('v \<times> 'v) set \<Rightarrow> 'v set \<Rightarrow> ('h, 'v) Walker \<Rightarrow> bool" where
  "walker_shape D V w \<longleftrightarrow>
     dom (map_of (w_vertexMap w)) = V \<and> inj_on (ptr w) V \<and> finite V \<and> D \<subseteq> V \<times> V \<and>
     dom (map_of (w_walking w)) = ptr w ` V \<and> dom (map_of (w_waiting w)) \<subseteq> (\<lambda>v. ChDeps (ptr w v) 0) ` V \<and>
     dom (map_of (w_diagsMap w)) \<subseteq> V \<and> gmap_ok (w_diagsMap w) \<and>
     set (w_closed w) \<subseteq> range ChDone \<union> range ChStart"

definition walk_inv :: "('v \<times> 'v) set \<Rightarrow> 'v set \<Rightarrow> 'v walk_event list \<Rightarrow> ('h, 'v) Walker \<Rightarrow> bool" where
  "walk_inv D V tr w \<longleftrightarrow> walker_shape D V w \<and> (\<forall>v \<in> V. vertex_inv D tr w v) \<and>
     w_wait w = int (card {v \<in> V. \<not> ended w v})"

end
