(* ===== verification/Dag_Walker_Inv.thy ===== *)
theory Dag_Walker_Inv
  imports Dag_Walker
begin

text \<open>
  Every step of a walk keeps the invariant \<open>walk_inv\<close> of \<open>Dag_Walker\<close>.  A step changes the local
  state of one vertex only (\<open>local_step\<close>); all other vertices see at most that it is done.
  The last section shows that \<^verbatim>\<open>Update\<close> of a new walker establishes it.
\<close>

section \<open>Steps keep the invariant\<close>

lemma set_pc_sels [simp]:
  "w_Reverse (set_pc p v pc w) = w_Reverse w" "w_vertices (set_pc p v pc w) = w_vertices w"
  "w_edges (set_pc p v pc w) = w_edges w" "w_vertexMap (set_pc p v pc w) = w_vertexMap w"
  "w_wait (set_pc p v pc w) = w_wait w" "w_diagsMap (set_pc p v pc w) = w_diagsMap w"
  "w_upstreamFailed (set_pc p v pc w) = w_upstreamFailed w" "w_infos (set_pc p v pc w) = w_infos w"
  "w_next (set_pc p v pc w) = w_next w" "w_closed (set_pc p v pc w) = w_closed w"
  "w_buf (set_pc p v pc w) = w_buf w" "w_waiting (set_pc p v pc w) = w_waiting w"
  "w_walking (set_pc p v pc w) = gmap_put p (v, pc) (w_walking w)"
  by (simp_all add: set_pc_def)

lemma view_sels [simp]:
  "vv_ptr (view w v) = ptr w v" "vv_info (view w v) = gmap_get (w_infos w) (ptr w v)"
  "vv_walk (view w v) = gmap_get (w_walking w) (ptr w v)"
  "vv_wait (view w v) = gmap_get (w_waiting w) (ChDeps (ptr w v) 0)"
  "vv_start (view w v) = gmap_get (w_buf w) (ChStart (ptr w v))"
  "vv_answer (view w v) = gmap_get (w_buf w) (ChDeps (ptr w v) 0)"
  "vv_diags (view w v) = gmap_get (w_diagsMap w) v"
  "vv_failed (view w v) = (gmap_get (w_upstreamFailed w) v \<noteq> None)"
  by (simp_all add: view_def Let_def)

text \<open>A step of one of the goroutines of \<open>u\<close>, labelled \<open>e\<close>.\<close>

definition event_of :: "'v \<Rightarrow> 'v walk_event \<Rightarrow> bool" where
  "event_of u e \<longleftrightarrow> e = CallStart u \<or> (\<exists>ds. e = CallEnd u ds) \<or> e = Internal"

definition local_step :: "'v set \<Rightarrow> 'v \<Rightarrow> ('h, 'v) Walker \<Rightarrow> 'v walk_event \<Rightarrow> ('h, 'v) Walker \<Rightarrow> bool" where
  "local_step V u w e w' \<longleftrightarrow> u \<in> V \<and> event_of u e \<and> w_vertexMap w' = w_vertexMap w \<and>
     (\<forall>v \<in> V - {u}. view w' v = view w v) \<and>
     set (w_closed w) \<subseteq> set (w_closed w') \<and> set (w_closed w') \<subseteq> insert (ChDone (ptr w u)) (set (w_closed w)) \<and>
     (vertex_done w u \<longrightarrow> gmap_get (w_diagsMap w') u = gmap_get (w_diagsMap w) u)"

lemma local_step_done:
  assumes "local_step V u w e w'" "inj_on (ptr w) V" "v \<in> V"
  shows "vertex_done w v \<Longrightarrow> vertex_done w' v" "v \<noteq> u \<Longrightarrow> vertex_done w' v = vertex_done w v"
proof -
  show "vertex_done w v \<Longrightarrow> vertex_done w' v"
    using assms(1) unfolding local_step_def vertex_done_def by auto
  show "vertex_done w' v = vertex_done w v" if "v \<noteq> u"
  proof -
    have "ptr w v \<noteq> ptr w u" using assms that unfolding local_step_def inj_on_def by blast
    with assms(1) show ?thesis unfolding local_step_def vertex_done_def by auto
  qed
qed

lemma local_step_diags:
  assumes "local_step V u w e w'" "v \<in> V" "vertex_done w v"
  shows "diags_of w' v = diags_of w v"
proof (cases "v = u")
  case True
  with assms show ?thesis by (simp add: local_step_def diags_of_def)
next
  case False
  with assms have "view w' v = view w v" by (simp add: local_step_def)
  then have "vv_diags (view w' v) = vv_diags (view w v)" by simp
  then show ?thesis by (simp add: diags_of_def)
qed

lemma local_step_deps:
  assumes "local_step V u w e w'" "inj_on (ptr w) V" "D \<subseteq> V \<times> V" "deps_done D w v"
  shows "deps_done D w' v" "verdict D w' v = verdict D w v"
proof -
  have V: "d \<in> V" if "d \<in> D `` {v}" for d using assms(3) that by auto
  show "deps_done D w' v" using assms(4) local_step_done(1)[OF assms(1,2)] V by (simp add: deps_done_def)
  have "diags_of w' d = diags_of w d" if "d \<in> D `` {v}" for d
    using assms(4) local_step_diags[OF assms(1) V[OF that]] that by (simp add: deps_done_def)
  then show "verdict D w' v = verdict D w v" by (simp add: verdict_def)
qed

lemma event_of_other:
  assumes "event_of u e" "v \<noteq> u"
  shows "CallStart v \<in> set (tr @ [e]) \<longleftrightarrow> CallStart v \<in> set tr" "CallEnd v ds \<in> set (tr @ [e]) \<longleftrightarrow> CallEnd v ds \<in> set tr"
  using assms by (auto simp: event_of_def)

lemma view_eqD:
  assumes "view w' v = view w v"
  shows "ptr w' v = ptr w v" "gmap_get (w_infos w') (ptr w v) = gmap_get (w_infos w) (ptr w v)"
    "gmap_get (w_walking w') (ptr w v) = gmap_get (w_walking w) (ptr w v)"
    "gmap_get (w_waiting w') (ChDeps (ptr w v) 0) = gmap_get (w_waiting w) (ChDeps (ptr w v) 0)"
    "gmap_get (w_buf w') (ChStart (ptr w v)) = gmap_get (w_buf w) (ChStart (ptr w v))"
    "gmap_get (w_buf w') (ChDeps (ptr w v) 0) = gmap_get (w_buf w) (ChDeps (ptr w v) 0)"
    "gmap_get (w_diagsMap w') v = gmap_get (w_diagsMap w) v"
    "(gmap_get (w_upstreamFailed w') v = None) = (gmap_get (w_upstreamFailed w) v = None)"
proof -
  show p: "ptr w' v = ptr w v" using arg_cong[OF assms, of vv_ptr] by simp
  show "gmap_get (w_infos w') (ptr w v) = gmap_get (w_infos w) (ptr w v)"
    using arg_cong[OF assms, of vv_info] p by simp
  show "gmap_get (w_walking w') (ptr w v) = gmap_get (w_walking w) (ptr w v)"
    using arg_cong[OF assms, of vv_walk] p by simp
  show "gmap_get (w_waiting w') (ChDeps (ptr w v) 0) = gmap_get (w_waiting w) (ChDeps (ptr w v) 0)"
    using arg_cong[OF assms, of vv_wait] p by simp
  show "gmap_get (w_buf w') (ChStart (ptr w v)) = gmap_get (w_buf w) (ChStart (ptr w v))"
    using arg_cong[OF assms, of vv_start] p by simp
  show "gmap_get (w_buf w') (ChDeps (ptr w v) 0) = gmap_get (w_buf w) (ChDeps (ptr w v) 0)"
    using arg_cong[OF assms, of vv_answer] p by simp
  show "gmap_get (w_diagsMap w') v = gmap_get (w_diagsMap w) v"
    using arg_cong[OF assms, of vv_diags] by simp
  show "(gmap_get (w_upstreamFailed w') v = None) = (gmap_get (w_upstreamFailed w) v = None)"
    using arg_cong[OF assms, of vv_failed] unfolding view_sels by blast
qed

lemma walk_ok_other:
  assumes step: "local_step V u w e w'" and inj: "inj_on (ptr w) V" and D: "D \<subseteq> V \<times> V"
    and v: "v \<in> V" "v \<noteq> u" and ok: "walk_ok D tr w v info pc"
  shows "walk_ok D (tr @ [e]) w' v info pc"
proof -
  have view: "view w' v = view w v" and ev: "event_of u e" using step v by (auto simp: local_step_def)
  note deps = local_step_deps[OF step inj D] and vw = view_eqD[OF view]
  note tr = event_of_other[OF ev v(2)]
  show ?thesis
    using ok deps vw by (cases pc) (auto simp: tr uncalled_def outcome_def simp del: set_append)
qed

lemma wait_ok_mono:
  assumes "wait_ok D w v waits" "w_vertexMap w' = w_vertexMap w"
    and "gmap_get (w_waiting w') (ChDeps (ptr w v) 0) = gmap_get (w_waiting w) (ChDeps (ptr w v) 0)"
    and "gmap_get (w_buf w') (ChDeps (ptr w v) 0) = gmap_get (w_buf w) (ChDeps (ptr w v) 0)"
    and "\<And>d. d \<in> D `` {v} \<Longrightarrow> vertex_done w d \<Longrightarrow> vertex_done w' d"
    and "deps_done D w v \<Longrightarrow> verdict D w' v = verdict D w v"
  shows "wait_ok D w' v waits"
proof (cases "D `` {v} = {}")
  case True
  with assms(1-3) show ?thesis by (simp add: wait_ok_def)
next
  case False
  have "deps_done D w v \<Longrightarrow> deps_done D w' v" using assms(5) by (auto simp: deps_done_def)
  then have "wait_pc_ok D w' v waits deps pc" if "wait_pc_ok D w v waits deps pc" for deps pc
    using that assms by (cases pc) auto
  with False assms(1-3) show ?thesis unfolding wait_ok_def by auto
qed

lemma wait_ok_step:
  assumes step: "local_step V u w e w'" and inj: "inj_on (ptr w) V" and D: "D \<subseteq> V \<times> V"
    and ok: "wait_ok D w v waits"
    and same: "gmap_get (w_waiting w') (ChDeps (ptr w v) 0) = gmap_get (w_waiting w) (ChDeps (ptr w v) 0)"
      "gmap_get (w_buf w') (ChDeps (ptr w v) 0) = gmap_get (w_buf w) (ChDeps (ptr w v) 0)"
  shows "wait_ok D w' v waits"
proof (rule wait_ok_mono[OF ok _ same])
  show "w_vertexMap w' = w_vertexMap w" using step by (simp add: local_step_def)
  show "vertex_done w' d" if "d \<in> D `` {v}" "vertex_done w d" for d
    using local_step_done(1)[OF step inj _ that(2)] that(1) D by auto
  show "deps_done D w v \<Longrightarrow> verdict D w' v = verdict D w v" by (rule local_step_deps(2)[OF step inj D])
qed

lemma vertex_inv_other:
  assumes step: "local_step V u w e w'" and inj: "inj_on (ptr w) V" and D: "D \<subseteq> V \<times> V"
    and v: "v \<in> V" "v \<noteq> u" and inv: "vertex_inv D tr w v"
  shows "vertex_inv D (tr @ [e]) w' v"
proof -
  have view: "view w' v = view w v" using step v by (auto simp: local_step_def)
  from inv obtain info pc where i: "vv_info (view w v) = Some info" "vv_walk (view w v) = Some (v, pc)"
    "DoneCh info = ChDone (ptr w v)" "CancelCh info = ChCancel (ptr w v)"
    "DepsUpdateCh info = (if D `` {v} = {} then None else Some (ChDepsUpdate (ptr w v) 0))"
    "vertex_done w v \<longleftrightarrow> pc_ended pc" "walk_ok D tr w v info pc" "wait_ok D w v (awaiting pc)"
    unfolding vertex_inv_def by blast
  have "vertex_done w' v = vertex_done w v" by (rule local_step_done(2)[OF step inj v])
  then show ?thesis unfolding vertex_inv_def
    using i(1-6) walk_ok_other[OF step inj D v i(7)] wait_ok_step[OF step inj D i(8) view_eqD(4,6)[OF view]] view view_eqD(1)[OF view]
    by (intro exI[of _ info] exI[of _ pc]) simp
qed

lemma view_eqI:
  assumes "w_vertexMap w' = w_vertexMap w" "gmap_get (w_infos w') (ptr w v) = gmap_get (w_infos w) (ptr w v)"
    "gmap_get (w_walking w') (ptr w v) = gmap_get (w_walking w) (ptr w v)"
    "gmap_get (w_waiting w') (ChDeps (ptr w v) 0) = gmap_get (w_waiting w) (ChDeps (ptr w v) 0)"
    "gmap_get (w_buf w') (ChStart (ptr w v)) = gmap_get (w_buf w) (ChStart (ptr w v))"
    "gmap_get (w_buf w') (ChDeps (ptr w v) 0) = gmap_get (w_buf w) (ChDeps (ptr w v) 0)"
    "gmap_get (w_diagsMap w') v = gmap_get (w_diagsMap w) v"
    "gmap_get (w_upstreamFailed w') v = gmap_get (w_upstreamFailed w) v"
  shows "view w' v = view w v"
  using assms by (simp add: view_def Let_def)

lemma walk_inv_local:
  assumes inv: "walk_inv D V tr w" and step: "local_step V u w e w'"
    and doms: "dom (map_of (w_walking w')) = dom (map_of (w_walking w))" "dom (map_of (w_waiting w')) = dom (map_of (w_waiting w))"
      "dom (map_of (w_diagsMap w')) \<subseteq> insert u (dom (map_of (w_diagsMap w)))" "gmap_ok (w_diagsMap w')"
    and u: "vertex_inv D (tr @ [e]) w' u"
    and count: "ended w u \<Longrightarrow> ended w' u" "w_wait w' = w_wait w - (if ended w' u \<and> \<not> ended w u then 1 else 0)"
  shows "walk_inv D V (tr @ [e]) w'"
proof -
  from inv have shape: "walker_shape D V w" and vs: "\<forall>v \<in> V. vertex_inv D tr w v"
    and wait: "w_wait w = int (card {v \<in> V. \<not> ended w v})" by (simp_all add: walk_inv_def)
  have V: "u \<in> V" "finite V" "inj_on (ptr w) V" "D \<subseteq> V \<times> V" using shape step by (auto simp: walker_shape_def local_step_def)
  have same: "ended w' v = ended w v" if "v \<in> V" "v \<noteq> u" for v
    using step that by (simp add: local_step_def ended_def del: view_sels)
  have "vertex_inv D (tr @ [e]) w' v" if "v \<in> V" for v
    using u vertex_inv_other[OF step V(3,4) that] vs that by (cases "v = u") auto
  moreover have "walker_shape D V w'"
  proof -
    have "dom (map_of (w_diagsMap w')) \<subseteq> V"
      using order_trans[OF doms(3)] shape V(1) by (simp add: walker_shape_def)
    moreover have "set (w_closed w') \<subseteq> insert (ChDone (ptr w u)) (set (w_closed w))"
      "w_vertexMap w' = w_vertexMap w" using step by (simp_all add: local_step_def)
    moreover have "insert (ChDone (ptr w u)) (set (w_closed w)) \<subseteq> range ChDone \<union> range ChStart"
      using shape by (simp add: walker_shape_def)
    ultimately have "dom (map_of (w_diagsMap w')) \<subseteq> V" "set (w_closed w') \<subseteq> range ChDone \<union> range ChStart"
      "w_vertexMap w' = w_vertexMap w" by (blast, blast, simp)
    then show ?thesis using shape doms(1,2,4) by (simp add: walker_shape_def)
  qed
  moreover have "w_wait w' = int (card {v \<in> V. \<not> ended w' v})"
  proof (cases "ended w' u \<and> \<not> ended w u")
    case True
    then have "{v \<in> V. \<not> ended w v} = insert u {v \<in> V. \<not> ended w' v}" using same V(1) by auto
    then show ?thesis using True wait count(2) V(2) by (simp add: card_insert_if)
  next
    case False
    then have "{v \<in> V. \<not> ended w v} = {v \<in> V. \<not> ended w' v}" using same count(1) V(1) by auto
    then show ?thesis using False wait count(2) by simp
  qed
  ultimately show ?thesis by (simp add: walk_inv_def)
qed

lemma walking_vertex:
  assumes inv: "walk_inv D V tr w" and p: "gmap_get (w_walking w) p = Some (x, pc)"
  obtains info where "x \<in> V" "p = ptr w x" "gmap_get (w_infos w) p = Some info"
    "DoneCh info = ChDone p" "CancelCh info = ChCancel p"
    "DepsUpdateCh info = (if D `` {x} = {} then None else Some (ChDepsUpdate p 0))"
    "vertex_done w x \<longleftrightarrow> pc_ended pc" "walk_ok D tr w x info pc" "wait_ok D w x (awaiting pc)"
proof -
  have "p \<in> dom (map_of (w_walking w))" using p by blast
  then have "p \<in> ptr w ` V" using inv by (simp only: walk_inv_def walker_shape_def)
  then obtain u where u: "u \<in> V" "p = ptr w u" by blast
  with inv have "vertex_inv D tr w u" by (simp add: walk_inv_def)
  with u p that show ?thesis by (auto simp: vertex_inv_def)
qed

lemma waiting_vertex:
  assumes inv: "walk_inv D V tr w" and c: "gmap_get (w_waiting w) c = Some wt"
  obtains u info pc where "u \<in> V" "c = ChDeps (ptr w u) 0" "D `` {u} \<noteq> {}" "gmap_get (w_infos w) (ptr w u) = Some info"
    "gmap_get (w_walking w) (ptr w u) = Some (u, pc)" 
    "vertex_done w u \<longleftrightarrow> pc_ended pc" "walk_ok D tr w u info pc" "wait_ok D w u (awaiting pc)"
proof -
  have "c \<in> dom (map_of (w_waiting w))" using c by blast
  then have "c \<in> (\<lambda>v. ChDeps (ptr w v) 0) ` V" using inv unfolding walk_inv_def walker_shape_def by blast
  then obtain u where u: "u \<in> V" "c = ChDeps (ptr w u) 0" by blast
  with inv have "vertex_inv D tr w u" by (simp add: walk_inv_def)
  moreover have "D `` {u} \<noteq> {}" if "wait_ok D w u waits" for waits
    using that c u by (auto simp: wait_ok_def split: if_splits)
  ultimately show ?thesis using u that unfolding vertex_inv_def by auto
qed

lemma not_cancelled:
  assumes "walk_inv D V tr w"
  shows "ChCancel p \<notin> set (w_closed w)" "ChDepsUpdate p n \<notin> set (w_closed w)" "ChDepsCancel p n \<notin> set (w_closed w)"
    "ChDeps p n \<notin> set (w_closed w)"
  using assms by (auto simp: walk_inv_def walker_shape_def)

lemma ptr_neq: "walk_inv D V tr w \<Longrightarrow> u \<in> V \<Longrightarrow> v \<in> V \<Longrightarrow> v \<noteq> u \<Longrightarrow> ptr w v \<noteq> ptr w u"
  by (auto simp: walk_inv_def walker_shape_def inj_on_def)

lemma dom_put_in: "k \<in> dom (map_of m) \<Longrightarrow> dom (map_of (gmap_put k x m)) = dom (map_of m)"
  by (auto simp: update_conv' dom_def)

text \<open>A step of \<^verbatim>\<open>walkVertex\<close> for \<open>u\<close> that moves it to \<open>pc\<close> and turns the rest of the state into \<open>w1\<close>.\<close>

definition quiet :: "'v \<Rightarrow> ('h, 'v) Walker \<Rightarrow> ('h, 'v) Walker \<Rightarrow> bool" where
  "quiet u w w1 \<longleftrightarrow> w_vertexMap w1 = w_vertexMap w \<and> w_walking w1 = w_walking w \<and> w_waiting w1 = w_waiting w \<and>
     (\<forall>q. q \<noteq> ptr w u \<longrightarrow> gmap_get (w_infos w1) q = gmap_get (w_infos w) q \<and>
        gmap_get (w_buf w1) (ChStart q) = gmap_get (w_buf w) (ChStart q) \<and>
        gmap_get (w_buf w1) (ChDeps q 0) = gmap_get (w_buf w) (ChDeps q 0)) \<and>
     (\<forall>v. v \<noteq> u \<longrightarrow> gmap_get (w_diagsMap w1) v = gmap_get (w_diagsMap w) v \<and>
        gmap_get (w_upstreamFailed w1) v = gmap_get (w_upstreamFailed w) v) \<and>
     gmap_ok (w_diagsMap w1) \<and> set (w_closed w) \<subseteq> set (w_closed w1) \<and>
     set (w_closed w1) \<subseteq> insert (ChDone (ptr w u)) (set (w_closed w))"

lemma quiet_local:
  assumes inv: "walk_inv D V tr w" and u: "u \<in> V" and q: "quiet u w w1" and e: "event_of u e"
    and d: "vertex_done w u \<Longrightarrow> gmap_get (w_diagsMap w1) u = gmap_get (w_diagsMap w) u"
  shows "local_step V u w e (set_pc (ptr w u) u pc w1)"
proof -
  have "view (set_pc (ptr w u) u pc w1) v = view w v" if "v \<in> V - {u}" for v
  proof -
    have "ptr w v \<noteq> ptr w u" using ptr_neq[OF inv u] that by blast
    with q that show ?thesis by (intro view_eqI) (auto simp: quiet_def gomap_simps)
  qed
  with u q e d show ?thesis by (auto simp: local_step_def quiet_def)
qed

lemma walk_inv_set_pc:
  assumes ok: "vertex_inv D (tr @ [e]) (set_pc (ptr w u) u pc w1) u"
    and inv: "walk_inv D V tr w" and u: "u \<in> V" and q: "quiet u w w1" and e: "event_of u e"
    and d: "vertex_done w u \<Longrightarrow> gmap_get (w_diagsMap w1) u = gmap_get (w_diagsMap w) u"
    and at: "gmap_get (w_walking w) (ptr w u) = Some (u, pc0)" "pc0 \<noteq> WEnd"
    and count: "w_wait w1 = w_wait w - (if pc = WEnd then 1 else 0)"
  shows "walk_inv D V (tr @ [e]) (set_pc (ptr w u) u pc w1)"
proof (rule walk_inv_local[OF inv quiet_local[OF inv u q e d] _ _ _ _ ok])
  show "dom (map_of (w_walking (set_pc (ptr w u) u pc w1))) = dom (map_of (w_walking w))"
    using q at(1) by (simp add: quiet_def dom_put_in domI)
  show "dom (map_of (w_waiting (set_pc (ptr w u) u pc w1))) = dom (map_of (w_waiting w))"
    "gmap_ok (w_diagsMap (set_pc (ptr w u) u pc w1))" using q by (simp_all add: quiet_def)
  show "dom (map_of (w_diagsMap (set_pc (ptr w u) u pc w1))) \<subseteq> insert u (dom (map_of (w_diagsMap w)))"
    using q by (auto simp: quiet_def)
  show "ended w u \<Longrightarrow> ended (set_pc (ptr w u) u pc w1) u" using at by (simp add: ended_def)
  show "w_wait (set_pc (ptr w u) u pc w1) =
      w_wait w - (if ended (set_pc (ptr w u) u pc w1) u \<and> \<not> ended w u then 1 else 0)"
    using at count q by (simp add: ended_def quiet_def gomap_simps)
qed

lemma quiet_refl: "walk_inv D V tr w \<Longrightarrow> quiet u w w"
  by (auto simp: quiet_def walk_inv_def walker_shape_def)

lemma set_pc_done [simp]: "vertex_done (set_pc p u pc w) v = vertex_done w v"
  "deps_done D (set_pc p u pc w) v = deps_done D w v" "verdict D (set_pc p u pc w) v = verdict D w v"
  by (simp_all add: vertex_done_def deps_done_def verdict_def diags_of_def)

lemma done_frame [simp]:
  "vertex_done (w\<lparr>w_buf := b\<rparr>) v = vertex_done w v" "deps_done D (w\<lparr>w_buf := b\<rparr>) v = deps_done D w v"
  "verdict D (w\<lparr>w_buf := b\<rparr>) v = verdict D w v"
  "vertex_done (w\<lparr>w_infos := i\<rparr>) v = vertex_done w v" "deps_done D (w\<lparr>w_infos := i\<rparr>) v = deps_done D w v"
  "verdict D (w\<lparr>w_infos := i\<rparr>) v = verdict D w v"
  "vertex_done (w\<lparr>w_wait := n\<rparr>) v = vertex_done w v" "deps_done D (w\<lparr>w_wait := n\<rparr>) v = deps_done D w v"
  "verdict D (w\<lparr>w_wait := n\<rparr>) v = verdict D w v"
  "vertex_done (w\<lparr>w_waiting := x\<rparr>) v = vertex_done w v" "deps_done D (w\<lparr>w_waiting := x\<rparr>) v = deps_done D w v"
  "verdict D (w\<lparr>w_waiting := x\<rparr>) v = verdict D w v"
  by (simp_all add: vertex_done_def deps_done_def verdict_def diags_of_def)

lemma wait_ok_set_pc: "wait_ok D w v waits \<Longrightarrow> wait_ok D (set_pc p u pc w) v waits"
  by (erule wait_ok_mono) simp_all

text \<open>The steps that only move the program counter of \<open>u\<close>.\<close>

lemma walk_inv_move:
  assumes inv: "walk_inv D V tr w" and at: "gmap_get (w_walking w) p = Some (u, pc0)" "pc0 \<noteq> WEnd" "pc \<noteq> WEnd"
    and e: "event_of u e" and ended: "pc_ended pc = pc_ended pc0" and aw: "awaiting pc = awaiting pc0"
    and ok: "\<And>info. walk_ok D tr w u info pc0 \<Longrightarrow> walk_ok D (tr @ [e]) (set_pc p u pc w) u info pc"
  shows "walk_inv D V (tr @ [e]) (set_pc p u pc w)"
proof -
  from walking_vertex[OF inv at(1)] obtain info where u: "u \<in> V" "p = ptr w u" and
    i: "gmap_get (w_infos w) p = Some info" "DoneCh info = ChDone p" "CancelCh info = ChCancel p"
    "DepsUpdateCh info = (if D `` {u} = {} then None else Some (ChDepsUpdate p 0))"
    "vertex_done w u \<longleftrightarrow> pc_ended pc0" "walk_ok D tr w u info pc0" "wait_ok D w u (awaiting pc0)" by blast
  have wt: "wait_ok D (set_pc p u pc w) u (awaiting pc)"
    using wait_ok_set_pc[OF i(7)] aw by simp
  have "vertex_inv D (tr @ [e]) (set_pc p u pc w) u"
    unfolding vertex_inv_def using i ok[OF i(6)] wt ended u
    by (intro exI[of _ info] exI[of _ pc]) (simp add: gomap_simps)
  then show ?thesis unfolding u(2)
    by (rule walk_inv_set_pc[OF _ inv u(1) quiet_refl[OF inv] e _ at(1)[unfolded u(2)] at(2)])
       (simp_all add: at(3) u(2)[symmetric])
qed

lemma uncalled_outcome:
  "uncalled u tr \<Longrightarrow> outcome u (tr @ [Internal]) upstream_diags True"
  "CallStart u \<in> set tr \<Longrightarrow> \<forall>ds. CallEnd u ds \<notin> set tr \<Longrightarrow> outcome u (tr @ [CallEnd u ds]) ds False"
  by (auto simp: uncalled_def outcome_def)

lemma walk_inv_check_call:
  assumes inv: "walk_inv D V tr w" and at: "gmap_get (w_walking w) p = Some (u, WCheck True)"
  shows "walk_inv D V (tr @ [CallStart u]) (set_pc p u WCall w)"
  by (rule walk_inv_move[OF inv at]) (auto simp: event_of_def uncalled_def)

lemma walk_inv_check_skip:
  assumes inv: "walk_inv D V tr w" and at: "gmap_get (w_walking w) p = Some (u, WCheck False)"
  shows "walk_inv D V (tr @ [Internal]) (set_pc p u (WRecord upstream_diags True) w)"
  by (rule walk_inv_move[OF inv at]) (auto simp: event_of_def uncalled_outcome)

lemma walk_inv_call_return:
  assumes inv: "walk_inv D V tr w" and at: "gmap_get (w_walking w) p = Some (u, WCall)"
  shows "walk_inv D V (tr @ [CallEnd u ds]) (set_pc p u (WRecord ds False) w)"
  by (rule walk_inv_move[OF inv at]) (auto simp: event_of_def uncalled_outcome)

lemma walk_inv_wait_done:
  assumes inv: "walk_inv D V tr w" and at: "gmap_get (w_walking w) p = Some (u, WWaitDone)"
  shows "walk_inv D V (tr @ [Internal]) (set_pc p u WEnd (w\<lparr>w_wait := w_wait w - 1\<rparr>))"
proof -
  from walking_vertex[OF inv at] obtain info where u: "u \<in> V" "p = ptr w u" and
    i: "gmap_get (w_infos w) p = Some info" "DoneCh info = ChDone p" "CancelCh info = ChCancel p"
    "DepsUpdateCh info = (if D `` {u} = {} then None else Some (ChDepsUpdate p 0))"
    "vertex_done w u" "walk_ok D tr w u info WWaitDone" "wait_ok D w u False" by auto
  let ?w = "w\<lparr>w_wait := w_wait w - 1\<rparr>"
  have q: "quiet u w ?w" using quiet_refl[OF inv, of u] by (simp add: quiet_def)
  have "wait_ok D ?w u False" by (rule wait_ok_mono[OF i(7)]) simp_all
  then have "wait_ok D (set_pc p u WEnd ?w) u False" by (rule wait_ok_set_pc)
  then have "vertex_inv D (tr @ [Internal]) (set_pc p u WEnd ?w) u"
    unfolding vertex_inv_def using i u
    by (intro exI[of _ info] exI[of _ WEnd]) (auto simp: gomap_simps outcome_def)
  then show ?thesis unfolding u(2)
    by (rule walk_inv_set_pc[OF _ inv u(1) q _ _ at[unfolded u(2)]]) (simp_all add: event_of_def u(2)[symmetric])
qed

lemma walk_inv_close_done:
  assumes inv: "walk_inv D V tr w" and at: "gmap_get (w_walking w) p = Some (u, WClose)"
    and info: "gmap_get (w_infos w) p = Some info"
  shows "walk_inv D V (tr @ [Internal]) (set_pc p u WWaitDone (w\<lparr>w_closed := DoneCh info # w_closed w\<rparr>))"
proof -
  from walking_vertex[OF inv at] obtain info' where "gmap_get (w_infos w) p = Some info'" and u: "u \<in> V" "p = ptr w u" and
    i': "DoneCh info' = ChDone p" "CancelCh info' = ChCancel p"
    "DepsUpdateCh info' = (if D `` {u} = {} then None else Some (ChDepsUpdate p 0))"
    "walk_ok D tr w u info' WClose" "wait_ok D w u (awaiting WClose)" by blast
  with info have "info' = info" by simp
  note i = i'[unfolded this awaiting.simps]
  let ?w = "w\<lparr>w_closed := DoneCh info # w_closed w\<rparr>"
  let ?w' = "set_pc p u WWaitDone ?w"
  have q: "quiet u w ?w" using quiet_refl[OF inv, of u] i u by (auto simp: quiet_def)
  have step: "local_step V u w Internal ?w'"
    unfolding u(2) by (rule quiet_local[OF inv u(1) q]) (simp_all add: event_of_def)
  have D: "inj_on (ptr w) V" "D \<subseteq> V \<times> V" using inv by (auto simp: walk_inv_def walker_shape_def)
  have deps: "deps_done D ?w' u" "verdict D ?w' u = verdict D w u"
    using i(4) local_step_deps[OF step D] by auto
  have don: "vertex_done ?w' u" using i(1) u(2) by (simp add: vertex_done_def)
  have "wait_ok D ?w' u False" by (rule wait_ok_step[OF step D i(5)]) simp_all
  with deps don have "vertex_inv D (tr @ [Internal]) ?w' u"
    unfolding vertex_inv_def using i u info
    by (intro exI[of _ info] exI[of _ WWaitDone]) (auto simp: gomap_simps outcome_def)
  then show ?thesis unfolding u(2)
    by (rule walk_inv_set_pc[OF _ inv u(1) q _ _ at[unfolded u(2)]]) (simp_all add: event_of_def u(2)[symmetric])
qed

lemma walk_inv_record:
  assumes inv: "walk_inv D V tr w" and at: "gmap_get (w_walking w) p = Some (u, WRecord ds failed)"
  shows "walk_inv D V (tr @ [Internal]) (walk_record p u ds failed w)"
proof -
  from walking_vertex[OF inv at] obtain info where u: "u \<in> V" "p = ptr w u" and
    i: "gmap_get (w_infos w) p = Some info" "DoneCh info = ChDone p" "CancelCh info = ChCancel p"
    "DepsUpdateCh info = (if D `` {u} = {} then None else Some (ChDepsUpdate p 0))"
    "\<not> vertex_done w u" "walk_ok D tr w u info (WRecord ds failed)" "wait_ok D w u False" by auto
  let ?w = "w\<lparr>w_diagsMap := gmap_put u ds (w_diagsMap w),
    w_upstreamFailed := (if failed then gmap_put u () (w_upstreamFailed w) else w_upstreamFailed w)\<rparr>"
  let ?w' = "set_pc p u WClose ?w"
  have w': "walk_record p u ds failed w = ?w'" by (simp add: walk_record_def)
  have q: "quiet u w ?w" using quiet_refl[OF inv, of u] by (auto simp: quiet_def gomap_simps)
  have step: "local_step V u w Internal ?w'"
    unfolding u(2) by (rule quiet_local[OF inv u(1) q]) (use i(5) in \<open>simp_all add: event_of_def\<close>)
  have D: "inj_on (ptr w) V" "D \<subseteq> V \<times> V" using inv by (auto simp: walk_inv_def walker_shape_def)
  have deps: "deps_done D ?w' u" "verdict D ?w' u = verdict D w u"
    using i(6) local_step_deps[OF step D] by auto
  have don: "\<not> vertex_done ?w' u" using i(5) by (simp add: vertex_done_def)
  have "wait_ok D ?w' u False" by (rule wait_ok_step[OF step D i(7)]) simp_all
  with deps don have "vertex_inv D (tr @ [Internal]) ?w' u"
    unfolding vertex_inv_def using i u
    by (intro exI[of _ info] exI[of _ WClose]) (auto simp: gomap_simps outcome_def)
  then show ?thesis unfolding w' unfolding u(2)
    by (rule walk_inv_set_pc[OF _ inv u(1) q _ _ at[unfolded u(2)]])
       (use i(5) in \<open>simp_all add: event_of_def u(2)[symmetric]\<close>)
qed

lemma walk_inv_select:
  assumes inv: "walk_inv D V tr w" and at: "gmap_get (w_walking w) p = Some (u, WSelect ok (Some c) uc)"
    and buf: "gmap_get (w_buf w) c = Some b"
  shows "walk_inv D V (tr @ [Internal]) (set_pc p u (WDeps b None uc) (w\<lparr>w_buf := gmap_del c (w_buf w)\<rparr>))"
proof -
  from walking_vertex[OF inv at] obtain info where u: "u \<in> V" "p = ptr w u" and
    i: "gmap_get (w_infos w) p = Some info" "DoneCh info = ChDone p" "CancelCh info = ChCancel p"
    "DepsUpdateCh info = (if D `` {u} = {} then None else Some (ChDepsUpdate p 0))"
    "\<not> vertex_done w u" "walk_ok D tr w u info (WSelect ok (Some c) uc)" "wait_ok D w u True" by auto
  let ?w = "w\<lparr>w_buf := gmap_del c (w_buf w)\<rparr>"
  let ?w' = "set_pc p u (WDeps b None uc) ?w"
  have c: "c = ChStart p \<or> c = ChDeps p 0" using i(6) u by auto
  have q: "quiet u w ?w" using quiet_refl[OF inv, of u] c u by (auto simp: quiet_def gomap_simps)
  have "walk_ok D (tr @ [Internal]) ?w' u info (WDeps b None uc) \<and> wait_ok D ?w' u (awaiting (WDeps b None uc))"
  proof (cases "c = ChStart p")
    case True
    then have st: "uc = None" "b" "DepsCh info = first_deps (D `` {u} \<noteq> {}) p" using i(6) u buf by auto
    have "wait_ok D ?w' u True" by (rule wait_ok_mono[OF i(7)]) (simp_all add: True gomap_simps)
    with st i(6) u show ?thesis by (auto simp: uncalled_def)
  next
    case False
    with c i(6) u have st: "D `` {u} \<noteq> {}" "c = ChDeps p 0" "uc = Some (ChDepsUpdate p 0)" "DepsCh info = None" by auto
    with i(7) u obtain wt where wt: "gmap_get (w_waiting w) (ChDeps p 0) = Some wt" "wt_cancel wt = ChDepsCancel p 0"
      "gmap_ok (wt_deps wt)" "set (wt_deps wt) = (\<lambda>d. (d, ChDone (ptr w d))) ` (D `` {u})"
      "wait_pc_ok D w u True (wt_deps wt) (wt_pc wt)" unfolding wait_ok_def by auto
    have sent: "wt_pc wt = DSent" "deps_done D w u" "b = verdict D w u"
      using wt(5) buf st u by (cases "wt_pc wt"; simp)+
    have "wait_ok D ?w' u False"
      using st wt(1-4) sent u by (auto simp: wait_ok_def gomap_simps)
    with st sent i(6) u show ?thesis by (auto simp: uncalled_def)
  qed
  with i u have "vertex_inv D (tr @ [Internal]) ?w' u"
    unfolding vertex_inv_def
    by (intro exI[of _ info] exI[of _ "WDeps b None uc"]) (simp add: gomap_simps)
  then show ?thesis unfolding u(2)
    by (rule walk_inv_set_pc[OF _ inv u(1) q _ _ at[unfolded u(2)]]) (simp_all add: event_of_def u(2)[symmetric])
qed

lemma walk_inv_lock_deps:
  assumes inv: "walk_inv D V tr w" and at: "gmap_get (w_walking w) p = Some (u, WDeps ok dc uc)"
    and info: "gmap_get (w_infos w) p = Some info"
  shows "walk_inv D V (tr @ [Internal]) (walk_lock_deps p u ok dc uc info w)"
proof -
  obtain info' where u: "u \<in> V" "p = ptr w u" and info': "gmap_get (w_infos w) p = Some info'" and
    i': "DoneCh info' = ChDone p" "CancelCh info' = ChCancel p"
    "DepsUpdateCh info' = (if D `` {u} = {} then None else Some (ChDepsUpdate p 0))"
    "vertex_done w u \<longleftrightarrow> pc_ended (WDeps ok dc uc)"
    "walk_ok D tr w u info' (WDeps ok dc uc)" "wait_ok D w u (awaiting (WDeps ok dc uc))"
    by (rule walking_vertex[OF inv at])
  have "info' = info" using info info' by simp
  note i = i'[unfolded this awaiting.simps pc_ended.simps]
  let ?w = "w\<lparr>w_infos := gmap_put p (info\<lparr>DepsCh := None\<rparr>) (w_infos w)\<rparr>"
  define pc where "pc = (if D `` {u} \<noteq> {} \<and> uc = None then WSelect ok (Some (ChDeps p 0)) (Some (ChDepsUpdate p 0)) else WCheck ok)"
  have w': "walk_lock_deps p u ok dc uc info w = set_pc p u pc ?w"
    using i(3,5) u(2) by (cases "D `` {u} = {}"; cases uc) (simp_all add: walk_lock_deps_def pc_def first_deps_def)
  have q: "quiet u w ?w" using quiet_refl[OF inv, of u] u by (auto simp: quiet_def gomap_simps)
  have wk: "walk_ok D (tr @ [Internal]) (set_pc p u pc ?w) u (info\<lparr>DepsCh := None\<rparr>) pc"
  proof (cases "D `` {u} = {}")
    case True
    then have "deps_done D w u" "verdict D w u" by (simp_all add: deps_done_def verdict_def)
    with i(5) True show ?thesis by (auto simp: pc_def uncalled_def)
  next
    case False
    with i(5) u show ?thesis by (auto simp: pc_def uncalled_def)
  qed
  have "wait_ok D w u (awaiting pc)"
  proof (cases "D `` {u} = {}")
    case True
    then show ?thesis using i(6) by (simp add: wait_ok_def)
  next
    case False
    then have "awaiting pc = (uc = None)" by (simp add: pc_def)
    with i(6) show ?thesis by simp
  qed
  then have wt: "wait_ok D (set_pc p u pc ?w) u (awaiting pc)" by (rule wait_ok_mono) simp_all
  have "\<not> pc_ended pc" "pc \<noteq> WEnd" by (auto simp: pc_def)
  with i u wk wt have "vertex_inv D (tr @ [Internal]) (set_pc p u pc ?w) u"
    unfolding vertex_inv_def
    by (intro exI[of _ "info\<lparr>DepsCh := None\<rparr>"] exI[of _ pc]) (simp add: gomap_simps)
  then show ?thesis unfolding w' unfolding u(2)
    by (rule walk_inv_set_pc[OF _ inv u(1) q[unfolded u(2)] _ _ at[unfolded u(2)]])
       (simp_all add: event_of_def \<open>pc \<noteq> WEnd\<close> u(2)[symmetric])
qed

text \<open>A step of \<^verbatim>\<open>waitDeps\<close> for \<open>u\<close>.\<close>

lemma walk_inv_waiter:
  assumes inv: "walk_inv D V tr w" and u: "u \<in> V" and wt: "gmap_get (w_waiting w) (ChDeps (ptr w u) 0) = Some wt"
    and ne: "D `` {u} \<noteq> {}" and old: "wt_pc wt = DWait rest"
    and new: "b = None \<and> pc' = DWait rest' \<and> set rest' \<subseteq> set rest \<and> (\<forall>d \<in> fst ` set rest - fst ` set rest'. vertex_done w d) \<or>
      rest = [] \<and> pc' = DSent \<and> b = Some (verdict D w u)"
    and w': "w' = w\<lparr>w_buf := (case b of None \<Rightarrow> w_buf w | Some x \<Rightarrow> gmap_put (ChDeps (ptr w u) 0) x (w_buf w)),
      w_waiting := gmap_put (ChDeps (ptr w u) 0) (wt\<lparr>wt_pc := pc'\<rparr>) (w_waiting w)\<rparr>"
  shows "walk_inv D V (tr @ [Internal]) w'"
proof -
  from waiting_vertex[OF inv wt] obtain u' info pc where "u' \<in> V" "ChDeps (ptr w u) 0 = ChDeps (ptr w u') 0"
    and i': "gmap_get (w_infos w) (ptr w u') = Some info" "gmap_get (w_walking w) (ptr w u') = Some (u', pc)" 
    "vertex_done w u' \<longleftrightarrow> pc_ended pc" "walk_ok D tr w u' info pc" "wait_ok D w u' (awaiting pc)" by blast
  then have "u' = u" using ptr_neq[OF inv u, of u'] by auto
  note i = i'[unfolded this]
  have same: "vertex_done w' v = vertex_done w v" "deps_done D w' v = deps_done D w v" "verdict D w' v = verdict D w v" for v
    by (simp_all add: w' vertex_done_def deps_done_def verdict_def diags_of_def)
  have ptrs: "ptr w' v = ptr w v" for v by (simp add: w')
  have buf: "gmap_get (w_buf w') (ChDeps q 0) = (if q = ptr w u \<and> b \<noteq> None then b else gmap_get (w_buf w) (ChDeps q 0))"
    "gmap_get (w_buf w') (ChStart q) = gmap_get (w_buf w) (ChStart q)" for q
    by (auto simp: w' gomap_simps split: option.split)
  have step: "local_step V u w Internal w'"
  proof -
    have "view w' v = view w v" if "v \<in> V - {u}" for v
    proof -
      have "ptr w v \<noteq> ptr w u" using ptr_neq[OF inv u] that by blast
      with buf show ?thesis by (intro view_eqI) (auto simp: w' gomap_simps split: option.splits)
    qed
    with u show ?thesis by (auto simp: local_step_def event_of_def w')
  qed
  from i(5) ne wt have st: "wt_cancel wt = ChDepsCancel (ptr w u) 0" "gmap_ok (wt_deps wt)"
    "set (wt_deps wt) = (\<lambda>d. (d, ChDone (ptr w d))) ` (D `` {u})" "wait_pc_ok D w u (awaiting pc) (wt_deps wt) (DWait rest)"
    unfolding wait_ok_def using old by auto
  have "wait_pc_ok D w' u (awaiting pc) (wt_deps wt) pc'"
  proof (cases pc')
    case (DWait r)
    then have "wait_pc_ok D w' u (awaiting pc) (wt_deps wt) (DWait rest')" using new st(4) buf same ptrs by auto
    with DWait new show ?thesis by auto
  next
    case DSent
    with new st(4) buf same ptrs show ?thesis by (auto simp: deps_done_def)
  qed
  then have wk: "wait_ok D w' u (awaiting pc)"
    using ne st(1-3) unfolding wait_ok_def by (auto simp: w' gomap_simps)
  have "walk_ok D (tr @ [Internal]) w' u info pc"
    using i(4) same buf by (cases pc) (auto simp: w' uncalled_def outcome_def)
  moreover have "\<exists>info'. gmap_get (w_infos w) (ptr w u) = Some info' \<and> DoneCh info' = ChDone (ptr w u) \<and> CancelCh info' = ChCancel (ptr w u) \<and>
      DepsUpdateCh info' = (if D `` {u} = {} then None else Some (ChDepsUpdate (ptr w u) 0))"
    using walking_vertex[OF inv i(2)] by blast
  ultimately have "vertex_inv D (tr @ [Internal]) w' u"
    unfolding vertex_inv_def using wk i same
    by (intro exI[of _ info] exI[of _ pc]) (auto simp: w')
  moreover have "gmap_ok (w_diagsMap w)" using inv by (simp add: walk_inv_def walker_shape_def)
  moreover have "dom (map_of (w_waiting w')) = dom (map_of (w_waiting w))" using wt by (simp add: w' dom_put_in domI)
  ultimately show ?thesis by (intro walk_inv_local[OF inv step]) (auto simp: w' ended_def)
qed

lemma waiter_facts:
  assumes inv: "walk_inv D V tr w" and c: "gmap_get (w_waiting w) c = Some wt"
  obtains u where "u \<in> V" "c = ChDeps (ptr w u) 0" "D `` {u} \<noteq> {}" "wt_cancel wt = ChDepsCancel (ptr w u) 0"
    "set (wt_deps wt) = (\<lambda>d. (d, ChDone (ptr w d))) ` (D `` {u})" "deps_ok w (wt_deps wt) = verdict D w u"
    "\<And>rest. wt_pc wt = DWait rest \<Longrightarrow> set rest \<subseteq> set (wt_deps wt)"
proof -
  obtain u info pc where u: "u \<in> V" "c = ChDeps (ptr w u) 0" "D `` {u} \<noteq> {}" and
    i: "gmap_get (w_infos w) (ptr w u) = Some info" "gmap_get (w_walking w) (ptr w u) = Some (u, pc)" 
    "vertex_done w u \<longleftrightarrow> pc_ended pc" "walk_ok D tr w u info pc" "wait_ok D w u (awaiting pc)"
    by (rule waiting_vertex[OF inv c])
  from i(5) u c have st: "wt_cancel wt = ChDepsCancel (ptr w u) 0"
    "set (wt_deps wt) = (\<lambda>d. (d, ChDone (ptr w d))) ` (D `` {u})" "wait_pc_ok D w u (awaiting pc) (wt_deps wt) (wt_pc wt)"
    unfolding wait_ok_def by auto
  have "deps_ok w (wt_deps wt) = verdict D w u"
    unfolding deps_ok_def verdict_def list_all_iff st(2) by auto
  moreover have "set rest \<subseteq> set (wt_deps wt)" if "wt_pc wt = DWait rest" for rest using st(3) that by simp
  ultimately show ?thesis using that u st by blast
qed

lemma cancel_open:
  assumes inv: "walk_inv D V tr w" and "gmap_get (w_walking w) p = Some (v, pc)" "gmap_get (w_infos w) p = Some info"
  shows "CancelCh info \<notin> set (w_closed w)"
proof -
  obtain info' where "gmap_get (w_infos w) p = Some info'" "CancelCh info' = ChCancel p"
    by (rule walking_vertex[OF inv assms(2)]) blast
  with assms(3) not_cancelled(1)[OF inv] show ?thesis by simp
qed

lemma select_channels:
  assumes inv: "walk_inv D V tr w" and at: "gmap_get (w_walking w) p = Some (v, WSelect ok dc uc)"
  shows "dc = Some (ChStart p) \<and> uc = None \<and> gmap_get (w_buf w) (ChStart p) = Some True \<or>
    dc = Some (ChDeps p 0) \<and> uc = Some (ChDepsUpdate p 0)"
proof -
  obtain info where "p = ptr w v" "walk_ok D tr w v info (WSelect ok dc uc)"
    by (rule walking_vertex[OF inv at]) blast
  then show ?thesis by auto
qed

lemma walk_inv_step:
  assumes inv: "walk_inv D V tr w" and step: "walk_step cb w e w'"
  shows "walk_inv D V (tr @ [e]) w'"
  using step
proof cases
  case (select_cancel p v ok dc uc info)
  then show ?thesis using cancel_open[OF inv select_cancel(3,4)] by simp
next
  case (select_deps p v ok c uc b)
  then show ?thesis using walk_inv_select[OF inv] by simp
next
  case (select_deps_closed p v ok c uc)
  then show ?thesis using select_channels[OF inv select_deps_closed(3)] not_cancelled[OF inv] by auto
next
  case (select_update p v ok dc u)
  then show ?thesis using select_channels[OF inv select_update(3)] not_cancelled[OF inv] by auto
next
  case (lock_deps p v ok dc uc info)
  then show ?thesis using walk_inv_lock_deps[OF inv] by simp
next
  case (check_cancel p v ok info)
  then show ?thesis using cancel_open[OF inv check_cancel(3,4)] by simp
next
  case (check_call p v info)
  then show ?thesis using walk_inv_check_call[OF inv] by simp
next
  case (check_skip p v info)
  then show ?thesis using walk_inv_check_skip[OF inv] by simp
next
  case (call_return p v ds)
  then show ?thesis using walk_inv_call_return[OF inv] by simp
next
  case (record_result p v ds failed)
  then show ?thesis using walk_inv_record[OF inv] by simp
next
  case (close_done p v info)
  then show ?thesis using walk_inv_close_done[OF inv] by simp
next
  case (wait_done p v)
  then show ?thesis using walk_inv_wait_done[OF inv] by simp
next
  case (dep_satisfied c wt d dc rest)
  obtain u where u: "u \<in> V" "c = ChDeps (ptr w u) 0" "D `` {u} \<noteq> {}" "wt_cancel wt = ChDepsCancel (ptr w u) 0"
    "set (wt_deps wt) = (\<lambda>d. (d, ChDone (ptr w d))) ` (D `` {u})" "deps_ok w (wt_deps wt) = verdict D w u"
    "\<And>rest. wt_pc wt = DWait rest \<Longrightarrow> set rest \<subseteq> set (wt_deps wt)"
    by (rule waiter_facts[OF inv dep_satisfied(3)]) blast
  have "dc = ChDone (ptr w d)" using u(5) u(7)[OF dep_satisfied(4)] by auto
  then have "vertex_done w d" using dep_satisfied(5) by (simp add: vertex_done_def)
  then show ?thesis unfolding dep_satisfied(1)
    by (intro walk_inv_waiter[OF inv u(1) _ u(3) dep_satisfied(4), where b = None and rest' = rest and pc' = "DWait rest"])
       (use u(2) dep_satisfied in auto)
next
  case (dep_cancel c wt d rest)
  obtain u where "wt_cancel wt = ChDepsCancel (ptr w u) 0"
    by (rule waiter_facts[OF inv dep_cancel(3)]) blast
  then show ?thesis using dep_cancel not_cancelled[OF inv] by auto
next
  case (deps_complete c wt)
  obtain u where u: "u \<in> V" "c = ChDeps (ptr w u) 0" "D `` {u} \<noteq> {}" "wt_cancel wt = ChDepsCancel (ptr w u) 0"
    "set (wt_deps wt) = (\<lambda>d. (d, ChDone (ptr w d))) ` (D `` {u})" "deps_ok w (wt_deps wt) = verdict D w u"
    "\<And>rest. wt_pc wt = DWait rest \<Longrightarrow> set rest \<subseteq> set (wt_deps wt)"
    by (rule waiter_facts[OF inv deps_complete(3)]) blast
  show ?thesis unfolding deps_complete(1)
    by (intro walk_inv_waiter[OF inv u(1) _ u(3) deps_complete(4), where b = "Some (verdict D w u)" and pc' = DSent])
       (use u deps_complete in \<open>simp_all add: wait_send_def\<close>)
qed

lemma walk_inv_run:
  assumes "walk_inv D V [] w0" "walk_run cb w0 tr w"
  shows "walk_inv D V tr w"
  using assms(2,1) by induction (auto intro: walk_inv_step)

section \<open>The invariant holds when a walk starts\<close>

definition info0 :: "nat \<Rightarrow> ('v, chan) gomap \<Rightarrow> 'v walkerVertex" where
  "info0 p m = \<lparr>DoneCh = ChDone p, CancelCh = ChCancel p, DepsCh = None, DepsUpdateCh = None,
     wv_deps = m, depsCancelCh = None, depsGen = 0\<rparr>"

text \<open>The state after the vertices \<open>V\<close> and the dependencies \<open>E\<close> were added to a new walker.\<close>

definition idle :: "('h, 'v) Walker \<Rightarrow> bool" where
  "idle w \<longleftrightarrow> w_diagsMap w = [] \<and> w_upstreamFailed w = [] \<and> w_closed w = [] \<and> w_buf w = [] \<and> w_walking w = [] \<and> w_waiting w = []"

definition wired :: "bool \<Rightarrow> 'v set \<Rightarrow> ('v \<times> 'v) set \<Rightarrow> ('h, 'v) Walker \<Rightarrow> bool" where
  "wired reverse V E w \<longleftrightarrow> idle w \<and> w_Reverse w = reverse \<and> dom (map_of (w_vertexMap w)) = V \<and> inj_on (ptr w) V \<and>
     w_wait w = int (card V) \<and> (\<forall>v \<in> V. ptr w v < w_next w) \<and>
     (\<forall>v \<in> V. \<exists>m. gmap_get (w_infos w) (ptr w v) = Some (info0 (ptr w v) m) \<and> gmap_ok m \<and>
        set m = (\<lambda>d. (d, ChDone (ptr w d))) ` (E `` {v}))"

lemma wired_info:
  assumes "wired reverse V E w" "v \<in> V"
  obtains m where "gmap_get (w_infos w) (ptr w v) = Some (info0 (ptr w v) m)" "gmap_ok m"
    "set m = (\<lambda>d. (d, ChDone (ptr w d))) ` (E `` {v})"
  using assms unfolding wired_def by blast

lemma walker_info_Some:
  "v \<in> dom (map_of (w_vertexMap w)) \<Longrightarrow> gmap_get (w_infos w) (ptr w v) = Some i \<Longrightarrow> walker_info w v = Some (ptr w v, i)"
  by (auto simp: walker_info_def)

lemma wired_new: "wired reverse {} {} (newWalker reverse)"
  by (simp add: wired_def idle_def newWalker_def)

lemma wired_newVertex:
  assumes w: "wired reverse V {} w" and v: "v \<notin> V" "finite V"
  shows "wired reverse (insert v V) {} (update_newVertex hc w v)"
proof -
  let ?w = "update_newVertex hc w v"
  have old: "ptr ?w x = ptr w x \<and> ptr w x < w_next w" if "x \<in> V" for x
    using w v that by (auto simp: wired_def update_newVertex_def Let_def gomap_simps)
  have new: "ptr ?w v = w_next w" by (simp add: update_newVertex_def Let_def gomap_simps)
  have "inj_on (ptr w) V" using w by (simp add: wired_def)
  then have "inj_on (ptr ?w) V" using old inj_on_cong[of V "ptr ?w" "ptr w"] by simp
  moreover have "ptr ?w v \<notin> ptr ?w ` V" using old new by force
  ultimately have "inj_on (ptr ?w) (insert v V)" using v(1) by simp
  moreover have "dom (map_of (w_vertexMap ?w)) = insert v V"
    using w by (auto simp: wired_def update_newVertex_def Let_def update_conv')
  moreover have "\<exists>m. gmap_get (w_infos ?w) (ptr ?w x) = Some (info0 (ptr ?w x) m) \<and> gmap_ok m \<and> set m = {}" if "x \<in> insert v V" for x
  proof (cases "x = v")
    case True
    then show ?thesis using new
      by (intro exI[of _ "[]"]) (simp add: update_newVertex_def Let_def gomap_simps info0_def gmap_ok_def)
  next
    case False
    with that have x: "x \<in> V" by simp
    obtain m where m: "gmap_get (w_infos w) (ptr w x) = Some (info0 (ptr w x) m)" "gmap_ok m" "set m = {}"
      by (rule wired_info[OF w x]) simp
    have "w_infos ?w = gmap_put (w_next w) (info0 (w_next w) []) (w_infos w)"
      by (simp add: update_newVertex_def Let_def info0_def)
    with m old[OF x] show ?thesis by (simp add: gomap_simps)
  qed
  moreover have "ptr ?w x < w_next ?w" if "x \<in> insert v V" for x
    using old[of x] new that by (cases "x = v") (auto simp: update_newVertex_def Let_def)
  moreover have "idle ?w" "w_Reverse ?w = reverse" "w_wait ?w = int (card (insert v V))"
    using w v by (simp_all add: wired_def idle_def update_newVertex_def Let_def)
  ultimately show ?thesis unfolding wired_def Image_empty1 image_empty by (intro conjI ballI) assumption+
qed

lemma wired_newVertices:
  "distinct vs \<Longrightarrow> wired reverse (set vs) {} (foldl (update_newVertex hc) (newWalker reverse) vs)"
proof (induction vs rule: rev_induct)
  case Nil
  show ?case by (simp add: wired_new)
next
  case (snoc v vs)
  then show ?case using wired_newVertex[of reverse "set vs" "foldl (update_newVertex hc) (newWalker reverse) vs" v hc] by simp
qed

lemma wired_newEdge:
  assumes w: "wired reverse V E w" and inj: "inj hc" and ch: "dset_wf hc ch" "dset_elems ch = Domain E"
    and e: "(a, b) = (if reverse then (edge_S e, edge_T e) else (edge_T e, edge_S e))" "a \<in> V" "b \<in> V"
  shows "case update_newEdge hc (w, ch) e of (w', ch') \<Rightarrow>
    wired reverse V (insert (a, b) E) w' \<and> dset_wf hc ch' \<and> dset_elems ch' = Domain (insert (a, b) E)"
proof -
  let ?p = "ptr w a"
  have dom: "a \<in> dom (map_of (w_vertexMap w))" "b \<in> dom (map_of (w_vertexMap w))"
    using w e(2,3) by (simp_all add: wired_def)
  obtain m where m: "gmap_get (w_infos w) ?p = Some (info0 ?p m)" "gmap_ok m"
    "set m = (\<lambda>d. (d, ChDone (ptr w d))) ` (E `` {a})" by (rule wired_info[OF w e(2)])
  obtain mb where mb: "gmap_get (w_infos w) (ptr w b) = Some (info0 (ptr w b) mb)" by (rule wired_info[OF w e(3)])
  let ?m = "gmap_put b (ChDone (ptr w b)) m"
  let ?w = "w\<lparr>w_infos := gmap_put ?p (info0 ?p ?m) (w_infos w), w_edges := set_Add edge_Hashcode (w_edges w) e\<rparr>"
  have parts: "edgeParts w e = (a, b)" using w e(1) by (auto simp: edgeParts_def wired_def)
  have upd: "update_newEdge hc (w, ch) e = (?w, set_Add hc ch a)"
    using walker_info_Some[OF dom(1) m(1)] walker_info_Some[OF dom(2) mb]
    by (simp add: update_newEdge_def parts info0_def)
  have setm: "set ?m = (\<lambda>d. (d, ChDone (ptr w d))) ` (insert (a, b) E `` {a})"
    using m(2,3) by (auto simp: set_update_iff)
  have "\<exists>m. gmap_get (w_infos ?w) (ptr ?w v) = Some (info0 (ptr ?w v) m) \<and> gmap_ok m \<and>
      set m = (\<lambda>d. (d, ChDone (ptr ?w d))) ` (insert (a, b) E `` {v})" if v: "v \<in> V" for v
  proof (cases "v = a")
    case True
    then show ?thesis using setm m(2) by (intro exI[of _ ?m]) (simp add: gomap_simps)
  next
    case False
    with w e(2) v have "ptr w v \<noteq> ?p" by (auto simp: wired_def inj_on_def)
    moreover have "insert (a, b) E `` {v} = E `` {v}" using False by auto
    ultimately show ?thesis using w v by (auto simp: wired_def gomap_simps)
  qed
  then have "wired reverse V (insert (a, b) E) ?w" using w by (simp add: wired_def idle_def)
  with upd ch inj show ?thesis by (auto simp: set_Add_wf dset_simps)
qed

definition edge_dep :: "bool \<Rightarrow> 'v basicEdge \<Rightarrow> 'v \<times> 'v" where
  "edge_dep reverse e = (if reverse then (edge_S e, edge_T e) else (edge_T e, edge_S e))"

lemma wired_newEdges:
  assumes w: "wired reverse V {} w" and inj: "inj hc" and es: "edge_dep reverse ` set es \<subseteq> V \<times> V"
  shows "case foldl (update_newEdge hc) (w, []) es of (w', ch) \<Rightarrow>
    wired reverse V (edge_dep reverse ` set es) w' \<and> dset_wf hc ch \<and> dset_elems ch = Domain (edge_dep reverse ` set es)"
  using es
proof (induction es rule: rev_induct)
  case Nil
  with w show ?case by simp
next
  case (snoc e es)
  obtain w' ch where f: "foldl (update_newEdge hc) (w, []) es = (w', ch)" by fastforce
  obtain a b where ab: "edge_dep reverse e = (a, b)" by fastforce
  from snoc f have IH: "wired reverse V (edge_dep reverse ` set es) w'" "dset_wf hc ch" "dset_elems ch = Domain (edge_dep reverse ` set es)"
    by auto
  have "edge_dep reverse e \<in> V \<times> V" using snoc.prems by auto
  then have "(a, b) = (if reverse then (edge_S e, edge_T e) else (edge_T e, edge_S e))" "a \<in> V" "b \<in> V"
    using ab by (auto simp: edge_dep_def)
  from wired_newEdge[OF IH(1) inj IH(2,3) this] show ?case by (simp add: f ab)
qed

text \<open>The state while the goroutines are started: \<open>A\<close> have their waiter, \<open>B\<close> are walked.\<close>

definition info1 :: "nat \<Rightarrow> ('v, chan) gomap \<Rightarrow> 'v walkerVertex" where
  "info1 p m = \<lparr>DoneCh = ChDone p, CancelCh = ChCancel p, DepsCh = Some (ChDeps p 0), DepsUpdateCh = Some (ChDepsUpdate p 0),
     wv_deps = m, depsCancelCh = Some (ChDepsCancel p 0), depsGen = 1\<rparr>"

definition deps_ready :: "'v set \<Rightarrow> ('v \<times> 'v) set \<Rightarrow> 'v set \<Rightarrow> ('h, 'v) Walker \<Rightarrow> bool" where
  "deps_ready V E A w \<longleftrightarrow>
     (\<forall>v \<in> V. \<exists>m. gmap_ok m \<and> set m = (\<lambda>d. (d, ChDone (ptr w d))) ` (E `` {v}) \<and>
        gmap_get (w_infos w) (ptr w v) = Some (if v \<in> A then info1 (ptr w v) m else info0 (ptr w v) m) \<and>
        (v \<in> A \<longrightarrow> gmap_get (w_waiting w) (ChDeps (ptr w v) 0) =
           Some \<lparr>wt_deps = m, wt_cancel = ChDepsCancel (ptr w v) 0, wt_pc = DWait m\<rparr>))"

definition started :: "'v set \<Rightarrow> ('v \<times> 'v) set \<Rightarrow> 'v set \<Rightarrow> 'v set \<Rightarrow> ('h, 'v) Walker \<Rightarrow> bool" where
  "started V E A B w \<longleftrightarrow> dom (map_of (w_vertexMap w)) = V \<and> inj_on (ptr w) V \<and> w_wait w = int (card V) \<and>
     w_diagsMap w = [] \<and> w_upstreamFailed w = [] \<and> set (w_closed w) = (\<lambda>v. ChStart (ptr w v)) ` B \<and>
     (\<forall>q n. gmap_get (w_buf w) (ChDeps q n) = None) \<and> (\<forall>v \<in> B. gmap_get (w_buf w) (ChStart (ptr w v)) = Some True) \<and>
     dom (map_of (w_walking w)) = ptr w ` B \<and>
     (\<forall>v \<in> B. gmap_get (w_walking w) (ptr w v) = Some (v, WSelect False (Some (ChStart (ptr w v))) None)) \<and>
     dom (map_of (w_waiting w)) = (\<lambda>v. ChDeps (ptr w v) 0) ` A \<and>
     deps_ready V E A w"

lemma wired_started: "wired reverse V E w \<Longrightarrow> started V E {} {} w"
  unfolding wired_def started_def idle_def deps_ready_def by (simp, blast)

lemma started_info:
  assumes "started V E A B w" "v \<in> V"
  obtains m where "gmap_ok m" "set m = (\<lambda>d. (d, ChDone (ptr w d))) ` (E `` {v})"
    "gmap_get (w_infos w) (ptr w v) = Some (if v \<in> A then info1 (ptr w v) m else info0 (ptr w v) m)"
    "v \<in> A \<longrightarrow> gmap_get (w_waiting w) (ChDeps (ptr w v) 0) =
       Some \<lparr>wt_deps = m, wt_cancel = ChDepsCancel (ptr w v) 0, wt_pc = DWait m\<rparr>"
proof -
  have "deps_ready V E A w" using assms(1) by (simp add: started_def)
  from bspec[OF this[unfolded deps_ready_def] assms(2)] show ?thesis using that by (elim exE conjE) assumption
qed

lemma started_waiter:
  assumes st: "started V E A B w" and a: "a \<in> V" "a \<notin> A" and A: "A \<subseteq> V"
  shows "started V E (insert a A) B (update_waiter w a)"
proof -
  obtain m where m: "gmap_ok m" "set m = (\<lambda>d. (d, ChDone (ptr w d))) ` (E `` {a})"
    "gmap_get (w_infos w) (ptr w a) = Some (info0 (ptr w a) m)"
    by (rule started_info[OF st a(1)]) (use a(2) in simp)
  let ?wt = "\<lparr>wt_deps = m, wt_cancel = ChDepsCancel (ptr w a) 0, wt_pc = DWait m\<rparr>"
  let ?w = "w\<lparr>w_infos := gmap_put (ptr w a) (info1 (ptr w a) m) (w_infos w), w_waiting := gmap_put (ChDeps (ptr w a) 0) ?wt (w_waiting w)\<rparr>"
  have "walker_info w a = Some (ptr w a, info0 (ptr w a) m)"
    by (rule walker_info_Some[OF _ m(3)]) (use st a in \<open>simp add: started_def\<close>)
  then have upd: "update_waiter w a = ?w"
    by (simp add: update_waiter_def info0_def info1_def close_opt_def Let_def)
  have "\<exists>m. gmap_ok m \<and> set m = (\<lambda>d. (d, ChDone (ptr ?w d))) ` (E `` {v}) \<and>
        gmap_get (w_infos ?w) (ptr ?w v) = Some (if v \<in> insert a A then info1 (ptr ?w v) m else info0 (ptr ?w v) m) \<and>
        (v \<in> insert a A \<longrightarrow> gmap_get (w_waiting ?w) (ChDeps (ptr ?w v) 0) =
           Some \<lparr>wt_deps = m, wt_cancel = ChDepsCancel (ptr ?w v) 0, wt_pc = DWait m\<rparr>)" if v: "v \<in> V" for v
  proof (cases "v = a")
    case True
    with m show ?thesis by (intro exI[of _ m]) (simp add: gomap_simps)
  next
    case False
    with st a(1) v have neq: "ptr w v \<noteq> ptr w a" by (auto simp: started_def inj_on_def)
    obtain m' where "gmap_ok m'" "set m' = (\<lambda>d. (d, ChDone (ptr w d))) ` (E `` {v})"
      "gmap_get (w_infos w) (ptr w v) = Some (if v \<in> A then info1 (ptr w v) m' else info0 (ptr w v) m')"
      "v \<in> A \<longrightarrow> gmap_get (w_waiting w) (ChDeps (ptr w v) 0) =
         Some \<lparr>wt_deps = m', wt_cancel = ChDepsCancel (ptr w v) 0, wt_pc = DWait m'\<rparr>" by (rule started_info[OF st v])
    with neq False show ?thesis by (intro exI[of _ m']) (simp add: gomap_simps)
  qed
  then have "deps_ready V E (insert a A) ?w" by (simp only: deps_ready_def) blast
  moreover have "dom (map_of (gmap_put (ChDeps (ptr w a) 0) ?wt (w_waiting w))) = insert (ChDeps (ptr w a) 0) (dom (map_of (w_waiting w)))"
    by (simp add: update_conv')
  ultimately show ?thesis unfolding upd using st by (simp add: started_def)
qed

lemma started_waiters:
  "started V E {} B w \<Longrightarrow> distinct as \<Longrightarrow> set as \<subseteq> V \<Longrightarrow> started V E (set as) B (foldl update_waiter w as)"
proof (induction as rule: rev_induct)
  case (snoc a as)
  then show ?case using started_waiter[of V E "set as" B "foldl update_waiter w as" a] by simp
qed simp

lemma started_start:
  assumes st: "started V E A B w" and b: "b \<in> V" "b \<notin> B" and B: "B \<subseteq> V"
  shows "started V E A (insert b B) (update_start w b)"
proof -
  let ?w = "w\<lparr>w_buf := gmap_put (ChStart (ptr w b)) True (w_buf w), w_closed := ChStart (ptr w b) # w_closed w,
    w_walking := gmap_put (ptr w b) (b, WSelect False (Some (ChStart (ptr w b))) None) (w_walking w)\<rparr>"
  have upd: "update_start w b = ?w" using st b by (auto simp: update_start_def started_def)
  have neq: "ptr w v \<noteq> ptr w b" if "v \<in> B" for v using st b B that by (auto simp: started_def inj_on_def)
  have "dom (map_of (w_walking ?w)) = insert (ptr w b) (dom (map_of (w_walking w)))" by (simp add: update_conv')
  moreover have "deps_ready V E A ?w = deps_ready V E A w" by (simp add: deps_ready_def)
  ultimately show ?thesis unfolding upd using st neq by (simp add: started_def gomap_simps)
qed

lemma started_starts:
  "started V E A {} w \<Longrightarrow> distinct bs \<Longrightarrow> set bs \<subseteq> V \<Longrightarrow> started V E A (set bs) (foldl update_start w bs)"
proof (induction bs rule: rev_induct)
  case (snoc b bs)
  then show ?case using started_start[of V E A "set bs" "foldl update_start w bs" b] by simp
qed simp

lemma started_inv:
  assumes st: "started V E (Domain E) V w" and fin: "finite V" and E: "E \<subseteq> V \<times> V"
  shows "walk_inv E V [] w"
proof -
  have "vertex_inv E [] w v" if v: "v \<in> V" for v
  proof -
    obtain m where m: "gmap_ok m" "set m = (\<lambda>d. (d, ChDone (ptr w d))) ` (E `` {v})"
      "gmap_get (w_infos w) (ptr w v) = Some (if v \<in> Domain E then info1 (ptr w v) m else info0 (ptr w v) m)"
      "v \<in> Domain E \<longrightarrow> gmap_get (w_waiting w) (ChDeps (ptr w v) 0) =
         Some \<lparr>wt_deps = m, wt_cancel = ChDepsCancel (ptr w v) 0, wt_pc = DWait m\<rparr>" by (rule started_info[OF st v])
    let ?info = "if v \<in> Domain E then info1 (ptr w v) m else info0 (ptr w v) m"
    have dom: "v \<in> Domain E \<longleftrightarrow> E `` {v} \<noteq> {}" by auto
    have nwait: "gmap_get (w_waiting w) (ChDeps (ptr w v) 0) = None" if "v \<notin> Domain E"
    proof -
      have "inj_on (ptr w) V" "Domain E \<subseteq> V" using st E by (auto simp: started_def)
      then have "ChDeps (ptr w v) 0 \<notin> (\<lambda>v. ChDeps (ptr w v) 0) ` Domain E"
        using that v by (auto dest: inj_onD)
      then show ?thesis using st unfolding started_def by blast
    qed
    have "wait_ok E w v True"
      using m(1,2,4) nwait st by (auto simp: wait_ok_def dom started_def image_image)
    moreover have "\<not> vertex_done w v" using st by (auto simp: vertex_done_def started_def)
    moreover have "walk_ok E [] w v ?info (WSelect False (Some (ChStart (ptr w v))) None)"
      using st v dom by (auto simp: started_def uncalled_def first_deps_def info0_def info1_def)
    moreover have "gmap_get (w_walking w) (ptr w v) = Some (v, WSelect False (Some (ChStart (ptr w v))) None)"
      using st v by (simp add: started_def)
    ultimately show ?thesis
      unfolding vertex_inv_def using m(3) dom
      by (intro exI[of _ ?info] exI[of _ "WSelect False (Some (ChStart (ptr w v))) None"]) (auto simp: info0_def info1_def)
  qed
  moreover have "\<not> ended w v" if "v \<in> V" for v using st that by (simp add: ended_def started_def)
  then have "{v \<in> V. \<not> ended w v} = V" by blast
  moreover have "(\<lambda>v. ChDeps (ptr w v) 0) ` Domain E \<subseteq> (\<lambda>v. ChDeps (ptr w v) 0) ` V" using E by auto
  ultimately show ?thesis
    using st fin E unfolding walk_inv_def walker_shape_def started_def gmap_ok_def by auto
qed

lemma Difference_nil: "set_List (set_Difference hc [] t) = []"
  by (simp add: set_Difference_def set_Copy_def set_List_def gmap_vals_def)

lemma Update_started:
  assumes inj: "inj hc" and wf: "graph_wf hc g" and closed: "graph_closed g"
    and E_def: "E = (if reverse then edge_rel g else (edge_rel g)\<inverse>)"
  shows "started (vertex_set g) E (Domain E) (vertex_set g) (walker_Update hc (newWalker reverse) (Some g))" "E \<subseteq> vertex_set g \<times> vertex_set g"
proof -
  let ?E = "if reverse then edge_rel g else (edge_rel g)\<inverse>" and ?V = "vertex_set g"
  let ?vs = "graph_Vertices g" and ?es = "graph_Edges g"
  have deps: "edge_dep reverse ` set ?es = ?E"
    unfolding set_graph_Edges[symmetric] by (force simp: edge_dep_def edge_Hashcode_def)
  have E: "?E \<subseteq> ?V \<times> ?V" using closed by (auto simp: graph_closed_def)
  have sets: "set_List (set_Difference hc (g_vertices g) []) = ?vs" "set_List (set_Difference edge_Hashcode (g_edges g) []) = ?es"
    using wf by (simp_all add: graph_wf_def set_Difference_unfold graph_Vertices_def graph_Edges_def)
  have dv: "distinct ?vs" using wf distinct_set_List by (auto simp: graph_wf_def graph_Vertices_def)
  let ?w1 = "foldl (update_newVertex hc) (newWalker reverse) ?vs"
  obtain w3 ch where f: "foldl (update_newEdge hc) (?w1, []) ?es = (w3, ch)" by fastforce
  have "wired reverse ?V {} ?w1" using wired_newVertices[OF dv, of reverse hc] by simp
  from wired_newEdges[OF this inj, of ?es] f deps E
  have w3: "wired reverse ?V ?E w3" "dset_wf hc ch" "dset_elems ch = Domain ?E" by auto
  have dom: "Domain ?E \<subseteq> ?V" using E by blast
  have "started ?V ?E (set (set_List ch)) {} (foldl update_waiter w3 (set_List ch))"
    by (rule started_waiters[OF wired_started[OF w3(1)]]) (use distinct_set_List[OF w3(2)] w3(3) dom in simp_all)
  then have "started ?V ?E (set (set_List ch)) (set ?vs) (foldl update_start (foldl update_waiter w3 (set_List ch)) ?vs)"
    by (rule started_starts[OF _ dv]) simp
  moreover have "walker_Update hc (newWalker reverse) (Some g) = foldl update_start (foldl update_waiter w3 (set_List ch)) ?vs"
    using f by (simp add: walker_Update_def sets newWalker_def Difference_nil)
  ultimately have "started ?V ?E (Domain ?E) ?V (walker_Update hc (newWalker reverse) (Some g))"
    using w3(3) by (simp only: set_set_List set_graph_Vertices)
  then show "started ?V E (Domain E) ?V (walker_Update hc (newWalker reverse) (Some g))" by (simp only: E_def)
  show "E \<subseteq> ?V \<times> ?V" using E by (simp only: E_def)
qed

lemma walk_inv_Update:
  assumes "inj hc" "graph_wf hc g" "graph_closed g"
  shows "walk_inv (if reverse then edge_rel g else (edge_rel g)\<inverse>) (vertex_set g) [] (walker_Update hc (newWalker reverse) (Some g))"
  using Update_started[OF assms refl, of reverse] by (intro started_inv) simp_all

end
