(* ===== verification/Dag_Walker_Props.thy ===== *)
theory Dag_Walker_Props
  imports Dag_Walker_Inv Dag_Props
begin

text \<open>
  What a walk guarantees: callbacks run in dependency order and at most once, a failure
  keeps everything that depends on it from running, \<^verbatim>\<open>Wait\<close> reports the diagnostics of the
  callbacks that ran, and the walk always comes to an end.
\<close>

section \<open>Order of the callbacks\<close>

lemma walk_run_prefix:
  assumes "walk_run cb w0 tr w" "tr = tr1 @ e # tr2"
  shows "\<exists>w1 w2. walk_run cb w0 tr1 w1 \<and> walk_step cb w1 e w2"
  using assms
proof (induction arbitrary: tr2 rule: walk_run.induct)
  case (run_step tr w e' w')
  show ?case
  proof (cases tr2 rule: rev_cases)
    case Nil
    with run_step show ?thesis by auto
  next
    case (snoc ys y)
    with run_step have "tr = tr1 @ e # ys" by simp
    with run_step.IH show ?thesis by blast
  qed
qed simp

lemma vertex_invD:
  assumes "walk_inv D V tr w" "v \<in> V"
  obtains info pc where "gmap_get (w_infos w) (ptr w v) = Some info" "gmap_get (w_walking w) (ptr w v) = Some (v, pc)"
    "DoneCh info = ChDone (ptr w v)" "CancelCh info = ChCancel (ptr w v)"
    "vertex_done w v \<longleftrightarrow> pc_ended pc" "walk_ok D tr w v info pc" "wait_ok D w v (awaiting pc)"
proof -
  have "vertex_inv D tr w v" using assms by (simp add: walk_inv_def)
  then show ?thesis using that unfolding vertex_inv_def view_sels by (elim exE conjE) assumption
qed

text \<open>A vertex whose \<^verbatim>\<open>DoneCh\<close> is closed has a result, and it is in the trace.\<close>

lemma done_result:
  assumes inv: "walk_inv D V tr w" and v: "v \<in> V" and don: "vertex_done w v"
  obtains ds where "gmap_get (w_diagsMap w) v = Some ds" "diags_of w v = ds"
    "outcome v tr ds (gmap_get (w_upstreamFailed w) v \<noteq> None)" "(gmap_get (w_upstreamFailed w) v \<noteq> None) = (\<not> verdict D w v)"
    "deps_done D w v"
proof -
  obtain info pc where i: "gmap_get (w_infos w) (ptr w v) = Some info" "gmap_get (w_walking w) (ptr w v) = Some (v, pc)"
    "DoneCh info = ChDone (ptr w v)" "CancelCh info = ChCancel (ptr w v)"
    "vertex_done w v \<longleftrightarrow> pc_ended pc" "walk_ok D tr w v info pc" "wait_ok D w v (awaiting pc)"
    by (rule vertex_invD[OF inv v])
  from i(5,6) don have "(\<exists>ds. vv_diags (view w v) = Some ds \<and> outcome v tr ds (vv_failed (view w v))) \<and>
     deps_done D w v \<and> vv_failed (view w v) = (\<not> verdict D w v)"
    by (cases pc) (auto simp del: view_sels)
  then show ?thesis using that unfolding view_sels by (auto simp: diags_of_def)
qed

lemma HasErrors_upstream [simp]: "HasErrors upstream_diags"
  by (simp add: upstream_diags_def)

lemma CallStart_step:
  assumes inv: "walk_inv D V tr w" and step: "walk_step cb w (CallStart v) w'"
  shows "v \<in> V" "uncalled v tr" "deps_done D w v" "verdict D w v"
proof -
  from step obtain p where at: "gmap_get (w_walking w) p = Some (v, WCheck True)" by cases auto
  obtain info where v: "v \<in> V" and "walk_ok D tr w v info (WCheck True)"
    by (rule walking_vertex[OF inv at]) blast
  then show "v \<in> V" "uncalled v tr" "deps_done D w v" "verdict D w v" by simp_all
qed

lemma CallStart_deps:
  assumes inv: "walk_inv D V tr w" and step: "walk_step cb w (CallStart v) w'" and d: "(v, d) \<in> D"
  shows "\<exists>ds. CallEnd d ds \<in> set tr \<and> \<not> HasErrors ds"
proof -
  note c = CallStart_step[OF inv step]
  have dV: "d \<in> V" using inv d by (auto simp: walk_inv_def walker_shape_def)
  have "vertex_done w d" using c(3) d by (auto simp: deps_done_def)
  from done_result[OF inv dV this] obtain ds where ds: "diags_of w d = ds"
    "outcome d tr ds (gmap_get (w_upstreamFailed w) d \<noteq> None)" by blast
  have "\<not> HasErrors ds" using c(4) d ds(1) by (auto simp: verdict_def)
  with ds(2) show ?thesis unfolding outcome_def by (metis HasErrors_upstream)
qed

section \<open>Termination\<close>

fun rank :: "walk_pc \<Rightarrow> nat" where
  "rank (WSelect _ dc uc) = (if uc = None then 9 else 7)"
| "rank (WDeps _ _ uc) = (if uc = None then 8 else 6)"
| "rank (WCheck _) = 5" | "rank WCall = 4" | "rank (WRecord _ _) = 3" | "rank WClose = 2" | "rank WWaitDone = 1" | "rank WEnd = 0"

fun wait_rank :: "'v wait_pc \<Rightarrow> nat" where
  "wait_rank (DWait rest) = length rest + 1"
| "wait_rank DSent = 0"

definition vertex_rank :: "('h, 'v) Walker \<Rightarrow> 'v \<Rightarrow> nat" where
  "vertex_rank w v =
     (case gmap_get (w_walking w) (ptr w v) of None \<Rightarrow> 0 | Some (_, pc) \<Rightarrow> rank pc) +
     (case gmap_get (w_waiting w) (ChDeps (ptr w v) 0) of None \<Rightarrow> 0 | Some wt \<Rightarrow> wait_rank (wt_pc wt))"

definition walk_rank :: "'v set \<Rightarrow> ('h, 'v) Walker \<Rightarrow> nat" where
  "walk_rank V w = sum (vertex_rank w) V"

lemma walk_rank_less:
  assumes inv: "walk_inv D V tr w" and u: "u \<in> V" and map: "w_vertexMap w' = w_vertexMap w"
    and less: "vertex_rank w' u < vertex_rank w u"
    and others: "\<And>q. q \<noteq> ptr w u \<Longrightarrow> gmap_get (w_walking w') q = gmap_get (w_walking w) q \<and>
      gmap_get (w_waiting w') (ChDeps q 0) = gmap_get (w_waiting w) (ChDeps q 0)"
  shows "walk_rank V w' < walk_rank V w"
  unfolding walk_rank_def
proof (rule sum_strict_mono_ex1)
  show "finite V" using inv by (simp add: walk_inv_def walker_shape_def)
  have "vertex_rank w' v = vertex_rank w v" if "v \<in> V" "v \<noteq> u" for v
    using others[of "ptr w v"] ptr_neq[OF inv u that] map by (simp add: vertex_rank_def)
  with less show "\<forall>x \<in> V. vertex_rank w' x \<le> vertex_rank w x" by (metis eq_refl less_imp_le)
  show "\<exists>a \<in> V. vertex_rank w' a < vertex_rank w a" using u less by blast
qed

lemma walk_rank_pc:
  assumes inv: "walk_inv D V tr w" and at: "gmap_get (w_walking w) p = Some (u, pc)" and less: "rank pc' < rank pc"
    and same: "w_vertexMap w1 = w_vertexMap w" "w_walking w1 = w_walking w" "w_waiting w1 = w_waiting w"
  shows "walk_rank V (set_pc p u pc' w1) < walk_rank V w"
proof -
  have u: "u \<in> V" "p = ptr w u" by (rule walking_vertex[OF inv at]; simp)+
  show ?thesis
    by (rule walk_rank_less[OF inv u(1)]) (use u at less same in \<open>auto simp: vertex_rank_def gomap_simps\<close>)
qed

lemma walk_rank_wait:
  assumes inv: "walk_inv D V tr w" and at: "gmap_get (w_waiting w) c = Some wt" and less: "wait_rank pc' < wait_rank (wt_pc wt)"
    and same: "w_vertexMap w1 = w_vertexMap w" "w_walking w1 = w_walking w" "w_waiting w1 = gmap_put c (wt\<lparr>wt_pc := pc'\<rparr>) (w_waiting w)"
  shows "walk_rank V w1 < walk_rank V w"
proof -
  obtain u where u: "u \<in> V" "c = ChDeps (ptr w u) 0" by (rule waiter_facts[OF inv at]) blast
  show ?thesis
    by (rule walk_rank_less[OF inv u(1)]) (use u at less same in \<open>auto simp: vertex_rank_def gomap_simps\<close>)
qed

lemma walk_step_rank:
  assumes inv: "walk_inv D V tr w" and step: "walk_step cb w e w'"
  shows "walk_rank V w' < walk_rank V w"
  using step
proof cases
  case (lock_deps p v ok dc uc info)
  let ?pc = "if (case DepsCh info of Some c \<Rightarrow> Some c | None \<Rightarrow> dc) = None then WCheck ok
    else WSelect ok (case DepsCh info of Some c \<Rightarrow> Some c | None \<Rightarrow> dc) (case DepsUpdateCh info of Some c \<Rightarrow> Some c | None \<Rightarrow> uc)"
  obtain info' where "p = ptr w v" and i: "gmap_get (w_infos w) p = Some info'"
    "DepsUpdateCh info' = (if D `` {v} = {} then None else Some (ChDepsUpdate p 0))" "walk_ok D tr w v info' (WDeps ok dc uc)"
    by (rule walking_vertex[OF inv lock_deps(3)]) blast
  have "info' = info" using i(1) lock_deps(4) by simp
  with i(2,3) have "rank ?pc < rank (WDeps ok dc uc)"
    by (cases "D `` {v} = {}") (auto simp: first_deps_def)
  then show ?thesis unfolding lock_deps(2) walk_lock_deps_def Let_def
    by (rule walk_rank_pc[OF inv lock_deps(3)]) simp_all
next
  case (select_cancel p v ok dc uc info)
  show ?thesis unfolding select_cancel(2) by (rule walk_rank_pc[OF inv select_cancel(3)]) simp_all
next
  case (select_deps p v ok c uc b)
  show ?thesis unfolding select_deps(2) by (rule walk_rank_pc[OF inv select_deps(3)]) simp_all
next
  case (select_deps_closed p v ok c uc)
  show ?thesis unfolding select_deps_closed(2) by (rule walk_rank_pc[OF inv select_deps_closed(3)]) simp_all
next
  case (select_update p v ok dc u)
  show ?thesis unfolding select_update(2) by (rule walk_rank_pc[OF inv select_update(3)]) simp_all
next
  case (check_cancel p v ok info)
  show ?thesis unfolding check_cancel(2) by (rule walk_rank_pc[OF inv check_cancel(3)]) simp_all
next
  case (check_call p v info)
  show ?thesis unfolding check_call(2) by (rule walk_rank_pc[OF inv check_call(3)]) simp_all
next
  case (check_skip p v info)
  show ?thesis unfolding check_skip(2) by (rule walk_rank_pc[OF inv check_skip(3)]) simp_all
next
  case (call_return p v ds)
  show ?thesis unfolding call_return(2) by (rule walk_rank_pc[OF inv call_return(3)]) simp_all
next
  case (record_result p v ds failed)
  show ?thesis unfolding record_result(2) walk_record_def by (rule walk_rank_pc[OF inv record_result(3)]) simp_all
next
  case (close_done p v info)
  show ?thesis unfolding close_done(2) by (rule walk_rank_pc[OF inv close_done(3)]) simp_all
next
  case (wait_done p v)
  show ?thesis unfolding wait_done(2) by (rule walk_rank_pc[OF inv wait_done(3)]) simp_all
next
  case (dep_satisfied c wt d dc rest)
  show ?thesis unfolding dep_satisfied(2)
    by (rule walk_rank_wait[OF inv dep_satisfied(3), of "DWait rest"]) (simp_all add: dep_satisfied(4))
next
  case (dep_cancel c wt d rest)
  show ?thesis unfolding dep_cancel(2) wait_send_def
    by (rule walk_rank_wait[OF inv dep_cancel(3), of DSent]) (simp_all add: dep_cancel(4))
next
  case (deps_complete c wt)
  show ?thesis unfolding deps_complete(2) wait_send_def
    by (rule walk_rank_wait[OF inv deps_complete(3), of DSent]) (simp_all add: deps_complete(4))
qed

lemma walk_run_length:
  assumes "walk_inv D V [] w0" "walk_run cb w0 tr w"
  shows "length tr + walk_rank V w \<le> walk_rank V w0"
  using assms(2)
proof induction
  case (run_step tr w e w')
  have "walk_inv D V tr w" by (rule walk_inv_run[OF assms(1) run_step.hyps(1)])
  from walk_step_rank[OF this run_step.hyps(2)] run_step.IH show ?case by simp
qed simp

section \<open>Progress\<close>

lemma vertex_progress:
  assumes inv: "walk_inv D V tr w" and u: "u \<in> V" "\<not> ended w u" and deps: "deps_done D w u" and cb: "\<And>v. \<exists>ds. cb v ds"
  shows "\<exists>e w'. walk_step cb w e w'"
proof -
  obtain info pc where i: "gmap_get (w_infos w) (ptr w u) = Some info" "gmap_get (w_walking w) (ptr w u) = Some (u, pc)"
    "DoneCh info = ChDone (ptr w u)" "CancelCh info = ChCancel (ptr w u)"
    "vertex_done w u \<longleftrightarrow> pc_ended pc" "walk_ok D tr w u info pc" "wait_ok D w u (awaiting pc)"
    by (rule vertex_invD[OF inv u(1)])
  have open': "CancelCh info \<notin> set (w_closed w)" using i(4) not_cancelled[OF inv] by simp
  show ?thesis
  proof (cases pc)
    case (WSelect ok dc uc)
    from select_channels[OF inv] i(2) WSelect consider "dc = Some (ChStart (ptr w u))" "gmap_get (w_buf w) (ChStart (ptr w u)) = Some True"
      | "dc = Some (ChDeps (ptr w u) 0)" by blast
    then show ?thesis
    proof cases
      case 1
      with i(2) WSelect show ?thesis by (blast intro: walk_step.select_deps)
    next
      case 2
      with i(6) WSelect have ne: "D `` {u} \<noteq> {}" by auto
      with i(7) WSelect obtain wt where wt: "gmap_get (w_waiting w) (ChDeps (ptr w u) 0) = Some wt"
        "set (wt_deps wt) = (\<lambda>d. (d, ChDone (ptr w d))) ` (D `` {u})" "wait_pc_ok D w u True (wt_deps wt) (wt_pc wt)"
        unfolding wait_ok_def by auto
      show ?thesis
      proof (cases "wt_pc wt")
        case (DWait rest)
        show ?thesis
        proof (cases rest)
          case Nil
          with DWait wt(1) show ?thesis by (blast intro: walk_step.deps_complete)
        next
          case (Cons d rest')
          with DWait wt(2,3) have "d \<in> (\<lambda>d. (d, ChDone (ptr w d))) ` (D `` {u})" by auto
          then obtain x where x: "d = (x, ChDone (ptr w x))" "x \<in> D `` {u}" by blast
          have "vertex_done w x" using deps x(2) by (simp add: deps_done_def)
          with Cons DWait wt(1) x show ?thesis unfolding vertex_done_def by (blast intro: walk_step.dep_satisfied)
        qed
      next
        case DSent
        with wt(3) have "gmap_get (w_buf w) (ChDeps (ptr w u) 0) = Some (verdict D w u)" by simp
        with i(2) WSelect 2 show ?thesis by (blast intro: walk_step.select_deps)
      qed
    qed
  next
    case (WDeps ok dc uc)
    with i(1,2) show ?thesis by (blast intro: walk_step.lock_deps)
  next
    case (WCheck ok)
    then have "ok \<Longrightarrow> walk_step cb w (CallStart u) (set_pc (ptr w u) u WCall w)"
      "\<not> ok \<Longrightarrow> walk_step cb w Internal (set_pc (ptr w u) u (WRecord upstream_diags True) w)"
      using i(1,2) open' by (auto intro: walk_step.check_call walk_step.check_skip)
    then show ?thesis by blast
  next
    case WCall
    with i(2) cb[of u] show ?thesis by (blast intro: walk_step.call_return)
  next
    case (WRecord ds failed)
    with i(2) show ?thesis by (blast intro: walk_step.record_result)
  next
    case WClose
    with i(1,2) show ?thesis by (blast intro: walk_step.close_done)
  next
    case WWaitDone
    with i(2) show ?thesis by (blast intro: walk_step.wait_done)
  next
    case WEnd
    with i(2) u(2) show ?thesis by (simp add: ended_def)
  qed
qed

lemma ended_done:
  assumes inv: "walk_inv D V tr w" and v: "v \<in> V" "ended w v"
  shows "vertex_done w v"
proof -
  obtain info pc where "gmap_get (w_walking w) (ptr w v) = Some (v, pc)" "vertex_done w v \<longleftrightarrow> pc_ended pc"
    by (rule vertex_invD[OF inv v(1)]) blast
  with v(2) show ?thesis by (simp add: ended_def)
qed

lemma walk_progress:
  assumes inv: "walk_inv D V tr w" and acyc: "acyclic D" and cb: "\<And>v. \<exists>ds. cb v ds" and wait: "w_wait w \<noteq> 0"
  shows "\<exists>e w'. walk_step cb w e w'"
proof -
  have fin: "finite V" "D \<subseteq> V \<times> V" using inv by (auto simp: walk_inv_def walker_shape_def)
  then have "finite D" by (meson finite_SigmaI finite_subset)
  then have wf: "wf (D\<inverse>)" using acyc by (simp add: finite_acyclic_wf_converse)
  have "card {v \<in> V. \<not> ended w v} \<noteq> 0" using wait inv by (simp add: walk_inv_def)
  then have "{v \<in> V. \<not> ended w v} \<noteq> {}" by (metis card.empty)
  then obtain u where u: "u \<in> V" "\<not> ended w u" "\<And>y. (y, u) \<in> D\<inverse> \<Longrightarrow> y \<notin> {v \<in> V. \<not> ended w v}"
    using wfE_min'[OF wf, of "{v \<in> V. \<not> ended w v}"] by blast
  have "deps_done D w u"
    unfolding deps_done_def using u(3) fin(2) ended_done[OF inv] by blast
  then show ?thesis by (rule vertex_progress[OF inv u(1,2) _ cb])
qed

section \<open>The result of a walk\<close>

lemma unit_option [simp]: "x \<noteq> Some () \<longleftrightarrow> x = None"
  by (cases x) auto

lemma all_done:
  assumes inv: "walk_inv D V tr w" and wait: "w_wait w = 0" and v: "v \<in> V"
  shows "vertex_done w v"
proof -
  have fin: "finite V" and "card {v \<in> V. \<not> ended w v} = 0" using inv wait by (simp_all add: walk_inv_def walker_shape_def)
  then have "{v \<in> V. \<not> ended w v} = {}" by simp
  with v show ?thesis using ended_done[OF inv v] by blast
qed

lemma skipped_iff:
  assumes inv: "walk_inv D V tr w" and wait: "w_wait w = 0" and v: "v \<in> V"
  shows "CallStart v \<notin> set tr \<longleftrightarrow> (\<exists>d. (v, d) \<in> D \<and> HasErrors (diags_of w d))"
    "CallStart v \<in> set tr \<Longrightarrow> CallEnd v ds \<in> set tr \<longleftrightarrow> ds = diags_of w v"
    "CallStart v \<notin> set tr \<Longrightarrow> HasErrors (diags_of w v) \<and> CallEnd v ds \<notin> set tr \<and> gmap_get (w_upstreamFailed w) v \<noteq> None"
    "CallStart v \<in> set tr \<Longrightarrow> gmap_get (w_upstreamFailed w) v = None"
proof -
  obtain ds' where d: "diags_of w v = ds'" "outcome v tr ds' (gmap_get (w_upstreamFailed w) v \<noteq> None)"
    "(gmap_get (w_upstreamFailed w) v \<noteq> None) = (\<not> verdict D w v)"
    by (rule done_result[OF inv v all_done[OF inv wait v]]) blast
  let ?f = "gmap_get (w_upstreamFailed w) v \<noteq> None"
  have called: "CallStart v \<in> set tr \<longleftrightarrow> \<not> ?f" using d(2) unfolding outcome_def by presburger
  then show "CallStart v \<notin> set tr \<longleftrightarrow> (\<exists>d. (v, d) \<in> D \<and> HasErrors (diags_of w d))"
    unfolding called d(3) verdict_def by blast
  show "CallStart v \<in> set tr \<Longrightarrow> CallEnd v ds \<in> set tr \<longleftrightarrow> ds = diags_of w v"
    using d(1,2) called unfolding outcome_def by presburger
  show "CallStart v \<notin> set tr \<Longrightarrow> HasErrors (diags_of w v) \<and> CallEnd v ds \<notin> set tr \<and> ?f"
    using d(1,2) called HasErrors_upstream unfolding outcome_def by presburger
  show "CallStart v \<in> set tr \<Longrightarrow> gmap_get (w_upstreamFailed w) v = None" using called by blast
qed

text \<open>A vertex is skipped exactly when something it depends on failed.\<close>

lemma skipped_cascade:
  assumes inv: "walk_inv D V tr w" and wait: "w_wait w = 0" and acyc: "acyclic D" and v: "v \<in> V"
  shows "CallStart v \<notin> set tr \<longleftrightarrow> (\<exists>d ds. (v, d) \<in> D\<^sup>+ \<and> CallEnd d ds \<in> set tr \<and> HasErrors ds)"
proof
  have fin: "finite V" "D \<subseteq> V \<times> V" using inv by (auto simp: walk_inv_def walker_shape_def)
  then have "finite D" by (meson finite_SigmaI finite_subset)
  then have wf: "wf (D\<inverse>)" using acyc by (simp add: finite_acyclic_wf_converse)
  show "CallStart v \<notin> set tr \<Longrightarrow> \<exists>d ds. (v, d) \<in> D\<^sup>+ \<and> CallEnd d ds \<in> set tr \<and> HasErrors ds"
    using v
  proof (induction v rule: wf_induct_rule[OF wf])
    case (1 v)
    then obtain d where d: "(v, d) \<in> D" "HasErrors (diags_of w d)" using skipped_iff(1)[OF inv wait] by blast
    have dV: "d \<in> V" using d(1) fin(2) by auto
    show ?case
    proof (cases "CallStart d \<in> set tr")
      case True
      with skipped_iff(2)[OF inv wait dV] d show ?thesis by (metis r_into_trancl')
    next
      case False
      with 1(1)[of d] d(1) dV obtain x ds where "(d, x) \<in> D\<^sup>+" "CallEnd x ds \<in> set tr" "HasErrors ds" by auto
      with d(1) show ?thesis by (meson trancl_into_trancl2)
    qed
  qed
  have failed: "CallStart x \<notin> set tr" if "(x, d) \<in> D\<^sup>+" "HasErrors (diags_of w d)" for x d
    using that
  proof (induction rule: converse_trancl_induct)
    case (base y)
    then show ?case using skipped_iff(1)[OF inv wait] fin(2) by blast
  next
    case (step y z)
    then have "z \<in> V" "y \<in> V" using fin(2) by auto
    with step skipped_iff(1,3)[OF inv wait] show ?case by metis
  qed
  show "\<exists>d ds. (v, d) \<in> D\<^sup>+ \<and> CallEnd d ds \<in> set tr \<and> HasErrors ds \<Longrightarrow> CallStart v \<notin> set tr"
  proof (elim exE conjE)
    fix d ds assume d: "(v, d) \<in> D\<^sup>+" "CallEnd d ds \<in> set tr" "HasErrors ds"
    have dV: "d \<in> V" using d(1) fin(2) by (meson tranclD2 mem_Sigma_iff subsetD)
    then have "HasErrors (diags_of w d)" using skipped_iff(2,3)[OF inv wait dV] d(2,3) by metis
    with d(1) failed show "CallStart v \<notin> set tr" by blast
  qed
qed

lemma Wait_diags:
  assumes inv: "walk_inv D V tr w" and wait: "walker_Wait w = Some diags"
  shows "set diags = \<Union>{set ds | v ds. v \<in> V \<and> CallEnd v ds \<in> set tr}"
proof -
  have w0: "w_wait w = 0" and ds: "diags = concat (map snd (filter (\<lambda>(v, _). gmap_get (w_upstreamFailed w) v = None) (w_diagsMap w)))"
  proof -
    have "foldl (\<lambda>acc (v, d). if P v then acc else acc @ d) a xs = a @ concat (map snd (filter (\<lambda>(v, _). \<not> P v) xs))"
      for P and a and xs :: "('a \<times> Diagnostic list) list"
      by (induction xs arbitrary: a) auto
    with wait show "w_wait w = 0"
      "diags = concat (map snd (filter (\<lambda>(v, _). gmap_get (w_upstreamFailed w) v = None) (w_diagsMap w)))"
      by (auto simp: walker_Wait_def split: if_splits)
  qed
  have map: "gmap_ok (w_diagsMap w)" "dom (map_of (w_diagsMap w)) \<subseteq> V" using inv by (auto simp: walk_inv_def walker_shape_def)
  have entry: "(v, ds) \<in> set (w_diagsMap w) \<and> gmap_get (w_upstreamFailed w) v = None \<longleftrightarrow> v \<in> V \<and> CallEnd v ds \<in> set tr" for v ds
  proof
    assume l: "(v, ds) \<in> set (w_diagsMap w) \<and> gmap_get (w_upstreamFailed w) v = None"
    then have g: "gmap_get (w_diagsMap w) v = Some ds" using map(1) by (simp add: gmap_ok_def map_of_is_SomeI)
    then have v: "v \<in> V" using map(2) by blast
    with skipped_iff(2,3)[OF inv w0 v] l g show "v \<in> V \<and> CallEnd v ds \<in> set tr" by (auto simp: diags_of_def)
  next
    assume r: "v \<in> V \<and> CallEnd v ds \<in> set tr"
    then have v: "v \<in> V" by simp
    obtain ds' where "gmap_get (w_diagsMap w) v = Some ds'" "diags_of w v = ds'"
      by (rule done_result[OF inv v all_done[OF inv w0 v]]) blast
    with skipped_iff(2,3,4)[OF inv w0 v] r show "(v, ds) \<in> set (w_diagsMap w) \<and> gmap_get (w_upstreamFailed w) v = None"
      by (metis map_of_SomeD)
  qed
  have "set diags = \<Union>{set ds | v ds. (v, ds) \<in> set (w_diagsMap w) \<and> gmap_get (w_upstreamFailed w) v = None}"
    unfolding ds by force
  also have "\<dots> = \<Union>{set ds | v ds. v \<in> V \<and> CallEnd v ds \<in> set tr}" by (simp only: entry)
  finally show ?thesis .
qed

section \<open>Complete walks\<close>

lemma walk_inv_start:
  assumes "inj hc" "graph_wf hc g" "graph_closed g"
  shows "walk_inv (edge_rel g) (vertex_set g) [] (graph_Walk_start hc g)"
  using walk_inv_Update[OF assms, of True] by (simp add: graph_Walk_start_def)

lemma walk_rank_start:
  assumes "inj hc" "graph_wf hc g" "graph_closed g"
  shows "walk_rank (vertex_set g) (graph_Walk_start hc g) \<le> 10 * card (vertex_set g) + card (edge_rel g)"
proof -
  let ?E = "edge_rel g" and ?V = "vertex_set g" and ?w = "graph_Walk_start hc g"
  have st: "started ?V ?E (Domain ?E) ?V ?w" and E: "?E \<subseteq> ?V \<times> ?V"
    using Update_started[OF assms refl, of True] by (simp_all add: graph_Walk_start_def)
  note inv = walk_inv_start[OF assms]
  have "vertex_rank ?w v \<le> 10 + card (?E `` {v})" if v: "v \<in> ?V" for v
  proof -
    obtain m where m: "gmap_ok m" "set m = (\<lambda>d. (d, ChDone (ptr ?w d))) ` (?E `` {v})"
      "v \<in> Domain ?E \<longrightarrow> gmap_get (w_waiting ?w) (ChDeps (ptr ?w v) 0) =
         Some \<lparr>wt_deps = m, wt_cancel = ChDepsCancel (ptr ?w v) 0, wt_pc = DWait m\<rparr>"
      by (rule started_info[OF st v]) blast
    have "length m = card (set m)" using m(1) by (simp add: gmap_ok_def distinct_card distinct_map)
    also have "\<dots> \<le> card (?E `` {v})" unfolding m(2) by (rule card_image_le) (simp add: finite_Image)
    finally have len: "length m \<le> card (?E `` {v})" .
    have "gmap_get (w_walking ?w) (ptr ?w v) = Some (v, WSelect False (Some (ChStart (ptr ?w v))) None)"
      using st v by (simp add: started_def)
    moreover have "gmap_get (w_waiting ?w) (ChDeps (ptr ?w v) 0) = None" if "v \<notin> Domain ?E"
    proof -
      obtain info pc where "wait_ok ?E ?w v (awaiting pc)" by (rule vertex_invD[OF inv v]) blast
      moreover have "?E `` {v} = {}" using that by auto
      ultimately show ?thesis by (simp add: wait_ok_def)
    qed
    ultimately show ?thesis using m(3) len by (cases "v \<in> Domain ?E") (simp_all add: vertex_rank_def)
  qed
  then have "walk_rank ?V ?w \<le> (\<Sum>v \<in> ?V. 10 + card (?E `` {v}))"
    unfolding walk_rank_def by (rule sum_mono)
  also have "\<dots> = 10 * card ?V + (\<Sum>v \<in> ?V. card (?E `` {v}))" by (simp add: sum.distrib)
  also have "(\<Sum>v \<in> ?V. card (?E `` {v})) = card (SIGMA v:?V. ?E `` {v})"
    by (simp add: finite_Image)
  also have "(SIGMA v:?V. ?E `` {v}) = ?E" using E by auto
  finally show ?thesis .
qed

lemma walk_complete:
  assumes inv0: "walk_inv D V [] w0" and acyc: "acyclic D" and cb: "\<And>v. \<exists>ds. cb v ds"
  shows "walk_run cb w0 tr w \<Longrightarrow> \<exists>tr' w'. walk_run cb w0 (tr @ tr') w' \<and> w_wait w' = 0"
proof (induction "walk_rank V w" arbitrary: tr w rule: less_induct)
  case less
  show ?case
  proof (cases "w_wait w = 0")
    case True
    with less.prems show ?thesis by (metis append_Nil2)
  next
    case False
    have inv: "walk_inv D V tr w" by (rule walk_inv_run[OF inv0 less.prems])
    obtain e w1 where step: "walk_step cb w e w1" using walk_progress[OF inv acyc _ False, of cb] cb by blast
    from less.hyps[OF walk_step_rank[OF inv step] walk_run.run_step[OF less.prems step]]
    show ?thesis by (metis append.assoc)
  qed
qed

section \<open>Properties\<close>

text \<open>
  C1: in every interleaving of the goroutines, the callback of a vertex starts only after
  the callbacks of all the vertices it has an edge to have returned without errors, and it
  starts at most once.
\<close>

theorem Walk_calls_in_order:
  assumes "inj hc" "graph_wf hc g" "graph_closed g"
    and run: "walk_run cb (graph_Walk_start hc g) (tr1 @ CallStart v # tr2) w"
  shows "v \<in> vertex_set g \<and> CallStart v \<notin> set tr1 \<and>
    (\<forall>d. (v, d) \<in> edge_rel g \<longrightarrow> (\<exists>ds. CallEnd d ds \<in> set tr1 \<and> \<not> HasErrors ds))"
proof -
  note inv0 = walk_inv_start[OF assms(1-3)]
  from walk_run_prefix[OF run] obtain w1 w2 where
    w1: "walk_run cb (graph_Walk_start hc g) tr1 w1" "walk_step cb w1 (CallStart v) w2" by blast
  note inv = walk_inv_run[OF inv0 w1(1)]
  from CallStart_step[OF inv w1(2)] CallStart_deps[OF inv w1(2)] show ?thesis by (auto simp: uncalled_def)
qed

theorem Walk_calls_in_order_witness:
  "\<exists>tr1 tr2 w. walk_run (\<lambda>v ds. ds = []) (graph_Walk_start id diamond) (tr1 @ CallStart 1 # tr2) w \<and>
     CallEnd 2 [] \<in> set tr1 \<and> CallStart 1 \<notin> set tr1"
proof -
  let ?cb = "\<lambda>(v :: nat) (ds :: Diagnostics). ds = []"
  have inj: "inj (id :: nat \<Rightarrow> nat)" by simp
  note inv0 = walk_inv_start[OF inj diamond_spec(1) diamond_closed]
  have "\<exists>tr' w'. walk_run ?cb (graph_Walk_start id diamond) ([] @ tr') w' \<and> w_wait w' = 0"
    by (rule walk_complete[OF inv0 diamond_acyclic _ walk_run.run_start]) blast
  then obtain tr w where run: "walk_run ?cb (graph_Walk_start id diamond) tr w" and w: "w_wait w = 0" by auto
  have ret: "ds = []" if "CallEnd v ds \<in> set tr" for v ds
    using run that by (induction rule: walk_run.induct) (auto elim: walk_step.cases)
  have "\<not> HasErrors ds" if "CallEnd v ds \<in> set tr" for v ds using ret[OF that] by simp
  then have "CallStart 1 \<in> set tr"
    using skipped_cascade[OF walk_inv_run[OF inv0 run] w diamond_acyclic, of 1] diamond_spec(2) by blast
  then obtain tr1 tr2 where tr: "tr = tr1 @ CallStart 1 # tr2" by (meson split_list)
  have "(1, 2) \<in> edge_rel diamond" by (simp add: diamond_spec)
  with Walk_calls_in_order[OF inj diamond_spec(1) diamond_closed run[unfolded tr]]
  obtain ds where "CallEnd 2 ds \<in> set tr1" "CallStart 1 \<notin> set tr1" by blast
  with run tr ret[of 2 ds] show ?thesis by auto
qed

text \<open>
  C2: when \<^verbatim>\<open>Wait\<close> returns, a vertex was skipped exactly when the callback of some vertex it
  depends on, directly or not, returned an error; and the diagnostics \<^verbatim>\<open>Wait\<close> returns are
  exactly those of the callbacks that ran, without the internal marks for skipped vertices.
\<close>

theorem Walk_failures_cascade:
  assumes "inj hc" "graph_wf hc g" "graph_closed g" "acyclic (edge_rel g)"
    and "walk_run cb (graph_Walk_start hc g) tr w" "walker_Wait w = Some diags"
  shows "(\<forall>v \<in> vertex_set g. CallStart v \<notin> set tr \<longleftrightarrow>
      (\<exists>d ds. (v, d) \<in> (edge_rel g)\<^sup>+ \<and> CallEnd d ds \<in> set tr \<and> HasErrors ds)) \<and>
    set diags = \<Union>{set ds | v ds. v \<in> vertex_set g \<and> CallEnd v ds \<in> set tr}"
proof -
  note inv = walk_inv_run[OF walk_inv_start[OF assms(1-3)] assms(5)]
  have "w_wait w = 0" using assms(6) by (simp add: walker_Wait_def split: if_splits)
  with skipped_cascade[OF inv _ assms(4)] Wait_diags[OF inv assms(6)] show ?thesis by auto
qed

theorem Walk_failures_cascade_witness:
  "\<exists>tr w diags. walk_run (\<lambda>v ds. ds = [NativeError ''x'']) (graph_Walk_start id diamond) tr w \<and>
     walker_Wait w = Some diags \<and> set diags \<subseteq> {NativeError ''x''}"
proof -
  let ?cb = "\<lambda>(v :: nat) (ds :: Diagnostics). ds = [NativeError ''x'']"
  have inj: "inj (id :: nat \<Rightarrow> nat)" by simp
  note inv0 = walk_inv_start[OF inj diamond_spec(1) diamond_closed]
  have "\<exists>tr' w'. walk_run ?cb (graph_Walk_start id diamond) ([] @ tr') w' \<and> w_wait w' = 0"
    by (rule walk_complete[OF inv0 diamond_acyclic _ walk_run.run_start]) blast
  then obtain tr w where run: "walk_run ?cb (graph_Walk_start id diamond) tr w" and w: "w_wait w = 0" by auto
  then obtain diags where wait: "walker_Wait w = Some diags" by (simp add: walker_Wait_def)
  have ret: "ds = [NativeError ''x'']" if "CallEnd v ds \<in> set tr" for v ds
    using run that by (induction rule: walk_run.induct) (auto elim: walk_step.cases)
  from Walk_failures_cascade[OF inj diamond_spec(1) diamond_closed diamond_acyclic run wait] ret
  have "set diags \<subseteq> {NativeError ''x''}" by fastforce
  with run wait show ?thesis by blast
qed

text \<open>
  C3: a walk of an acyclic graph comes to an end: whatever the interleaving, there are at
  most ten steps for each vertex and one for each edge, and when no goroutine can go on
  (callbacks return), \<^verbatim>\<open>Wait\<close> returns.  So there is no deadlock.
\<close>

theorem Walk_terminates:
  assumes "inj hc" "graph_wf hc g" "graph_closed g" "acyclic (edge_rel g)"
    and "\<And>v. \<exists>ds. cb v ds" "walk_run cb (graph_Walk_start hc g) tr w"
  shows "length tr \<le> 10 * card (vertex_set g) + card (edge_rel g) \<and>
    ((\<exists>e w'. walk_step cb w e w') \<or> (\<exists>diags. walker_Wait w = Some diags))"
proof -
  note inv0 = walk_inv_start[OF assms(1-3)]
  have "length tr \<le> walk_rank (vertex_set g) (graph_Walk_start hc g)"
    using walk_run_length[OF inv0 assms(6)] by simp
  moreover have "w_wait w = 0 \<Longrightarrow> \<exists>diags. walker_Wait w = Some diags" by (simp add: walker_Wait_def)
  ultimately show ?thesis
    using walk_rank_start[OF assms(1-3)] walk_progress[OF walk_inv_run[OF inv0 assms(6)] assms(4,5)] by fastforce
qed

theorem Walk_terminates_witness:
  "(\<exists>e w'. walk_step (\<lambda>v ds. ds = []) (graph_Walk_start id diamond) e w') \<or>
   (\<exists>diags. walker_Wait (graph_Walk_start id diamond) = Some diags)"
  using Walk_terminates[OF _ diamond_spec(1) diamond_closed diamond_acyclic, of "\<lambda>v ds. ds = []", OF _ _ walk_run.run_start]
  by auto

end
