(* ===== verification/Addr_Key.thy ===== *)
theory Addr_Key
  imports Tofu_Sort
begin

text \<open>
  Instance keys (\<^verbatim>\<open>internal/addrs/instance_key.go\<close>): what tells the instances of a resource or
  module apart, their order and their rendering in addresses.

  A string is a list of characters; a character stands for the code point of the same
  number, so that keys range over the code points up to 255.  Go compares strings
  bytewise, which on valid UTF-8 is the order of code points.  A panic is \<open>None\<close>.
\<close>

section \<open>Keys\<close>

datatype InstanceKeyType = NoKeyType | IntKeyType | StringKeyType | UnknownKeyType

datatype InstanceKey = NoKey | IntKey int | StringKey string | WildcardKey InstanceKeyType

text \<open>The rune behind each key type.\<close>

fun keyType_rune :: "InstanceKeyType \<Rightarrow> nat" where
  "keyType_rune NoKeyType = 0"
| "keyType_rune IntKeyType = 73"
| "keyType_rune StringKeyType = 83"
| "keyType_rune UnknownKeyType = 63"

fun instanceKeyType :: "InstanceKey \<Rightarrow> InstanceKeyType" where
  "instanceKeyType (StringKey _) = StringKeyType"
| "instanceKeyType (IntKey _) = IntKeyType"
| "instanceKeyType (WildcardKey t) = t"
| "instanceKeyType NoKey = NoKeyType"

text \<open>The type assertions \<^verbatim>\<open>i.(IntKey)\<close> and \<^verbatim>\<open>i.(StringKey)\<close> panic on a key of another kind.\<close>

fun assert_IntKey :: "InstanceKey \<Rightarrow> int option" where
  "assert_IntKey (IntKey i) = Some i"
| "assert_IntKey _ = None"

fun assert_StringKey :: "InstanceKey \<Rightarrow> string option" where
  "assert_StringKey (StringKey s) = Some s"
| "assert_StringKey _ = None"

definition InstanceKeyLess :: "InstanceKey \<Rightarrow> InstanceKey \<Rightarrow> bool option" where
  "InstanceKeyLess i j =
     (let iTy = instanceKeyType i; jTy = instanceKeyType j in
      if i = j then Some False
      else if i = NoKey then Some True
      else if j = NoKey then Some False
      else if iTy \<noteq> jTy then Some (keyType_rune iTy < keyType_rune jTy)
      else if iTy = IntKeyType then
        (case (assert_IntKey i, assert_IntKey j) of (Some a, Some b) \<Rightarrow> Some (a < b) | _ \<Rightarrow> None)
      else if iTy = StringKeyType then
        (case (assert_StringKey i, assert_StringKey j) of (Some a, Some b) \<Rightarrow> Some (a < b) | _ \<Rightarrow> None)
      else Some False)"

section \<open>Rendering\<close>

text \<open>\<^verbatim>\<open>unicode.IsPrint\<close> on the code points up to 255.\<close>

definition IsPrint :: "char \<Rightarrow> bool" where
  "IsPrint c = (let n = of_char c :: nat in 32 \<le> n \<and> n \<le> 126 \<or> 161 \<le> n \<and> n \<noteq> 173)"

definition hex_char :: "nat \<Rightarrow> char" where
  "hex_char d = char_of (if d < 10 then 48 + d else 87 + d)"

text \<open>\<^verbatim>\<open>fmt.Sprintf("\u%04x", r)\<close> for a code point up to 255.\<close>

definition unicode_escape :: "char \<Rightarrow> string" where
  "unicode_escape c =
     (let n = of_char c :: nat
      in [CHR 0x5C, CHR ''u'', CHR ''0'', CHR ''0'', hex_char (n div 16), hex_char (n mod 16)])"

definition quote_rune :: "char \<Rightarrow> string \<Rightarrow> string" where
  "quote_rune r remain =
     (if r = CHR 0x0A then [CHR 0x5C, CHR ''n'']
      else if r = CHR 0x0D then [CHR 0x5C, CHR ''r'']
      else if r = CHR 0x09 then [CHR 0x5C, CHR ''t'']
      else if r = CHR 0x22 then [CHR 0x5C, CHR 0x22]
      else if r = CHR 0x5C then [CHR 0x5C, CHR 0x5C]
      else if r = CHR ''$'' \<or> r = CHR ''%'' then
        (if remain \<noteq> [] \<and> hd remain = CHR ''{'' then [r, r] else [r])
      else if \<not> IsPrint r then unicode_escape r
      else [r])"

fun quote_body :: "string \<Rightarrow> string" where
  "quote_body [] = []"
| "quote_body (r # remain) = quote_rune r remain @ quote_body remain"

definition toHCLQuotedString :: "string \<Rightarrow> string" where
  "toHCLQuotedString s =
     (if s = [] then [CHR 0x22, CHR 0x22] else [CHR 0x22] @ quote_body s @ [CHR 0x22])"

fun key_String :: "InstanceKey \<Rightarrow> string" where
  "key_String NoKey = []"
| "key_String (IntKey k) = ''['' @ int_dec k @ '']''"
| "key_String (StringKey k) = ''['' @ toHCLQuotedString k @ '']''"
| "key_String (WildcardKey _) = ''[*]''"

fun IsPlaceholder :: "InstanceKey \<Rightarrow> bool" where
  "IsPlaceholder (WildcardKey _) = True"
| "IsPlaceholder _ = False"

section \<open>Order\<close>

text \<open>
  What a \<^verbatim>\<open>Less\<close> method of an address promises on the addresses of real objects, those that
  satisfy \<open>ok\<close>: it does not panic and is a strict linear order.
\<close>

locale address_order =
  fixes lessp :: "'a \<Rightarrow> 'a \<Rightarrow> bool option" and ok :: "'a \<Rightarrow> bool"
  assumes total: "ok x \<Longrightarrow> ok y \<Longrightarrow> \<exists>b. lessp x y = Some b"
    and irrefl: "ok x \<Longrightarrow> lessp x x = Some False"
    and trans: "ok x \<Longrightarrow> ok y \<Longrightarrow> ok z \<Longrightarrow> lessp x y = Some True \<Longrightarrow> lessp y z = Some True \<Longrightarrow> lessp x z = Some True"
    and linear: "ok x \<Longrightarrow> ok y \<Longrightarrow> x \<noteq> y \<Longrightarrow> lessp x y = Some True \<or> lessp y x = Some True"
begin

lemma asym: "ok x \<Longrightarrow> ok y \<Longrightarrow> lessp x y = Some True \<Longrightarrow> lessp y x = Some False"
  using trans[of x y x] irrefl[of x] total[of y x] by auto

lemma exactly_one:
  "ok x \<Longrightarrow> ok y \<Longrightarrow> (lessp x y = Some True \<and> x \<noteq> y \<and> lessp y x = Some False) \<or>
    (lessp x y = Some False \<and> x = y \<and> lessp y x = Some False) \<or> (lessp x y = Some False \<and> x \<noteq> y \<and> lessp y x = Some True)"
  using asym[of x y] asym[of y x] irrefl[of x] linear[of x y] by metis

end

text \<open>Sorting a slice of distinct addresses: the result is the one ascending list of them.\<close>

context address_order
begin

lemma insert_ordered:
  assumes "ok x" "\<forall>y \<in> set ys. ok y \<and> x \<noteq> y" "sorted_wrt (\<lambda>a b. lessp a b = Some True) ys"
  shows "sorted_wrt (\<lambda>a b. lessp a b = Some True) (sort_insert (\<lambda>a b. lessp a b = Some True) x ys)"
  using assms
proof (induction ys)
  case (Cons y ys)
  show ?case
  proof (cases "lessp y x = Some True")
    case False
    with Cons.prems linear[of x y] have xy: "lessp x y = Some True" by auto
    with Cons.prems have "lessp x z = Some True" if "z \<in> set ys" for z using that trans[of x y z] by simp
    with False xy Cons.prems show ?thesis by simp
  qed (use Cons in simp)
qed simp

lemma sort_ordered:
  assumes "\<forall>x \<in> set xs. ok x" "distinct xs"
  shows "sorted_wrt (\<lambda>a b. lessp a b = Some True) (sort_Stable (\<lambda>a b. lessp a b = Some True) xs)"
  using assms
proof (induction xs)
  case (Cons x xs)
  have "sort_Stable (\<lambda>a b. lessp a b = Some True) (x # xs) =
      sort_insert (\<lambda>a b. lessp a b = Some True) x (sort_Stable (\<lambda>a b. lessp a b = Some True) xs)"
    by (simp add: sort_Stable_def)
  with Cons show ?case using insert_ordered[of x "sort_Stable (\<lambda>a b. lessp a b = Some True) xs"] by auto
qed (simp add: sort_Stable_def)

lemma ordered_unique:
  assumes "\<forall>x \<in> set xs. ok x" "sorted_wrt (\<lambda>a b. lessp a b = Some True) xs" "sorted_wrt (\<lambda>a b. lessp a b = Some True) ys"
    and "set xs = set ys"
  shows "xs = ys"
  using assms
proof (induction xs arbitrary: ys)
  case (Cons x xs)
  then obtain y zs where ys: "ys = y # zs" by (cases ys) auto
  have ok: "ok a" if "a \<in> insert y (set zs)" for a using that Cons.prems(1,4) ys by auto
  have notin: "x \<notin> set xs" "y \<notin> set zs"
    using Cons.prems(1-3) ok[of y] irrefl[of x] irrefl[of y] ys by auto
  have "x = y"
  proof (rule ccontr)
    assume ne: "x \<noteq> y"
    then have "x \<in> set zs" "y \<in> set xs" using Cons.prems(4) ys by auto
    then have "lessp y x = Some True" "lessp x y = Some True" using Cons.prems(2,3) ys by auto
    then show False using asym[of x y] Cons.prems(1) ok[of y] by simp
  qed
  then have "set xs = set zs" using Cons.prems(4) ys notin by (simp add: insert_ident)
  then have "xs = zs" using Cons.IH[of zs] Cons.prems(1-3) ys by simp
  with \<open>x = y\<close> ys show ?case by simp
qed simp

lemma sort_Slice:
  assumes "\<forall>x \<in> set xs. ok x" "distinct xs"
  shows "\<exists>l. sort_SliceStable lessp xs = Some l \<and> set l = set xs \<and> sorted_wrt (\<lambda>a b. lessp a b = Some True) l"
proof -
  have "\<not> list_ex (\<lambda>x. list_ex (\<lambda>y. lessp x y = None) xs) xs" using assms(1) total by (force simp: list_ex_iff)
  then show ?thesis using sort_ordered[OF assms] by (simp add: sort_SliceStable_def)
qed

end

text \<open>The comparison of two paths step by step, the shorter path first.\<close>

fun lex_loop :: "('a \<Rightarrow> 'a \<Rightarrow> bool option) \<Rightarrow> 'a list \<Rightarrow> 'a list \<Rightarrow> bool option" where
  "lex_loop le (x # xs) (y # ys) = (if x \<noteq> y then le x y else lex_loop le xs ys)"
| "lex_loop le _ _ = Some False"

definition path_less :: "('a \<Rightarrow> 'a \<Rightarrow> bool option) \<Rightarrow> 'a list \<Rightarrow> 'a list \<Rightarrow> bool option" where
  "path_less le xs ys = (if length xs \<noteq> length ys then Some (length xs < length ys) else lex_loop le xs ys)"

context address_order
begin

lemma lex_loop_total: "list_all ok xs \<Longrightarrow> list_all ok ys \<Longrightarrow> \<exists>b. lex_loop lessp xs ys = Some b"
proof (induction xs arbitrary: ys)
  case (Cons x xs)
  then show ?case using total by (cases ys) auto
qed (auto intro: exI[of _ False])

lemma lex_loop_irrefl: "lex_loop lessp xs xs = Some False"
  by (induction xs) auto

lemma lex_loop_trans:
  assumes "length xs = length ys" "length ys = length zs"
  shows "list_all ok xs \<Longrightarrow> list_all ok ys \<Longrightarrow> list_all ok zs \<Longrightarrow>
    lex_loop lessp xs ys = Some True \<Longrightarrow> lex_loop lessp ys zs = Some True \<Longrightarrow> lex_loop lessp xs zs = Some True"
  using assms
proof (induction xs ys zs rule: list_induct3)
  case (Cons x xs y ys z zs)
  then show ?case
    using trans[of x y z] asym[of x y] by (auto split: if_splits)
qed simp

lemma lex_loop_linear:
  assumes "length xs = length ys"
  shows "list_all ok xs \<Longrightarrow> list_all ok ys \<Longrightarrow> xs \<noteq> ys \<Longrightarrow> lex_loop lessp xs ys = Some True \<or> lex_loop lessp ys xs = Some True"
  using assms
proof (induction xs ys rule: list_induct2)
  case (Cons x xs y ys)
  then show ?case using linear[of x y] by (cases "x = y") auto
qed simp

lemma path_order: "address_order (path_less lessp) (list_all ok)"
proof (unfold_locales, goal_cases)
  case (1 x y)
  then show ?case using lex_loop_total by (simp add: path_less_def)
next
  case (2 x)
  then show ?case by (simp add: path_less_def lex_loop_irrefl)
next
  case (3 x y z)
  then show ?case using lex_loop_trans[of x y z] by (auto simp: path_less_def split: if_splits)
next
  case (4 x y)
  then show ?case using lex_loop_linear[of x y] by (auto simp: path_less_def)
qed

end

text \<open>The lexicographic combination that the composite addresses use.\<close>

definition lex_less :: "('a \<Rightarrow> 'a \<Rightarrow> bool option) \<Rightarrow> ('b \<Rightarrow> 'b \<Rightarrow> bool option) \<Rightarrow> 'a \<times> 'b \<Rightarrow> 'a \<times> 'b \<Rightarrow> bool option" where
  "lex_less lessA lessB x y =
     (if fst x \<noteq> fst y then lessA (fst x) (fst y) else if snd x \<noteq> snd y then lessB (snd x) (snd y) else Some False)"

locale address_pair = fst: address_order lessA okA + snd: address_order lessB okB
  for lessA :: "'a \<Rightarrow> 'a \<Rightarrow> bool option" and okA and lessB :: "'b \<Rightarrow> 'b \<Rightarrow> bool option" and okB
begin

lemma lex_order: "address_order (lex_less lessA lessB) (\<lambda>x. okA (fst x) \<and> okB (snd x))"
proof (unfold_locales, goal_cases)
  case (1 x y)
  then show ?case using fst.total[of "fst x" "fst y"] snd.total[of "snd x" "snd y"] by (auto simp: lex_less_def)
next
  case (2 x)
  then show ?case by (simp add: lex_less_def)
next
  case (3 x y z)
  then show ?case
    using fst.trans[of "fst x" "fst y" "fst z"] snd.trans[of "snd x" "snd y" "snd z"]
      fst.asym[of "fst x" "fst y"] snd.asym[of "snd x" "snd y"]
    by (auto simp: lex_less_def split: if_splits)
next
  case (4 x y)
  then show ?case using fst.linear[of "fst x" "fst y"] snd.linear[of "snd x" "snd y"]
    by (auto simp: lex_less_def prod_eq_iff)
qed

end

text \<open>An order transferred along an injection.\<close>

lemma address_order_inj:
  assumes "address_order le okp" "\<And>x y. f x = f y \<Longrightarrow> x = y"
    and "\<And>x y. lessp x y = le (f x) (f y)" "\<And>x. ok x \<Longrightarrow> okp (f x)"
  shows "address_order lessp ok"
proof -
  note t = address_order.total[OF assms(1)] and i = address_order.irrefl[OF assms(1)]
    and r = address_order.trans[OF assms(1)] and l = address_order.linear[OF assms(1)]
  show ?thesis
  proof (unfold_locales, unfold assms(3), goal_cases)
    case (1 x y)
    then show ?case by (intro t assms(4))
  next
    case (2 x)
    then show ?case by (intro i assms(4))
  next
    case (3 x y z)
    then show ?case using r[of "f x" "f y" "f z"] assms(4) by blast
  next
    case (4 x y)
    then show ?case using l[of "f x" "f y"] assms(2,4) by blast
  qed
qed

lemma address_order_linorder: "address_order (\<lambda>x y :: 'a :: linorder. Some (x < y)) (\<lambda>_. True)"
  by unfold_locales auto

interpretation string_order: address_order "\<lambda>x y :: string. Some (x < y)" "\<lambda>_. True"
  by (rule address_order_linorder)

interpretation key: address_order InstanceKeyLess "\<lambda>k. \<not> IsPlaceholder k"
proof (unfold_locales, goal_cases)
  case (1 x y)
  then show ?case by (cases x; cases y) (auto simp: InstanceKeyLess_def)
next
  case (2 x)
  then show ?case by (simp add: InstanceKeyLess_def)
next
  case (3 x y z)
  then show ?case by (cases x; cases y; cases z) (auto simp: InstanceKeyLess_def split: if_splits)
next
  case (4 x y)
  then show ?case by (cases x; cases y) (auto simp: InstanceKeyLess_def)
qed

section \<open>Rendering is injective\<close>

text \<open>A reader for the quoted strings: the text up to the closing quote, and what follows it.\<close>

fun hex_val :: "char \<Rightarrow> nat" where
  "hex_val c = (let n = of_char c in if n < 58 then n - 48 else n - 87)"

fun unquote :: "string \<Rightarrow> (string \<times> string) option" where
  "unquote [] = None"
| "unquote (c # cs) =
     (if c = CHR 0x22 then Some ([], cs)
      else if c = CHR 0x5C then
        (case cs of
           [] \<Rightarrow> None
         | d # ds \<Rightarrow>
             if d = CHR ''u'' then
               (case ds of a # b # x # y # rest \<Rightarrow>
                  map_option (apfst (Cons (char_of (16 * hex_val x + hex_val y)))) (unquote rest)
                | _ \<Rightarrow> None)
             else map_option (apfst (Cons (if d = CHR ''n'' then CHR 0x0A else if d = CHR ''r'' then CHR 0x0D
                     else if d = CHR ''t'' then CHR 0x09 else d))) (unquote ds))
      else if (c = CHR ''$'' \<or> c = CHR ''%'') \<and> (case cs of d # e # _ \<Rightarrow> d = c \<and> e = CHR ''{'' | _ \<Rightarrow> False) then
        map_option (apfst (Cons c)) (unquote (tl cs))
      else map_option (apfst (Cons c)) (unquote cs))"

lemma hex_roundtrip: "d < 16 \<Longrightarrow> hex_val (hex_char d) = d"
  by (simp add: hex_char_def Let_def of_char_of)

lemma char_of_split: "char_of (16 * ((of_char c :: nat) div 16) + (of_char c :: nat) mod 16) = c"
  by simp

lemma quote_rune_head: "quote_rune r s \<noteq> []" "hd (quote_rune r s) = CHR ''{'' \<longleftrightarrow> r = CHR ''{''"
proof -
  show "quote_rune r s \<noteq> []" by (simp add: quote_rune_def unicode_escape_def Let_def)
  show "hd (quote_rune r s) = CHR ''{'' \<longleftrightarrow> r = CHR ''{''"
  proof (cases "r = CHR ''{''")
    case True
    then show ?thesis by (simp add: quote_rune_def IsPrint_def)
  next
    case False
    then show ?thesis by (simp add: quote_rune_def unicode_escape_def Let_def)
  qed
qed

lemma quote_body_head:
  "hd (quote_body s @ CHR 0x22 # rest) = CHR ''{'' \<longleftrightarrow> s \<noteq> [] \<and> hd s = CHR ''{''"
  by (cases s) (simp_all add: quote_rune_head)

lemma quote_rune_plain:
  assumes "r \<notin> {CHR 0x0A, CHR 0x0D, CHR 0x09, CHR 0x22, CHR 0x5C, CHR ''$'', CHR ''%''}" "IsPrint r"
  shows "quote_rune r remain = [r]"
  using assms by (simp add: quote_rune_def)

lemma unquote_unicode: "unquote (unicode_escape r @ xs) = map_option (apfst (Cons r)) (unquote xs)"
proof -
  have lt: "(of_char r :: nat) div 16 < 16" "(of_char r :: nat) mod 16 < 16"
    using nat_of_char_less_256[of r] by (simp_all add: div_less_iff_less_mult)
  have "char_of (16 * hex_val (hex_char (of_char r div 16)) + hex_val (hex_char (of_char r mod 16))) = r"
    unfolding hex_roundtrip[OF lt(1)] hex_roundtrip[OF lt(2)] by (rule char_of_split)
  then show ?thesis by (simp add: unicode_escape_def Let_def del: hex_val.simps)
qed

lemma unquote_dollar:
  assumes r: "r = CHR ''$'' \<or> r = CHR ''%''"
  shows "unquote (quote_rune r s @ quote_body s @ CHR 0x22 # rest) =
    map_option (apfst (Cons r)) (unquote (quote_body s @ CHR 0x22 # rest))"
proof (cases "s \<noteq> [] \<and> hd s = CHR ''{''")
  case True
  then obtain s' where s: "s = CHR ''{'' # s'" by (cases s) auto
  then have "quote_body s = CHR ''{'' # quote_body s'" by (simp add: quote_rune_def IsPrint_def)
  with s r show ?thesis by (auto simp: quote_rune_def)
next
  case False
  have q: "quote_rune r s = [r]" using r False by (auto simp: quote_rune_def)
  have "\<not> (case quote_body s @ CHR 0x22 # rest of d # e # _ \<Rightarrow> d = r \<and> e = CHR ''{'' | _ \<Rightarrow> False)"
  proof (cases s)
    case Nil
    then show ?thesis using r by (auto split: list.split)
  next
    case (Cons x s')
    show ?thesis
    proof (cases "x = r")
      case True
      then have "quote_rune x s' = [r] \<and> \<not> (s' \<noteq> [] \<and> hd s' = CHR ''{'') \<or> quote_rune x s' = [r, r]"
        using r by (auto simp: quote_rune_def)
      then show ?thesis
        using Cons r quote_body_head[of s' rest] by (auto split: list.split)
    next
      case False
      then have "hd (quote_rune x s') \<noteq> r" "quote_rune x s' \<noteq> []"
        using r by (auto simp: quote_rune_def unicode_escape_def Let_def)
      then show ?thesis using Cons by (cases "quote_rune x s'") (auto split: list.split)
    qed
  qed
  with q r show ?thesis by auto
qed

lemma unquote_quote: "unquote (quote_body s @ CHR 0x22 # rest) = Some (s, rest)"
proof (induction s)
  case (Cons r s)
  let ?xs = "quote_body s @ CHR 0x22 # rest"
  have "unquote (quote_rune r s @ ?xs) = map_option (apfst (Cons r)) (unquote ?xs)"
  proof (cases "r \<in> {CHR 0x0A, CHR 0x0D, CHR 0x09, CHR 0x22, CHR 0x5C}")
    case True
    then show ?thesis by (auto simp: quote_rune_def)
  next
    case False
    show ?thesis
    proof (cases "r = CHR ''$'' \<or> r = CHR ''%''")
      case True
      then show ?thesis by (rule unquote_dollar)
    next
      case no_dollar: False
      show ?thesis
      proof (cases "IsPrint r")
        case True
        with False no_dollar show ?thesis by (simp add: quote_rune_plain)
      next
        case np: False
        with False no_dollar have "quote_rune r s = unicode_escape r" by (simp add: quote_rune_def)
        then show ?thesis by (simp only: unquote_unicode)
      qed
    qed
  qed
  with Cons show ?case by simp
qed simp

lemma toHCLQuotedString_eq: "toHCLQuotedString s = CHR 0x22 # quote_body s @ [CHR 0x22]"
  by (simp add: toHCLQuotedString_def)

lemma int_dec_chars: "c \<in> set (int_dec i) \<Longrightarrow> c \<noteq> CHR '']'' \<and> c \<noteq> CHR 0x22 \<and> c \<noteq> CHR ''*''"
proof -
  assume c: "c \<in> set (int_dec i)"
  then have "c = CHR ''-'' \<or> (\<exists>n. c \<in> set (nat_dec n))" by (auto simp: int_dec_def split: if_splits)
  then show ?thesis
  proof
    assume "\<exists>n. c \<in> set (nat_dec n)"
    then obtain d where "d < 10" "c = digit_char d" using nat_dec_digits by blast
    then have r: "48 \<le> (of_char c :: nat) \<and> (of_char c :: nat) < 58" by (rule digit_char_range)
    show ?thesis
    proof (intro conjI notI)
      assume "c = CHR '']''" with r show False by simp
    next
      assume "c = CHR 0x22" with r show False by simp
    next
      assume "c = CHR ''*''" with r show False by simp
    qed
  qed simp
qed

lemma takeWhile_stop: "\<forall>c \<in> set xs. P c \<Longrightarrow> \<not> P y \<Longrightarrow> takeWhile P (xs @ y # ys) = xs \<and> dropWhile P (xs @ y # ys) = y # ys"
  by (induction xs) auto

lemma int_dec_prefix:
  assumes "int_dec i @ CHR '']'' # r = int_dec j @ CHR '']'' # r'"
  shows "i = j \<and> r = r'"
proof -
  have "\<forall>c \<in> set (int_dec k). c \<noteq> CHR '']''" for k using int_dec_chars by blast
  then have "takeWhile (\<lambda>c. c \<noteq> CHR '']'') (int_dec k @ CHR '']'' # x) = int_dec k"
    "dropWhile (\<lambda>c. c \<noteq> CHR '']'') (int_dec k @ CHR '']'' # x) = CHR '']'' # x" for k x
    using takeWhile_stop[of "int_dec k" "\<lambda>c. c \<noteq> CHR '']''"] by simp_all
  with assms have "int_dec i = int_dec j" "CHR '']'' # r = CHR '']'' # r'" by metis+
  then show ?thesis by (simp add: int_dec_inj)
qed

lemma int_dec_hd: "int_dec i \<noteq> [] \<and> hd (int_dec i) \<noteq> CHR 0x22"
  using int_dec_chars[of "hd (int_dec i)" i] nat_dec_not_Nil by (auto simp: int_dec_def split: if_splits)

text \<open>A key ends where its rendering ends, whatever follows.\<close>

lemma key_String_prefix:
  assumes eq: "key_String k @ r = key_String k' @ r'"
    and np: "\<not> IsPlaceholder k" "\<not> IsPlaceholder k'"
    and r: "r = [] \<or> hd r \<noteq> CHR ''[''" "r' = [] \<or> hd r' \<noteq> CHR ''[''"
  shows "k = k' \<and> r = r'"
proof (cases k; cases k')
  fix i j assume "k = IntKey i" "k' = IntKey j"
  with eq int_dec_prefix[of i r j r'] show ?thesis by simp
next
  fix s t assume st: "k = StringKey s" "k' = StringKey t"
  with eq have "unquote (quote_body s @ CHR 0x22 # CHR '']'' # r) = unquote (quote_body t @ CHR 0x22 # CHR '']'' # r')"
    by (simp add: toHCLQuotedString_eq)
  with st show ?thesis unfolding unquote_quote by simp
next
  fix i s assume "k = IntKey i" "k' = StringKey s"
  with eq int_dec_hd[of i] show ?thesis by (cases "int_dec i") (auto simp: toHCLQuotedString_eq)
next
  fix i s assume "k = StringKey s" "k' = IntKey i"
  with eq int_dec_hd[of i] show ?thesis by (cases "int_dec i") (auto simp: toHCLQuotedString_eq)
qed (use eq np r in auto)

lemma key_String_head: "k = NoKey \<or> (key_String k \<noteq> [] \<and> hd (key_String k) = CHR ''['')"
  by (cases k) auto

section \<open>Dotted paths\<close>

text \<open>
  Every address is rendered as a sequence of names, each with an optional key, separated
  by dots.  A name is not empty and has neither dots nor brackets, as every identifier of
  the language.
\<close>

type_synonym segment = "string \<times> InstanceKey"

definition valid_name :: "string \<Rightarrow> bool" where
  "valid_name n \<longleftrightarrow> n \<noteq> [] \<and> CHR ''.'' \<notin> set n \<and> CHR ''['' \<notin> set n"

definition valid_segment :: "segment \<Rightarrow> bool" where
  "valid_segment s \<longleftrightarrow> valid_name (fst s) \<and> \<not> IsPlaceholder (snd s)"

fun render :: "segment list \<Rightarrow> string" where
  "render [] = []"
| "render [(n, k)] = n @ key_String k"
| "render ((n, k) # s # ss) = n @ key_String k @ ''.'' @ render (s # ss)"

definition is_sep :: "char \<Rightarrow> bool" where
  "is_sep c \<longleftrightarrow> c = CHR ''.'' \<or> c = CHR ''[''"

lemma name_prefix:
  assumes "n @ r = n' @ r'" "valid_name n" "valid_name n'" "r = [] \<or> is_sep (hd r)" "r' = [] \<or> is_sep (hd r')"
  shows "n = n' \<and> r = r'"
proof -
  have "takeWhile (\<lambda>c. \<not> is_sep c) (m @ x) = m" "dropWhile (\<lambda>c. \<not> is_sep c) (m @ x) = x"
    if "valid_name m" "x = [] \<or> is_sep (hd x)" for m x
  proof -
    have no: "\<forall>c \<in> set m. \<not> is_sep c" using that(1) by (auto simp: valid_name_def is_sep_def)
    show "takeWhile (\<lambda>c. \<not> is_sep c) (m @ x) = m" "dropWhile (\<lambda>c. \<not> is_sep c) (m @ x) = x"
      using that(2) no by (cases x; auto simp: takeWhile_append2 dropWhile_append2)+
  qed
  with assms show ?thesis by metis
qed

definition rest_string :: "segment list \<Rightarrow> string" where
  "rest_string ss = (if ss = [] then [] else CHR ''.'' # render ss)"

lemma render_Cons: "render ((n, k) # ss) = n @ key_String k @ rest_string ss"
  by (cases ss) (auto simp: rest_string_def)

lemma render_inj:
  assumes "render xs = render ys" "list_all valid_segment xs" "list_all valid_segment ys"
  shows "xs = ys"
  using assms
proof (induction xs arbitrary: ys)
  case Nil
  then show ?case
  proof (cases ys)
    case (Cons y ys')
    with Nil show ?thesis by (cases y) (auto simp: render_Cons valid_segment_def valid_name_def)
  qed simp
next
  case (Cons x xs)
  obtain n k where x: "x = (n, k)" by fastforce
  show ?case
  proof (cases ys)
    case Nil
    with Cons.prems x show ?thesis by (auto simp: render_Cons valid_segment_def valid_name_def)
  next
    case ys: (Cons y ys')
    obtain n' k' where y: "y = (n', k')" by fastforce
    have v: "valid_name n" "valid_name n'" "\<not> IsPlaceholder k" "\<not> IsPlaceholder k'"
      using Cons.prems x y ys by (auto simp: valid_segment_def)
    have sep: "key_String k'' @ rest_string ss = [] \<or> is_sep (hd (key_String k'' @ rest_string ss))" for k'' ss
      using key_String_head[of k''] by (auto simp: rest_string_def is_sep_def hd_append)
    have "n @ (key_String k @ rest_string xs) = n' @ (key_String k' @ rest_string ys')"
      using Cons.prems(1) x y ys by (simp add: render_Cons)
    from name_prefix[OF this v(1,2) sep sep] have n: "n = n'" "key_String k @ rest_string xs = key_String k' @ rest_string ys'" by auto
    have dot: "rest_string ss = [] \<or> hd (rest_string ss) \<noteq> CHR ''[''" for ss by (simp add: rest_string_def)
    from key_String_prefix[OF n(2) v(3,4) dot dot] have k: "k = k'" "rest_string xs = rest_string ys'" by auto
    have ne: "ss \<noteq> [] \<Longrightarrow> list_all valid_segment ss \<Longrightarrow> render ss \<noteq> []" for ss
      by (cases ss) (auto simp: render_Cons valid_segment_def valid_name_def)
    have "render xs = render ys'" using k(2) by (auto simp: rest_string_def split: if_splits)
    with Cons.IH[of ys'] Cons.prems x y ys n k show ?thesis by simp
  qed
qed

end
