(* ===== verification/Addr_Module.thy ===== *)
theory Addr_Module
  imports Addr_Key Tfdiags
begin

text \<open>
  Module addresses (\<^verbatim>\<open>internal/addrs/module.go\<close>, \<^verbatim>\<open>module_instance.go\<close>, \<^verbatim>\<open>module_call.go\<close>): the static
  path of a module call (\<open>Module\<close>), the path of one of its instances (\<open>ModuleInstance\<close>), the calls
  that lead to them, and the parsers that read such a path from the front of an HCL traversal.

  The HCL library turns source text into a traversal; the datatype \<open>traverser\<close> has the kinds of
  step the parsers distinguish.  A number index carries the result of \<^verbatim>\<open>gocty.FromCtyValue\<close>: an
  integer, or the text of its error.  Source ranges are left out.  Slices that panic on the root
  module return \<open>None\<close> there.
\<close>

section \<open>Static paths\<close>

type_synonym Module = "string list"

definition mod_IsRoot :: "Module \<Rightarrow> bool" where
  "mod_IsRoot m = (length m = 0)"

fun join_steps :: "string \<Rightarrow> string list \<Rightarrow> string" where
  "join_steps sep [] = []"
| "join_steps sep (step # steps) = sep @ ''module.'' @ step @ join_steps ''.'' steps"

definition mod_String :: "Module \<Rightarrow> string" where
  "mod_String m = (if length m = 0 then [] else join_steps [] m)"

fun mod_Equal :: "Module \<Rightarrow> Module \<Rightarrow> bool" where
  "mod_Equal [] [] = True"
| "mod_Equal (a # as) (b # bs) = (if a \<noteq> b then False else mod_Equal as bs)"
| "mod_Equal _ _ = False"

definition mod_Child :: "Module \<Rightarrow> string \<Rightarrow> Module" where
  "mod_Child m name = m @ [name]"

definition mod_Parent :: "Module \<Rightarrow> Module" where
  "mod_Parent m = (if length m = 0 then m else butlast m)"

record ModuleCall =
  call_Name :: string

definition mod_Call :: "Module \<Rightarrow> (Module \<times> ModuleCall) option" where
  "mod_Call m = (if length m = 0 then None else Some (butlast m, \<lparr>call_Name = last m\<rparr>))"

definition mod_Ancestors :: "Module \<Rightarrow> Module list" where
  "mod_Ancestors m = map (\<lambda>i. take i m) [0..<length m + 1]"

section \<open>Instance paths\<close>

record ModuleInstanceStep =
  step_Name :: string
  step_InstanceKey :: InstanceKey

type_synonym ModuleInstance = "ModuleInstanceStep list"

definition mi_IsRoot :: "ModuleInstance \<Rightarrow> bool" where
  "mi_IsRoot m = (length m = 0)"

definition UnkeyedInstanceShim :: "Module \<Rightarrow> ModuleInstance" where
  "UnkeyedInstanceShim m = map (\<lambda>name. \<lparr>step_Name = name, step_InstanceKey = NoKey\<rparr>) m"

definition mi_Child :: "ModuleInstance \<Rightarrow> string \<Rightarrow> InstanceKey \<Rightarrow> ModuleInstance" where
  "mi_Child m name key = m @ [\<lparr>step_Name = name, step_InstanceKey = key\<rparr>]"

definition mi_Parent :: "ModuleInstance \<Rightarrow> ModuleInstance" where
  "mi_Parent m = (if length m = 0 then m else butlast m)"

definition mi_IsPlaceholder :: "ModuleInstance \<Rightarrow> bool" where
  "mi_IsPlaceholder m = list_ex (\<lambda>step. IsPlaceholder (step_InstanceKey step)) m"

definition step_String :: "ModuleInstanceStep \<Rightarrow> string" where
  "step_String s = (if step_InstanceKey s \<noteq> NoKey then step_Name s @ key_String (step_InstanceKey s) else step_Name s)"

definition mi_String :: "ModuleInstance \<Rightarrow> string" where
  "mi_String m = (if length m = 0 then [] else join_steps [] (map step_String m))"

fun mi_Equal :: "ModuleInstance \<Rightarrow> ModuleInstance \<Rightarrow> bool" where
  "mi_Equal [] [] = True"
| "mi_Equal (a # as) (b # bs) = (if a \<noteq> b then False else mi_Equal as bs)"
| "mi_Equal _ _ = False"

fun mi_Less_loop :: "ModuleInstance \<Rightarrow> ModuleInstance \<Rightarrow> bool option" where
  "mi_Less_loop (mS # ms) (oS # os) =
     (if step_Name mS \<noteq> step_Name oS then Some (step_Name mS < step_Name oS)
      else if step_InstanceKey mS \<noteq> step_InstanceKey oS then InstanceKeyLess (step_InstanceKey mS) (step_InstanceKey oS)
      else mi_Less_loop ms os)"
| "mi_Less_loop _ _ = Some False"

definition mi_Less :: "ModuleInstance \<Rightarrow> ModuleInstance \<Rightarrow> bool option" where
  "mi_Less m ot = (if length m \<noteq> length ot then Some (length m < length ot) else mi_Less_loop m ot)"

definition mi_Ancestors :: "ModuleInstance \<Rightarrow> ModuleInstance list" where
  "mi_Ancestors m = map (\<lambda>i. take i m) [0..<length m + 1]"

fun mi_IsAncestor_loop :: "ModuleInstance \<Rightarrow> ModuleInstance \<Rightarrow> bool" where
  "mi_IsAncestor_loop (ms # m) (os # ot) =
     (if step_Name ms \<noteq> step_Name os then False
      else if step_InstanceKey ms \<noteq> NoKey \<and> step_InstanceKey ms \<noteq> step_InstanceKey os then False
      else mi_IsAncestor_loop m ot)"
| "mi_IsAncestor_loop _ _ = True"

definition mi_IsAncestor :: "ModuleInstance \<Rightarrow> ModuleInstance \<Rightarrow> bool" where
  "mi_IsAncestor m ot = (if length m \<ge> length ot then False else mi_IsAncestor_loop m ot)"

record ModuleCallInstance =
  mci_Call :: ModuleCall
  mci_Key :: InstanceKey

record AbsModuleCall =
  amc_Module :: ModuleInstance
  amc_Call :: ModuleCall

definition mi_Call :: "ModuleInstance \<Rightarrow> (ModuleInstance \<times> ModuleCall) option" where
  "mi_Call m = (if length m = 0 then None else Some (butlast m, \<lparr>call_Name = step_Name (last m)\<rparr>))"

definition mi_CallInstance :: "ModuleInstance \<Rightarrow> (ModuleInstance \<times> ModuleCallInstance) option" where
  "mi_CallInstance m =
     (if length m = 0 then None
      else Some (butlast m, \<lparr>mci_Call = \<lparr>call_Name = step_Name (last m)\<rparr>, mci_Key = step_InstanceKey (last m)\<rparr>))"

definition mi_Module :: "ModuleInstance \<Rightarrow> Module" where
  "mi_Module m = (if length m = 0 then [] else map step_Name m)"

fun HasSameModule_loop :: "ModuleInstance \<Rightarrow> ModuleInstance \<Rightarrow> bool" where
  "HasSameModule_loop (a # as) (b # bs) = (if step_Name a \<noteq> step_Name b then False else HasSameModule_loop as bs)"
| "HasSameModule_loop _ _ = True"

definition HasSameModule :: "ModuleInstance \<Rightarrow> ModuleInstance \<Rightarrow> bool" where
  "HasSameModule m other = (if length m \<noteq> length other then False else HasSameModule_loop m other)"

fun IsForModule_loop :: "ModuleInstance \<Rightarrow> Module \<Rightarrow> bool" where
  "IsForModule_loop (a # as) (b # bs) = (if step_Name a \<noteq> b then False else IsForModule_loop as bs)"
| "IsForModule_loop _ _ = True"

definition IsForModule :: "ModuleInstance \<Rightarrow> Module \<Rightarrow> bool" where
  "IsForModule m module = (if length m \<noteq> length module then False else IsForModule_loop m module)"

text \<open>The loop over the steps of the call's module; reading \<^verbatim>\<open>m[i]\<close> past the end panics.\<close>

fun declared_loop :: "ModuleInstance \<Rightarrow> ModuleInstance \<Rightarrow> bool option" where
  "declared_loop [] m = Some True"
| "declared_loop (s # inst) [] = None"
| "declared_loop (s # inst) (t # m) = (if s \<noteq> t then Some False else declared_loop inst m)"

definition IsDeclaredByCall :: "ModuleInstance \<Rightarrow> AbsModuleCall \<Rightarrow> bool option" where
  "IsDeclaredByCall m other =
     (if length m > length (amc_Module other) + 1 \<or> length m = 0 \<and> length (amc_Module other) = 0 then Some False
      else case declared_loop (amc_Module other) m of
        Some True \<Rightarrow> if m = [] then None else Some (call_Name (amc_Call other) = step_Name (last m))
      | r \<Rightarrow> r)"

section \<open>Calls\<close>

definition call_String :: "ModuleCall \<Rightarrow> string" where
  "call_String c = ''module.'' @ call_Name c"

definition call_Instance :: "ModuleCall \<Rightarrow> InstanceKey \<Rightarrow> ModuleCallInstance" where
  "call_Instance c key = \<lparr>mci_Call = c, mci_Key = key\<rparr>"

definition call_Absolute :: "ModuleCall \<Rightarrow> ModuleInstance \<Rightarrow> AbsModuleCall" where
  "call_Absolute c moduleAddr = \<lparr>amc_Module = moduleAddr, amc_Call = c\<rparr>"

definition mi_ChildCall :: "ModuleInstance \<Rightarrow> string \<Rightarrow> AbsModuleCall" where
  "mi_ChildCall m name = \<lparr>amc_Module = m, amc_Call = \<lparr>call_Name = name\<rparr>\<rparr>"

definition amc_String :: "AbsModuleCall \<Rightarrow> string" where
  "amc_String c =
     (if length (amc_Module c) = 0 then ''module.'' @ call_Name (amc_Call c)
      else mi_String (amc_Module c) @ ''.module.'' @ call_Name (amc_Call c))"

definition amc_Instance :: "AbsModuleCall \<Rightarrow> InstanceKey \<Rightarrow> ModuleInstance" where
  "amc_Instance c key = amc_Module c @ [\<lparr>step_Name = call_Name (amc_Call c), step_InstanceKey = key\<rparr>]"

definition amc_Equal :: "AbsModuleCall \<Rightarrow> AbsModuleCall \<Rightarrow> bool" where
  "amc_Equal c other \<longleftrightarrow> mi_Equal (amc_Module c) (amc_Module other) \<and> call_Name (amc_Call c) = call_Name (amc_Call other)"

definition mci_String :: "ModuleCallInstance \<Rightarrow> string" where
  "mci_String c =
     (if mci_Key c = NoKey then call_String (mci_Call c)
      else ''module.'' @ call_Name (mci_Call c) @ key_String (mci_Key c))"

definition mci_Absolute :: "ModuleCallInstance \<Rightarrow> ModuleInstance \<Rightarrow> ModuleInstance" where
  "mci_Absolute c moduleAddr = moduleAddr @ [\<lparr>step_Name = call_Name (mci_Call c), step_InstanceKey = mci_Key c\<rparr>]"

definition mci_ModuleInstance :: "ModuleCallInstance \<Rightarrow> ModuleInstance \<Rightarrow> ModuleInstance" where
  "mci_ModuleInstance c caller = mi_Child caller (call_Name (mci_Call c)) (mci_Key c)"

section \<open>Parsing\<close>

datatype index_key = KeyString string | KeyNumber "string + int" | KeyOther

datatype traverser = TraverseRoot string | TraverseAttr string | TraverseIndex index_key | TraverseSplat

type_synonym Traversal = "traverser list"

definition addr_error :: "string \<Rightarrow> string \<Rightarrow> append_item" where
  "addr_error summary detail = ItemHclDiagnostic
     \<lparr>hcl_Severity = DiagError, hcl_Summary = summary, hcl_Detail = detail, hcl_Subject = None, hcl_Context = None,
      hcl_Extra = NilExtra\<rparr>"

text \<open>Appending an error never panics.\<close>

definition with_error :: "Diagnostics \<Rightarrow> string \<Rightarrow> string \<Rightarrow> Diagnostics" where
  "with_error diags summary detail = item_diags (ItemDiagnostics diags) @ item_diags (addr_error summary detail)"

fun traverser_name :: "traverser \<Rightarrow> string option" where
  "traverser_name (TraverseRoot n) = Some n"
| "traverser_name (TraverseAttr n) = Some n"
| "traverser_name _ = None"

definition getModuleName :: "Traversal \<Rightarrow> string \<times> bool \<times> Diagnostics" where
  "getModuleName remain =
     (case remain of
        [] \<Rightarrow> ([], False, [])
      | tt # remain' \<Rightarrow>
          (case traverser_name tt of
             None \<Rightarrow> ([], False, with_error [] ''Invalid address operator''
                       ''Module address prefix must be followed by dot and then a name.'')
           | Some next \<Rightarrow>
               if next \<noteq> ''module'' then ([], False, [])
               else case remain' of
                 TraverseAttr name # _ \<Rightarrow> (name, True, [])
               | _ \<Rightarrow> ([], False, with_error [] ''Invalid address operator''
                       ''Prefix \"module.\" must be followed by a module name.'')))"

text \<open>The remaining traversal starts with a root step.\<close>

fun normalize_remain :: "Traversal \<Rightarrow> Traversal" where
  "normalize_remain (TraverseAttr n # rest) = TraverseRoot n # rest"
| "normalize_remain remain = remain"

definition parse_step_key :: "index_key \<Rightarrow> Diagnostics \<Rightarrow> InstanceKey \<times> Diagnostics" where
  "parse_step_key k diags =
     (case k of
        KeyString s \<Rightarrow> (StringKey s, diags)
      | KeyNumber (Inr i) \<Rightarrow> (IntKey i, diags)
      | KeyNumber (Inl err) \<Rightarrow> (NoKey, with_error diags ''Invalid address operator'' (''Invalid module index: '' @ err @ ''.''))
      | KeyOther \<Rightarrow> (NoKey, with_error diags ''Invalid address operator''
                       ''Invalid module key: must be either a string or an integer.''))"

function mi_prefix_loop :: "Traversal \<Rightarrow> ModuleInstance \<Rightarrow> Diagnostics \<Rightarrow> ModuleInstance \<times> Traversal \<times> Diagnostics" where
  "mi_prefix_loop remain mi diags =
     (if remain = [] then (mi, remain, diags)
      else let (moduleName, isModule, moduleNameDiags) = getModuleName remain;
               diags = diags @ moduleNameDiags
           in if \<not> isModule \<or> HasErrors diags then (mi, remain, diags)
              else let remain = drop 2 remain in
                case remain of
                  TraverseIndex k # rest \<Rightarrow>
                    let (key, diags) = parse_step_key k diags
                    in mi_prefix_loop rest (mi @ [\<lparr>step_Name = moduleName, step_InstanceKey = key\<rparr>]) diags
                | _ \<Rightarrow> mi_prefix_loop remain (mi @ [\<lparr>step_Name = moduleName, step_InstanceKey = NoKey\<rparr>]) diags)"
  by pat_completeness auto

lemma getModuleName_True:
  "getModuleName remain = (name, True, d) \<Longrightarrow> \<exists>tt rest. remain = tt # TraverseAttr name # rest \<and> traverser_name tt = Some ''module'' \<and> d = []"
  by (auto simp: getModuleName_def split: list.splits option.splits if_splits traverser.splits)

termination mi_prefix_loop
  by (relation "measure (\<lambda>(remain, _, _). length remain)")
    (auto dest!: getModuleName_True dest: arg_cong[where f = length])

declare mi_prefix_loop.simps [simp del]

definition parseModuleInstancePrefix :: "Traversal \<Rightarrow> ModuleInstance \<times> Traversal \<times> Diagnostics" where
  "parseModuleInstancePrefix traversal =
     (let (mi, remain, diags) = mi_prefix_loop traversal [] [] in (mi, normalize_remain remain, diags))"

definition ParseModuleInstance :: "Traversal \<Rightarrow> ModuleInstance \<times> Diagnostics" where
  "ParseModuleInstance traversal =
     (let (mi, remain, diags) = parseModuleInstancePrefix traversal in
      if length remain \<noteq> 0 then
        (if length remain = length traversal then
           (mi, with_error diags ''Invalid module instance address'' ''A module instance address must begin with \"module.\".'')
         else (mi, with_error diags ''Invalid module instance address''
                     ''The module instance address is followed by additional invalid content.''))
      else (mi, diags))"

function mod_prefix_loop :: "Traversal \<Rightarrow> Module \<Rightarrow> Diagnostics \<Rightarrow> Module \<times> Traversal \<times> Diagnostics \<times> bool" where
  "mod_prefix_loop remain module diags =
     (if remain = [] then (module, remain, diags, True)
      else let (moduleName, isModule, moduleNameDiags) = getModuleName remain;
               diags = diags @ moduleNameDiags
           in if \<not> isModule \<or> HasErrors diags then (module, remain, diags, True)
              else let remain = drop 2 remain in
                case remain of
                  TraverseIndex k # rest \<Rightarrow>
                    (module, remain, with_error diags ''Module instance address with keys is not allowed''
                       ''Module address cannot be a module instance (e.g. \"module.a[0]\"), it must be a module instead (e.g. \"module.a\").'',
                     False)
                | _ \<Rightarrow> mod_prefix_loop remain (module @ [moduleName]) diags)"
  by pat_completeness auto

termination mod_prefix_loop
  by (relation "measure (\<lambda>(remain, _, _). length remain)")
    (auto dest!: getModuleName_True dest: arg_cong[where f = length])

declare mod_prefix_loop.simps [simp del]

text \<open>The flag of the loop says whether it ended normally, so that the rest is normalized.\<close>

definition parseModulePrefix :: "Traversal \<Rightarrow> Module \<times> Traversal \<times> Diagnostics" where
  "parseModulePrefix traversal =
     (let (module, remain, diags, normal) = mod_prefix_loop traversal [] []
      in (module, (if normal then normalize_remain remain else remain), diags))"

definition ParseModule :: "Traversal \<Rightarrow> Module \<times> Diagnostics" where
  "ParseModule traversal =
     (let (module, remain, diags) = parseModulePrefix traversal in
      if \<not> HasErrors diags \<and> length remain \<noteq> 0 then
        (module, with_error diags ''Module address expected''
                ''It's not allowed to reference anything other than module here.'')
      else (module, diags))"

section \<open>Correctness\<close>

lemma mod_Equal_iff: "mod_Equal m ot \<longleftrightarrow> m = ot"
  by (induction m ot rule: mod_Equal.induct) auto

lemma mi_Equal_iff: "mi_Equal m ot \<longleftrightarrow> m = ot"
  by (induction m ot rule: mi_Equal.induct) auto

lemma mi_Module_map [simp]: "mi_Module m = map step_Name m"
  by (simp add: mi_Module_def)

lemma HasSameModule_loop_iff: "length m = length ot \<Longrightarrow> HasSameModule_loop m ot \<longleftrightarrow> map step_Name m = map step_Name ot"
  by (induction m ot rule: list_induct2) auto

lemma HasSameModule_iff: "HasSameModule m ot \<longleftrightarrow> mi_Module m = mi_Module ot"
  using HasSameModule_loop_iff[of m ot] by (auto simp: HasSameModule_def dest: arg_cong[where f = length])

lemma IsForModule_loop_iff: "length m = length mo \<Longrightarrow> IsForModule_loop m mo \<longleftrightarrow> map step_Name m = mo"
  by (induction m mo rule: list_induct2) auto

lemma IsForModule_iff: "IsForModule m mo \<longleftrightarrow> mi_Module m = mo"
  using IsForModule_loop_iff[of m mo] by (auto simp: IsForModule_def dest: arg_cong[where f = length])

subsection \<open>Order\<close>

definition step_pair :: "ModuleInstanceStep \<Rightarrow> string \<times> InstanceKey" where
  "step_pair s = (step_Name s, step_InstanceKey s)"

lemma step_pair_inj: "step_pair a = step_pair b \<longleftrightarrow> a = b"
  by (cases a; cases b) (simp add: step_pair_def)

definition step_Less :: "ModuleInstanceStep \<Rightarrow> ModuleInstanceStep \<Rightarrow> bool option" where
  "step_Less a b = lex_less (\<lambda>x y. Some (x < y)) InstanceKeyLess (step_pair a) (step_pair b)"

interpretation step_pairs: address_pair "\<lambda>x y :: string. Some (x < y)" "\<lambda>_. True" InstanceKeyLess "\<lambda>k. \<not> IsPlaceholder k"
  by unfold_locales

interpretation step: address_order step_Less "\<lambda>s. \<not> IsPlaceholder (step_InstanceKey s)"
  by (rule address_order_inj[OF step_pairs.lex_order, of step_pair])
     (simp_all add: step_pair_inj step_Less_def step_pair_def)

lemma mi_Less_loop_lex: "length m = length ot \<Longrightarrow> mi_Less_loop m ot = lex_loop step_Less m ot"
  by (induction m ot rule: list_induct2) (auto simp: step_Less_def lex_less_def step_pair_def step_pair_inj[unfolded step_pair_def, symmetric])

lemma mi_Less_path: "mi_Less m ot = path_less step_Less m ot"
  using mi_Less_loop_lex by (auto simp: mi_Less_def path_less_def)

interpretation mi: address_order mi_Less "\<lambda>m. \<not> mi_IsPlaceholder m"
  by (rule address_order_inj[OF step.path_order, of "\<lambda>m. m"])
     (simp_all add: mi_Less_path mi_IsPlaceholder_def list_all_iff list_ex_iff)

subsection \<open>Rendering\<close>

fun mi_segments :: "ModuleInstance \<Rightarrow> segment list" where
  "mi_segments [] = []"
| "mi_segments (s # m) = (''module'', NoKey) # (step_Name s, step_InstanceKey s) # mi_segments m"

definition mi_valid :: "ModuleInstance \<Rightarrow> bool" where
  "mi_valid m \<longleftrightarrow> list_all (\<lambda>s. valid_name (step_Name s) \<and> \<not> IsPlaceholder (step_InstanceKey s)) m"

lemma step_String_eq: "step_String s = step_Name s @ key_String (step_InstanceKey s)"
  by (simp add: step_String_def)

lemma join_steps_render:
  "join_steps sep (map step_String (s # m)) = sep @ render (mi_segments (s # m))"
  by (induction m arbitrary: s sep) (simp_all add: step_String_eq)

lemma mi_String_render: "mi_String m = render (mi_segments m)"
  using join_steps_render[of "[]"] by (cases m) (simp_all add: mi_String_def)

lemma valid_module_word [simp]: "valid_segment (''module'', NoKey)"
  by (simp add: valid_segment_def valid_name_def)

lemma mi_segments_valid: "mi_valid m \<Longrightarrow> list_all valid_segment (mi_segments m)"
  by (induction m) (auto simp: mi_valid_def valid_segment_def valid_name_def)

lemma mi_segments_inj: "mi_segments m = mi_segments m' \<longleftrightarrow> m = m'"
proof (induction m arbitrary: m')
  case Nil
  then show ?case by (cases m') auto
next
  case (Cons s m)
  then show ?case by (cases m') (auto simp: step_pair_inj[unfolded step_pair_def, symmetric])
qed

lemma mi_String_inj:
  assumes "mi_valid m" "mi_valid m'"
  shows "mi_String m = mi_String m' \<longleftrightarrow> m = m'"
  using render_inj[OF _ mi_segments_valid[OF assms(1)] mi_segments_valid[OF assms(2)]] mi_segments_inj
  by (auto simp: mi_String_render)

subsection \<open>Calls\<close>

lemma CallInstance_ModuleInstance:
  "m \<noteq> [] \<Longrightarrow> (case mi_CallInstance m of Some (inst, ci) \<Rightarrow> mci_ModuleInstance ci inst = m \<and> mci_Absolute ci inst = m | None \<Rightarrow> False)"
  by (cases m rule: rev_cases) (auto simp: mi_CallInstance_def mci_ModuleInstance_def mci_Absolute_def mi_Child_def)

lemma declared_loop_prefix:
  "declared_loop inst m =
     (if \<exists>i < length inst. i < length m \<and> inst ! i \<noteq> m ! i then Some False
      else if length m < length inst then None else Some True)"
proof (induction inst m rule: declared_loop.induct)
  case (3 s inst t m)
  have "(\<exists>i < length (s # inst). i < length (t # m) \<and> (s # inst) ! i \<noteq> (t # m) ! i) \<longleftrightarrow>
      s \<noteq> t \<or> (\<exists>i < length inst. i < length m \<and> inst ! i \<noteq> m ! i)"
    by (simp add: Ex_less_Suc2)
  with 3 show ?case by auto
qed auto

text \<open>For a path that is one step longer than the call's module the answer is right.\<close>

lemma IsDeclaredByCall_child:
  assumes "length m = length (amc_Module c) + 1"
  shows "IsDeclaredByCall m c = Some (\<exists>key. m = amc_Instance c key)"
proof -
  obtain m' s where m: "m = m' @ [s]" "length m' = length (amc_Module c)" using assms by (cases m rule: rev_cases) auto
  have loop: "declared_loop (amc_Module c) m = Some (amc_Module c = m')"
    using m by (auto simp: declared_loop_prefix nth_append list_eq_iff_nth_eq)
  have "(\<exists>key. m = amc_Instance c key) \<longleftrightarrow> amc_Module c = m' \<and> call_Name (amc_Call c) = step_Name s"
    using m by (cases s) (auto simp: amc_Instance_def)
  moreover have "IsDeclaredByCall m c = Some (amc_Module c = m' \<and> call_Name (amc_Call c) = step_Name s)"
    using m loop by (simp add: IsDeclaredByCall_def split: bool.split)
  ultimately show ?thesis by simp
qed

end
