(* ===== verification/Addr_Resource.thy ===== *)
theory Addr_Resource
  imports Addr_Module
begin

text \<open>
  Resource addresses (\<^verbatim>\<open>internal/addrs/resource.go\<close>), and targets (\<^verbatim>\<open>targetable.go\<close>, \<^verbatim>\<open>parse_target.go\<close>).

  The state and the plan find objects by the rendering of their address, and targeting compares
  renderings.

  The parsers add only error diagnostics, so a successful result carries none: the result is the
  list of diagnostics or the address, and \<open>None\<close> is a panic.
\<close>

section \<open>Addresses\<close>

datatype ResourceMode = InvalidResourceMode | ManagedResourceMode | DataResourceMode | EphemeralResourceMode

definition ResourceModeLess :: "ResourceMode \<Rightarrow> ResourceMode \<Rightarrow> bool" where
  "ResourceModeLess a b =
     (case a of
        ManagedResourceMode \<Rightarrow> False
      | DataResourceMode \<Rightarrow> b = ManagedResourceMode
      | EphemeralResourceMode \<Rightarrow> b = ManagedResourceMode \<or> b = DataResourceMode
      | InvalidResourceMode \<Rightarrow> False)"

definition ResourceModeBlockName :: "ResourceMode \<Rightarrow> string" where
  "ResourceModeBlockName rm =
     (case rm of ManagedResourceMode \<Rightarrow> ''resource'' | DataResourceMode \<Rightarrow> ''data''
      | EphemeralResourceMode \<Rightarrow> ''ephemeral'' | InvalidResourceMode \<Rightarrow> ''unknown'')"

record Resource =
  res_Mode :: ResourceMode
  res_Type :: string
  res_Name :: string

definition res_String :: "Resource \<Rightarrow> string" where
  "res_String r =
     (case res_Mode r of
        ManagedResourceMode \<Rightarrow> res_Type r @ ''.'' @ res_Name r
      | DataResourceMode \<Rightarrow> ''data.'' @ res_Type r @ ''.'' @ res_Name r
      | EphemeralResourceMode \<Rightarrow> ''ephemeral.'' @ res_Type r @ ''.'' @ res_Name r
      | InvalidResourceMode \<Rightarrow> ''<invalid>.'' @ res_Type r @ ''.'' @ res_Name r)"

definition res_Equal :: "Resource \<Rightarrow> Resource \<Rightarrow> bool" where
  "res_Equal r ot \<longleftrightarrow> res_Mode r = res_Mode ot \<and> res_Name r = res_Name ot \<and> res_Type r = res_Type ot"

definition res_Less :: "Resource \<Rightarrow> Resource \<Rightarrow> bool" where
  "res_Less r ot =
     (if res_Mode r \<noteq> res_Mode ot then ResourceModeLess (res_Mode r) (res_Mode ot)
      else if res_Type r \<noteq> res_Type ot then res_Type r < res_Type ot
      else if res_Name r \<noteq> res_Name ot then res_Name r < res_Name ot
      else False)"

definition ImpliedProvider :: "Resource \<Rightarrow> string" where
  "ImpliedProvider r = takeWhile (\<lambda>c. c \<noteq> CHR ''_'') (res_Type r)"

record ResourceInstance =
  ri_Resource :: Resource
  ri_Key :: InstanceKey

definition res_Instance :: "Resource \<Rightarrow> InstanceKey \<Rightarrow> ResourceInstance" where
  "res_Instance r key = \<lparr>ri_Resource = r, ri_Key = key\<rparr>"

definition ri_String :: "ResourceInstance \<Rightarrow> string" where
  "ri_String r = (if ri_Key r = NoKey then res_String (ri_Resource r) else res_String (ri_Resource r) @ key_String (ri_Key r))"

definition ri_Equal :: "ResourceInstance \<Rightarrow> ResourceInstance \<Rightarrow> bool" where
  "ri_Equal r ot \<longleftrightarrow> ri_Key r = ri_Key ot \<and> res_Equal (ri_Resource r) (ri_Resource ot)"

definition ri_Less :: "ResourceInstance \<Rightarrow> ResourceInstance \<Rightarrow> bool option" where
  "ri_Less r ot =
     (if \<not> res_Equal (ri_Resource r) (ri_Resource ot) then Some (res_Less (ri_Resource r) (ri_Resource ot))
      else if ri_Key r \<noteq> ri_Key ot then InstanceKeyLess (ri_Key r) (ri_Key ot)
      else Some False)"

definition ri_IsPlaceholder :: "ResourceInstance \<Rightarrow> bool" where
  "ri_IsPlaceholder r = IsPlaceholder (ri_Key r)"

record AbsResource =
  ar_Module :: ModuleInstance
  ar_Resource :: Resource

record AbsResourceInstance =
  ari_Module :: ModuleInstance
  ari_Resource :: ResourceInstance

record ConfigResource =
  cr_Module :: Module
  cr_Resource :: Resource

definition res_Absolute :: "Resource \<Rightarrow> ModuleInstance \<Rightarrow> AbsResource" where
  "res_Absolute r module = \<lparr>ar_Module = module, ar_Resource = r\<rparr>"

definition res_InModule :: "Resource \<Rightarrow> Module \<Rightarrow> ConfigResource" where
  "res_InModule r module = \<lparr>cr_Module = module, cr_Resource = r\<rparr>"

definition ri_Absolute :: "ResourceInstance \<Rightarrow> ModuleInstance \<Rightarrow> AbsResourceInstance" where
  "ri_Absolute r module = \<lparr>ari_Module = module, ari_Resource = r\<rparr>"

definition ar_Instance :: "AbsResource \<Rightarrow> InstanceKey \<Rightarrow> AbsResourceInstance" where
  "ar_Instance r key = \<lparr>ari_Module = ar_Module r, ari_Resource = res_Instance (ar_Resource r) key\<rparr>"

definition ar_Config :: "AbsResource \<Rightarrow> ConfigResource" where
  "ar_Config r = \<lparr>cr_Module = mi_Module (ar_Module r), cr_Resource = ar_Resource r\<rparr>"

definition ar_String :: "AbsResource \<Rightarrow> string" where
  "ar_String r =
     (if length (ar_Module r) = 0 then res_String (ar_Resource r)
      else mi_String (ar_Module r) @ ''.'' @ res_String (ar_Resource r))"

definition ar_Equal :: "AbsResource \<Rightarrow> AbsResource \<Rightarrow> bool" where
  "ar_Equal r ot \<longleftrightarrow> mi_Equal (ar_Module r) (ar_Module ot) \<and> res_Equal (ar_Resource r) (ar_Resource ot)"

definition ar_Less :: "AbsResource \<Rightarrow> AbsResource \<Rightarrow> bool option" where
  "ar_Less r ot =
     (if \<not> mi_Equal (ar_Module r) (ar_Module ot) then mi_Less (ar_Module r) (ar_Module ot)
      else if \<not> res_Equal (ar_Resource r) (ar_Resource ot) then Some (res_Less (ar_Resource r) (ar_Resource ot))
      else Some False)"

definition ari_ContainingResource :: "AbsResourceInstance \<Rightarrow> AbsResource" where
  "ari_ContainingResource r = \<lparr>ar_Module = ari_Module r, ar_Resource = ri_Resource (ari_Resource r)\<rparr>"

definition ari_ConfigResource :: "AbsResourceInstance \<Rightarrow> ConfigResource" where
  "ari_ConfigResource r = \<lparr>cr_Module = mi_Module (ari_Module r), cr_Resource = ri_Resource (ari_Resource r)\<rparr>"

definition ari_IsPlaceholder :: "AbsResourceInstance \<Rightarrow> bool" where
  "ari_IsPlaceholder r \<longleftrightarrow> mi_IsPlaceholder (ari_Module r) \<or> ri_IsPlaceholder (ari_Resource r)"

definition ari_String :: "AbsResourceInstance \<Rightarrow> string" where
  "ari_String r =
     (if length (ari_Module r) = 0 then ri_String (ari_Resource r)
      else mi_String (ari_Module r) @ ''.'' @ ri_String (ari_Resource r))"

definition ari_Equal :: "AbsResourceInstance \<Rightarrow> AbsResourceInstance \<Rightarrow> bool" where
  "ari_Equal r ot \<longleftrightarrow> mi_Equal (ari_Module r) (ari_Module ot) \<and> ri_Equal (ari_Resource r) (ari_Resource ot)"

definition ari_Less :: "AbsResourceInstance \<Rightarrow> AbsResourceInstance \<Rightarrow> bool option" where
  "ari_Less r ot =
     (if \<not> mi_Equal (ari_Module r) (ari_Module ot) then mi_Less (ari_Module r) (ari_Module ot)
      else if \<not> ri_Equal (ari_Resource r) (ari_Resource ot) then ri_Less (ari_Resource r) (ari_Resource ot)
      else Some False)"

definition mi_ResourceInstance :: "ModuleInstance \<Rightarrow> ResourceMode \<Rightarrow> string \<Rightarrow> string \<Rightarrow> InstanceKey \<Rightarrow> AbsResourceInstance" where
  "mi_ResourceInstance m mode typeName name key =
     \<lparr>ari_Module = m, ari_Resource = \<lparr>ri_Resource = \<lparr>res_Mode = mode, res_Type = typeName, res_Name = name\<rparr>, ri_Key = key\<rparr>\<rparr>"

definition mod_Resource :: "Module \<Rightarrow> ResourceMode \<Rightarrow> string \<Rightarrow> string \<Rightarrow> ConfigResource" where
  "mod_Resource m mode typeName name =
     \<lparr>cr_Module = m, cr_Resource = \<lparr>res_Mode = mode, res_Type = typeName, res_Name = name\<rparr>\<rparr>"

definition cr_String :: "ConfigResource \<Rightarrow> string" where
  "cr_String r =
     (if length (cr_Module r) = 0 then res_String (cr_Resource r)
      else mod_String (cr_Module r) @ ''.'' @ res_String (cr_Resource r))"

definition cr_Equal :: "ConfigResource \<Rightarrow> ConfigResource \<Rightarrow> bool" where
  "cr_Equal r ot \<longleftrightarrow> mod_Equal (cr_Module r) (cr_Module ot) \<and> res_Equal (cr_Resource r) (cr_Resource ot)"

definition cr_Absolute :: "ConfigResource \<Rightarrow> ModuleInstance \<Rightarrow> AbsResource" where
  "cr_Absolute r module = \<lparr>ar_Module = module, ar_Resource = cr_Resource r\<rparr>"

section \<open>Targets\<close>

datatype Targetable =
    TModule Module | TModuleInstance ModuleInstance | TConfigResource ConfigResource
  | TAbsResource AbsResource | TAbsResourceInstance AbsResourceInstance

fun mod_contains_loop :: "Module \<Rightarrow> Module \<Rightarrow> bool" where
  "mod_contains_loop (ourStep # m) (otherStep # to) = (if ourStep \<noteq> otherStep then False else mod_contains_loop m to)"
| "mod_contains_loop _ _ = True"

definition mod_contains_Module :: "Module \<Rightarrow> Module \<Rightarrow> bool" where
  "mod_contains_Module m to = (if length to < length m then False else mod_contains_loop m to)"

fun mod_TargetContains :: "Module \<Rightarrow> Targetable \<Rightarrow> bool" where
  "mod_TargetContains m (TModule to) = mod_contains_Module m to"
| "mod_TargetContains m (TModuleInstance to) = mod_contains_Module m (mi_Module to)"
| "mod_TargetContains m (TConfigResource to) = mod_contains_Module m (cr_Module to)"
| "mod_TargetContains m (TAbsResource to) = mod_contains_Module m (mi_Module (ar_Module to))"
| "mod_TargetContains m (TAbsResourceInstance to) = mod_contains_Module m (mi_Module (ari_Module to))"

fun mi_contains_mod_loop :: "ModuleInstance \<Rightarrow> Module \<Rightarrow> bool" where
  "mi_contains_mod_loop (ourStep # m) (otherStep # to) =
     (if step_InstanceKey ourStep \<noteq> NoKey then False
      else if step_Name ourStep \<noteq> otherStep then False
      else mi_contains_mod_loop m to)"
| "mi_contains_mod_loop _ _ = True"

definition mi_contains_Module :: "ModuleInstance \<Rightarrow> Module \<Rightarrow> bool" where
  "mi_contains_Module m to = (if length to < length m then False else mi_contains_mod_loop m to)"

text \<open>The last step of the receiver is the one with no successor.\<close>

fun mi_contains_loop :: "ModuleInstance \<Rightarrow> ModuleInstance \<Rightarrow> bool" where
  "mi_contains_loop (ourStep # m) (otherStep # to) =
     (if step_Name ourStep \<noteq> step_Name otherStep then False
      else if m = [] \<and> step_InstanceKey ourStep = NoKey then True
      else if step_InstanceKey ourStep \<noteq> step_InstanceKey otherStep then False
      else mi_contains_loop m to)"
| "mi_contains_loop _ _ = True"

definition mi_contains_ModuleInstance :: "ModuleInstance \<Rightarrow> ModuleInstance \<Rightarrow> bool" where
  "mi_contains_ModuleInstance m to = (if length to < length m then False else mi_contains_loop m to)"

fun mi_TargetContains :: "ModuleInstance \<Rightarrow> Targetable \<Rightarrow> bool" where
  "mi_TargetContains m (TModule to) = mi_contains_Module m to"
| "mi_TargetContains m (TModuleInstance to) = mi_contains_ModuleInstance m to"
| "mi_TargetContains m (TConfigResource to) = mi_contains_Module m (cr_Module to)"
| "mi_TargetContains m (TAbsResource to) = mi_contains_ModuleInstance m (ar_Module to)"
| "mi_TargetContains m (TAbsResourceInstance to) = mi_contains_ModuleInstance m (ari_Module to)"

fun ar_TargetContains :: "AbsResource \<Rightarrow> Targetable \<Rightarrow> bool" where
  "ar_TargetContains r (TAbsResource to) = (ar_String to = ar_String r)"
| "ar_TargetContains r (TConfigResource to) = (cr_String to = ar_String r)"
| "ar_TargetContains r (TAbsResourceInstance to) = (ar_String (ari_ContainingResource to) = ar_String r)"
| "ar_TargetContains r _ = False"

fun ari_TargetContains :: "AbsResourceInstance \<Rightarrow> Targetable \<Rightarrow> bool" where
  "ari_TargetContains r (TAbsResourceInstance to) = (ari_String to = ari_String r)"
| "ari_TargetContains r (TConfigResource to) = (cr_String to = ari_String r)"
| "ari_TargetContains r (TAbsResource to) = (ar_String to = ari_String r)"
| "ari_TargetContains r _ = False"

fun cr_TargetContains :: "ConfigResource \<Rightarrow> Targetable \<Rightarrow> bool" where
  "cr_TargetContains r (TConfigResource to) = (cr_String to = cr_String r)"
| "cr_TargetContains r (TAbsResource to) = (cr_String (ar_Config to) = cr_String r)"
| "cr_TargetContains r (TAbsResourceInstance to) = (cr_String (ar_Config (ari_ContainingResource to)) = cr_String r)"
| "cr_TargetContains r _ = False"

fun TargetContains :: "Targetable \<Rightarrow> Targetable \<Rightarrow> bool" where
  "TargetContains (TModule m) other = mod_TargetContains m other"
| "TargetContains (TModuleInstance m) other = mi_TargetContains m other"
| "TargetContains (TConfigResource r) other = cr_TargetContains r other"
| "TargetContains (TAbsResource r) other = ar_TargetContains r other"
| "TargetContains (TAbsResourceInstance r) other = ari_TargetContains r other"

section \<open>Parsing targets\<close>

definition ParseInstanceKey :: "index_key \<Rightarrow> string + InstanceKey" where
  "ParseInstanceKey key =
     (case key of
        KeyString s \<Rightarrow> Inr (StringKey s)
      | KeyNumber (Inr idx) \<Rightarrow> Inr (IntKey idx)
      | KeyNumber (Inl err) \<Rightarrow> Inl err
      | KeyOther \<Rightarrow> Inl ''either a string or an integer is required'')"

text \<open>\<^verbatim>\<open>Traversal.RootName\<close> panics on a traversal that does not start with a root step.\<close>

fun RootName :: "Traversal \<Rightarrow> string option" where
  "RootName (TraverseRoot n # _) = Some n"
| "RootName _ = None"

definition type_name_error :: "ResourceMode \<Rightarrow> string" where
  "type_name_error mode =
     (if mode = DataResourceMode then ''A data source name is required.''
      else if mode = EphemeralResourceMode then ''An ephemeral resource name is required.''
      else ''A resource type name is required.'')"

definition parseResourceTypeAndName :: "Traversal \<Rightarrow> ResourceMode \<Rightarrow> Diagnostics + string \<times> string" where
  "parseResourceTypeAndName remain mode =
     (case remain of
        tt # tn # _ \<Rightarrow>
          (case traverser_name tt of
             None \<Rightarrow> Inl (with_error [] ''Invalid address'' (type_name_error mode))
           | Some typeName \<Rightarrow>
               (case tn of
                  TraverseAttr name \<Rightarrow> Inr (typeName, name)
                | _ \<Rightarrow> Inl (with_error [] ''Invalid address'' ''A resource name is required.'')))
      | _ \<Rightarrow> Inl (with_error [] ''Invalid address'' ''Resource specification must include a resource type and name.''))"

definition resource_mode :: "string \<Rightarrow> Traversal \<Rightarrow> ResourceMode \<times> Traversal" where
  "resource_mode root remain =
     (if root = ''data'' then (DataResourceMode, tl remain)
      else if root = ''ephemeral'' then (EphemeralResourceMode, tl remain)
      else (ManagedResourceMode, remain))"

definition parseResourceInstanceUnderModule :: "ModuleInstance \<Rightarrow> Traversal \<Rightarrow> (Diagnostics + AbsResourceInstance) option" where
  "parseResourceInstanceUnderModule moduleAddr remain =
     (case RootName remain of
        None \<Rightarrow> None
      | Some root \<Rightarrow>
          (let (mode, remain) = resource_mode root remain in
           case parseResourceTypeAndName remain mode of
             Inl diags \<Rightarrow> Some (Inl diags)
           | Inr (typeName, name) \<Rightarrow>
               (case drop 2 remain of
                  [] \<Rightarrow> Some (Inr (mi_ResourceInstance moduleAddr mode typeName name NoKey))
                | [TraverseIndex k] \<Rightarrow>
                    (case ParseInstanceKey k of
                       Inl err \<Rightarrow> Some (Inl (with_error [] ''Invalid address'' (''Invalid resource instance key: '' @ err @ ''.'')))
                     | Inr key \<Rightarrow> Some (Inr (mi_ResourceInstance moduleAddr mode typeName name key)))
                | [_] \<Rightarrow> Some (Inl (with_error [] ''Invalid address'' ''Resource instance key must be given in square brackets.''))
                | _ \<Rightarrow> Some (Inl (with_error [] ''Invalid address'' ''Unexpected extra operators after address.'')))))"

definition parseResourceUnderModule :: "Module \<Rightarrow> Traversal \<Rightarrow> (Diagnostics + ConfigResource) option" where
  "parseResourceUnderModule moduleAddr remain =
     (case RootName remain of
        None \<Rightarrow> None
      | Some root \<Rightarrow>
          (let (mode, remain) = resource_mode root remain in
           case parseResourceTypeAndName remain mode of
             Inl diags \<Rightarrow> Some (Inl diags)
           | Inr (typeName, name) \<Rightarrow>
               (case drop 2 remain of
                  [] \<Rightarrow> Some (Inr (mod_Resource moduleAddr mode typeName name))
                | [_] \<Rightarrow> Some (Inl (with_error [] ''Resource instance address with keys is not allowed''
                    ''Resource address cannot be a resource instance (e.g. \"null_resource.a[0]\"), it must be a resource instead (e.g. \"null_resource.a\").''))
                | _ \<Rightarrow> Some (Inl (with_error [] ''Invalid address'' ''Unexpected extra operators after address.'')))))"

definition ParseConfigResource :: "Traversal \<Rightarrow> (Diagnostics + ConfigResource) option" where
  "ParseConfigResource traversal =
     (let (modulePath, remainTraversal, diags) = parseModulePrefix traversal in
      if HasErrors diags then Some (Inl diags)
      else if length remainTraversal = 0 then
        Some (Inl (with_error diags ''Module address is not allowed''
          ''Expected reference to either resource or data block. Provided reference appears to be a module.''))
      else parseResourceUnderModule modulePath remainTraversal)"

definition ParseTarget :: "Traversal \<Rightarrow> (Diagnostics + Targetable) option" where
  "ParseTarget traversal =
     (let (path, remain, diags) = parseModuleInstancePrefix traversal in
      if HasErrors diags then Some (Inl diags)
      else if length remain = 0 then Some (Inr (TModuleInstance path))
      else case parseResourceInstanceUnderModule path remain of
        None \<Rightarrow> None
      | Some (Inl moreDiags) \<Rightarrow> Some (Inl (diags @ moreDiags))
      | Some (Inr riAddr) \<Rightarrow>
          Some (Inr (if ri_Key (ari_Resource riAddr) = NoKey then TAbsResource (ari_ContainingResource riAddr)
                     else TAbsResourceInstance riAddr)))"

definition ParseAbsResource :: "Traversal \<Rightarrow> (Diagnostics + AbsResource) option" where
  "ParseAbsResource traversal =
     map_option (\<lambda>r. case r of
        Inl diags \<Rightarrow> Inl diags
      | Inr (TAbsResource tt) \<Rightarrow> Inr tt
      | Inr (TAbsResourceInstance tt) \<Rightarrow> Inl (with_error [] ''Invalid address''
          ''A resource address is required. This instance key identifies a specific resource instance, which is not expected here.'')
      | Inr (TModuleInstance tt) \<Rightarrow> Inl (with_error [] ''Invalid address''
          ''A resource address is required here. The module path must be followed by a resource specification.'')
      | Inr _ \<Rightarrow> Inl (with_error [] ''Invalid address'' ''A resource address is required here.''))
     (ParseTarget traversal)"

definition ParseAbsResourceInstance :: "Traversal \<Rightarrow> (Diagnostics + AbsResourceInstance) option" where
  "ParseAbsResourceInstance traversal =
     map_option (\<lambda>r. case r of
        Inl diags \<Rightarrow> Inl diags
      | Inr (TAbsResource tt) \<Rightarrow> Inr (ar_Instance tt NoKey)
      | Inr (TAbsResourceInstance tt) \<Rightarrow> Inr tt
      | Inr (TModuleInstance tt) \<Rightarrow> Inl (with_error [] ''Invalid address''
          ''A resource instance address is required here. The module path must be followed by a resource instance specification.'')
      | Inr _ \<Rightarrow> Inl (with_error [] ''Invalid address'' ''A resource address is required here.''))
     (ParseTarget traversal)"

fun target_ModuleAddr :: "Targetable \<Rightarrow> ModuleInstance option" where
  "target_ModuleAddr (TModuleInstance addr) = Some addr"
| "target_ModuleAddr (TModule addr) = Some (UnkeyedInstanceShim addr)"
| "target_ModuleAddr (TAbsResourceInstance addr) = Some (ari_Module addr)"
| "target_ModuleAddr (TAbsResource addr) = Some (ar_Module addr)"
| "target_ModuleAddr (TConfigResource addr) = None"

end
