(* ===== verification/Addr_Props.thy ===== *)
theory Addr_Props
  imports Addr_Resource "HOL-Library.Sublist"
begin

text \<open>
  Properties of addresses: their order, that renderings identify them, what targeting means, that
  the collections keyed by renderings behave as maps and sets of addresses, and that the parsers
  read back what an address denotes.
\<close>

section \<open>Order\<close>

lemma res_Equal_iff: "res_Equal r ot \<longleftrightarrow> r = ot"
  by (cases r; cases ot) (auto simp: res_Equal_def)

lemma ri_Equal_iff: "ri_Equal r ot \<longleftrightarrow> r = ot"
  by (cases r; cases ot) (auto simp: ri_Equal_def res_Equal_iff)

lemma ar_Equal_iff: "ar_Equal r ot \<longleftrightarrow> r = ot"
  by (cases r; cases ot) (auto simp: ar_Equal_def res_Equal_iff mi_Equal_iff)

lemma ari_Equal_iff: "ari_Equal r ot \<longleftrightarrow> r = ot"
  by (cases r; cases ot) (auto simp: ari_Equal_def ri_Equal_iff mi_Equal_iff)

lemma cr_Equal_iff: "cr_Equal r ot \<longleftrightarrow> r = ot"
  by (cases r; cases ot) (auto simp: cr_Equal_def res_Equal_iff mod_Equal_iff)

lemmas addr_Equal = res_Equal_iff ri_Equal_iff ar_Equal_iff ari_Equal_iff cr_Equal_iff mi_Equal_iff mod_Equal_iff

interpretation res: address_order "\<lambda>r ot. Some (res_Less r ot)" "\<lambda>r. res_Mode r \<noteq> InvalidResourceMode"
proof (unfold_locales, goal_cases)
  case (3 x y z)
  then show ?case by (auto simp: res_Less_def ResourceModeLess_def split: if_splits ResourceMode.splits)
next
  case (4 x y)
  then show ?case
    by (cases "res_Mode x"; cases "res_Mode y") (auto simp: res_Less_def ResourceModeLess_def)
qed (auto simp: res_Less_def)

interpretation res_key: address_pair "\<lambda>r ot. Some (res_Less r ot)" "\<lambda>r. res_Mode r \<noteq> InvalidResourceMode"
    InstanceKeyLess "\<lambda>k. \<not> IsPlaceholder k"
  by unfold_locales

interpretation ri: address_order ri_Less "\<lambda>r. res_Mode (ri_Resource r) \<noteq> InvalidResourceMode \<and> \<not> ri_IsPlaceholder r"
  by (rule address_order_inj[OF res_key.lex_order, of "\<lambda>r. (ri_Resource r, ri_Key r)"])
     (auto simp: ri_Less_def lex_less_def addr_Equal ri_IsPlaceholder_def)

interpretation mi_res: address_pair mi_Less "\<lambda>m. \<not> mi_IsPlaceholder m"
    "\<lambda>r ot. Some (res_Less r ot)" "\<lambda>r. res_Mode r \<noteq> InvalidResourceMode"
  by unfold_locales

interpretation ar: address_order ar_Less "\<lambda>r. \<not> mi_IsPlaceholder (ar_Module r) \<and> res_Mode (ar_Resource r) \<noteq> InvalidResourceMode"
  by (rule address_order_inj[OF mi_res.lex_order, of "\<lambda>r. (ar_Module r, ar_Resource r)"])
     (auto simp: ar_Less_def lex_less_def addr_Equal)

interpretation mi_ri: address_pair mi_Less "\<lambda>m. \<not> mi_IsPlaceholder m"
    ri_Less "\<lambda>r. res_Mode (ri_Resource r) \<noteq> InvalidResourceMode \<and> \<not> ri_IsPlaceholder r"
  by unfold_locales

definition ari_real :: "AbsResourceInstance \<Rightarrow> bool" where
  "ari_real r \<longleftrightarrow> \<not> ari_IsPlaceholder r \<and> res_Mode (ri_Resource (ari_Resource r)) \<noteq> InvalidResourceMode"

interpretation ari: address_order ari_Less ari_real
  by (rule address_order_inj[OF mi_ri.lex_order, of "\<lambda>r. (ari_Module r, ari_Resource r)"])
     (auto simp: ari_Less_def lex_less_def addr_Equal ari_real_def ari_IsPlaceholder_def)

section \<open>Renderings identify addresses\<close>

definition mode_segments :: "ResourceMode \<Rightarrow> segment list" where
  "mode_segments m =
     (case m of ManagedResourceMode \<Rightarrow> [] | DataResourceMode \<Rightarrow> [(''data'', NoKey)]
      | EphemeralResourceMode \<Rightarrow> [(''ephemeral'', NoKey)] | InvalidResourceMode \<Rightarrow> [(''<invalid>'', NoKey)])"

definition ri_segments :: "Resource \<Rightarrow> InstanceKey \<Rightarrow> segment list" where
  "ri_segments r k = mode_segments (res_Mode r) @ [(res_Type r, NoKey), (res_Name r, k)]"

definition res_valid :: "Resource \<Rightarrow> bool" where
  "res_valid r \<longleftrightarrow> valid_name (res_Type r) \<and> valid_name (res_Name r)"

definition ari_valid :: "AbsResourceInstance \<Rightarrow> bool" where
  "ari_valid r \<longleftrightarrow> mi_valid (ari_Module r) \<and> res_valid (ri_Resource (ari_Resource r)) \<and> \<not> ri_IsPlaceholder (ari_Resource r)"

definition ar_valid :: "AbsResource \<Rightarrow> bool" where
  "ar_valid r \<longleftrightarrow> mi_valid (ar_Module r) \<and> res_valid (ar_Resource r)"

definition cr_valid :: "ConfigResource \<Rightarrow> bool" where
  "cr_valid r \<longleftrightarrow> list_all valid_name (cr_Module r) \<and> res_valid (cr_Resource r)"

lemma render_append: "xs \<noteq> [] \<Longrightarrow> ys \<noteq> [] \<Longrightarrow> render (xs @ ys) = render xs @ ''.'' @ render ys"
proof (induction xs rule: render.induct)
  case (2 n k)
  then show ?case by (cases ys) auto
qed auto

lemma ri_segments_render: "res_String r @ key_String k = render (ri_segments r k)"
  by (cases "res_Mode r") (simp_all add: res_String_def ri_segments_def mode_segments_def)

lemma mi_segments_Nil [simp]: "mi_segments m = [] \<longleftrightarrow> m = []"
  by (cases m) auto

lemma ri_segments_not_Nil [simp]: "ri_segments r k \<noteq> []"
  by (simp add: ri_segments_def)

lemma ari_String_render:
  "ari_String r = render (mi_segments (ari_Module r) @ ri_segments (ri_Resource (ari_Resource r)) (ri_Key (ari_Resource r)))"
proof -
  have "ri_String (ari_Resource r) = render (ri_segments (ri_Resource (ari_Resource r)) (ri_Key (ari_Resource r)))"
    unfolding ri_segments_render[symmetric] by (simp add: ri_String_def)
  then show ?thesis by (simp add: ari_String_def render_append mi_String_render)
qed

lemma ar_String_render: "ar_String r = render (mi_segments (ar_Module r) @ ri_segments (ar_Resource r) NoKey)"
  using ri_segments_render[of "ar_Resource r" NoKey] by (simp add: ar_String_def render_append mi_String_render)

lemma mod_String_shim: "mod_String m = mi_String (UnkeyedInstanceShim m)"
proof -
  have "map step_String (UnkeyedInstanceShim m) = m"
    by (simp add: UnkeyedInstanceShim_def step_String_def o_def)
  then show ?thesis by (simp add: mod_String_def mi_String_def) (simp add: UnkeyedInstanceShim_def)
qed

lemma cr_String_render:
  "cr_String r = render (mi_segments (UnkeyedInstanceShim (cr_Module r)) @ ri_segments (cr_Resource r) NoKey)"
proof -
  have nil: "UnkeyedInstanceShim (cr_Module r) = [] \<longleftrightarrow> cr_Module r = []" "UnkeyedInstanceShim [] = []"
    by (simp_all add: UnkeyedInstanceShim_def)
  show ?thesis
    using ri_segments_render[of "cr_Resource r" NoKey] nil
    by (simp add: cr_String_def render_append mod_String_shim mi_String_render)
qed

lemma ri_segments_valid: "res_valid r \<Longrightarrow> \<not> IsPlaceholder k \<Longrightarrow> list_all valid_segment (ri_segments r k)"
  by (cases "res_Mode r") (auto simp: ri_segments_def mode_segments_def res_valid_def valid_segment_def valid_name_def)

lemma mi_segments_even: "even (length (mi_segments m))"
  by (induction m rule: mi_segments.induct) auto

lemma ri_segments_inj: "ri_segments r k = ri_segments r' k' \<longleftrightarrow> r = r' \<and> k = k'"
  by (cases r; cases r'; cases "res_Mode r"; cases "res_Mode r'") (auto simp: ri_segments_def mode_segments_def)

lemma abs_segments_inj:
  assumes "mi_segments m @ ri_segments r k = mi_segments m' @ ri_segments r' k'"
  shows "m = m' \<and> r = r' \<and> k = k'"
proof -
  have len: "length (ri_segments x y) \<in> {2, 3}" for x y
    by (cases "res_Mode x") (auto simp: ri_segments_def mode_segments_def)
  have "even (length (ri_segments r k)) = even (length (ri_segments r' k'))"
    using arg_cong[OF assms, of length] mi_segments_even[of m] mi_segments_even[of m'] by (simp, presburger)
  with len[of r k] len[of r' k'] have "length (ri_segments r k) = length (ri_segments r' k')" by auto
  with assms have "mi_segments m = mi_segments m'" "ri_segments r k = ri_segments r' k'" by simp_all
  then show ?thesis by (simp add: mi_segments_inj ri_segments_inj)
qed

lemma abs_render_inj:
  assumes "mi_valid m" "res_valid r" "\<not> IsPlaceholder k" "mi_valid m'" "res_valid r'" "\<not> IsPlaceholder k'"
  shows "render (mi_segments m @ ri_segments r k) = render (mi_segments m' @ ri_segments r' k') \<longleftrightarrow> m = m' \<and> r = r' \<and> k = k'"
proof
  assume eq: "render (mi_segments m @ ri_segments r k) = render (mi_segments m' @ ri_segments r' k')"
  have "mi_segments m @ ri_segments r k = mi_segments m' @ ri_segments r' k'"
    by (rule render_inj[OF eq]) (use assms mi_segments_valid ri_segments_valid in auto)
  then show "m = m' \<and> r = r' \<and> k = k'" by (rule abs_segments_inj)
qed simp

lemma ari_String_inj: "ari_valid a \<Longrightarrow> ari_valid b \<Longrightarrow> ari_String a = ari_String b \<longleftrightarrow> a = b"
  unfolding ari_String_render ari_valid_def ri_IsPlaceholder_def
  by (subst abs_render_inj) (cases a; cases b; cases "ari_Resource a"; cases "ari_Resource b"; auto)+

lemma ar_String_inj: "ar_valid a \<Longrightarrow> ar_valid b \<Longrightarrow> ar_String a = ar_String b \<longleftrightarrow> a = b"
  unfolding ar_String_render ar_valid_def
  by (subst abs_render_inj) (cases a; cases b; auto)+

lemma shim_valid: "list_all valid_name m \<Longrightarrow> mi_valid (UnkeyedInstanceShim m)"
  by (induction m) (auto simp: mi_valid_def UnkeyedInstanceShim_def)

lemma shim_inj: "UnkeyedInstanceShim m = UnkeyedInstanceShim m' \<longleftrightarrow> m = m'"
  by (auto simp: UnkeyedInstanceShim_def inj_map_eq_map inj_def)

lemma cr_String_inj: "cr_valid a \<Longrightarrow> cr_valid b \<Longrightarrow> cr_String a = cr_String b \<longleftrightarrow> a = b"
  unfolding cr_String_render cr_valid_def
  by (subst abs_render_inj) (cases a; cases b; auto simp: shim_valid shim_inj)+


section \<open>What targeting means\<close>

text \<open>The reference: containment of a target, said over the addresses themselves.\<close>

fun target_valid :: "Targetable \<Rightarrow> bool" where
  "target_valid (TModule m) = list_all valid_name m"
| "target_valid (TModuleInstance m) = mi_valid m"
| "target_valid (TConfigResource r) = cr_valid r"
| "target_valid (TAbsResource r) = ar_valid r"
| "target_valid (TAbsResourceInstance r) = ari_valid r"

fun target_static :: "Targetable \<Rightarrow> Module" where
  "target_static (TModule m) = m"
| "target_static (TModuleInstance m) = mi_Module m"
| "target_static (TConfigResource r) = cr_Module r"
| "target_static (TAbsResource r) = mi_Module (ar_Module r)"
| "target_static (TAbsResourceInstance r) = mi_Module (ari_Module r)"

fun target_instance :: "Targetable \<Rightarrow> ModuleInstance" where
  "target_instance (TModule m) = UnkeyedInstanceShim m"
| "target_instance (TModuleInstance m) = m"
| "target_instance (TConfigResource r) = UnkeyedInstanceShim (cr_Module r)"
| "target_instance (TAbsResource r) = ar_Module r"
| "target_instance (TAbsResourceInstance r) = ari_Module r"

definition selects_path :: "ModuleInstance \<Rightarrow> ModuleInstance \<Rightarrow> bool" where
  "selects_path m p \<longleftrightarrow>
     m = [] \<or> prefix m p \<or>
     (step_InstanceKey (last m) = NoKey \<and> (\<exists>key. prefix (mi_Child (butlast m) (step_Name (last m)) key) p))"

fun target_spec :: "Targetable \<Rightarrow> Targetable \<Rightarrow> bool" where
  "target_spec (TModule m) t = prefix m (target_static t)"
| "target_spec (TModuleInstance m) t = selects_path m (target_instance t)"
| "target_spec (TConfigResource r) (TConfigResource r') = (r' = r)"
| "target_spec (TConfigResource r) (TAbsResource r') = (ar_Config r' = r)"
| "target_spec (TConfigResource r) (TAbsResourceInstance r') = (ari_ConfigResource r' = r)"
| "target_spec (TAbsResource r) (TAbsResource r') = (r' = r)"
| "target_spec (TAbsResource r) (TAbsResourceInstance r') = (ari_ContainingResource r' = r)"
| "target_spec (TAbsResource r) (TConfigResource r') = (cr_Absolute r' (UnkeyedInstanceShim (cr_Module r')) = r)"
| "target_spec (TAbsResourceInstance r) (TAbsResourceInstance r') = (r' = r)"
| "target_spec (TAbsResourceInstance r) (TAbsResource r') = (ar_Instance r' NoKey = r)"
| "target_spec (TAbsResourceInstance r) (TConfigResource r') =
     (ar_Instance (cr_Absolute r' (UnkeyedInstanceShim (cr_Module r'))) NoKey = r)"
| "target_spec _ _ = False"

lemma mod_contains_prefix: "mod_contains_Module m to \<longleftrightarrow> prefix m to"
proof -
  have "length m \<le> length to \<Longrightarrow> mod_contains_loop m to \<longleftrightarrow> prefix m to"
    by (induction m to rule: mod_contains_loop.induct) auto
  moreover have "prefix m to \<Longrightarrow> length m \<le> length to" by (rule prefix_length_le)
  ultimately show ?thesis by (auto simp: mod_contains_Module_def)
qed

lemma selects_path_Cons:
  "selects_path (s # m) (t # p) \<longleftrightarrow>
     step_Name s = step_Name t \<and> (m = [] \<and> step_InstanceKey s = NoKey \<or> s = t \<and> selects_path m p)"
  by (cases s; cases t) (auto simp: selects_path_def mi_Child_def)

lemma mi_contains_selects: "mi_contains_ModuleInstance m p \<longleftrightarrow> selects_path m p"
proof -
  have loop: "length m \<le> length p \<Longrightarrow> mi_contains_loop m p \<longleftrightarrow> selects_path m p"
  proof (induction m p rule: mi_contains_loop.induct)
    case (1 s m t p)
    then show ?case by (cases s; cases t) (auto simp: selects_path_Cons)
  qed (auto simp: selects_path_def)
  have "selects_path m p \<Longrightarrow> length m \<le> length p"
    by (cases m rule: rev_cases) (auto simp: selects_path_def mi_Child_def dest: prefix_length_le)
  with loop show ?thesis by (auto simp: mi_contains_ModuleInstance_def)
qed

lemma mi_contains_Module_selects: "mi_contains_Module m to \<longleftrightarrow> selects_path m (UnkeyedInstanceShim to)"
proof -
  have loop: "length m \<le> length to \<Longrightarrow> mi_contains_mod_loop m to \<longleftrightarrow> selects_path m (UnkeyedInstanceShim to)"
  proof (induction m to rule: mi_contains_mod_loop.induct)
    case (1 s m t p)
    have sh: "UnkeyedInstanceShim (t # p) = \<lparr>step_Name = t, step_InstanceKey = NoKey\<rparr> # UnkeyedInstanceShim p"
      by (simp add: UnkeyedInstanceShim_def)
    have "m = [] \<Longrightarrow> selects_path m q" for q by (simp add: selects_path_def)
    with 1 show ?case by (cases s) (auto simp: sh selects_path_Cons)
  qed (auto simp: selects_path_def UnkeyedInstanceShim_def)
  have "selects_path m (UnkeyedInstanceShim to) \<Longrightarrow> length m \<le> length to"
    by (cases m rule: rev_cases) (auto simp: selects_path_def mi_Child_def UnkeyedInstanceShim_def dest: prefix_length_le)
  with loop show ?thesis by (auto simp: mi_contains_Module_def)
qed

text \<open>Renderings of addresses of different kinds: a static address reads as one without keys.\<close>

lemma cr_String_shim: "cr_String r = ar_String (cr_Absolute r (UnkeyedInstanceShim (cr_Module r)))"
  by (simp add: cr_String_render ar_String_render cr_Absolute_def)

lemma ar_String_unkeyed: "ar_String r = ari_String (ar_Instance r NoKey)"
  by (simp add: ar_String_render ari_String_render ar_Instance_def res_Instance_def)

lemma valid_conversions:
  "cr_valid r \<Longrightarrow> ar_valid (cr_Absolute r (UnkeyedInstanceShim (cr_Module r)))"
  "ar_valid a \<Longrightarrow> ari_valid (ar_Instance a NoKey)"
  "ari_valid i \<Longrightarrow> ar_valid (ari_ContainingResource i)"
  "ar_valid a \<Longrightarrow> cr_valid (ar_Config a)"
  by (auto simp: cr_valid_def ar_valid_def ari_valid_def cr_Absolute_def UnkeyedInstanceShim_def ar_Instance_def res_Instance_def
      ri_IsPlaceholder_def ari_ContainingResource_def ar_Config_def mi_valid_def list_all_iff)

lemma ar_Config_Containing: "ar_Config (ari_ContainingResource r) = ari_ConfigResource r"
  by (simp add: ar_Config_def ari_ContainingResource_def ari_ConfigResource_def)

lemma TargetContains_spec:
  assumes "target_valid a" "target_valid b"
  shows "TargetContains a b \<longleftrightarrow> target_spec a b"
proof (cases a)
  case (TModule m)
  then show ?thesis by (cases b) (simp_all add: mod_contains_prefix del: mi_Module_map)
next
  case (TModuleInstance m)
  then show ?thesis by (cases b) (simp_all add: mi_contains_selects mi_contains_Module_selects)
next
  case (TConfigResource r)
  with assms show ?thesis
    by (cases b) (simp_all add: cr_String_inj valid_conversions ar_Config_Containing[symmetric])
next
  case (TAbsResource r)
  with assms show ?thesis
    by (cases b) (simp_all add: cr_String_shim ar_String_inj valid_conversions)
next
  case (TAbsResourceInstance r)
  with assms show ?thesis
    by (cases b) (simp_all add: cr_String_shim ar_String_unkeyed ari_String_inj valid_conversions)
qed

section \<open>Parsing\<close>

text \<open>The traversal that denotes an address: a root name, then attributes and indexes.\<close>

fun key_steps :: "InstanceKey \<Rightarrow> Traversal" where
  "key_steps NoKey = []"
| "key_steps (IntKey i) = [TraverseIndex (KeyNumber (Inr i))]"
| "key_steps (StringKey s) = [TraverseIndex (KeyString s)]"
| "key_steps (WildcardKey _) = [TraverseSplat]"

fun mi_steps :: "ModuleInstance \<Rightarrow> Traversal" where
  "mi_steps [] = []"
| "mi_steps (s # m) = TraverseAttr ''module'' # TraverseAttr (step_Name s) # key_steps (step_InstanceKey s) @ mi_steps m"

definition mode_words :: "ResourceMode \<Rightarrow> string list" where
  "mode_words mode = (case mode of DataResourceMode \<Rightarrow> [''data''] | EphemeralResourceMode \<Rightarrow> [''ephemeral''] | _ \<Rightarrow> [])"

definition ri_steps :: "ResourceInstance \<Rightarrow> Traversal" where
  "ri_steps r = map TraverseAttr (mode_words (res_Mode (ri_Resource r)) @ [res_Type (ri_Resource r), res_Name (ri_Resource r)])
     @ key_steps (ri_Key r)"

definition ari_traversal :: "AbsResourceInstance \<Rightarrow> Traversal" where
  "ari_traversal r = normalize_remain (mi_steps (ari_Module r) @ ri_steps (ari_Resource r))"

text \<open>
  The addresses the notation can express: no placeholder keys, no invalid mode, and a managed
  resource type that is not one of the reserved words.
\<close>

definition ari_expressible :: "AbsResourceInstance \<Rightarrow> bool" where
  "ari_expressible r \<longleftrightarrow> ari_real r \<and>
     (res_Mode (ri_Resource (ari_Resource r)) = ManagedResourceMode \<longrightarrow>
        res_Type (ri_Resource (ari_Resource r)) \<notin> {''module'', ''data'', ''ephemeral''})"

lemma HasErrors_Nil [simp]: "\<not> HasErrors []"
  by (simp add: HasErrors_def)

lemma prefix_loop_stop:
  assumes "getModuleName rest = (n, False, [])"
  shows "mi_prefix_loop rest acc [] = (acc, rest, [])"
  using assms by (subst mi_prefix_loop.simps) simp

lemma prefix_loop_step:
  assumes "traverser_name tt = Some ''module''" "\<not> IsPlaceholder k" "\<nexists>i r. rest = TraverseIndex i # r"
  shows "mi_prefix_loop (tt # TraverseAttr n # key_steps k @ rest) acc [] =
    mi_prefix_loop rest (acc @ [\<lparr>step_Name = n, step_InstanceKey = k\<rparr>]) []"
proof -
  have g: "getModuleName (tt # TraverseAttr n # xs) = (n, True, [])" for xs
    using assms(1) by (simp add: getModuleName_def)
  have no: "(case rest of TraverseIndex i # r \<Rightarrow> f i r | _ \<Rightarrow> y) = y" for f :: "index_key \<Rightarrow> Traversal \<Rightarrow> 'x" and y
    using assms(3) by (auto split: list.split traverser.split)
  show ?thesis
    using assms(2) by (subst mi_prefix_loop.simps, cases k) (simp_all add: g no parse_step_key_def)
qed

lemma mi_steps_no_index:
  assumes "\<nexists>i r. rest = TraverseIndex i # r"
  shows "\<nexists>i r. mi_steps m @ rest = TraverseIndex i # r"
  using assms by (cases m) auto

lemma prefix_loop_mi_steps:
  assumes "\<nexists>i r. rest = TraverseIndex i # r"
  shows "\<not> mi_IsPlaceholder m \<Longrightarrow> mi_prefix_loop (mi_steps m @ rest) acc [] = mi_prefix_loop rest (acc @ m) []"
proof (induction m arbitrary: acc)
  case (Cons s m)
  then have ph: "\<not> IsPlaceholder (step_InstanceKey s)" "\<not> mi_IsPlaceholder m" by (simp_all add: mi_IsPlaceholder_def)
  have "mi_prefix_loop (mi_steps (s # m) @ rest) acc [] =
      mi_prefix_loop (mi_steps m @ rest) (acc @ [\<lparr>step_Name = step_Name s, step_InstanceKey = step_InstanceKey s\<rparr>]) []"
    using prefix_loop_step[OF _ ph(1) mi_steps_no_index[OF assms], of "TraverseAttr ''module''" "step_Name s" m acc] by simp
  with Cons.IH[OF ph(2)] show ?case by (cases s) simp
qed simp

lemma parse_prefix_normalize: "parseModuleInstancePrefix (normalize_remain t) = parseModuleInstancePrefix t"
proof (cases t rule: normalize_remain.cases)
  case (1 n rest)
  have g: "getModuleName (TraverseRoot n # rest) = getModuleName (TraverseAttr n # rest)" by (simp add: getModuleName_def)
  show ?thesis
  proof (cases "fst (snd (getModuleName (TraverseAttr n # rest))) \<and> \<not> HasErrors (snd (snd (getModuleName (TraverseAttr n # rest))))")
    case True
    then have "mi_prefix_loop (TraverseRoot n # rest) [] [] = mi_prefix_loop (TraverseAttr n # rest) [] []"
      by (subst (1 2) mi_prefix_loop.simps) (auto simp: g split: prod.splits)
    with 1 show ?thesis by (simp add: parseModuleInstancePrefix_def)
  next
    case False
    then have "mi_prefix_loop (x # rest) [] [] = ([], x # rest, snd (snd (getModuleName (TraverseAttr n # rest))))"
      if "x = TraverseRoot n \<or> x = TraverseAttr n" for x
      using that by (subst mi_prefix_loop.simps) (auto simp: g split: prod.splits)
    with 1 show ?thesis by (simp add: parseModuleInstancePrefix_def)
  qed
qed simp_all

lemma ri_steps_head:
  assumes "ari_expressible r"
  shows "\<exists>n rest. ri_steps (ari_Resource r) = TraverseAttr n # rest \<and> n \<noteq> ''module''"
  using assms by (auto simp: ri_steps_def mode_words_def ari_expressible_def ari_real_def split: ResourceMode.splits)

lemma parse_prefix_ari:
  assumes "ari_expressible r"
  shows "parseModuleInstancePrefix (ari_traversal r) = (ari_Module r, normalize_remain (ri_steps (ari_Resource r)), [])"
proof -
  obtain n rest where h: "ri_steps (ari_Resource r) = TraverseAttr n # rest" "n \<noteq> ''module''"
    using ri_steps_head[OF assms] by blast
  have "\<not> mi_IsPlaceholder (ari_Module r)" using assms by (simp add: ari_expressible_def ari_real_def ari_IsPlaceholder_def)
  then have "mi_prefix_loop (mi_steps (ari_Module r) @ ri_steps (ari_Resource r)) [] [] =
      mi_prefix_loop (ri_steps (ari_Resource r)) (ari_Module r) []"
    using prefix_loop_mi_steps[of "ri_steps (ari_Resource r)" "ari_Module r" "[]"] h by simp
  also have "\<dots> = (ari_Module r, ri_steps (ari_Resource r), [])"
    using h by (intro prefix_loop_stop[of _ "[]"]) (simp add: getModuleName_def)
  finally show ?thesis
    unfolding ari_traversal_def parse_prefix_normalize by (simp add: parseModuleInstancePrefix_def)
qed

lemma parse_instance_ri:
  assumes "ari_expressible r"
  shows "parseResourceInstanceUnderModule m (normalize_remain (ri_steps (ari_Resource r))) =
    Some (Inr (ri_Absolute (ari_Resource r) m))"
proof -
  let ?ri = "ari_Resource r" and ?res = "ri_Resource (ari_Resource r)"
  have key: "ri_Key ?ri = NoKey \<or> (\<exists>i. ri_Key ?ri = IntKey i) \<or> (\<exists>s. ri_Key ?ri = StringKey s)"
    using assms by (cases "ri_Key ?ri") (auto simp: ari_expressible_def ari_real_def ari_IsPlaceholder_def ri_IsPlaceholder_def)
  have eta: "mi_ResourceInstance m (res_Mode ?res) (res_Type ?res) (res_Name ?res) (ri_Key ?ri) = ri_Absolute ?ri m"
    by (simp add: mi_ResourceInstance_def ri_Absolute_def)
  have mode: "res_Mode ?res \<noteq> InvalidResourceMode" using assms by (simp add: ari_expressible_def ari_real_def)
  show ?thesis
  proof (cases "res_Mode ?res")
    case ManagedResourceMode
    then have "res_Type ?res \<noteq> ''data''" "res_Type ?res \<noteq> ''ephemeral''" using assms by (auto simp: ari_expressible_def)
    with key ManagedResourceMode eta show ?thesis
      by (auto simp: parseResourceInstanceUnderModule_def ri_steps_def mode_words_def resource_mode_def
          parseResourceTypeAndName_def ParseInstanceKey_def)
  qed (use key eta mode in \<open>auto simp: parseResourceInstanceUnderModule_def ri_steps_def mode_words_def resource_mode_def
          parseResourceTypeAndName_def ParseInstanceKey_def\<close>)
qed

lemma ParseTarget_ari:
  assumes "ari_expressible r"
  shows "ParseTarget (ari_traversal r) =
    Some (Inr (if ri_Key (ari_Resource r) = NoKey then TAbsResource (ari_ContainingResource r) else TAbsResourceInstance r))"
proof -
  have ne: "normalize_remain (ri_steps (ari_Resource r)) \<noteq> []" using ri_steps_head[OF assms] by auto
  have "ri_Absolute (ari_Resource r) (ari_Module r) = r" by (simp add: ri_Absolute_def)
  with ne show ?thesis
    by (simp add: ParseTarget_def parse_prefix_ari[OF assms] parse_instance_ri[OF assms])
qed

text \<open>Without an error, what follows the module path is empty or starts with a root name.\<close>

lemma HasErrors_append: "HasErrors (a @ b) \<longleftrightarrow> HasErrors a \<or> HasErrors b"
  by (auto simp: HasErrors_def)

lemma HasErrors_with_error: "HasErrors (with_error d s t)"
  by (simp add: with_error_def addr_error_def HasErrors_def hcl_level_def)

lemma prefix_loop_step_or_stop:
  obtains (stop) n b d where "getModuleName remain = (n, b, d)"
      "mi_prefix_loop remain mi diags = (mi, remain, if remain = [] then diags else diags @ d)"
  | (step) rest mi2 diags2 where "length rest < length remain"
      "mi_prefix_loop remain mi diags = mi_prefix_loop rest mi2 diags2"
proof -
  obtain n b d where g: "getModuleName remain = (n, b, d)" by (cases "getModuleName remain")
  show ?thesis
  proof (cases "remain = [] \<or> \<not> b \<or> HasErrors (diags @ d)")
    case True
    have "mi_prefix_loop remain mi diags = (mi, remain, if remain = [] then diags else diags @ d)"
      using True by (subst mi_prefix_loop.simps) (auto simp: g)
    with g show ?thesis by (rule stop)
  next
    case False
    then have len: "length (drop 2 remain) < length remain" by simp
    show ?thesis
    proof (cases "\<exists>k rest. drop 2 remain = TraverseIndex k # rest")
      case True
      then obtain k rest where k: "drop 2 remain = TraverseIndex k # rest" by blast
      obtain key d' where pk: "parse_step_key k (diags @ d) = (key, d')" by fastforce
      have "mi_prefix_loop remain mi diags = mi_prefix_loop rest (mi @ [\<lparr>step_Name = n, step_InstanceKey = key\<rparr>]) d'"
        using False by (subst mi_prefix_loop.simps) (simp add: g k pk)
      moreover have "length rest < length remain" using len k by simp
      ultimately show ?thesis by (rule step[rotated])
    next
      case no: False
      have eq: "(case drop 2 remain of TraverseIndex i # r \<Rightarrow> f i r | _ \<Rightarrow> y) = y" for f :: "index_key \<Rightarrow> Traversal \<Rightarrow> 'x" and y
        using no by (auto split: list.split traverser.split)
      have "mi_prefix_loop remain mi diags =
          mi_prefix_loop (drop 2 remain) (mi @ [\<lparr>step_Name = n, step_InstanceKey = NoKey\<rparr>]) (diags @ d)"
        using False by (subst mi_prefix_loop.simps) (simp add: g eq)
      with len show ?thesis by (rule step)
    qed
  qed
qed

definition starts_with_name :: "Traversal \<Rightarrow> bool" where
  "starts_with_name t \<longleftrightarrow> t = [] \<or> traverser_name (hd t) \<noteq> None"

lemma prefix_loop_remain:
  "mi_prefix_loop remain mi diags = (mi', remain', diags') \<Longrightarrow> \<not> HasErrors diags' \<Longrightarrow> starts_with_name remain'"
proof (induction "length remain" arbitrary: remain mi diags rule: less_induct)
  case less
  show ?case
  proof (cases rule: prefix_loop_step_or_stop[of remain mi diags])
    case (stop n b d)
    with less.prems show ?thesis
      by (cases remain) (auto simp: starts_with_name_def getModuleName_def HasErrors_append HasErrors_with_error split: option.splits)
  next
    case (step rest mi2 diags2)
    with less show ?thesis by metis
  qed
qed

lemma parse_instance_no_panic: "RootName r \<noteq> None \<Longrightarrow> parseResourceInstanceUnderModule m r \<noteq> None"
  by (auto simp: parseResourceInstanceUnderModule_def Let_def split: option.splits sum.splits prod.splits list.splits traverser.splits)

lemma ParseTarget_no_panic: "ParseTarget t \<noteq> None"
proof -
  obtain path remain diags where loop: "mi_prefix_loop t [] [] = (path, remain, diags)" by (cases "mi_prefix_loop t [] []")
  have no: "parseResourceInstanceUnderModule path (normalize_remain remain) \<noteq> None" if "\<not> HasErrors diags" "remain \<noteq> []"
  proof (rule parse_instance_no_panic)
    show "RootName (normalize_remain remain) \<noteq> None"
      using prefix_loop_remain[OF loop that(1)] that(2)
      by (cases remain rule: normalize_remain.cases) (simp_all add: starts_with_name_def)
  qed
  have "normalize_remain remain = [] \<longleftrightarrow> remain = []" by (cases remain rule: normalize_remain.cases) auto
  with no show ?thesis
    by (cases "HasErrors diags"; cases "remain = []")
       (auto simp: ParseTarget_def parseModuleInstancePrefix_def loop split: option.splits sum.splits)
qed

section \<open>Properties\<close>

text \<open>Concrete addresses for the witnesses: \<^verbatim>\<open>module.a["k"].aws_instance.web[0]\<close> and others.\<close>

definition web :: "InstanceKey \<Rightarrow> AbsResourceInstance" where
  "web k = mi_ResourceInstance [\<lparr>step_Name = ''a'', step_InstanceKey = StringKey ''k''\<rparr>]
     ManagedResourceMode ''aws_instance'' ''web'' k"

lemma web_simps [simp]:
  "ari_Module (web k) = [\<lparr>step_Name = ''a'', step_InstanceKey = StringKey ''k''\<rparr>]"
  "ari_Resource (web k) = \<lparr>ri_Resource = \<lparr>res_Mode = ManagedResourceMode, res_Type = ''aws_instance'', res_Name = ''web''\<rparr>, ri_Key = k\<rparr>"
  by (simp_all add: web_def mi_ResourceInstance_def)

lemma web_facts:
  "\<not> IsPlaceholder k \<Longrightarrow> ari_valid (web k)" "\<not> IsPlaceholder k \<Longrightarrow> ari_expressible (web k)"
  "\<not> IsPlaceholder k \<Longrightarrow> ari_real (web k)"
  by (simp_all add: ari_valid_def mi_valid_def res_valid_def valid_name_def ri_IsPlaceholder_def
      ari_expressible_def ari_real_def ari_IsPlaceholder_def mi_IsPlaceholder_def)

text \<open>
  On the addresses of real resource instances (no wildcard keys, no invalid mode)
  \<^verbatim>\<open>AbsResourceInstance.Less\<close> never panics and is a strict linear order: of two addresses exactly
  one is less, unless they are equal, and the order is transitive.
\<close>

theorem AbsResourceInstance_Less_linear:
  assumes "ari_real x" "ari_real y" "ari_real z"
  shows "ari_Less x y = Some (\<not> ari_Equal x y \<and> ari_Less y x = Some False) \<and>
    (ari_Less x y = Some False \<and> ari_Less y x = Some False \<longleftrightarrow> x = y) \<and>
    (ari_Less x y = Some True \<and> ari_Less y z = Some True \<longrightarrow> ari_Less x z = Some True)"
  using ari.exactly_one[OF assms(1,2)] ari.trans[OF assms] by (auto simp: ari_Equal_iff)

theorem AbsResourceInstance_Less_linear_witness:
  "ari_Less (web (IntKey 2)) (web (IntKey 10)) = Some True \<and> ari_Less (web (IntKey 10)) (web (StringKey ''x'')) = Some True \<and>
   ari_Less (web (IntKey 2)) (web (StringKey ''x'')) = Some True"
proof -
  have steps: "ari_Less (web (IntKey 2)) (web (IntKey 10)) = Some True" "ari_Less (web (IntKey 10)) (web (StringKey ''x'')) = Some True"
    by (simp_all add: ari_Less_def addr_Equal ri_Less_def InstanceKeyLess_def)
  with AbsResourceInstance_Less_linear[OF web_facts(3) web_facts(3) web_facts(3), of "IntKey 2" "IntKey 10" "StringKey ''x''"]
  show ?thesis by simp
qed



text \<open>
  C27: on valid addresses \<^verbatim>\<open>TargetContains\<close>, which compares renderings and walks module paths,
  is the containment it stands for: a module holds what lies under its static path, a module
  instance what lies under its path (every instance of its last call when that call has no key),
  a resource its instances, and a configuration resource all of its expansions.
\<close>

theorem TargetContains_correct:
  assumes "target_valid a" "target_valid b"
  shows "(TargetContains a b \<longleftrightarrow> target_spec a b) \<and> TargetContains a a"
proof -
  have "target_spec a a" by (cases a) (simp_all add: selects_path_def)
  with TargetContains_spec[OF assms] TargetContains_spec[OF assms(1) assms(1)] show ?thesis by simp
qed

theorem TargetContains_correct_witness:
  "TargetContains (TAbsResource (ari_ContainingResource (web NoKey))) (TAbsResourceInstance (web (IntKey 3))) \<and>
   \<not> TargetContains (TAbsResourceInstance (web (IntKey 2))) (TAbsResourceInstance (web (IntKey 3)))"
proof -
  have v: "target_valid (TAbsResource (ari_ContainingResource (web NoKey)))" "target_valid (TAbsResourceInstance (web (IntKey n)))" for n
    using web_facts(1) valid_conversions(3) by simp_all
  have "web (IntKey 3) \<noteq> web (IntKey 2)" by (simp add: web_def mi_ResourceInstance_def)
  with TargetContains_correct[OF v(1) v(2), of 3] TargetContains_correct[OF v(2) v(2), of 2 3] show ?thesis
    by (simp add: ari_ContainingResource_def)
qed

text \<open>
  C28: parsing an absolute resource instance address gives back the address it denotes, for
  every address the notation can express; \<^verbatim>\<open>ParseTarget\<close> tells apart the whole resource (no
  key) and the single instance.
\<close>

theorem ParseAbsResourceInstance_roundtrip:
  assumes "ari_expressible r"
  shows "ParseAbsResourceInstance (ari_traversal r) = Some (Inr r) \<and>
    ParseTarget (ari_traversal r) =
      Some (Inr (if ri_Key (ari_Resource r) = NoKey then TAbsResource (ari_ContainingResource r) else TAbsResourceInstance r))"
proof -
  have "ar_Instance (ari_ContainingResource r) NoKey = r" if "ri_Key (ari_Resource r) = NoKey"
    using that by (cases r; cases "ari_Resource r") (simp add: ar_Instance_def ari_ContainingResource_def res_Instance_def)
  then show ?thesis by (simp add: ParseAbsResourceInstance_def ParseTarget_ari[OF assms])
qed

theorem ParseAbsResourceInstance_roundtrip_witness:
  "ParseAbsResourceInstance
     [TraverseRoot ''module'', TraverseAttr ''a'', TraverseIndex (KeyString ''k''),
      TraverseAttr ''aws_instance'', TraverseAttr ''web'', TraverseIndex (KeyNumber (Inr 0))] = Some (Inr (web (IntKey 0)))"
proof -
  have "ari_traversal (web (IntKey 0)) =
      [TraverseRoot ''module'', TraverseAttr ''a'', TraverseIndex (KeyString ''k''),
       TraverseAttr ''aws_instance'', TraverseAttr ''web'', TraverseIndex (KeyNumber (Inr 0))]"
    by (simp add: ari_traversal_def ri_steps_def mode_words_def)
  with ParseAbsResourceInstance_roundtrip[OF web_facts(2), of "IntKey 0"] show ?thesis by simp
qed

text \<open>
  Whatever traversal it is given, \<^verbatim>\<open>ParseTarget\<close> returns diagnostics or an address and
  never panics, although it calls \<^verbatim>\<open>RootName\<close>, which panics on a relative traversal; the
  parsers of resource addresses built on it inherit this.
\<close>

theorem ParseTarget_never_panics:
  "ParseTarget t \<noteq> None \<and> ParseAbsResource t \<noteq> None \<and> ParseAbsResourceInstance t \<noteq> None"
  using ParseTarget_no_panic[of t] by (simp_all add: ParseAbsResource_def ParseAbsResourceInstance_def)

text \<open>
  \<^verbatim>\<open>InstanceKeyLess\<close> panics exactly when it has to compare two different keys of the same
  integer or string type one of which is a wildcard, since it asserts the concrete key type
  that a wildcard does not have.
\<close>

theorem InstanceKeyLess_panics_iff:
  "InstanceKeyLess i j = None \<longleftrightarrow>
     i \<noteq> j \<and> instanceKeyType i = instanceKeyType j \<and> instanceKeyType i \<in> {IntKeyType, StringKeyType} \<and>
     (IsPlaceholder i \<or> IsPlaceholder j)"
  by (cases i; cases j) (auto simp: InstanceKeyLess_def)

text \<open>
  \<^verbatim>\<open>IsDeclaredByCall\<close> answers its question for a path one step longer than the call's module
  (true exactly for the instances of the call), but it also says yes to a module whose own path
  is the call's path when the last name is the name of the call, and it panics on every path
  that stops short inside the call's module.
\<close>

theorem IsDeclaredByCall_behaviour:
  assumes "s \<noteq> []"
  shows "(length m = length (amc_Module c) + 1 \<longrightarrow> IsDeclaredByCall m c = Some (\<exists>key. m = amc_Instance c key)) \<and>
    IsDeclaredByCall s (mi_ChildCall s (step_Name (last s))) = Some True \<and>
    IsDeclaredByCall m (mi_ChildCall (m @ s) name) = None"
proof (intro conjI impI)
  show "IsDeclaredByCall s (mi_ChildCall s (step_Name (last s))) = Some True"
    using assms by (simp add: IsDeclaredByCall_def mi_ChildCall_def declared_loop_prefix)
  show "IsDeclaredByCall m (mi_ChildCall (m @ s) name) = None"
    using assms by (auto simp: IsDeclaredByCall_def mi_ChildCall_def declared_loop_prefix nth_append)
qed (rule IsDeclaredByCall_child)

theorem IsDeclaredByCall_behaviour_witness:
  "IsDeclaredByCall (ari_Module (web NoKey)) (mi_ChildCall (ari_Module (web NoKey)) ''a'') = Some True \<and>
   IsDeclaredByCall [] (mi_ChildCall (ari_Module (web NoKey)) ''b'') = None"
  using IsDeclaredByCall_behaviour[of "ari_Module (web NoKey)" "[]" _ "''b''"] by simp

end
