(* ===== verification/Addr_Collections.thy ===== *)
theory Addr_Collections
  imports Addr_Props
begin

text \<open>
  The collections keyed by addresses (\<^verbatim>\<open>internal/addrs/unique_key.go\<close>, \<^verbatim>\<open>map.go\<close>, \<^verbatim>\<open>set.go\<close>).  Many address
  types are not comparable in Go, so a collection files an address under its unique key,
  mostly its rendering.  The locale \<open>unique_key\<close> is the contract such a key has to meet; its
  lemmas show that the collections then are maps and sets of addresses, and it is interpreted
  on the keys of the address types.
\<close>

section \<open>Collections keyed by addresses\<close>

type_synonym ('u, 'k, 'v) addr_map = "('u, 'k \<times> 'v) gomap"

definition map_Put :: "('k \<Rightarrow> 'u) \<Rightarrow> ('u, 'k, 'v) addr_map \<Rightarrow> 'k \<Rightarrow> 'v \<Rightarrow> ('u, 'k, 'v) addr_map" where
  "map_Put uk m key v = gmap_put (uk key) (key, v) m"

definition map_Remove :: "('k \<Rightarrow> 'u) \<Rightarrow> ('u, 'k, 'v) addr_map \<Rightarrow> 'k \<Rightarrow> ('u, 'k, 'v) addr_map" where
  "map_Remove uk m key = gmap_del (uk key) m"

definition map_GetOk :: "('k \<Rightarrow> 'u) \<Rightarrow> ('u, 'k, 'v) addr_map \<Rightarrow> 'k \<Rightarrow> 'v option" where
  "map_GetOk uk m key = map_option snd (gmap_get m (uk key))"

definition map_Has :: "('k \<Rightarrow> 'u) \<Rightarrow> ('u, 'k, 'v) addr_map \<Rightarrow> 'k \<Rightarrow> bool" where
  "map_Has uk m key = (gmap_get m (uk key) \<noteq> None)"

definition map_Get :: "'v \<Rightarrow> ('k \<Rightarrow> 'u) \<Rightarrow> ('u, 'k, 'v) addr_map \<Rightarrow> 'k \<Rightarrow> 'v" where
  "map_Get zero uk m key = (case gmap_get m (uk key) of Some elem \<Rightarrow> snd elem | None \<Rightarrow> zero)"

definition map_Len :: "('u, 'k, 'v) addr_map \<Rightarrow> nat" where
  "map_Len m = length m"

definition map_Elements :: "('u, 'k, 'v) addr_map \<Rightarrow> ('k \<times> 'v) list" where
  "map_Elements m = map snd m"

definition MakeMap :: "('k \<Rightarrow> 'u) \<Rightarrow> ('k \<times> 'v) list \<Rightarrow> ('u, 'k, 'v) addr_map" where
  "MakeMap uk elems = foldl (\<lambda>m (key, v). map_Put uk m key v) [] elems"

definition map_Keys :: "('u, 'k, 'v) addr_map \<Rightarrow> ('u, 'k) gomap" where
  "map_Keys m = foldl (\<lambda>ret (realKey, elem). gmap_put realKey (fst elem) ret) [] m"

definition map_Values :: "('u, 'k, 'v) addr_map \<Rightarrow> 'v list" where
  "map_Values m = map (snd \<circ> snd) m"

type_synonym ('u, 'k) addr_set = "('u, 'k) gomap"

definition aset_Has :: "('k \<Rightarrow> 'u) \<Rightarrow> ('u, 'k) addr_set \<Rightarrow> 'k \<Rightarrow> bool" where
  "aset_Has uk s addr = (gmap_get s (uk addr) \<noteq> None)"

definition aset_Add :: "('k \<Rightarrow> 'u) \<Rightarrow> ('u, 'k) addr_set \<Rightarrow> 'k \<Rightarrow> ('u, 'k) addr_set" where
  "aset_Add uk s addr = gmap_put (uk addr) addr s"

definition aset_Remove :: "('k \<Rightarrow> 'u) \<Rightarrow> ('u, 'k) addr_set \<Rightarrow> 'k \<Rightarrow> ('u, 'k) addr_set" where
  "aset_Remove uk s addr = gmap_del (uk addr) s"

definition MakeSet :: "('k \<Rightarrow> 'u) \<Rightarrow> 'k list \<Rightarrow> ('u, 'k) addr_set" where
  "MakeSet uk elems = foldl (aset_Add uk) [] elems"

definition aset_Union :: "('u, 'k) addr_set \<Rightarrow> ('u, 'k) addr_set \<Rightarrow> ('u, 'k) addr_set" where
  "aset_Union s other =
     foldl (\<lambda>ret (k, addr). gmap_put k addr ret) (foldl (\<lambda>ret (k, addr). gmap_put k addr ret) [] s) other"

definition aset_Intersection :: "('u, 'k) addr_set \<Rightarrow> ('u, 'k) addr_set \<Rightarrow> ('u, 'k) addr_set" where
  "aset_Intersection s other =
     foldl (\<lambda>ret (k, addr). if gmap_get s k \<noteq> None then gmap_put k addr ret else ret)
       (foldl (\<lambda>ret (k, addr). if gmap_get other k \<noteq> None then gmap_put k addr ret else ret) [] s) other"

section \<open>The contract of a unique key\<close>

definition map_wf :: "('k \<Rightarrow> 'u) \<Rightarrow> ('k \<Rightarrow> bool) \<Rightarrow> ('u, 'k, 'v) addr_map \<Rightarrow> bool" where
  "map_wf uk ok m \<longleftrightarrow> gmap_ok m \<and> (\<forall>(u, k, v) \<in> set m. u = uk k \<and> ok k)"

definition aset_wf :: "('k \<Rightarrow> 'u) \<Rightarrow> ('k \<Rightarrow> bool) \<Rightarrow> ('u, 'k) addr_set \<Rightarrow> bool" where
  "aset_wf uk ok s \<longleftrightarrow> gmap_ok s \<and> (\<forall>(u, k) \<in> set s. u = uk k \<and> ok k)"

definition aset_members :: "('u, 'k) addr_set \<Rightarrow> 'k set" where
  "aset_members s = set (map snd s)"

lemma put_all_get:
  "gmap_get (foldl (\<lambda>ret (k, v). if P k then gmap_put k v ret else ret) acc xs) u =
     (if P u then (case gmap_get (rev xs) u of Some v \<Rightarrow> Some v | None \<Rightarrow> gmap_get acc u) else gmap_get acc u)"
  by (induction xs rule: rev_induct) (auto simp: gm.get_put)

lemma put_all_ok: "gmap_ok acc \<Longrightarrow> gmap_ok (foldl (\<lambda>ret (k, v). if P k then gmap_put k v ret else ret) acc xs)"
  by (induction xs rule: rev_induct) (auto simp: gm.ok_put)

locale unique_key =
  fixes uk :: "'k \<Rightarrow> 'u" and ok :: "'k \<Rightarrow> bool"
  assumes uk_inj: "ok a \<Longrightarrow> ok b \<Longrightarrow> uk a = uk b \<Longrightarrow> a = b"
begin

lemma get_put: "ok k \<Longrightarrow> ok k' \<Longrightarrow> map_GetOk uk (map_Put uk m k v) k' = (if k' = k then Some v else map_GetOk uk m k')"
  using uk_inj[of k k'] by (auto simp: map_GetOk_def map_Put_def gm.get_put)

lemma get_remove: "ok k \<Longrightarrow> ok k' \<Longrightarrow> map_GetOk uk (map_Remove uk m k) k' = (if k' = k then None else map_GetOk uk m k')"
  using uk_inj[of k k'] by (auto simp: map_GetOk_def map_Remove_def gm.get_del)

lemma put_wf: "map_wf uk ok m \<Longrightarrow> ok k \<Longrightarrow> map_wf uk ok (map_Put uk m k v)"
  using set_update_subset[of "uk k" "(k, v)" m] by (auto simp: map_wf_def map_Put_def gm.ok_put)

lemma remove_wf: "map_wf uk ok m \<Longrightarrow> map_wf uk ok (map_Remove uk m k)"
  using set_delete_subset[of "uk k" m] by (auto simp: map_wf_def map_Remove_def gm.ok_del)

lemma get_elements: "map_wf uk ok m \<Longrightarrow> ok k \<Longrightarrow> map_GetOk uk m k = Some v \<longleftrightarrow> (k, v) \<in> set (map_Elements m)"
proof -
  assume wf: "map_wf uk ok m" and k: "ok k"
  have "(\<exists>k'. (uk k, k', v) \<in> set m) \<longleftrightarrow> (\<exists>u. (u, k, v) \<in> set m)"
  proof (intro iffI; elim exE)
    fix k' assume e: "(uk k, k', v) \<in> set m"
    with wf have "uk k = uk k'" "ok k'" by (auto simp: map_wf_def)
    with e k uk_inj[of k k'] show "\<exists>u. (u, k, v) \<in> set m" by auto
  next
    fix u assume e: "(u, k, v) \<in> set m"
    with wf have "u = uk k" by (auto simp: map_wf_def)
    with e show "\<exists>k'. (uk k, k', v) \<in> set m" by auto
  qed
  moreover have "map_GetOk uk m k = Some v \<longleftrightarrow> (\<exists>k'. (uk k, k', v) \<in> set m)"
    using wf by (auto simp: map_GetOk_def map_wf_def gmap_get_in_set[symmetric])
  moreover have "(k, v) \<in> set (map_Elements m) \<longleftrightarrow> (\<exists>u. (u, k, v) \<in> set m)"
    by (force simp: map_Elements_def)
  ultimately show ?thesis by simp
qed

lemma elements_distinct:
  assumes "map_wf uk ok m"
  shows "distinct (map fst (map_Elements m))"
proof -
  have eq: "map fst m = map uk (map fst (map_Elements m))"
    using assms by (auto simp: map_wf_def map_Elements_def)
  have "distinct (map fst m)" using assms by (simp add: map_wf_def gmap_ok_def)
  then show ?thesis unfolding eq by (rule distinct_map[THEN iffD1, THEN conjunct1])
qed

lemma make_get:
  assumes "list_all (\<lambda>e. ok (fst e)) es" "ok k"
  shows "map_GetOk uk (MakeMap uk es) k = map_of (rev es) k"
  using assms
proof (induction es rule: rev_induct)
  case Nil
  then show ?case by (simp add: MakeMap_def map_GetOk_def)
next
  case (snoc e es)
  then have "MakeMap uk (es @ [e]) = map_Put uk (MakeMap uk es) (fst e) (snd e)" by (cases e) (simp add: MakeMap_def)
  with snoc show ?case by (cases e) (auto simp: get_put)
qed

lemma make_wf: "list_all (\<lambda>e. ok (fst e)) es \<Longrightarrow> map_wf uk ok (MakeMap uk es)"
  by (induction es rule: rev_induct) (auto simp: MakeMap_def put_wf split: prod.split, simp add: map_wf_def)

lemma mem_iff:
  assumes "aset_wf uk ok s" "ok a"
  shows "aset_Has uk s a \<longleftrightarrow> a \<in> aset_members s"
proof
  assume "aset_Has uk s a"
  then obtain b where b: "(uk a, b) \<in> set s" by (auto simp: aset_Has_def dest: map_of_SomeD)
  with assms uk_inj[of a b] have "a = b" by (auto simp: aset_wf_def)
  with b show "a \<in> aset_members s" by (force simp: aset_members_def)
next
  assume "a \<in> aset_members s"
  then obtain u where "(u, a) \<in> set s" by (auto simp: aset_members_def)
  with assms have "(uk a, a) \<in> set s" by (auto simp: aset_wf_def)
  then show "aset_Has uk s a" using weak_map_of_SomeI[of "uk a" a s] by (auto simp: aset_Has_def)
qed

lemma aset_get: "aset_wf uk ok s \<Longrightarrow> gmap_get s u = Some a \<longleftrightarrow> a \<in> aset_members s \<and> u = uk a"
  by (force simp: aset_wf_def gmap_get_in_set aset_members_def)

lemma aset_ok: "aset_wf uk ok s \<Longrightarrow> a \<in> aset_members s \<Longrightarrow> ok a"
  by (force simp: aset_wf_def aset_members_def)

lemma aset_inj:
  "aset_wf uk ok s \<Longrightarrow> aset_wf uk ok t \<Longrightarrow> a \<in> aset_members s \<Longrightarrow> b \<in> aset_members t \<Longrightarrow> uk a = uk b \<Longrightarrow> a = b"
  by (rule uk_inj) (auto dest: aset_ok)

text \<open>A map from unique keys to addresses that agrees with a set of addresses is that set.\<close>

lemma aset_eqI:
  assumes "gmap_ok s" "\<And>u a. gmap_get s u = Some a \<longleftrightarrow> a \<in> A \<and> u = uk a" "\<And>a. a \<in> A \<Longrightarrow> ok a"
  shows "aset_wf uk ok s" "aset_members s = A"
proof -
  have mem: "(u, a) \<in> set s \<longleftrightarrow> a \<in> A \<and> u = uk a" for u a
    using assms(1,2) by (simp add: gmap_get_in_set)
  then show "aset_wf uk ok s" using assms(1,3) by (auto simp: aset_wf_def)
  show "aset_members s = A" using mem by (force simp: aset_members_def)
qed

lemma add_members:
  assumes "aset_wf uk ok s" "ok a"
  shows "aset_wf uk ok (aset_Add uk s a)" "aset_members (aset_Add uk s a) = insert a (aset_members s)"
proof -
  have ok: "gmap_ok (aset_Add uk s a)" using assms(1) by (simp add: aset_Add_def aset_wf_def gm.ok_put)
  have get: "gmap_get (aset_Add uk s a) u = Some b \<longleftrightarrow> b \<in> insert a (aset_members s) \<and> u = uk b" for u b
    using assms uk_inj[of a b] aset_ok[OF assms(1), of b] by (auto simp: aset_Add_def gm.get_put aset_get)
  show "aset_wf uk ok (aset_Add uk s a)" "aset_members (aset_Add uk s a) = insert a (aset_members s)"
    by (rule aset_eqI[OF ok get]; use assms aset_ok in auto)+
qed

lemma remove_members:
  assumes "aset_wf uk ok s" "ok a"
  shows "aset_wf uk ok (aset_Remove uk s a)" "aset_members (aset_Remove uk s a) = aset_members s - {a}"
proof -
  have ok: "gmap_ok (aset_Remove uk s a)" using assms(1) by (simp add: aset_Remove_def aset_wf_def gm.ok_del)
  have get: "gmap_get (aset_Remove uk s a) u = Some b \<longleftrightarrow> b \<in> aset_members s - {a} \<and> u = uk b" for u b
    using assms uk_inj[of a b] aset_ok[OF assms(1), of b] by (auto simp: aset_Remove_def gm.get_del aset_get)
  show "aset_wf uk ok (aset_Remove uk s a)" "aset_members (aset_Remove uk s a) = aset_members s - {a}"
    by (rule aset_eqI[OF ok get]; use aset_ok[OF assms(1)] in auto)+
qed

lemma rev_get: "aset_wf uk ok s \<Longrightarrow> gmap_get (rev s) u = gmap_get s u"
  using map_of_inject_set[of "rev s" s] by (simp add: aset_wf_def gmap_ok_def rev_map[symmetric])

lemma union_members:
  assumes "aset_wf uk ok s" "aset_wf uk ok t"
  shows "aset_wf uk ok (aset_Union s t)" "aset_members (aset_Union s t) = aset_members s \<union> aset_members t"
proof -
  have ok: "gmap_ok (aset_Union s t)"
    by (simp add: aset_Union_def put_all_ok[where P = "\<lambda>_. True", simplified])
  have "gmap_get (aset_Union s t) u = (case gmap_get t u of Some v \<Rightarrow> Some v | None \<Rightarrow> gmap_get s u)" for u
    using rev_get[OF assms(1)] rev_get[OF assms(2)]
    by (simp add: aset_Union_def put_all_get[where P = "\<lambda>_. True", simplified] split: option.split)
  then have get: "gmap_get (aset_Union s t) u = Some b \<longleftrightarrow> b \<in> aset_members s \<union> aset_members t \<and> u = uk b" for u b
    using aset_get[OF assms(1), of u b] aset_get[OF assms(2), of u] aset_inj[OF assms] aset_inj[OF assms(2,2)]
    by (cases "gmap_get t u") (simp, metis option.distinct(1), simp, metis)
  show "aset_wf uk ok (aset_Union s t)" "aset_members (aset_Union s t) = aset_members s \<union> aset_members t"
    by (rule aset_eqI[OF ok get]; use assms aset_ok in auto)+
qed

lemma intersection_members:
  assumes "aset_wf uk ok s" "aset_wf uk ok t"
  shows "aset_wf uk ok (aset_Intersection s t)" "aset_members (aset_Intersection s t) = aset_members s \<inter> aset_members t"
proof -
  have ok: "gmap_ok (aset_Intersection s t)"
    by (simp add: aset_Intersection_def put_all_ok)
  have "gmap_get (aset_Intersection s t) u = (if gmap_get s u \<noteq> None \<and> gmap_get t u \<noteq> None then gmap_get t u else None)" for u
    using rev_get[OF assms(1)] rev_get[OF assms(2)] by (simp add: aset_Intersection_def put_all_get split: option.split)
  then have get: "gmap_get (aset_Intersection s t) u = Some b \<longleftrightarrow> b \<in> aset_members s \<inter> aset_members t \<and> u = uk b" for u b
    using aset_get[OF assms(1), of u] aset_get[OF assms(2), of u] aset_inj[OF assms] by (auto, metis)
  show "aset_wf uk ok (aset_Intersection s t)" "aset_members (aset_Intersection s t) = aset_members s \<inter> aset_members t"
    by (rule aset_eqI[OF ok get]; use assms aset_ok in auto)+
qed

end

interpretation mi_uk: unique_key mi_String mi_valid
  by unfold_locales (simp add: mi_String_inj)

interpretation ar_uk: unique_key ar_String ar_valid
  by unfold_locales (simp add: ar_String_inj)

interpretation ari_uk: unique_key ari_String ari_valid
  by unfold_locales (simp add: ari_String_inj)

interpretation cr_uk: unique_key cr_String cr_valid
  by unfold_locales (simp add: cr_String_inj)

section \<open>Properties\<close>

text \<open>
  A map keyed by resource instance addresses is a map of the addresses: after \<^verbatim>\<open>Put\<close> and
  \<^verbatim>\<open>Remove\<close> a read of any valid address gives what was put there last, \<^verbatim>\<open>MakeMap\<close> keeps the last
  of the elements with equal keys, the keys stay consistent with the elements, and \<^verbatim>\<open>Elements\<close>
  lists every entry exactly once.
\<close>

theorem address_map_laws:
  fixes m :: "(string, AbsResourceInstance, 'v) addr_map" and es :: "(AbsResourceInstance \<times> 'v) list"
  assumes "ari_valid k" "ari_valid k'" "map_wf ari_String ari_valid m" "list_all (\<lambda>e. ari_valid (fst e)) es"
  shows "map_GetOk ari_String (map_Put ari_String m k v) k' = (if k' = k then Some v else map_GetOk ari_String m k') \<and>
    map_GetOk ari_String (map_Remove ari_String m k) k' = (if k' = k then None else map_GetOk ari_String m k') \<and>
    map_wf ari_String ari_valid (map_Put ari_String m k v) \<and> map_wf ari_String ari_valid (map_Remove ari_String m k) \<and>
    (map_GetOk ari_String m k = Some v \<longleftrightarrow> (k, v) \<in> set (map_Elements m)) \<and>
    distinct (map fst (map_Elements m)) \<and> length (map_Elements m) = map_Len m \<and>
    map_wf ari_String ari_valid (MakeMap ari_String es) \<and> map_GetOk ari_String (MakeMap ari_String es) k = map_of (rev es) k"
proof -
  have "length (map_Elements m) = map_Len m" by (simp add: map_Elements_def map_Len_def)
  with assms show ?thesis
    by (simp add: ari_uk.get_put ari_uk.get_remove ari_uk.put_wf ari_uk.remove_wf ari_uk.get_elements
       ari_uk.make_wf ari_uk.make_get ari_uk.elements_distinct)
qed

theorem address_map_laws_witness:
  "map_GetOk ari_String (map_Put ari_String (map_Put ari_String [] (web (IntKey 0)) ''x'') (web (StringKey ''0'')) ''y'') (web (IntKey 0))
     = Some ''x''"
proof -
  have e: "map_wf ari_String ari_valid ([] :: (string, AbsResourceInstance, string) addr_map)" by (simp add: map_wf_def)
  have v: "ari_valid (web (IntKey 0))" "ari_valid (web (StringKey ''0''))" by (simp_all add: web_facts)
  have ne: "web (IntKey 0) \<noteq> web (StringKey ''0'')" by (simp add: web_def mi_ResourceInstance_def)
  let ?m = "map_Put ari_String [] (web (IntKey 0)) ''x''"
  note first = address_map_laws[OF v(1,1) e, of "[]" "''x''"]
  have "map_wf ari_String ari_valid ?m" "map_GetOk ari_String ?m (web (IntKey 0)) = Some ''x''" using first by simp_all
  with address_map_laws[OF v(2,1), of ?m "[]" "''y''"] ne show ?thesis by simp
qed

text \<open>
  A set of module instance addresses is a set of the addresses: \<^verbatim>\<open>Has\<close>, \<^verbatim>\<open>Add\<close>, \<^verbatim>\<open>Remove\<close>,
  \<^verbatim>\<open>Union\<close> and \<^verbatim>\<open>Intersection\<close> are membership, insertion, deletion, union and intersection of the
  members, whatever the iteration order of the underlying Go maps.
\<close>

theorem address_set_laws:
  assumes "aset_wf mi_String mi_valid s" "aset_wf mi_String mi_valid t" "mi_valid a"
  shows "(aset_Has mi_String s a \<longleftrightarrow> a \<in> aset_members s) \<and>
    aset_wf mi_String mi_valid (aset_Add mi_String s a) \<and> aset_members (aset_Add mi_String s a) = insert a (aset_members s) \<and>
    aset_wf mi_String mi_valid (aset_Remove mi_String s a) \<and> aset_members (aset_Remove mi_String s a) = aset_members s - {a} \<and>
    aset_wf mi_String mi_valid (aset_Union s t) \<and> aset_members (aset_Union s t) = aset_members s \<union> aset_members t \<and>
    aset_wf mi_String mi_valid (aset_Intersection s t) \<and> aset_members (aset_Intersection s t) = aset_members s \<inter> aset_members t"
  using mi_uk.mem_iff[OF assms(1,3)] mi_uk.add_members[OF assms(1,3)] mi_uk.remove_members[OF assms(1,3)]
    mi_uk.union_members[OF assms(1,2)] mi_uk.intersection_members[OF assms(1,2)] by simp

theorem address_set_laws_witness:
  "aset_members (aset_Union (MakeSet mi_String [[]]) (MakeSet mi_String [ari_Module (web NoKey)])) = {[], ari_Module (web NoKey)}"
proof -
  have e: "aset_wf mi_String mi_valid ([] :: (string, ModuleInstance) addr_set)" by (simp add: aset_wf_def)
  have v: "mi_valid []" "mi_valid (ari_Module (web NoKey))" by (simp_all add: mi_valid_def valid_name_def)
  note a = address_set_laws[OF e e v(1)] and b = address_set_laws[OF e e v(2)]
  have wf: "aset_wf mi_String mi_valid (aset_Add mi_String [] [])"
    "aset_wf mi_String mi_valid (aset_Add mi_String [] (ari_Module (web NoKey)))" using a b by blast+
  show ?thesis
    using address_set_laws[OF wf v(1)] a b by (auto simp: MakeSet_def aset_members_def)
qed

end
