(* ===== verification/State_Types.thy ===== *)
theory State_Types
  imports Addr_Collections "HOL-Library.Word"
begin

text \<open>
  The data of the state (\<^verbatim>\<open>internal/states\<close>): resource instance objects, resource instances with
  their current and deposed objects, resources, modules and the state itself, with the
  comparison and copy functions of \<^verbatim>\<open>instance_object_src.go\<close>, \<^verbatim>\<open>resource.go\<close>, \<^verbatim>\<open>state_equal.go\<close> and
  \<^verbatim>\<open>state_deepcopy.go\<close>, and the keys of deposed objects.

  Types of packages outside the repository are type variables: \<open>'p\<close> is a provider address,
  \<open>'v\<close> a \<^verbatim>\<open>cty.Value\<close>, \<open>'m\<close> a \<^verbatim>\<open>cty.PathValueMarks\<close>; \<open>'c\<close> stands for a snapshot of check results, which
  the state only stores.  A Go pointer to one of these structs that may be nil is an option.
  The state is a tree of pointers without sharing, so writing through a pointer is the update
  of the one place that holds it.
\<close>

section \<open>Objects\<close>

datatype ObjectStatus = ObjectReady | ObjectTainted | ObjectPlanned

record 'm ResourceInstanceObjectSrc =
  os_SchemaVersion :: nat
  os_AttrsJSON :: string
  os_AttrsFlat :: "(string, string) gomap option"
  os_AttrSensitivePaths :: "'m list"
  os_TransientPathValueMarks :: "'m list"
  os_Private :: string
  os_Status :: ObjectStatus
  os_Dependencies :: "ConfigResource list"
  os_CreateBeforeDestroy :: bool
  os_SkipDestroy :: bool

definition equalSlicesIgnoreOrder :: "('a \<Rightarrow> 'a \<Rightarrow> bool) \<Rightarrow> 'a list \<Rightarrow> 'a list \<Rightarrow> bool" where
  "equalSlicesIgnoreOrder fn a b =
     (if length a \<noteq> length b then False
      else if \<not> list_all (\<lambda>v. list_ex (\<lambda>ot. fn v ot) b) a then False
      else list_all (\<lambda>v. list_ex (\<lambda>ot. fn v ot) a) b)"

text \<open>\<^verbatim>\<open>reflect.DeepEqual\<close> on two maps from strings to strings.\<close>

definition DeepEqual_map :: "(string, string) gomap option \<Rightarrow> (string, string) gomap option \<Rightarrow> bool" where
  "DeepEqual_map a b =
     (case (a, b) of
        (None, None) \<Rightarrow> True
      | (Some m, Some n) \<Rightarrow> length m = length n \<and> list_all (\<lambda>(k, v). gmap_get n k = Some v) m
      | _ \<Rightarrow> False)"

text \<open>\<open>meq\<close> is \<^verbatim>\<open>cty.PathValueMarks.Equal\<close>.\<close>

fun os_Equal :: "('m \<Rightarrow> 'm \<Rightarrow> bool) \<Rightarrow> 'm ResourceInstanceObjectSrc option \<Rightarrow> 'm ResourceInstanceObjectSrc option \<Rightarrow> bool" where
  "os_Equal meq None None = True"
| "os_Equal meq (Some a) (Some b) =
     (os_SchemaVersion a = os_SchemaVersion b \<and>
      os_AttrsJSON a = os_AttrsJSON b \<and>
      DeepEqual_map (os_AttrsFlat a) (os_AttrsFlat b) \<and>
      equalSlicesIgnoreOrder meq (os_AttrSensitivePaths a) (os_AttrSensitivePaths b) \<and>
      equalSlicesIgnoreOrder meq (os_TransientPathValueMarks a) (os_TransientPathValueMarks b) \<and>
      os_Private a = os_Private b \<and>
      os_Status a = os_Status b \<and>
      equalSlicesIgnoreOrder cr_Equal (os_Dependencies a) (os_Dependencies b) \<and>
      os_CreateBeforeDestroy a = os_CreateBeforeDestroy b \<and>
      os_SkipDestroy a = os_SkipDestroy b)"
| "os_Equal meq _ _ = False"

section \<open>Deposed keys\<close>

type_synonym DeposedKey = string

definition NotDeposed :: DeposedKey where
  "NotDeposed = []"

text \<open>A generation: the variable \<^verbatim>\<open>CurrentGen\<close> or a deposed key.\<close>

datatype Generation = CurrentGen | DeposedGen DeposedKey

definition dk_Generation :: "DeposedKey \<Rightarrow> Generation" where
  "dk_Generation k = (if k = NotDeposed then CurrentGen else DeposedGen k)"

text \<open>\<^verbatim>\<open>fmt.Sprintf("%08x", v)\<close> of a random 32-bit number.\<close>

definition NewDeposedKey :: "32 word \<Rightarrow> DeposedKey" where
  "NewDeposedKey v = map (\<lambda>i. hex_char (unat (drop_bit (4 * i) v) mod 16)) [7, 6, 5, 4, 3, 2, 1, 0]"

section \<open>Instances, resources, modules\<close>

record 'm ResourceInstance_state =
  is_Current :: "'m ResourceInstanceObjectSrc option"
  is_Deposed :: "(DeposedKey, 'm ResourceInstanceObjectSrc) gomap"
  is_ProviderKey :: InstanceKey

record 'p AbsProviderConfig =
  apc_Module :: Module
  apc_Provider :: 'p
  apc_Alias :: string

text \<open>\<open>pq\<close> renders a provider address with \<^verbatim>\<open>%q\<close>.\<close>

definition apc_String :: "('p \<Rightarrow> string) \<Rightarrow> 'p AbsProviderConfig \<Rightarrow> string" where
  "apc_String pq pc =
     (if length (apc_Module pc) > 0 then mod_String (apc_Module pc) @ ''.'' else []) @
     ''provider['' @ pq (apc_Provider pc) @ '']'' @
     (if apc_Alias pc \<noteq> [] then ''.'' @ apc_Alias pc else [])"

record ('p, 'm) Resource_state =
  rs_Addr :: AbsResource
  rs_Instances :: "(InstanceKey, 'm ResourceInstance_state) gomap"
  rs_ProviderConfig :: "'p AbsProviderConfig"

record AbsOutputValue =
  aov_Module :: ModuleInstance
  aov_Name :: string

record AbsLocalValue =
  alv_Module :: ModuleInstance
  alv_Name :: string

record 'v OutputValue_state =
  ov_Addr :: AbsOutputValue
  ov_Value :: 'v
  ov_Sensitive :: bool
  ov_Deprecated :: string

record ('p, 'v, 'm) Module_state =
  ms_Addr :: ModuleInstance
  ms_Resources :: "(string, ('p, 'm) Resource_state) gomap"
  ms_OutputValues :: "(string, 'v OutputValue_state) gomap"
  ms_LocalValues :: "(string, 'v) gomap"

record ('p, 'v, 'm, 'c) State =
  st_Modules :: "(string, ('p, 'v, 'm) Module_state) gomap"
  st_CheckResults :: "'c option"

definition NewResourceInstance :: "'m ResourceInstance_state" where
  "NewResourceInstance = \<lparr>is_Current = None, is_Deposed = [], is_ProviderKey = NoKey\<rparr>"

definition HasCurrent :: "'m ResourceInstance_state option \<Rightarrow> bool" where
  "HasCurrent i = (case i of None \<Rightarrow> False | Some i \<Rightarrow> is_Current i \<noteq> None)"

definition HasDeposed :: "'m ResourceInstance_state option \<Rightarrow> DeposedKey \<Rightarrow> bool" where
  "HasDeposed i key = (case i of None \<Rightarrow> False | Some i \<Rightarrow> gmap_get (is_Deposed i) key \<noteq> None)"

definition HasAnyDeposed :: "'m ResourceInstance_state option \<Rightarrow> bool" where
  "HasAnyDeposed i = (case i of None \<Rightarrow> False | Some i \<Rightarrow> length (is_Deposed i) > 0)"

definition HasObjects :: "'m ResourceInstance_state \<Rightarrow> bool" where
  "HasObjects i \<longleftrightarrow> is_Current i \<noteq> None \<or> length (is_Deposed i) \<noteq> 0"

fun GetGeneration :: "'m ResourceInstance_state \<Rightarrow> Generation \<Rightarrow> 'm ResourceInstanceObjectSrc option" where
  "GetGeneration i CurrentGen = is_Current i"
| "GetGeneration i (DeposedGen dk) = gmap_get (is_Deposed i) dk"

text \<open>
  \<open>kdiff\<close> is the comparison of the values of two provider keys in \<^verbatim>\<open>cty\<close>.  Both functions compare
  through the keys of the receiver only, after comparing the numbers of entries.
\<close>

fun is_Equal :: "('m \<Rightarrow> 'm \<Rightarrow> bool) \<Rightarrow> (InstanceKey \<Rightarrow> InstanceKey \<Rightarrow> bool) \<Rightarrow>
    'm ResourceInstance_state option \<Rightarrow> 'm ResourceInstance_state option \<Rightarrow> bool" where
  "is_Equal meq kdiff None None = True"
| "is_Equal meq kdiff (Some i) (Some ot) =
     (if \<not> os_Equal meq (is_Current i) (is_Current ot) then False
      else if (is_ProviderKey i = NoKey) \<noteq> (is_ProviderKey ot = NoKey) then False
      else if is_ProviderKey i \<noteq> NoKey \<and> kdiff (is_ProviderKey i) (is_ProviderKey ot) then False
      else if length (is_Deposed i) \<noteq> length (is_Deposed ot) then False
      else list_all (\<lambda>(key, dep). os_Equal meq (Some dep) (gmap_get (is_Deposed ot) key)) (is_Deposed i))"
| "is_Equal meq kdiff _ _ = False"

fun rs_Equal :: "('p \<Rightarrow> string) \<Rightarrow> ('m \<Rightarrow> 'm \<Rightarrow> bool) \<Rightarrow> (InstanceKey \<Rightarrow> InstanceKey \<Rightarrow> bool) \<Rightarrow>
    ('p, 'm) Resource_state option \<Rightarrow> ('p, 'm) Resource_state option \<Rightarrow> bool" where
  "rs_Equal pq meq kdiff None None = True"
| "rs_Equal pq meq kdiff (Some rs) (Some ot) =
     (if \<not> ar_Equal (rs_Addr rs) (rs_Addr ot) \<or> apc_String pq (rs_ProviderConfig rs) \<noteq> apc_String pq (rs_ProviderConfig ot) then False
      else if length (rs_Instances rs) \<noteq> length (rs_Instances ot) then False
      else list_all (\<lambda>(key, inst). is_Equal meq kdiff (Some inst) (gmap_get (rs_Instances ot) key)) (rs_Instances rs))"
| "rs_Equal pq meq kdiff _ _ = False"

section \<open>Copies\<close>

text \<open>The loop that copies a map into a new one.\<close>

definition gmap_copy :: "('v \<Rightarrow> 'w) \<Rightarrow> ('k, 'v) gomap \<Rightarrow> ('k, 'w) gomap" where
  "gmap_copy f m = foldl (\<lambda>acc (k, v). gmap_put k (f v) acc) [] m"

definition os_DeepCopy :: "'m ResourceInstanceObjectSrc option \<Rightarrow> 'm ResourceInstanceObjectSrc option" where
  "os_DeepCopy x =
     map_option (\<lambda>os.
       \<lparr>os_SchemaVersion = os_SchemaVersion os,
        os_AttrsJSON = os_AttrsJSON os,
        os_AttrsFlat = map_option (gmap_copy (\<lambda>v. v)) (os_AttrsFlat os),
        os_AttrSensitivePaths = os_AttrSensitivePaths os,
        os_TransientPathValueMarks = os_TransientPathValueMarks os,
        os_Private = os_Private os,
        os_Status = os_Status os,
        os_Dependencies = os_Dependencies os,
        os_CreateBeforeDestroy = os_CreateBeforeDestroy os,
        os_SkipDestroy = os_SkipDestroy os\<rparr>) x"

definition is_DeepCopy :: "'m ResourceInstance_state option \<Rightarrow> 'm ResourceInstance_state option" where
  "is_DeepCopy x =
     map_option (\<lambda>i.
       \<lparr>is_Current = os_DeepCopy (is_Current i),
        is_Deposed = gmap_copy (\<lambda>obj. the (os_DeepCopy (Some obj))) (is_Deposed i),
        is_ProviderKey = is_ProviderKey i\<rparr>) x"

definition rs_DeepCopy :: "('p, 'm) Resource_state option \<Rightarrow> ('p, 'm) Resource_state option" where
  "rs_DeepCopy x =
     map_option (\<lambda>rs.
       \<lparr>rs_Addr = rs_Addr rs,
        rs_Instances = gmap_copy (\<lambda>i. the (is_DeepCopy (Some i))) (rs_Instances rs),
        rs_ProviderConfig = rs_ProviderConfig rs\<rparr>) x"

definition ov_DeepCopy :: "'v OutputValue_state option \<Rightarrow> 'v OutputValue_state option" where
  "ov_DeepCopy x =
     map_option (\<lambda>os.
       \<lparr>ov_Addr = ov_Addr os, ov_Value = ov_Value os, ov_Sensitive = ov_Sensitive os, ov_Deprecated = ov_Deprecated os\<rparr>) x"

definition ms_DeepCopy :: "('p, 'v, 'm) Module_state option \<Rightarrow> ('p, 'v, 'm) Module_state option" where
  "ms_DeepCopy x =
     map_option (\<lambda>ms.
       \<lparr>ms_Addr = ms_Addr ms,
        ms_Resources = gmap_copy (\<lambda>r. the (rs_DeepCopy (Some r))) (ms_Resources ms),
        ms_OutputValues = gmap_copy (\<lambda>v. the (ov_DeepCopy (Some v))) (ms_OutputValues ms),
        ms_LocalValues = gmap_copy (\<lambda>v. v) (ms_LocalValues ms)\<rparr>) x"

text \<open>\<open>ccopy\<close> copies the check results.\<close>

definition st_DeepCopy :: "('c option \<Rightarrow> 'c option) \<Rightarrow> ('p, 'v, 'm, 'c) State option \<Rightarrow> ('p, 'v, 'm, 'c) State option" where
  "st_DeepCopy ccopy x =
     map_option (\<lambda>s.
       \<lparr>st_Modules = gmap_copy (\<lambda>m. the (ms_DeepCopy (Some m))) (st_Modules s),
        st_CheckResults = ccopy (st_CheckResults s)\<rparr>) x"

section \<open>Copies are equal\<close>

lemma gmap_put_new: "k \<notin> gmap_keys m \<Longrightarrow> gmap_put k v m = m @ [(k, v)]"
  by (induction m) auto

lemma gmap_copy_map: "gmap_ok m \<Longrightarrow> gmap_copy f m = map (\<lambda>(k, v). (k, f v)) m"
proof (induction m rule: rev_induct)
  case (snoc e m)
  obtain k v where e: "e = (k, v)" by fastforce
  with snoc.prems have ok: "gmap_ok m" "k \<notin> gmap_keys m" by (auto simp: gmap_ok_def gmap_keys_def)
  have "gmap_keys (map (\<lambda>(k, v). (k, f v)) m) = gmap_keys m" by (force simp: gmap_keys_def)
  with e snoc.IH[OF ok(1)] ok(2) show ?case by (simp add: gmap_copy_def gmap_put_new)
qed (simp add: gmap_copy_def)

lemma gmap_copy_id: "gmap_ok m \<Longrightarrow> \<forall>e \<in> set m. P (snd e) \<Longrightarrow> (\<And>v. P v \<Longrightarrow> f v = v) \<Longrightarrow> gmap_copy f m = m"
  by (auto simp: gmap_copy_map intro!: map_idI)

text \<open>Keys are distinct throughout, as in every Go map.\<close>

definition os_maps_ok :: "'m ResourceInstanceObjectSrc \<Rightarrow> bool" where
  "os_maps_ok os \<longleftrightarrow> (case os_AttrsFlat os of None \<Rightarrow> True | Some m \<Rightarrow> gmap_ok m)"

definition is_maps_ok :: "'m ResourceInstance_state \<Rightarrow> bool" where
  "is_maps_ok i \<longleftrightarrow> (case is_Current i of None \<Rightarrow> True | Some os \<Rightarrow> os_maps_ok os) \<and> gmap_ok (is_Deposed i) \<and>
     (\<forall>e \<in> set (is_Deposed i). os_maps_ok (snd e))"

definition rs_maps_ok :: "('p, 'm) Resource_state \<Rightarrow> bool" where
  "rs_maps_ok rs \<longleftrightarrow> gmap_ok (rs_Instances rs) \<and> (\<forall>e \<in> set (rs_Instances rs). is_maps_ok (snd e))"

definition ms_maps_ok :: "('p, 'v, 'm) Module_state \<Rightarrow> bool" where
  "ms_maps_ok ms \<longleftrightarrow> gmap_ok (ms_Resources ms) \<and> (\<forall>e \<in> set (ms_Resources ms). rs_maps_ok (snd e)) \<and>
     gmap_ok (ms_OutputValues ms) \<and> gmap_ok (ms_LocalValues ms)"

definition st_maps_ok :: "('p, 'v, 'm, 'c) State \<Rightarrow> bool" where
  "st_maps_ok s \<longleftrightarrow> gmap_ok (st_Modules s) \<and> (\<forall>e \<in> set (st_Modules s). ms_maps_ok (snd e))"

lemma os_DeepCopy_id: "os_maps_ok os \<Longrightarrow> os_DeepCopy (Some os) = Some os"
  by (auto simp: os_DeepCopy_def os_maps_ok_def gmap_copy_id[of _ "\<lambda>_. True"] split: option.splits)

lemma is_DeepCopy_id: "is_maps_ok i \<Longrightarrow> is_DeepCopy (Some i) = Some i"
proof -
  assume ok: "is_maps_ok i"
  have "os_DeepCopy (is_Current i) = is_Current i"
    using ok by (cases "is_Current i") (auto simp: is_maps_ok_def os_DeepCopy_id, simp add: os_DeepCopy_def)
  moreover have "gmap_copy (\<lambda>obj. the (os_DeepCopy (Some obj))) (is_Deposed i) = is_Deposed i"
    using ok by (intro gmap_copy_id[of _ os_maps_ok]) (auto simp: is_maps_ok_def os_DeepCopy_id)
  ultimately show ?thesis by (simp add: is_DeepCopy_def)
qed

lemma rs_DeepCopy_id: "rs_maps_ok rs \<Longrightarrow> rs_DeepCopy (Some rs) = Some rs"
  by (simp add: rs_DeepCopy_def rs_maps_ok_def is_DeepCopy_id gmap_copy_id[of _ is_maps_ok])

lemma ov_DeepCopy_id: "ov_DeepCopy x = x"
  by (cases x) (simp_all add: ov_DeepCopy_def)

lemma ms_DeepCopy_id: "ms_maps_ok ms \<Longrightarrow> ms_DeepCopy (Some ms) = Some ms"
  by (simp add: ms_DeepCopy_def ms_maps_ok_def rs_DeepCopy_id ov_DeepCopy_id gmap_copy_id[of _ rs_maps_ok]
      gmap_copy_id[of _ "\<lambda>_. True"])

lemma st_DeepCopy_id: "st_maps_ok s \<Longrightarrow> (\<And>c. ccopy c = c) \<Longrightarrow> st_DeepCopy ccopy (Some s) = Some s"
  by (simp add: st_DeepCopy_def st_maps_ok_def ms_DeepCopy_id gmap_copy_id[of _ ms_maps_ok])

section \<open>Deposed keys are distinct\<close>

lemma hex_char_inj: "a < 16 \<Longrightarrow> b < 16 \<Longrightarrow> hex_char a = hex_char b \<longleftrightarrow> a = b"
  using hex_roundtrip by metis

text \<open>The eight digits determine the number.\<close>

lemma nibble_bit:
  fixes v :: "32 word"
  assumes "n < 32"
  shows "bit v n \<longleftrightarrow> bit (unat (drop_bit (4 * (n div 4)) v) mod 16) (n mod 4)"
proof -
  have "unat (drop_bit (4 * (n div 4)) v) mod 16 = take_bit 4 (unat (drop_bit (4 * (n div 4)) v))"
    by (simp add: take_bit_eq_mod)
  moreover have "bit (unat (drop_bit (4 * (n div 4)) v)) (n mod 4) \<longleftrightarrow> bit v n"
    by (simp add: bit_unsigned_iff bit_drop_bit_eq)
  ultimately show ?thesis by (simp add: bit_take_bit_iff)
qed

lemma NewDeposedKey_inj: "NewDeposedKey v = NewDeposedKey w \<longleftrightarrow> v = w"
proof
  assume eq: "NewDeposedKey v = NewDeposedKey w"
  have nib: "unat (drop_bit (4 * i) v) mod 16 = unat (drop_bit (4 * i) w) mod 16" if "i < 8" for i
  proof -
    have "i \<in> {0, 1, 2, 3, 4, 5, 6, 7}" using that by auto
    then have "hex_char (unat (drop_bit (4 * i) v) mod 16) = hex_char (unat (drop_bit (4 * i) w) mod 16)"
      using eq by (auto simp: NewDeposedKey_def)
    then show ?thesis by (simp add: hex_char_inj)
  qed
  show "v = w"
  proof (rule bit_word_eqI)
    fix n assume n: "n < LENGTH(32)"
    then have "n div 4 < 8" by simp
    with nib[of "n div 4"] nibble_bit[of n v] nibble_bit[of n w] n show "bit v n \<longleftrightarrow> bit w n" by simp
  qed
qed simp

lemma NewDeposedKey_length: "length (NewDeposedKey v) = 8"
  by (simp add: NewDeposedKey_def)

end
