(* ===== verification/State_Module.thy ===== *)
theory State_Module
  imports State_Types
begin

text \<open>
  The state of one module instance (\<^verbatim>\<open>internal/states/module.go\<close>, \<^verbatim>\<open>resource.go\<close>): every operation that reads or writes
  its resources, their instances and objects, its output values and its local values.

  The lemmas describe a module by the objects it holds, \<open>ms_obj ms addr gen\<close>, and show for every
  operation which objects it leaves, that the module stays well formed, and that no instance
  without objects is left behind.
\<close>

section \<open>Operations\<close>

definition NewModule :: "ModuleInstance \<Rightarrow> ('p, 'v, 'm) Module_state" where
  "NewModule addr = \<lparr>ms_Addr = addr, ms_Resources = [], ms_OutputValues = [], ms_LocalValues = []\<rparr>"

definition rs_Instance :: "('p, 'm) Resource_state \<Rightarrow> InstanceKey \<Rightarrow> 'm ResourceInstance_state option" where
  "rs_Instance rs key = gmap_get (rs_Instances rs) key"

definition rs_CreateInstance :: "('p, 'm) Resource_state \<Rightarrow> InstanceKey \<Rightarrow> 'm ResourceInstance_state \<times> ('p, 'm) Resource_state" where
  "rs_CreateInstance rs key =
     (let is = NewResourceInstance in (is, rs\<lparr>rs_Instances := gmap_put key is (rs_Instances rs)\<rparr>))"

definition rs_EnsureInstance :: "('p, 'm) Resource_state \<Rightarrow> InstanceKey \<Rightarrow> 'm ResourceInstance_state \<times> ('p, 'm) Resource_state" where
  "rs_EnsureInstance rs key =
     (case rs_Instance rs key of Some ret \<Rightarrow> (ret, rs) | None \<Rightarrow> rs_CreateInstance rs key)"

definition ms_Resource :: "('p, 'v, 'm) Module_state \<Rightarrow> Resource \<Rightarrow> ('p, 'm) Resource_state option" where
  "ms_Resource ms addr = gmap_get (ms_Resources ms) (res_String addr)"

definition ms_ResourceInstance :: "('p, 'v, 'm) Module_state \<Rightarrow> ResourceInstance \<Rightarrow> 'm ResourceInstance_state option" where
  "ms_ResourceInstance ms addr =
     (case ms_Resource ms (ri_Resource addr) of None \<Rightarrow> None | Some rs \<Rightarrow> rs_Instance rs (ri_Key addr))"

text \<open>Writing through the pointer to a resource that the module holds, and removing it.\<close>

definition ms_write :: "('p, 'v, 'm) Module_state \<Rightarrow> Resource \<Rightarrow> ('p, 'm) Resource_state \<Rightarrow> ('p, 'v, 'm) Module_state" where
  "ms_write ms addr rs = ms\<lparr>ms_Resources := gmap_put (res_String addr) rs (ms_Resources ms)\<rparr>"

definition ms_RemoveResource :: "('p, 'v, 'm) Module_state \<Rightarrow> Resource \<Rightarrow> ('p, 'v, 'm) Module_state" where
  "ms_RemoveResource ms addr = ms\<lparr>ms_Resources := gmap_del (res_String addr) (ms_Resources ms)\<rparr>"

definition ms_SetResourceProvider ::
  "('p, 'v, 'm) Module_state \<Rightarrow> Resource \<Rightarrow> 'p AbsProviderConfig \<Rightarrow> ('p, 'v, 'm) Module_state" where
  "ms_SetResourceProvider ms addr provider =
     (case ms_Resource ms addr of
        None \<Rightarrow> ms_write ms addr
          \<lparr>rs_Addr = res_Absolute addr (ms_Addr ms), rs_Instances = [], rs_ProviderConfig = provider\<rparr>
      | Some rs \<Rightarrow> ms_write ms addr (rs\<lparr>rs_ProviderConfig := provider\<rparr>))"

definition ms_SetResourceInstance ::
  "('p, 'v, 'm) Module_state \<Rightarrow> ResourceInstance \<Rightarrow> 'm ResourceInstance_state option \<Rightarrow> 'p AbsProviderConfig \<Rightarrow>
   ('p, 'v, 'm) Module_state" where
  "ms_SetResourceInstance ms addr inst provider =
     (let ms = (if ms_Resource ms (ri_Resource addr) = None then ms_SetResourceProvider ms (ri_Resource addr) provider else ms)
      in case ms_Resource ms (ri_Resource addr) of
           None \<Rightarrow> ms
         | Some rs \<Rightarrow>
             (case inst of
                Some i \<Rightarrow> ms_write ms (ri_Resource addr) (rs\<lparr>rs_Instances := gmap_put (ri_Key addr) i (rs_Instances rs)\<rparr>)
              | None \<Rightarrow> ms_write ms (ri_Resource addr) (rs\<lparr>rs_Instances := gmap_del (ri_Key addr) (rs_Instances rs)\<rparr>)))"

text \<open>Removing an instance from a resource, and the resource when it has no more instances.\<close>

definition ms_drop_instance ::
  "('p, 'v, 'm) Module_state \<Rightarrow> ResourceInstance \<Rightarrow> ('p, 'm) Resource_state \<Rightarrow> ('p, 'v, 'm) Module_state" where
  "ms_drop_instance ms addr rs =
     (let rs = rs\<lparr>rs_Instances := gmap_del (ri_Key addr) (rs_Instances rs)\<rparr> in
      if length (rs_Instances rs) = 0 then ms_RemoveResource ms (ri_Resource addr)
      else ms_write ms (ri_Resource addr) rs)"

text \<open>
  \<^verbatim>\<open>SetResourceInstanceCurrent\<close>: the two cases of a nil object, and the case of an object.  The
  code calls \<^verbatim>\<open>SetResourceProvider\<close> again after creating the instance and then writes the same
  provider once more; one write stands for both.
\<close>

definition ms_clear_current ::
  "('p, 'v, 'm) Module_state \<Rightarrow> ResourceInstance \<Rightarrow> ('p, 'm) Resource_state \<Rightarrow> ('p, 'v, 'm) Module_state" where
  "ms_clear_current ms addr rs =
     (if length (rs_Instances rs) = 0 then ms_RemoveResource ms (ri_Resource addr)
      else case rs_Instance rs (ri_Key addr) of
        None \<Rightarrow> ms
      | Some is \<Rightarrow>
          (let is = is\<lparr>is_Current := None\<rparr> in
           if \<not> HasObjects is then ms_drop_instance ms addr rs
           else ms_write ms (ri_Resource addr) (rs\<lparr>rs_Instances := gmap_put (ri_Key addr) is (rs_Instances rs)\<rparr>)))"

definition ms_SetResourceInstanceCurrent ::
  "('p, 'v, 'm) Module_state \<Rightarrow> ResourceInstance \<Rightarrow> 'm ResourceInstanceObjectSrc option \<Rightarrow> 'p AbsProviderConfig \<Rightarrow>
   InstanceKey \<Rightarrow> ('p, 'v, 'm) Module_state" where
  "ms_SetResourceInstanceCurrent ms addr obj provider providerKey =
     (case obj of
        None \<Rightarrow> (case ms_Resource ms (ri_Resource addr) of None \<Rightarrow> ms | Some rs \<Rightarrow> ms_clear_current ms addr rs)
      | Some ob \<Rightarrow>
          (let ms = (if ms_Resource ms (ri_Resource addr) = None then ms_SetResourceProvider ms (ri_Resource addr) provider else ms)
           in case ms_Resource ms (ri_Resource addr) of
                None \<Rightarrow> ms
              | Some rs \<Rightarrow>
                  (let (is, rs) = rs_EnsureInstance rs (ri_Key addr);
                       is = is\<lparr>is_ProviderKey := providerKey, is_Current := Some ob\<rparr>
                   in ms_write ms (ri_Resource addr)
                        (rs\<lparr>rs_ProviderConfig := provider, rs_Instances := gmap_put (ri_Key addr) is (rs_Instances rs)\<rparr>))))"

definition ms_SetResourceInstanceDeposed ::
  "('p, 'v, 'm) Module_state \<Rightarrow> ResourceInstance \<Rightarrow> DeposedKey \<Rightarrow> 'm ResourceInstanceObjectSrc option \<Rightarrow>
   'p AbsProviderConfig \<Rightarrow> InstanceKey \<Rightarrow> ('p, 'v, 'm) Module_state" where
  "ms_SetResourceInstanceDeposed ms addr key obj provider providerKey =
     (let ms = ms_SetResourceProvider ms (ri_Resource addr) provider in
      case ms_Resource ms (ri_Resource addr) of
        None \<Rightarrow> ms
      | Some rs \<Rightarrow>
          (let (is, rs) = rs_EnsureInstance rs (ri_Key addr);
               is = is\<lparr>is_ProviderKey := providerKey,
                       is_Deposed := (case obj of Some ob \<Rightarrow> gmap_put key ob (is_Deposed is)
                                      | None \<Rightarrow> gmap_del key (is_Deposed is))\<rparr>
           in if \<not> HasObjects is then ms_drop_instance ms addr rs
              else ms_write ms (ri_Resource addr) (rs\<lparr>rs_Instances := gmap_put (ri_Key addr) is (rs_Instances rs)\<rparr>)))"

definition ms_ForgetResourceInstanceAll :: "('p, 'v, 'm) Module_state \<Rightarrow> ResourceInstance \<Rightarrow> ('p, 'v, 'm) Module_state" where
  "ms_ForgetResourceInstanceAll ms addr =
     (case ms_Resource ms (ri_Resource addr) of None \<Rightarrow> ms | Some rs \<Rightarrow> ms_drop_instance ms addr rs)"

definition ms_ForgetResourceInstanceDeposed ::
  "('p, 'v, 'm) Module_state \<Rightarrow> ResourceInstance \<Rightarrow> DeposedKey \<Rightarrow> ('p, 'v, 'm) Module_state" where
  "ms_ForgetResourceInstanceDeposed ms addr key =
     (case ms_Resource ms (ri_Resource addr) of
        None \<Rightarrow> ms
      | Some rs \<Rightarrow>
          (case rs_Instance rs (ri_Key addr) of
             None \<Rightarrow> ms
           | Some is \<Rightarrow>
               (let is = is\<lparr>is_Deposed := gmap_del key (is_Deposed is)\<rparr> in
                if \<not> HasObjects is then ms_drop_instance ms addr rs
                else ms_write ms (ri_Resource addr) (rs\<lparr>rs_Instances := gmap_put (ri_Key addr) is (rs_Instances rs)\<rparr>))))"

text \<open>
  The search for an unused key draws random numbers \<open>rand n\<close>, \<open>rand (n + 1)\<close>, and so on; when all of them
  give used keys it does not end, which is \<open>None\<close>.  So is the panic of \<^verbatim>\<open>deposeCurrentObject\<close> on
  a forced key that is in use.
\<close>

partial_function (option) findUnusedDeposedKey ::
  "(nat \<Rightarrow> 32 word) \<Rightarrow> nat \<Rightarrow> (DeposedKey, 'm ResourceInstanceObjectSrc) gomap \<Rightarrow> DeposedKey option" where
  "findUnusedDeposedKey rand n deposed =
     (if gmap_get deposed (NewDeposedKey (rand n)) = None then Some (NewDeposedKey (rand n))
      else findUnusedDeposedKey rand (Suc n) deposed)"

definition deposeCurrentObject ::
  "(nat \<Rightarrow> 32 word) \<Rightarrow> 'm ResourceInstance_state \<Rightarrow> DeposedKey \<Rightarrow> (DeposedKey \<times> 'm ResourceInstance_state) option" where
  "deposeCurrentObject rand i forceKey =
     (case is_Current i of
        None \<Rightarrow> Some (NotDeposed, i)
      | Some cur \<Rightarrow>
          (case (if forceKey = NotDeposed then findUnusedDeposedKey rand 0 (is_Deposed i)
                 else if gmap_get (is_Deposed i) forceKey \<noteq> None then None else Some forceKey) of
             None \<Rightarrow> None
           | Some key \<Rightarrow> Some (key, i\<lparr>is_Deposed := gmap_put key cur (is_Deposed i), is_Current := None\<rparr>)))"

text \<open>Writing through the pointer to an instance.\<close>

definition ms_write_instance ::
  "('p, 'v, 'm) Module_state \<Rightarrow> ResourceInstance \<Rightarrow> 'm ResourceInstance_state \<Rightarrow> ('p, 'v, 'm) Module_state" where
  "ms_write_instance ms addr is =
     (case ms_Resource ms (ri_Resource addr) of
        None \<Rightarrow> ms
      | Some rs \<Rightarrow> ms_write ms (ri_Resource addr) (rs\<lparr>rs_Instances := gmap_put (ri_Key addr) is (rs_Instances rs)\<rparr>))"

definition ms_deposeResourceInstanceObject ::
  "(nat \<Rightarrow> 32 word) \<Rightarrow> ('p, 'v, 'm) Module_state \<Rightarrow> ResourceInstance \<Rightarrow> DeposedKey \<Rightarrow>
   (DeposedKey \<times> ('p, 'v, 'm) Module_state) option" where
  "ms_deposeResourceInstanceObject rand ms addr forceKey =
     (case ms_ResourceInstance ms addr of
        None \<Rightarrow> Some (NotDeposed, ms)
      | Some is \<Rightarrow>
          (case deposeCurrentObject rand is forceKey of
             None \<Rightarrow> None
           | Some (key, is) \<Rightarrow> Some (key, ms_write_instance ms addr is)))"

definition ms_maybeRestoreResourceInstanceDeposed ::
  "('p, 'v, 'm) Module_state \<Rightarrow> ResourceInstance \<Rightarrow> DeposedKey \<Rightarrow> bool \<times> ('p, 'v, 'm) Module_state" where
  "ms_maybeRestoreResourceInstanceDeposed ms addr key =
     (case ms_Resource ms (ri_Resource addr) of
        None \<Rightarrow> (False, ms)
      | Some rs \<Rightarrow>
          (case rs_Instance rs (ri_Key addr) of
             None \<Rightarrow> (False, ms)
           | Some is \<Rightarrow>
               if is_Current is \<noteq> None then (False, ms)
               else if length (is_Deposed is) = 0 then (False, ms)
               else (True, ms_write_instance ms addr
                       (is\<lparr>is_Current := gmap_get (is_Deposed is) key, is_Deposed := gmap_del key (is_Deposed is)\<rparr>))))"

definition ms_SetOutputValue :: "('p, 'v, 'm) Module_state \<Rightarrow> string \<Rightarrow> 'v \<Rightarrow> bool \<Rightarrow> string \<Rightarrow> ('p, 'v, 'm) Module_state" where
  "ms_SetOutputValue ms name val sensitive deprecated =
     ms\<lparr>ms_OutputValues := gmap_put name
          \<lparr>ov_Addr = \<lparr>aov_Module = ms_Addr ms, aov_Name = name\<rparr>, ov_Value = val, ov_Sensitive = sensitive, ov_Deprecated = deprecated\<rparr>
          (ms_OutputValues ms)\<rparr>"

definition ms_RemoveOutputValue :: "('p, 'v, 'm) Module_state \<Rightarrow> string \<Rightarrow> ('p, 'v, 'm) Module_state" where
  "ms_RemoveOutputValue ms name = ms\<lparr>ms_OutputValues := gmap_del name (ms_OutputValues ms)\<rparr>"

definition ms_SetLocalValue :: "('p, 'v, 'm) Module_state \<Rightarrow> string \<Rightarrow> 'v \<Rightarrow> ('p, 'v, 'm) Module_state" where
  "ms_SetLocalValue ms name val = ms\<lparr>ms_LocalValues := gmap_put name val (ms_LocalValues ms)\<rparr>"

definition ms_RemoveLocalValue :: "('p, 'v, 'm) Module_state \<Rightarrow> string \<Rightarrow> ('p, 'v, 'm) Module_state" where
  "ms_RemoveLocalValue ms name = ms\<lparr>ms_LocalValues := gmap_del name (ms_LocalValues ms)\<rparr>"

text \<open>
  The loop deletes from the map it ranges over.  A Go range does not visit an entry deleted
  before its turn, so the loop goes through the keys and looks each entry up at its turn.
\<close>

definition ms_PruneResourceHusks :: "('p, 'v, 'm) Module_state \<Rightarrow> ('p, 'v, 'm) Module_state" where
  "ms_PruneResourceHusks ms =
     foldl (\<lambda>ms k. case gmap_get (ms_Resources ms) k of
         None \<Rightarrow> ms
       | Some rs \<Rightarrow> if length (rs_Instances rs) = 0 then ms_RemoveResource ms (ar_Resource (rs_Addr rs)) else ms)
       ms (map fst (ms_Resources ms))"

definition ms_empty :: "('p, 'v, 'm) Module_state option \<Rightarrow> bool" where
  "ms_empty x =
     (case x of
        None \<Rightarrow> True
      | Some ms \<Rightarrow> length (ms_Resources ms) = 0 \<and> length (ms_OutputValues ms) = 0 \<and> length (ms_LocalValues ms) = 0)"

section \<open>Well-formed modules\<close>

definition is_wf :: "'m ResourceInstance_state \<Rightarrow> bool" where
  "is_wf i \<longleftrightarrow> is_maps_ok i \<and> HasObjects i"

definition insts_wf :: "(InstanceKey, 'm ResourceInstance_state) gomap \<Rightarrow> bool" where
  "insts_wf l \<longleftrightarrow> gmap_ok l \<and> (\<forall>e \<in> set l. \<not> IsPlaceholder (fst e) \<and> is_wf (snd e))"

definition rs_wf :: "ModuleInstance \<Rightarrow> Resource \<Rightarrow> ('p, 'm) Resource_state \<Rightarrow> bool" where
  "rs_wf m r rs \<longleftrightarrow> res_valid r \<and> rs_Addr rs = res_Absolute r m \<and> insts_wf (rs_Instances rs)"

definition ms_wf :: "('p, 'v, 'm) Module_state \<Rightarrow> bool" where
  "ms_wf ms \<longleftrightarrow>
     gmap_ok (ms_Resources ms) \<and>
     (\<forall>e \<in> set (ms_Resources ms). fst e = res_String (ar_Resource (rs_Addr (snd e))) \<and>
        rs_wf (ms_Addr ms) (ar_Resource (rs_Addr (snd e))) (snd e)) \<and>
     gmap_ok (ms_OutputValues ms) \<and> gmap_ok (ms_LocalValues ms) \<and>
     (\<forall>e \<in> set (ms_OutputValues ms). ov_Addr (snd e) = \<lparr>aov_Module = ms_Addr ms, aov_Name = fst e\<rparr>)"

lemma res_String_inj:
  assumes "res_valid r" "res_valid r'"
  shows "res_String r = res_String r' \<longleftrightarrow> r = r'"
  using abs_render_inj[of "[]" r NoKey "[]" r' NoKey] assms ri_segments_render[of r NoKey] ri_segments_render[of r' NoKey]
  by (simp add: mi_valid_def)

definition ms_insts :: "('p, 'v, 'm) Module_state \<Rightarrow> Resource \<Rightarrow> (InstanceKey, 'm ResourceInstance_state) gomap" where
  "ms_insts ms r = (case ms_Resource ms r of None \<Rightarrow> [] | Some rs \<Rightarrow> rs_Instances rs)"

definition ms_obj :: "('p, 'v, 'm) Module_state \<Rightarrow> ResourceInstance \<Rightarrow> Generation \<Rightarrow> 'm ResourceInstanceObjectSrc option" where
  "ms_obj ms addr gen = (case ms_ResourceInstance ms addr of None \<Rightarrow> None | Some i \<Rightarrow> GetGeneration i gen)"

lemma ms_ResourceInstance_insts: "ms_ResourceInstance ms a = gmap_get (ms_insts ms (ri_Resource a)) (ri_Key a)"
  by (simp add: ms_ResourceInstance_def ms_insts_def rs_Instance_def split: option.split)

lemma ms_Resource_wf:
  assumes "ms_wf ms" "ms_Resource ms r = Some rs" "res_valid r"
  shows "rs_wf (ms_Addr ms) r rs"
proof -
  have "(res_String r, rs) \<in> set (ms_Resources ms)" using assms(2) by (auto simp: ms_Resource_def dest: map_of_SomeD)
  with assms(1) have "res_String r = res_String (ar_Resource (rs_Addr rs))" "rs_wf (ms_Addr ms) (ar_Resource (rs_Addr rs)) rs"
    by (auto simp: ms_wf_def)
  with assms(3) res_String_inj[of r "ar_Resource (rs_Addr rs)"] show ?thesis by (auto simp: rs_wf_def)
qed

lemma ms_insts_wf: "ms_wf ms \<Longrightarrow> res_valid r \<Longrightarrow> insts_wf (ms_insts ms r)"
  using ms_Resource_wf[of ms r] by (cases "ms_Resource ms r") (simp_all add: ms_insts_def rs_wf_def, simp add: insts_wf_def)

subsection \<open>Writes\<close>

lemma ms_write_simps [simp]:
  "ms_Addr (ms_write ms r rs) = ms_Addr ms" "ms_OutputValues (ms_write ms r rs) = ms_OutputValues ms"
  "ms_LocalValues (ms_write ms r rs) = ms_LocalValues ms" "ms_Resources (ms_write ms r rs) \<noteq> []"
  "ms_Addr (ms_RemoveResource ms r) = ms_Addr ms" "ms_OutputValues (ms_RemoveResource ms r) = ms_OutputValues ms"
  "ms_LocalValues (ms_RemoveResource ms r) = ms_LocalValues ms"
  by (simp_all add: ms_write_def ms_RemoveResource_def)

lemma ms_Resource_write:
  "res_valid r \<Longrightarrow> res_valid r' \<Longrightarrow> ms_Resource (ms_write ms r rs) r' = (if r' = r then Some rs else ms_Resource ms r')"
  by (simp add: ms_Resource_def ms_write_def gm.get_put res_String_inj)

lemma ms_Resource_remove:
  "res_valid r \<Longrightarrow> res_valid r' \<Longrightarrow> ms_Resource (ms_RemoveResource ms r) r' = (if r' = r then None else ms_Resource ms r')"
  by (simp add: ms_Resource_def ms_RemoveResource_def gm.get_del res_String_inj)

lemma ms_write_wf: "ms_wf ms \<Longrightarrow> rs_wf (ms_Addr ms) r rs \<Longrightarrow> ms_wf (ms_write ms r rs)"
  using set_update_subset[of "res_String r" rs "ms_Resources ms"]
  by (auto simp: ms_wf_def ms_write_def gm.ok_put rs_wf_def res_Absolute_def)

lemma ms_remove_wf: "ms_wf ms \<Longrightarrow> ms_wf (ms_RemoveResource ms r)"
  using set_delete_subset[of "res_String r" "ms_Resources ms"]
  by (auto simp: ms_wf_def ms_RemoveResource_def gm.ok_del)

lemma ms_SetResourceProvider_frame [simp]:
  "ms_Addr (ms_SetResourceProvider ms r p) = ms_Addr ms"
  "ms_OutputValues (ms_SetResourceProvider ms r p) = ms_OutputValues ms"
  "ms_LocalValues (ms_SetResourceProvider ms r p) = ms_LocalValues ms"
  "ms_Resources (ms_SetResourceProvider ms r p) \<noteq> []"
  by (simp_all add: ms_SetResourceProvider_def split: option.split)

lemma ms_SetResourceProvider_Resource:
  assumes "res_valid r" "res_valid r'"
  shows "ms_Resource (ms_SetResourceProvider ms r p) r' =
    (if r' = r then Some (case ms_Resource ms r of
        None \<Rightarrow> \<lparr>rs_Addr = res_Absolute r (ms_Addr ms), rs_Instances = [], rs_ProviderConfig = p\<rparr>
      | Some rs \<Rightarrow> rs\<lparr>rs_ProviderConfig := p\<rparr>) else ms_Resource ms r')"
  using assms by (simp add: ms_SetResourceProvider_def ms_Resource_write split: option.split)

lemma ms_SetResourceProvider_insts:
  "res_valid r \<Longrightarrow> res_valid r' \<Longrightarrow> ms_insts (ms_SetResourceProvider ms r p) r' = ms_insts ms r'"
  by (simp add: ms_insts_def ms_SetResourceProvider_Resource split: option.split)

lemma ms_SetResourceProvider_wf: "ms_wf ms \<Longrightarrow> res_valid r \<Longrightarrow> ms_wf (ms_SetResourceProvider ms r p)"
  using ms_Resource_wf[of ms r]
  by (auto simp: ms_SetResourceProvider_def rs_wf_def insts_wf_def split: option.split intro!: ms_write_wf)

section \<open>Updates of one instance\<close>

text \<open>
  Every operation on an instance changes the map of the instances of one resource at one key:
  it reads what is there, and writes an instance or removes the entry.
\<close>

definition adjust :: "'k \<Rightarrow> ('i option \<Rightarrow> 'i option) \<Rightarrow> ('k, 'i) gomap \<Rightarrow> ('k, 'i) gomap" where
  "adjust k f l = (case f (gmap_get l k) of None \<Rightarrow> gmap_del k l | Some i \<Rightarrow> gmap_put k i l)"

lemma adjust_get: "gmap_get (adjust k f l) k' = (if k' = k then f (gmap_get l k) else gmap_get l k')"
  by (simp add: adjust_def gm.get_put gm.get_del split: option.split)

lemma insts_get_wf: "insts_wf l \<Longrightarrow> gmap_get l k = Some i \<Longrightarrow> is_wf i"
  by (force simp: insts_wf_def dest: map_of_SomeD)

lemma adjust_wf:
  assumes "insts_wf l" "\<not> IsPlaceholder k" "\<And>i. f (gmap_get l k) = Some i \<Longrightarrow> is_wf i"
  shows "insts_wf (adjust k f l)"
proof (cases "f (gmap_get l k)")
  case None
  then show ?thesis
    using assms(1) set_delete_subset[of k l] by (auto simp: adjust_def insts_wf_def gm.ok_del)
next
  case (Some i)
  then show ?thesis
    using assms set_update_subset[of k i l] by (auto simp: adjust_def insts_wf_def gm.ok_put)
qed

lemma adjust_same: "f (gmap_get l k) = gmap_get l k \<Longrightarrow> adjust k f l = l"
proof (cases "gmap_get l k")
  case None
  assume "f (gmap_get l k) = gmap_get l k"
  moreover have "k \<notin> fst ` set l" using None by (simp add: map_of_eq_None_iff)
  ultimately show ?thesis using None by (simp add: adjust_def delete_id)
next
  case (Some i)
  assume "f (gmap_get l k) = gmap_get l k"
  moreover have "map_of l k = Some i \<Longrightarrow> AList.update k i l = l" by (induction l) (auto split: if_splits)
  ultimately show ?thesis using Some by (simp add: adjust_def)
qed

text \<open>An instance that has objects left.\<close>

definition keep_objects :: "'m ResourceInstance_state \<Rightarrow> 'm ResourceInstance_state option" where
  "keep_objects i = (if HasObjects i then Some i else None)"

definition or_new :: "'m ResourceInstance_state option \<Rightarrow> 'm ResourceInstance_state" where
  "or_new x = (case x of None \<Rightarrow> NewResourceInstance | Some i \<Rightarrow> i)"

text \<open>
  The contract of an operation on the instance \<open>a\<close> of a module: it changes the instances as
  \<open>f\<close> says, nothing else, and keeps the module well formed.  \<open>ok\<close> is what it asks of its arguments.
\<close>

locale instance_update =
  fixes upd :: "('p, 'v, 'm) Module_state \<Rightarrow> ('p, 'v, 'm) Module_state"
    and a :: ResourceInstance
    and f :: "'m ResourceInstance_state option \<Rightarrow> 'm ResourceInstance_state option"
    and ok :: "('p, 'v, 'm) Module_state \<Rightarrow> bool"
  assumes insts: "ok ms \<Longrightarrow> ms_wf ms \<Longrightarrow> res_valid r \<Longrightarrow>
      ms_insts (upd ms) r = (if r = ri_Resource a then adjust (ri_Key a) f (ms_insts ms r) else ms_insts ms r)"
    and wf: "ok ms \<Longrightarrow> ms_wf ms \<Longrightarrow> ms_wf (upd ms)"
    and addr: "ms_Addr (upd ms) = ms_Addr ms"
    and outputs: "ms_OutputValues (upd ms) = ms_OutputValues ms"
    and locals: "ms_LocalValues (upd ms) = ms_LocalValues ms"
begin

lemma instance_at:
  "ok ms \<Longrightarrow> ms_wf ms \<Longrightarrow> res_valid (ri_Resource b) \<Longrightarrow>
   ms_ResourceInstance (upd ms) b = (if b = a then f (ms_ResourceInstance ms a) else ms_ResourceInstance ms b)"
  by (cases a; cases b) (auto simp: ms_ResourceInstance_insts insts adjust_get)

lemma object_at:
  "ok ms \<Longrightarrow> ms_wf ms \<Longrightarrow> res_valid (ri_Resource b) \<Longrightarrow>
   ms_obj (upd ms) b gen =
     (if b = a then (case f (ms_ResourceInstance ms a) of None \<Rightarrow> None | Some i \<Rightarrow> GetGeneration i gen) else ms_obj ms b gen)"
  by (simp add: ms_obj_def instance_at)

end

text \<open>What every operation asks of the address it is given.\<close>

definition ri_ok :: "ResourceInstance \<Rightarrow> bool" where
  "ri_ok a \<longleftrightarrow> res_valid (ri_Resource a) \<and> \<not> IsPlaceholder (ri_Key a)"

text \<open>How the contract is met: the resource is written with adjusted instances, or removed when it has none.\<close>

definition adjusts :: "ResourceInstance \<Rightarrow> ('m ResourceInstance_state option \<Rightarrow> 'm ResourceInstance_state option) \<Rightarrow>
    ('p, 'v, 'm) Module_state \<Rightarrow> ('p, 'v, 'm) Module_state \<Rightarrow> bool" where
  "adjusts a f ms ms' \<longleftrightarrow>
     ms_wf ms' \<and> (\<forall>r. res_valid r \<longrightarrow>
       ms_insts ms' r = (if r = ri_Resource a then adjust (ri_Key a) f (ms_insts ms r) else ms_insts ms r))"

lemma adjusts_write:
  assumes "ms_wf ms" "ri_ok a" "rs_Addr rs = res_Absolute (ri_Resource a) (ms_Addr ms)"
    and "rs_Instances rs = adjust (ri_Key a) f (ms_insts ms (ri_Resource a))"
    and "\<And>i. f (ms_ResourceInstance ms a) = Some i \<Longrightarrow> is_wf i"
  shows "adjusts a f ms (ms_write ms (ri_Resource a) rs)"
proof -
  have "insts_wf (rs_Instances rs)"
    using assms ms_insts_wf[of ms "ri_Resource a"] adjust_wf[of "ms_insts ms (ri_Resource a)" "ri_Key a" f]
    by (simp add: ri_ok_def ms_ResourceInstance_insts)
  then have "ms_wf (ms_write ms (ri_Resource a) rs)"
    using assms by (intro ms_write_wf) (simp_all add: rs_wf_def ri_ok_def)
  then show ?thesis
    using assms(2,4) by (simp add: adjusts_def ms_insts_def ms_Resource_write ri_ok_def)
qed

lemma adjusts_remove:
  assumes "ms_wf ms" "ri_ok a" "adjust (ri_Key a) f (ms_insts ms (ri_Resource a)) = []"
  shows "adjusts a f ms (ms_RemoveResource ms (ri_Resource a))"
  using assms by (auto simp: adjusts_def ms_remove_wf ms_insts_def[of "ms_RemoveResource _ _"] ms_Resource_remove ri_ok_def ms_insts_def[of ms, symmetric])

lemma adjusts_same:
  "ms_wf ms \<Longrightarrow> f (ms_ResourceInstance ms a) = ms_ResourceInstance ms a \<Longrightarrow> adjusts a f ms ms"
  by (simp add: adjusts_def adjust_same ms_ResourceInstance_insts)

lemma adjusts_drop:
  assumes "ms_wf ms" "ri_ok a" "ms_Resource ms (ri_Resource a) = Some rs" "f (ms_ResourceInstance ms a) = None"
  shows "adjusts a f ms (ms_drop_instance ms a rs)"
proof -
  have rs: "rs_Addr rs = res_Absolute (ri_Resource a) (ms_Addr ms)"
    using ms_Resource_wf[OF assms(1,3)] assms(2) by (simp add: ri_ok_def rs_wf_def)
  have ins: "ms_insts ms (ri_Resource a) = rs_Instances rs" using assms(3) by (simp add: ms_insts_def)
  have adj: "adjust (ri_Key a) f (ms_insts ms (ri_Resource a)) = gmap_del (ri_Key a) (rs_Instances rs)"
    using assms(4) ins by (simp add: adjust_def ms_ResourceInstance_insts)
  show ?thesis
    using adjusts_remove[OF assms(1,2), of f] adjusts_write[OF assms(1,2), of "rs\<lparr>rs_Instances := gmap_del (ri_Key a) (rs_Instances rs)\<rparr>" f]
      adj rs assms(4) by (auto simp: ms_drop_instance_def Let_def)
qed

lemma adjusts_provider:
  assumes "ms_wf ms" "ri_ok a" "adjusts a f (ms_SetResourceProvider ms (ri_Resource a) p) ms'"
  shows "adjusts a f ms ms'"
  using assms by (auto simp: adjusts_def ms_SetResourceProvider_insts ri_ok_def)

lemma provider_instance:
  "ri_ok a \<Longrightarrow> ms_ResourceInstance (ms_SetResourceProvider ms (ri_Resource a) p) a = ms_ResourceInstance ms a"
  by (simp add: ms_ResourceInstance_insts ms_SetResourceProvider_insts ri_ok_def)

subsection \<open>The operations meet the contract\<close>

lemma ms_Resource_provider:
  assumes "ms_wf ms" "ri_ok a"
  obtains rs where "ms_Resource (ms_SetResourceProvider ms (ri_Resource a) p) (ri_Resource a) = Some rs"
    "rs_Addr rs = res_Absolute (ri_Resource a) (ms_Addr ms)" "rs_Instances rs = ms_insts ms (ri_Resource a)"
proof -
  let ?ms = "ms_SetResourceProvider ms (ri_Resource a) p"
  have r: "res_valid (ri_Resource a)" using assms(2) by (simp add: ri_ok_def)
  then obtain rs where rs: "ms_Resource ?ms (ri_Resource a) = Some rs"
    by (simp add: ms_SetResourceProvider_Resource)
  with ms_Resource_wf[OF ms_SetResourceProvider_wf[OF assms(1) r] rs r] have "rs_Addr rs = res_Absolute (ri_Resource a) (ms_Addr ms)"
    by (simp add: rs_wf_def)
  moreover have "rs_Instances rs = ms_insts ms (ri_Resource a)"
    using ms_SetResourceProvider_insts[OF r r, of ms p] rs by (simp add: ms_insts_def)
  ultimately show thesis using rs that by blast
qed

lemma gmap_put_put: "gmap_put k i (gmap_put k j l) = gmap_put k i l"
  by (induction l) auto

lemma gmap_del_put: "gmap_del k (gmap_put k j l) = gmap_del k l"
  by (induction l) auto

lemma EnsureInstance_or_new:
  assumes "rs_EnsureInstance rs k = (is, rs')"
  shows "is = or_new (gmap_get (rs_Instances rs) k)" "rs_Addr rs' = rs_Addr rs"
    "gmap_put k i (rs_Instances rs') = gmap_put k i (rs_Instances rs)"
    "gmap_del k (rs_Instances rs') = gmap_del k (rs_Instances rs)" "rs'\<lparr>rs_Instances := l\<rparr> = rs\<lparr>rs_Instances := l\<rparr>"
  using assms
  by (auto simp: rs_EnsureInstance_def rs_Instance_def rs_CreateInstance_def Let_def or_new_def
      gmap_put_put gmap_del_put split: option.splits)

lemma is_wf_set_current:
  "(\<And>i. x = Some i \<Longrightarrow> is_wf i) \<Longrightarrow> os_maps_ok ob \<Longrightarrow> is_wf ((or_new x)\<lparr>is_ProviderKey := k, is_Current := Some ob\<rparr>)"
  by (cases x) (auto simp: or_new_def is_wf_def is_maps_ok_def HasObjects_def NewResourceInstance_def)

lemma instance_wf: "ms_wf ms \<Longrightarrow> ri_ok a \<Longrightarrow> ms_ResourceInstance ms a = Some i \<Longrightarrow> is_wf i"
  using ms_insts_wf[of ms "ri_Resource a"] by (auto simp: ri_ok_def ms_ResourceInstance_insts intro: insts_get_wf)

definition set_current where
  "set_current ob k x = Some ((or_new x)\<lparr>is_ProviderKey := k, is_Current := Some ob\<rparr>)"

lemma adjusts_set_current_at:
  assumes "ms_wf ms" "ri_ok a" "os_maps_ok ob" "ms_Resource ms (ri_Resource a) = Some rs"
  shows "adjusts a (set_current ob k) ms
    (let (is, rs) = rs_EnsureInstance rs (ri_Key a); is = is\<lparr>is_ProviderKey := k, is_Current := Some ob\<rparr>
     in ms_write ms (ri_Resource a) (rs\<lparr>rs_ProviderConfig := p, rs_Instances := gmap_put (ri_Key a) is (rs_Instances rs)\<rparr>))"
proof -
  obtain inst rs' where e: "rs_EnsureInstance rs (ri_Key a) = (inst, rs')" by fastforce
  note en = EnsureInstance_or_new[OF e]
  have rs: "rs_Addr rs = res_Absolute (ri_Resource a) (ms_Addr ms)"
    using ms_Resource_wf[OF assms(1,4)] assms(2) by (simp add: ri_ok_def rs_wf_def)
  have ins: "ms_insts ms (ri_Resource a) = rs_Instances rs" using assms(4) by (simp add: ms_insts_def)
  have "is_wf i" if "set_current ob k (ms_ResourceInstance ms a) = Some i" for i
    using that is_wf_set_current[OF instance_wf[OF assms(1,2)] assms(3)] by (auto simp: set_current_def)
  then show ?thesis
    using rs ins en by (auto simp: e set_current_def adjust_def ms_ResourceInstance_insts intro!: adjusts_write[OF assms(1,2)])
qed

lemma adjusts_set_current:
  assumes "ms_wf ms" "ri_ok a" "os_maps_ok ob"
  shows "adjusts a (set_current ob k) ms (ms_SetResourceInstanceCurrent ms a (Some ob) p k)"
proof (cases "ms_Resource ms (ri_Resource a)")
  case None
  obtain rs where rs: "ms_Resource (ms_SetResourceProvider ms (ri_Resource a) p) (ri_Resource a) = Some rs"
    using ms_Resource_provider[OF assms(1,2)] by blast
  have wf: "ms_wf (ms_SetResourceProvider ms (ri_Resource a) p)"
    using assms by (intro ms_SetResourceProvider_wf) (simp_all add: ri_ok_def)
  show ?thesis
    using adjusts_provider[OF assms(1,2) adjusts_set_current_at[OF wf assms(2,3) rs]] None rs
    by (simp add: ms_SetResourceInstanceCurrent_def Let_def)
next
  case (Some rs)
  then show ?thesis using adjusts_set_current_at[OF assms Some] by (simp add: ms_SetResourceInstanceCurrent_def Let_def)
qed

definition clear_current where
  "clear_current x = (case x of None \<Rightarrow> None | Some i \<Rightarrow> keep_objects (i\<lparr>is_Current := None\<rparr>))"

lemma adjusts_keep:
  assumes "ms_wf ms" "ri_ok a" "ms_Resource ms (ri_Resource a) = Some rs"
    and "f (ms_ResourceInstance ms a) = keep_objects i" "is_maps_ok i"
  shows "adjusts a f ms (if \<not> HasObjects i then ms_drop_instance ms a rs
    else ms_write ms (ri_Resource a) (rs\<lparr>rs_Instances := gmap_put (ri_Key a) i (rs_Instances rs)\<rparr>))"
proof (cases "HasObjects i")
  case True
  have ins: "ms_insts ms (ri_Resource a) = rs_Instances rs" using assms(3) by (simp add: ms_insts_def)
  have rs: "rs_Addr rs = res_Absolute (ri_Resource a) (ms_Addr ms)"
    using ms_Resource_wf[OF assms(1,3)] assms(2) by (simp add: ri_ok_def rs_wf_def)
  have "is_wf i" using True assms(5) by (simp add: is_wf_def)
  with True rs ins assms(4) show ?thesis
    by (auto simp: keep_objects_def adjust_def ms_ResourceInstance_insts intro!: adjusts_write assms)
next
  case False
  then have "f (ms_ResourceInstance ms a) = None" using assms(4) by (simp add: keep_objects_def)
  from adjusts_drop[where f = f, OF assms(1-3) this] False show ?thesis by simp
qed

lemma adjusts_clear_current:
  assumes "ms_wf ms" "ri_ok a"
  shows "adjusts a clear_current ms (ms_SetResourceInstanceCurrent ms a None p k)"
proof (cases "ms_ResourceInstance ms a")
  case None
  then have same: "clear_current (ms_ResourceInstance ms a) = ms_ResourceInstance ms a" by (simp add: clear_current_def)
  show ?thesis
  proof (cases "ms_Resource ms (ri_Resource a)")
    case (Some rs)
    then have ins: "ms_insts ms (ri_Resource a) = rs_Instances rs" by (simp add: ms_insts_def)
    have "rs_Instances rs = [] \<Longrightarrow> adjust (ri_Key a) clear_current (ms_insts ms (ri_Resource a)) = []"
      by (simp add: ins adjust_def clear_current_def)
    with same Some None show ?thesis
      by (auto simp: ms_SetResourceInstanceCurrent_def ms_clear_current_def ms_ResourceInstance_def intro!: adjusts_same adjusts_remove assms)
  qed (use same in \<open>auto simp: ms_SetResourceInstanceCurrent_def intro!: adjusts_same assms\<close>)
next
  case (Some i)
  let ?i = "i\<lparr>is_Current := None\<rparr>"
  obtain rs where rs: "ms_Resource ms (ri_Resource a) = Some rs" "rs_Instance rs (ri_Key a) = Some i"
    using Some by (auto simp: ms_ResourceInstance_def split: option.splits)
  have "clear_current (ms_ResourceInstance ms a) = keep_objects ?i" by (simp add: Some clear_current_def)
  moreover have "is_maps_ok ?i" using instance_wf[OF assms Some] by (simp add: is_wf_def is_maps_ok_def)
  ultimately have "adjusts a clear_current ms (if \<not> HasObjects ?i then ms_drop_instance ms a rs
      else ms_write ms (ri_Resource a) (rs\<lparr>rs_Instances := gmap_put (ri_Key a) ?i (rs_Instances rs)\<rparr>))"
    by (rule adjusts_keep[OF assms rs(1)])
  moreover have "rs_Instances rs \<noteq> []" using rs(2) by (auto simp: rs_Instance_def)
  ultimately show ?thesis
    using rs by (simp add: ms_SetResourceInstanceCurrent_def ms_clear_current_def Let_def)
qed

definition put_deposed where
  "put_deposed key ob k x = keep_objects ((or_new x)\<lparr>is_ProviderKey := k, is_Deposed :=
     (case ob of Some ob \<Rightarrow> gmap_put key ob (is_Deposed (or_new x)) | None \<Rightarrow> gmap_del key (is_Deposed (or_new x)))\<rparr>)"

lemma is_maps_put_deposed: "is_maps_ok i \<Longrightarrow> os_maps_ok ob \<Longrightarrow> is_maps_ok (i\<lparr>is_Deposed := gmap_put key ob (is_Deposed i)\<rparr>)"
  using set_update_subset[of key ob "is_Deposed i"] by (auto simp: is_maps_ok_def gm.ok_put)

lemma is_maps_del_deposed: "is_maps_ok i \<Longrightarrow> is_maps_ok (i\<lparr>is_Deposed := gmap_del key (is_Deposed i)\<rparr>)"
  using set_delete_subset[of key "is_Deposed i"] by (auto simp: is_maps_ok_def gm.ok_del)

lemma is_maps_provider_key [simp]: "is_maps_ok (i\<lparr>is_ProviderKey := k\<rparr>) = is_maps_ok i"
  by (simp add: is_maps_ok_def)

lemma or_new_maps: "ms_wf ms \<Longrightarrow> ri_ok a \<Longrightarrow> is_maps_ok (or_new (ms_ResourceInstance ms a))"
  using instance_wf[of ms a] by (auto simp: or_new_def is_wf_def NewResourceInstance_def is_maps_ok_def split: option.split)

lemma adjusts_put_deposed:
  assumes "ms_wf ms" "ri_ok a" "\<And>ob. x = Some ob \<Longrightarrow> os_maps_ok ob"
  shows "adjusts a (put_deposed key x k) ms (ms_SetResourceInstanceDeposed ms a key x p k)"
proof -
  let ?ms = "ms_SetResourceProvider ms (ri_Resource a) p"
  obtain rs where rs: "ms_Resource ?ms (ri_Resource a) = Some rs" using ms_Resource_provider[OF assms(1,2)] by blast
  have wf: "ms_wf ?ms" using assms by (intro ms_SetResourceProvider_wf) (simp_all add: ri_ok_def)
  obtain inst rs' where e: "rs_EnsureInstance rs (ri_Key a) = (inst, rs')" by fastforce
  note en = EnsureInstance_or_new[OF e]
  have inst: "inst = or_new (ms_ResourceInstance ?ms a)"
    using en(1) rs by (simp add: ms_ResourceInstance_def rs_Instance_def)
  let ?i = "inst\<lparr>is_ProviderKey := k, is_Deposed := (case x of Some ob \<Rightarrow> gmap_put key ob (is_Deposed inst)
      | None \<Rightarrow> gmap_del key (is_Deposed inst))\<rparr>"
  have f: "put_deposed key x k (ms_ResourceInstance ?ms a) = keep_objects ?i"
    unfolding put_deposed_def inst by (rule refl)
  have ok: "is_maps_ok inst" using or_new_maps[OF wf assms(2)] inst by simp
  have "is_maps_ok ?i"
    using is_maps_put_deposed[of "inst\<lparr>is_ProviderKey := k\<rparr>" _ key] is_maps_del_deposed[of "inst\<lparr>is_ProviderKey := k\<rparr>" key] ok assms(3)
    by (cases x) simp_all
  note adj = adjusts_provider[OF assms(1,2) adjusts_keep[where f = "put_deposed key x k", OF wf assms(2) rs f this]]
  have "ms_drop_instance ?ms a rs' = ms_drop_instance ?ms a rs" by (simp add: ms_drop_instance_def en(4) en(5))
  then have "ms_SetResourceInstanceDeposed ms a key x p k = (if \<not> HasObjects ?i then ms_drop_instance ?ms a rs
      else ms_write ?ms (ri_Resource a) (rs\<lparr>rs_Instances := gmap_put (ri_Key a) ?i (rs_Instances rs)\<rparr>))"
    by (simp add: ms_SetResourceInstanceDeposed_def rs e en(3) en(5))
  with adj show ?thesis by simp
qed

lemma adjusts_forget_all:
  assumes "ms_wf ms" "ri_ok a"
  shows "adjusts a (\<lambda>_. None) ms (ms_ForgetResourceInstanceAll ms a)"
  using adjusts_drop[where f = "\<lambda>_. None", OF assms] assms
  by (auto simp: ms_ForgetResourceInstanceAll_def ms_ResourceInstance_def intro!: adjusts_same split: option.split)

definition forget_deposed where
  "forget_deposed key x = (case x of None \<Rightarrow> None | Some i \<Rightarrow> keep_objects (i\<lparr>is_Deposed := gmap_del key (is_Deposed i)\<rparr>))"

lemma adjusts_forget_deposed:
  assumes "ms_wf ms" "ri_ok a"
  shows "adjusts a (forget_deposed key) ms (ms_ForgetResourceInstanceDeposed ms a key)"
proof (cases "ms_ResourceInstance ms a")
  case None
  then have "ms_ForgetResourceInstanceDeposed ms a key = ms"
    by (auto simp: ms_ForgetResourceInstanceDeposed_def ms_ResourceInstance_def split: option.splits)
  with None show ?thesis by (auto simp: forget_deposed_def intro!: adjusts_same assms)
next
  case (Some i)
  obtain rs where rs: "ms_Resource ms (ri_Resource a) = Some rs" "rs_Instance rs (ri_Key a) = Some i"
    using Some by (auto simp: ms_ResourceInstance_def split: option.splits)
  have "forget_deposed key (ms_ResourceInstance ms a) = keep_objects (i\<lparr>is_Deposed := gmap_del key (is_Deposed i)\<rparr>)"
    by (simp add: Some forget_deposed_def)
  moreover have "is_maps_ok (i\<lparr>is_Deposed := gmap_del key (is_Deposed i)\<rparr>)"
    using instance_wf[OF assms Some] by (simp add: is_wf_def is_maps_del_deposed)
  ultimately show ?thesis
    using adjusts_keep[where f = "forget_deposed key", OF assms rs(1)] rs
    by (simp add: ms_ForgetResourceInstanceDeposed_def Let_def)
qed

lemma adjusts_write_instance:
  assumes "ms_wf ms" "ri_ok a" "ms_ResourceInstance ms a = Some j" "f (Some j) = Some i" "is_wf i"
  shows "adjusts a f ms (ms_write_instance ms a i)"
proof -
  obtain rs where rs: "ms_Resource ms (ri_Resource a) = Some rs"
    using assms(3) by (auto simp: ms_ResourceInstance_def split: option.splits)
  have "f (ms_ResourceInstance ms a) = keep_objects i" "is_maps_ok i" "HasObjects i"
    using assms(3-5) by (simp_all add: keep_objects_def is_wf_def)
  with adjusts_keep[where f = f, OF assms(1,2) rs, of i] rs show ?thesis by (simp add: ms_write_instance_def)
qed

lemma adjusts_set_instance:
  assumes "ms_wf ms" "ri_ok a" "\<And>i. x = Some i \<Longrightarrow> is_wf i"
  shows "adjusts a (\<lambda>_. x) ms (ms_SetResourceInstance ms a x p)"
proof -
  have at: "adjusts a (\<lambda>_. x) ms (case x of
        Some i \<Rightarrow> ms_write ms (ri_Resource a) (rs\<lparr>rs_Instances := gmap_put (ri_Key a) i (rs_Instances rs)\<rparr>)
      | None \<Rightarrow> ms_write ms (ri_Resource a) (rs\<lparr>rs_Instances := gmap_del (ri_Key a) (rs_Instances rs)\<rparr>))"
    if "ms_wf ms" "ms_Resource ms (ri_Resource a) = Some rs" for ms :: "('a, 'b, 'c) Module_state" and rs
  proof -
    have "rs_Addr rs = res_Absolute (ri_Resource a) (ms_Addr ms)"
      using ms_Resource_wf[OF that] assms(2) by (simp add: ri_ok_def rs_wf_def)
    with that assms(2,3) show ?thesis
      by (cases x) (auto simp: ms_insts_def adjust_def intro!: adjusts_write)
  qed
  show ?thesis
  proof (cases "ms_Resource ms (ri_Resource a)")
    case None
    obtain rs where rs: "ms_Resource (ms_SetResourceProvider ms (ri_Resource a) p) (ri_Resource a) = Some rs"
      using ms_Resource_provider[OF assms(1,2)] by blast
    have wf: "ms_wf (ms_SetResourceProvider ms (ri_Resource a) p)"
      using assms by (intro ms_SetResourceProvider_wf) (simp_all add: ri_ok_def)
    show ?thesis
      using adjusts_provider[OF assms(1,2) at[OF wf rs]] None rs by (simp add: ms_SetResourceInstance_def Let_def)
  next
    case (Some rs)
    then show ?thesis using at[OF assms(1) Some] by (simp add: ms_SetResourceInstance_def Let_def)
  qed
qed

text \<open>The search for an unused key ends as soon as a random number gives one.\<close>

lemma findUnused_returns:
  assumes "gmap_get deposed (NewDeposedKey (rand (n + d))) = None"
  shows "\<exists>key. findUnusedDeposedKey rand n deposed = Some key"
  using assms
proof (induction d arbitrary: n)
  case 0
  then show ?case by (subst findUnusedDeposedKey.simps) simp
next
  case (Suc d)
  then show ?case by (subst findUnusedDeposedKey.simps) simp
qed

lemma findUnused_sound:
  assumes "findUnusedDeposedKey rand n deposed = Some key"
  shows "gmap_get deposed key = None \<and> (\<exists>v. key = NewDeposedKey v)"
proof (rule findUnusedDeposedKey.raw_induct[OF _ assms, rotated], goal_cases)
  case (1 fu rand n deposed key)
  then show ?case by (auto split: if_splits)
qed

lemma deposeCurrentObject_cases:
  assumes "deposeCurrentObject rand i forceKey = Some (key, i')"
  shows "(is_Current i = None \<and> key = NotDeposed \<and> i' = i) \<or>
    (\<exists>cur. is_Current i = Some cur \<and> gmap_get (is_Deposed i) key = None \<and> (forceKey \<noteq> NotDeposed \<longrightarrow> key = forceKey) \<and>
       i' = i\<lparr>is_Deposed := gmap_put key cur (is_Deposed i), is_Current := None\<rparr>)"
  using assms by (auto simp: deposeCurrentObject_def dest!: findUnused_sound split: option.splits if_splits)

lemma deposeCurrentObject_wf:
  assumes "deposeCurrentObject rand i forceKey = Some (key, i')" "is_wf i"
  shows "is_wf i'"
  using deposeCurrentObject_cases[OF assms(1)]
proof (elim disjE exE conjE)
  fix cur assume cur: "is_Current i = Some cur"
    and i': "i' = i\<lparr>is_Deposed := gmap_put key cur (is_Deposed i), is_Current := None\<rparr>"
  have "is_maps_ok i" "os_maps_ok cur" using assms(2) cur by (simp_all add: is_wf_def is_maps_ok_def)
  then have "is_maps_ok (i\<lparr>is_Deposed := gmap_put key cur (is_Deposed i)\<rparr>)" by (rule is_maps_put_deposed)
  then show ?thesis unfolding i' by (simp add: is_wf_def is_maps_ok_def HasObjects_def)
qed (use assms(2) in simp)

definition depose_instance where
  "depose_instance rand forceKey x =
     (case x of None \<Rightarrow> None | Some i \<Rightarrow> (case deposeCurrentObject rand i forceKey of None \<Rightarrow> Some i | Some r \<Rightarrow> Some (snd r)))"

definition ms_depose where
  "ms_depose rand forceKey a ms = (case ms_deposeResourceInstanceObject rand ms a forceKey of None \<Rightarrow> ms | Some r \<Rightarrow> snd r)"

lemma adjusts_depose:
  assumes "ms_wf ms" "ri_ok a"
  shows "adjusts a (depose_instance rand forceKey) ms (ms_depose rand forceKey a ms)"
proof (cases "ms_ResourceInstance ms a")
  case None
  then show ?thesis
    by (auto simp: ms_depose_def ms_deposeResourceInstanceObject_def depose_instance_def intro!: adjusts_same assms)
next
  case (Some i)
  show ?thesis
  proof (cases "deposeCurrentObject rand i forceKey")
    case None
    with Some show ?thesis
      by (auto simp: ms_depose_def ms_deposeResourceInstanceObject_def depose_instance_def intro!: adjusts_same assms)
  next
    case r: (Some r)
    obtain key i' where r': "r = (key, i')" by fastforce
    have "adjusts a (depose_instance rand forceKey) ms (ms_write_instance ms a i')"
      using r r' by (intro adjusts_write_instance[OF assms Some])
        (auto simp: depose_instance_def intro: deposeCurrentObject_wf instance_wf[OF assms Some])
    with Some r r' show ?thesis by (simp add: ms_depose_def ms_deposeResourceInstanceObject_def)
  qed
qed

definition restore_deposed where
  "restore_deposed key x =
     (case x of None \<Rightarrow> None
      | Some i \<Rightarrow> Some (if is_Current i \<noteq> None \<or> is_Deposed i = [] then i
          else i\<lparr>is_Current := gmap_get (is_Deposed i) key, is_Deposed := gmap_del key (is_Deposed i)\<rparr>))"

lemma restore_wf: "is_wf i \<Longrightarrow> restore_deposed key (Some i) = Some j \<Longrightarrow> is_wf j"
proof -
  assume i: "is_wf i" and j: "restore_deposed key (Some i) = Some j"
  have maps: "is_maps_ok (i\<lparr>is_Deposed := gmap_del key (is_Deposed i)\<rparr>)" using i by (simp add: is_wf_def is_maps_del_deposed)
  show ?thesis
  proof (cases "gmap_get (is_Deposed i) key")
    case None
    then have "gmap_del key (is_Deposed i) = is_Deposed i" by (simp add: delete_id map_of_eq_None_iff)
    with i j None maps show ?thesis
      by (auto simp: restore_deposed_def is_wf_def is_maps_ok_def HasObjects_def split: if_splits)
  next
    case (Some ob)
    then have "(key, ob) \<in> set (is_Deposed i)" by (rule map_of_SomeD)
    with i have "os_maps_ok ob" by (force simp: is_wf_def is_maps_ok_def)
    with i j Some maps show ?thesis
      by (auto simp: restore_deposed_def is_wf_def is_maps_ok_def HasObjects_def split: if_splits)
  qed
qed

lemma adjusts_restore:
  assumes "ms_wf ms" "ri_ok a"
  shows "adjusts a (restore_deposed key) ms (snd (ms_maybeRestoreResourceInstanceDeposed ms a key))"
proof (cases "ms_ResourceInstance ms a")
  case None
  then have "snd (ms_maybeRestoreResourceInstanceDeposed ms a key) = ms"
    by (auto simp: ms_maybeRestoreResourceInstanceDeposed_def ms_ResourceInstance_def split: option.splits)
  with None show ?thesis by (auto simp: restore_deposed_def intro!: adjusts_same assms)
next
  case (Some i)
  obtain rs where rs: "ms_Resource ms (ri_Resource a) = Some rs" "rs_Instance rs (ri_Key a) = Some i"
    using Some by (auto simp: ms_ResourceInstance_def split: option.splits)
  show ?thesis
  proof (cases "is_Current i \<noteq> None \<or> is_Deposed i = []")
    case True
    then have "snd (ms_maybeRestoreResourceInstanceDeposed ms a key) = ms"
      using rs by (auto simp: ms_maybeRestoreResourceInstanceDeposed_def)
    with True Some show ?thesis by (auto simp: restore_deposed_def intro!: adjusts_same assms)
  next
    case False
    let ?i = "i\<lparr>is_Current := gmap_get (is_Deposed i) key, is_Deposed := gmap_del key (is_Deposed i)\<rparr>"
    have f: "restore_deposed key (Some i) = Some ?i" using False by (simp add: restore_deposed_def)
    then have "adjusts a (restore_deposed key) ms (ms_write_instance ms a ?i)"
      by (intro adjusts_write_instance[OF assms Some]) (auto intro: restore_wf instance_wf[OF assms Some])
    with False rs show ?thesis by (simp add: ms_maybeRestoreResourceInstanceDeposed_def)
  qed
qed

lemma ms_drop_instance_frame [simp]:
  "ms_Addr (ms_drop_instance ms a rs) = ms_Addr ms" "ms_OutputValues (ms_drop_instance ms a rs) = ms_OutputValues ms"
  "ms_LocalValues (ms_drop_instance ms a rs) = ms_LocalValues ms"
  by (simp_all add: ms_drop_instance_def Let_def)

lemma ms_write_instance_frame [simp]:
  "ms_Addr (ms_write_instance ms a i) = ms_Addr ms" "ms_OutputValues (ms_write_instance ms a i) = ms_OutputValues ms"
  "ms_LocalValues (ms_write_instance ms a i) = ms_LocalValues ms"
  by (simp_all add: ms_write_instance_def split: option.split)

lemmas ms_op_defs = ms_SetResourceInstanceCurrent_def ms_clear_current_def ms_SetResourceInstanceDeposed_def
  ms_ForgetResourceInstanceAll_def ms_ForgetResourceInstanceDeposed_def ms_SetResourceInstance_def
  ms_depose_def ms_deposeResourceInstanceObject_def ms_maybeRestoreResourceInstanceDeposed_def Let_def

lemma instance_updateI:
  assumes "\<And>ms. ok ms \<Longrightarrow> ms_wf ms \<Longrightarrow> adjusts a f ms (upd ms)"
    and "\<And>ms. ms_Addr (upd ms) = ms_Addr ms" "\<And>ms. ms_OutputValues (upd ms) = ms_OutputValues ms"
    and "\<And>ms. ms_LocalValues (upd ms) = ms_LocalValues ms"
  shows "instance_update upd a f ok"
  by unfold_locales (use assms in \<open>auto simp: adjusts_def\<close>)

interpretation cur: instance_update "\<lambda>ms. ms_SetResourceInstanceCurrent ms a (Some ob) p k" a "set_current ob k"
    "\<lambda>_. ri_ok a \<and> os_maps_ok ob" for a ob p k
  by (rule instance_updateI) (simp_all add: adjusts_set_current, simp_all add: ms_op_defs split: option.split prod.split)

interpretation clr: instance_update "\<lambda>ms. ms_SetResourceInstanceCurrent ms a None p k" a clear_current "\<lambda>_. ri_ok a" for a p k
  by (rule instance_updateI) (simp_all add: adjusts_clear_current, simp_all add: ms_op_defs split: option.split)

interpretation dep: instance_update "\<lambda>ms. ms_SetResourceInstanceDeposed ms a key x p k" a "put_deposed key x k"
    "\<lambda>_. ri_ok a \<and> (\<forall>ob. x = Some ob \<longrightarrow> os_maps_ok ob)" for a key x p k
  by (rule instance_updateI) (simp_all add: adjusts_put_deposed, simp_all add: ms_op_defs split: option.split prod.split)

interpretation fga: instance_update "\<lambda>ms. ms_ForgetResourceInstanceAll ms a" a "\<lambda>_. None" "\<lambda>_. ri_ok a" for a
  by (rule instance_updateI) (simp_all add: adjusts_forget_all, simp_all add: ms_op_defs split: option.split)

interpretation fgd: instance_update "\<lambda>ms. ms_ForgetResourceInstanceDeposed ms a key" a "forget_deposed key" "\<lambda>_. ri_ok a" for a key
  by (rule instance_updateI) (simp_all add: adjusts_forget_deposed, simp_all add: ms_op_defs split: option.split)

interpretation ins: instance_update "\<lambda>ms. ms_SetResourceInstance ms a x p" a "\<lambda>_. x"
    "\<lambda>_. ri_ok a \<and> (\<forall>i. x = Some i \<longrightarrow> is_wf i)" for a x p
  by (rule instance_updateI) (simp_all add: adjusts_set_instance, simp_all add: ms_op_defs split: option.split)

interpretation dps: instance_update "ms_depose rand forceKey a" a "depose_instance rand forceKey" "\<lambda>_. ri_ok a" for rand forceKey a
  by (rule instance_updateI) (simp_all add: adjusts_depose, simp_all add: ms_op_defs split: option.split prod.split)

interpretation rst: instance_update "\<lambda>ms. snd (ms_maybeRestoreResourceInstanceDeposed ms a key)" a "restore_deposed key" "\<lambda>_. ri_ok a" for a key
  by (rule instance_updateI) (simp_all add: adjusts_restore, simp_all add: ms_op_defs split: option.split)

end
