(* ===== verification/State_Ops.thy ===== *)
theory State_Ops
  imports State_Module
begin

text \<open>
  The state as a whole: the operations of \<^verbatim>\<open>internal/states/state.go\<close> and \<^verbatim>\<open>state_equal.go\<close>, and the methods of
  \<^verbatim>\<open>SyncState\<close> (\<^verbatim>\<open>sync.go\<close>).  A panic is \<open>None\<close>.

  Every method of \<^verbatim>\<open>SyncState\<close> holds the lock from its first line to its last, so concurrent
  calls have the effect of the functions here applied one after the other.
\<close>

section \<open>Reading\<close>

definition NewState :: "('p, 'v, 'm, 'c) State" where
  "NewState = \<lparr>st_Modules = gmap_put (mi_String []) (NewModule []) [], st_CheckResults = None\<rparr>"

definition st_Empty :: "('p, 'v, 'm, 'c) State option \<Rightarrow> bool" where
  "st_Empty x =
     (case x of None \<Rightarrow> True
      | Some s \<Rightarrow> list_all (\<lambda>(k, ms). length (ms_Resources ms) = 0 \<and> length (ms_OutputValues ms) = 0) (st_Modules s))"

definition st_Module :: "('p, 'v, 'm, 'c) State \<Rightarrow> ModuleInstance \<Rightarrow> ('p, 'v, 'm) Module_state option" where
  "st_Module s addr = gmap_get (st_Modules s) (mi_String addr)"

definition st_ModuleInstances :: "('p, 'v, 'm, 'c) State \<Rightarrow> Module \<Rightarrow> ('p, 'v, 'm) Module_state list" where
  "st_ModuleInstances s addr = filter (\<lambda>m. IsForModule (ms_Addr m) addr) (map snd (st_Modules s))"

definition st_ModuleOutputs :: "('p, 'v, 'm, 'c) State \<Rightarrow> ModuleInstance \<Rightarrow> ModuleCall \<Rightarrow> 'v OutputValue_state list" where
  "st_ModuleOutputs s parentAddr module =
     concat (map (\<lambda>m.
       case mi_Call (ms_Addr m) of
         None \<Rightarrow> []
       | Some (parent, call) \<Rightarrow>
           if \<not> mi_Equal parentAddr parent then []
           else if call_Name call \<noteq> call_Name module then []
           else map snd (ms_OutputValues m)) (map snd (st_Modules s)))"

definition st_RootModule :: "('p, 'v, 'm, 'c) State \<Rightarrow> ('p, 'v, 'm) Module_state option" where
  "st_RootModule s = gmap_get (st_Modules s) (mi_String [])"

definition HasManagedResourceInstanceObjects :: "('p, 'v, 'm, 'c) State option \<Rightarrow> bool" where
  "HasManagedResourceInstanceObjects x =
     (case x of None \<Rightarrow> False
      | Some s \<Rightarrow> list_ex (\<lambda>(_, ms). list_ex (\<lambda>(_, rs).
          res_Mode (ar_Resource (rs_Addr rs)) = ManagedResourceMode \<and>
          list_ex (\<lambda>(_, is). is_Current is \<noteq> None \<or> length (is_Deposed is) \<noteq> 0) (rs_Instances rs)) (ms_Resources ms)) (st_Modules s))"

definition st_Resource :: "('p, 'v, 'm, 'c) State \<Rightarrow> AbsResource \<Rightarrow> ('p, 'm) Resource_state option" where
  "st_Resource s addr = (case st_Module s (ar_Module addr) of None \<Rightarrow> None | Some ms \<Rightarrow> ms_Resource ms (ar_Resource addr))"

definition st_Resources :: "('p, 'v, 'm, 'c) State \<Rightarrow> ConfigResource \<Rightarrow> ('p, 'm) Resource_state list" where
  "st_Resources s addr = List.map_filter (\<lambda>m. ms_Resource m (cr_Resource addr)) (st_ModuleInstances s (cr_Module addr))"

definition object_Less :: "AbsResourceInstance \<times> DeposedKey \<Rightarrow> AbsResourceInstance \<times> DeposedKey \<Rightarrow> bool option" where
  "object_Less objI objJ =
     (if \<not> ari_Equal (fst objI) (fst objJ) then ari_Less (fst objI) (fst objJ) else Some (snd objI < snd objJ))"

definition rs_object_addrs :: "('p, 'm) Resource_state \<Rightarrow> (AbsResourceInstance \<times> DeposedKey) list" where
  "rs_object_addrs rs =
     (if res_Mode (ar_Resource (rs_Addr rs)) \<noteq> ManagedResourceMode then []
      else concat (map (\<lambda>(instKey, is).
        (if is_Current is \<noteq> None then [(ar_Instance (rs_Addr rs) instKey, NotDeposed)] else []) @
        map (\<lambda>(deposedKey, _). (ar_Instance (rs_Addr rs) instKey, deposedKey)) (is_Deposed is)) (rs_Instances rs)))"

definition AllResourceInstanceObjectAddrs :: "('p, 'v, 'm, 'c) State option \<Rightarrow> (AbsResourceInstance \<times> DeposedKey) list option" where
  "AllResourceInstanceObjectAddrs x =
     (case x of None \<Rightarrow> Some []
      | Some s \<Rightarrow> sort_SliceStable object_Less
          (concat (map (\<lambda>(_, ms). concat (map (\<lambda>(_, rs). rs_object_addrs rs) (ms_Resources ms))) (st_Modules s))))"

definition st_ResourceProvider :: "('p, 'v, 'm, 'c) State \<Rightarrow> AbsResource \<Rightarrow> 'p AbsProviderConfig option" where
  "st_ResourceProvider s addr =
     (case st_Module s (ar_Module addr) of None \<Rightarrow> None
      | Some ms \<Rightarrow> (case ms_Resource ms (ar_Resource addr) of None \<Rightarrow> None | Some rs \<Rightarrow> Some (rs_ProviderConfig rs)))"

definition st_ResourceInstance :: "('p, 'v, 'm, 'c) State \<Rightarrow> AbsResourceInstance \<Rightarrow> 'm ResourceInstance_state option" where
  "st_ResourceInstance s addr =
     (case st_Module s (ari_Module addr) of None \<Rightarrow> None | Some ms \<Rightarrow> ms_ResourceInstance ms (ari_Resource addr))"

definition st_OutputValue :: "('p, 'v, 'm, 'c) State \<Rightarrow> AbsOutputValue \<Rightarrow> 'v OutputValue_state option" where
  "st_OutputValue s addr =
     (case st_Module s (aov_Module addr) of None \<Rightarrow> None | Some ms \<Rightarrow> gmap_get (ms_OutputValues ms) (aov_Name addr))"

definition st_LocalValue :: "('p, 'v, 'm, 'c) State \<Rightarrow> AbsLocalValue \<Rightarrow> 'v option" where
  "st_LocalValue s addr =
     (case st_Module s (alv_Module addr) of None \<Rightarrow> None | Some ms \<Rightarrow> gmap_get (ms_LocalValues ms) (alv_Name addr))"

definition ProviderAddrs :: "('p \<Rightarrow> string) \<Rightarrow> ('p, 'v, 'm, 'c) State option \<Rightarrow> 'p AbsProviderConfig list" where
  "ProviderAddrs pq x =
     (case x of None \<Rightarrow> []
      | Some s \<Rightarrow>
          (let m = foldl (\<lambda>m (_, ms). foldl (\<lambda>m (_, rc). gmap_put (apc_String pq (rs_ProviderConfig rc)) (rs_ProviderConfig rc) m)
                     m (ms_Resources ms)) [] (st_Modules s);
               keys = sort_Stable (<) (map fst m)
           in List.map_filter (\<lambda>key. gmap_get m key) keys))"

definition ProviderRequirements :: "('p \<Rightarrow> string) \<Rightarrow> ('p, 'v, 'm, 'c) State option \<Rightarrow> ('p, unit) gomap" where
  "ProviderRequirements pq x = foldl (\<lambda>ret configAddr. gmap_put (apc_Provider configAddr) () ret) [] (ProviderAddrs pq x)"

section \<open>Comparing\<close>

definition sameManagedResources :: "('p \<Rightarrow> string) \<Rightarrow> ('m \<Rightarrow> 'm \<Rightarrow> bool) \<Rightarrow> (InstanceKey \<Rightarrow> InstanceKey \<Rightarrow> bool) \<Rightarrow>
    ('p, 'v, 'm, 'c) State \<Rightarrow> ('p, 'v, 'm, 'c) State \<Rightarrow> bool" where
  "sameManagedResources pq meq kdiff s1 s2 =
     list_all (\<lambda>(_, ms). list_all (\<lambda>(_, rs).
       res_Mode (ar_Resource (rs_Addr rs)) \<noteq> ManagedResourceMode \<or>
       rs_Equal pq meq kdiff (Some rs) (st_Resource s2 (rs_Addr rs))) (ms_Resources ms)) (st_Modules s1)"

fun ManagedResourcesEqual :: "('p \<Rightarrow> string) \<Rightarrow> ('m \<Rightarrow> 'm \<Rightarrow> bool) \<Rightarrow> (InstanceKey \<Rightarrow> InstanceKey \<Rightarrow> bool) \<Rightarrow>
    ('p, 'v, 'm, 'c) State option \<Rightarrow> ('p, 'v, 'm, 'c) State option \<Rightarrow> bool" where
  "ManagedResourcesEqual pq meq kdiff None None = True"
| "ManagedResourcesEqual pq meq kdiff None (Some other) = (\<not> HasManagedResourceInstanceObjects (Some other))"
| "ManagedResourcesEqual pq meq kdiff (Some s) None = (\<not> HasManagedResourceInstanceObjects (Some s))"
| "ManagedResourcesEqual pq meq kdiff (Some s) (Some other) =
     (sameManagedResources pq meq kdiff s other \<and> sameManagedResources pq meq kdiff other s)"

section \<open>Writing\<close>

text \<open>Writing through the pointer to a module that the state holds.\<close>

definition st_write :: "('p, 'v, 'm, 'c) State \<Rightarrow> ModuleInstance \<Rightarrow> ('p, 'v, 'm) Module_state \<Rightarrow> ('p, 'v, 'm, 'c) State" where
  "st_write s addr ms = s\<lparr>st_Modules := gmap_put (mi_String addr) ms (st_Modules s)\<rparr>"

definition st_RemoveModule :: "('p, 'v, 'm, 'c) State \<Rightarrow> ModuleInstance \<Rightarrow> ('p, 'v, 'm, 'c) State option" where
  "st_RemoveModule s addr =
     (if mi_IsRoot addr then None else Some (s\<lparr>st_Modules := gmap_del (mi_String addr) (st_Modules s)\<rparr>))"

definition st_EnsureModule ::
  "('p, 'v, 'm, 'c) State \<Rightarrow> ModuleInstance \<Rightarrow> ('p, 'v, 'm) Module_state \<times> ('p, 'v, 'm, 'c) State" where
  "st_EnsureModule s addr =
     (case st_Module s addr of
        Some ms \<Rightarrow> (ms, s)
      | None \<Rightarrow> (NewModule addr, st_write s addr (NewModule addr)))"

text \<open>Removing a module that is empty and not the root.\<close>

definition st_drop_empty :: "('p, 'v, 'm, 'c) State \<Rightarrow> ModuleInstance \<Rightarrow> ('p, 'v, 'm) Module_state \<Rightarrow> ('p, 'v, 'm, 'c) State option" where
  "st_drop_empty s addr ms = (if \<not> mi_IsRoot (ms_Addr ms) \<and> ms_empty (Some ms) then st_RemoveModule s addr else Some s)"

definition st_PruneResourceHusks :: "('p, 'v, 'm, 'c) State \<Rightarrow> ('p, 'v, 'm, 'c) State option" where
  "st_PruneResourceHusks s =
     foldl (\<lambda>acc k.
       case acc of None \<Rightarrow> None
       | Some s \<Rightarrow>
           (case gmap_get (st_Modules s) k of
              None \<Rightarrow> Some s
            | Some m \<Rightarrow>
                (let m = ms_PruneResourceHusks m; s = s\<lparr>st_Modules := gmap_put k m (st_Modules s)\<rparr> in
                 if length (ms_Resources m) = 0 \<and> \<not> mi_IsRoot (ms_Addr m) then st_RemoveModule s (ms_Addr m) else Some s)))
       (Some s) (map fst (st_Modules s))"

subsection \<open>Moves\<close>

definition st_MoveAbsResource :: "('p, 'v, 'm, 'c) State \<Rightarrow> AbsResource \<Rightarrow> AbsResource \<Rightarrow> ('p, 'v, 'm, 'c) State option" where
  "st_MoveAbsResource s src dst =
     (case st_Resource s src of
        None \<Rightarrow> None
      | Some rs \<Rightarrow>
          if st_Resource s dst \<noteq> None then None
          else case st_Module s (ar_Module src) of
            None \<Rightarrow> None
          | Some ms \<Rightarrow>
              (let ms = ms_RemoveResource ms (ar_Resource src) in
               case st_drop_empty (st_write s (ar_Module src) ms) (ar_Module src) ms of
                 None \<Rightarrow> None
               | Some s \<Rightarrow>
                   (let rs = rs\<lparr>rs_Addr := dst\<rparr>; (dm, s) = st_EnsureModule s (ar_Module dst)
                    in Some (st_write s (ar_Module dst) (ms_write dm (ar_Resource dst) rs)))))"

definition st_MaybeMoveAbsResource ::
  "('p, 'v, 'm, 'c) State \<Rightarrow> AbsResource \<Rightarrow> AbsResource \<Rightarrow> (bool \<times> ('p, 'v, 'm, 'c) State) option" where
  "st_MaybeMoveAbsResource s src dst =
     (if st_Resource s src \<noteq> None \<and> st_Resource s dst = None then map_option (Pair True) (st_MoveAbsResource s src dst)
      else if st_Resource s src = None \<and> st_Resource s dst \<noteq> None then Some (False, s)
      else None)"

definition st_MoveAbsResourceInstance ::
  "('p, 'v, 'm, 'c) State \<Rightarrow> AbsResourceInstance \<Rightarrow> AbsResourceInstance \<Rightarrow> ('p, 'v, 'm, 'c) State option" where
  "st_MoveAbsResourceInstance s src dst =
     (case st_ResourceInstance s src of
        None \<Rightarrow> None
      | Some srcInstanceState \<Rightarrow>
          if st_ResourceInstance s dst \<noteq> None then None
          else case (st_Resource s (ari_ContainingResource src), st_Module s (ari_Module src)) of
            (Some srcResourceState, Some ms) \<Rightarrow>
              (let ms = ms_ForgetResourceInstanceAll ms (ari_Resource src) in
               case st_drop_empty (st_write s (ari_Module src) ms) (ari_Module src) ms of
                 None \<Rightarrow> None
               | Some s \<Rightarrow>
                   (let (dstModule, s) = st_EnsureModule s (ari_Module dst);
                        dstModule = (if st_Resource s (ari_ContainingResource dst) = None
                          then ms_SetResourceProvider dstModule (ri_Resource (ari_Resource dst)) (rs_ProviderConfig srcResourceState)
                          else dstModule)
                    in case ms_Resource dstModule (ri_Resource (ari_Resource dst)) of
                         None \<Rightarrow> None
                       | Some rs \<Rightarrow> Some (st_write s (ari_Module dst) (ms_write dstModule (ri_Resource (ari_Resource dst))
                           (rs\<lparr>rs_Instances := gmap_put (ri_Key (ari_Resource dst)) srcInstanceState (rs_Instances rs)\<rparr>)))))
          | _ \<Rightarrow> None)"

definition st_MaybeMoveAbsResourceInstance ::
  "('p, 'v, 'm, 'c) State \<Rightarrow> AbsResourceInstance \<Rightarrow> AbsResourceInstance \<Rightarrow> (bool \<times> ('p, 'v, 'm, 'c) State) option" where
  "st_MaybeMoveAbsResourceInstance s src dst =
     (if st_ResourceInstance s src \<noteq> None \<and> st_ResourceInstance s dst = None
      then map_option (Pair True) (st_MoveAbsResourceInstance s src dst)
      else if st_ResourceInstance s src = None \<and> st_ResourceInstance s dst \<noteq> None then Some (False, s)
      else None)"

definition relocate :: "ModuleInstance \<Rightarrow> ('p, 'v, 'm) Module_state \<Rightarrow> ('p, 'v, 'm) Module_state" where
  "relocate dst ms = ms\<lparr>ms_Addr := dst,
     ms_Resources := map (\<lambda>(k, r). (k, r\<lparr>rs_Addr := (rs_Addr r)\<lparr>ar_Module := dst\<rparr>\<rparr>)) (ms_Resources ms),
     ms_OutputValues := map (\<lambda>(k, ov). (k, ov\<lparr>ov_Addr := (ov_Addr ov)\<lparr>aov_Module := dst\<rparr>\<rparr>)) (ms_OutputValues ms)\<rparr>"

definition st_MoveModuleInstance :: "('p, 'v, 'm, 'c) State \<Rightarrow> ModuleInstance \<Rightarrow> ModuleInstance \<Rightarrow> ('p, 'v, 'm, 'c) State option" where
  "st_MoveModuleInstance s src dst =
     (if mi_IsRoot src \<or> mi_IsRoot dst then None
      else case st_Module s src of
        None \<Rightarrow> None
      | Some srcMod \<Rightarrow>
          if st_Module s dst \<noteq> None then None
          else case st_RemoveModule s src of
            None \<Rightarrow> None
          | Some s \<Rightarrow> Some (st_write (snd (st_EnsureModule s dst)) dst (relocate dst srcMod)))"

definition st_MaybeMoveModuleInstance ::
  "('p, 'v, 'm, 'c) State \<Rightarrow> ModuleInstance \<Rightarrow> ModuleInstance \<Rightarrow> (bool \<times> ('p, 'v, 'm, 'c) State) option" where
  "st_MaybeMoveModuleInstance s src dst =
     (if mi_IsRoot src \<or> mi_IsRoot dst then None
      else if st_Module s src \<noteq> None \<and> st_Module s dst = None then map_option (Pair True) (st_MoveModuleInstance s src dst)
      else if st_Module s src = None \<or> mi_IsRoot src \<and> st_Module s dst \<noteq> None then Some (False, s)
      else None)"

text \<open>
  \<^verbatim>\<open>MoveModule\<close>.  The address of every module it collects is rewritten and the module moved; the
  comparison with the call and the moves may panic.
\<close>

definition moved_path :: "AbsModuleCall \<Rightarrow> AbsModuleCall \<Rightarrow> ModuleInstance \<Rightarrow> ModuleInstance option" where
  "moved_path src dst addr =
     (case IsDeclaredByCall addr src of
        None \<Rightarrow> None
      | Some True \<Rightarrow> Some (addr[length addr - 1 := (last addr)\<lparr>step_Name := call_Name (amc_Call dst)\<rparr>])
      | Some False \<Rightarrow> Some (map (\<lambda>st. if step_Name st = call_Name (amc_Call src) then st\<lparr>step_Name := call_Name (amc_Call dst)\<rparr> else st) addr))"

definition st_MoveModule :: "('p, 'v, 'm, 'c) State \<Rightarrow> AbsModuleCall \<Rightarrow> AbsModuleCall \<Rightarrow> ('p, 'v, 'm, 'c) State option" where
  "st_MoveModule s src dst =
     (if mi_IsRoot (amc_Module src) \<or> mi_IsRoot (amc_Module dst) then None
      else
        (let srcMIs = filter (\<lambda>m. \<not> mi_IsRoot (ms_Addr m) \<and> mi_TargetContains (amc_Module src) (TModuleInstance (ms_Addr m)))
               (map snd (st_Modules s))
         in if length srcMIs = 0 then None
            else foldl (\<lambda>acc ms.
              case acc of None \<Rightarrow> None
              | Some s \<Rightarrow>
                  (case moved_path src dst (ms_Addr ms) of
                     None \<Rightarrow> None
                   | Some newInst \<Rightarrow> st_MoveModuleInstance s (ms_Addr ms) newInst)) (Some s) srcMIs))"

section \<open>Synchronized methods\<close>

definition maybePruneModule :: "('p, 'v, 'm, 'c) State \<Rightarrow> ModuleInstance \<Rightarrow> ('p, 'v, 'm, 'c) State" where
  "maybePruneModule s addr =
     (if mi_IsRoot addr then s
      else case st_Module s addr of
        None \<Rightarrow> s
      | Some ms \<Rightarrow> if ms_empty (Some ms) then (case st_RemoveModule s addr of Some s' \<Rightarrow> s' | None \<Rightarrow> s) else s)"

definition sync_Module :: "('p, 'v, 'm, 'c) State \<Rightarrow> ModuleInstance \<Rightarrow> ('p, 'v, 'm) Module_state option" where
  "sync_Module s addr = ms_DeepCopy (st_Module s addr)"

definition sync_OutputValue :: "('p, 'v, 'm, 'c) State \<Rightarrow> AbsOutputValue \<Rightarrow> 'v OutputValue_state option" where
  "sync_OutputValue s addr = ov_DeepCopy (st_OutputValue s addr)"

definition sync_SetOutputValue ::
  "('p, 'v, 'm, 'c) State \<Rightarrow> AbsOutputValue \<Rightarrow> 'v \<Rightarrow> bool \<Rightarrow> string \<Rightarrow> ('p, 'v, 'm, 'c) State" where
  "sync_SetOutputValue s addr val sensitive deprecated =
     (let (ms, s) = st_EnsureModule s (aov_Module addr)
      in st_write s (aov_Module addr) (ms_SetOutputValue ms (aov_Name addr) val sensitive deprecated))"

definition sync_RemoveOutputValue :: "('p, 'v, 'm, 'c) State \<Rightarrow> AbsOutputValue \<Rightarrow> ('p, 'v, 'm, 'c) State" where
  "sync_RemoveOutputValue s addr =
     (case st_Module s (aov_Module addr) of
        None \<Rightarrow> s
      | Some ms \<Rightarrow> maybePruneModule (st_write s (aov_Module addr) (ms_RemoveOutputValue ms (aov_Name addr))) (aov_Module addr))"

definition sync_SetLocalValue :: "('p, 'v, 'm, 'c) State \<Rightarrow> AbsLocalValue \<Rightarrow> 'v \<Rightarrow> ('p, 'v, 'm, 'c) State" where
  "sync_SetLocalValue s addr val =
     (let (ms, s) = st_EnsureModule s (alv_Module addr)
      in st_write s (alv_Module addr) (ms_SetLocalValue ms (alv_Name addr) val))"

definition sync_RemoveLocalValue :: "('p, 'v, 'm, 'c) State \<Rightarrow> AbsLocalValue \<Rightarrow> ('p, 'v, 'm, 'c) State" where
  "sync_RemoveLocalValue s addr =
     (case st_Module s (alv_Module addr) of
        None \<Rightarrow> s
      | Some ms \<Rightarrow> maybePruneModule (st_write s (alv_Module addr) (ms_RemoveLocalValue ms (alv_Name addr))) (alv_Module addr))"

definition sync_Resource :: "('p, 'v, 'm, 'c) State \<Rightarrow> AbsResource \<Rightarrow> ('p, 'm) Resource_state option" where
  "sync_Resource s addr = rs_DeepCopy (st_Resource s addr)"

definition sync_ResourceInstance :: "('p, 'v, 'm, 'c) State \<Rightarrow> AbsResourceInstance \<Rightarrow> 'm ResourceInstance_state option" where
  "sync_ResourceInstance s addr = is_DeepCopy (st_ResourceInstance s addr)"

definition sync_ResourceInstanceObject ::
  "('p, 'v, 'm, 'c) State \<Rightarrow> AbsResourceInstance \<Rightarrow> Generation \<Rightarrow> 'm ResourceInstanceObjectSrc option" where
  "sync_ResourceInstanceObject s addr gen =
     (case st_ResourceInstance s addr of None \<Rightarrow> None | Some inst \<Rightarrow> os_DeepCopy (GetGeneration inst gen))"

definition sync_SetResourceProvider ::
  "('p, 'v, 'm, 'c) State \<Rightarrow> AbsResource \<Rightarrow> 'p AbsProviderConfig \<Rightarrow> ('p, 'v, 'm, 'c) State" where
  "sync_SetResourceProvider s addr provider =
     (let (ms, s) = st_EnsureModule s (ar_Module addr)
      in st_write s (ar_Module addr) (ms_SetResourceProvider ms (ar_Resource addr) provider))"

definition sync_SetResourceInstance ::
  "('p, 'v, 'm, 'c) State \<Rightarrow> AbsResourceInstance \<Rightarrow> 'm ResourceInstance_state option \<Rightarrow> 'p AbsProviderConfig \<Rightarrow>
   ('p, 'v, 'm, 'c) State" where
  "sync_SetResourceInstance s addr inst provider =
     (let (ms, s) = st_EnsureModule s (ari_Module addr)
      in maybePruneModule (st_write s (ari_Module addr) (ms_SetResourceInstance ms (ari_Resource addr) (is_DeepCopy inst) provider))
           (ari_Module addr))"

definition sync_RemoveResource :: "('p, 'v, 'm, 'c) State \<Rightarrow> AbsResource \<Rightarrow> ('p, 'v, 'm, 'c) State" where
  "sync_RemoveResource s addr =
     (let (ms, s) = st_EnsureModule s (ar_Module addr)
      in maybePruneModule (st_write s (ar_Module addr) (ms_RemoveResource ms (ar_Resource addr))) (ar_Module addr))"

definition sync_RemoveResourceIfEmpty :: "('p, 'v, 'm, 'c) State \<Rightarrow> AbsResource \<Rightarrow> bool \<times> ('p, 'v, 'm, 'c) State" where
  "sync_RemoveResourceIfEmpty s addr =
     (case st_Module s (ar_Module addr) of
        None \<Rightarrow> (True, s)
      | Some ms \<Rightarrow>
          (case ms_Resource ms (ar_Resource addr) of
             None \<Rightarrow> (True, s)
           | Some rs \<Rightarrow>
               if length (rs_Instances rs) \<noteq> 0 then (False, s)
               else (True, maybePruneModule (st_write s (ar_Module addr) (ms_RemoveResource ms (ar_Resource addr))) (ar_Module addr))))"

definition sync_SetResourceInstanceCurrent ::
  "('p, 'v, 'm, 'c) State \<Rightarrow> AbsResourceInstance \<Rightarrow> 'm ResourceInstanceObjectSrc option \<Rightarrow> 'p AbsProviderConfig \<Rightarrow>
   InstanceKey \<Rightarrow> ('p, 'v, 'm, 'c) State" where
  "sync_SetResourceInstanceCurrent s addr obj provider providerKey =
     (let (ms, s) = st_EnsureModule s (ari_Module addr)
      in maybePruneModule (st_write s (ari_Module addr)
           (ms_SetResourceInstanceCurrent ms (ari_Resource addr) (os_DeepCopy obj) provider providerKey)) (ari_Module addr))"

definition sync_SetResourceInstanceDeposed ::
  "('p, 'v, 'm, 'c) State \<Rightarrow> AbsResourceInstance \<Rightarrow> DeposedKey \<Rightarrow> 'm ResourceInstanceObjectSrc option \<Rightarrow>
   'p AbsProviderConfig \<Rightarrow> InstanceKey \<Rightarrow> ('p, 'v, 'm, 'c) State" where
  "sync_SetResourceInstanceDeposed s addr key obj provider providerKey =
     (let (ms, s) = st_EnsureModule s (ari_Module addr)
      in maybePruneModule (st_write s (ari_Module addr)
           (ms_SetResourceInstanceDeposed ms (ari_Resource addr) key (os_DeepCopy obj) provider providerKey)) (ari_Module addr))"

definition sync_depose ::
  "(nat \<Rightarrow> 32 word) \<Rightarrow> ('p, 'v, 'm, 'c) State \<Rightarrow> AbsResourceInstance \<Rightarrow> DeposedKey \<Rightarrow> (DeposedKey \<times> ('p, 'v, 'm, 'c) State) option" where
  "sync_depose rand s addr forceKey =
     (case st_Module s (ari_Module addr) of
        None \<Rightarrow> Some (NotDeposed, s)
      | Some ms \<Rightarrow>
          (case ms_deposeResourceInstanceObject rand ms (ari_Resource addr) forceKey of
             None \<Rightarrow> None
           | Some (key, ms) \<Rightarrow> Some (key, st_write s (ari_Module addr) ms)))"

definition sync_DeposeResourceInstanceObject ::
  "(nat \<Rightarrow> 32 word) \<Rightarrow> ('p, 'v, 'm, 'c) State \<Rightarrow> AbsResourceInstance \<Rightarrow> (DeposedKey \<times> ('p, 'v, 'm, 'c) State) option" where
  "sync_DeposeResourceInstanceObject rand s addr = sync_depose rand s addr NotDeposed"

definition sync_DeposeResourceInstanceObjectForceKey ::
  "(nat \<Rightarrow> 32 word) \<Rightarrow> ('p, 'v, 'm, 'c) State \<Rightarrow> AbsResourceInstance \<Rightarrow> DeposedKey \<Rightarrow> ('p, 'v, 'm, 'c) State option" where
  "sync_DeposeResourceInstanceObjectForceKey rand s addr forcedKey =
     (if forcedKey = NotDeposed then None else map_option snd (sync_depose rand s addr forcedKey))"

definition sync_ForgetResourceInstanceAll :: "('p, 'v, 'm, 'c) State \<Rightarrow> AbsResourceInstance \<Rightarrow> ('p, 'v, 'm, 'c) State" where
  "sync_ForgetResourceInstanceAll s addr =
     (case st_Module s (ari_Module addr) of
        None \<Rightarrow> s
      | Some ms \<Rightarrow> maybePruneModule (st_write s (ari_Module addr) (ms_ForgetResourceInstanceAll ms (ari_Resource addr))) (ari_Module addr))"

definition sync_ForgetResourceInstanceDeposed ::
  "('p, 'v, 'm, 'c) State \<Rightarrow> AbsResourceInstance \<Rightarrow> DeposedKey \<Rightarrow> ('p, 'v, 'm, 'c) State" where
  "sync_ForgetResourceInstanceDeposed s addr key =
     (case st_Module s (ari_Module addr) of
        None \<Rightarrow> s
      | Some ms \<Rightarrow>
          maybePruneModule (st_write s (ari_Module addr) (ms_ForgetResourceInstanceDeposed ms (ari_Resource addr) key)) (ari_Module addr))"

definition sync_MaybeRestoreResourceInstanceDeposed ::
  "('p, 'v, 'm, 'c) State \<Rightarrow> AbsResourceInstance \<Rightarrow> DeposedKey \<Rightarrow> (bool \<times> ('p, 'v, 'm, 'c) State) option" where
  "sync_MaybeRestoreResourceInstanceDeposed s addr key =
     (if key = NotDeposed then None
      else case st_Module s (ari_Module addr) of
        None \<Rightarrow> Some (False, s)
      | Some ms \<Rightarrow>
          (let (r, ms) = ms_maybeRestoreResourceInstanceDeposed ms (ari_Resource addr) key
           in Some (r, st_write s (ari_Module addr) ms)))"

text \<open>
  \<^verbatim>\<open>RemovePlannedResourceInstanceObjects\<close> deletes from the maps it ranges over.  A Go range does
  not visit an entry that was deleted before its turn, so each loop goes through the keys of
  the map and looks the entry up when its turn comes.
\<close>

definition planned :: "'m ResourceInstanceObjectSrc \<Rightarrow> bool" where
  "planned ob \<longleftrightarrow> os_Status ob = ObjectPlanned"

definition remove_planned_deposed ::
  "ResourceInstance \<Rightarrow> ('p, 'v, 'm) Module_state \<Rightarrow> DeposedKey \<Rightarrow> ('p, 'v, 'm) Module_state" where
  "remove_planned_deposed instAddr ms dk =
     (case ms_ResourceInstance ms instAddr of
        None \<Rightarrow> ms
      | Some is \<Rightarrow>
          (case gmap_get (is_Deposed is) dk of
             None \<Rightarrow> ms
           | Some obj \<Rightarrow> if planned obj then ms_ForgetResourceInstanceDeposed ms instAddr dk else ms))"

definition remove_planned_instance :: "Resource \<Rightarrow> ('p, 'v, 'm) Module_state \<Rightarrow> InstanceKey \<Rightarrow> ('p, 'v, 'm) Module_state" where
  "remove_planned_instance resAddr ms ik =
     (let instAddr = res_Instance resAddr ik in
      case (ms_Resource ms resAddr, ms_ResourceInstance ms instAddr) of
        (Some rs, Some is) \<Rightarrow>
          (let ms = (case is_Current is of
                 None \<Rightarrow> ms
               | Some obj \<Rightarrow> if planned obj then ms_SetResourceInstanceCurrent ms instAddr None (rs_ProviderConfig rs) NoKey else ms)
           in foldl (remove_planned_deposed instAddr) ms (map fst (is_Deposed is)))
      | _ \<Rightarrow> ms)"

definition remove_planned_resource :: "('p, 'v, 'm) Module_state \<Rightarrow> string \<Rightarrow> ('p, 'v, 'm) Module_state" where
  "remove_planned_resource ms rk =
     (case gmap_get (ms_Resources ms) rk of
        None \<Rightarrow> ms
      | Some rs \<Rightarrow> foldl (remove_planned_instance (ar_Resource (rs_Addr rs))) ms (map fst (rs_Instances rs)))"

definition remove_planned_module :: "('p, 'v, 'm) Module_state \<Rightarrow> ('p, 'v, 'm) Module_state" where
  "remove_planned_module ms = foldl remove_planned_resource ms (map fst (ms_Resources ms))"

definition sync_RemovePlannedResourceInstanceObjects :: "('p, 'v, 'm, 'c) State \<Rightarrow> ('p, 'v, 'm, 'c) State" where
  "sync_RemovePlannedResourceInstanceObjects s =
     foldl (\<lambda>s k. case gmap_get (st_Modules s) k of
         None \<Rightarrow> s
       | Some ms \<Rightarrow> maybePruneModule (s\<lparr>st_Modules := gmap_put k (remove_planned_module ms) (st_Modules s)\<rparr>) (ms_Addr ms))
       s (map fst (st_Modules s))"

definition sync_DiscardCheckResults :: "('p, 'v, 'm, 'c) State \<Rightarrow> ('p, 'v, 'm, 'c) State" where
  "sync_DiscardCheckResults s = s\<lparr>st_CheckResults := None\<rparr>"

text \<open>The methods that only hold the lock around the operation of the state.\<close>

definition sync_ModuleOutputs :: "('p, 'v, 'm, 'c) State \<Rightarrow> ModuleInstance \<Rightarrow> ModuleCall \<Rightarrow> 'v OutputValue_state list" where
  "sync_ModuleOutputs s parentAddr module = List.map_filter (\<lambda>ov. ov_DeepCopy (Some ov)) (st_ModuleOutputs s parentAddr module)"

definition sync_LocalValue :: "('p, 'v, 'm, 'c) State \<Rightarrow> AbsLocalValue \<Rightarrow> 'v option" where
  "sync_LocalValue s addr = st_LocalValue s addr"

definition sync_ResourceProvider :: "('p, 'v, 'm, 'c) State \<Rightarrow> AbsResource \<Rightarrow> 'p AbsProviderConfig option" where
  "sync_ResourceProvider s addr = st_ResourceProvider s addr"

definition sync_RemoveModule :: "('p, 'v, 'm, 'c) State \<Rightarrow> ModuleInstance \<Rightarrow> ('p, 'v, 'm, 'c) State option" where
  "sync_RemoveModule s addr = st_RemoveModule s addr"

definition sync_MoveAbsResource :: "('p, 'v, 'm, 'c) State \<Rightarrow> AbsResource \<Rightarrow> AbsResource \<Rightarrow> ('p, 'v, 'm, 'c) State option" where
  "sync_MoveAbsResource s src dst = st_MoveAbsResource s src dst"

definition sync_MaybeMoveAbsResource :: "('p, 'v, 'm, 'c) State \<Rightarrow> AbsResource \<Rightarrow> AbsResource \<Rightarrow> (bool \<times> ('p, 'v, 'm, 'c) State) option" where
  "sync_MaybeMoveAbsResource s src dst = st_MaybeMoveAbsResource s src dst"

definition sync_MoveResourceInstance :: "('p, 'v, 'm, 'c) State \<Rightarrow> AbsResourceInstance \<Rightarrow> AbsResourceInstance \<Rightarrow> ('p, 'v, 'm, 'c) State option" where
  "sync_MoveResourceInstance s src dst = st_MoveAbsResourceInstance s src dst"

definition sync_MaybeMoveResourceInstance :: "('p, 'v, 'm, 'c) State \<Rightarrow> AbsResourceInstance \<Rightarrow> AbsResourceInstance \<Rightarrow> (bool \<times> ('p, 'v, 'm, 'c) State) option" where
  "sync_MaybeMoveResourceInstance s src dst = st_MaybeMoveAbsResourceInstance s src dst"

definition sync_MoveModuleInstance :: "('p, 'v, 'm, 'c) State \<Rightarrow> ModuleInstance \<Rightarrow> ModuleInstance \<Rightarrow> ('p, 'v, 'm, 'c) State option" where
  "sync_MoveModuleInstance s src dst = st_MoveModuleInstance s src dst"

definition sync_MaybeMoveModuleInstance :: "('p, 'v, 'm, 'c) State \<Rightarrow> ModuleInstance \<Rightarrow> ModuleInstance \<Rightarrow> (bool \<times> ('p, 'v, 'm, 'c) State) option" where
  "sync_MaybeMoveModuleInstance s src dst = st_MaybeMoveModuleInstance s src dst"

lemmas sync_forward_defs = sync_LocalValue_def sync_ResourceProvider_def sync_RemoveModule_def sync_MoveAbsResource_def
  sync_MoveResourceInstance_def sync_MoveModuleInstance_def sync_MaybeMoveAbsResource_def
  sync_MaybeMoveResourceInstance_def sync_MaybeMoveModuleInstance_def

end
