(* ===== verification/State_Sync.thy ===== *)
theory State_Sync
  imports State_Ops
begin

text \<open>
  The state seen as a family of modules: \<open>st_mod s m\<close> is the module at \<open>m\<close>, an empty one when the
  state holds none.  Creating a module on demand and pruning it when it is empty do not change
  this view, so every synchronized method is the update of one module, \<open>st_put\<close>, and the laws
  of the module operations carry over to the whole state.
\<close>

section \<open>Well-formed states\<close>

definition st_mod :: "('p, 'v, 'm, 'c) State \<Rightarrow> ModuleInstance \<Rightarrow> ('p, 'v, 'm) Module_state" where
  "st_mod s m = (case st_Module s m of None \<Rightarrow> NewModule m | Some ms \<Rightarrow> ms)"

text \<open>
  The modules are filed under their addresses and well formed, there is a root module, and no
  other module is empty.
\<close>

definition st_wf :: "('p, 'v, 'm, 'c) State \<Rightarrow> bool" where
  "st_wf s \<longleftrightarrow> gmap_ok (st_Modules s) \<and>
     (\<forall>e \<in> set (st_Modules s). fst e = mi_String (ms_Addr (snd e)) \<and> mi_valid (ms_Addr (snd e)) \<and> ms_wf (snd e) \<and>
        (ms_Addr (snd e) \<noteq> [] \<longrightarrow> \<not> ms_empty (Some (snd e)))) \<and>
     st_Module s [] \<noteq> None"

lemma NewModule_wf: "ms_wf (NewModule m)"
  by (simp add: ms_wf_def NewModule_def)

lemma NewModule_simps [simp]:
  "ms_Addr (NewModule m) = m" "ms_Resources (NewModule m) = []" "ms_OutputValues (NewModule m) = []" "ms_LocalValues (NewModule m) = []"
  by (simp_all add: NewModule_def)

lemma ms_empty_NewModule: "ms_empty (Some ms) \<longleftrightarrow> ms = NewModule (ms_Addr ms)"
  by (cases ms) (auto simp: ms_empty_def NewModule_def)

lemma mi_valid_root [simp]: "mi_valid []"
  by (simp add: mi_valid_def)

lemma NewState_wf: "st_wf NewState"
  by (simp add: st_wf_def NewState_def NewModule_wf st_Module_def gmap_ok_def)

lemma st_Module_wf:
  assumes "st_wf s" "mi_valid m" "st_Module s m = Some ms"
  shows "ms_wf ms" "ms_Addr ms = m" "m \<noteq> [] \<Longrightarrow> ms \<noteq> NewModule m"
proof -
  have "(mi_String m, ms) \<in> set (st_Modules s)" using assms(3) by (auto simp: st_Module_def dest: map_of_SomeD)
  with assms(1) have e: "mi_String m = mi_String (ms_Addr ms)" "mi_valid (ms_Addr ms)" "ms_wf ms"
    "ms_Addr ms \<noteq> [] \<longrightarrow> \<not> ms_empty (Some ms)" by (auto simp: st_wf_def)
  then show "ms_wf ms" "ms_Addr ms = m" "m \<noteq> [] \<Longrightarrow> ms \<noteq> NewModule m"
    using assms(2) mi_String_inj[of m "ms_Addr ms"] by (auto simp: ms_empty_NewModule)
qed

lemma st_mod_wf: "st_wf s \<Longrightarrow> mi_valid m \<Longrightarrow> ms_wf (st_mod s m) \<and> ms_Addr (st_mod s m) = m"
  using st_Module_wf[of s m] NewModule_wf by (auto simp: st_mod_def split: option.split)

lemma st_Module_mod:
  assumes "st_wf s" "mi_valid m"
  shows "st_Module s m = (if m \<noteq> [] \<and> ms_empty (Some (st_mod s m)) then None else Some (st_mod s m))"
proof (cases "st_Module s m")
  case None
  with assms show ?thesis by (auto simp: st_mod_def ms_empty_NewModule st_wf_def)
next
  case (Some ms)
  with st_Module_wf[OF assms Some] show ?thesis by (auto simp: st_mod_def ms_empty_NewModule)
qed

section \<open>Updating one module\<close>

lemma st_Module_write:
  "mi_valid m \<Longrightarrow> mi_valid m' \<Longrightarrow> st_Module (st_write s m ms) m' = (if m' = m then Some ms else st_Module s m')"
  by (simp add: st_Module_def st_write_def gm.get_put mi_String_inj)

lemma EnsureModule_mod: "fst (st_EnsureModule s m) = st_mod s m"
  by (simp add: st_EnsureModule_def st_mod_def split: option.split)

lemma st_write_write: "st_write (st_write s m a) m b = st_write s m b"
  by (simp add: st_write_def gmap_put_put)

lemma st_write_Ensure: "st_write (snd (st_EnsureModule s m)) m ms = st_write s m ms"
  by (simp add: st_EnsureModule_def st_write_write split: option.split)

text \<open>Writing a module and pruning it.\<close>

definition st_put :: "('p, 'v, 'm, 'c) State \<Rightarrow> ModuleInstance \<Rightarrow> ('p, 'v, 'm) Module_state \<Rightarrow> ('p, 'v, 'm, 'c) State" where
  "st_put s m ms = maybePruneModule (st_write s m ms) m"

lemma st_put_Ensure: "st_put (snd (st_EnsureModule s m)) m ms = st_put s m ms"
  by (simp add: st_put_def st_write_Ensure)

lemma st_put_cases:
  assumes "mi_valid m"
  shows "st_put s m ms =
    (if m \<noteq> [] \<and> ms_empty (Some ms) then s\<lparr>st_Modules := gmap_del (mi_String m) (st_Modules s)\<rparr> else st_write s m ms)"
  using assms
  by (auto simp: st_put_def maybePruneModule_def mi_IsRoot_def st_Module_write st_RemoveModule_def)
     (simp add: st_write_def gmap_del_put)

lemma st_Module_put:
  assumes "mi_valid m" "mi_valid m'"
  shows "st_Module (st_put s m ms) m' =
    (if m' = m then (if m \<noteq> [] \<and> ms_empty (Some ms) then None else Some ms) else st_Module s m')"
  using assms by (auto simp: st_put_cases st_Module_write) (auto simp: st_Module_def gm.get_del mi_String_inj)

lemma st_mod_put:
  assumes "mi_valid m" "mi_valid m'" "ms_Addr ms = m"
  shows "st_mod (st_put s m ms) m' = (if m' = m then ms else st_mod s m')"
  using assms by (auto simp: st_mod_def st_Module_put ms_empty_NewModule)

lemma st_put_wf:
  assumes "st_wf s" "mi_valid m" "ms_wf ms" "ms_Addr ms = m"
  shows "st_wf (st_put s m ms)"
proof -
  have root: "st_Module (st_put s m ms) [] \<noteq> None"
    using assms(1,2) by (auto simp: st_Module_put st_wf_def)
  show ?thesis
  proof (cases "m \<noteq> [] \<and> ms_empty (Some ms)")
    case True
    with root assms set_delete_subset[of "mi_String m" "st_Modules s"] show ?thesis
      by (auto simp: st_wf_def st_put_cases gm.ok_del)
  next
    case False
    with root assms set_update_subset[of "mi_String m" ms "st_Modules s"] show ?thesis
      by (auto simp: st_wf_def st_put_cases st_write_def gm.ok_put)
  qed
qed

lemma st_put_same:
  assumes "st_wf s" "mi_valid m"
  shows "st_put s m (st_mod s m) = s"
proof (cases "st_Module s m")
  case None
  then have "m \<noteq> []" using assms(1) by (auto simp: st_wf_def)
  moreover have "gmap_del (mi_String m) (st_Modules s) = st_Modules s"
    using None by (simp add: st_Module_def delete_id map_of_eq_None_iff)
  ultimately show ?thesis using None assms(2) by (simp add: st_put_cases st_mod_def ms_empty_NewModule)
next
  case (Some ms)
  moreover have "gmap_put (mi_String m) ms (st_Modules s) = st_Modules s"
    using adjust_same[of "\<lambda>_. Some ms" "st_Modules s" "mi_String m"] Some by (simp add: st_Module_def adjust_def)
  ultimately show ?thesis
    using assms(2) st_Module_wf[OF assms Some] by (auto simp: st_put_cases st_mod_def ms_empty_NewModule st_write_def)
qed

section \<open>The methods as updates of one module\<close>

lemma st_put_nonempty:
  "mi_valid m \<Longrightarrow> \<not> ms_empty (Some ms) \<Longrightarrow> st_write s m ms = st_put s m ms"
  by (simp add: st_put_cases)

lemma put_lookup:
  assumes "st_wf s" "mi_valid m" "upd (NewModule m) = NewModule m"
  shows "(case st_Module s m of None \<Rightarrow> s | Some ms \<Rightarrow> maybePruneModule (st_write s m (upd ms)) m) = st_put s m (upd (st_mod s m))"
proof (cases "st_Module s m")
  case None
  with st_put_same[OF assms(1,2)] assms(3) show ?thesis by (simp add: st_mod_def)
qed (simp add: st_put_def st_mod_def)

lemma sync_put:
  "sync_SetResourceInstance s a inst p =
     st_put s (ari_Module a) (ms_SetResourceInstance (st_mod s (ari_Module a)) (ari_Resource a) (is_DeepCopy inst) p)"
  "sync_RemoveResource s r = st_put s (ar_Module r) (ms_RemoveResource (st_mod s (ar_Module r)) (ar_Resource r))"
  "sync_SetResourceInstanceCurrent s a obj p k =
     st_put s (ari_Module a) (ms_SetResourceInstanceCurrent (st_mod s (ari_Module a)) (ari_Resource a) (os_DeepCopy obj) p k)"
  "sync_SetResourceInstanceDeposed s a key obj p k =
     st_put s (ari_Module a) (ms_SetResourceInstanceDeposed (st_mod s (ari_Module a)) (ari_Resource a) key (os_DeepCopy obj) p k)"
  by (simp_all add: sync_SetResourceInstance_def sync_RemoveResource_def sync_SetResourceInstanceCurrent_def
      sync_SetResourceInstanceDeposed_def st_put_def EnsureModule_mod st_write_Ensure Let_def case_prod_beta)

lemma sync_put_nonempty:
  "mi_valid (ar_Module r) \<Longrightarrow> sync_SetResourceProvider s r p =
     st_put s (ar_Module r) (ms_SetResourceProvider (st_mod s (ar_Module r)) (ar_Resource r) p)"
  "mi_valid (aov_Module ov) \<Longrightarrow> sync_SetOutputValue s ov v sens depr =
     st_put s (aov_Module ov) (ms_SetOutputValue (st_mod s (aov_Module ov)) (aov_Name ov) v sens depr)"
  "mi_valid (alv_Module lv) \<Longrightarrow> sync_SetLocalValue s lv v =
     st_put s (alv_Module lv) (ms_SetLocalValue (st_mod s (alv_Module lv)) (alv_Name lv) v)"
  by (simp_all add: sync_SetResourceProvider_def sync_SetOutputValue_def sync_SetLocalValue_def EnsureModule_mod
      Let_def case_prod_beta st_put_nonempty st_put_Ensure ms_empty_def ms_SetOutputValue_def ms_SetLocalValue_def)

lemma NewModule_ops:
  "ms_RemoveOutputValue (NewModule m) n = NewModule m" "ms_RemoveLocalValue (NewModule m) n = NewModule m"
  "ms_RemoveResource (NewModule m) r = NewModule m"
  "ms_ForgetResourceInstanceAll (NewModule m) a = NewModule m"
  "ms_ForgetResourceInstanceDeposed (NewModule m) a key = NewModule m"
  "ms_deposeResourceInstanceObject rand (NewModule m) a key = Some (NotDeposed, NewModule m)"
  "ms_maybeRestoreResourceInstanceDeposed (NewModule m) a key = (False, NewModule m)"
  by (simp_all add: ms_RemoveOutputValue_def ms_RemoveLocalValue_def ms_RemoveResource_def ms_ForgetResourceInstanceAll_def
      ms_ForgetResourceInstanceDeposed_def ms_deposeResourceInstanceObject_def ms_maybeRestoreResourceInstanceDeposed_def
      ms_ResourceInstance_def ms_Resource_def)

lemma sync_put_lookup:
  assumes "st_wf s"
  shows "mi_valid (aov_Module ov) \<Longrightarrow> sync_RemoveOutputValue s ov =
     st_put s (aov_Module ov) (ms_RemoveOutputValue (st_mod s (aov_Module ov)) (aov_Name ov))"
    and "mi_valid (alv_Module lv) \<Longrightarrow> sync_RemoveLocalValue s lv =
     st_put s (alv_Module lv) (ms_RemoveLocalValue (st_mod s (alv_Module lv)) (alv_Name lv))"
    and "mi_valid (ari_Module a) \<Longrightarrow> sync_ForgetResourceInstanceAll s a =
     st_put s (ari_Module a) (ms_ForgetResourceInstanceAll (st_mod s (ari_Module a)) (ari_Resource a))"
    and "mi_valid (ari_Module a) \<Longrightarrow> sync_ForgetResourceInstanceDeposed s a key =
     st_put s (ari_Module a) (ms_ForgetResourceInstanceDeposed (st_mod s (ari_Module a)) (ari_Resource a) key)"
  using put_lookup[OF assms, of _ "\<lambda>ms. ms_RemoveOutputValue ms (aov_Name ov)"]
    put_lookup[OF assms, of _ "\<lambda>ms. ms_RemoveLocalValue ms (alv_Name lv)"]
    put_lookup[OF assms, of _ "\<lambda>ms. ms_ForgetResourceInstanceAll ms (ari_Resource a)"]
    put_lookup[OF assms, of _ "\<lambda>ms. ms_ForgetResourceInstanceDeposed ms (ari_Resource a) key"]
  by (simp_all add: sync_RemoveOutputValue_def sync_RemoveLocalValue_def sync_ForgetResourceInstanceAll_def
      sync_ForgetResourceInstanceDeposed_def NewModule_ops)

lemma ms_write_instance_nonempty: "\<not> ms_empty (Some ms) \<Longrightarrow> \<not> ms_empty (Some (ms_write_instance ms a i))"
  by (auto simp: ms_empty_def ms_write_instance_def split: option.split)

lemma ms_depose_nonempty:
  "\<not> ms_empty (Some ms) \<Longrightarrow> ms_deposeResourceInstanceObject rand ms a key = Some (k, ms') \<Longrightarrow> \<not> ms_empty (Some ms')"
  by (auto simp: ms_deposeResourceInstanceObject_def ms_write_instance_nonempty split: option.splits prod.splits)

lemma ms_restore_nonempty:
  "\<not> ms_empty (Some ms) \<Longrightarrow> \<not> ms_empty (Some (snd (ms_maybeRestoreResourceInstanceDeposed ms a key)))"
  by (auto simp: ms_maybeRestoreResourceInstanceDeposed_def ms_write_instance_nonempty split: option.splits)

lemma root_put: "st_write s [] ms = st_put s [] ms"
  by (simp add: st_put_cases)

lemma sync_depose_put:
  assumes "st_wf s" "mi_valid (ari_Module a)"
  shows "sync_depose rand s a key =
    (case ms_deposeResourceInstanceObject rand (st_mod s (ari_Module a)) (ari_Resource a) key of
       None \<Rightarrow> None | Some (k, ms) \<Rightarrow> Some (k, st_put s (ari_Module a) ms))"
proof (cases "st_Module s (ari_Module a)")
  case None
  then have "st_mod s (ari_Module a) = NewModule (ari_Module a)" by (simp add: st_mod_def)
  with None st_put_same[OF assms] show ?thesis by (simp add: sync_depose_def NewModule_ops)
next
  case (Some ms)
  have ms: "st_mod s (ari_Module a) = ms" using Some by (simp add: st_mod_def)
  have "st_write s (ari_Module a) ms' = st_put s (ari_Module a) ms'"
    if "ms_deposeResourceInstanceObject rand ms (ari_Resource a) key = Some (k, ms')" for k ms'
  proof (cases "ari_Module a = []")
    case False
    then have "\<not> ms_empty (Some ms)" using st_Module_wf[OF assms Some] by (simp add: ms_empty_NewModule)
    with that assms(2) show ?thesis by (intro st_put_nonempty) (auto dest: ms_depose_nonempty)
  qed (simp add: root_put)
  with Some ms show ?thesis by (auto simp: sync_depose_def split: option.split)
qed

lemma sync_restore_put:
  assumes "st_wf s" "mi_valid (ari_Module a)" "key \<noteq> NotDeposed"
  shows "sync_MaybeRestoreResourceInstanceDeposed s a key =
    (let r = ms_maybeRestoreResourceInstanceDeposed (st_mod s (ari_Module a)) (ari_Resource a) key
     in Some (fst r, st_put s (ari_Module a) (snd r)))"
proof (cases "st_Module s (ari_Module a)")
  case None
  then have "st_mod s (ari_Module a) = NewModule (ari_Module a)" by (simp add: st_mod_def)
  with None st_put_same[OF assms(1,2)] assms(3) show ?thesis
    by (simp add: sync_MaybeRestoreResourceInstanceDeposed_def NewModule_ops)
next
  case (Some ms)
  have ms: "st_mod s (ari_Module a) = ms" using Some by (simp add: st_mod_def)
  have "st_write s (ari_Module a) (snd (ms_maybeRestoreResourceInstanceDeposed ms (ari_Resource a) key)) =
      st_put s (ari_Module a) (snd (ms_maybeRestoreResourceInstanceDeposed ms (ari_Resource a) key))"
  proof (cases "ari_Module a = []")
    case False
    then have "\<not> ms_empty (Some ms)" using st_Module_wf[OF assms(1,2) Some] by (simp add: ms_empty_NewModule)
    with assms(2) show ?thesis by (intro st_put_nonempty ms_restore_nonempty)
  qed (simp add: root_put)
  with Some ms assms(3) show ?thesis
    by (simp add: sync_MaybeRestoreResourceInstanceDeposed_def Let_def case_prod_beta)
qed

section \<open>The objects of a state\<close>

definition st_obj :: "('p, 'v, 'm, 'c) State \<Rightarrow> AbsResourceInstance \<Rightarrow> Generation \<Rightarrow> 'm ResourceInstanceObjectSrc option" where
  "st_obj s a gen = (case st_ResourceInstance s a of None \<Rightarrow> None | Some i \<Rightarrow> GetGeneration i gen)"

definition st_insts :: "('p, 'v, 'm, 'c) State \<Rightarrow> AbsResource \<Rightarrow> (InstanceKey, 'm ResourceInstance_state) gomap" where
  "st_insts s r = ms_insts (st_mod s (ar_Module r)) (ar_Resource r)"

lemma ms_insts_New [simp]: "ms_insts (NewModule m) r = []"
  by (simp add: ms_insts_def ms_Resource_def)

lemma st_ResourceInstance_mod: "st_ResourceInstance s a = ms_ResourceInstance (st_mod s (ari_Module a)) (ari_Resource a)"
  by (simp add: st_ResourceInstance_def st_mod_def ms_ResourceInstance_insts split: option.split)

lemma st_obj_mod: "st_obj s a gen = ms_obj (st_mod s (ari_Module a)) (ari_Resource a) gen"
  by (simp add: st_obj_def ms_obj_def st_ResourceInstance_mod)

lemma st_ResourceInstance_insts: "st_ResourceInstance s a = gmap_get (st_insts s (ari_ContainingResource a)) (ri_Key (ari_Resource a))"
  by (simp add: st_ResourceInstance_mod ms_ResourceInstance_insts st_insts_def ari_ContainingResource_def)

lemma st_insts_put:
  assumes "mi_valid m" "mi_valid (ar_Module r)" "ms_Addr ms = m"
  shows "st_insts (st_put s m ms) r = (if ar_Module r = m then ms_insts ms (ar_Resource r) else st_insts s r)"
  using assms by (simp add: st_insts_def st_mod_put)

lemma ari_valid_parts: "ari_valid a \<Longrightarrow> mi_valid (ari_Module a) \<and> ri_ok (ari_Resource a) \<and> res_valid (ri_Resource (ari_Resource a))"
  by (simp add: ari_valid_def ri_ok_def ri_IsPlaceholder_def)

text \<open>The contract of an operation on one instance, carried over to the state.\<close>

context instance_update
begin

lemma state_wf:
  assumes "st_wf s" "mi_valid m" "ok (st_mod s m)"
  shows "st_wf (st_put s m (upd (st_mod s m)))"
  using assms st_mod_wf[OF assms(1,2)] by (intro st_put_wf) (simp_all add: wf addr)

lemma state_object:
  assumes "st_wf s" "mi_valid m" "ok (st_mod s m)" "ari_valid b"
  shows "st_obj (st_put s m (upd (st_mod s m))) b gen =
    (if b = \<lparr>ari_Module = m, ari_Resource = a\<rparr>
     then (case f (st_ResourceInstance s b) of None \<Rightarrow> None | Some i \<Rightarrow> GetGeneration i gen) else st_obj s b gen)"
proof -
  note wf = st_mod_wf[OF assms(1,2)]
  have b: "mi_valid (ari_Module b)" "res_valid (ri_Resource (ari_Resource b))" using ari_valid_parts[OF assms(4)] by simp_all
  have "st_mod (st_put s m (upd (st_mod s m))) (ari_Module b) = (if ari_Module b = m then upd (st_mod s m) else st_mod s (ari_Module b))"
    using assms(2) b(1) wf by (simp add: st_mod_put addr)
  then show ?thesis
    using object_at[OF assms(3) _ b(2)] wf by (cases b) (auto simp: st_obj_mod st_ResourceInstance_mod)
qed

end

subsection \<open>Planned objects\<close>

definition unplanned :: "'m ResourceInstanceObjectSrc option \<Rightarrow> 'm ResourceInstanceObjectSrc option" where
  "unplanned x = (case x of None \<Rightarrow> None | Some ob \<Rightarrow> if planned ob then None else Some ob)"

lemma unplanned_simps [simp]: "unplanned None = None" "unplanned (unplanned x) = unplanned x"
  by (simp_all add: unplanned_def split: option.split)

definition unplans :: "(ResourceInstance \<Rightarrow> Generation \<Rightarrow> bool) \<Rightarrow> ('p, 'v, 'm) Module_state \<Rightarrow> ('p, 'v, 'm) Module_state \<Rightarrow> bool" where
  "unplans Q ms ms' \<longleftrightarrow> ms_wf ms' \<and> ms_Addr ms' = ms_Addr ms \<and> ms_OutputValues ms' = ms_OutputValues ms \<and>
     ms_LocalValues ms' = ms_LocalValues ms \<and>
     (\<forall>b gen. ri_ok b \<longrightarrow> ms_obj ms' b gen = (if Q b gen then unplanned (ms_obj ms b gen) else ms_obj ms b gen))"

lemma unplans_refl: "ms_wf ms \<Longrightarrow> (\<And>b gen. ri_ok b \<Longrightarrow> Q b gen \<Longrightarrow> unplanned (ms_obj ms b gen) = ms_obj ms b gen) \<Longrightarrow> unplans Q ms ms"
  by (simp add: unplans_def)

lemma unplans_trans: "unplans Q ms ms' \<Longrightarrow> unplans R ms' ms'' \<Longrightarrow> unplans (\<lambda>b gen. Q b gen \<or> R b gen) ms ms''"
  by (auto simp: unplans_def)

lemma unplans_weaken:
  "unplans Q ms ms' \<Longrightarrow> (\<And>b gen. ri_ok b \<Longrightarrow> ms_obj ms b gen \<noteq> None \<Longrightarrow> Q b gen = R b gen) \<Longrightarrow> unplans R ms ms'"
  unfolding unplans_def by (metis unplanned_simps(1))

lemma unplans_fold:
  assumes "\<And>ms x. ms_wf ms \<Longrightarrow> x \<in> set xs \<Longrightarrow> unplans (Q x) ms (F ms x)" "ms_wf ms"
  shows "unplans (\<lambda>b gen. \<exists>x \<in> set xs. Q x b gen) ms (foldl F ms xs)"
  using assms
proof (induction xs rule: rev_induct)
  case Nil
  then show ?case by (simp add: unplans_refl)
next
  case (snoc x xs)
  then have u: "unplans (\<lambda>b gen. \<exists>x \<in> set xs. Q x b gen) ms (foldl F ms xs)" by simp
  then have "ms_wf (foldl F ms xs)" by (simp add: unplans_def)
  then have "unplans (Q x) (foldl F ms xs) (F (foldl F ms xs) x)" by (rule snoc.prems(1)) simp
  from unplans_trans[OF u this] have "unplans (\<lambda>b gen. \<exists>x \<in> set (xs @ [x]). Q x b gen) ms (F (foldl F ms xs) x)"
    by (rule unplans_weaken) auto
  then show ?case by simp
qed

lemma get_keep_objects [simp]: "(case keep_objects i of None \<Rightarrow> None | Some i \<Rightarrow> GetGeneration i gen) = GetGeneration i gen"
  by (cases gen) (auto simp: keep_objects_def HasObjects_def)

lemma ms_obj_forget_deposed:
  assumes "ms_wf ms" "ri_ok a" "ri_ok b"
  shows "ms_obj (ms_ForgetResourceInstanceDeposed ms a dk) b gen = (if b = a \<and> gen = DeposedGen dk then None else ms_obj ms b gen)"
proof -
  have "res_valid (ri_Resource b)" using assms(3) by (simp add: ri_ok_def)
  note at = fgd.object_at[OF assms(2,1) this, of dk gen]
  show ?thesis unfolding at
    by (cases gen; cases "ms_ResourceInstance ms a") (auto simp: forget_deposed_def ms_obj_def gm.get_del)
qed

lemma ms_obj_clear_current:
  assumes "ms_wf ms" "ri_ok a" "ri_ok b"
  shows "ms_obj (ms_SetResourceInstanceCurrent ms a None p k) b gen = (if b = a \<and> gen = CurrentGen then None else ms_obj ms b gen)"
proof -
  have "res_valid (ri_Resource b)" using assms(3) by (simp add: ri_ok_def)
  note at = clr.object_at[OF assms(2,1) this, of p k gen]
  show ?thesis unfolding at
    by (cases gen; cases "ms_ResourceInstance ms a") (auto simp: clear_current_def ms_obj_def)
qed

lemma unplans_deposed:
  assumes "ms_wf ms" "ri_ok a"
  shows "unplans (\<lambda>b gen. b = a \<and> gen = DeposedGen dk) ms (remove_planned_deposed a ms dk)"
proof (cases "\<exists>i ob. ms_ResourceInstance ms a = Some i \<and> gmap_get (is_Deposed i) dk = Some ob \<and> planned ob")
  case True
  then obtain i ob where i: "ms_ResourceInstance ms a = Some i" "gmap_get (is_Deposed i) dk = Some ob" "planned ob" by blast
  then have "remove_planned_deposed a ms dk = ms_ForgetResourceInstanceDeposed ms a dk" by (simp add: remove_planned_deposed_def)
  moreover have "unplanned (ms_obj ms a (DeposedGen dk)) = None" using i by (simp add: ms_obj_def unplanned_def)
  ultimately show ?thesis
    using assms fgd.wf[OF assms(2,1)] fgd.addr fgd.outputs fgd.locals by (auto simp: unplans_def ms_obj_forget_deposed)
next
  case False
  then have "remove_planned_deposed a ms dk = ms" by (auto simp: remove_planned_deposed_def split: option.split)
  moreover have "unplanned (ms_obj ms a (DeposedGen dk)) = ms_obj ms a (DeposedGen dk)"
    using False by (auto simp: ms_obj_def unplanned_def split: option.split)
  ultimately show ?thesis using assms(1) by (auto intro!: unplans_refl)
qed

lemma unplans_instance:
  assumes "ms_wf ms" "ri_ok (res_Instance r ik)"
  shows "unplans (\<lambda>b gen. b = res_Instance r ik) ms (remove_planned_instance r ms ik)"
proof (cases "ms_ResourceInstance ms (res_Instance r ik)")
  case None
  then have "remove_planned_instance r ms ik = ms" by (simp add: remove_planned_instance_def Let_def split: option.split)
  with None assms(1) show ?thesis by (auto simp: ms_obj_def intro!: unplans_refl)
next
  case (Some i)
  let ?a = "res_Instance r ik"
  obtain rs where rs: "ms_Resource ms r = Some rs"
    using Some by (auto simp: ms_ResourceInstance_def res_Instance_def split: option.splits)
  define ms1 where "ms1 = (case is_Current i of None \<Rightarrow> ms
    | Some obj \<Rightarrow> if planned obj then ms_SetResourceInstanceCurrent ms ?a None (rs_ProviderConfig rs) NoKey else ms)"
  have 1: "unplans (\<lambda>b gen. b = ?a \<and> gen = CurrentGen) ms ms1"
  proof (cases "\<exists>ob. is_Current i = Some ob \<and> planned ob")
    case True
    then have "ms1 = ms_SetResourceInstanceCurrent ms ?a None (rs_ProviderConfig rs) NoKey" by (auto simp: ms1_def)
    moreover have "unplanned (ms_obj ms ?a CurrentGen) = None" using True Some by (auto simp: ms_obj_def unplanned_def)
    ultimately show ?thesis
      using assms clr.wf[OF assms(2,1)] clr.addr clr.outputs clr.locals by (auto simp: unplans_def ms_obj_clear_current)
  next
    case False
    then have "ms1 = ms" "unplanned (ms_obj ms ?a CurrentGen) = ms_obj ms ?a CurrentGen"
      using Some by (auto simp: ms1_def ms_obj_def unplanned_def split: option.split)
    with assms(1) show ?thesis by (auto intro!: unplans_refl)
  qed
  then have "ms_wf ms1" by (simp add: unplans_def)
  from unplans_trans[OF 1 unplans_fold[where F = "remove_planned_deposed ?a", OF unplans_deposed[OF _ assms(2)] this]]
  have "unplans (\<lambda>b gen. (b = ?a \<and> gen = CurrentGen) \<or> (\<exists>dk \<in> set (map fst (is_Deposed i)). b = ?a \<and> gen = DeposedGen dk)) ms
      (foldl (remove_planned_deposed ?a) ms1 (map fst (is_Deposed i)))" .
  moreover have "remove_planned_instance r ms ik = foldl (remove_planned_deposed ?a) ms1 (map fst (is_Deposed i))"
    using rs Some by (simp add: remove_planned_instance_def ms1_def Let_def)
  moreover have "gen = CurrentGen \<or> (\<exists>dk \<in> set (map fst (is_Deposed i)). gen = DeposedGen dk)" if "ms_obj ms ?a gen \<noteq> None" for gen
    using that Some by (cases gen) (force simp: ms_obj_def dest: map_of_SomeD)+
  ultimately show ?thesis by (auto elim!: unplans_weaken)
qed

lemma unplans_resource:
  assumes "ms_wf ms"
  shows "unplans (\<lambda>b gen. res_String (ri_Resource b) = rk) ms (remove_planned_resource ms rk)"
proof (cases "gmap_get (ms_Resources ms) rk")
  case None
  then have "ms_obj ms b gen = None" if "res_String (ri_Resource b) = rk" for b gen
    using that by (simp add: ms_obj_def ms_ResourceInstance_def ms_Resource_def)
  with None assms show ?thesis by (auto simp: remove_planned_resource_def intro!: unplans_refl)
next
  case (Some rs)
  let ?r = "ar_Resource (rs_Addr rs)"
  have "(rk, rs) \<in> set (ms_Resources ms)" using Some by (rule map_of_SomeD)
  then have rk: "rk = res_String ?r" "rs_wf (ms_Addr ms) ?r rs" using assms by (auto simp: ms_wf_def)
  then have r: "res_valid ?r" "insts_wf (rs_Instances rs)" by (simp_all add: rs_wf_def)
  have ok: "ri_ok (res_Instance ?r ik)" if "ik \<in> set (map fst (rs_Instances rs))" for ik
    using that r by (auto simp: ri_ok_def res_Instance_def insts_wf_def)
  have "unplans (\<lambda>b gen. \<exists>ik \<in> set (map fst (rs_Instances rs)). b = res_Instance ?r ik) ms
      (foldl (remove_planned_instance ?r) ms (map fst (rs_Instances rs)))"
    by (rule unplans_fold[OF unplans_instance assms]) (assumption, rule ok)
  moreover have "(\<exists>ik \<in> set (map fst (rs_Instances rs)). b = res_Instance ?r ik) \<longleftrightarrow> res_String (ri_Resource b) = rk"
    if "ri_ok b" "ms_obj ms b gen \<noteq> None" for b gen
  proof
    assume "res_String (ri_Resource b) = rk"
    then have b: "ri_Resource b = ?r" using rk(1) r(1) that(1) res_String_inj by (auto simp: ri_ok_def)
    have "ms_Resource ms ?r = Some rs" using Some rk(1) by (simp add: ms_Resource_def)
    with that(2) b obtain i where "gmap_get (rs_Instances rs) (ri_Key b) = Some i"
      by (auto simp: ms_obj_def ms_ResourceInstance_def rs_Instance_def split: option.splits)
    then have "ri_Key b \<in> set (map fst (rs_Instances rs))" by (force dest: map_of_SomeD)
    moreover have "b = res_Instance ?r (ri_Key b)" using b by (cases b) (simp add: res_Instance_def)
    ultimately show "\<exists>ik \<in> set (map fst (rs_Instances rs)). b = res_Instance ?r ik" by blast
  qed (auto simp: rk(1) res_Instance_def)
  ultimately have "unplans (\<lambda>b gen. res_String (ri_Resource b) = rk) ms
      (foldl (remove_planned_instance ?r) ms (map fst (rs_Instances rs)))"
    by (rule unplans_weaken)
  with Some show ?thesis by (simp add: remove_planned_resource_def)
qed

lemma unplans_module:
  assumes "ms_wf ms"
  shows "unplans (\<lambda>_ _. True) ms (remove_planned_module ms)"
proof -
  have "unplans (\<lambda>b gen. \<exists>rk \<in> set (map fst (ms_Resources ms)). res_String (ri_Resource b) = rk) ms (remove_planned_module ms)"
    unfolding remove_planned_module_def by (rule unplans_fold[OF unplans_resource assms])
  then show ?thesis
  proof (rule unplans_weaken)
    fix b gen assume "ms_obj ms b gen \<noteq> None"
    then obtain rs where "gmap_get (ms_Resources ms) (res_String (ri_Resource b)) = Some rs"
      by (auto simp: ms_obj_def ms_ResourceInstance_def ms_Resource_def split: option.splits)
    then show "(\<exists>rk \<in> set (map fst (ms_Resources ms)). res_String (ri_Resource b) = rk) = True"
      by (force dest: map_of_SomeD)
  qed
qed

lemma remove_planned_module_New [simp]: "remove_planned_module (NewModule m) = NewModule m"
  by (simp add: remove_planned_module_def)

lemma remove_planned_step:
  assumes "st_wf s" "mi_valid m"
  shows "(case gmap_get (st_Modules s) (mi_String m) of None \<Rightarrow> s
      | Some ms \<Rightarrow> maybePruneModule (s\<lparr>st_Modules := gmap_put (mi_String m) (remove_planned_module ms) (st_Modules s)\<rparr>) (ms_Addr ms))
    = st_put s m (remove_planned_module (st_mod s m))"
proof (cases "st_Module s m")
  case None
  with st_put_same[OF assms] show ?thesis by (simp add: st_mod_def st_Module_def)
next
  case (Some ms)
  then show ?thesis
    using st_Module_wf(2)[OF assms Some] by (simp add: st_mod_def st_put_def st_write_def st_Module_def)
qed

end
