(* ===== verification/State_Refine.thy ===== *)
theory State_Refine
  imports State_Sync
begin

text \<open>
  The contract of the state: a store of objects by instance address and generation, of output
  values and of local values.  Every writing method of \<^verbatim>\<open>SyncState\<close> is the plain update of such a
  store that its documentation describes, and keeps the state well formed.
\<close>

section \<open>The abstract store\<close>

record ('v, 'm) store =
  so_obj :: "AbsResourceInstance \<Rightarrow> Generation \<Rightarrow> 'm ResourceInstanceObjectSrc option"
  so_out :: "AbsOutputValue \<Rightarrow> 'v OutputValue_state option"
  so_loc :: "AbsLocalValue \<Rightarrow> 'v option"

definition empty_store :: "('v, 'm) store" where
  "empty_store = \<lparr>so_obj = (\<lambda>_ _. None), so_out = (\<lambda>_. None), so_loc = (\<lambda>_. None)\<rparr>"

definition stores :: "('p, 'v, 'm, 'c) State \<Rightarrow> ('v, 'm) store \<Rightarrow> bool" where
  "stores s A \<longleftrightarrow> st_wf s \<and>
     (\<forall>a gen. ari_valid a \<longrightarrow> st_obj s a gen = so_obj A a gen) \<and>
     (\<forall>ov. mi_valid (aov_Module ov) \<longrightarrow> st_OutputValue s ov = so_out A ov) \<and>
     (\<forall>lv. mi_valid (alv_Module lv) \<longrightarrow> st_LocalValue s lv = so_loc A lv)"

lemma st_values_mod:
  "st_OutputValue s ov = gmap_get (ms_OutputValues (st_mod s (aov_Module ov))) (aov_Name ov)"
  "st_LocalValue s lv = gmap_get (ms_LocalValues (st_mod s (alv_Module lv))) (alv_Name lv)"
  by (simp_all add: st_OutputValue_def st_LocalValue_def st_mod_def split: option.split)

lemma stores_put:
  assumes "stores s A" "mi_valid m" "ms_wf ms" "ms_Addr ms = m"
    and "\<And>a gen. ari_valid a \<Longrightarrow> so_obj B a gen = (if ari_Module a = m then ms_obj ms (ari_Resource a) gen else so_obj A a gen)"
    and "\<And>ov. mi_valid (aov_Module ov) \<Longrightarrow>
      so_out B ov = (if aov_Module ov = m then gmap_get (ms_OutputValues ms) (aov_Name ov) else so_out A ov)"
    and "\<And>lv. mi_valid (alv_Module lv) \<Longrightarrow>
      so_loc B lv = (if alv_Module lv = m then gmap_get (ms_LocalValues ms) (alv_Name lv) else so_loc A lv)"
  shows "stores (st_put s m ms) B"
proof -
  have wf: "st_wf s" using assms(1) by (simp add: stores_def)
  have mods: "mi_valid m' \<Longrightarrow> st_mod (st_put s m ms) m' = (if m' = m then ms else st_mod s m')" for m'
    using st_mod_put[OF assms(2) _ assms(4)] .
  show ?thesis
    using st_put_wf[OF wf assms(2-4)] assms(1,5-7) ari_valid_parts
    by (simp add: stores_def st_obj_mod st_values_mod mods)
qed

text \<open>The module behind a store.\<close>

lemma stores_module:
  assumes "stores s A" "mi_valid m"
  shows "ms_wf (st_mod s m)" "ms_Addr (st_mod s m) = m"
    and "ari_valid a \<Longrightarrow> ari_Module a = m \<Longrightarrow> ms_obj (st_mod s m) (ari_Resource a) gen = so_obj A a gen"
    and "aov_Module ov = m \<Longrightarrow> gmap_get (ms_OutputValues (st_mod s m)) (aov_Name ov) = so_out A ov"
    and "alv_Module lv = m \<Longrightarrow> gmap_get (ms_LocalValues (st_mod s m)) (alv_Name lv) = so_loc A lv"
  using st_mod_wf[of s m] assms by (auto simp: stores_def st_obj_mod st_values_mod)

text \<open>Updating only the objects of a module.\<close>

lemma stores_put_objects:
  assumes "stores s A" "mi_valid m" "ms_wf ms" "ms_Addr ms = m"
    and "ms_OutputValues ms = ms_OutputValues (st_mod s m)" "ms_LocalValues ms = ms_LocalValues (st_mod s m)"
    and "\<And>a gen. ari_valid a \<Longrightarrow> ari_Module a = m \<Longrightarrow> ms_obj ms (ari_Resource a) gen = F a gen"
    and "\<And>a gen. ari_valid a \<Longrightarrow> ari_Module a \<noteq> m \<Longrightarrow> F a gen = so_obj A a gen"
  shows "stores (st_put s m ms) (A\<lparr>so_obj := F\<rparr>)"
  using assms stores_module[OF assms(1,2)] by (intro stores_put) auto

context instance_update
begin

lemma refines:
  assumes "stores s A" "mi_valid m" "ok (st_mod s m)"
    and "\<And>gen. (case f (st_ResourceInstance s \<lparr>ari_Module = m, ari_Resource = a\<rparr>) of None \<Rightarrow> None | Some i \<Rightarrow> GetGeneration i gen) =
      G gen"
  shows "stores (st_put s m (upd (st_mod s m))) (A\<lparr>so_obj := (so_obj A)(\<lparr>ari_Module = m, ari_Resource = a\<rparr> := G)\<rparr>)"
proof (rule stores_put_objects[OF assms(1,2)])
  note md = stores_module[OF assms(1,2)]
  show "ms_wf (upd (st_mod s m))" "ms_Addr (upd (st_mod s m)) = m" using md assms(3) by (simp_all add: wf addr)
  show "ms_OutputValues (upd (st_mod s m)) = ms_OutputValues (st_mod s m)" by (rule outputs)
  show "ms_LocalValues (upd (st_mod s m)) = ms_LocalValues (st_mod s m)" by (rule locals)
  show "ms_obj (upd (st_mod s m)) (ari_Resource b) gen = ((so_obj A)(\<lparr>ari_Module = m, ari_Resource = a\<rparr> := G)) b gen"
    if b: "ari_valid b" "ari_Module b = m" for b gen
  proof -
    have "b = \<lparr>ari_Module = m, ari_Resource = a\<rparr> \<longleftrightarrow> ari_Resource b = a" using b(2) by (cases b) auto
    then show ?thesis
      using object_at[OF assms(3) md(1), of "ari_Resource b" gen] md(3)[OF b] ari_valid_parts[OF b(1)] assms(4)[of gen]
      by (auto simp: st_ResourceInstance_mod)
  qed
qed auto

end

section \<open>Methods and their specification\<close>

datatype ('p, 'v, 'm) sync_op =
    OpSetOutput AbsOutputValue 'v bool string
  | OpRemoveOutput AbsOutputValue
  | OpSetLocal AbsLocalValue 'v
  | OpRemoveLocal AbsLocalValue
  | OpSetProvider AbsResource "'p AbsProviderConfig"
  | OpSetInstance AbsResourceInstance "'m ResourceInstance_state option" "'p AbsProviderConfig"
  | OpRemoveResource AbsResource
  | OpRemoveResourceIfEmpty AbsResource
  | OpSetCurrent AbsResourceInstance "'m ResourceInstanceObjectSrc option" "'p AbsProviderConfig" InstanceKey
  | OpSetDeposed AbsResourceInstance DeposedKey "'m ResourceInstanceObjectSrc option" "'p AbsProviderConfig" InstanceKey
  | OpDeposeForceKey AbsResourceInstance DeposedKey
  | OpForgetAll AbsResourceInstance
  | OpForgetDeposed AbsResourceInstance DeposedKey
  | OpMaybeRestore AbsResourceInstance DeposedKey
  | OpRemovePlanned
  | OpDiscardCheckResults
  | OpRemoveModule ModuleInstance
  | OpMoveResource AbsResource AbsResource
  | OpMoveInstance AbsResourceInstance AbsResourceInstance
  | OpMoveModule ModuleInstance ModuleInstance

fun sync_step :: "('p, 'v, 'm) sync_op \<Rightarrow> ('p, 'v, 'm, 'c) State \<Rightarrow> ('p, 'v, 'm, 'c) State option" where
  "sync_step (OpSetOutput ov v sens depr) s = Some (sync_SetOutputValue s ov v sens depr)"
| "sync_step (OpRemoveOutput ov) s = Some (sync_RemoveOutputValue s ov)"
| "sync_step (OpSetLocal lv v) s = Some (sync_SetLocalValue s lv v)"
| "sync_step (OpRemoveLocal lv) s = Some (sync_RemoveLocalValue s lv)"
| "sync_step (OpSetProvider r p) s = Some (sync_SetResourceProvider s r p)"
| "sync_step (OpSetInstance a i p) s = Some (sync_SetResourceInstance s a i p)"
| "sync_step (OpRemoveResource r) s = Some (sync_RemoveResource s r)"
| "sync_step (OpRemoveResourceIfEmpty r) s = Some (snd (sync_RemoveResourceIfEmpty s r))"
| "sync_step (OpSetCurrent a ob p k) s = Some (sync_SetResourceInstanceCurrent s a ob p k)"
| "sync_step (OpSetDeposed a key ob p k) s = Some (sync_SetResourceInstanceDeposed s a key ob p k)"
| "sync_step (OpDeposeForceKey a key) s = sync_DeposeResourceInstanceObjectForceKey (\<lambda>_. 0) s a key"
| "sync_step (OpForgetAll a) s = Some (sync_ForgetResourceInstanceAll s a)"
| "sync_step (OpForgetDeposed a key) s = Some (sync_ForgetResourceInstanceDeposed s a key)"
| "sync_step (OpMaybeRestore a key) s = map_option snd (sync_MaybeRestoreResourceInstanceDeposed s a key)"
| "sync_step OpRemovePlanned s = Some (sync_RemovePlannedResourceInstanceObjects s)"
| "sync_step OpDiscardCheckResults s = Some (sync_DiscardCheckResults s)"
| "sync_step (OpRemoveModule m) s = sync_RemoveModule s m"
| "sync_step (OpMoveResource src dst) s = sync_MoveAbsResource s src dst"
| "sync_step (OpMoveInstance src dst) s = sync_MoveResourceInstance s src dst"
| "sync_step (OpMoveModule src dst) s = sync_MoveModuleInstance s src dst"

fun sync_run :: "('p, 'v, 'm) sync_op list \<Rightarrow> ('p, 'v, 'm, 'c) State \<Rightarrow> ('p, 'v, 'm, 'c) State option" where
  "sync_run [] s = Some s"
| "sync_run (op # ops) s = (case sync_step op s of None \<Rightarrow> None | Some s' \<Rightarrow> sync_run ops s')"

text \<open>What each method does to the store.\<close>

definition move_key :: "ModuleInstance \<Rightarrow> ModuleInstance \<Rightarrow> ModuleInstance \<Rightarrow> ModuleInstance option" where
  "move_key src dst m = (if m = dst then Some src else if m = src then None else Some m)"

fun spec_step :: "('p, 'v, 'm) sync_op \<Rightarrow> ('v, 'm) store \<Rightarrow> ('v, 'm) store" where
  "spec_step (OpSetOutput ov v sens depr) A =
     A\<lparr>so_out := (so_out A)(ov \<mapsto> \<lparr>ov_Addr = ov, ov_Value = v, ov_Sensitive = sens, ov_Deprecated = depr\<rparr>)\<rparr>"
| "spec_step (OpRemoveOutput ov) A = A\<lparr>so_out := (so_out A)(ov := None)\<rparr>"
| "spec_step (OpSetLocal lv v) A = A\<lparr>so_loc := (so_loc A)(lv \<mapsto> v)\<rparr>"
| "spec_step (OpRemoveLocal lv) A = A\<lparr>so_loc := (so_loc A)(lv := None)\<rparr>"
| "spec_step (OpSetProvider r p) A = A"
| "spec_step (OpSetInstance a i p) A =
     A\<lparr>so_obj := (so_obj A)(a := \<lambda>gen. case i of None \<Rightarrow> None | Some i \<Rightarrow> GetGeneration i gen)\<rparr>"
| "spec_step (OpRemoveResource r) A =
     A\<lparr>so_obj := \<lambda>a gen. if ari_ContainingResource a = r then None else so_obj A a gen\<rparr>"
| "spec_step (OpRemoveResourceIfEmpty r) A = A"
| "spec_step (OpSetCurrent a ob p k) A = A\<lparr>so_obj := (so_obj A)(a := (so_obj A a)(CurrentGen := ob))\<rparr>"
| "spec_step (OpSetDeposed a key ob p k) A = A\<lparr>so_obj := (so_obj A)(a := (so_obj A a)(DeposedGen key := ob))\<rparr>"
| "spec_step (OpDeposeForceKey a key) A =
     (if so_obj A a CurrentGen = None then A
      else A\<lparr>so_obj := (so_obj A)(a := (so_obj A a)(CurrentGen := None, DeposedGen key := so_obj A a CurrentGen))\<rparr>)"
| "spec_step (OpForgetAll a) A = A\<lparr>so_obj := (so_obj A)(a := \<lambda>_. None)\<rparr>"
| "spec_step (OpForgetDeposed a key) A = A\<lparr>so_obj := (so_obj A)(a := (so_obj A a)(DeposedGen key := None))\<rparr>"
| "spec_step (OpMaybeRestore a key) A =
     (if so_obj A a CurrentGen \<noteq> None then A
      else A\<lparr>so_obj := (so_obj A)(a := (so_obj A a)(CurrentGen := so_obj A a (DeposedGen key), DeposedGen key := None))\<rparr>)"
| "spec_step OpRemovePlanned A = A\<lparr>so_obj := \<lambda>a gen. unplanned (so_obj A a gen)\<rparr>"
| "spec_step OpDiscardCheckResults A = A"
| "spec_step (OpRemoveModule m) A =
     \<lparr>so_obj = \<lambda>a gen. if ari_Module a = m then None else so_obj A a gen,
      so_out = \<lambda>ov. if aov_Module ov = m then None else so_out A ov,
      so_loc = \<lambda>lv. if alv_Module lv = m then None else so_loc A lv\<rparr>"
| "spec_step (OpMoveResource src dst) A =
     A\<lparr>so_obj := \<lambda>a gen.
        if ari_ContainingResource a = dst then so_obj A (ar_Instance src (ri_Key (ari_Resource a))) gen
        else if ari_ContainingResource a = src then None else so_obj A a gen\<rparr>"
| "spec_step (OpMoveInstance src dst) A =
     A\<lparr>so_obj := (so_obj A)(src := \<lambda>_. None, dst := so_obj A src)\<rparr>"
| "spec_step (OpMoveModule src dst) A =
     \<lparr>so_obj = \<lambda>a gen. case move_key src dst (ari_Module a) of None \<Rightarrow> None | Some m \<Rightarrow> so_obj A (a\<lparr>ari_Module := m\<rparr>) gen,
      so_out = \<lambda>ov. case move_key src dst (aov_Module ov) of None \<Rightarrow> None
        | Some m \<Rightarrow> if m = src then map_option (\<lambda>v. v\<lparr>ov_Addr := ov\<rparr>) (so_out A (ov\<lparr>aov_Module := m\<rparr>)) else so_out A (ov\<lparr>aov_Module := m\<rparr>),
      so_loc = \<lambda>lv. case move_key src dst (alv_Module lv) of None \<Rightarrow> None | Some m \<Rightarrow> so_loc A (lv\<lparr>alv_Module := m\<rparr>)\<rparr>"

text \<open>
  What the methods ask of their arguments: valid addresses of real objects, and instances that
  hold an object.
\<close>

definition obj_arg :: "'m ResourceInstanceObjectSrc option \<Rightarrow> bool" where
  "obj_arg x \<longleftrightarrow> (\<forall>ob. x = Some ob \<longrightarrow> os_maps_ok ob)"

fun op_ok :: "('p, 'v, 'm) sync_op \<Rightarrow> bool" where
  "op_ok (OpSetOutput ov v sens depr) = mi_valid (aov_Module ov)"
| "op_ok (OpRemoveOutput ov) = mi_valid (aov_Module ov)"
| "op_ok (OpSetLocal lv v) = mi_valid (alv_Module lv)"
| "op_ok (OpRemoveLocal lv) = mi_valid (alv_Module lv)"
| "op_ok (OpSetProvider r p) = ar_valid r"
| "op_ok (OpSetInstance a i p) = (ari_valid a \<and> (\<forall>x. i = Some x \<longrightarrow> is_wf x))"
| "op_ok (OpRemoveResource r) = ar_valid r"
| "op_ok (OpRemoveResourceIfEmpty r) = ar_valid r"
| "op_ok (OpSetCurrent a ob p k) = (ari_valid a \<and> obj_arg ob)"
| "op_ok (OpSetDeposed a key ob p k) = (ari_valid a \<and> obj_arg ob)"
| "op_ok (OpDeposeForceKey a key) = ari_valid a"
| "op_ok (OpForgetAll a) = ari_valid a"
| "op_ok (OpForgetDeposed a key) = ari_valid a"
| "op_ok (OpMaybeRestore a key) = ari_valid a"
| "op_ok OpRemovePlanned = True"
| "op_ok OpDiscardCheckResults = True"
| "op_ok (OpRemoveModule m) = mi_valid m"
| "op_ok (OpMoveResource src dst) = (ar_valid src \<and> ar_valid dst)"
| "op_ok (OpMoveInstance src dst) = (ari_valid src \<and> ari_valid dst)"
| "op_ok (OpMoveModule src dst) = (mi_valid src \<and> mi_valid dst)"

section \<open>Refinement\<close>

lemma ari_eta: "\<lparr>ari_Module = ari_Module a, ari_Resource = ari_Resource a\<rparr> = (a :: AbsResourceInstance)"
  by simp

lemma stores_obj: "stores s A \<Longrightarrow> ari_valid a \<Longrightarrow> so_obj A a gen = (case st_ResourceInstance s a of None \<Rightarrow> None | Some i \<Rightarrow> GetGeneration i gen)"
  by (simp add: stores_def st_obj_def)

lemma get_or_new: "GetGeneration (or_new x) gen = (case x of None \<Rightarrow> None | Some i \<Rightarrow> GetGeneration i gen)"
  by (cases gen) (auto simp: or_new_def NewResourceInstance_def split: option.split)

lemma obj_arg_copy: "obj_arg x \<Longrightarrow> os_DeepCopy x = x"
  by (cases x) (simp_all add: obj_arg_def os_DeepCopy_id, simp add: os_DeepCopy_def)

lemma get_updates [simp]:
  "GetGeneration (i\<lparr>is_ProviderKey := k\<rparr>) gen = GetGeneration i gen"
  "GetGeneration (i\<lparr>is_Current := c\<rparr>) gen = (if gen = CurrentGen then c else GetGeneration i gen)"
  by (cases gen; simp)+

lemma get_deposed_put:
  "GetGeneration (i\<lparr>is_Deposed := gmap_put key ob (is_Deposed i)\<rparr>) gen = (if gen = DeposedGen key then Some ob else GetGeneration i gen)"
  by (cases gen) (auto simp: gm.get_put)

lemma get_deposed_del:
  "GetGeneration (i\<lparr>is_Deposed := gmap_del key (is_Deposed i)\<rparr>) gen = (if gen = DeposedGen key then None else GetGeneration i gen)"
  by (cases gen) (auto simp: gm.get_del)

lemma refine_SetCurrent:
  assumes "stores s A" "ari_valid a" "obj_arg x"
  shows "stores (sync_SetResourceInstanceCurrent s a x p k) (spec_step (OpSetCurrent a x p k) A)"
proof -
  note v = ari_valid_parts[OF assms(2)]
  let ?G = "(so_obj A a)(CurrentGen := x)"
  have eq: "sync_SetResourceInstanceCurrent s a x p k =
      st_put s (ari_Module a) (ms_SetResourceInstanceCurrent (st_mod s (ari_Module a)) (ari_Resource a) x p k)"
    by (simp add: sync_put obj_arg_copy[OF assms(3)])
  show ?thesis
  proof (cases x)
    case None
    have "(case clear_current (st_ResourceInstance s a) of None \<Rightarrow> None | Some i \<Rightarrow> GetGeneration i gen) = ?G gen" for gen
      using stores_obj[OF assms(1,2)] None by (cases "st_ResourceInstance s a") (auto simp: clear_current_def)
    with clr.refines[OF assms(1), of "ari_Module a" "ari_Resource a" ?G p k] v None show ?thesis by (simp add: eq[unfolded None] ari_eta)
  next
    case (Some ob)
    have "(case set_current ob k (st_ResourceInstance s a) of None \<Rightarrow> None | Some i \<Rightarrow> GetGeneration i gen) = ?G gen" for gen
      using stores_obj[OF assms(1,2)] Some by (simp add: set_current_def get_or_new)
    with cur.refines[OF assms(1), of "ari_Module a" "ari_Resource a" ob k ?G p] v Some assms(3) show ?thesis
      by (simp add: eq[unfolded Some] ari_eta obj_arg_def)
  qed
qed

lemma refine_SetDeposed:
  assumes "stores s A" "ari_valid a" "obj_arg x"
  shows "stores (sync_SetResourceInstanceDeposed s a key x p k) (spec_step (OpSetDeposed a key x p k) A)"
proof -
  note v = ari_valid_parts[OF assms(2)]
  let ?i = "\<lambda>y. (or_new y)\<lparr>is_ProviderKey := k\<rparr>"
  have G: "(case put_deposed key x k (st_ResourceInstance s a) of None \<Rightarrow> None | Some i \<Rightarrow> GetGeneration i gen) =
      ((so_obj A a)(DeposedGen key := x)) gen" for gen
    using stores_obj[OF assms(1,2)] get_deposed_put[where i = "?i (st_ResourceInstance s a)" and key = key and gen = gen]
      get_deposed_del[where i = "?i (st_ResourceInstance s a)" and key = key and gen = gen]
    by (cases x) (simp_all add: put_deposed_def get_or_new)
  show ?thesis
    using dep.refines[OF assms(1), of "ari_Module a" "ari_Resource a" x key k _ p] v G assms(3)
    by (simp add: sync_put obj_arg_copy[OF assms(3)] ari_eta obj_arg_def)
qed

lemma refine_SetInstance:
  assumes "stores s A" "ari_valid a" "\<And>i. x = Some i \<Longrightarrow> is_wf i"
  shows "stores (sync_SetResourceInstance s a x p) (spec_step (OpSetInstance a x p) A)"
proof -
  note v = ari_valid_parts[OF assms(2)]
  have "is_DeepCopy x = x" using assms(3) by (cases x) (auto simp: is_wf_def is_DeepCopy_id, simp add: is_DeepCopy_def)
  with ins.refines[OF assms(1), of "ari_Module a" "ari_Resource a" x _ p] v assms(3) show ?thesis
    by (simp add: sync_put ari_eta)
qed

lemma refine_ForgetAll:
  assumes "stores s A" "ari_valid a"
  shows "stores (sync_ForgetResourceInstanceAll s a) (spec_step (OpForgetAll a) A)"
proof -
  note v = ari_valid_parts[OF assms(2)]
  have "st_wf s" using assms(1) by (simp add: stores_def)
  then show ?thesis
    using fga.refines[OF assms(1), of "ari_Module a" "ari_Resource a" "\<lambda>_. None"] v by (simp add: sync_put_lookup ari_eta)
qed

lemma refine_ForgetDeposed:
  assumes "stores s A" "ari_valid a"
  shows "stores (sync_ForgetResourceInstanceDeposed s a key) (spec_step (OpForgetDeposed a key) A)"
proof -
  note v = ari_valid_parts[OF assms(2)]
  have wf: "st_wf s" using assms(1) by (simp add: stores_def)
  have G: "(case forget_deposed key (st_ResourceInstance s a) of None \<Rightarrow> None | Some i \<Rightarrow> GetGeneration i gen) =
      ((so_obj A a)(DeposedGen key := None)) gen" for gen
    using stores_obj[OF assms] by (cases "st_ResourceInstance s a") (auto simp: forget_deposed_def get_deposed_del)
  show ?thesis
    using fgd.refines[OF assms(1), of "ari_Module a" "ari_Resource a" key] v G by (simp add: sync_put_lookup[OF wf] ari_eta)
qed

lemma get_depose:
  assumes "deposeCurrentObject rand i forceKey = Some (key, i')"
  shows "GetGeneration i' gen =
    (if is_Current i = None then GetGeneration i gen
     else if gen = DeposedGen key then is_Current i else if gen = CurrentGen then None else GetGeneration i gen)"
  using deposeCurrentObject_cases[OF assms]
proof (elim disjE exE conjE)
  fix cur assume c: "is_Current i = Some cur" "i' = i\<lparr>is_Deposed := gmap_put key cur (is_Deposed i), is_Current := None\<rparr>"
  then show ?thesis
    using get_deposed_put[where i = i and key = key and ob = cur and gen = gen]
      get_updates(2)[where i = "i\<lparr>is_Deposed := gmap_put key cur (is_Deposed i)\<rparr>" and c = None and gen = gen] by auto
qed simp

lemma refine_depose:
  assumes "stores s A" "ari_valid a" "sync_depose rand s a forceKey = Some (key, s')"
  shows "stores s' (if so_obj A a CurrentGen = None then A
    else A\<lparr>so_obj := (so_obj A)(a := (so_obj A a)(CurrentGen := None, DeposedGen key := so_obj A a CurrentGen))\<rparr>)"
    and "so_obj A a CurrentGen \<noteq> None \<Longrightarrow>
      so_obj A a (DeposedGen key) = None \<and> (forceKey \<noteq> NotDeposed \<longrightarrow> key = forceKey)"
proof -
  note v = ari_valid_parts[OF assms(2)]
  let ?m = "st_mod s (ari_Module a)"
  have wf: "st_wf s" using assms(1) by (simp add: stores_def)
  obtain ms' where ms': "ms_deposeResourceInstanceObject rand ?m (ari_Resource a) forceKey = Some (key, ms')"
      "s' = st_put s (ari_Module a) ms'"
    using assms(3) v by (auto simp: sync_depose_put[OF wf] split: option.splits)
  then have s': "s' = st_put s (ari_Module a) (ms_depose rand forceKey (ari_Resource a) ?m)" by (simp add: ms_depose_def)
  have inst: "(st_ResourceInstance s a = None \<and> key = NotDeposed) \<or>
      (\<exists>i i'. st_ResourceInstance s a = Some i \<and> deposeCurrentObject rand i forceKey = Some (key, i'))"
    using ms'(1) by (auto simp: ms_deposeResourceInstanceObject_def st_ResourceInstance_mod split: option.splits prod.splits)
  let ?G = "\<lambda>gen. if so_obj A a CurrentGen = None then so_obj A a gen
      else ((so_obj A a)(CurrentGen := None, DeposedGen key := so_obj A a CurrentGen)) gen"
  have "(case depose_instance rand forceKey (st_ResourceInstance s a) of None \<Rightarrow> None | Some i \<Rightarrow> GetGeneration i gen) = ?G gen" for gen
    using inst
  proof (elim disjE exE conjE)
    fix i i' assume i: "st_ResourceInstance s a = Some i" "deposeCurrentObject rand i forceKey = Some (key, i')"
    then show ?thesis
      using get_depose[OF i(2), of gen] stores_obj[OF assms(1,2)] by (simp add: depose_instance_def)
  qed (use stores_obj[OF assms(1,2)] in \<open>simp add: depose_instance_def\<close>)
  then have "stores s' (A\<lparr>so_obj := (so_obj A)(a := ?G)\<rparr>)"
    using dps.refines[OF assms(1), of "ari_Module a" "ari_Resource a" rand forceKey ?G] v by (simp add: s' ari_eta)
  moreover have "(A\<lparr>so_obj := (so_obj A)(a := ?G)\<rparr>) = (if so_obj A a CurrentGen = None then A
    else A\<lparr>so_obj := (so_obj A)(a := (so_obj A a)(CurrentGen := None, DeposedGen key := so_obj A a CurrentGen))\<rparr>)"
    by (cases "so_obj A a CurrentGen"; rule store.equality) (auto simp: fun_eq_iff)
  ultimately show "stores s' (if so_obj A a CurrentGen = None then A
    else A\<lparr>so_obj := (so_obj A)(a := (so_obj A a)(CurrentGen := None, DeposedGen key := so_obj A a CurrentGen))\<rparr>)" by simp
  show "so_obj A a CurrentGen \<noteq> None \<Longrightarrow>
      so_obj A a (DeposedGen key) = None \<and> (forceKey \<noteq> NotDeposed \<longrightarrow> key = forceKey)"
    using inst stores_obj[OF assms(1,2)] by (auto dest: deposeCurrentObject_cases)
qed

lemma refine_restore:
  assumes "stores s A" "ari_valid a" "sync_MaybeRestoreResourceInstanceDeposed s a key = Some (r, s')"
  shows "stores s' (spec_step (OpMaybeRestore a key) A)"
proof -
  note v = ari_valid_parts[OF assms(2)]
  let ?m = "st_mod s (ari_Module a)"
  have wf: "st_wf s" using assms(1) by (simp add: stores_def)
  have key: "key \<noteq> NotDeposed" using assms(3) by (auto simp: sync_MaybeRestoreResourceInstanceDeposed_def)
  have s': "s' = st_put s (ari_Module a) (snd (ms_maybeRestoreResourceInstanceDeposed ?m (ari_Resource a) key))"
    using assms(3) sync_restore_put[OF wf _ key, of a] v by (simp add: Let_def)
  let ?G = "\<lambda>gen. if so_obj A a CurrentGen \<noteq> None then so_obj A a gen
      else ((so_obj A a)(CurrentGen := so_obj A a (DeposedGen key), DeposedGen key := None)) gen"
  have get: "GetGeneration (i\<lparr>is_Current := c, is_Deposed := gmap_del key (is_Deposed i)\<rparr>) gen =
      (if gen = CurrentGen then c else if gen = DeposedGen key then None else GetGeneration i gen)" for c gen
    and i :: "'c ResourceInstance_state"
    by (cases gen) (auto simp: gm.get_del)
  have nodep: "is_Current i = None \<Longrightarrow> is_Deposed i = [] \<Longrightarrow> GetGeneration i gen = None" for gen and i :: "'c ResourceInstance_state"
    by (cases gen) auto
  have "(case restore_deposed key (st_ResourceInstance s a) of None \<Rightarrow> None | Some i \<Rightarrow> GetGeneration i gen) = ?G gen" for gen
    using stores_obj[OF assms(1,2)]
    by (cases "st_ResourceInstance s a") (auto simp: restore_deposed_def get nodep gm.get_del)
  then have "stores s' (A\<lparr>so_obj := (so_obj A)(a := ?G)\<rparr>)"
    using rst.refines[OF assms(1), of "ari_Module a" "ari_Resource a" key ?G] v by (simp add: s' ari_eta)
  moreover have "A\<lparr>so_obj := (so_obj A)(a := ?G)\<rparr> = spec_step (OpMaybeRestore a key) A"
    by (cases "so_obj A a CurrentGen"; rule store.equality) (auto simp: fun_eq_iff)
  ultimately show ?thesis by simp
qed

subsection \<open>Values\<close>

lemma ms_values_wf:
  "ms_wf ms \<Longrightarrow> ms_wf (ms_SetOutputValue ms n v sens depr)" "ms_wf ms \<Longrightarrow> ms_wf (ms_RemoveOutputValue ms n)"
  "ms_wf ms \<Longrightarrow> ms_wf (ms_SetLocalValue ms n v)" "ms_wf ms \<Longrightarrow> ms_wf (ms_RemoveLocalValue ms n)"
proof -
  assume wf: "ms_wf ms"
  show "ms_wf (ms_SetOutputValue ms n v sens depr)"
    using wf set_update_subset[of n "\<lparr>ov_Addr = \<lparr>aov_Module = ms_Addr ms, aov_Name = n\<rparr>, ov_Value = v, ov_Sensitive = sens, ov_Deprecated = depr\<rparr>" "ms_OutputValues ms"]
    by (auto simp: ms_wf_def ms_SetOutputValue_def gm.ok_put)
  show "ms_wf (ms_RemoveOutputValue ms n)"
    using wf set_delete_subset[of n "ms_OutputValues ms"] by (auto simp: ms_wf_def ms_RemoveOutputValue_def gm.ok_del)
  show "ms_wf (ms_SetLocalValue ms n v)" "ms_wf (ms_RemoveLocalValue ms n)"
    using wf by (auto simp: ms_wf_def ms_SetLocalValue_def ms_RemoveLocalValue_def gm.ok_put gm.ok_del)
qed

lemma ms_values_obj:
  "ms_obj (ms_SetOutputValue ms n v sens depr) = ms_obj ms" "ms_obj (ms_RemoveOutputValue ms n) = ms_obj ms"
  "ms_obj (ms_SetLocalValue ms n v) = ms_obj ms" "ms_obj (ms_RemoveLocalValue ms n) = ms_obj ms"
  by (simp_all add: fun_eq_iff ms_obj_def ms_ResourceInstance_def ms_Resource_def ms_SetOutputValue_def
      ms_RemoveOutputValue_def ms_SetLocalValue_def ms_RemoveLocalValue_def)

lemma refine_values:
  assumes "stores s A"
  shows "mi_valid (aov_Module ov) \<Longrightarrow> stores (sync_SetOutputValue s ov v sens depr) (spec_step (OpSetOutput ov v sens depr) A)"
    and "mi_valid (aov_Module ov) \<Longrightarrow> stores (sync_RemoveOutputValue s ov) (spec_step (OpRemoveOutput ov) A)"
    and "mi_valid (alv_Module lv) \<Longrightarrow> stores (sync_SetLocalValue s lv v) (spec_step (OpSetLocal lv v) A)"
    and "mi_valid (alv_Module lv) \<Longrightarrow> stores (sync_RemoveLocalValue s lv) (spec_step (OpRemoveLocal lv) A)"
proof -
  have wf: "st_wf s" using assms by (simp add: stores_def)
  have name: "aov_Module x = aov_Module y \<Longrightarrow> aov_Name x = aov_Name y \<longleftrightarrow> x = y" for x y :: AbsOutputValue by (cases x; cases y) auto
  have lname: "alv_Module x = alv_Module y \<Longrightarrow> alv_Name x = alv_Name y \<longleftrightarrow> x = y" for x y :: AbsLocalValue by (cases x; cases y) auto
  show "stores (sync_SetOutputValue s ov v sens depr) (spec_step (OpSetOutput ov v sens depr) A)" if m: "mi_valid (aov_Module ov)"
    using stores_module[OF assms m] unfolding sync_put_nonempty(2)[OF m]
    by (intro stores_put[OF assms m]) (auto simp: ms_values_wf ms_values_obj, auto simp: ms_SetOutputValue_def gm.get_put name)
  show "stores (sync_RemoveOutputValue s ov) (spec_step (OpRemoveOutput ov) A)" if m: "mi_valid (aov_Module ov)"
    using stores_module[OF assms m] unfolding sync_put_lookup(1)[OF wf m]
    by (intro stores_put[OF assms m]) (auto simp: ms_values_wf ms_values_obj, auto simp: ms_RemoveOutputValue_def gm.get_del name)
  show "stores (sync_SetLocalValue s lv v) (spec_step (OpSetLocal lv v) A)" if m: "mi_valid (alv_Module lv)"
    using stores_module[OF assms m] unfolding sync_put_nonempty(3)[OF m]
    by (intro stores_put[OF assms m]) (auto simp: ms_values_wf ms_values_obj, auto simp: ms_SetLocalValue_def gm.get_put lname)
  show "stores (sync_RemoveLocalValue s lv) (spec_step (OpRemoveLocal lv) A)" if m: "mi_valid (alv_Module lv)"
    using stores_module[OF assms m] unfolding sync_put_lookup(2)[OF wf m]
    by (intro stores_put[OF assms m]) (auto simp: ms_values_wf ms_values_obj, auto simp: ms_RemoveLocalValue_def gm.get_del lname)
qed

subsection \<open>Resources and modules\<close>

lemma ms_obj_remove:
  "res_valid r \<Longrightarrow> res_valid (ri_Resource a) \<Longrightarrow>
   ms_obj (ms_RemoveResource ms r) a gen = (if ri_Resource a = r then None else ms_obj ms a gen)"
  by (simp add: ms_obj_def ms_ResourceInstance_def ms_Resource_remove)

lemma ms_obj_provider:
  "res_valid r \<Longrightarrow> res_valid (ri_Resource a) \<Longrightarrow> ms_obj (ms_SetResourceProvider ms r p) a gen = ms_obj ms a gen"
  by (simp add: ms_obj_def ms_ResourceInstance_insts ms_SetResourceProvider_insts)

lemma ari_in_resource: "ari_ContainingResource a = r \<longleftrightarrow> ari_Module a = ar_Module r \<and> ri_Resource (ari_Resource a) = ar_Resource r"
  by (cases r) (auto simp: ari_ContainingResource_def)

lemma store_id: "A\<lparr>so_obj := so_obj A\<rparr> = (A :: ('v, 'm) store)"
  by simp

lemma refine_SetProvider:
  assumes "stores s A" "ar_valid r"
  shows "stores (sync_SetResourceProvider s r p) A"
proof -
  have r: "mi_valid (ar_Module r)" "res_valid (ar_Resource r)" using assms(2) by (simp_all add: ar_valid_def)
  note md = stores_module[OF assms(1) r(1)]
  have "stores (st_put s (ar_Module r) (ms_SetResourceProvider (st_mod s (ar_Module r)) (ar_Resource r) p)) (A\<lparr>so_obj := so_obj A\<rparr>)"
    using md r ari_valid_parts by (intro stores_put_objects[OF assms(1) r(1)]) (simp_all add: ms_SetResourceProvider_wf ms_obj_provider)
  then show ?thesis by (simp add: sync_put_nonempty(1)[OF r(1)])
qed

lemma refine_put_remove:
  assumes "stores s A" "ar_valid r"
  shows "stores (st_put s (ar_Module r) (ms_RemoveResource (st_mod s (ar_Module r)) (ar_Resource r))) (spec_step (OpRemoveResource r) A)"
proof -
  have r: "mi_valid (ar_Module r)" "res_valid (ar_Resource r)" using assms(2) by (simp_all add: ar_valid_def)
  note md = stores_module[OF assms(1) r(1)]
  show ?thesis
    using md r ari_valid_parts
    by (simp, intro stores_put_objects[OF assms(1) r(1)]) (simp_all add: ms_remove_wf ms_obj_remove ari_in_resource)
qed

lemma refine_RemoveResourceIfEmpty:
  assumes "stores s A" "ar_valid r"
  shows "stores (snd (sync_RemoveResourceIfEmpty s r)) A"
proof (cases "\<exists>ms rs. st_Module s (ar_Module r) = Some ms \<and> ms_Resource ms (ar_Resource r) = Some rs \<and> rs_Instances rs = []")
  case True
  then obtain ms rs where m: "st_Module s (ar_Module r) = Some ms" "ms_Resource ms (ar_Resource r) = Some rs" "rs_Instances rs = []" by blast
  then have ms: "st_mod s (ar_Module r) = ms" by (simp add: st_mod_def)
  have none: "so_obj A a gen = None" if "ari_ContainingResource a = r" "ari_valid a" for a gen
    using that m stores_obj[OF assms(1) that(2)]
    by (auto simp: ari_in_resource st_ResourceInstance_def ms_ResourceInstance_def rs_Instance_def)
  have "stores (st_put s (ar_Module r) (ms_RemoveResource ms (ar_Resource r))) (spec_step (OpRemoveResource r) A)"
    using refine_put_remove[OF assms] ms by simp
  then have "stores (st_put s (ar_Module r) (ms_RemoveResource ms (ar_Resource r))) A"
    using none by (auto simp: stores_def)
  with m show ?thesis by (simp add: sync_RemoveResourceIfEmpty_def st_put_def)
next
  case False
  then have "snd (sync_RemoveResourceIfEmpty s r) = s"
    by (auto simp: sync_RemoveResourceIfEmpty_def split: option.split)
  with assms(1) show ?thesis by simp
qed

lemma refine_RemoveModule:
  assumes "stores s A" "mi_valid m" "st_RemoveModule s m = Some s'"
  shows "stores s' (spec_step (OpRemoveModule m) A)"
proof -
  have m: "m \<noteq> []" "s' = s\<lparr>st_Modules := gmap_del (mi_String m) (st_Modules s)\<rparr>"
    using assms(3) by (auto simp: st_RemoveModule_def mi_IsRoot_def split: if_splits)
  then have "s' = st_put s m (NewModule m)" using assms(2) by (simp add: st_put_cases ms_empty_NewModule)
  moreover have "stores (st_put s m (NewModule m)) (spec_step (OpRemoveModule m) A)"
    using assms(1,2) by (intro stores_put) (auto simp: NewModule_wf ms_obj_def ms_ResourceInstance_insts)
  ultimately show ?thesis by simp
qed

subsection \<open>Planned objects\<close>

lemma refine_unplan_module:
  assumes "stores s A" "mi_valid m"
  shows "stores (st_put s m (remove_planned_module (st_mod s m)))
    (A\<lparr>so_obj := \<lambda>a gen. if ari_Module a = m then unplanned (so_obj A a gen) else so_obj A a gen\<rparr>)"
proof -
  note md = stores_module[OF assms]
  have "unplans (\<lambda>_ _. True) (st_mod s m) (remove_planned_module (st_mod s m))" using md(1) by (rule unplans_module)
  then show ?thesis
    using md ari_valid_parts by (intro stores_put_objects[OF assms]) (auto simp: unplans_def)
qed

lemma refine_unplan_fold:
  assumes "stores s A" "list_all mi_valid addrs"
  shows "stores (foldl (\<lambda>s k. case gmap_get (st_Modules s) k of None \<Rightarrow> s
      | Some ms \<Rightarrow> maybePruneModule (s\<lparr>st_Modules := gmap_put k (remove_planned_module ms) (st_Modules s)\<rparr>) (ms_Addr ms))
      s (map mi_String addrs))
    (A\<lparr>so_obj := \<lambda>a gen. if ari_Module a \<in> set addrs then unplanned (so_obj A a gen) else so_obj A a gen\<rparr>)"
  using assms(2)
proof (induction addrs rule: rev_induct)
  case Nil
  then show ?case using assms(1) by simp
next
  case (snoc m addrs)
  let ?s = "foldl (\<lambda>s k. case gmap_get (st_Modules s) k of None \<Rightarrow> s
      | Some ms \<Rightarrow> maybePruneModule (s\<lparr>st_Modules := gmap_put k (remove_planned_module ms) (st_Modules s)\<rparr>) (ms_Addr ms))
      s (map mi_String addrs)"
  let ?A = "A\<lparr>so_obj := \<lambda>a gen. if ari_Module a \<in> set addrs then unplanned (so_obj A a gen) else so_obj A a gen\<rparr>"
  have IH: "stores ?s ?A" and m: "mi_valid m" using snoc by simp_all
  then have wf: "st_wf ?s" by (simp add: stores_def)
  from refine_unplan_module[OF IH m] show ?case
    by (simp add: remove_planned_step[OF wf m]) (erule back_subst[where P = "stores _"], auto simp: fun_eq_iff)
qed

lemma refine_RemovePlanned:
  assumes "stores s A"
  shows "stores (sync_RemovePlannedResourceInstanceObjects s) (spec_step OpRemovePlanned A)"
proof -
  have wf: "st_wf s" using assms by (simp add: stores_def)
  let ?addrs = "map (ms_Addr \<circ> snd) (st_Modules s)"
  have v: "list_all mi_valid ?addrs" "map fst (st_Modules s) = map mi_String ?addrs"
    using wf by (auto simp: st_wf_def list_all_iff)
  note f = refine_unplan_fold[OF assms v(1), folded v(2), folded sync_RemovePlannedResourceInstanceObjects_def]
  have "unplanned (so_obj A a gen) = so_obj A a gen" if a: "ari_valid a" "ari_Module a \<notin> set ?addrs" for a gen
  proof (cases "so_obj A a gen")
    case (Some ob)
    then obtain ms where ms: "st_Module s (ari_Module a) = Some ms"
      using stores_obj[OF assms a(1)] by (auto simp: st_ResourceInstance_def split: option.splits)
    then have "(mi_String (ari_Module a), ms) \<in> set (st_Modules s)" by (auto simp: st_Module_def dest: map_of_SomeD)
    moreover have "ms_Addr ms = ari_Module a" using st_Module_wf(2)[OF wf _ ms] ari_valid_parts[OF a(1)] by simp
    ultimately show ?thesis using a(2) by force
  qed simp
  with f show ?thesis by (auto simp: stores_def)
qed

end
