(* ===== verification/State_Moves.thy ===== *)
theory State_Moves
  imports State_Refine
begin

text \<open>
  The moves of resources, instances and module instances as updates of the abstract store, and
  the refinement of every sequence of writing methods.
\<close>

section \<open>Moves\<close>

lemma st_Resource_mod: "st_Resource s r = ms_Resource (st_mod s (ar_Module r)) (ar_Resource r)"
  by (simp add: st_Resource_def st_mod_def ms_Resource_def split: option.split)

lemma st_drop_put:
  "mi_valid m \<Longrightarrow> ms_Addr ms = m \<Longrightarrow> st_drop_empty (st_write s m ms) m ms = Some (st_put s m ms)"
  by (auto simp: st_drop_empty_def st_put_cases mi_IsRoot_def st_RemoveModule_def) (simp add: st_write_def gmap_del_put)

lemma st_mod_Ensure: "mi_valid m \<Longrightarrow> mi_valid m' \<Longrightarrow> st_mod (snd (st_EnsureModule s m)) m' = st_mod s m'"
  by (auto simp: st_EnsureModule_def st_mod_def st_Module_write split: option.split)

lemma st_Module_nonempty:
  assumes "st_wf s" "mi_valid m" "st_Resource s r = Some rs" "ar_Module r = m"
  shows "st_Module s m = Some (st_mod s m)"
  using assms by (auto simp: st_Resource_def st_mod_def split: option.splits)

definition moved_resource where
  "moved_resource s src dst rs =
     (let s1 = st_put s (ar_Module src) (ms_RemoveResource (st_mod s (ar_Module src)) (ar_Resource src))
      in st_put s1 (ar_Module dst) (ms_write (st_mod s1 (ar_Module dst)) (ar_Resource dst) (rs\<lparr>rs_Addr := dst\<rparr>)))"

lemma MoveAbsResource_put:
  assumes "st_wf s" "ar_valid src" "ar_valid dst"
  shows "st_MoveAbsResource s src dst =
    (case st_Resource s src of None \<Rightarrow> None
     | Some rs \<Rightarrow> if st_Resource s dst \<noteq> None then None else Some (moved_resource s src dst rs))"
proof -
  have v: "mi_valid (ar_Module src)" "mi_valid (ar_Module dst)" using assms(2,3) by (simp_all add: ar_valid_def)
  show ?thesis
  proof (cases "st_Resource s src")
    case (Some rs)
    have ms: "st_Module s (ar_Module src) = Some (st_mod s (ar_Module src))"
      by (rule st_Module_nonempty[OF assms(1) v(1) Some refl])
    have addr: "ms_Addr (st_mod s (ar_Module src)) = ar_Module src" using st_mod_wf[OF assms(1) v(1)] by simp
    show ?thesis
      using Some ms addr v
      by (simp add: st_MoveAbsResource_def st_drop_put Let_def moved_resource_def case_prod_beta EnsureModule_mod
          st_put_nonempty ms_empty_def st_put_Ensure)
  qed (simp add: st_MoveAbsResource_def)
qed

lemma ms_obj_write:
  "res_valid r \<Longrightarrow> res_valid (ri_Resource a) \<Longrightarrow> ms_obj (ms_write ms r rs) a gen =
    (if ri_Resource a = r then (case gmap_get (rs_Instances rs) (ri_Key a) of None \<Rightarrow> None | Some i \<Rightarrow> GetGeneration i gen) else ms_obj ms a gen)"
  by (simp add: ms_obj_def ms_ResourceInstance_def ms_Resource_write rs_Instance_def)

lemma refine_moved_resource:
  assumes "stores s A" "ar_valid src" "ar_valid dst" "st_Resource s src = Some rs"
  shows "stores (moved_resource s src dst rs) (spec_step (OpMoveResource src dst) A)"
proof -
  let ?s1 = "st_put s (ar_Module src) (ms_RemoveResource (st_mod s (ar_Module src)) (ar_Resource src))"
  let ?A1 = "A\<lparr>so_obj := \<lambda>a gen. if ari_ContainingResource a = src then None else so_obj A a gen\<rparr>"
  have v: "mi_valid (ar_Module src)" "mi_valid (ar_Module dst)" "res_valid (ar_Resource src)" "res_valid (ar_Resource dst)"
    using assms(2,3) by (simp_all add: ar_valid_def)
  have rs: "ms_Resource (st_mod s (ar_Module src)) (ar_Resource src) = Some rs" using assms(4) by (simp add: st_Resource_mod)
  have "insts_wf (rs_Instances rs)"
    using ms_Resource_wf[OF stores_module(1)[OF assms(1) v(1)] rs v(3)] by (simp add: rs_wf_def)
  then have wf: "rs_wf (ar_Module dst) (ar_Resource dst) (rs\<lparr>rs_Addr := dst\<rparr>)"
    using v(4) by (simp add: rs_wf_def res_Absolute_def)
  have s1: "stores ?s1 ?A1" using refine_put_remove[OF assms(1,2)] by simp
  note md = stores_module[OF s1 v(2)]
  have obj: "(case gmap_get (rs_Instances rs) (ri_Key (ari_Resource a)) of None \<Rightarrow> None | Some i \<Rightarrow> GetGeneration i gen) =
      so_obj A (ar_Instance src (ri_Key (ari_Resource a))) gen" if "ari_valid a" for a gen
  proof -
    have "ari_valid (ar_Instance src (ri_Key (ari_Resource a)))"
      using that v by (simp add: ari_valid_def ar_Instance_def res_Instance_def ri_IsPlaceholder_def)
    from stores_obj[OF assms(1) this] show ?thesis
      using rs by (simp add: st_ResourceInstance_mod ms_ResourceInstance_def rs_Instance_def ar_Instance_def res_Instance_def)
  qed
  have "stores (st_put ?s1 (ar_Module dst) (ms_write (st_mod ?s1 (ar_Module dst)) (ar_Resource dst) (rs\<lparr>rs_Addr := dst\<rparr>)))
      (?A1\<lparr>so_obj := \<lambda>a gen.
        if ari_ContainingResource a = dst then so_obj A (ar_Instance src (ri_Key (ari_Resource a))) gen
        else if ari_ContainingResource a = src then None else so_obj A a gen\<rparr>)"
  proof (rule stores_put_objects[OF s1 v(2)])
    show "ms_wf (ms_write (st_mod ?s1 (ar_Module dst)) (ar_Resource dst) (rs\<lparr>rs_Addr := dst\<rparr>))"
      using md(1,2) wf by (intro ms_write_wf) simp_all
    show "ms_obj (ms_write (st_mod ?s1 (ar_Module dst)) (ar_Resource dst) (rs\<lparr>rs_Addr := dst\<rparr>)) (ari_Resource a) gen =
      (if ari_ContainingResource a = dst then so_obj A (ar_Instance src (ri_Key (ari_Resource a))) gen
        else if ari_ContainingResource a = src then None else so_obj A a gen)" if a: "ari_valid a" "ari_Module a = ar_Module dst" for a gen
      using md(3)[OF a, of gen] obj[OF a(1), of gen] a(2) v(4) ari_valid_parts[OF a(1)] by (auto simp: ms_obj_write ari_in_resource)
  qed (use md(2) in \<open>auto simp: ari_in_resource\<close>)
  then show ?thesis by (simp add: moved_resource_def Let_def)
qed

definition moved_instance where
  "moved_instance s src dst i p =
     (let s1 = st_put s (ari_Module src) (ms_ForgetResourceInstanceAll (st_mod s (ari_Module src)) (ari_Resource src))
      in st_put s1 (ari_Module dst) (ms_SetResourceInstance (st_mod s1 (ari_Module dst)) (ari_Resource dst) (Some i) p))"

lemma ms_SetResourceInstance_nonempty: "\<not> ms_empty (Some (ms_SetResourceInstance ms a (Some i) p))"
  by (auto simp: ms_SetResourceInstance_def Let_def ms_empty_def split: option.split)

lemma MoveAbsResourceInstance_put:
  assumes "st_wf s" "ari_valid src" "ari_valid dst"
  shows "st_MoveAbsResourceInstance s src dst =
    (case st_ResourceInstance s src of None \<Rightarrow> None
     | Some i \<Rightarrow> if st_ResourceInstance s dst \<noteq> None then None
         else map_option (moved_instance s src dst i) (st_ResourceProvider s (ari_ContainingResource src)))"
proof (cases "st_ResourceInstance s src")
  case (Some i)
  have v: "mi_valid (ari_Module src)" "mi_valid (ari_Module dst)" "ri_ok (ari_Resource src)" "ri_ok (ari_Resource dst)"
    "res_valid (ri_Resource (ari_Resource dst))"
    using ari_valid_parts[OF assms(2)] ari_valid_parts[OF assms(3)] by simp_all
  obtain ms rs where ms: "st_Module s (ari_Module src) = Some ms" "ms_Resource ms (ri_Resource (ari_Resource src)) = Some rs"
    using Some by (auto simp: st_ResourceInstance_def ms_ResourceInstance_def split: option.splits)
  then have mod: "st_mod s (ari_Module src) = ms" by (simp add: st_mod_def)
  have res: "st_Resource s (ari_ContainingResource src) = Some rs"
    "st_ResourceProvider s (ari_ContainingResource src) = Some (rs_ProviderConfig rs)"
    using ms by (simp_all add: st_Resource_def st_ResourceProvider_def ari_ContainingResource_def)
  have addr: "ms_Addr (ms_ForgetResourceInstanceAll ms (ari_Resource src)) = ari_Module src"
    using fga.addr[of ms "ari_Resource src"] st_mod_wf[OF assms(1) v(1)] mod by simp
  let ?s1 = "st_put s (ari_Module src) (ms_ForgetResourceInstanceAll ms (ari_Resource src))"
  let ?r = "ri_Resource (ari_Resource dst)" and ?p = "rs_ProviderConfig rs"
  let ?d = "st_mod ?s1 (ari_Module dst)"
  have lk: "st_Resource (snd (st_EnsureModule ?s1 (ari_Module dst))) (ari_ContainingResource dst) = ms_Resource ?d ?r"
    using v(2) by (simp add: st_Resource_mod ari_ContainingResource_def st_mod_Ensure)
  define d' where "d' = (if ms_Resource ?d ?r = None then ms_SetResourceProvider ?d ?r ?p else ?d)"
  obtain rs' where rs': "ms_Resource d' ?r = Some rs'"
    using v(5) by (cases "ms_Resource d' ?r") (auto simp: d'_def ms_SetResourceProvider_Resource split: if_splits)
  let ?e = "snd (st_EnsureModule ?s1 (ari_Module dst))"
  have "st_MoveAbsResourceInstance s src dst =
      Some (st_write ?e (ari_Module dst) (ms_write d' ?r (rs'\<lparr>rs_Instances := gmap_put (ri_Key (ari_Resource dst)) i (rs_Instances rs')\<rparr>)))"
    if "st_ResourceInstance s dst = None"
    using Some ms res addr v(1) that rs'
    by (simp add: st_MoveAbsResourceInstance_def st_drop_put Let_def case_prod_beta EnsureModule_mod lk d'_def[symmetric] cong: if_cong split del: if_split)
  moreover have "ms_write d' ?r (rs'\<lparr>rs_Instances := gmap_put (ri_Key (ari_Resource dst)) i (rs_Instances rs')\<rparr>) =
      ms_SetResourceInstance ?d (ari_Resource dst) (Some i) ?p"
    using rs' by (simp add: ms_SetResourceInstance_def Let_def d'_def[symmetric])
  moreover have "st_write ?e (ari_Module dst) (ms_SetResourceInstance ?d (ari_Resource dst) (Some i) ?p)
      = moved_instance s src dst i ?p"
    using v(2) by (simp add: moved_instance_def Let_def mod st_put_nonempty ms_SetResourceInstance_nonempty st_put_Ensure)
  ultimately show ?thesis
    using Some res(2) by (auto simp: st_MoveAbsResourceInstance_def)
qed (simp add: st_MoveAbsResourceInstance_def)

lemma refine_moved_instance:
  assumes "stores s A" "ari_valid src" "ari_valid dst" "st_ResourceInstance s src = Some i"
  shows "stores (moved_instance s src dst i p) (spec_step (OpMoveInstance src dst) A)"
proof -
  have v: "mi_valid (ari_Module src)" "mi_valid (ari_Module dst)" "ri_ok (ari_Resource src)" "ri_ok (ari_Resource dst)"
    using ari_valid_parts[OF assms(2)] ari_valid_parts[OF assms(3)] by simp_all
  let ?s1 = "st_put s (ari_Module src) (ms_ForgetResourceInstanceAll (st_mod s (ari_Module src)) (ari_Resource src))"
  have s1: "stores ?s1 (A\<lparr>so_obj := (so_obj A)(src := \<lambda>_. None)\<rparr>)"
    using fga.refines[OF assms(1) v(1), of "ari_Resource src" "\<lambda>_. None"] v(3) by (simp add: ari_eta)
  have "is_wf i"
    using instance_wf[OF stores_module(1)[OF assms(1) v(1)] v(3)] assms(4) by (simp add: st_ResourceInstance_mod)
  moreover have "so_obj A src = GetGeneration i" using stores_obj[OF assms(1,2)] assms(4) by (simp add: fun_eq_iff)
  ultimately have "stores (moved_instance s src dst i p)
      ((A\<lparr>so_obj := (so_obj A)(src := \<lambda>_. None)\<rparr>)\<lparr>so_obj := ((so_obj A)(src := \<lambda>_. None))(dst := so_obj A src)\<rparr>)"
    using ins.refines[OF s1 v(2), of "ari_Resource dst" "Some i" "so_obj A src" p] v(4) by (simp add: moved_instance_def Let_def ari_eta)
  then show ?thesis by simp
qed

lemma relocate_wf: "ms_wf ms \<Longrightarrow> ms_wf (relocate dst ms)"
  by (auto simp: ms_wf_def relocate_def gmap_ok_def comp_def case_prod_beta rs_wf_def res_Absolute_def)

lemma map_of_map_values: "map_of (map (\<lambda>(k, v). (k, f v)) l) k = map_option f (map_of l k)"
  by (induction l) auto

lemma relocate_content:
  "ms_Addr (relocate dst ms) = dst" "ms_obj (relocate dst ms) a gen = ms_obj ms a gen"
  "gmap_get (ms_LocalValues (relocate dst ms)) n = gmap_get (ms_LocalValues ms) n"
  "gmap_get (ms_OutputValues (relocate dst ms)) n =
    map_option (\<lambda>v. v\<lparr>ov_Addr := (ov_Addr v)\<lparr>aov_Module := dst\<rparr>\<rparr>) (gmap_get (ms_OutputValues ms) n)"
  "ms_empty (Some (relocate dst ms)) \<longleftrightarrow> ms_empty (Some ms)"
  by (auto simp: relocate_def ms_obj_def ms_ResourceInstance_def ms_Resource_def rs_Instance_def map_of_map_values
      ms_empty_def split: option.split)

definition moved_module where
  "moved_module s src dst = st_put (st_put s src (NewModule src)) dst (relocate dst (st_mod s src))"

lemma MoveModuleInstance_put:
  assumes "st_wf s" "mi_valid src" "mi_valid dst"
  shows "st_MoveModuleInstance s src dst =
    (if src = [] \<or> dst = [] \<or> st_Module s src = None \<or> st_Module s dst \<noteq> None then None else Some (moved_module s src dst))"
proof (cases "st_Module s src")
  case (Some ms)
  then have ms: "st_mod s src = ms" by (simp add: st_mod_def)
  have ne: "src \<noteq> [] \<Longrightarrow> \<not> ms_empty (Some ms)"
    using st_Module_wf(2,3)[OF assms(1,2) Some] by (auto simp: ms_empty_NewModule)
  have "src \<noteq> [] \<Longrightarrow> st_RemoveModule s src = Some (st_put s src (NewModule src))"
    using assms(2) by (simp add: st_RemoveModule_def mi_IsRoot_def st_put_cases ms_empty_NewModule)
  with Some ne show ?thesis
    by (auto simp: st_MoveModuleInstance_def mi_IsRoot_def moved_module_def st_put_nonempty[OF assms(3)] relocate_content st_put_Ensure ms)
qed (simp add: st_MoveModuleInstance_def)

lemma refine_moved_module:
  assumes "stores s A" "mi_valid src" "mi_valid dst" "src \<noteq> []" "src \<noteq> dst"
  shows "stores (moved_module s src dst) (spec_step (OpMoveModule src dst) A)"
proof -
  note md = stores_module[OF assms(1,2)]
  let ?s1 = "st_put s src (NewModule src)"
  let ?A1 = "\<lparr>so_obj = \<lambda>a gen. if ari_Module a = src then None else so_obj A a gen,
      so_out = \<lambda>ov. if aov_Module ov = src then None else so_out A ov,
      so_loc = \<lambda>lv. if alv_Module lv = src then None else so_loc A lv\<rparr>"
  have "st_RemoveModule s src = Some ?s1"
    using assms(2,4) by (simp add: st_RemoveModule_def mi_IsRoot_def st_put_cases ms_empty_NewModule)
  from refine_RemoveModule[OF assms(1,2) this] have s1: "stores ?s1 ?A1" by simp
  have obj: "ms_obj (st_mod s src) (ari_Resource a) gen = so_obj A (a\<lparr>ari_Module := src\<rparr>) gen" if "ari_valid a" for a gen
    using md(3)[of "a\<lparr>ari_Module := src\<rparr>" gen] that assms(2) by (simp add: ari_valid_def)
  have out: "map_option (\<lambda>v. v\<lparr>ov_Addr := (ov_Addr v)\<lparr>aov_Module := dst\<rparr>\<rparr>) (gmap_get (ms_OutputValues (st_mod s src)) (aov_Name ov)) =
      map_option (\<lambda>v. v\<lparr>ov_Addr := ov\<rparr>) (so_out A (ov\<lparr>aov_Module := src\<rparr>))" if "aov_Module ov = dst" for ov
  proof -
    have "ov_Addr v = \<lparr>aov_Module = src, aov_Name = aov_Name ov\<rparr>" if "gmap_get (ms_OutputValues (st_mod s src)) (aov_Name ov) = Some v" for v
      using md(1,2) that by (auto simp: ms_wf_def dest!: map_of_SomeD)
    then show ?thesis
      using that md(4)[of "ov\<lparr>aov_Module := src\<rparr>"] by (cases "so_out A (ov\<lparr>aov_Module := src\<rparr>)") auto
  qed
  have loc: "gmap_get (ms_LocalValues (st_mod s src)) (alv_Name lv) = so_loc A (lv\<lparr>alv_Module := src\<rparr>)" for lv
    using md(5)[of "lv\<lparr>alv_Module := src\<rparr>"] by simp
  show ?thesis
    unfolding moved_module_def
    by (rule stores_put[OF s1 assms(3)])
       (use assms(5) md(1) obj out loc in \<open>auto simp: relocate_wf relocate_content move_key_def\<close>)
qed

section \<open>Sequences of methods\<close>

lemma refine_ForceKey:
  assumes "stores s A" "ari_valid a" "sync_DeposeResourceInstanceObjectForceKey rand s a key = Some s'"
  shows "stores s' (spec_step (OpDeposeForceKey a key) A)"
proof -
  obtain key' where key: "key \<noteq> NotDeposed" and d: "sync_depose rand s a key = Some (key', s')"
    using assms(3) by (auto simp: sync_DeposeResourceInstanceObjectForceKey_def split: if_splits)
  from refine_depose[OF assms(1,2) d] key show ?thesis by (auto split: if_splits)
qed

lemma refine_RemoveResource: "stores s A \<Longrightarrow> ar_valid r \<Longrightarrow> stores (sync_RemoveResource s r) (spec_step (OpRemoveResource r) A)"
  using refine_put_remove[of s A r] by (simp add: sync_put ar_valid_def)

lemma refine_step:
  assumes "stores s A" "op_ok op" "sync_step op s = Some s'"
  shows "stores s' (spec_step op A)"
proof (cases op)
  case (OpMoveResource src dst)
  then obtain rs where "st_Resource s src = Some rs" "s' = moved_resource s src dst rs"
    using assms MoveAbsResource_put[of s src dst] by (auto simp: sync_forward_defs stores_def split: option.splits if_splits)
  then show ?thesis using refine_moved_resource[OF assms(1), of src dst rs] OpMoveResource assms(2) by simp
next
  case (OpMoveInstance src dst)
  then obtain i p where "st_ResourceInstance s src = Some i" "s' = moved_instance s src dst i p"
    using assms MoveAbsResourceInstance_put[of s src dst] by (auto simp: sync_forward_defs stores_def split: option.splits if_splits)
  then show ?thesis using refine_moved_instance[OF assms(1), of src dst i p] OpMoveInstance assms(2) by simp
next
  case (OpMoveModule src dst)
  then have "src \<noteq> []" "src \<noteq> dst" "s' = moved_module s src dst"
    using assms MoveModuleInstance_put[of s src dst] by (auto simp: sync_forward_defs stores_def split: if_splits)
  then show ?thesis using refine_moved_module[OF assms(1), of src dst] OpMoveModule assms(2) by simp
next
  case OpDiscardCheckResults
  then show ?thesis using assms
    by (auto simp: stores_def sync_DiscardCheckResults_def st_wf_def st_obj_def st_ResourceInstance_def st_Module_def
        st_OutputValue_def st_LocalValue_def)
next
  case (OpMaybeRestore a key)
  then show ?thesis using assms refine_restore[OF assms(1), of a key] by auto
qed (use assms in \<open>auto intro: refine_values refine_SetProvider refine_SetInstance refine_RemoveResource
      refine_RemoveResourceIfEmpty refine_SetCurrent refine_SetDeposed refine_ForceKey refine_ForgetAll
      refine_ForgetDeposed refine_RemovePlanned refine_RemoveModule
    simp del: spec_step.simps(1-4,6-7,9-15,17) simp: sync_forward_defs spec_step.simps(5,8)\<close>)

lemma refine_run:
  "stores s A \<Longrightarrow> list_all op_ok ops \<Longrightarrow> sync_run ops s = Some s' \<Longrightarrow> stores s' (fold spec_step ops A)"
  by (induction ops arbitrary: s A) (auto split: option.splits intro: refine_step)

lemma stores_NewState: "stores NewState empty_store"
  using NewState_wf
  by (auto simp: stores_def empty_store_def st_obj_mod st_values_mod ms_obj_def ms_ResourceInstance_insts)
     (auto simp: st_mod_def NewState_def st_Module_def split: if_splits)

end
