(* ===== verification/State_List.thy ===== *)
theory State_List
  imports State_Moves
begin

text \<open>
  Listing the objects of a state: \<^verbatim>\<open>State.AllResourceInstanceObjectAddrs\<close> collects every managed
  object and sorts the result by a comparison that panics on addresses that are not real.
\<close>

section \<open>The order of objects\<close>

interpretation dk: address_order "\<lambda>k k'. Some (k < (k' :: DeposedKey))" "\<lambda>_. True"
  by unfold_locales auto

interpretation ari_dk: address_pair ari_Less ari_real "\<lambda>k k'. Some (k < (k' :: DeposedKey))" "\<lambda>_. True"
  by unfold_locales

interpretation obj: address_order object_Less "\<lambda>ok. ari_real (fst ok)"
  by (rule address_order_inj[OF ari_dk.lex_order, of "\<lambda>x. x"])
     (auto simp: object_Less_def lex_less_def addr_Equal)

section \<open>The objects collected\<close>

definition ms_object_addrs :: "('p, 'v, 'm) Module_state \<Rightarrow> (AbsResourceInstance \<times> DeposedKey) list" where
  "ms_object_addrs ms = concat (map (\<lambda>e. rs_object_addrs (snd e)) (ms_Resources ms))"

definition st_object_addrs :: "('p, 'v, 'm, 'c) State \<Rightarrow> (AbsResourceInstance \<times> DeposedKey) list" where
  "st_object_addrs s = concat (map (\<lambda>e. ms_object_addrs (snd e)) (st_Modules s))"

lemma AllObjects_sort: "AllResourceInstanceObjectAddrs (Some s) = sort_SliceStable object_Less (st_object_addrs s)"
  by (simp add: AllResourceInstanceObjectAddrs_def st_object_addrs_def ms_object_addrs_def case_prod_unfold)

text \<open>No deposed object is filed under the empty key.\<close>

definition deposed_keys_ok :: "('p, 'v, 'm, 'c) State \<Rightarrow> bool" where
  "deposed_keys_ok s \<longleftrightarrow> (\<forall>a. ari_valid a \<longrightarrow> st_obj s a (DeposedGen NotDeposed) = None)"

lemma st_Modules_iff:
  assumes "st_wf s"
  shows "e \<in> set (st_Modules s) \<longleftrightarrow>
    fst e = mi_String (ms_Addr (snd e)) \<and> mi_valid (ms_Addr (snd e)) \<and> st_Module s (ms_Addr (snd e)) = Some (snd e)"
  using assms by (cases e) (auto simp: st_wf_def st_Module_def gmap_ok_def dest: map_of_SomeD)

lemma ms_Resources_iff:
  assumes "ms_wf ms"
  shows "e \<in> set (ms_Resources ms) \<longleftrightarrow>
    fst e = res_String (ar_Resource (rs_Addr (snd e))) \<and> res_valid (ar_Resource (rs_Addr (snd e))) \<and>
    ms_Resource ms (ar_Resource (rs_Addr (snd e))) = Some (snd e)"
  using assms by (cases e) (auto simp: ms_wf_def rs_wf_def ms_Resource_def gmap_ok_def dest: map_of_SomeD)

lemma rs_object_addrs_iff:
  assumes "rs_wf m r rs"
  shows "(a, k) \<in> set (rs_object_addrs rs) \<longleftrightarrow>
    ari_ContainingResource a = rs_Addr rs \<and> res_Mode r = ManagedResourceMode \<and>
    (\<exists>i. rs_Instance rs (ri_Key (ari_Resource a)) = Some i \<and>
      (k = NotDeposed \<and> GetGeneration i CurrentGen \<noteq> None \<or> GetGeneration i (DeposedGen k) \<noteq> None))"
proof -
  have addr: "rs_Addr rs = \<lparr>ar_Module = m, ar_Resource = r\<rparr>" and ok: "gmap_ok (rs_Instances rs)"
    "\<forall>e \<in> set (rs_Instances rs). gmap_ok (is_Deposed (snd e))"
    using assms by (auto simp: rs_wf_def res_Absolute_def insts_wf_def is_wf_def is_maps_ok_def)
  have inst: "a = ar_Instance (rs_Addr rs) key \<longleftrightarrow> ari_ContainingResource a = rs_Addr rs \<and> ri_Key (ari_Resource a) = key" for key
    by (cases a; cases "ari_Resource a") (auto simp: addr ar_Instance_def res_Instance_def ari_ContainingResource_def)
  have keys: "(key, i) \<in> set (rs_Instances rs) \<longleftrightarrow> rs_Instance rs key = Some i" for key i
    using ok(1) by (auto simp: rs_Instance_def gmap_ok_def dest: map_of_SomeD)
  have dep: "(\<exists>ob. (k, ob) \<in> set (is_Deposed i)) \<longleftrightarrow> gmap_get (is_Deposed i) k \<noteq> None" for i :: "'b ResourceInstance_state"
    using map_of_eq_None_iff[of "is_Deposed i" k] by force
  have "(a, k) \<in> set (rs_object_addrs rs) \<longleftrightarrow> res_Mode r = ManagedResourceMode \<and>
      (\<exists>key i. (key, i) \<in> set (rs_Instances rs) \<and> a = ar_Instance (rs_Addr rs) key \<and>
        (k = NotDeposed \<and> is_Current i \<noteq> None \<or> (\<exists>ob. (k, ob) \<in> set (is_Deposed i))))"
    by (cases "res_Mode r = ManagedResourceMode") (auto simp: rs_object_addrs_def addr split: if_splits, force+)
  then show ?thesis unfolding dep keys inst by auto
qed

lemma rs_object_addrs_distinct:
  assumes "rs_wf m r rs" "\<And>i. i \<in> set (rs_Instances rs) \<Longrightarrow> gmap_get (is_Deposed (snd i)) NotDeposed = None"
  shows "distinct (rs_object_addrs rs)"
proof -
  let ?f = "\<lambda>(instKey, i :: 'b ResourceInstance_state).
        (if is_Current i \<noteq> None then [(ar_Instance (rs_Addr rs) instKey, NotDeposed)] else []) @
        map (\<lambda>(deposedKey, _). (ar_Instance (rs_Addr rs) instKey, deposedKey)) (is_Deposed i)"
  have ok: "distinct (map fst (rs_Instances rs))" "\<forall>e \<in> set (rs_Instances rs). distinct (map fst (is_Deposed (snd e)))"
    using assms(1) by (auto simp: rs_wf_def insts_wf_def is_wf_def is_maps_ok_def gmap_ok_def)
  have "distinct (concat (map ?f (rs_Instances rs)))"
  proof (rule distinct_concat_tagged[where h = fst and g = "\<lambda>x. ri_Key (ari_Resource (fst x))"])
    fix e assume e: "e \<in> set (rs_Instances rs)"
    obtain key i where [simp]: "e = (key, i)" by fastforce
    have "distinct (map (\<lambda>x. (ar_Instance (rs_Addr rs) key, fst x)) (is_Deposed i))"
      using ok(2) e by (force simp: distinct_map inj_on_def)
    moreover have "NotDeposed \<notin> fst ` set (is_Deposed i)" using assms(2)[OF e] map_of_eq_None_iff[of "is_Deposed i" NotDeposed] by simp
    ultimately show "distinct (?f e)" by (auto simp: case_prod_unfold image_iff)
  qed (use ok in \<open>auto simp: ar_Instance_def res_Instance_def split: if_splits\<close>)
  then show ?thesis by (simp add: rs_object_addrs_def)
qed

text \<open>An object as the listing names it.\<close>

definition listed :: "('p, 'v, 'm, 'c) State \<Rightarrow> AbsResourceInstance \<Rightarrow> DeposedKey \<Rightarrow> bool" where
  "listed s a k \<longleftrightarrow> ari_valid a \<and> res_Mode (ri_Resource (ari_Resource a)) = ManagedResourceMode \<and>
     (k = NotDeposed \<and> st_obj s a CurrentGen \<noteq> None \<or> st_obj s a (DeposedGen k) \<noteq> None)"

lemma ms_object_addrs_iff:
  assumes "ms_wf ms"
  shows "(a, k) \<in> set (ms_object_addrs ms) \<longleftrightarrow>
    ari_Module a = ms_Addr ms \<and> ri_ok (ari_Resource a) \<and> res_Mode (ri_Resource (ari_Resource a)) = ManagedResourceMode \<and>
    (k = NotDeposed \<and> ms_obj ms (ari_Resource a) CurrentGen \<noteq> None \<or> ms_obj ms (ari_Resource a) (DeposedGen k) \<noteq> None)"
    (is "?L \<longleftrightarrow> ?R")
proof -
  have rs: "rs_wf (ms_Addr ms) (ar_Resource (rs_Addr (snd e))) (snd e)" if "e \<in> set (ms_Resources ms)" for e
    using assms that by (auto simp: ms_wf_def)
  have "?L \<longleftrightarrow> (\<exists>e \<in> set (ms_Resources ms). (a, k) \<in> set (rs_object_addrs (snd e)))"
    by (auto simp: ms_object_addrs_def)
  also have "\<dots> \<longleftrightarrow> ?R"
  proof
    assume "\<exists>e \<in> set (ms_Resources ms). (a, k) \<in> set (rs_object_addrs (snd e))"
    then obtain e where e: "e \<in> set (ms_Resources ms)" "(a, k) \<in> set (rs_object_addrs (snd e))" by blast
    note w = rs[OF e(1)]
    have "ar_Module (rs_Addr (snd e)) = ms_Addr ms" using w by (cases "rs_Addr (snd e)") (simp add: rs_wf_def res_Absolute_def)
    then have c: "ari_Module a = ms_Addr ms" "ri_Resource (ari_Resource a) = ar_Resource (rs_Addr (snd e))"
      using rs_object_addrs_iff[OF w, of a k] e(2) by (auto simp: ari_in_resource)
    have "ms_Resource ms (ri_Resource (ari_Resource a)) = Some (snd e)" "res_valid (ri_Resource (ari_Resource a))"
      using ms_Resources_iff[OF assms, of e] e(1) c(2) by simp_all
    moreover have "rs_Instance (snd e) (ri_Key (ari_Resource a)) = Some i \<Longrightarrow> \<not> IsPlaceholder (ri_Key (ari_Resource a))" for i
      using w by (auto simp: rs_wf_def insts_wf_def rs_Instance_def dest!: map_of_SomeD)
    ultimately show ?R
      using rs_object_addrs_iff[OF w, of a k] e(2) c by (auto simp: ms_obj_def ms_ResourceInstance_def ri_ok_def ri_IsPlaceholder_def)
  next
    assume R: ?R
    then obtain rs' where r: "ms_Resource ms (ri_Resource (ari_Resource a)) = Some rs'"
      by (auto simp: ms_obj_def ms_ResourceInstance_def split: option.splits)
    have v: "res_valid (ri_Resource (ari_Resource a))" using R by (simp add: ri_ok_def)
    have w: "rs_wf (ms_Addr ms) (ri_Resource (ari_Resource a)) rs'" by (rule ms_Resource_wf[OF assms r v])
    then have addr: "rs_Addr rs' = \<lparr>ar_Module = ms_Addr ms, ar_Resource = ri_Resource (ari_Resource a)\<rparr>"
      by (simp add: rs_wf_def res_Absolute_def)
    have "(res_String (ri_Resource (ari_Resource a)), rs') \<in> set (ms_Resources ms)"
      using ms_Resources_iff[OF assms, of "(res_String (ri_Resource (ari_Resource a)), rs')"] r v addr by simp
    moreover have "(a, k) \<in> set (rs_object_addrs rs')"
      using rs_object_addrs_iff[OF w, of a k] R r addr
      by (auto simp: ms_obj_def ms_ResourceInstance_def ari_in_resource split: option.splits)
    ultimately show "\<exists>e \<in> set (ms_Resources ms). (a, k) \<in> set (rs_object_addrs (snd e))" by force
  qed
  finally show ?thesis .
qed

lemma st_object_addrs_iff:
  assumes "st_wf s"
  shows "(a, k) \<in> set (st_object_addrs s) \<longleftrightarrow> listed s a k"
proof -
  have "(a, k) \<in> set (st_object_addrs s) \<longleftrightarrow> (\<exists>e \<in> set (st_Modules s). (a, k) \<in> set (ms_object_addrs (snd e)))"
    by (auto simp: st_object_addrs_def)
  also have "\<dots> \<longleftrightarrow> listed s a k"
  proof
    assume "\<exists>e \<in> set (st_Modules s). (a, k) \<in> set (ms_object_addrs (snd e))"
    then obtain e where e: "e \<in> set (st_Modules s)" "(a, k) \<in> set (ms_object_addrs (snd e))" by blast
    then have m: "ms_wf (snd e)" "mi_valid (ms_Addr (snd e))" using assms by (auto simp: st_wf_def)
    have "st_Module s (ms_Addr (snd e)) = Some (snd e)" using st_Modules_iff[OF assms, of e] e(1) by simp
    then show "listed s a k"
      using ms_object_addrs_iff[OF m(1), of a k] e(2) m(2)
      by (auto simp: listed_def st_obj_mod st_mod_def ari_valid_def ri_ok_def ri_IsPlaceholder_def)
  next
    assume L: "listed s a k"
    then have v: "mi_valid (ari_Module a)" "ri_ok (ari_Resource a)" using ari_valid_parts[of a] by (auto simp: listed_def)
    from L obtain ms where ms: "st_Module s (ari_Module a) = Some ms"
      by (auto simp: listed_def st_obj_def st_ResourceInstance_def split: option.splits)
    note w = st_Module_wf[OF assms v(1) ms]
    then have "(mi_String (ari_Module a), ms) \<in> set (st_Modules s)"
      using st_Modules_iff[OF assms, of "(mi_String (ari_Module a), ms)"] ms v(1) by simp
    moreover have "(a, k) \<in> set (ms_object_addrs ms)"
      using L ms_object_addrs_iff[OF w(1), of a k] w(2) v(2) ms by (auto simp: listed_def st_obj_mod st_mod_def)
    ultimately show "\<exists>e \<in> set (st_Modules s). (a, k) \<in> set (ms_object_addrs (snd e))" by force
  qed
  finally show ?thesis .
qed

lemma deposed_key_unused:
  assumes "st_wf s" "deposed_keys_ok s" "e \<in> set (st_Modules s)" "f \<in> set (ms_Resources (snd e))" "i \<in> set (rs_Instances (snd f))"
  shows "gmap_get (is_Deposed (snd i)) NotDeposed = None"
proof -
  obtain key inst where i: "i = (key, inst)" by fastforce
  have m: "mi_valid (ms_Addr (snd e))" "st_Module s (ms_Addr (snd e)) = Some (snd e)"
    using assms(3) unfolding st_Modules_iff[OF assms(1)] by blast+
  have w: "ms_wf (snd e)" by (rule st_Module_wf(1)[OF assms(1) m])
  note m = w m
  let ?r = "ar_Resource (rs_Addr (snd f))"
  have r: "ms_Resource (snd e) ?r = Some (snd f)" "res_valid ?r" using ms_Resources_iff[OF m(1), of f] assms(4) by simp_all
  have w: "insts_wf (rs_Instances (snd f))" using ms_Resource_wf[OF m(1) r] by (simp add: rs_wf_def)
  let ?a = "\<lparr>ari_Module = ms_Addr (snd e), ari_Resource = \<lparr>ri_Resource = ?r, ri_Key = key\<rparr>\<rparr>"
  have "ari_valid ?a" using w m(2) r(2) assms(5) i by (auto simp: ari_valid_def insts_wf_def ri_IsPlaceholder_def)
  moreover have "gmap_get (rs_Instances (snd f)) key = Some inst"
    using w assms(5) i by (simp add: insts_wf_def gmap_ok_def)
  ultimately show ?thesis
    using assms(2)[unfolded deposed_keys_ok_def, rule_format, of ?a] r(1) m(3) i
    by (simp add: st_obj_mod st_mod_def ms_obj_def ms_ResourceInstance_def rs_Instance_def)
qed

lemma st_object_addrs_distinct:
  assumes "st_wf s" "deposed_keys_ok s"
  shows "distinct (st_object_addrs s)"
  unfolding st_object_addrs_def
proof (rule distinct_concat_tagged[where h = fst and g = "\<lambda>x. mi_String (ari_Module (fst x))"])
  show "distinct (map fst (st_Modules s))" using assms(1) by (simp add: st_wf_def gmap_ok_def)
  fix e assume e: "e \<in> set (st_Modules s)"
  then have m: "ms_wf (snd e)" using assms(1) by (auto simp: st_wf_def)
  then have rs: "rs_wf (ms_Addr (snd e)) (ar_Resource (rs_Addr (snd f))) (snd f)" if "f \<in> set (ms_Resources (snd e))" for f
    using that by (auto simp: ms_wf_def)
  show "distinct (ms_object_addrs (snd e))"
    unfolding ms_object_addrs_def
  proof (rule distinct_concat_tagged[where h = fst and g = "\<lambda>x. res_String (ri_Resource (ari_Resource (fst x)))"])
    show "distinct (map fst (ms_Resources (snd e)))" using m by (simp add: ms_wf_def gmap_ok_def)
    fix f assume f: "f \<in> set (ms_Resources (snd e))"
    show "distinct (rs_object_addrs (snd f))"
      by (rule rs_object_addrs_distinct[OF rs[OF f] deposed_key_unused[OF assms e f]])
    fix y assume "y \<in> set (rs_object_addrs (snd f))"
    then show "res_String (ri_Resource (ari_Resource (fst y))) = fst f"
      using rs_object_addrs_iff[OF rs[OF f], of "fst y" "snd y"] ms_Resources_iff[OF m, of f] f by (simp add: ari_in_resource)
  qed
  fix y assume "y \<in> set (ms_object_addrs (snd e))"
  then show "mi_String (ari_Module (fst y)) = fst e"
    using ms_object_addrs_iff[OF m, of "fst y" "snd y"] st_Modules_iff[OF assms(1), of e] e by simp
qed

lemma valid_managed_real: "ari_valid a \<Longrightarrow> res_Mode (ri_Resource (ari_Resource a)) = ManagedResourceMode \<Longrightarrow> ari_real a"
  by (auto simp: ari_valid_def ari_real_def ari_IsPlaceholder_def mi_IsPlaceholder_def mi_valid_def list_ex_iff list_all_iff)

lemma AllObjects_listing:
  assumes "st_wf s" "deposed_keys_ok s"
  shows "\<exists>l. AllResourceInstanceObjectAddrs (Some s) = Some l \<and> (\<forall>a k. (a, k) \<in> set l \<longleftrightarrow> listed s a k) \<and>
    sorted_wrt (\<lambda>x y. object_Less x y = Some True) l"
proof -
  have "\<forall>x \<in> set (st_object_addrs s). ari_real (fst x)"
    using st_object_addrs_iff[OF assms(1)] valid_managed_real by (auto simp: listed_def)
  from obj.sort_Slice[OF this st_object_addrs_distinct[OF assms]] show ?thesis
    using st_object_addrs_iff[OF assms(1)] by (auto simp: AllObjects_sort)
qed

lemma HasManaged_listing: "HasManagedResourceInstanceObjects (Some s) \<longleftrightarrow> st_object_addrs s \<noteq> []"
proof -
  have rs: "rs_object_addrs rs \<noteq> [] \<longleftrightarrow> res_Mode (ar_Resource (rs_Addr rs)) = ManagedResourceMode \<and>
      (\<exists>e \<in> set (rs_Instances rs). is_Current (snd e) \<noteq> None \<or> is_Deposed (snd e) \<noteq> [])" for rs :: "('a, 'c) Resource_state"
    by (cases "res_Mode (ar_Resource (rs_Addr rs)) = ManagedResourceMode")
       (simp_all add: rs_object_addrs_def case_prod_unfold del: not_None_eq)
  have ms: "ms_object_addrs ms \<noteq> [] \<longleftrightarrow> (\<exists>e \<in> set (ms_Resources ms). rs_object_addrs (snd e) \<noteq> [])" for ms :: "('a, 'b, 'c) Module_state"
    by (simp add: ms_object_addrs_def)
  have st: "st_object_addrs s \<noteq> [] \<longleftrightarrow> (\<exists>e \<in> set (st_Modules s). ms_object_addrs (snd e) \<noteq> [])"
    by (simp add: st_object_addrs_def)
  show ?thesis unfolding st ms rs by (simp add: HasManagedResourceInstanceObjects_def list_ex_iff case_prod_unfold)
qed

lemma AllObjects_empty:
  assumes "st_wf s" "deposed_keys_ok s"
  shows "AllResourceInstanceObjectAddrs (Some s) = Some [] \<longleftrightarrow> st_object_addrs s = []"
proof -
  obtain l where l: "AllResourceInstanceObjectAddrs (Some s) = Some l" "\<forall>a k. (a, k) \<in> set l \<longleftrightarrow> listed s a k"
    using AllObjects_listing[OF assms] by blast
  then have "set l = set (st_object_addrs s)" using st_object_addrs_iff[OF assms(1)] by auto
  then show ?thesis using l(1) by (metis option.inject set_empty)
qed

end
