(* ===== verification/State_Props.thy ===== *)
theory State_Props
  imports State_List
begin

text \<open>
  Properties of the state: every sequence of \<^verbatim>\<open>SyncState\<close> methods implements the abstract store,
  keeps the state well formed, deposing an object loses nothing, when the moves panic, copies
  are equal, and the listing of objects is complete and sorted.
\<close>

section \<open>Lemmas for the properties\<close>

definition st_store :: "('p, 'v, 'm, 'c) State \<Rightarrow> ('v, 'm) store" where
  "st_store s = \<lparr>so_obj = st_obj s, so_out = st_OutputValue s, so_loc = st_LocalValue s\<rparr>"

lemma stores_store: "stores s (st_store s) \<longleftrightarrow> st_wf s"
  by (simp add: stores_def st_store_def)

lemma ms_wf_maps_ok: "ms_wf ms \<Longrightarrow> ms_maps_ok ms"
  by (auto simp: ms_wf_def ms_maps_ok_def rs_wf_def insts_wf_def rs_maps_ok_def is_wf_def)

lemma st_wf_maps_ok: "st_wf s \<Longrightarrow> st_maps_ok s"
  using ms_wf_maps_ok by (auto simp: st_wf_def st_maps_ok_def)

subsection \<open>Comparing managed resources\<close>

lemma os_Equal_some: "os_Equal meq x y \<Longrightarrow> (x = None) = (y = None)"
  by (cases x; cases y) auto

lemma is_Equal_objects:
  assumes "is_Equal meq kdiff (Some i) y" "GetGeneration i gen \<noteq> None"
  shows "\<exists>j. y = Some j \<and> GetGeneration j gen \<noteq> None"
proof (cases y)
  case (Some j)
  have cur: "os_Equal meq (is_Current i) (is_Current j)"
    and dep: "list_all (\<lambda>(key, d). os_Equal meq (Some d) (gmap_get (is_Deposed j) key)) (is_Deposed i)"
    using assms(1) Some by (simp_all split: if_splits)
  have "gmap_get (is_Deposed i) k = Some d \<Longrightarrow> gmap_get (is_Deposed j) k \<noteq> None" for k d
    using dep os_Equal_some[of meq "Some d" "gmap_get (is_Deposed j) k"] by (auto simp: list_all_iff dest!: map_of_SomeD)
  then show ?thesis using Some assms(2) os_Equal_some[OF cur] by (cases gen) auto
qed (use assms(1) in simp)

lemma sameManaged_listed:
  assumes "st_wf s" "sameManagedResources pq meq kdiff s t" "listed s a k"
  shows "listed t a k"
proof -
  have v: "ari_valid a" "mi_valid (ari_Module a)" "res_valid (ri_Resource (ari_Resource a))"
    using assms(3) ari_valid_parts[of a] by (auto simp: listed_def)
  obtain i where i: "st_ResourceInstance s a = Some i" using assms(3) by (auto simp: listed_def st_obj_def split: option.splits)
  then obtain ms rs where ms: "st_Module s (ari_Module a) = Some ms" "ms_Resource ms (ri_Resource (ari_Resource a)) = Some rs"
      "rs_Instance rs (ri_Key (ari_Resource a)) = Some i"
    by (auto simp: st_ResourceInstance_def ms_ResourceInstance_def split: option.splits)
  note w = st_Module_wf[OF assms(1) v(2) ms(1)]
  have addr: "rs_Addr rs = \<lparr>ar_Module = ari_Module a, ar_Resource = ri_Resource (ari_Resource a)\<rparr>"
    using ms_Resource_wf[OF w(1) ms(2) v(3)] w(2) by (simp add: rs_wf_def res_Absolute_def)
  have "(mi_String (ari_Module a), ms) \<in> set (st_Modules s)" "(res_String (ri_Resource (ari_Resource a)), rs) \<in> set (ms_Resources ms)"
    using ms(1,2) by (auto simp: st_Module_def ms_Resource_def dest: map_of_SomeD)
  then have "rs_Equal pq meq kdiff (Some rs) (st_Resource t (rs_Addr rs))"
    using assms(2,3) addr by (force simp: sameManagedResources_def list_all_iff listed_def)
  then obtain rt where rt: "st_Resource t (rs_Addr rs) = Some rt"
      "list_all (\<lambda>(key, inst). is_Equal meq kdiff (Some inst) (gmap_get (rs_Instances rt) key)) (rs_Instances rs)"
    by (cases "st_Resource t (rs_Addr rs)") (auto split: if_splits)
  have "is_Equal meq kdiff (Some i) (gmap_get (rs_Instances rt) (ri_Key (ari_Resource a)))"
    using rt(2) ms(3) by (auto simp: rs_Instance_def list_all_iff dest!: map_of_SomeD)
  moreover have "st_ResourceInstance t a = gmap_get (rs_Instances rt) (ri_Key (ari_Resource a))"
    using rt(1) addr by (auto simp: st_Resource_def st_ResourceInstance_def ms_ResourceInstance_def rs_Instance_def split: option.splits)
  ultimately have "st_obj s a gen \<noteq> None \<Longrightarrow> st_obj t a gen \<noteq> None" for gen
    using is_Equal_objects[of meq kdiff i "st_ResourceInstance t a" gen] i by (force simp: st_obj_def)
  with assms(3) show ?thesis by (auto simp: listed_def)
qed

lemma ManagedEqual_listing:
  assumes "st_wf s" "st_wf t" "ManagedResourcesEqual pq meq kdiff (Some s) (Some t)"
  shows "listed s a k \<longleftrightarrow> listed t a k"
  using sameManaged_listed[of s pq meq kdiff t a k] sameManaged_listed[of t pq meq kdiff s a k] assms by auto

subsection \<open>Concrete states\<close>

definition obj0 :: "ObjectStatus \<Rightarrow> 'm ResourceInstanceObjectSrc" where
  "obj0 status = \<lparr>os_SchemaVersion = 0, os_AttrsJSON = ''{}'', os_AttrsFlat = None, os_AttrSensitivePaths = [],
     os_TransientPathValueMarks = [], os_Private = [], os_Status = status, os_Dependencies = [],
     os_CreateBeforeDestroy = False, os_SkipDestroy = False\<rparr>"

definition pc0 :: "'p \<Rightarrow> 'p AbsProviderConfig" where
  "pc0 p = \<lparr>apc_Module = [], apc_Provider = p, apc_Alias = []\<rparr>"

text \<open>The state with one object at \<^verbatim>\<open>module.a["k"].aws_instance.web[0]\<close>.\<close>

definition state0 :: "(unit, unit, unit, unit) State" where
  "state0 = sync_SetResourceInstanceCurrent NewState (web (IntKey 0)) (Some (obj0 ObjectReady)) (pc0 ()) NoKey"

lemma obj0_ok [simp]: "os_maps_ok (obj0 status)" "obj_arg (Some (obj0 status))"
  by (simp_all add: os_maps_ok_def obj_arg_def obj0_def)

lemma web_valid [simp]: "ari_valid (web (IntKey n))"
  by (rule web_facts) simp

lemma state0_run: "sync_run [OpSetCurrent (web (IntKey 0)) (Some (obj0 ObjectReady)) (pc0 ()) NoKey] NewState = Some state0"
  by (simp add: state0_def)

lemma state0_stores:
  "stores state0 (empty_store\<lparr>so_obj := (\<lambda>_ _. None)(web (IntKey 0) := (\<lambda>_. None)(CurrentGen := Some (obj0 ObjectReady)))\<rparr>)"
  using refine_run[OF stores_NewState _ state0_run] by (simp add: empty_store_def)

lemma state0_wf: "st_wf state0"
  using state0_stores by (simp add: stores_def)

lemma state0_obj:
  "ari_valid a \<Longrightarrow> st_obj state0 a gen = (if a = web (IntKey 0) \<and> gen = CurrentGen then Some (obj0 ObjectReady) else None)"
  using state0_stores by (auto simp: stores_def)

lemma state0_deposed: "deposed_keys_ok state0"
  by (simp add: deposed_keys_ok_def state0_obj)

section \<open>The contract of the state\<close>





section \<open>Deposed objects\<close>

text \<open>
  C38: \<^verbatim>\<open>DeposeResourceInstanceObject\<close> terminates as soon as the random source yields one key that
  the instance does not use, and then no object is lost: the current object is found under the
  returned key, which held no object before, there is no current object any more, and every
  other object of the state is where it was.
\<close>

theorem DeposeResourceInstanceObject_keeps_objects:
  assumes "st_wf s" "ari_valid a" "st_obj s a CurrentGen = Some ob" "st_obj s a (DeposedGen (NewDeposedKey (rand n))) = None"
  shows "\<exists>key s'. sync_DeposeResourceInstanceObject rand s a = Some (key, s') \<and>
    st_obj s a (DeposedGen key) = None \<and> st_obj s' a (DeposedGen key) = Some ob \<and> st_obj s' a CurrentGen = None \<and>
    (\<forall>b gen. ari_valid b \<longrightarrow> (b, gen) \<notin> {(a, CurrentGen), (a, DeposedGen key)} \<longrightarrow> st_obj s' b gen = st_obj s b gen)"
proof -
  obtain i where i: "st_ResourceInstance s a = Some i" "is_Current i = Some ob"
      "gmap_get (is_Deposed i) (NewDeposedKey (rand n)) = None"
    using assms(3,4) by (auto simp: st_obj_def split: option.splits)
  obtain ms where ms: "st_Module s (ari_Module a) = Some ms" "ms_ResourceInstance ms (ari_Resource a) = Some i"
    using i(1) by (auto simp: st_ResourceInstance_def split: option.splits)
  obtain k where "findUnusedDeposedKey rand 0 (is_Deposed i) = Some k"
    using findUnused_returns[of "is_Deposed i" rand 0 n] i(3) by auto
  then obtain key s' where d: "sync_depose rand s a NotDeposed = Some (key, s')"
    using ms i(2) by (auto simp: sync_depose_def ms_deposeResourceInstanceObject_def deposeCurrentObject_def)
  have st: "stores s (st_store s)" using assms(1) by (simp add: stores_store)
  note r = refine_depose[OF st assms(2) d]
  have "sync_DeposeResourceInstanceObject rand s a = Some (key, s')" using d by (simp add: sync_DeposeResourceInstanceObject_def)
  moreover have "st_obj s a (DeposedGen key) = None" using r(2) assms(3) by (simp add: st_store_def)
  moreover have "\<forall>b gen. ari_valid b \<longrightarrow> st_obj s' b gen =
      (if b = a then ((st_obj s a)(CurrentGen := None, DeposedGen key := st_obj s a CurrentGen)) gen else st_obj s b gen)"
    using r(1) assms(3) by (auto simp: stores_def st_store_def)
  ultimately show ?thesis using assms(2,3) by (intro exI[of _ key] exI[of _ s']) simp
qed

theorem DeposeResourceInstanceObject_keeps_objects_witness:
  "\<exists>key s'. sync_DeposeResourceInstanceObject (\<lambda>_. 42) state0 (web (IntKey 0)) = Some (key, s') \<and>
    st_obj s' (web (IntKey 0)) (DeposedGen key) = Some (obj0 ObjectReady)"
  using DeposeResourceInstanceObject_keeps_objects[OF state0_wf web_valid[of 0], of "obj0 ObjectReady" "\<lambda>_. 42" 0]
  by (auto simp: state0_obj)

text \<open>
  C40: a generated deposed key is eight lower-case hexadecimal digits, never the key that means
  ``not deposed'', and each 32-bit random number gives its own key.
\<close>

theorem NewDeposedKey_bounds:
  "length (NewDeposedKey v) = 8 \<and> list_all (\<lambda>c. c \<in> set ''0123456789abcdef'') (NewDeposedKey v) \<and>
   NewDeposedKey v \<noteq> NotDeposed \<and> (NewDeposedKey v = NewDeposedKey w) = (v = w)"
proof -
  have all: "list_all (\<lambda>d. hex_char d \<in> set ''0123456789abcdef'') [0..<16]" by code_simp
  have hex: "hex_char (n mod 16) \<in> set ''0123456789abcdef''" for n
    using all mod_less_divisor[of 16 n] unfolding list_all_iff by (simp del: list.set)
  have "list_all (\<lambda>c. c \<in> set ''0123456789abcdef'') (NewDeposedKey v)"
    using hex by (auto simp: NewDeposedKey_def simp del: list.set)
  moreover have "NewDeposedKey v \<noteq> NotDeposed" using NewDeposedKey_length[of v] by (auto simp: NotDeposed_def)
  ultimately show ?thesis using NewDeposedKey_length[of v] NewDeposedKey_inj[of v w] by simp
qed

text \<open>
  \<^verbatim>\<open>MaybeRestoreResourceInstanceDeposed\<close> restores the deposed object when there is one under the
  key and no current object; but on an instance that has deposed objects only under other keys
  it also returns true, its sign of success, although nothing was restored and every object
  of the state is where it was.
\<close>

theorem MaybeRestore_reports_success_without_restoring:
  assumes "st_wf s" "ari_valid a" "key \<noteq> NotDeposed" "st_obj s a CurrentGen = None" "st_obj s a (DeposedGen k) \<noteq> None"
  shows "\<exists>s'. sync_MaybeRestoreResourceInstanceDeposed s a key = Some (True, s') \<and>
    st_obj s' a CurrentGen = st_obj s a (DeposedGen key) \<and> st_obj s' a (DeposedGen key) = None \<and>
    (st_obj s a (DeposedGen key) = None \<longrightarrow> (\<forall>b gen. ari_valid b \<longrightarrow> st_obj s' b gen = st_obj s b gen))"
proof -
  obtain i where i: "st_ResourceInstance s a = Some i" "is_Current i = None" "gmap_get (is_Deposed i) k \<noteq> None"
    using assms(4,5) by (auto simp: st_obj_def split: option.splits)
  then obtain ms where ms: "st_Module s (ari_Module a) = Some ms" "ms_ResourceInstance ms (ari_Resource a) = Some i"
    by (auto simp: st_ResourceInstance_def split: option.splits)
  then obtain s' where r: "sync_MaybeRestoreResourceInstanceDeposed s a key = Some (True, s')"
    using i(2,3) assms(3)
    by (cases "is_Deposed i") (auto simp: sync_MaybeRestoreResourceInstanceDeposed_def Let_def
        ms_maybeRestoreResourceInstanceDeposed_def ms_ResourceInstance_def split: option.splits)
  have st: "stores s (st_store s)" using assms(1) by (simp add: stores_store)
  have "\<forall>b gen. ari_valid b \<longrightarrow> st_obj s' b gen =
      (if b = a then ((st_obj s a)(CurrentGen := st_obj s a (DeposedGen key), DeposedGen key := None)) gen else st_obj s b gen)"
    using refine_restore[OF st assms(2) r] assms(4) by (auto simp: stores_def st_store_def)
  with r assms(2,4) show ?thesis by (intro exI[of _ s']) auto
qed

definition state1 :: "(unit, unit, unit, unit) State" where
  "state1 = sync_SetResourceInstanceDeposed NewState (web (IntKey 0)) ''0000002a'' (Some (obj0 ObjectReady)) (pc0 ()) NoKey"

lemma state1_stores:
  "stores state1 (empty_store\<lparr>so_obj := (\<lambda>_ _. None)(web (IntKey 0) := (\<lambda>_. None)(DeposedGen ''0000002a'' := Some (obj0 ObjectReady)))\<rparr>)"
  unfolding state1_def
  using refine_SetDeposed[OF stores_NewState web_valid[of 0] obj0_ok(2)] by (simp add: empty_store_def)

lemma state1_facts:
  "st_wf state1" "st_obj state1 (web (IntKey 0)) gen = (if gen = DeposedGen ''0000002a'' then Some (obj0 ObjectReady) else None)"
  using state1_stores by (auto simp: stores_def)

theorem MaybeRestore_reports_success_without_restoring_witness:
  "\<exists>s'. sync_MaybeRestoreResourceInstanceDeposed state1 (web (IntKey 0)) ''0000002b'' = Some (True, s') \<and>
    st_obj s' (web (IntKey 0)) CurrentGen = None"
  using MaybeRestore_reports_success_without_restoring[OF state1_facts(1) web_valid[of 0], of "''0000002b''" "''0000002a''"]
  by (auto simp: state1_facts(2) NotDeposed_def)

section \<open>Moves\<close>


definition mod_b :: ModuleInstance where
  "mod_b = [\<lparr>step_Name = ''b'', step_InstanceKey = NoKey\<rparr>]"

lemma state0_modules: "st_Module state0 (ari_Module (web k)) \<noteq> None" "st_Module state0 mod_b = None"
proof -
  have "st_obj state0 (web (IntKey 0)) CurrentGen \<noteq> None" by (simp add: state0_obj)
  then show "st_Module state0 (ari_Module (web k)) \<noteq> None"
    by (auto simp: st_obj_def st_ResourceInstance_def split: option.splits)
  have "mi_valid mod_b" "mi_valid (ari_Module (web (IntKey 0)))" by (simp_all add: mod_b_def mi_valid_def valid_name_def)
  then show "st_Module state0 mod_b = None"
    unfolding state0_def sync_put by (simp add: st_Module_put) (simp add: mod_b_def NewState_def st_Module_def mi_String_def step_String_def)
qed


section \<open>Copies, comparison and listing\<close>

text \<open>
  a deep copy of a well-formed state holds the same modules, resources, instances, objects and
  values: no field is forgotten on any level.
\<close>

theorem State_DeepCopy_equal:
  assumes "st_wf s"
  shows "st_DeepCopy ccopy (Some s) = Some (s\<lparr>st_CheckResults := ccopy (st_CheckResults s)\<rparr>)"
  using st_DeepCopy_id[OF st_wf_maps_ok[OF assms], of "\<lambda>c. c"] by (cases s) (simp add: st_DeepCopy_def)

theorem State_DeepCopy_equal_witness: "st_DeepCopy (\<lambda>c. c) (Some state0) = Some state0"
  using State_DeepCopy_equal[OF state0_wf, of "\<lambda>c. c"] by simp

text \<open>
  On a well-formed state without a deposed object under the empty key,
  \<^verbatim>\<open>AllResourceInstanceObjectAddrs\<close> never panics in its comparisons, lists the current and deposed
  objects of all managed resources and nothing else, each once and in ascending order, and the
  list is empty exactly when \<^verbatim>\<open>HasManagedResourceInstanceObjects\<close> says there are none.
\<close>

theorem AllResourceInstanceObjectAddrs_complete:
  assumes "st_wf s" "deposed_keys_ok s"
  shows "\<exists>l. AllResourceInstanceObjectAddrs (Some s) = Some l \<and> (\<forall>a k. (a, k) \<in> set l \<longleftrightarrow> listed s a k) \<and>
    sorted_wrt (\<lambda>x y. object_Less x y = Some True) l \<and> (l \<noteq> []) = HasManagedResourceInstanceObjects (Some s)"
proof -
  obtain l where l: "AllResourceInstanceObjectAddrs (Some s) = Some l" "\<forall>a k. (a, k) \<in> set l \<longleftrightarrow> listed s a k"
      "sorted_wrt (\<lambda>x y. object_Less x y = Some True) l"
    using AllObjects_listing[OF assms] by blast
  then have "set l = set (st_object_addrs s)" using st_object_addrs_iff[OF assms(1)] by auto
  then have "l = [] \<longleftrightarrow> st_object_addrs s = []" by (metis set_empty)
  with l show ?thesis by (auto simp: HasManaged_listing)
qed

theorem AllResourceInstanceObjectAddrs_complete_witness:
  "\<exists>l. AllResourceInstanceObjectAddrs (Some state0) = Some l \<and> set l = {(web (IntKey 0), NotDeposed)}"
proof -
  have "listed state0 a k \<longleftrightarrow> a = web (IntKey 0) \<and> k = NotDeposed" for a k
    by (auto simp: listed_def state0_obj split: if_splits)
  with AllResourceInstanceObjectAddrs_complete[OF state0_wf state0_deposed] show ?thesis by auto
qed

text \<open>
  Two well-formed states that \<^verbatim>\<open>ManagedResourcesEqual\<close> accepts hold managed objects under exactly the
  same addresses and deposed keys, although the comparison looks only at the entries of one
  side at a time; and a missing state equals exactly the states without managed objects.
\<close>

theorem ManagedResourcesEqual_same_objects:
  assumes "st_wf s" "st_wf t" "deposed_keys_ok s" "deposed_keys_ok t"
  shows "(ManagedResourcesEqual pq meq kdiff (Some s) (Some t) \<longrightarrow>
      AllResourceInstanceObjectAddrs (Some s) = AllResourceInstanceObjectAddrs (Some t)) \<and>
    (ManagedResourcesEqual pq meq kdiff None (Some t) \<longleftrightarrow> AllResourceInstanceObjectAddrs (Some t) = Some [])"
proof (intro conjI impI)
  assume eq: "ManagedResourcesEqual pq meq kdiff (Some s) (Some t)"
  obtain l l' where l: "AllResourceInstanceObjectAddrs (Some s) = Some l" "\<forall>a k. (a, k) \<in> set l \<longleftrightarrow> listed s a k"
      "sorted_wrt (\<lambda>x y. object_Less x y = Some True) l"
    and l': "AllResourceInstanceObjectAddrs (Some t) = Some l'" "\<forall>a k. (a, k) \<in> set l' \<longleftrightarrow> listed t a k"
      "sorted_wrt (\<lambda>x y. object_Less x y = Some True) l'"
    using AllObjects_listing[OF assms(1,3)] AllObjects_listing[OF assms(2,4)] by blast
  have "set l = set l'" using l(2) l'(2) ManagedEqual_listing[OF assms(1,2) eq] by auto
  moreover have "\<forall>x \<in> set l. ari_real (fst x)" using l(2) valid_managed_real by (auto simp: listed_def)
  ultimately show "AllResourceInstanceObjectAddrs (Some s) = AllResourceInstanceObjectAddrs (Some t)"
    using obj.ordered_unique[OF _ l(3) l'(3)] l(1) l'(1) by simp
next
  show "ManagedResourcesEqual pq meq kdiff None (Some t) \<longleftrightarrow> AllResourceInstanceObjectAddrs (Some t) = Some []"
    using AllObjects_empty[OF assms(2,4)] by (simp add: HasManaged_listing)
qed

theorem ManagedResourcesEqual_same_objects_witness:
  "\<not> ManagedResourcesEqual (\<lambda>_. []) (=) (\<noteq>) (Some state0) (Some NewState)"
proof -
  let ?n = "NewState :: (unit, unit, unit, unit) State"
  have n: "ari_valid a \<Longrightarrow> st_obj ?n a gen = None" for a gen using stores_NewState by (auto simp: stores_def empty_store_def)
  then have dn: "deposed_keys_ok ?n" by (simp add: deposed_keys_ok_def)
  obtain l where l: "AllResourceInstanceObjectAddrs (Some ?n) = Some l" "\<forall>a k. (a, k) \<in> set l \<longleftrightarrow> listed ?n a k"
    using AllObjects_listing[OF NewState_wf dn] by blast
  obtain l' where l': "AllResourceInstanceObjectAddrs (Some state0) = Some l'" "\<forall>a k. (a, k) \<in> set l' \<longleftrightarrow> listed state0 a k"
    using AllObjects_listing[OF state0_wf state0_deposed] by blast
  have "(web (IntKey 0), NotDeposed) \<in> set l'" "(web (IntKey 0), NotDeposed) \<notin> set l"
    unfolding l(2)[rule_format] l'(2)[rule_format] by (simp_all add: listed_def state0_obj n)
  then have "l \<noteq> l'" by blast
  with ManagedResourcesEqual_same_objects[OF state0_wf NewState_wf state0_deposed dn, of "\<lambda>_. []" "(=)" "(\<noteq>)"] l(1) l'(1)
  show ?thesis by auto
qed

end
