(* ===== verification/Inst_Expander.thy ===== *)
theory Inst_Expander
  imports Addr_Props
begin

text \<open>
  The expansion of modules and resources into instances (\<^verbatim>\<open>internal/instances\<close>): the repetition modes
  of \<^verbatim>\<open>expansion_mode.go\<close>, the tree of module instances an \<^verbatim>\<open>Expander\<close> keeps, registration and the
  queries of \<^verbatim>\<open>expander.go\<close>, and the lookups of \<^verbatim>\<open>set.go\<close>.

  The functions recurse along a module path, so they end.  A panic is \<open>None\<close>.  Every method holds
  the lock of the expander while it works, except \<^verbatim>\<open>GetDeepestExistingModuleInstance\<close>; the lock itself is
  not part of the model.  \<open>'v\<close> is a \<^verbatim>\<open>cty.Value\<close>.
\<close>

section \<open>Repetition modes\<close>

datatype 'v expansion =
    expansionSingle
  | expansionEnabled bool
  | expansionCount int
  | expansionForEach "(string, 'v) gomap"

text \<open>Allocating a slice of negative length panics.\<close>

fun instanceKeys :: "'v expansion \<Rightarrow> InstanceKey list option" where
  "instanceKeys expansionSingle = Some [NoKey]"
| "instanceKeys (expansionEnabled e) = Some (if \<not> e then [] else [NoKey])"
| "instanceKeys (expansionCount e) = (if e < 0 then None else Some (map (\<lambda>i. IntKey (int i)) [0..<nat e]))"
| "instanceKeys (expansionForEach e) = Some (map StringKey (sort_Stable (<) (map fst e)))"

record 'v RepetitionData =
  CountIndex :: "int option"
  EachKey :: "string option"
  EachValue :: "'v option"

definition noRepetition :: "'v RepetitionData" where
  "noRepetition = \<lparr>CountIndex = None, EachKey = None, EachValue = None\<rparr>"

fun repetitionData :: "'v expansion \<Rightarrow> InstanceKey \<Rightarrow> 'v RepetitionData option" where
  "repetitionData expansionSingle key = (if key \<noteq> NoKey then None else Some noRepetition)"
| "repetitionData (expansionEnabled e) key = (if key \<noteq> NoKey then None else Some noRepetition)"
| "repetitionData (expansionCount e) key =
     (case assert_IntKey key of
        None \<Rightarrow> None
      | Some i \<Rightarrow> if i < 0 \<or> i \<ge> e then None else Some (noRepetition\<lparr>CountIndex := Some i\<rparr>))"
| "repetitionData (expansionForEach e) key =
     (case assert_StringKey key of
        None \<Rightarrow> None
      | Some k \<Rightarrow>
          (case gmap_get e k of
             None \<Rightarrow> None
           | Some v \<Rightarrow> Some (noRepetition\<lparr>EachKey := Some k, EachValue := Some v\<rparr>)))"

section \<open>The tree of module instances\<close>

datatype 'v expanderModule = ExpanderModule
  (em_moduleCalls: "(ModuleCall, 'v expansion) gomap")
  (em_resources: "(Resource, 'v expansion) gomap")
  (em_childInstances: "(ModuleInstanceStep, 'v expanderModule) gomap")

definition newExpanderModule :: "'v expanderModule" where
  "newExpanderModule = ExpanderModule [] [] []"

definition NewExpander :: "'v expanderModule" where
  "NewExpander = newExpanderModule"

fun findModule :: "'v expanderModule \<Rightarrow> ModuleInstance \<Rightarrow> 'v expanderModule option" where
  "findModule md [] = Some md"
| "findModule md (step # rest) =
     (case gmap_get (em_childInstances md) step of
        None \<Rightarrow> None
      | Some nxt \<Rightarrow> findModule nxt rest)"

fun getModuleInstance :: "'v expanderModule \<Rightarrow> ModuleInstance \<Rightarrow> 'v expanderModule option" where
  "getModuleInstance current [] = Some current"
| "getModuleInstance current (step # rest) =
     (case gmap_get (em_childInstances current) step of
        None \<Rightarrow> None
      | Some nxt \<Rightarrow> getModuleInstance nxt rest)"

text \<open>Writing through the pointer to the module at a path.\<close>

fun em_write :: "'v expanderModule \<Rightarrow> ModuleInstance \<Rightarrow> 'v expanderModule \<Rightarrow> 'v expanderModule" where
  "em_write md [] md' = md'"
| "em_write md (step # rest) md' =
     (case gmap_get (em_childInstances md) step of
        None \<Rightarrow> md
      | Some child \<Rightarrow>
          ExpanderModule (em_moduleCalls md) (em_resources md)
            (gmap_put step (em_write child rest md') (em_childInstances md)))"

definition setModuleExpansion :: "'v expanderModule \<Rightarrow> ModuleInstance \<Rightarrow> ModuleCall \<Rightarrow> 'v expansion \<Rightarrow> 'v expanderModule option" where
  "setModuleExpansion e parentAddr callAddr exp =
     (case findModule e parentAddr of
        None \<Rightarrow> None
      | Some md \<Rightarrow>
          if gmap_get (em_moduleCalls md) callAddr \<noteq> None then None
          else case instanceKeys exp of
            None \<Rightarrow> None
          | Some keys \<Rightarrow>
              Some (em_write e parentAddr
                (ExpanderModule (gmap_put callAddr exp (em_moduleCalls md)) (em_resources md)
                  (foldl (\<lambda>m key. gmap_put \<lparr>step_Name = call_Name callAddr, step_InstanceKey = key\<rparr> newExpanderModule m)
                    (em_childInstances md) keys))))"

definition setResourceExpansion :: "'v expanderModule \<Rightarrow> ModuleInstance \<Rightarrow> Resource \<Rightarrow> 'v expansion \<Rightarrow> 'v expanderModule option" where
  "setResourceExpansion e parentAddr resourceAddr exp =
     (case findModule e parentAddr of
        None \<Rightarrow> None
      | Some md \<Rightarrow>
          if gmap_get (em_resources md) resourceAddr \<noteq> None then None
          else Some (em_write e parentAddr
            (ExpanderModule (em_moduleCalls md) (gmap_put resourceAddr exp (em_resources md)) (em_childInstances md))))"

definition SetModuleSingle :: "'v expanderModule \<Rightarrow> ModuleInstance \<Rightarrow> ModuleCall \<Rightarrow> 'v expanderModule option" where
  "SetModuleSingle e parentAddr callAddr = setModuleExpansion e parentAddr callAddr expansionSingle"

definition SetModuleEnabled :: "'v expanderModule \<Rightarrow> ModuleInstance \<Rightarrow> ModuleCall \<Rightarrow> bool \<Rightarrow> 'v expanderModule option" where
  "SetModuleEnabled e parentAddr callAddr enabled = setModuleExpansion e parentAddr callAddr (expansionEnabled enabled)"

definition SetModuleCount :: "'v expanderModule \<Rightarrow> ModuleInstance \<Rightarrow> ModuleCall \<Rightarrow> int \<Rightarrow> 'v expanderModule option" where
  "SetModuleCount e parentAddr callAddr cnt = setModuleExpansion e parentAddr callAddr (expansionCount cnt)"

definition SetModuleForEach ::
  "'v expanderModule \<Rightarrow> ModuleInstance \<Rightarrow> ModuleCall \<Rightarrow> (string, 'v) gomap \<Rightarrow> 'v expanderModule option" where
  "SetModuleForEach e parentAddr callAddr mapping = setModuleExpansion e parentAddr callAddr (expansionForEach mapping)"

definition SetResourceSingle :: "'v expanderModule \<Rightarrow> ModuleInstance \<Rightarrow> Resource \<Rightarrow> 'v expanderModule option" where
  "SetResourceSingle e moduleAddr resourceAddr = setResourceExpansion e moduleAddr resourceAddr expansionSingle"

definition SetResourceCount :: "'v expanderModule \<Rightarrow> ModuleInstance \<Rightarrow> Resource \<Rightarrow> int \<Rightarrow> 'v expanderModule option" where
  "SetResourceCount e moduleAddr resourceAddr cnt = setResourceExpansion e moduleAddr resourceAddr (expansionCount cnt)"

definition SetResourceEnabled :: "'v expanderModule \<Rightarrow> ModuleInstance \<Rightarrow> Resource \<Rightarrow> bool \<Rightarrow> 'v expanderModule option" where
  "SetResourceEnabled e moduleAddr resourceAddr enabled = setResourceExpansion e moduleAddr resourceAddr (expansionEnabled enabled)"

definition SetResourceForEach ::
  "'v expanderModule \<Rightarrow> ModuleInstance \<Rightarrow> Resource \<Rightarrow> (string, 'v) gomap \<Rightarrow> 'v expanderModule option" where
  "SetResourceForEach e moduleAddr resourceAddr mapping = setResourceExpansion e moduleAddr resourceAddr (expansionForEach mapping)"

section \<open>Queries\<close>

text \<open>Appending the results of a loop any of whose rounds may panic.\<close>

fun append_all :: "'a list option list \<Rightarrow> 'a list option" where
  "append_all [] = Some []"
| "append_all (x # xs) = (case x of None \<Rightarrow> None | Some ys \<Rightarrow> map_option ((@) ys) (append_all xs))"

fun moduleInstances :: "'v expanderModule \<Rightarrow> Module \<Rightarrow> ModuleInstance \<Rightarrow> bool \<Rightarrow> ModuleInstance list option" where
  "moduleInstances m [] parentAddr skipUnknown = None"
| "moduleInstances m (callName # rest) parentAddr skipUnknown =
     (case gmap_get (em_moduleCalls m) \<lparr>call_Name = callName\<rparr> of
        None \<Rightarrow> if skipUnknown then Some [] else None
      | Some exp \<Rightarrow>
          if rest \<noteq> [] then
            append_all (map (\<lambda>(step, inst). moduleInstances inst rest (parentAddr @ [step]) skipUnknown)
              (filter (\<lambda>(step, inst). step_Name step = callName) (em_childInstances m)))
          else map_option (map (\<lambda>k. mi_Child parentAddr callName k)) (instanceKeys exp))"

definition expandModule :: "'v expanderModule \<Rightarrow> Module \<Rightarrow> bool \<Rightarrow> ModuleInstance list option" where
  "expandModule e addr skipUnknown =
     (if length addr = 0 then Some [[]]
      else case moduleInstances e addr [] skipUnknown of
        None \<Rightarrow> None
      | Some ret \<Rightarrow> sort_SliceStable mi_Less ret)"

definition ExpandModule :: "'v expanderModule \<Rightarrow> Module \<Rightarrow> ModuleInstance list option" where
  "ExpandModule e addr = expandModule e addr False"

fun deepest_loop :: "'v expanderModule \<Rightarrow> ModuleInstance \<Rightarrow> ModuleInstance \<Rightarrow> ModuleInstance option" where
  "deepest_loop exps before [] = Some before"
| "deepest_loop exps before (step # rest) =
     (if gmap_get (em_moduleCalls exps) \<lparr>call_Name = step_Name step\<rparr> = None then None
      else case gmap_get (em_childInstances exps) step of
        None \<Rightarrow> Some before
      | Some exps' \<Rightarrow> deepest_loop exps' (before @ [step]) rest)"

definition GetDeepestExistingModuleInstance :: "'v expanderModule \<Rightarrow> ModuleInstance \<Rightarrow> ModuleInstance option" where
  "GetDeepestExistingModuleInstance e given = deepest_loop e [] given"

definition onlyResourceInstances :: "'v expanderModule \<Rightarrow> Resource \<Rightarrow> ModuleInstance \<Rightarrow> AbsResourceInstance list option" where
  "onlyResourceInstances m resourceAddr parentAddr =
     (case gmap_get (em_resources m) resourceAddr of
        None \<Rightarrow> None
      | Some exp \<Rightarrow> map_option (map (\<lambda>k. ri_Absolute (res_Instance resourceAddr k) parentAddr)) (instanceKeys exp))"

fun moduleResourceInstances ::
  "'v expanderModule \<Rightarrow> Module \<Rightarrow> Resource \<Rightarrow> ModuleInstance \<Rightarrow> AbsResourceInstance list option" where
  "moduleResourceInstances m [] resourceAddr parentAddr = onlyResourceInstances m resourceAddr parentAddr"
| "moduleResourceInstances m (callName # rest) resourceAddr parentAddr =
     (if gmap_get (em_moduleCalls m) \<lparr>call_Name = callName\<rparr> = None then None
      else append_all (map (\<lambda>(step, inst). moduleResourceInstances inst rest resourceAddr (parentAddr @ [step]))
        (filter (\<lambda>(step, inst). step_Name step = callName) (em_childInstances m))))"

fun resourceInstances ::
  "'v expanderModule \<Rightarrow> ModuleInstance \<Rightarrow> Resource \<Rightarrow> ModuleInstance \<Rightarrow> AbsResourceInstance list option" where
  "resourceInstances m [] resourceAddr parentAddr = onlyResourceInstances m resourceAddr parentAddr"
| "resourceInstances m (step # rest) resourceAddr parentAddr =
     (if gmap_get (em_moduleCalls m) \<lparr>call_Name = step_Name step\<rparr> = None then None
      else case gmap_get (em_childInstances m) step of
        Some inst \<Rightarrow> resourceInstances inst rest resourceAddr (parentAddr @ [step])
      | None \<Rightarrow> Some [])"

definition ExpandModuleResource :: "'v expanderModule \<Rightarrow> Module \<Rightarrow> Resource \<Rightarrow> AbsResourceInstance list option" where
  "ExpandModuleResource e moduleAddr resourceAddr =
     (case moduleResourceInstances e moduleAddr resourceAddr [] of
        None \<Rightarrow> None
      | Some ret \<Rightarrow> sort_SliceStable ari_Less ret)"

definition ExpandResource :: "'v expanderModule \<Rightarrow> AbsResource \<Rightarrow> AbsResourceInstance list option" where
  "ExpandResource e resourceAddr =
     (case resourceInstances e (ar_Module resourceAddr) (ar_Resource resourceAddr) [] of
        None \<Rightarrow> None
      | Some ret \<Rightarrow> sort_SliceStable ari_Less ret)"

definition GetModuleInstanceRepetitionData :: "'v expanderModule \<Rightarrow> ModuleInstance \<Rightarrow> 'v RepetitionData option" where
  "GetModuleInstanceRepetitionData e addr =
     (if length addr = 0 then Some noRepetition
      else case findModule e (butlast addr) of
        None \<Rightarrow> None
      | Some parentMod \<Rightarrow>
          (case gmap_get (em_moduleCalls parentMod) \<lparr>call_Name = step_Name (last addr)\<rparr> of
             None \<Rightarrow> None
           | Some exp \<Rightarrow> repetitionData exp (step_InstanceKey (last addr))))"

definition GetResourceInstanceRepetitionData :: "'v expanderModule \<Rightarrow> AbsResourceInstance \<Rightarrow> 'v RepetitionData option" where
  "GetResourceInstanceRepetitionData e addr =
     (case findModule e (ari_Module addr) of
        None \<Rightarrow> None
      | Some parentMod \<Rightarrow>
          (case gmap_get (em_resources parentMod) (ri_Resource (ari_Resource addr)) of
             None \<Rightarrow> None
           | Some exp \<Rightarrow> repetitionData exp (ri_Key (ari_Resource addr))))"

section \<open>Lookups\<close>

definition knowsModuleInstance :: "'v expanderModule \<Rightarrow> ModuleInstance \<Rightarrow> bool" where
  "knowsModuleInstance e want = (if mi_IsRoot want then True else getModuleInstance e want \<noteq> None)"

definition knowsModuleCall :: "'v expanderModule \<Rightarrow> AbsModuleCall \<Rightarrow> bool" where
  "knowsModuleCall e want =
     (case getModuleInstance e (amc_Module want) of
        None \<Rightarrow> False
      | Some modInst \<Rightarrow> gmap_get (em_moduleCalls modInst) (amc_Call want) \<noteq> None)"

text \<open>The loop over the keys of an expansion, whose evaluation may panic.\<close>

definition knowsResourceInstance :: "'v expanderModule \<Rightarrow> AbsResourceInstance \<Rightarrow> bool option" where
  "knowsResourceInstance e want =
     (case getModuleInstance e (ari_Module want) of
        None \<Rightarrow> Some False
      | Some modInst \<Rightarrow>
          (case gmap_get (em_resources modInst) (ri_Resource (ari_Resource want)) of
             None \<Rightarrow> Some False
           | Some resourceExp \<Rightarrow>
               map_option (list_ex (\<lambda>key. key = ri_Key (ari_Resource want))) (instanceKeys resourceExp)))"

definition knowsResource :: "'v expanderModule \<Rightarrow> AbsResource \<Rightarrow> bool" where
  "knowsResource e want =
     (case getModuleInstance e (ar_Module want) of
        None \<Rightarrow> False
      | Some modInst \<Rightarrow> gmap_get (em_resources modInst) (ar_Resource want) \<noteq> None)"

definition InstancesForModule :: "'v expanderModule \<Rightarrow> Module \<Rightarrow> ModuleInstance list option" where
  "InstancesForModule e modAddr = expandModule e modAddr True"

end
