(* ===== verification/Inst_Tree.thy ===== *)
theory Inst_Tree
  imports Inst_Expander
begin

text \<open>
  The invariant of the expander's tree and its meaning: a module instance has a node exactly
  when its parent has one, its call is registered there and its key is among the keys of that
  registration.
\<close>

section \<open>Keys\<close>

definition exp_ok :: "'v expansion \<Rightarrow> bool" where
  "exp_ok exp = (case exp of expansionCount n \<Rightarrow> 0 \<le> n | expansionForEach m \<Rightarrow> gmap_ok m | _ \<Rightarrow> True)"

definition keys_of :: "'v expansion \<Rightarrow> InstanceKey list" where
  "keys_of exp = (case instanceKeys exp of None \<Rightarrow> [] | Some keys \<Rightarrow> keys)"

lemma distinct_sort_Stable: "distinct (sort_Stable lt xs) \<longleftrightarrow> distinct xs"
  by (metis mset_sort_Stable mset_eq_imp_distinct_iff)

lemma keys_of_ok:
  assumes "exp_ok exp"
  shows "instanceKeys exp = Some (keys_of exp)" "distinct (keys_of exp)" "k \<in> set (keys_of exp) \<Longrightarrow> \<not> IsPlaceholder k"
    and "k \<in> set (keys_of exp) \<longleftrightarrow>
      (case exp of expansionSingle \<Rightarrow> k = NoKey | expansionEnabled e \<Rightarrow> e \<and> k = NoKey
       | expansionCount n \<Rightarrow> (\<exists>i. k = IntKey i \<and> 0 \<le> i \<and> i < n)
       | expansionForEach m \<Rightarrow> (\<exists>s. k = StringKey s \<and> gmap_get m s \<noteq> None))"
proof -
  show "instanceKeys exp = Some (keys_of exp)"
    using assms by (cases exp) (auto simp: exp_ok_def keys_of_def)
  show "distinct (keys_of exp)"
    using assms by (cases exp) (auto simp: exp_ok_def keys_of_def distinct_map inj_on_def distinct_sort_Stable gmap_ok_def)
  show "k \<in> set (keys_of exp) \<Longrightarrow> \<not> IsPlaceholder k"
    by (cases exp) (auto simp: keys_of_def split: if_splits)
  have count: "(\<exists>i \<in> {0..<nat n}. k = IntKey (int i)) \<longleftrightarrow> (\<exists>i. k = IntKey i \<and> 0 \<le> i \<and> i < n)" for n
  proof
    assume "\<exists>i. k = IntKey i \<and> 0 \<le> i \<and> i < n"
    then obtain i where "k = IntKey i" "0 \<le> i" "i < n" by blast
    then show "\<exists>i \<in> {0..<nat n}. k = IntKey (int i)" by (intro bexI[of _ "nat i"]) auto
  qed auto
  show "k \<in> set (keys_of exp) \<longleftrightarrow>
      (case exp of expansionSingle \<Rightarrow> k = NoKey | expansionEnabled e \<Rightarrow> e \<and> k = NoKey
       | expansionCount n \<Rightarrow> (\<exists>i. k = IntKey i \<and> 0 \<le> i \<and> i < n)
       | expansionForEach m \<Rightarrow> (\<exists>s. k = StringKey s \<and> gmap_get m s \<noteq> None))"
    using assms count
    by (cases exp) (auto simp: exp_ok_def keys_of_def image_iff domI simp flip: dom_map_of_conv_image_fst)
qed

section \<open>Nodes\<close>

lemma findModule_get: "findModule e m = getModuleInstance e m"
  by (induction e m rule: findModule.induct) (auto split: option.split)

lemma get_append:
  "getModuleInstance e (p @ q) = (case getModuleInstance e p of None \<Rightarrow> None | Some md \<Rightarrow> getModuleInstance md q)"
  by (induction e p rule: getModuleInstance.induct) (auto split: option.split)

definition em_call :: "'v expanderModule \<Rightarrow> ModuleInstance \<Rightarrow> ModuleCall \<Rightarrow> 'v expansion option" where
  "em_call e m c = (case getModuleInstance e m of None \<Rightarrow> None | Some md \<Rightarrow> gmap_get (em_moduleCalls md) c)"

definition em_resource :: "'v expanderModule \<Rightarrow> ModuleInstance \<Rightarrow> Resource \<Rightarrow> 'v expansion option" where
  "em_resource e m r = (case getModuleInstance e m of None \<Rightarrow> None | Some md \<Rightarrow> gmap_get (em_resources md) r)"

definition node_ok :: "'v expanderModule \<Rightarrow> bool" where
  "node_ok md \<longleftrightarrow> gmap_ok (em_childInstances md) \<and>
     (\<forall>c exp. gmap_get (em_moduleCalls md) c = Some exp \<longrightarrow> exp_ok exp) \<and>
     (\<forall>r exp. gmap_get (em_resources md) r = Some exp \<longrightarrow> exp_ok exp) \<and>
     (\<forall>step. gmap_get (em_childInstances md) step \<noteq> None \<longleftrightarrow>
        (\<exists>exp. gmap_get (em_moduleCalls md) \<lparr>call_Name = step_Name step\<rparr> = Some exp \<and> step_InstanceKey step \<in> set (keys_of exp)))"

lemma node_children:
  "node_ok md \<Longrightarrow> gmap_get (em_childInstances md) step \<noteq> None \<longleftrightarrow>
    (\<exists>exp. gmap_get (em_moduleCalls md) \<lparr>call_Name = step_Name step\<rparr> = Some exp \<and> step_InstanceKey step \<in> set (keys_of exp))"
  unfolding node_ok_def by blast

lemma em_at:
  "getModuleInstance e p = Some md \<Longrightarrow> em_call e p = gmap_get (em_moduleCalls md)"
  "getModuleInstance e p = Some md \<Longrightarrow> em_resource e p = gmap_get (em_resources md)"
  by (simp_all add: fun_eq_iff em_call_def em_resource_def)

definition em_wf :: "'v expanderModule \<Rightarrow> bool" where
  "em_wf e \<longleftrightarrow> (\<forall>m md. getModuleInstance e m = Some md \<longrightarrow> node_ok md)"

lemma em_wf_node: "em_wf e \<Longrightarrow> node_ok e"
  by (auto simp: em_wf_def dest: spec[of _ "[]"])

lemma em_wf_child: "em_wf e \<Longrightarrow> gmap_get (em_childInstances e) step = Some md \<Longrightarrow> em_wf md"
  unfolding em_wf_def by (metis getModuleInstance.simps(2) option.simps(5))

lemma em_wf_get: "em_wf e \<Longrightarrow> getModuleInstance e m = Some md \<Longrightarrow> em_wf md"
  by (induction e m rule: getModuleInstance.induct) (auto split: option.splits dest: em_wf_child)

lemma get_new: "getModuleInstance newExpanderModule m = (if m = [] then Some newExpanderModule else None)"
  by (cases m) (auto simp: newExpanderModule_def)

lemma node_ok_new: "node_ok newExpanderModule"
  by (simp add: node_ok_def newExpanderModule_def)

lemma NewExpander_wf: "em_wf NewExpander"
  by (simp add: em_wf_def NewExpander_def get_new node_ok_new split: if_splits)

text \<open>The module instances that a set of registrations declares.\<close>

inductive declared :: "(ModuleInstance \<Rightarrow> ModuleCall \<Rightarrow> 'v expansion option) \<Rightarrow> ModuleInstance \<Rightarrow> bool"
  for calls :: "ModuleInstance \<Rightarrow> ModuleCall \<Rightarrow> 'v expansion option" where
  root: "declared calls []"
| child: "declared calls m \<Longrightarrow> calls m \<lparr>call_Name = step_Name step\<rparr> = Some exp \<Longrightarrow> step_InstanceKey step \<in> set (keys_of exp) \<Longrightarrow>
    declared calls (m @ [step])"

inductive_simps declared_snoc: "declared calls (m @ [step])"

lemma known_declared:
  assumes "em_wf e"
  shows "getModuleInstance e m \<noteq> None \<longleftrightarrow> declared (em_call e) m"
proof (induction m rule: rev_induct)
  case (snoc step m)
  show ?case
  proof (cases "getModuleInstance e m")
    case None
    with snoc show ?thesis by (auto simp: get_append declared_snoc)
  next
    case (Some md)
    then have "node_ok md" using assms by (auto simp: em_wf_def)
    then have "gmap_get (em_childInstances md) step \<noteq> None \<longleftrightarrow>
        (\<exists>exp. em_call e m \<lparr>call_Name = step_Name step\<rparr> = Some exp \<and> step_InstanceKey step \<in> set (keys_of exp))"
      using Some by (simp add: node_ok_def em_call_def)
    moreover have "getModuleInstance e (m @ [step]) \<noteq> None \<longleftrightarrow> gmap_get (em_childInstances md) step \<noteq> None"
      using Some by (simp add: get_append split: option.split)
    ultimately show ?thesis using Some snoc by (auto simp: declared_snoc)
  qed
qed (simp add: declared.root)

section \<open>Writing\<close>

lemma get_write:
  assumes "getModuleInstance e p = Some md"
  shows "getModuleInstance (em_write e p md') (p @ q) = getModuleInstance md' q"
  using assms
proof (induction e p md' rule: em_write.induct)
  case (2 md step rest md')
  then show ?case by (auto simp: gm.get_put split: option.splits)
qed simp

text \<open>Away from the path only the children map of the nodes above changes.\<close>

lemma get_write_other:
  assumes "getModuleInstance e p = Some md" "\<nexists>r. q = p @ r"
  shows "getModuleInstance (em_write e p md') q = getModuleInstance e q \<or>
    (\<exists>n n'. getModuleInstance e q = Some n \<and> getModuleInstance (em_write e p md') q = Some n' \<and>
      em_moduleCalls n' = em_moduleCalls n \<and> em_resources n' = em_resources n \<and>
      gmap_keys (em_childInstances n') = gmap_keys (em_childInstances n) \<and> (gmap_ok (em_childInstances n) \<longrightarrow> gmap_ok (em_childInstances n')))"
  using assms
proof (induction e p md' arbitrary: q rule: em_write.induct)
  case (2 md0 step rest md')
  then obtain c where c: "gmap_get (em_childInstances md0) step = Some c" "getModuleInstance c rest = Some md"
    by (auto split: option.splits)
  show ?case
  proof (cases q)
    case Nil
    have "step \<in> gmap_keys (em_childInstances md0)" using c(1) by (simp add: gm.keys_get)
    then show ?thesis using Nil c(1) by (auto simp: gm.keys_put gm.ok_put)
  next
    case (Cons st q')
    show ?thesis
    proof (cases "st = step")
      case True
      with Cons "2.prems"(2) have "\<nexists>r. q' = rest @ r" by auto
      from "2.IH"[OF c this] True Cons c(1) show ?thesis by (simp add: gm.get_put)
    qed (use Cons c(1) in \<open>simp add: gm.get_put\<close>)
  qed
qed simp

lemma node_ok_cong:
  assumes "node_ok n" "em_moduleCalls n' = em_moduleCalls n" "em_resources n' = em_resources n"
    and "gmap_keys (em_childInstances n') = gmap_keys (em_childInstances n)"
    and "gmap_ok (em_childInstances n) \<longrightarrow> gmap_ok (em_childInstances n')"
  shows "node_ok n'"
proof -
  have "gmap_get (em_childInstances n') step \<noteq> None \<longleftrightarrow> gmap_get (em_childInstances n) step \<noteq> None" for step
    unfolding gm.keys_get[symmetric] using assms(4) by simp
  with assms show ?thesis by (simp add: node_ok_def)
qed

text \<open>
  Replacing the node at a path by one that has the old children and possibly new empty ones.
\<close>

lemma write_extended:
  assumes wf: "em_wf e" and md: "getModuleInstance e p = Some md" and ok: "node_ok md'"
    and children: "\<And>step. gmap_get (em_childInstances md') step = gmap_get (em_childInstances md) step \<or>
      gmap_get (em_childInstances md) step = None \<and> gmap_get (em_childInstances md') step = Some newExpanderModule"
  shows "em_wf (em_write e p md')"
    and "em_call (em_write e p md') q c = (if q = p then gmap_get (em_moduleCalls md') c else em_call e q c)"
    and "em_resource (em_write e p md') q r = (if q = p then gmap_get (em_resources md') r else em_resource e q r)"
proof -
  let ?e = "em_write e p md'"
  have below: "getModuleInstance ?e (p @ st # t) = getModuleInstance e (p @ st # t) \<or>
      getModuleInstance e (p @ st # t) = None \<and> getModuleInstance ?e (p @ st # t) \<in> {None, Some newExpanderModule}" for st t
  proof -
    have "getModuleInstance ?e (p @ st # t) = getModuleInstance md' (st # t)" by (rule get_write[OF md])
    moreover have "getModuleInstance e (p @ st # t) = getModuleInstance md (st # t)" using md by (simp add: get_append)
    ultimately show ?thesis using children[of st] by (auto simp: get_new)
  qed
  have at: "getModuleInstance ?e p = Some md'" using get_write[OF md, of md' "[]"] by simp
  have cases: "(q = p \<and> getModuleInstance ?e q = Some md') \<or> (q \<noteq> p \<and> (getModuleInstance ?e q = getModuleInstance e q \<or>
      getModuleInstance e q = None \<and> getModuleInstance ?e q \<in> {None, Some newExpanderModule} \<or>
      (\<exists>n n'. getModuleInstance e q = Some n \<and> getModuleInstance ?e q = Some n' \<and>
        em_moduleCalls n' = em_moduleCalls n \<and> em_resources n' = em_resources n \<and>
        gmap_keys (em_childInstances n') = gmap_keys (em_childInstances n) \<and>
        (gmap_ok (em_childInstances n) \<longrightarrow> gmap_ok (em_childInstances n')))))" for q
  proof (cases "\<exists>r. q = p @ r")
    case True
    then obtain r where r: "q = p @ r" by blast
    show ?thesis
    proof (cases r)
      case (Cons st t)
      with r below[of st t] show ?thesis by auto
    qed (use r at in auto)
  next
    case False
    then have "q \<noteq> p" by auto
    with get_write_other[OF md False, of md'] show ?thesis by blast
  qed
  show "em_wf ?e"
    unfolding em_wf_def
  proof (intro allI impI)
    fix q n' assume n': "getModuleInstance ?e q = Some n'"
    have old: "getModuleInstance e q = Some n \<Longrightarrow> node_ok n" for n using wf by (auto simp: em_wf_def)
    from cases[of q] n' show "node_ok n'" using ok old node_ok_new by (auto intro: node_ok_cong)
  qed
  show "em_call ?e q c = (if q = p then gmap_get (em_moduleCalls md') c else em_call e q c)"
    using cases[of q] by (auto simp: em_call_def newExpanderModule_def)
  show "em_resource ?e q r = (if q = p then gmap_get (em_resources md') r else em_resource e q r)"
    using cases[of q] by (auto simp: em_resource_def newExpanderModule_def)
qed

lemma get_put_all:
  "gmap_get (foldl (\<lambda>m key. gmap_put (f key) v m) l keys) k = (if k \<in> f ` set keys then Some v else gmap_get l k)"
  by (induction keys arbitrary: l) (auto simp: gm.get_put)

lemma ok_put_all: "gmap_ok l \<Longrightarrow> gmap_ok (foldl (\<lambda>m key. gmap_put (f key) v m) l keys)"
  by (induction keys arbitrary: l) (auto simp: gm.ok_put)

section \<open>Registration\<close>

lemma setModuleExpansion_effect:
  assumes wf: "em_wf e" and exp: "exp_ok exp"
  shows "setModuleExpansion e p c exp = None \<longleftrightarrow> getModuleInstance e p = None \<or> em_call e p c \<noteq> None"
    and "setModuleExpansion e p c exp = Some e' \<Longrightarrow> em_wf e' \<and>
      em_call e' = (em_call e)(p := (em_call e p)(c \<mapsto> exp)) \<and> em_resource e' = em_resource e"
proof -
  show "setModuleExpansion e p c exp = None \<longleftrightarrow> getModuleInstance e p = None \<or> em_call e p c \<noteq> None"
    using keys_of_ok(1)[OF exp] by (auto simp: setModuleExpansion_def findModule_get em_call_def split: option.splits)
  assume s: "setModuleExpansion e p c exp = Some e'"
  let ?ch = "\<lambda>md. foldl (\<lambda>m key. gmap_put \<lparr>step_Name = call_Name c, step_InstanceKey = key\<rparr> newExpanderModule m)
      (em_childInstances md) (keys_of exp)"
  let ?md = "\<lambda>md. ExpanderModule (gmap_put c exp (em_moduleCalls md)) (em_resources md) (?ch md)"
  obtain md where md: "getModuleInstance e p = Some md" "gmap_get (em_moduleCalls md) c = None" "e' = em_write e p (?md md)"
    using s keys_of_ok(1)[OF exp] by (auto simp: setModuleExpansion_def findModule_get split: option.splits if_splits)
  have n: "node_ok md" using wf md(1) by (auto simp: em_wf_def)
  have c: "\<lparr>call_Name = s\<rparr> = c \<longleftrightarrow> s = call_Name c" for s by (cases c) auto
  have step: "st \<in> (\<lambda>key. \<lparr>step_Name = call_Name c, step_InstanceKey = key\<rparr>) ` set (keys_of exp) \<longleftrightarrow>
      step_Name st = call_Name c \<and> step_InstanceKey st \<in> set (keys_of exp)" for st :: ModuleInstanceStep
    by (cases st) auto
  have none: "gmap_get (em_childInstances md) st = None" if "step_Name st = call_Name c" for st
  proof -
    have "\<lparr>call_Name = step_Name st\<rparr> = c" using c that by simp
    from node_children[OF n, of st, unfolded this] md(2) show ?thesis by simp
  qed
  have eta: "\<lparr>call_Name = call_Name c\<rparr> = c" by (cases c) simp
  have new: "gmap_get (em_moduleCalls md) \<lparr>call_Name = call_Name c\<rparr> = None" unfolding eta by (rule md(2))
  have "node_ok (?md md)"
    using n exp md(2) none new by (auto simp: node_ok_def ok_put_all get_put_all gm.get_put step c)
  moreover have "gmap_get (em_childInstances (?md md)) st = gmap_get (em_childInstances md) st \<or>
      gmap_get (em_childInstances md) st = None \<and> gmap_get (em_childInstances (?md md)) st = Some newExpanderModule" for st
    using none[of st] by (auto simp: get_put_all step)
  note w = write_extended[OF wf md(1) calculation this, folded md(3)]
  show "em_wf e' \<and> em_call e' = (em_call e)(p := (em_call e p)(c \<mapsto> exp)) \<and> em_resource e' = em_resource e"
    using w(1) em_at[OF md(1)] by (auto simp: fun_eq_iff w(2,3) gm.get_put)
qed

lemma setResourceExpansion_effect:
  assumes wf: "em_wf e" and exp: "exp_ok exp"
  shows "setResourceExpansion e p r exp = None \<longleftrightarrow> getModuleInstance e p = None \<or> em_resource e p r \<noteq> None"
    and "setResourceExpansion e p r exp = Some e' \<Longrightarrow> em_wf e' \<and>
      em_resource e' = (em_resource e)(p := (em_resource e p)(r \<mapsto> exp)) \<and> em_call e' = em_call e"
proof -
  show "setResourceExpansion e p r exp = None \<longleftrightarrow> getModuleInstance e p = None \<or> em_resource e p r \<noteq> None"
    by (auto simp: setResourceExpansion_def findModule_get em_resource_def split: option.splits)
  assume s: "setResourceExpansion e p r exp = Some e'"
  let ?md = "\<lambda>md. ExpanderModule (em_moduleCalls md) (gmap_put r exp (em_resources md)) (em_childInstances md)"
  obtain md where md: "getModuleInstance e p = Some md" "e' = em_write e p (?md md)"
    using s by (auto simp: setResourceExpansion_def findModule_get split: option.splits if_splits)
  have n: "node_ok md" using wf md(1) by (auto simp: em_wf_def)
  have "node_ok (?md md)" using n exp by (auto simp: node_ok_def gm.get_put split: if_splits)
  note w = write_extended[OF wf md(1) this, folded md(2), simplified]
  show "em_wf e' \<and> em_resource e' = (em_resource e)(p := (em_resource e p)(r \<mapsto> exp)) \<and> em_call e' = em_call e"
    using w(1) em_at[OF md(1)] by (auto simp: fun_eq_iff w(2,3) gm.get_put)
qed

end
