(* ===== verification/Inst_Query.thy ===== *)
theory Inst_Query
  imports Inst_Tree
begin

text \<open>
  What the queries of the expander collect: every function that walks the tree returns the
  declared instances below a prefix, each once, and panics exactly when a call or resource on
  the way is not registered.
\<close>

section \<open>Expansion of modules\<close>

lemma append_all_eq: "append_all xs = (if None \<in> set xs then None else Some (concat (map the xs)))"
  by (induction xs) (auto split: option.split)

text \<open>Every module instance on the way to \<open>addr\<close> has the next call of the path registered.\<close>

definition registered :: "'v expanderModule \<Rightarrow> Module \<Rightarrow> bool" where
  "registered e addr \<longleftrightarrow> (\<forall>p n rest m. addr = p @ n # rest \<longrightarrow> mi_Module m = p \<longrightarrow> getModuleInstance e m \<noteq> None \<longrightarrow>
     em_call e m \<lparr>call_Name = n\<rparr> \<noteq> None)"

lemma mi_Module_Cons: "mi_Module m = n # p \<longleftrightarrow> (\<exists>step m'. m = step # m' \<and> step_Name step = n \<and> mi_Module m' = p)"
  by (cases m) (auto simp: mi_Module_def)

lemma mi_Module_Nil [simp]: "mi_Module m = [] \<longleftrightarrow> m = []" "mi_Module [] = []"
  by (auto simp: mi_Module_def)

lemma em_call_Cons: "em_call e (step # m) c = (case gmap_get (em_childInstances e) step of None \<Rightarrow> None | Some md \<Rightarrow> em_call md m c)"
  by (simp add: em_call_def split: option.split)

lemma em_resource_Cons: "em_resource e (step # m) r = (case gmap_get (em_childInstances e) step of None \<Rightarrow> None | Some md \<Rightarrow> em_resource md m r)"
  by (simp add: em_resource_def split: option.split)

lemma em_root: "em_call e [] c = gmap_get (em_moduleCalls e) c" "em_resource e [] r = gmap_get (em_resources e) r"
  by (simp_all add: em_call_def em_resource_def)

lemma child_iff: "em_wf e \<Longrightarrow> x \<in> set (em_childInstances e) \<longleftrightarrow> gmap_get (em_childInstances e) (fst x) = Some (snd x)"
  using em_wf_node[of e] gmap_get_in_set[of "em_childInstances e" "fst x" "snd x"] by (simp add: node_ok_def)

text \<open>The children of a node that are instances of one call.\<close>

abbreviation call_children :: "'v expanderModule \<Rightarrow> string \<Rightarrow> (ModuleInstanceStep \<times> 'v expanderModule) list" where
  "call_children e n \<equiv> filter (\<lambda>(step, inst). step_Name step = n) (em_childInstances e)"

lemma call_children_iff:
  "em_wf e \<Longrightarrow> x \<in> set (call_children e n) \<longleftrightarrow> gmap_get (em_childInstances e) (fst x) = Some (snd x) \<and> step_Name (fst x) = n"
  using child_iff[of e x] by auto

lemma registered_Cons:
  assumes "em_wf e"
  shows "registered e (n # rest) \<longleftrightarrow> gmap_get (em_moduleCalls e) \<lparr>call_Name = n\<rparr> \<noteq> None \<and>
    (\<forall>x \<in> set (call_children e n). registered (snd x) rest)"
proof
  assume reg: "registered e (n # rest)"
  have "gmap_get (em_moduleCalls e) \<lparr>call_Name = n\<rparr> \<noteq> None"
    using reg[unfolded registered_def, rule_format, of "[]" n rest "[]"] by (simp add: em_root)
  moreover have "registered (snd x) rest" if "x \<in> set (call_children e n)" for x
    unfolding registered_def
  proof (intro allI impI)
    fix p n' rest' m assume a: "rest = p @ n' # rest'" "mi_Module m = p" "getModuleInstance (snd x) m \<noteq> None"
    have x: "gmap_get (em_childInstances e) (fst x) = Some (snd x)" "step_Name (fst x) = n"
      using that call_children_iff[OF assms] by blast+
    then have "em_call e (fst x # m) \<lparr>call_Name = n'\<rparr> \<noteq> None"
      using reg[unfolded registered_def, rule_format, of "n # p" n' rest' "fst x # m"] a by (simp add: mi_Module_def)
    then show "em_call (snd x) m \<lparr>call_Name = n'\<rparr> \<noteq> None" using x(1) by (simp add: em_call_Cons)
  qed
  ultimately show "gmap_get (em_moduleCalls e) \<lparr>call_Name = n\<rparr> \<noteq> None \<and> (\<forall>x \<in> set (call_children e n). registered (snd x) rest)" by blast
next
  assume R: "gmap_get (em_moduleCalls e) \<lparr>call_Name = n\<rparr> \<noteq> None \<and> (\<forall>x \<in> set (call_children e n). registered (snd x) rest)"
  show "registered e (n # rest)"
    unfolding registered_def
  proof (intro allI impI)
    fix p n' rest' m assume a: "n # rest = p @ n' # rest'" "mi_Module m = p" "getModuleInstance e m \<noteq> None"
    show "em_call e m \<lparr>call_Name = n'\<rparr> \<noteq> None"
    proof (cases p)
      case (Cons n0 p')
      with a(1,2) obtain step m' where m: "m = step # m'" "step_Name step = n" "mi_Module m' = p'" "rest = p' @ n' # rest'"
        by (auto simp: mi_Module_Cons)
      with a(3) obtain md where md: "gmap_get (em_childInstances e) step = Some md" "getModuleInstance md m' \<noteq> None"
        by (auto split: option.splits)
      have "registered md rest" using R call_children_iff[OF assms, of "(step, md)"] md(1) m(2) by force
      from this[unfolded registered_def, rule_format, OF m(4,3) md(2)] show ?thesis using m(1) md(1) by (simp add: em_call_Cons)
    qed (use a R in \<open>simp add: em_root\<close>)
  qed
qed

text \<open>The existing instances of a module, one level at a time.\<close>

definition known_of :: "'v expanderModule \<Rightarrow> Module \<Rightarrow> ModuleInstance set" where
  "known_of e addr = {m. mi_Module m = addr \<and> getModuleInstance e m \<noteq> None}"

lemma known_of_Nil [simp]: "known_of e [] = {[]}"
  by (auto simp: known_of_def)

lemma known_of_Cons:
  assumes "em_wf e"
  shows "known_of e (n # rest) = (\<Union>x \<in> set (call_children e n). (#) (fst x) ` known_of (snd x) rest)"
proof -
  have "m \<in> known_of e (n # rest) \<longleftrightarrow> (\<exists>x \<in> set (call_children e n). \<exists>m'. m = fst x # m' \<and> m' \<in> known_of (snd x) rest)" for m
  proof
    assume "m \<in> known_of e (n # rest)"
    then obtain step m' md where "m = step # m'" "step_Name step = n" "mi_Module m' = rest"
        "gmap_get (em_childInstances e) step = Some md" "getModuleInstance md m' \<noteq> None"
      by (auto simp: known_of_def mi_Module_Cons split: option.splits)
    then show "\<exists>x \<in> set (call_children e n). \<exists>m'. m = fst x # m' \<and> m' \<in> known_of (snd x) rest"
      using call_children_iff[OF assms, of "(step, md)"] by (intro bexI[of _ "(step, md)"]) (auto simp: known_of_def)
  next
    assume "\<exists>x \<in> set (call_children e n). \<exists>m'. m = fst x # m' \<and> m' \<in> known_of (snd x) rest"
    then obtain x m' where x: "x \<in> set (call_children e n)" "m = fst x # m'" "m' \<in> known_of (snd x) rest" by blast
    then have "gmap_get (em_childInstances e) (fst x) = Some (snd x)" "step_Name (fst x) = n"
      using call_children_iff[OF assms] by blast+
    with x show "m \<in> known_of e (n # rest)" by (auto simp: known_of_def mi_Module_def)
  qed
  then show ?thesis by blast
qed

lemma known_of_single:
  assumes "em_wf e" "gmap_get (em_moduleCalls e) \<lparr>call_Name = n\<rparr> = Some exp"
  shows "known_of e [n] = (\<lambda>k. [\<lparr>step_Name = n, step_InstanceKey = k\<rparr>]) ` set (keys_of exp)"
proof -
  note node = node_children[OF em_wf_node[OF assms(1)]]
  have "m \<in> known_of e [n] \<longleftrightarrow> (\<exists>k \<in> set (keys_of exp). m = [\<lparr>step_Name = n, step_InstanceKey = k\<rparr>])" for m
  proof
    assume "m \<in> known_of e [n]"
    then obtain step where s: "m = [step]" "step_Name step = n" "gmap_get (em_childInstances e) step \<noteq> None"
      by (auto simp: known_of_def mi_Module_Cons split: option.splits)
    then have "step_InstanceKey step \<in> set (keys_of exp)" using node[of step] assms(2) by auto
    with s show "\<exists>k \<in> set (keys_of exp). m = [\<lparr>step_Name = n, step_InstanceKey = k\<rparr>]" by (intro bexI) auto
  next
    assume "\<exists>k \<in> set (keys_of exp). m = [\<lparr>step_Name = n, step_InstanceKey = k\<rparr>]"
    then obtain k where k: "k \<in> set (keys_of exp)" "m = [\<lparr>step_Name = n, step_InstanceKey = k\<rparr>]" by blast
    then have "gmap_get (em_childInstances e) \<lparr>step_Name = n, step_InstanceKey = k\<rparr> \<noteq> None"
      using node[of "\<lparr>step_Name = n, step_InstanceKey = k\<rparr>"] assms(2) by auto
    with k show "m \<in> known_of e [n]" by (auto simp: known_of_def mi_Module_def)
  qed
  then show ?thesis by blast
qed

text \<open>What the loop over the children of a call collects.\<close>

lemma append_children:
  assumes "distinct (map fst cs)"
    and F: "\<And>x. x \<in> set cs \<Longrightarrow> (case F x of None \<Rightarrow> \<not> P x | Some l \<Rightarrow> P x \<and> distinct l \<and> set l = S x)"
    and g: "\<And>x y. x \<in> set cs \<Longrightarrow> y \<in> S x \<Longrightarrow> g y = fst x"
  shows "case append_all (map F cs) of
      None \<Rightarrow> \<not> (\<forall>x \<in> set cs. P x)
    | Some l \<Rightarrow> (\<forall>x \<in> set cs. P x) \<and> distinct l \<and> set l = (\<Union>x \<in> set cs. S x)"
proof (cases "\<exists>x \<in> set cs. F x = None")
  case True
  then obtain x where x: "x \<in> set cs" "F x = None" by blast
  with F[OF x(1)] have "\<not> P x" by simp
  moreover have "append_all (map F cs) = None" using x by (force simp: append_all_eq)
  ultimately show ?thesis using x(1) by auto
next
  case False
  have L: "P x \<and> distinct (the (F x)) \<and> set (the (F x)) = S x" if "x \<in> set cs" for x
    using F[OF that] False that by (cases "F x") auto
  from assms(1) have "distinct (concat (map (\<lambda>x. the (F x)) cs))"
    by (rule distinct_concat_tagged[where g = g]) (use L g in auto)
  moreover have "append_all (map F cs) = Some (concat (map (\<lambda>x. the (F x)) cs))"
    using False by (auto simp: append_all_eq comp_def image_iff)
  ultimately show ?thesis using L by simp
qed

lemma call_children_distinct: "em_wf e \<Longrightarrow> distinct (map fst (call_children e n))"
  using em_wf_node[of e] by (simp add: node_ok_def gmap_ok_def distinct_map_filter)

lemma call_children_none:
  assumes "em_wf e" "gmap_get (em_moduleCalls e) \<lparr>call_Name = n\<rparr> = None"
  shows "set (call_children e n) = {}"
proof (rule equals0I)
  fix x assume "x \<in> set (call_children e n)"
  then have x: "gmap_get (em_childInstances e) (fst x) = Some (snd x)" "step_Name (fst x) = n"
    using call_children_iff[OF assms(1)] by blast+
  then show False using node_children[OF em_wf_node[OF assms(1)], of "fst x"] assms(2) by simp
qed

lemma moduleInstances_spec:
  assumes "em_wf e" "addr \<noteq> []"
  shows "case moduleInstances e addr p sk of
      None \<Rightarrow> \<not> (sk \<or> registered e addr)
    | Some l \<Rightarrow> (sk \<or> registered e addr) \<and> distinct l \<and> set l = (@) p ` known_of e addr"
  using assms
proof (induction addr arbitrary: e p)
  case (Cons n rest)
  note wf = Cons.prems(1)
  show ?case
  proof (cases "gmap_get (em_moduleCalls e) \<lparr>call_Name = n\<rparr>")
    case None
    then have "known_of e (n # rest) = {}" unfolding known_of_Cons[OF wf] call_children_none[OF wf None] by simp
    with None show ?thesis by (simp add: registered_Cons[OF wf])
  next
    case (Some exp)
    then have exp: "exp_ok exp" using em_wf_node[OF wf] by (auto simp: node_ok_def)
    show ?thesis
    proof (cases "rest = []")
      case True
      have "registered e [n]" using Some by (simp add: registered_Cons[OF wf]) (simp add: registered_def)
      then show ?thesis
        using True Some keys_of_ok(1,2)[OF exp] known_of_single[OF wf Some]
        by (auto simp: mi_Child_def distinct_map inj_on_def image_image)
    next
      case False
      obtain cs where cs: "cs = call_children e n" by simp
      let ?f = "\<lambda>(step, inst). moduleInstances inst rest (p @ [step]) sk"
      have eq: "moduleInstances e (n # rest) p sk = append_all (map ?f cs)" using Some False by (simp add: cs)
      have IH: "case ?f x of None \<Rightarrow> \<not> (sk \<or> registered (snd x) rest)
        | Some l \<Rightarrow> (sk \<or> registered (snd x) rest) \<and> distinct l \<and> set l = (@) (p @ [fst x]) ` known_of (snd x) rest"
        if "x \<in> set cs" for x
      proof -
        have "em_wf (snd x)" using that em_wf_child[OF wf, of "fst x"] call_children_iff[OF wf, of x n] unfolding cs by blast
        from Cons.IH[OF this False, of "p @ [fst x]"] show ?thesis unfolding case_prod_beta .
      qed
      have R: "case append_all (map ?f cs) of None \<Rightarrow> \<not> (\<forall>x \<in> set cs. sk \<or> registered (snd x) rest)
        | Some l \<Rightarrow> (\<forall>x \<in> set cs. sk \<or> registered (snd x) rest) \<and> distinct l \<and>
            set l = (\<Union>x \<in> set cs. (@) (p @ [fst x]) ` known_of (snd x) rest)"
        by (rule append_children[OF call_children_distinct[OF wf, of n, folded cs] IH, where g = "\<lambda>y. y ! length p"]) auto
      have U: "(\<Union>x \<in> set cs. (@) (p @ [fst x]) ` known_of (snd x) rest) = (@) p ` known_of e (n # rest)"
        unfolding known_of_Cons[OF wf, of n, folded cs] by (simp add: image_UN image_image)
      have G: "(\<forall>x \<in> set cs. sk \<or> registered (snd x) rest) \<longleftrightarrow> sk \<or> registered e (n # rest)"
        unfolding registered_Cons[OF wf, of n, folded cs] using Some by blast
      show ?thesis unfolding eq using R unfolding U G .
    qed
  qed
qed simp

section \<open>Expansion of resources\<close>

definition insts_of :: "'v expanderModule \<Rightarrow> Resource \<Rightarrow> ModuleInstance \<Rightarrow> AbsResourceInstance set" where
  "insts_of e r m = {a. ari_Module a = m \<and> ri_Resource (ari_Resource a) = r \<and>
     (\<exists>exp. em_resource e m r = Some exp \<and> ri_Key (ari_Resource a) \<in> set (keys_of exp))}"

definition ari_at :: "ModuleInstance \<Rightarrow> AbsResourceInstance \<Rightarrow> AbsResourceInstance" where
  "ari_at p a = a\<lparr>ari_Module := p @ ari_Module a\<rparr>"

lemma insts_of_root:
  "gmap_get (em_resources e) r = Some exp \<Longrightarrow> insts_of e r [] = (\<lambda>k. ri_Absolute (res_Instance r k) []) ` set (keys_of exp)"
  by (auto simp: insts_of_def em_root image_iff ri_Absolute_def res_Instance_def intro!: AbsResourceInstance.equality ResourceInstance.equality)

lemma insts_of_Cons:
  "gmap_get (em_childInstances e) step = Some md \<Longrightarrow> insts_of e r (step # m) = ari_at [step] ` insts_of md r m"
  unfolding insts_of_def ari_at_def em_resource_Cons
  by (auto simp: image_iff intro!: exI[of _ "_\<lparr>ari_Module := m\<rparr>"])

lemma onlyResourceInstances_spec:
  assumes "em_wf e"
  shows "case onlyResourceInstances e r p of
      None \<Rightarrow> em_resource e [] r = None
    | Some l \<Rightarrow> em_resource e [] r \<noteq> None \<and> distinct l \<and> set l = ari_at p ` insts_of e r []"
proof (cases "gmap_get (em_resources e) r")
  case (Some exp)
  then have exp: "exp_ok exp" using em_wf_node[OF assms] by (auto simp: node_ok_def)
  show ?thesis
    using Some keys_of_ok(1,2)[OF exp] insts_of_root[OF Some]
    by (auto simp: onlyResourceInstances_def em_root distinct_map inj_on_def image_image ari_at_def ri_Absolute_def res_Instance_def)
qed (simp add: onlyResourceInstances_def em_root)

lemma ari_at_append: "ari_at (p @ q) a = ari_at p (ari_at q a)"
  by (simp add: ari_at_def)

text \<open>Every instance of the module has the resource registered.\<close>

definition res_registered :: "'v expanderModule \<Rightarrow> Module \<Rightarrow> Resource \<Rightarrow> bool" where
  "res_registered e addr r \<longleftrightarrow> registered e addr \<and> (\<forall>m \<in> known_of e addr. em_resource e m r \<noteq> None)"

lemma res_registered_Nil: "res_registered e [] r \<longleftrightarrow> em_resource e [] r \<noteq> None"
  by (simp add: res_registered_def registered_def)

lemma res_registered_Cons:
  assumes "em_wf e"
  shows "res_registered e (n # rest) r \<longleftrightarrow> gmap_get (em_moduleCalls e) \<lparr>call_Name = n\<rparr> \<noteq> None \<and>
    (\<forall>x \<in> set (call_children e n). res_registered (snd x) rest r)"
proof -
  obtain cs where cs: "cs = call_children e n" by simp
  have "em_resource e (fst x # m) r = em_resource (snd x) m r" if "x \<in> set cs" for x m
    using that call_children_iff[OF assms, of x n] unfolding cs em_resource_Cons by simp
  then have "(\<forall>m \<in> known_of e (n # rest). em_resource e m r \<noteq> None) \<longleftrightarrow>
      (\<forall>x \<in> set cs. \<forall>m \<in> known_of (snd x) rest. em_resource (snd x) m r \<noteq> None)"
    unfolding known_of_Cons[OF assms, of n, folded cs] by auto
  then show ?thesis
    unfolding res_registered_def registered_Cons[OF assms, of n, folded cs] cs[symmetric] by blast
qed

lemma moduleResourceInstances_spec:
  assumes "em_wf e"
  shows "case moduleResourceInstances e addr r p of
      None \<Rightarrow> \<not> res_registered e addr r
    | Some l \<Rightarrow> res_registered e addr r \<and> distinct l \<and> set l = ari_at p ` (\<Union>m \<in> known_of e addr. insts_of e r m)"
  using assms
proof (induction addr arbitrary: e p)
  case Nil
  then show ?case using onlyResourceInstances_spec[OF Nil, of r p] by (auto simp: res_registered_Nil split: option.splits)
next
  case (Cons n rest)
  note wf = Cons.prems
  show ?case
  proof (cases "gmap_get (em_moduleCalls e) \<lparr>call_Name = n\<rparr>")
    case None
    then show ?thesis by (simp add: res_registered_Cons[OF wf])
  next
    case (Some exp)
    obtain cs where cs: "cs = call_children e n" by simp
    let ?f = "\<lambda>(step, inst). moduleResourceInstances inst rest r (p @ [step])"
    let ?S = "\<lambda>x. ari_at (p @ [fst x]) ` (\<Union>m \<in> known_of (snd x) rest. insts_of (snd x) r m)"
    have eq: "moduleResourceInstances e (n # rest) r p = append_all (map ?f cs)" using Some by (simp add: cs)
    have child: "gmap_get (em_childInstances e) (fst x) = Some (snd x)" if "x \<in> set cs" for x
      using that call_children_iff[OF wf, of x n] unfolding cs by blast
    have IH: "case ?f x of None \<Rightarrow> \<not> res_registered (snd x) rest r
      | Some l \<Rightarrow> res_registered (snd x) rest r \<and> distinct l \<and> set l = ?S x" if "x \<in> set cs" for x
      using Cons.IH[OF em_wf_child[OF wf child[OF that]], of "p @ [fst x]"] unfolding case_prod_beta .
    have R: "case append_all (map ?f cs) of None \<Rightarrow> \<not> (\<forall>x \<in> set cs. res_registered (snd x) rest r)
      | Some l \<Rightarrow> (\<forall>x \<in> set cs. res_registered (snd x) rest r) \<and> distinct l \<and> set l = (\<Union>x \<in> set cs. ?S x)"
      by (rule append_children[OF call_children_distinct[OF wf, of n, folded cs] IH, where g = "\<lambda>a. ari_Module a ! length p"])
         (auto simp: ari_at_def)
    have U: "(\<Union>x \<in> set cs. ?S x) = ari_at p ` (\<Union>m \<in> known_of e (n # rest). insts_of e r m)"
    proof -
      have "(\<Union>m \<in> known_of e (n # rest). insts_of e r m) = (\<Union>x \<in> set cs. \<Union>m \<in> known_of (snd x) rest. insts_of e r (fst x # m))"
        unfolding known_of_Cons[OF wf, of n, folded cs] by simp
      also have "\<dots> = (\<Union>x \<in> set cs. ari_at [fst x] ` (\<Union>m \<in> known_of (snd x) rest. insts_of (snd x) r m))"
        using child by (simp add: insts_of_Cons image_UN)
      finally show ?thesis by (simp add: image_UN image_image ari_at_append)
    qed
    have G: "(\<forall>x \<in> set cs. res_registered (snd x) rest r) \<longleftrightarrow> res_registered e (n # rest) r"
      unfolding res_registered_Cons[OF wf, of n, folded cs] using Some by simp
    show ?thesis unfolding eq using R unfolding U G .
  qed
qed

section \<open>One module instance\<close>

text \<open>Every existing module instance on the way to \<open>m\<close> has the next call registered.\<close>

definition path_registered :: "'v expanderModule \<Rightarrow> ModuleInstance \<Rightarrow> bool" where
  "path_registered e m \<longleftrightarrow> (\<forall>p step rest. m = p @ step # rest \<longrightarrow> getModuleInstance e p \<noteq> None \<longrightarrow>
     em_call e p \<lparr>call_Name = step_Name step\<rparr> \<noteq> None)"

lemma path_registered_Nil [simp]: "path_registered e []"
  by (simp add: path_registered_def)

lemma path_registered_Cons:
  "path_registered e (step # m) \<longleftrightarrow> gmap_get (em_moduleCalls e) \<lparr>call_Name = step_Name step\<rparr> \<noteq> None \<and>
    (\<forall>md. gmap_get (em_childInstances e) step = Some md \<longrightarrow> path_registered md m)"
proof
  assume P: "path_registered e (step # m)"
  have "gmap_get (em_moduleCalls e) \<lparr>call_Name = step_Name step\<rparr> \<noteq> None"
    using P[unfolded path_registered_def, rule_format, of "[]" step m] by (simp add: em_root)
  moreover have "path_registered md m" if md: "gmap_get (em_childInstances e) step = Some md" for md
    unfolding path_registered_def
  proof (intro allI impI)
    fix p st rest assume "m = p @ st # rest" "getModuleInstance md p \<noteq> None"
    then show "em_call md p \<lparr>call_Name = step_Name st\<rparr> \<noteq> None"
      using P[unfolded path_registered_def, rule_format, of "step # p" st rest] md by (simp add: em_call_Cons)
  qed
  ultimately show "gmap_get (em_moduleCalls e) \<lparr>call_Name = step_Name step\<rparr> \<noteq> None \<and>
    (\<forall>md. gmap_get (em_childInstances e) step = Some md \<longrightarrow> path_registered md m)" by blast
next
  assume R: "gmap_get (em_moduleCalls e) \<lparr>call_Name = step_Name step\<rparr> \<noteq> None \<and>
    (\<forall>md. gmap_get (em_childInstances e) step = Some md \<longrightarrow> path_registered md m)"
  show "path_registered e (step # m)"
    unfolding path_registered_def
  proof (intro allI impI)
    fix p st rest assume a: "step # m = p @ st # rest" "getModuleInstance e p \<noteq> None"
    show "em_call e p \<lparr>call_Name = step_Name st\<rparr> \<noteq> None"
    proof (cases p)
      case (Cons st0 p')
      with a(1) have p: "p = step # p'" "m = p' @ st # rest" by simp_all
      then obtain md where md: "gmap_get (em_childInstances e) step = Some md" "getModuleInstance md p' \<noteq> None"
        using a(2) by (cases "gmap_get (em_childInstances e) step") simp_all
      then have "path_registered md m" using R by blast
      from this[unfolded path_registered_def, rule_format, OF p(2) md(2)] show ?thesis using p(1) md(1) by (simp add: em_call_Cons)
    qed (use a R in \<open>simp add: em_root\<close>)
  qed
qed

lemma resourceInstances_spec:
  assumes "em_wf e"
  shows "case resourceInstances e m r p of
      None \<Rightarrow> \<not> (path_registered e m \<and> (getModuleInstance e m \<noteq> None \<longrightarrow> em_resource e m r \<noteq> None))
    | Some l \<Rightarrow> path_registered e m \<and> (getModuleInstance e m \<noteq> None \<longrightarrow> em_resource e m r \<noteq> None) \<and>
        distinct l \<and> set l = ari_at p ` insts_of e r m"
  using assms
proof (induction m arbitrary: e p)
  case Nil
  then show ?case using onlyResourceInstances_spec[OF Nil, of r p] by (auto split: option.splits)
next
  case (Cons step m)
  show ?case
  proof (cases "gmap_get (em_childInstances e) step")
    case None
    then have "insts_of e r (step # m) = {}" by (simp add: insts_of_def em_resource_Cons)
    with None show ?thesis by (simp add: path_registered_Cons)
  next
    case (Some md)
    note IH = Cons.IH[OF em_wf_child[OF Cons.prems Some], of "p @ [step]"]
    show ?thesis
      using IH Some
      by (auto simp: path_registered_Cons em_resource_Cons insts_of_Cons[OF Some] image_image ari_at_append split: option.splits)
  qed
qed

text \<open>The deepest existing prefix of a path.\<close>

lemma deepest_spec:
  "case deepest_loop e before m of
      None \<Rightarrow> \<not> path_registered e m
    | Some d \<Rightarrow> path_registered e m \<and> (\<exists>q rest. d = before @ q \<and> m = q @ rest \<and> getModuleInstance e q \<noteq> None \<and>
        (\<forall>step t. rest = step # t \<longrightarrow> getModuleInstance e (q @ [step]) = None))"
proof (induction e before m rule: deepest_loop.induct)
  case (2 e before step rest)
  show ?case
  proof (cases "gmap_get (em_moduleCalls e) \<lparr>call_Name = step_Name step\<rparr> = None")
    case False
    show ?thesis
    proof (cases "gmap_get (em_childInstances e) step")
      case None
      with False show ?thesis by (simp add: path_registered_Cons)
    next
      case (Some md)
      from "2.IH"[OF False Some] show ?thesis
      proof (cases "deepest_loop md (before @ [step]) rest")
        case (Some d)
        with "2.IH"[OF False \<open>gmap_get (em_childInstances e) step = Some md\<close>] obtain q rest' where
          q: "path_registered md rest" "d = before @ step # q" "rest = q @ rest'" "getModuleInstance md q \<noteq> None"
            "\<forall>st t. rest' = st # t \<longrightarrow> getModuleInstance md (q @ [st]) = None" by auto
        have "step # rest = (step # q) @ rest' \<and> getModuleInstance e (step # q) \<noteq> None \<and>
            (\<forall>st t. rest' = st # t \<longrightarrow> getModuleInstance e ((step # q) @ [st]) = None)"
          using q \<open>gmap_get (em_childInstances e) step = Some md\<close> by simp
        moreover have "path_registered e (step # rest)" "deepest_loop e before (step # rest) = Some (before @ step # q)"
          using q(1,2) False Some \<open>gmap_get (em_childInstances e) step = Some md\<close> by (simp_all add: path_registered_Cons)
        ultimately show ?thesis by (simp only: option.case) blast
      qed (use False Some in \<open>simp add: path_registered_Cons\<close>)
    qed
  qed (simp add: path_registered_Cons)
qed simp

section \<open>Sorting the results\<close>

lemma declared_real: "em_wf e \<Longrightarrow> getModuleInstance e m \<noteq> None \<Longrightarrow> \<not> mi_IsPlaceholder m"
proof (induction m arbitrary: e)
  case (Cons step m)
  obtain md where md: "gmap_get (em_childInstances e) step = Some md" "getModuleInstance md m \<noteq> None"
    using Cons.prems(2) by (auto split: option.splits)
  obtain exp where "gmap_get (em_moduleCalls e) \<lparr>call_Name = step_Name step\<rparr> = Some exp" "step_InstanceKey step \<in> set (keys_of exp)"
    using node_children[OF em_wf_node[OF Cons.prems(1)], of step] md(1) by auto
  moreover from this have "exp_ok exp" using em_wf_node[OF Cons.prems(1)] by (auto simp: node_ok_def)
  ultimately have "\<not> IsPlaceholder (step_InstanceKey step)" using keys_of_ok(3) by blast
  with Cons.IH[OF em_wf_child[OF Cons.prems(1) md(1)] md(2)] show ?case by (simp add: mi_IsPlaceholder_def)
qed (simp add: mi_IsPlaceholder_def)

lemma insts_real:
  assumes "em_wf e" "a \<in> insts_of e r m" "res_Mode r \<noteq> InvalidResourceMode"
  shows "ari_real a" "getModuleInstance e m \<noteq> None"
proof -
  obtain exp where exp: "em_resource e m r = Some exp" "ri_Key (ari_Resource a) \<in> set (keys_of exp)"
    using assms(2) by (auto simp: insts_of_def)
  then obtain md where md: "getModuleInstance e m = Some md" "gmap_get (em_resources md) r = Some exp"
    by (auto simp: em_resource_def split: option.splits)
  then have "exp_ok exp" using assms(1) by (auto simp: em_wf_def node_ok_def)
  then have "\<not> IsPlaceholder (ri_Key (ari_Resource a))" using exp(2) keys_of_ok(3) by blast
  moreover show "getModuleInstance e m \<noteq> None" using md by simp
  ultimately show "ari_real a"
    using assms(2,3) declared_real[OF assms(1), of m] by (auto simp: ari_real_def ari_IsPlaceholder_def ri_IsPlaceholder_def insts_of_def)
qed

lemma knowsResourceInstance_insts:
  assumes "em_wf e"
  shows "knowsResourceInstance e a = Some (a \<in> insts_of e (ri_Resource (ari_Resource a)) (ari_Module a))"
proof (cases "em_resource e (ari_Module a) (ri_Resource (ari_Resource a))")
  case None
  then show ?thesis by (auto simp: knowsResourceInstance_def em_resource_def insts_of_def split: option.splits)
next
  case (Some exp)
  then obtain md where md: "getModuleInstance e (ari_Module a) = Some md" "gmap_get (em_resources md) (ri_Resource (ari_Resource a)) = Some exp"
    by (auto simp: em_resource_def split: option.splits)
  then have "exp_ok exp" using assms by (auto simp: em_wf_def node_ok_def)
  from keys_of_ok(1)[OF this] md Some show ?thesis
    by (auto simp: knowsResourceInstance_def insts_of_def list_ex_iff)
qed

end
