(* ===== verification/Inst_Props.thy ===== *)
theory Inst_Props
  imports Inst_Query
begin

text \<open>
  Properties of the expander: registration implements a set of registrations, the expansions are
  exactly the declared instances in ascending order, the repetition data of every declared
  instance exist and match its key, and the deepest existing prefix of a path.
\<close>

section \<open>Sequences of registrations\<close>

datatype 'v reg_op =
    RegModule ModuleInstance ModuleCall "'v expansion"
  | RegResource ModuleInstance Resource "'v expansion"

fun register :: "'v reg_op \<Rightarrow> 'v expanderModule \<Rightarrow> 'v expanderModule option" where
  "register (RegModule p c exp) e = setModuleExpansion e p c exp"
| "register (RegResource p r exp) e = setResourceExpansion e p r exp"

fun reg_run :: "'v reg_op list \<Rightarrow> 'v expanderModule \<Rightarrow> 'v expanderModule option" where
  "reg_run [] e = Some e"
| "reg_run (op # ops) e = (case register op e of None \<Rightarrow> None | Some e' \<Rightarrow> reg_run ops e')"

fun reg_ok :: "'v reg_op \<Rightarrow> bool" where
  "reg_ok (RegModule p c exp) = exp_ok exp"
| "reg_ok (RegResource p r exp) = exp_ok exp"

type_synonym 'v registrations =
  "(ModuleInstance \<Rightarrow> ModuleCall \<Rightarrow> 'v expansion option) \<times> (ModuleInstance \<Rightarrow> Resource \<Rightarrow> 'v expansion option)"

fun spec_register :: "'v reg_op \<Rightarrow> 'v registrations \<Rightarrow> 'v registrations" where
  "spec_register (RegModule p c exp) (calls, res) = (calls(p := (calls p)(c \<mapsto> exp)), res)"
| "spec_register (RegResource p r exp) (calls, res) = (calls, res(p := (res p)(r \<mapsto> exp)))"

fun spec_panics :: "'v reg_op \<Rightarrow> 'v registrations \<Rightarrow> bool" where
  "spec_panics (RegModule p c exp) (calls, res) = (\<not> declared calls p \<or> calls p c \<noteq> None)"
| "spec_panics (RegResource p r exp) (calls, res) = (\<not> declared calls p \<or> res p r \<noteq> None)"

lemma register_spec:
  assumes "em_wf e" "reg_ok op"
  shows "register op e = None \<longleftrightarrow> spec_panics op (em_call e, em_resource e)"
    and "register op e = Some e' \<Longrightarrow> em_wf e' \<and> (em_call e', em_resource e') = spec_register op (em_call e, em_resource e)"
proof -
  note known = known_declared[OF assms(1)]
  show "register op e = None \<longleftrightarrow> spec_panics op (em_call e, em_resource e)"
    using assms by (cases op) (simp_all add: setModuleExpansion_effect(1) setResourceExpansion_effect(1) flip: known)
  assume "register op e = Some e'"
  then show "em_wf e' \<and> (em_call e', em_resource e') = spec_register op (em_call e, em_resource e)"
    using setModuleExpansion_effect(2)[OF assms(1)] setResourceExpansion_effect(2)[OF assms(1)] assms(2) by (cases op) auto
qed

lemma reg_run_spec:
  "em_wf e \<Longrightarrow> list_all reg_ok ops \<Longrightarrow> reg_run ops e = Some e' \<Longrightarrow>
    em_wf e' \<and> (em_call e', em_resource e') = fold spec_register ops (em_call e, em_resource e)"
proof (induction ops arbitrary: e)
  case (Cons op ops)
  then obtain e1 where e1: "register op e = Some e1" "reg_run ops e1 = Some e'" by (auto split: option.splits)
  from register_spec(2)[OF Cons.prems(1) _ e1(1)] Cons.prems(2)
  have "em_wf e1" "(em_call e1, em_resource e1) = spec_register op (em_call e, em_resource e)" by simp_all
  with Cons.IH[OF this(1) _ e1(2)] Cons.prems(2) show ?case by simp
qed simp

lemma NewExpander_empty: "(em_call NewExpander, em_resource NewExpander) = (\<lambda>_ _. None, \<lambda>_ _. None)"
  by (simp add: fun_eq_iff em_call_def em_resource_def NewExpander_def get_new) (simp add: newExpanderModule_def)

lemma knows_iff: "knowsModuleInstance e m \<longleftrightarrow> getModuleInstance e m \<noteq> None"
  by (simp add: knowsModuleInstance_def mi_IsRoot_def)

fun rd_matches :: "InstanceKey \<Rightarrow> 'v RepetitionData \<Rightarrow> bool" where
  "rd_matches NoKey rd = (rd = noRepetition)"
| "rd_matches (IntKey i) rd = (CountIndex rd = Some i \<and> EachKey rd = None \<and> EachValue rd = None)"
| "rd_matches (StringKey k) rd = (CountIndex rd = None \<and> EachKey rd = Some k \<and> EachValue rd \<noteq> None)"
| "rd_matches (WildcardKey t) rd = False"

lemma repetitionData_key:
  assumes "exp_ok exp" "key \<in> set (keys_of exp)"
  shows "\<exists>rd. repetitionData exp key = Some rd \<and> rd_matches key rd"
  using assms(2) unfolding keys_of_ok(4)[OF assms(1)] by (cases exp) (auto simp: noRepetition_def)

lemma expandModule_spec:
  assumes "em_wf e"
  shows "case expandModule e addr sk of None \<Rightarrow> \<not> (sk \<or> registered e addr)
    | Some l \<Rightarrow> (sk \<or> registered e addr) \<and> set l = known_of e addr \<and> sorted_wrt (\<lambda>a b. mi_Less a b = Some True) l"
proof (cases "addr = []")
  case False
  have p: "(@) [] ` S = S" for S :: "ModuleInstance set" by auto
  note spec = moduleInstances_spec[OF assms False, where p = "[]" and sk = sk, unfolded p]
  show ?thesis
  proof (cases "moduleInstances e addr [] sk")
    case (Some ret)
    with spec have ret: "sk \<or> registered e addr" "distinct ret" "set ret = known_of e addr" by simp_all
    then have "\<forall>x \<in> set ret. \<not> mi_IsPlaceholder x" using declared_real[OF assms] by (auto simp: known_of_def)
    from mi.sort_Slice[OF this ret(2)] Some ret False show ?thesis by (auto simp: expandModule_def)
  qed (use spec False in \<open>simp add: expandModule_def\<close>)
qed (simp add: expandModule_def registered_def)

subsection \<open>A concrete expander\<close>

definition server :: Resource where
  "server = \<lparr>res_Mode = ManagedResourceMode, res_Type = ''aws_instance'', res_Name = ''web''\<rparr>"

abbreviation step_a :: "string \<Rightarrow> ModuleInstanceStep" where
  "step_a k \<equiv> \<lparr>step_Name = ''a'', step_InstanceKey = StringKey k\<rparr>"

definition ops0 :: "unit reg_op list" where
  "ops0 = [RegModule [] \<lparr>call_Name = ''a''\<rparr> (expansionForEach [(''k'', ())]), RegResource [step_a ''k''] server (expansionCount 2)]"

definition expander0 :: "unit expanderModule" where
  "expander0 = ExpanderModule [(\<lparr>call_Name = ''a''\<rparr>, expansionForEach [(''k'', ())])] []
     [(step_a ''k'', ExpanderModule [] [(server, expansionCount 2)] [])]"

lemma ops0_run: "reg_run ops0 NewExpander = Some expander0" "list_all reg_ok ops0"
  by (simp_all add: ops0_def expander0_def NewExpander_def newExpanderModule_def setModuleExpansion_def setResourceExpansion_def
      sort_Stable_def exp_ok_def gmap_ok_def)

lemma expander0_wf: "em_wf expander0"
  using reg_run_spec[OF NewExpander_wf ops0_run(2,1)] by simp

section \<open>Properties\<close>

text \<open>
  C31: any sequence of \<^verbatim>\<open>SetModule*\<close> and \<^verbatim>\<open>SetResource*\<close> calls (with counts that are not negative) leaves
  the tree well formed and recording exactly those registrations; the module instances it
  knows are the ones the registrations declare, from the root module down; and a further call
  panics exactly when the containing module instance is not declared or the object is
  already registered there.
\<close>

theorem Expander_registration_refines:
  assumes "list_all reg_ok ops" "reg_run ops NewExpander = Some e"
  shows "em_wf e \<and> (em_call e, em_resource e) = fold spec_register ops (\<lambda>_ _. None, \<lambda>_ _. None) \<and>
    (\<forall>m. knowsModuleInstance e m = declared (em_call e) m) \<and>
    (\<forall>op. reg_ok op \<longrightarrow> (register op e = None) = spec_panics op (em_call e, em_resource e))"
  using reg_run_spec[OF NewExpander_wf assms] register_spec(1)[of e] known_declared[of e]
  by (auto simp: NewExpander_empty knows_iff)

theorem Expander_registration_refines_witness:
  "knowsModuleInstance expander0 [step_a ''k''] \<and> register (RegResource [step_a ''k''] server expansionSingle) expander0 = None"
proof -
  note r = Expander_registration_refines[OF ops0_run(2,1)]
  have c: "em_call expander0 [] \<lparr>call_Name = ''a''\<rparr> = Some (expansionForEach [(''k'', ())])"
    "em_resource expander0 [step_a ''k''] server = Some (expansionCount 2)"
    by (simp_all add: em_call_def em_resource_def expander0_def)
  have "declared (em_call expander0) ([] @ [step_a ''k''])"
    by (rule declared.child[OF declared.root]) (use c(1) in \<open>auto simp: keys_of_def sort_Stable_def\<close>)
  with r have d: "knowsModuleInstance expander0 [step_a ''k'']" "declared (em_call expander0) [step_a ''k'']" by simp_all
  have "spec_panics (RegResource [step_a ''k''] server expansionSingle) (em_call expander0, em_resource expander0)"
    using c(2) by simp
  moreover have "reg_ok (RegResource [step_a ''k''] server expansionSingle)" by (simp add: exp_ok_def)
  ultimately have "register (RegResource [step_a ''k''] server expansionSingle) expander0 = None"
    using r[THEN conjunct2, THEN conjunct2, THEN conjunct2] by blast
  with d show ?thesis by blast
qed



text \<open>
  \<^verbatim>\<open>ExpandModuleResource\<close> and \<^verbatim>\<open>ExpandResource\<close> panic exactly when a module call on the way or the resource
  itself is not registered in an instance they reach, and otherwise return, each once and in
  ascending order, exactly the instances that \<^verbatim>\<open>HasResourceInstance\<close> knows, over all instances of the
  module and in one of them; in a module instance that does not exist there are none.
\<close>

theorem ExpandResource_complete:
  assumes "em_wf e" "res_Mode r \<noteq> InvalidResourceMode"
  shows "(ExpandModuleResource e addr r = None \<longleftrightarrow> \<not> res_registered e addr r) \<and>
    (\<forall>l. ExpandModuleResource e addr r = Some l \<longrightarrow> sorted_wrt (\<lambda>a b. ari_Less a b = Some True) l \<and>
      set l = {a. mi_Module (ari_Module a) = addr \<and> ri_Resource (ari_Resource a) = r \<and> knowsResourceInstance e a = Some True}) \<and>
    (ExpandResource e \<lparr>ar_Module = m, ar_Resource = r\<rparr> = None \<longleftrightarrow>
      \<not> (path_registered e m \<and> (knowsModuleInstance e m \<longrightarrow> knowsResource e \<lparr>ar_Module = m, ar_Resource = r\<rparr>))) \<and>
    (\<forall>l. ExpandResource e \<lparr>ar_Module = m, ar_Resource = r\<rparr> = Some l \<longrightarrow> sorted_wrt (\<lambda>a b. ari_Less a b = Some True) l \<and>
      set l = {a. ari_Module a = m \<and> ri_Resource (ari_Resource a) = r \<and> knowsResourceInstance e a = Some True})"
proof -
  have at: "ari_at [] ` S = S" for S by (auto simp: ari_at_def)
  have real: "\<forall>x \<in> set l. ari_real x" if "set l \<subseteq> (\<Union>m. insts_of e r m)" for l
    using that insts_real(1)[OF assms(1) _ assms(2)] by blast
  have sets: "(\<Union>m \<in> known_of e addr. insts_of e r m) =
      {a. mi_Module (ari_Module a) = addr \<and> ri_Resource (ari_Resource a) = r \<and> knowsResourceInstance e a = Some True}"
    "insts_of e r m = {a. ari_Module a = m \<and> ri_Resource (ari_Resource a) = r \<and> knowsResourceInstance e a = Some True}"
    unfolding knowsResourceInstance_insts[OF assms(1)] using insts_real(2)[OF assms(1) _ assms(2)]
    by (auto simp: known_of_def insts_of_def)
  have kr: "em_resource e m r \<noteq> None \<longleftrightarrow> knowsResource e \<lparr>ar_Module = m, ar_Resource = r\<rparr>"
    by (auto simp: em_resource_def knowsResource_def split: option.splits)
  have sort: "\<exists>l. sort_SliceStable ari_Less ret = Some l \<and> set l = set ret \<and> sorted_wrt (\<lambda>a b. ari_Less a b = Some True) l"
    if "distinct ret" "set ret \<subseteq> (\<Union>m. insts_of e r m)" for ret
    using ari.sort_Slice[OF real[OF that(2)] that(1)] .
  have M: "case ExpandModuleResource e addr r of None \<Rightarrow> \<not> res_registered e addr r
    | Some l \<Rightarrow> res_registered e addr r \<and> set l = (\<Union>m \<in> known_of e addr. insts_of e r m) \<and> sorted_wrt (\<lambda>a b. ari_Less a b = Some True) l"
    using moduleResourceInstances_spec[OF assms(1), of addr r "[]", unfolded at] sort
    by (fastforce simp: ExpandModuleResource_def split: option.splits)
  have R: "case ExpandResource e \<lparr>ar_Module = m, ar_Resource = r\<rparr> of
      None \<Rightarrow> \<not> (path_registered e m \<and> (getModuleInstance e m \<noteq> None \<longrightarrow> em_resource e m r \<noteq> None))
    | Some l \<Rightarrow> path_registered e m \<and> (getModuleInstance e m \<noteq> None \<longrightarrow> em_resource e m r \<noteq> None) \<and>
        set l = insts_of e r m \<and> sorted_wrt (\<lambda>a b. ari_Less a b = Some True) l"
    using resourceInstances_spec[OF assms(1), of m r "[]", unfolded at] sort
    by (fastforce simp: ExpandResource_def split: option.splits)
  show ?thesis
    using M R unfolding sets kr knows_iff[symmetric] by (auto split: option.splits)
qed

theorem ExpandResource_complete_witness:
  "\<exists>l. ExpandResource expander0 \<lparr>ar_Module = [step_a ''k''], ar_Resource = server\<rparr> = Some l \<and> web (IntKey 1) \<in> set l"
proof -
  have k: "knowsResourceInstance expander0 (web (IntKey 1)) = Some True"
    by (simp add: knowsResourceInstance_def expander0_def server_def upt_rec)
  have p: "path_registered expander0 [step_a ''k'']" "knowsResource expander0 \<lparr>ar_Module = [step_a ''k''], ar_Resource = server\<rparr>"
    by (simp_all add: path_registered_Cons expander0_def knowsResource_def)
  have m: "res_Mode server \<noteq> InvalidResourceMode" by (simp add: server_def)
  note t = ExpandResource_complete[OF expander0_wf m, where m = "[step_a ''k'']"]
  then obtain l where l: "ExpandResource expander0 \<lparr>ar_Module = [step_a ''k''], ar_Resource = server\<rparr> = Some l" using p by blast
  with t have "set l = {a. ari_Module a = [step_a ''k''] \<and> ri_Resource (ari_Resource a) = server \<and> knowsResourceInstance expander0 a = Some True}"
    by blast
  with l k show ?thesis by (auto simp: server_def)
qed

text \<open>
  For every resource instance and every module instance that exists, the repetition data are
  found without a panic and belong to its key: nothing for an instance without a key, the
  index for an integer key, and the key with its value for a string key.
\<close>

theorem RepetitionData_total:
  assumes "em_wf e"
  shows "(knowsResourceInstance e a = Some True \<longrightarrow>
      (\<exists>rd. GetResourceInstanceRepetitionData e a = Some rd \<and> rd_matches (ri_Key (ari_Resource a)) rd)) \<and>
    (knowsModuleInstance e (m @ [step]) \<longrightarrow>
      (\<exists>rd. GetModuleInstanceRepetitionData e (m @ [step]) = Some rd \<and> rd_matches (step_InstanceKey step) rd))"
proof (intro conjI impI)
  assume "knowsResourceInstance e a = Some True"
  then obtain md exp where md: "getModuleInstance e (ari_Module a) = Some md" "gmap_get (em_resources md) (ri_Resource (ari_Resource a)) = Some exp"
      "ri_Key (ari_Resource a) \<in> set (keys_of exp)"
    unfolding knowsResourceInstance_insts[OF assms] by (auto simp: insts_of_def em_resource_def split: option.splits)
  then have "exp_ok exp" using assms by (auto simp: em_wf_def node_ok_def)
  from repetitionData_key[OF this md(3)] md show "\<exists>rd. GetResourceInstanceRepetitionData e a = Some rd \<and> rd_matches (ri_Key (ari_Resource a)) rd"
    by (simp add: GetResourceInstanceRepetitionData_def findModule_get)
next
  assume "knowsModuleInstance e (m @ [step])"
  then obtain md where md: "getModuleInstance e m = Some md" "gmap_get (em_childInstances md) step \<noteq> None"
    by (auto simp: knows_iff get_append split: option.splits)
  then have node: "node_ok md" using assms by (auto simp: em_wf_def)
  with md obtain exp where exp: "gmap_get (em_moduleCalls md) \<lparr>call_Name = step_Name step\<rparr> = Some exp" "step_InstanceKey step \<in> set (keys_of exp)"
    using node_children[OF node, of step] by auto
  then have "exp_ok exp" using node by (auto simp: node_ok_def)
  from repetitionData_key[OF this exp(2)] exp md(1) show "\<exists>rd. GetModuleInstanceRepetitionData e (m @ [step]) = Some rd \<and> rd_matches (step_InstanceKey step) rd"
    by (simp add: GetModuleInstanceRepetitionData_def findModule_get)
qed

theorem RepetitionData_total_witness:
  "\<exists>rd. GetResourceInstanceRepetitionData expander0 (web (IntKey 1)) = Some rd \<and> CountIndex rd = Some 1"
proof -
  have "knowsResourceInstance expander0 (web (IntKey 1)) = Some True"
    by (simp add: knowsResourceInstance_def expander0_def server_def upt_rec)
  with RepetitionData_total[OF expander0_wf, of "web (IntKey 1)"] show ?thesis by auto
qed

text \<open>
  \<^verbatim>\<open>GetDeepestExistingModuleInstance\<close> panics exactly when an existing instance on the path has the
  next call not registered, and otherwise returns the longest prefix of the path that exists.
\<close>

theorem GetDeepestExistingModuleInstance_longest:
  "(GetDeepestExistingModuleInstance e given = None \<longleftrightarrow> \<not> path_registered e given) \<and>
   (GetDeepestExistingModuleInstance e given = Some d \<longrightarrow> prefix d given \<and> knowsModuleInstance e d \<and>
     (\<forall>q. prefix q given \<and> knowsModuleInstance e q \<longrightarrow> prefix q d))"
proof (intro conjI impI)
  note D = deepest_spec[where e = e and before = "[]" and m = given]
  show "GetDeepestExistingModuleInstance e given = None \<longleftrightarrow> \<not> path_registered e given"
    using D by (cases "deepest_loop e [] given") (simp_all add: GetDeepestExistingModuleInstance_def)
  assume "GetDeepestExistingModuleInstance e given = Some d"
  with D obtain rest where d: "given = d @ rest" "getModuleInstance e d \<noteq> None"
      "\<forall>step t. rest = step # t \<longrightarrow> getModuleInstance e (d @ [step]) = None"
    by (auto simp: GetDeepestExistingModuleInstance_def)
  show "prefix d given" using d(1) by simp
  show "knowsModuleInstance e d" using d(2) by (simp add: knows_iff)
  show "\<forall>q. prefix q given \<and> knowsModuleInstance e q \<longrightarrow> prefix q d"
  proof (intro allI impI)
    fix q assume q: "prefix q given \<and> knowsModuleInstance e q"
    show "prefix q d"
    proof (rule ccontr)
      assume "\<not> prefix q d"
      then obtain step t where "q = d @ step # t" "prefix (step # t) rest"
        using q d(1) by (metis neq_Nil_conv prefix_append append_Nil2 prefix_order.refl)
      then have "getModuleInstance e (d @ [step]) = None" using d(3) by (auto simp: prefix_def)
      with \<open>q = d @ step # t\<close> q show False by (simp add: knows_iff get_append split: option.splits)
    qed
  qed
qed

theorem GetDeepestExistingModuleInstance_longest_witness:
  "prefix [step_a ''k''] [step_a ''k''] \<and> knowsModuleInstance expander0 [step_a ''k'']"
proof -
  have "GetDeepestExistingModuleInstance expander0 [step_a ''k''] = Some [step_a ''k'']"
    by (simp add: GetDeepestExistingModuleInstance_def expander0_def)
  with GetDeepestExistingModuleInstance_longest[of expander0 "[step_a ''k'']" "[step_a ''k'']"] show ?thesis by blast
qed

end
