(* ===== verification/Addr_Move.thy ===== *)
theory Addr_Move
  imports Addr_Collections
begin

text \<open>
  Move endpoints (\<^verbatim>\<open>internal/addrs/move_endpoint.go\<close>, \<^verbatim>\<open>move_endpoint_module.go\<close>, \<^verbatim>\<open>move_endpoint_kind.go\<close>): the
  addresses in a \<^verbatim>\<open>moved\<close> block, relative to the module that declares it, which objects they select
  and where they move them.

  A panic is the outer \<open>None\<close>; of a pair of an address and a flag that it matches, a match is
  \<open>Some\<close> of the address and no match the inner \<open>None\<close>.
\<close>

section \<open>Endpoints\<close>

datatype AbsMoveable =
    MvModuleInstance ModuleInstance
  | MvModuleCall AbsModuleCall
  | MvResource AbsResource
  | MvResourceInstance AbsResourceInstance

fun mv_String :: "AbsMoveable \<Rightarrow> string" where
  "mv_String (MvModuleInstance m) = mi_String m"
| "mv_String (MvModuleCall c) = amc_String c"
| "mv_String (MvResource r) = ar_String r"
| "mv_String (MvResourceInstance r) = ari_String r"

text \<open>Unique keys of different address types are of different Go types.\<close>

datatype moveable_key = moduleInstanceKey string | absModuleCallInstanceKey string | absResourceKey string | absResourceInstanceKey string

fun mv_UniqueKey :: "AbsMoveable \<Rightarrow> moveable_key" where
  "mv_UniqueKey (MvModuleInstance m) = moduleInstanceKey (mi_String m)"
| "mv_UniqueKey (MvModuleCall c) = absModuleCallInstanceKey (amc_String c)"
| "mv_UniqueKey (MvResource r) = absResourceKey (ar_String r)"
| "mv_UniqueKey (MvResourceInstance r) = absResourceInstanceKey (ari_String r)"

datatype MoveEndpointKind = MoveEndpointModule | MoveEndpointResource

fun absMoveableEndpointKind :: "AbsMoveable \<Rightarrow> MoveEndpointKind" where
  "absMoveableEndpointKind (MvModuleInstance _) = MoveEndpointModule"
| "absMoveableEndpointKind (MvModuleCall _) = MoveEndpointModule"
| "absMoveableEndpointKind (MvResourceInstance _) = MoveEndpointResource"
| "absMoveableEndpointKind (MvResource _) = MoveEndpointResource"

record MoveEndpoint =
  me_SourceRange :: SourceRange
  me_relSubject :: AbsMoveable

record MoveEndpointInModule =
  mm_SourceRange :: SourceRange
  mm_module :: Module
  mm_relSubject :: AbsMoveable

definition me_ObjectKind :: "MoveEndpoint \<Rightarrow> MoveEndpointKind" where
  "me_ObjectKind e = absMoveableEndpointKind (me_relSubject e)"

definition me_Equal :: "MoveEndpoint option \<Rightarrow> MoveEndpoint option \<Rightarrow> bool" where
  "me_Equal x y =
     (case (x, y) of
        (None, None) \<Rightarrow> True
      | (Some e, Some other) \<Rightarrow> mv_String (me_relSubject e) = mv_String (me_relSubject other) \<and> me_SourceRange e = me_SourceRange other
      | _ \<Rightarrow> False)"

datatype ConfigMoveable = CmModule Module | CmConfigResource ConfigResource

fun me_ConfigMoveable :: "MoveEndpoint \<Rightarrow> Module \<Rightarrow> ConfigMoveable option" where
  "me_ConfigMoveable e baseModule =
     (case me_relSubject e of
        MvModuleInstance addr \<Rightarrow> Some (CmModule (baseModule @ mi_Module addr))
      | MvResourceInstance addr \<Rightarrow>
          Some (CmConfigResource \<lparr>cr_Module = baseModule @ mi_Module (ari_Module addr), cr_Resource = ri_Resource (ari_Resource addr)\<rparr>)
      | _ \<Rightarrow> None)"

definition ParseMoveEndpoint :: "SourceRange \<Rightarrow> Traversal \<Rightarrow> (Diagnostics + MoveEndpoint) option" where
  "ParseMoveEndpoint rng traversal =
     (let (path, remain, diags) = parseModuleInstancePrefix traversal in
      if HasErrors diags then Some (Inl diags)
      else if length remain = 0 then Some (Inr \<lparr>me_SourceRange = rng, me_relSubject = MvModuleInstance path\<rparr>)
      else case parseResourceInstanceUnderModule path remain of
        None \<Rightarrow> None
      | Some (Inl moreDiags) \<Rightarrow> Some (Inl (diags @ moreDiags))
      | Some (Inr riAddr) \<Rightarrow> Some (Inr \<lparr>me_SourceRange = rng, me_relSubject = MvResourceInstance riAddr\<rparr>))"

datatype TargetableAddrType = ModuleAddrType | ModuleInstanceAddrType | AbsResourceAddrType | AbsResourceInstanceAddrType

definition internalAddrType :: "MoveEndpoint \<Rightarrow> TargetableAddrType option" where
  "internalAddrType e =
     (case me_relSubject e of
        MvModuleInstance addr \<Rightarrow>
          Some (if \<not> mi_IsRoot addr \<and> step_InstanceKey (last addr) = NoKey then ModuleAddrType else ModuleInstanceAddrType)
      | MvResourceInstance addr \<Rightarrow>
          Some (if ri_Key (ari_Resource addr) = NoKey then AbsResourceAddrType else AbsResourceInstanceAddrType)
      | _ \<Rightarrow> None)"

definition prepareMoveEndpointInModule :: "MoveEndpoint \<Rightarrow> Module \<Rightarrow> TargetableAddrType \<Rightarrow> MoveEndpointInModule option option" where
  "prepareMoveEndpointInModule e moduleAddr wantType =
     (let ret = \<lambda>subject. Some (Some \<lparr>mm_SourceRange = me_SourceRange e, mm_module = moduleAddr, mm_relSubject = subject\<rparr>) in
      case me_relSubject e of
        MvModuleInstance relAddr \<Rightarrow>
          (case wantType of
             ModuleInstanceAddrType \<Rightarrow> ret (MvModuleInstance relAddr)
           | ModuleAddrType \<Rightarrow>
               (case mi_Call relAddr of
                  None \<Rightarrow> None
                | Some (callerAddr, callAddr) \<Rightarrow> ret (MvModuleCall \<lparr>amc_Module = callerAddr, amc_Call = callAddr\<rparr>))
           | _ \<Rightarrow> Some None)
      | MvResourceInstance relAddr \<Rightarrow>
          (case wantType of
             AbsResourceInstanceAddrType \<Rightarrow> ret (MvResourceInstance relAddr)
           | AbsResourceAddrType \<Rightarrow> ret (MvResource (ari_ContainingResource relAddr))
           | _ \<Rightarrow> Some None)
      | _ \<Rightarrow> None)"

definition UnifyMoveEndpoints ::
  "Module \<Rightarrow> MoveEndpoint \<Rightarrow> MoveEndpoint \<Rightarrow> (MoveEndpointInModule \<times> MoveEndpointInModule) option option" where
  "UnifyMoveEndpoints moduleAddr relFrom relTo =
     (case (internalAddrType relFrom, internalAddrType relTo) of
        (Some fromType, Some toType) \<Rightarrow>
          (let wantType =
             (if fromType = AbsResourceInstanceAddrType \<or> toType = AbsResourceInstanceAddrType then AbsResourceInstanceAddrType
              else if fromType = AbsResourceAddrType \<or> toType = AbsResourceAddrType then AbsResourceAddrType
              else if fromType = ModuleInstanceAddrType \<or> toType = ModuleInstanceAddrType then ModuleInstanceAddrType
              else ModuleAddrType)
           in case (prepareMoveEndpointInModule relFrom moduleAddr wantType, prepareMoveEndpointInModule relTo moduleAddr wantType) of
                (Some modFrom, Some modTo) \<Rightarrow>
                  Some (case (modFrom, modTo) of (Some f, Some t) \<Rightarrow> Some (f, t) | _ \<Rightarrow> None)
              | _ \<Rightarrow> None)
      | _ \<Rightarrow> None)"

definition MightUnifyWith :: "MoveEndpoint \<Rightarrow> MoveEndpoint \<Rightarrow> bool option" where
  "MightUnifyWith e other = map_option (\<lambda>u. u \<noteq> None) (UnifyMoveEndpoints [] e other)"

definition SubjectAllowed :: "MoveEndpoint option \<Rightarrow> bool" where
  "SubjectAllowed x =
     (case x of
        None \<Rightarrow> False
      | Some e \<Rightarrow>
          (case me_relSubject e of
             MvResource addr \<Rightarrow> res_Mode (ar_Resource addr) \<noteq> EphemeralResourceMode
           | MvResourceInstance addr \<Rightarrow> res_Mode (ri_Resource (ari_Resource addr)) \<noteq> EphemeralResourceMode
           | _ \<Rightarrow> True))"

section \<open>Endpoints in a module\<close>

definition ImpliedMoveStatementEndpoint :: "AbsMoveable \<Rightarrow> SourceRange \<Rightarrow> MoveEndpointInModule" where
  "ImpliedMoveStatementEndpoint addr rng = \<lparr>mm_SourceRange = rng, mm_module = [], mm_relSubject = addr\<rparr>"

definition mm_ObjectKind :: "MoveEndpointInModule \<Rightarrow> MoveEndpointKind" where
  "mm_ObjectKind e = absMoveableEndpointKind (mm_relSubject e)"

definition mm_String :: "MoveEndpointInModule option \<Rightarrow> string" where
  "mm_String x =
     (case x of
        None \<Rightarrow> []
      | Some e \<Rightarrow>
          concat (map (\<lambda>name. ''module.'' @ name @ ''[*].'') (mm_module e)) @ mv_String (mm_relSubject e) @
          (case mm_relSubject e of MvModuleCall _ \<Rightarrow> ''[*]'' | MvResource _ \<Rightarrow> ''[*]'' | _ \<Rightarrow> []))"

definition mm_Equal :: "MoveEndpointInModule \<Rightarrow> MoveEndpointInModule \<Rightarrow> bool" where
  "mm_Equal e other = (if \<not> mod_Equal (mm_module e) (mm_module other) then False else mm_relSubject e = mm_relSubject other)"

fun InModuleInstance :: "MoveEndpointInModule \<Rightarrow> ModuleInstance \<Rightarrow> AbsMoveable option" where
  "InModuleInstance e modInst =
     (if length modInst \<noteq> length (mm_module e) then None
      else Some (case mm_relSubject e of
          MvModuleInstance relSubject \<Rightarrow> MvModuleInstance (modInst @ relSubject)
        | MvModuleCall relSubject \<Rightarrow> MvModuleCall (call_Absolute (amc_Call relSubject) (modInst @ amc_Module relSubject))
        | MvResourceInstance relSubject \<Rightarrow> MvResourceInstance (ri_Absolute (ari_Resource relSubject) (modInst @ ari_Module relSubject))
        | MvResource relSubject \<Rightarrow> MvResource (res_Absolute (ar_Resource relSubject) (modInst @ ar_Module relSubject))))"

definition ModuleCallTraversals :: "MoveEndpointInModule \<Rightarrow> (Module \<times> ModuleCall list) option" where
  "ModuleCallTraversals e =
     (let ret = \<lambda>steps. Some (mm_module e, map (\<lambda>step. \<lparr>call_Name = step_Name step\<rparr>) steps) in
      case mm_relSubject e of
        MvModuleInstance relSubject \<Rightarrow> if length relSubject = 0 then None else ret (butlast relSubject)
      | MvModuleCall relSubject \<Rightarrow> ret (amc_Module relSubject)
      | MvResourceInstance relSubject \<Rightarrow> ret (ari_Module relSubject)
      | MvResource relSubject \<Rightarrow> ret (ar_Module relSubject))"

text \<open>
  A step of a synthetic module instance address: \<open>None\<close> is the special key \<^verbatim>\<open>anyKey\<close>, which no address
  outside this component has.
\<close>

type_synonym synth_step = "string \<times> InstanceKey option"

definition synth_of :: "ModuleInstance \<Rightarrow> synth_step list" where
  "synth_of m = map (\<lambda>step. (step_Name step, Some (step_InstanceKey step))) m"

definition synthModuleInstance :: "MoveEndpointInModule \<Rightarrow> synth_step list" where
  "synthModuleInstance e =
     map (\<lambda>md. (md, None)) (mm_module e) @
     (case mm_relSubject e of
        MvModuleInstance sub \<Rightarrow> synth_of sub
      | MvModuleCall sub \<Rightarrow> synth_of (amc_Module sub) @ [(call_Name (amc_Call sub), None)]
      | MvResource sub \<Rightarrow> synth_of (ar_Module sub)
      | MvResourceInstance sub \<Rightarrow> synth_of (ari_Module sub))"

fun selects_loop :: "synth_step list \<Rightarrow> ModuleInstance \<Rightarrow> bool" where
  "selects_loop (step # synthInst) (a # addr) =
     (case snd step of
        None \<Rightarrow> if fst step \<noteq> step_Name a then False else selects_loop synthInst addr
      | Some k \<Rightarrow> if \<lparr>step_Name = fst step, step_InstanceKey = k\<rparr> \<noteq> a then False else selects_loop synthInst addr)"
| "selects_loop _ _ = True"

definition SelectsModule :: "MoveEndpointInModule \<Rightarrow> ModuleInstance \<Rightarrow> bool" where
  "SelectsModule e addr =
     (let synthInst = synthModuleInstance e in
      if length synthInst \<noteq> length addr then False else selects_loop synthInst addr)"

definition SelectsResource :: "MoveEndpointInModule \<Rightarrow> AbsResource \<Rightarrow> bool" where
  "SelectsResource e addr =
     (case mm_relSubject e of
        MvResource relSubject \<Rightarrow>
          if \<not> SelectsModule e (ar_Module addr) then False else res_Equal (ar_Resource addr) (ar_Resource relSubject)
      | MvResourceInstance relSubject \<Rightarrow>
          if \<not> SelectsModule e (ar_Module addr) then False
          else res_Equal (ar_Resource addr) (ri_Resource (ari_Resource relSubject))
      | _ \<Rightarrow> False)"

text \<open>The loop ranges over the first path and indexes the second, which must not be shorter.\<close>

fun moduleInstanceCanMatch :: "synth_step list \<Rightarrow> synth_step list \<Rightarrow> bool option" where
  "moduleInstanceCanMatch [] modB = Some True"
| "moduleInstanceCanMatch (step # modA) [] = None"
| "moduleInstanceCanMatch (step # modA) (b # modB) =
     (if snd step = None \<or> snd b = None then
        (if fst step \<noteq> fst b then Some False else moduleInstanceCanMatch modA modB)
      else if step \<noteq> b then Some False else moduleInstanceCanMatch modA modB)"

definition CanChainFrom :: "MoveEndpointInModule \<Rightarrow> MoveEndpointInModule \<Rightarrow> bool option" where
  "CanChainFrom e other =
     (let eMod = synthModuleInstance e; oMod = synthModuleInstance other in
      if length eMod \<noteq> length oMod then Some False
      else case moduleInstanceCanMatch oMod eMod of
        None \<Rightarrow> None
      | Some False \<Rightarrow> Some False
      | Some True \<Rightarrow>
          Some (case (mm_relSubject other, mm_relSubject e) of
              (MvModuleCall _, MvModuleCall _) \<Rightarrow> True
            | (MvModuleCall _, MvModuleInstance _) \<Rightarrow> True
            | (MvModuleInstance _, MvModuleCall _) \<Rightarrow> True
            | (MvModuleInstance _, MvModuleInstance _) \<Rightarrow> True
            | (MvResource oSub, MvResource eSub) \<Rightarrow> res_Equal (ar_Resource eSub) (ar_Resource oSub)
            | (MvResourceInstance oSub, MvResourceInstance eSub) \<Rightarrow> ri_Equal (ari_Resource eSub) (ari_Resource oSub)
            | _ \<Rightarrow> False))"

definition NestedWithin :: "MoveEndpointInModule \<Rightarrow> MoveEndpointInModule \<Rightarrow> bool option" where
  "NestedWithin e other =
     (let eMod = synthModuleInstance e; oMod = synthModuleInstance other in
      if length oMod > length eMod then Some False
      else case moduleInstanceCanMatch oMod eMod of
        None \<Rightarrow> None
      | Some False \<Rightarrow> Some False
      | Some True \<Rightarrow>
          Some (case mm_relSubject other of
              MvModuleCall _ \<Rightarrow> (case mm_relSubject e of MvModuleCall _ \<Rightarrow> length eMod > length oMod | _ \<Rightarrow> True)
            | MvModuleInstance _ \<Rightarrow>
                (case mm_relSubject e of
                   MvModuleInstance _ \<Rightarrow> length eMod > length oMod
                 | MvModuleCall _ \<Rightarrow> length eMod > length oMod
                 | _ \<Rightarrow> True)
            | MvResource oSub \<Rightarrow>
                if length eMod \<noteq> length oMod then False
                else (case mm_relSubject e of
                        MvResourceInstance eSub \<Rightarrow> res_Equal (ri_Resource (ari_Resource eSub)) (ar_Resource oSub)
                      | _ \<Rightarrow> False)
            | MvResourceInstance _ \<Rightarrow> False))"

section \<open>Destinations\<close>

definition matchModuleInstancePrefix :: "MoveEndpointInModule \<Rightarrow> ModuleInstance \<Rightarrow> (ModuleInstance \<times> ModuleInstance) option" where
  "matchModuleInstancePrefix e instAddr =
     (if length (mm_module e) > length instAddr then None
      else if \<not> list_all (\<lambda>(name, step). name = step_Name step) (zip (mm_module e) instAddr) then None
      else Some (take (length (mm_module e)) instAddr, drop (length (mm_module e)) instAddr))"

definition steps_match :: "ModuleInstance \<Rightarrow> ModuleInstance \<Rightarrow> bool" where
  "steps_match rel m = list_all (\<lambda>(a, b). a = b) (zip rel m)"

definition mi_MoveDestination ::
  "ModuleInstance \<Rightarrow> MoveEndpointInModule \<Rightarrow> MoveEndpointInModule \<Rightarrow> ModuleInstance option option" where
  "mi_MoveDestination m fromMatch toMatch =
     (if mi_IsRoot m then Some None
      else if mm_ObjectKind fromMatch \<noteq> MoveEndpointModule then Some None
      else case matchModuleInstancePrefix fromMatch m of
        None \<Rightarrow> Some None
      | Some (mPrefix, mRel) \<Rightarrow>
          (case mm_relSubject fromMatch of
             MvModuleInstance relSubject \<Rightarrow>
               if length relSubject > length mRel then Some None
               else if \<not> steps_match relSubject mRel then Some None
               else (case mm_relSubject toMatch of
                       MvModuleInstance mNewMatch \<Rightarrow> Some (Some (mPrefix @ mNewMatch @ drop (length relSubject) mRel))
                     | _ \<Rightarrow> None)
           | MvModuleCall relSubject \<Rightarrow>
               if int (length (amc_Module relSubject)) > int (length mRel) - 1 then Some None
               else if \<not> steps_match (amc_Module relSubject) mRel then Some None
               else
                 (let callStep = mRel ! length (amc_Module relSubject) in
                  if step_Name callStep \<noteq> call_Name (amc_Call relSubject) then Some None
                  else (case mm_relSubject toMatch of
                          MvModuleCall to \<Rightarrow>
                            Some (Some (mPrefix @ amc_Instance to (step_InstanceKey callStep) @ drop (length (amc_Module relSubject) + 1) mRel))
                        | _ \<Rightarrow> None))
           | _ \<Rightarrow> None))"

text \<open>The module part shared by the two methods for resources: the relative path has to match exactly.\<close>

definition same_module :: "MoveEndpointInModule \<Rightarrow> ModuleInstance \<Rightarrow> ModuleInstance \<Rightarrow> ModuleInstance option" where
  "same_module fromMatch rel m =
     (case matchModuleInstancePrefix fromMatch m of
        None \<Rightarrow> None
      | Some (mPrefix, mRel) \<Rightarrow> if length mRel \<noteq> length rel then None else if \<not> steps_match mRel rel then None else Some mPrefix)"

definition ar_MoveDestination ::
  "AbsResource \<Rightarrow> MoveEndpointInModule \<Rightarrow> MoveEndpointInModule \<Rightarrow> AbsResource option option" where
  "ar_MoveDestination r fromMatch toMatch =
     (case mm_ObjectKind fromMatch of
        MoveEndpointModule \<Rightarrow>
          (case mi_MoveDestination (ar_Module r) fromMatch toMatch of
             None \<Rightarrow> None
           | Some None \<Rightarrow> Some None
           | Some (Some toMod) \<Rightarrow> Some (Some (res_Absolute (ar_Resource r) toMod)))
      | MoveEndpointResource \<Rightarrow>
          (case mm_relSubject fromMatch of
             MvResource fromRelSubject \<Rightarrow>
               if ar_Resource fromRelSubject \<noteq> ar_Resource r then Some None
               else (case same_module fromMatch (ar_Module fromRelSubject) (ar_Module r) of
                       None \<Rightarrow> Some None
                     | Some mPrefix \<Rightarrow>
                         (case mm_relSubject toMatch of
                            MvResource toRelSubject \<Rightarrow> Some (Some (res_Absolute (ar_Resource toRelSubject) (mPrefix @ ar_Module toRelSubject)))
                          | _ \<Rightarrow> None))
           | _ \<Rightarrow> Some None))"

definition ari_MoveDestination ::
  "AbsResourceInstance \<Rightarrow> MoveEndpointInModule \<Rightarrow> MoveEndpointInModule \<Rightarrow> AbsResourceInstance option option" where
  "ari_MoveDestination r fromMatch toMatch =
     (case mm_ObjectKind fromMatch of
        MoveEndpointModule \<Rightarrow>
          (case mi_MoveDestination (ari_Module r) fromMatch toMatch of
             None \<Rightarrow> None
           | Some None \<Rightarrow> Some None
           | Some (Some toMod) \<Rightarrow> Some (Some (ri_Absolute (ari_Resource r) toMod)))
      | MoveEndpointResource \<Rightarrow>
          (case mm_relSubject fromMatch of
             MvResource _ \<Rightarrow>
               (case ar_MoveDestination (ari_ContainingResource r) fromMatch toMatch of
                  None \<Rightarrow> None
                | Some None \<Rightarrow> Some None
                | Some (Some newResource) \<Rightarrow> Some (Some (ar_Instance newResource (ri_Key (ari_Resource r)))))
           | MvResourceInstance fromRelSubject \<Rightarrow>
               if ari_Resource fromRelSubject \<noteq> ari_Resource r then Some None
               else (case same_module fromMatch (ari_Module fromRelSubject) (ari_Module r) of
                       None \<Rightarrow> Some None
                     | Some mPrefix \<Rightarrow>
                         (case mm_relSubject toMatch of
                            MvResourceInstance toRelSubject \<Rightarrow>
                              Some (Some (ri_Absolute (ari_Resource toRelSubject) (mPrefix @ ari_Module toRelSubject)))
                          | _ \<Rightarrow> None))
           | _ \<Rightarrow> None))"

definition IsModuleReIndex :: "MoveEndpointInModule \<Rightarrow> MoveEndpointInModule \<Rightarrow> bool option" where
  "IsModuleReIndex from to =
     (if \<not> mod_Equal (mm_module from) (mm_module to) then None
      else Some (case (mm_relSubject from, mm_relSubject to) of
          (MvModuleCall f, MvModuleInstance t) \<Rightarrow> IsForModule t (mi_Module (amc_Instance f NoKey))
        | (MvModuleInstance f, MvModuleCall t) \<Rightarrow> IsForModule f (mi_Module (amc_Instance t NoKey))
        | (MvModuleInstance f, MvModuleInstance t) \<Rightarrow> HasSameModule t f
        | _ \<Rightarrow> False))"

end
