(* ===== verification/Addr_Moved.thy ===== *)
theory Addr_Moved
  imports Addr_Move
begin

text \<open>
  What move endpoints mean: the destination of an address replaces the selected part of its path,
  a statement read backwards undoes it, and two endpoints chain exactly when some object is
  selected by both.
\<close>

section \<open>Prefixes\<close>

lemma zip_names: "length p \<le> length m \<Longrightarrow> list_all (\<lambda>(n, st). n = step_Name st) (zip p m) \<longleftrightarrow> mi_Module (take (length p) m) = p"
proof (induction p arbitrary: m)
  case (Cons n p)
  then show ?case by (cases m) (auto simp: mi_Module_def)
qed (simp add: mi_Module_def)

lemma mi_Module_length: "mi_Module p = md \<Longrightarrow> length p = length md"
  by (auto simp: mi_Module_def)

lemma prefix_iff:
  "matchModuleInstancePrefix e m = Some (p, r) \<longleftrightarrow> m = p @ r \<and> mi_Module p = mm_module e"
proof
  assume "matchModuleInstancePrefix e m = Some (p, r)"
  then show "m = p @ r \<and> mi_Module p = mm_module e"
    using zip_names[of "mm_module e" m] by (auto simp: matchModuleInstancePrefix_def not_less split: if_splits)
next
  assume a: "m = p @ r \<and> mi_Module p = mm_module e"
  then have "length (mm_module e) = length p" using mi_Module_length[of p "mm_module e"] by simp
  with a zip_names[of "mm_module e" m] show "matchModuleInstancePrefix e m = Some (p, r)"
    by (simp add: matchModuleInstancePrefix_def)
qed

lemma steps_match_iff: "length rel \<le> length m \<Longrightarrow> steps_match rel m \<longleftrightarrow> (\<exists>s. m = rel @ s)"
proof (induction rel arbitrary: m)
  case (Cons a rel)
  then show ?case by (cases m) (auto simp: steps_match_def)
qed (simp add: steps_match_def)

lemma same_module_iff: "same_module f rel m = Some p \<longleftrightarrow> m = p @ rel \<and> mi_Module p = mm_module f"
proof -
  have eq: "length r = length rel \<Longrightarrow> steps_match r rel \<longleftrightarrow> r = rel" for r
    using steps_match_iff[of r rel] by auto
  have "same_module f rel m = Some p \<longleftrightarrow> (\<exists>r. matchModuleInstancePrefix f m = Some (p, r) \<and> r = rel)"
    using eq by (auto simp: same_module_def split: option.splits prod.splits if_splits)
  then show ?thesis by (auto simp: prefix_iff)
qed

section \<open>Unified endpoints\<close>

definition unified :: "MoveEndpointInModule \<Rightarrow> MoveEndpointInModule \<Rightarrow> bool" where
  "unified f t \<longleftrightarrow> mm_module f = mm_module t \<and>
     (case (mm_relSubject f, mm_relSubject t) of
        (MvModuleInstance a, MvModuleInstance b) \<Rightarrow> True
      | (MvModuleCall a, MvModuleCall b) \<Rightarrow> True
      | (MvResource a, MvResource b) \<Rightarrow> True
      | (MvResourceInstance a, MvResourceInstance b) \<Rightarrow> True
      | _ \<Rightarrow> False)"

lemma unified_sym: "unified f t \<Longrightarrow> unified t f"
  by (auto simp: unified_def split: AbsMoveable.splits)

fun mv_type :: "AbsMoveable \<Rightarrow> TargetableAddrType" where
  "mv_type (MvModuleInstance _) = ModuleInstanceAddrType"
| "mv_type (MvModuleCall _) = ModuleAddrType"
| "mv_type (MvResource _) = AbsResourceAddrType"
| "mv_type (MvResourceInstance _) = AbsResourceInstanceAddrType"

lemma unified_type: "unified f t \<longleftrightarrow> mm_module f = mm_module t \<and> mv_type (mm_relSubject f) = mv_type (mm_relSubject t)"
  by (cases "mm_relSubject f"; cases "mm_relSubject t") (simp_all add: unified_def)

lemma prepare_type:
  "prepareMoveEndpointInModule a md w = Some (Some f) \<Longrightarrow> mm_module f = md \<and> mv_type (mm_relSubject f) = w"
  by (cases "me_relSubject a"; cases w) (auto simp: prepareMoveEndpointInModule_def split: option.splits)

lemma Unify_unified:
  assumes "UnifyMoveEndpoints md a b = Some (Some (f, t))"
  shows "unified f t \<and> mm_module f = md"
proof -
  obtain w where "prepareMoveEndpointInModule a md w = Some (Some f)" "prepareMoveEndpointInModule b md w = Some (Some t)"
    using assms unfolding UnifyMoveEndpoints_def Let_def
    by (cases "internalAddrType a"; cases "internalAddrType b") (simp_all split: option.splits)
  from this[THEN prepare_type] show ?thesis by (simp add: unified_type)
qed

section \<open>Destinations\<close>

text \<open>What replacing the selected part of a module path means.\<close>

definition mi_relocates :: "MoveEndpointInModule \<Rightarrow> MoveEndpointInModule \<Rightarrow> ModuleInstance \<Rightarrow> ModuleInstance \<Rightarrow> bool" where
  "mi_relocates f t m m' \<longleftrightarrow> (\<exists>p s. mi_Module p = mm_module f \<and>
     (case (mm_relSubject f, mm_relSubject t) of
        (MvModuleInstance a, MvModuleInstance b) \<Rightarrow> m = p @ a @ s \<and> m' = p @ b @ s
      | (MvModuleCall a, MvModuleCall b) \<Rightarrow> (\<exists>k. m = p @ amc_Instance a k @ s \<and> m' = p @ amc_Instance b k @ s)
      | _ \<Rightarrow> False))"

lemma call_match:
  "(\<exists>k s. r = amc_Instance c k @ s) \<longleftrightarrow>
    length (amc_Module c) < length r \<and> steps_match (amc_Module c) r \<and> step_Name (r ! length (amc_Module c)) = call_Name (amc_Call c)"
proof (cases "length (amc_Module c) < length r")
  case True
  then have "steps_match (amc_Module c) r \<longleftrightarrow> (\<exists>s. r = amc_Module c @ s)" by (intro steps_match_iff) simp
  moreover have "(\<exists>s. r = amc_Module c @ s) \<and> step_Name (r ! length (amc_Module c)) = call_Name (amc_Call c) \<longleftrightarrow>
      (\<exists>k s. r = amc_Instance c k @ s)"
  proof
    assume "(\<exists>s. r = amc_Module c @ s) \<and> step_Name (r ! length (amc_Module c)) = call_Name (amc_Call c)"
    then obtain s where s: "r = amc_Module c @ s" "step_Name (s ! 0) = call_Name (amc_Call c)" by (auto simp: nth_append)
    with True obtain st s' where "s = st # s'" by (cases s) auto
    with s have "r = amc_Instance c (step_InstanceKey st) @ s'" by (cases st) (simp add: amc_Instance_def)
    then show "\<exists>k s. r = amc_Instance c k @ s" by blast
  qed (auto simp: amc_Instance_def)
  ultimately show ?thesis using True by blast
qed (auto simp: amc_Instance_def)

lemma mi_MoveDestination_iff:
  assumes "unified f t"
  shows "mi_MoveDestination m f t \<noteq> None"
    and "mi_MoveDestination m f t = Some (Some m') \<longleftrightarrow> m \<noteq> [] \<and> mi_relocates f t m m'"
proof -
  consider (inst) a b where "mm_relSubject f = MvModuleInstance a" "mm_relSubject t = MvModuleInstance b"
    | (call) a b where "mm_relSubject f = MvModuleCall a" "mm_relSubject t = MvModuleCall b"
    | (other) "mm_ObjectKind f \<noteq> MoveEndpointModule"
    using assms by (cases "mm_relSubject f") (auto simp: unified_def mm_ObjectKind_def split: AbsMoveable.splits)
  then have "mi_MoveDestination m f t \<noteq> None \<and> (mi_MoveDestination m f t = Some (Some m') \<longleftrightarrow> m \<noteq> [] \<and> mi_relocates f t m m')"
  proof cases
    case inst
    have d: "mi_MoveDestination m f t = Some (Some m') \<longleftrightarrow> (\<exists>p r. m \<noteq> [] \<and> matchModuleInstancePrefix f m = Some (p, r) \<and>
        length a \<le> length r \<and> steps_match a r \<and> m' = p @ b @ drop (length a) r)"
      "mi_MoveDestination m f t \<noteq> None"
      using inst by (auto simp: mi_MoveDestination_def mi_IsRoot_def mm_ObjectKind_def split: option.splits)
    have "(\<exists>p r. matchModuleInstancePrefix f m = Some (p, r) \<and> length a \<le> length r \<and> steps_match a r \<and> m' = p @ b @ drop (length a) r) \<longleftrightarrow>
        mi_relocates f t m m'"
    proof
      assume "\<exists>p r. matchModuleInstancePrefix f m = Some (p, r) \<and> length a \<le> length r \<and> steps_match a r \<and> m' = p @ b @ drop (length a) r"
      then obtain p r s where "m = p @ r" "mi_Module p = mm_module f" "r = a @ s" "m' = p @ b @ drop (length a) r"
        using steps_match_iff[of a] by (auto simp: prefix_iff)
      then show "mi_relocates f t m m'" unfolding mi_relocates_def using inst by (intro exI[of _ p] exI[of _ s]) simp
    next
      assume "mi_relocates f t m m'"
      then obtain p s where "mi_Module p = mm_module f" "m = p @ a @ s" "m' = p @ b @ s" using inst by (auto simp: mi_relocates_def)
      then show "\<exists>p r. matchModuleInstancePrefix f m = Some (p, r) \<and> length a \<le> length r \<and> steps_match a r \<and> m' = p @ b @ drop (length a) r"
        using steps_match_iff[of a "a @ s"] by (intro exI[of _ p] exI[of _ "a @ s"]) (simp add: prefix_iff)
    qed
    with d show ?thesis by auto
  next
    case call
    have i: "(int (length (amc_Module a)) > int (length r) - 1) = (\<not> length (amc_Module a) < length r)" for r :: ModuleInstance
      by linarith
    let ?ok = "\<lambda>r. \<exists>k s. r = amc_Instance a k @ s"
    let ?to = "\<lambda>p r. p @ amc_Instance b (step_InstanceKey (r ! length (amc_Module a))) @ drop (length (amc_Module a) + 1) r"
    have d: "mi_MoveDestination m f t = (if m = [] then Some None
        else case matchModuleInstancePrefix f m of
          None \<Rightarrow> Some None | Some (p, r) \<Rightarrow> if ?ok r then Some (Some (?to p r)) else Some None)"
      unfolding mi_MoveDestination_def call_match
      by (cases "matchModuleInstancePrefix f m")
        (simp_all only: call i mi_IsRoot_def mm_ObjectKind_def Let_def option.case prod.case AbsMoveable.case
          absMoveableEndpointKind.simps length_0_conv if_False if_True split: if_split prod.split, auto)
    have r: "step_InstanceKey ((amc_Instance a k @ s) ! length (amc_Module a)) = k" "drop (length (amc_Module a) + 1) (amc_Instance a k @ s) = s" for k s
      by (simp_all add: amc_Instance_def nth_append)
    have "(\<exists>p r. matchModuleInstancePrefix f m = Some (p, r) \<and> ?ok r \<and> m' = ?to p r) \<longleftrightarrow> mi_relocates f t m m'"
    proof
      assume "\<exists>p r. matchModuleInstancePrefix f m = Some (p, r) \<and> ?ok r \<and> m' = ?to p r"
      then obtain p k s where "m = p @ amc_Instance a k @ s" "mi_Module p = mm_module f" "m' = p @ amc_Instance b k @ s"
        unfolding prefix_iff by (metis r)
      then show "mi_relocates f t m m'" unfolding mi_relocates_def call prod.case AbsMoveable.case by blast
    next
      assume "mi_relocates f t m m'"
      then obtain p k s where "mi_Module p = mm_module f" "m = p @ amc_Instance a k @ s" "m' = p @ amc_Instance b k @ s"
        unfolding mi_relocates_def call prod.case AbsMoveable.case by blast
      then show "\<exists>p r. matchModuleInstancePrefix f m = Some (p, r) \<and> ?ok r \<and> m' = ?to p r"
        unfolding prefix_iff by (intro exI[of _ p] exI[of _ "amc_Instance a k @ s"] conjI) (use r in auto)
    qed
    with d show ?thesis by (auto split: option.splits if_splits)
  next
    case other
    then show ?thesis
      by (auto simp: mi_MoveDestination_def mi_relocates_def mm_ObjectKind_def split: AbsMoveable.splits)
  qed
  then show "mi_MoveDestination m f t \<noteq> None" "mi_MoveDestination m f t = Some (Some m') \<longleftrightarrow> m \<noteq> [] \<and> mi_relocates f t m m'" by auto
qed

lemma mi_relocates_sym: "unified f t \<Longrightarrow> mi_relocates f t m m' \<longleftrightarrow> mi_relocates t f m' m"
  by (auto simp: mi_relocates_def unified_def split: AbsMoveable.splits)

text \<open>
  The destination of a resource, and of a resource instance: either its module moves, or the
  resource itself, or the instance itself.
\<close>

definition ar_relocates :: "MoveEndpointInModule \<Rightarrow> MoveEndpointInModule \<Rightarrow> AbsResource \<Rightarrow> AbsResource \<Rightarrow> bool" where
  "ar_relocates f t r r' \<longleftrightarrow>
     ar_Module r \<noteq> [] \<and> mi_relocates f t (ar_Module r) (ar_Module r') \<and> ar_Resource r' = ar_Resource r \<or>
     (\<exists>a b p. mm_relSubject f = MvResource a \<and> mm_relSubject t = MvResource b \<and> mi_Module p = mm_module f \<and>
        ar_Resource r = ar_Resource a \<and> ar_Module r = p @ ar_Module a \<and> ar_Resource r' = ar_Resource b \<and> ar_Module r' = p @ ar_Module b)"

definition ari_relocates :: "MoveEndpointInModule \<Rightarrow> MoveEndpointInModule \<Rightarrow> AbsResourceInstance \<Rightarrow> AbsResourceInstance \<Rightarrow> bool" where
  "ari_relocates f t r r' \<longleftrightarrow>
     ar_relocates f t (ari_ContainingResource r) (ari_ContainingResource r') \<and> ri_Key (ari_Resource r') = ri_Key (ari_Resource r) \<or>
     (\<exists>a b p. mm_relSubject f = MvResourceInstance a \<and> mm_relSubject t = MvResourceInstance b \<and> mi_Module p = mm_module f \<and>
        ari_Resource r = ari_Resource a \<and> ari_Module r = p @ ari_Module a \<and> ari_Resource r' = ari_Resource b \<and> ari_Module r' = p @ ari_Module b)"

lemma mi_relocates_kind: "mi_relocates f t m m' \<Longrightarrow> mm_ObjectKind f = MoveEndpointModule"
  by (cases "mm_relSubject f"; cases "mm_relSubject t") (auto simp: mi_relocates_def mm_ObjectKind_def)

lemma kind_cases:
  assumes "unified f t"
  obtains (module) "mm_ObjectKind f = MoveEndpointModule" "\<And>a. mm_relSubject f \<noteq> MvResource a" "\<And>a. mm_relSubject f \<noteq> MvResourceInstance a"
    | (resource) a b where "mm_ObjectKind f = MoveEndpointResource" "mm_relSubject f = MvResource a" "mm_relSubject t = MvResource b"
    | (inst) a b where "mm_ObjectKind f = MoveEndpointResource" "mm_relSubject f = MvResourceInstance a" "mm_relSubject t = MvResourceInstance b"
  using assms by (cases "mm_relSubject f"; cases "mm_relSubject t") (auto simp: unified_def mm_ObjectKind_def)

lemma ar_MoveDestination_iff:
  assumes u: "unified f t"
  shows "ar_MoveDestination r f t \<noteq> None"
    and "ar_MoveDestination r f t = Some (Some r') \<longleftrightarrow> ar_relocates f t r r'"
proof -
  have "ar_MoveDestination r f t \<noteq> None \<and> (ar_MoveDestination r f t = Some (Some r') \<longleftrightarrow> ar_relocates f t r r')"
    using u
  proof (cases rule: kind_cases)
    case module
    have "ar_MoveDestination r f t = Some (Some r') \<longleftrightarrow>
        mi_MoveDestination (ar_Module r) f t = Some (Some (ar_Module r')) \<and> ar_Resource r' = ar_Resource r"
      "ar_MoveDestination r f t \<noteq> None"
      using module mi_MoveDestination_iff(1)[OF u, of "ar_Module r"]
      by (auto simp: ar_MoveDestination_def res_Absolute_def split: option.splits)
    then show ?thesis using module by (auto simp: mi_MoveDestination_iff(2)[OF u] ar_relocates_def)
  next
    case (resource a b)
    have "ar_MoveDestination r f t = Some (Some r') \<longleftrightarrow> ar_Resource r = ar_Resource a \<and>
        (\<exists>p. same_module f (ar_Module a) (ar_Module r) = Some p \<and> r' = res_Absolute (ar_Resource b) (p @ ar_Module b))"
      "ar_MoveDestination r f t \<noteq> None"
      using resource by (auto simp: ar_MoveDestination_def split: option.splits)
    then show ?thesis using resource mi_relocates_kind[of f t]
      by (auto simp: same_module_iff ar_relocates_def res_Absolute_def)
  next
    case (inst a b)
    then show ?thesis using mi_relocates_kind[of f t] by (auto simp: ar_MoveDestination_def ar_relocates_def)
  qed
  then show "ar_MoveDestination r f t \<noteq> None" "ar_MoveDestination r f t = Some (Some r') \<longleftrightarrow> ar_relocates f t r r'" by auto
qed

lemma ari_MoveDestination_iff:
  assumes u: "unified f t"
  shows "ari_MoveDestination r f t \<noteq> None"
    and "ari_MoveDestination r f t = Some (Some r') \<longleftrightarrow> ari_relocates f t r r'"
proof -
  have "ari_MoveDestination r f t \<noteq> None \<and> (ari_MoveDestination r f t = Some (Some r') \<longleftrightarrow> ari_relocates f t r r')"
    using u
  proof (cases rule: kind_cases)
    case module
    have "ari_MoveDestination r f t = Some (Some r') \<longleftrightarrow>
        mi_MoveDestination (ari_Module r) f t = Some (Some (ari_Module r')) \<and> ari_Resource r' = ari_Resource r"
      "ari_MoveDestination r f t \<noteq> None"
      using module mi_MoveDestination_iff(1)[OF u, of "ari_Module r"]
      by (auto simp: ari_MoveDestination_def ri_Absolute_def split: option.splits)
    then show ?thesis using module
      by (auto simp: mi_MoveDestination_iff(2)[OF u] ar_relocates_def ari_relocates_def ari_ContainingResource_def)
  next
    case (resource a b)
    have "ari_MoveDestination r f t = Some (Some r') \<longleftrightarrow>
        ar_MoveDestination (ari_ContainingResource r) f t = Some (Some (ari_ContainingResource r')) \<and> ri_Key (ari_Resource r') = ri_Key (ari_Resource r)"
      "ari_MoveDestination r f t \<noteq> None"
      using resource ar_MoveDestination_iff(1)[OF u, of "ari_ContainingResource r"]
      by (auto simp: ari_MoveDestination_def ar_Instance_def res_Instance_def ari_ContainingResource_def split: option.splits)
    then show ?thesis using resource by (auto simp: ar_MoveDestination_iff(2)[OF u] ari_relocates_def)
  next
    case (inst a b)
    have "ari_MoveDestination r f t = Some (Some r') \<longleftrightarrow> ari_Resource r = ari_Resource a \<and>
        (\<exists>p. same_module f (ari_Module a) (ari_Module r) = Some p \<and> r' = ri_Absolute (ari_Resource b) (p @ ari_Module b))"
      "ari_MoveDestination r f t \<noteq> None"
      using inst by (auto simp: ari_MoveDestination_def split: option.splits)
    then show ?thesis using inst mi_relocates_kind[of f t]
      by (auto simp: same_module_iff ar_relocates_def ari_relocates_def ri_Absolute_def)
  qed
  then show "ari_MoveDestination r f t \<noteq> None" "ari_MoveDestination r f t = Some (Some r') \<longleftrightarrow> ari_relocates f t r r'" by auto
qed

text \<open>No endpoint written in a configuration is the root module itself.\<close>

definition names_root :: "MoveEndpointInModule \<Rightarrow> bool" where
  "names_root e \<longleftrightarrow> mm_relSubject e = MvModuleInstance []"

lemma mi_relocates_nonroot: "mi_relocates f t m m' \<Longrightarrow> \<not> names_root f \<Longrightarrow> m \<noteq> []"
  by (cases "mm_relSubject f"; cases "mm_relSubject t") (auto simp: mi_relocates_def names_root_def amc_Instance_def)

lemma ar_relocates_sym:
  "unified f t \<Longrightarrow> \<not> names_root f \<Longrightarrow> \<not> names_root t \<Longrightarrow> ar_relocates f t r r' \<longleftrightarrow> ar_relocates t f r' r"
  using mi_relocates_sym[of f t "ar_Module r" "ar_Module r'"] mi_relocates_nonroot[of f t "ar_Module r" "ar_Module r'"]
    mi_relocates_nonroot[of t f "ar_Module r'" "ar_Module r"]
  unfolding ar_relocates_def by (auto simp: unified_def)

lemma ari_relocates_sym:
  assumes "unified f t" "\<not> names_root f" "\<not> names_root t"
  shows "ari_relocates f t r r' \<longleftrightarrow> ari_relocates t f r' r"
proof -
  have "mm_module f = mm_module t" using assms(1) by (simp add: unified_def)
  then show ?thesis unfolding ari_relocates_def ar_relocates_sym[OF assms] by auto
qed

lemma prepare_names_root:
  "prepareMoveEndpointInModule a md w = Some (Some f) \<Longrightarrow> names_root f \<Longrightarrow> me_relSubject a = MvModuleInstance []"
  by (cases "me_relSubject a"; cases w) (auto simp: prepareMoveEndpointInModule_def names_root_def split: option.splits)

lemma Unify_names_root:
  assumes "UnifyMoveEndpoints md a b = Some (Some (f, t))"
    and "me_relSubject a \<noteq> MvModuleInstance []" "me_relSubject b \<noteq> MvModuleInstance []"
  shows "\<not> names_root f \<and> \<not> names_root t"
proof -
  obtain w where "prepareMoveEndpointInModule a md w = Some (Some f)" "prepareMoveEndpointInModule b md w = Some (Some t)"
    using assms unfolding UnifyMoveEndpoints_def Let_def
    by (cases "internalAddrType a"; cases "internalAddrType b") (simp_all split: option.splits)
  then show ?thesis using assms(2,3) prepare_names_root by blast
qed

section \<open>Selection\<close>

lemma selects_key:
  "selects_loop (s # ss) (a # as) \<longleftrightarrow> fst s = step_Name a \<and> (snd s = None \<or> snd s = Some (step_InstanceKey a)) \<and> selects_loop ss as"
  by (cases a) (auto split: option.splits)

lemma CanMatch_iff:
  "length modA = length modB \<Longrightarrow>
    moduleInstanceCanMatch modA modB = Some (\<exists>m. length m = length modA \<and> selects_loop modA m \<and> selects_loop modB m)"
proof (induction modA modB rule: moduleInstanceCanMatch.induct)
  case (1 modB)
  then show ?case by simp
next
  case (2 step modA)
  then show ?case by simp
next
  case (3 x modA y modB)
  let ?both = "\<lambda>A B m. length m = length A \<and> selects_loop A m \<and> selects_loop B m"
  let ?ok = "fst x = fst y \<and> (snd x = None \<or> snd y = None \<or> snd x = snd y)"
  have "moduleInstanceCanMatch (x # modA) (y # modB) = (if ?ok then moduleInstanceCanMatch modA modB else Some False)"
    by (cases x; cases y) auto
  also have "\<dots> = (if ?ok then Some (\<exists>m. ?both modA modB m) else Some False)"
    using 3 by (cases "snd x = None \<or> snd y = None"; cases "x = y") (auto simp: prod_eq_iff)
  also have "\<dots> = Some (\<exists>m. ?both (x # modA) (y # modB) m)"
  proof -
    have "?ok \<and> (\<exists>m. ?both modA modB m) \<longleftrightarrow> (\<exists>m. ?both (x # modA) (y # modB) m)"
    proof
      assume a: "?ok \<and> (\<exists>m. ?both modA modB m)"
      then obtain m where m: "?both modA modB m" by blast
      define k where "k = (case snd x of Some k \<Rightarrow> k | None \<Rightarrow> (case snd y of Some k \<Rightarrow> k | None \<Rightarrow> NoKey))"
      have "?both (x # modA) (y # modB) (\<lparr>step_Name = fst x, step_InstanceKey = k\<rparr> # m)"
        using a m unfolding selects_key by (auto simp: k_def split: option.splits)
      then show "\<exists>m. ?both (x # modA) (y # modB) m" by blast
    next
      assume "\<exists>m. ?both (x # modA) (y # modB) m"
      then obtain a m where "?both (x # modA) (y # modB) (a # m)" by (metis length_Suc_conv length_Cons)
      then show "?ok \<and> (\<exists>m. ?both modA modB m)" unfolding selects_key by auto
    qed
    then show ?thesis by auto
  qed
  finally show ?case .
qed

text \<open>The objects an endpoint stands for, by the methods that decide what it selects.\<close>

fun denotes :: "MoveEndpointInModule \<Rightarrow> AbsMoveable \<Rightarrow> bool" where
  "denotes e (MvModuleInstance m) = (mm_ObjectKind e = MoveEndpointModule \<and> SelectsModule e m)"
| "denotes e (MvResource r) = ((\<exists>s. mm_relSubject e = MvResource s) \<and> SelectsResource e r)"
| "denotes e (MvResourceInstance r) =
     (\<exists>s. mm_relSubject e = MvResourceInstance s \<and> SelectsResource e (ari_ContainingResource r) \<and>
        ri_Key (ari_Resource r) = ri_Key (ari_Resource s))"
| "denotes e (MvModuleCall _) = False"

lemma ex_AbsMoveable:
  "(\<exists>x. P x) \<longleftrightarrow> (\<exists>m. P (MvModuleInstance m)) \<or> (\<exists>m. P (MvModuleCall m)) \<or> (\<exists>m. P (MvResource m)) \<or> (\<exists>m. P (MvResourceInstance m))"
  by (metis AbsMoveable.exhaust)

lemma both_select:
  assumes "length (synthModuleInstance e) = length (synthModuleInstance ot)"
  shows "moduleInstanceCanMatch (synthModuleInstance ot) (synthModuleInstance e) = Some (\<exists>m. SelectsModule e m \<and> SelectsModule ot m)"
proof -
  have sel: "SelectsModule x m \<longleftrightarrow> length m = length (synthModuleInstance x) \<and> selects_loop (synthModuleInstance x) m" for x m
    by (auto simp: SelectsModule_def Let_def)
  show ?thesis unfolding CanMatch_iff[OF assms[symmetric]] sel assms by (intro arg_cong[where f = Some]) blast
qed

lemma CanChain_denotes:
  assumes len: "length (synthModuleInstance e) = length (synthModuleInstance ot)"
  shows "CanChainFrom e ot = Some (\<exists>x. denotes e x \<and> denotes ot x)"
proof -
  let ?m = "\<exists>m. SelectsModule e m \<and> SelectsModule ot m"
  have c: "CanChainFrom e ot = Some (?m \<and> (case (mm_relSubject ot, mm_relSubject e) of
      (MvModuleCall _, MvModuleCall _) \<Rightarrow> True
    | (MvModuleCall _, MvModuleInstance _) \<Rightarrow> True
    | (MvModuleInstance _, MvModuleCall _) \<Rightarrow> True
    | (MvModuleInstance _, MvModuleInstance _) \<Rightarrow> True
    | (MvResource o', MvResource e') \<Rightarrow> ar_Resource e' = ar_Resource o'
    | (MvResourceInstance o', MvResourceInstance e') \<Rightarrow> ari_Resource e' = ari_Resource o'
    | _ \<Rightarrow> False))"
    unfolding CanChainFrom_def Let_def both_select[OF len] addr_Equal by (simp add: len split: bool.split)
  have sel: "SelectsResource x r \<longleftrightarrow> (case mm_relSubject x of
        MvResource s \<Rightarrow> SelectsModule x (ar_Module r) \<and> ar_Resource r = ar_Resource s
      | MvResourceInstance s \<Rightarrow> SelectsModule x (ar_Module r) \<and> ar_Resource r = ri_Resource (ari_Resource s)
      | _ \<Rightarrow> False)" for x r
    unfolding SelectsResource_def addr_Equal by (auto split: AbsMoveable.split)
  have ex: "(\<exists>r :: AbsResource. Q (ar_Module r) \<and> ar_Resource r = x) \<longleftrightarrow> (\<exists>m. Q m)" for Q and x :: Resource
  proof
    assume "\<exists>m. Q m"
    then obtain m where "Q (ar_Module \<lparr>ar_Module = m, ar_Resource = x\<rparr>)" by auto
    then show "\<exists>r :: AbsResource. Q (ar_Module r) \<and> ar_Resource r = x" by (intro exI[of _ "\<lparr>ar_Module = m, ar_Resource = x\<rparr>"]) simp
  qed blast
  have exi: "(\<exists>r :: AbsResourceInstance. Q (ari_Module r) \<and> ri_Resource (ari_Resource r) = ri_Resource x \<and> ri_Key (ari_Resource r) = ri_Key x) \<longleftrightarrow> (\<exists>m. Q m)"
    for Q and x :: ResourceInstance
  proof
    assume "\<exists>m. Q m"
    then obtain m where "Q (ari_Module \<lparr>ari_Module = m, ari_Resource = x\<rparr>)" by auto
    then show "\<exists>r :: AbsResourceInstance. Q (ari_Module r) \<and> ri_Resource (ari_Resource r) = ri_Resource x \<and> ri_Key (ari_Resource r) = ri_Key x"
      by (intro exI[of _ "\<lparr>ari_Module = m, ari_Resource = x\<rparr>"]) simp
  qed blast
  have same: "x = y \<longleftrightarrow> ri_Resource x = ri_Resource y \<and> ri_Key x = ri_Key y" for x y :: ResourceInstance
    by (cases x; cases y) simp
  show ?thesis
    unfolding c ex_AbsMoveable
    apply (cases "mm_relSubject e"; cases "mm_relSubject ot"; simp add: mm_ObjectKind_def sel ari_ContainingResource_def)
    subgoal for x y using ex[of "\<lambda>m. SelectsModule e m \<and> SelectsModule ot m" "ar_Resource x"] by metis
    subgoal for x y using exi[of "\<lambda>m. SelectsModule e m \<and> SelectsModule ot m" "ari_Resource x"] same by metis
    done
qed

lemma denotes_length: "denotes e x \<Longrightarrow> denotes ot x \<Longrightarrow> length (synthModuleInstance e) = length (synthModuleInstance ot)"
  by (cases x) (auto simp: SelectsModule_def SelectsResource_def Let_def split: AbsMoveable.splits if_splits)

section \<open>Properties\<close>

text \<open>
  C29: Round trip of a move. For the two endpoints of a \<^verbatim>\<open>moved\<close> block after they have been unified,
  neither naming the root module, the destination of a resource instance is always computed without a
  panic, and an instance moves from one address to another exactly when the block written the other way
  round moves it back. So a move loses no information: no two instances have the same destination.
\<close>
theorem MoveDestination_roundtrip:
  assumes "UnifyMoveEndpoints md relFrom relTo = Some (Some (f, t))"
    and "me_relSubject relFrom \<noteq> MvModuleInstance []" "me_relSubject relTo \<noteq> MvModuleInstance []"
  shows "ari_MoveDestination a f t \<noteq> None \<and>
    (ari_MoveDestination a f t = Some (Some b) \<longleftrightarrow> ari_MoveDestination b t f = Some (Some a))"
proof -
  have u: "unified f t" "\<not> names_root f" "\<not> names_root t" using Unify_unified[OF assms(1)] Unify_names_root[OF assms] by auto
  then show ?thesis
    using ari_MoveDestination_iff[OF u(1)] ari_MoveDestination_iff(2)[OF unified_sym[OF u(1)]] ari_relocates_sym[OF u] by simp
qed

definition w_rng :: SourceRange where
  "w_rng = \<lparr>rng_Filename = ''main.tf'', rng_Start = \<lparr>pos_Line = 1, pos_Column = 1, pos_Byte = 0\<rparr>, rng_End = \<lparr>pos_Line = 1, pos_Column = 1, pos_Byte = 0\<rparr>\<rparr>"

definition w_from :: MoveEndpoint where
  "w_from = \<lparr>me_SourceRange = w_rng, me_relSubject = MvModuleInstance [\<lparr>step_Name = ''a'', step_InstanceKey = NoKey\<rparr>]\<rparr>"

definition w_to :: MoveEndpoint where
  "w_to = \<lparr>me_SourceRange = w_rng, me_relSubject = MvModuleInstance [\<lparr>step_Name = ''b'', step_InstanceKey = IntKey 0\<rparr>]\<rparr>"

definition w_inst :: "string \<Rightarrow> InstanceKey \<Rightarrow> AbsResourceInstance" where
  "w_inst n k = \<lparr>ari_Module = [\<lparr>step_Name = n, step_InstanceKey = k\<rparr>],
     ari_Resource = \<lparr>ri_Resource = \<lparr>res_Mode = ManagedResourceMode, res_Type = ''t'', res_Name = ''r''\<rparr>, ri_Key = NoKey\<rparr>\<rparr>"

definition w_end :: "string \<Rightarrow> InstanceKey \<Rightarrow> MoveEndpointInModule" where
  "w_end n k = \<lparr>mm_SourceRange = w_rng, mm_module = [], mm_relSubject = MvModuleInstance [\<lparr>step_Name = n, step_InstanceKey = k\<rparr>]\<rparr>"

lemmas w_defs = w_from_def w_to_def w_inst_def w_end_def

theorem MoveDestination_roundtrip_witness:
  "ari_MoveDestination (w_inst ''b'' (IntKey 0)) (w_end ''b'' (IntKey 0)) (w_end ''a'' NoKey) = Some (Some (w_inst ''a'' NoKey))"
proof -
  have u: "UnifyMoveEndpoints [] w_from w_to = Some (Some (w_end ''a'' NoKey, w_end ''b'' (IntKey 0)))"
    by (simp add: w_defs UnifyMoveEndpoints_def internalAddrType_def prepareMoveEndpointInModule_def mi_IsRoot_def Let_def)
  have "ari_MoveDestination (w_inst ''a'' NoKey) (w_end ''a'' NoKey) (w_end ''b'' (IntKey 0)) = Some (Some (w_inst ''b'' (IntKey 0)))"
    by (simp add: w_defs ari_MoveDestination_def mi_MoveDestination_def mm_ObjectKind_def mi_IsRoot_def matchModuleInstancePrefix_def
        steps_match_def ri_Absolute_def)
  then show ?thesis using MoveDestination_roundtrip[OF u] by (simp add: w_defs)
qed


end
