(* ===== verification/Refactor_Moves.thy ===== *)
theory Refactor_Moves
  imports Addr_Move State_Ops Dag_Scc
begin

text \<open>
  Move statements and their execution (\<^verbatim>\<open>move_statement.go\<close> and \<^verbatim>\<open>move_execute.go\<close> of
  \<^verbatim>\<open>internal/refactoring\<close>, and the validation of the statement graph of \<^verbatim>\<open>move_validate.go\<close>): the
  dependency graph of the statements, the order in which they are executed, and the moves they
  make in a state, with the record of where each resource instance came from.

  The vertices of the graph are pointers to the statements; here they are the indices of the
  statements, which are their own hash codes.  A panic is \<open>None\<close>.

  The loops of \<^verbatim>\<open>ApplyMoves\<close> change the maps they range over.  Go then visits no entry that has been
  removed, and an entry that has been added may be visited or not.  The model takes the visits as a
  parameter: the keys each loop meets, in order, each looked up when its turn comes, so that a removed
  entry is passed over.  Where a loop ranges over a module or a resource that has been dropped
  from the state because it had become empty, there is nothing left to visit, which is a shorter
  list.  Theorems hold for every choice of visits.
\<close>

section \<open>Statements\<close>

record MoveStatement =
  mvs_From :: MoveEndpointInModule
  mvs_To :: MoveEndpointInModule
  mvs_DeclRange :: SourceRange
  mvs_Implied :: bool

definition mvs_ObjectKind :: "MoveStatement \<Rightarrow> MoveEndpointKind" where
  "mvs_ObjectKind s = mm_ObjectKind (mvs_From s)"

definition mvs_Name :: "MoveStatement \<Rightarrow> string" where
  "mvs_Name s = mm_String (Some (mvs_From s)) @ ''->'' @ mm_String (Some (mvs_To s))"

text \<open>A disjunction of calls, evaluated from the left until one holds.\<close>

fun first_true :: "bool option list \<Rightarrow> bool option" where
  "first_true [] = Some False"
| "first_true (x # xs) = (case x of None \<Rightarrow> None | Some True \<Rightarrow> Some True | Some False \<Rightarrow> first_true xs)"

definition statementDependsOn :: "MoveStatement \<Rightarrow> MoveStatement \<Rightarrow> bool option" where
  "statementDependsOn a b =
     (case CanChainFrom (mvs_From a) (mvs_To b) of
        None \<Rightarrow> None
      | Some True \<Rightarrow> Some True
      | Some False \<Rightarrow>
          (case first_true [NestedWithin (mvs_From a) (mvs_To b), NestedWithin (mvs_To a) (mvs_To b),
                            NestedWithin (mvs_From b) (mvs_From a), NestedWithin (mvs_To b) (mvs_From a)] of
             None \<Rightarrow> None
           | Some False \<Rightarrow> Some False
           | Some True \<Rightarrow>
               if length (mm_module (mvs_To a)) \<ge> length (mm_module (mvs_To b)) then Some True
               else (case IsModuleReIndex (mvs_From a) (mvs_To a) of
                       None \<Rightarrow> None
                     | Some True \<Rightarrow> Some False
                     | Some False \<Rightarrow> Some True)))"

section \<open>The graph of the statements\<close>

text \<open>A pointer has no hash code of its own, so it is its own hash code.\<close>

definition stmt_hash :: "nat \<Rightarrow> nat" where
  "stmt_hash v = v"

fun connect_dependees :: "MoveStatement list \<Rightarrow> nat \<Rightarrow> nat list \<Rightarrow> (nat, nat) graph \<Rightarrow> (nat, nat) graph option" where
  "connect_dependees stmts dependerI [] g = Some g"
| "connect_dependees stmts dependerI (dependeeI # rest) g =
     (if dependerI = dependeeI then connect_dependees stmts dependerI rest g
      else case statementDependsOn (stmts ! dependerI) (stmts ! dependeeI) of
        None \<Rightarrow> None
      | Some False \<Rightarrow> connect_dependees stmts dependerI rest g
      | Some True \<Rightarrow> connect_dependees stmts dependerI rest (graph_Connect stmt_hash g (BasicEdge dependerI dependeeI)))"

fun connect_dependers :: "MoveStatement list \<Rightarrow> nat list \<Rightarrow> (nat, nat) graph \<Rightarrow> (nat, nat) graph option" where
  "connect_dependers stmts [] g = Some g"
| "connect_dependers stmts (dependerI # rest) g =
     (case connect_dependees stmts dependerI [0..<length stmts] g of
        None \<Rightarrow> None
      | Some g' \<Rightarrow> connect_dependers stmts rest g')"

definition buildMoveStatementGraph :: "MoveStatement list \<Rightarrow> (nat, nat) graph option" where
  "buildMoveStatementGraph stmts =
     connect_dependers stmts [0..<length stmts] (foldl (graph_Add stmt_hash) emptyGraph [0..<length stmts])"

text \<open>The errors of the graph; their text is left out.\<close>

datatype move_graph_error = CyclicMoves "nat list" | SelfReferenceMove nat

definition validateMoveStatementGraph :: "(nat, nat) graph \<Rightarrow> move_graph_error list option" where
  "validateMoveStatementGraph g =
     (case Cycles stmt_hash g of
        None \<Rightarrow> None
      | Some cycles \<Rightarrow>
          Some (map CyclicMoves cycles @
                map (\<lambda>e. SelfReferenceMove (edge_S e)) (filter (\<lambda>e. edge_S e = edge_T e) (graph_Edges g))))"

section \<open>Results\<close>

record MoveSuccess =
  succ_From :: AbsResourceInstance
  succ_To :: AbsResourceInstance

record MoveBlocked =
  blk_Wanted :: AbsMoveable
  blk_Actual :: AbsMoveable

record MoveResults =
  mvr_Changes :: "(string, AbsResourceInstance, MoveSuccess) addr_map"
  mvr_Blocked :: "(moveable_key, AbsMoveable, MoveBlocked) addr_map"

definition makeMoveResults :: MoveResults where
  "makeMoveResults = \<lparr>mvr_Changes = MakeMap ari_String [], mvr_Blocked = MakeMap mv_UniqueKey []\<rparr>"

definition AddrMoved :: "MoveResults \<Rightarrow> AbsResourceInstance \<Rightarrow> bool" where
  "AddrMoved rs newAddr = map_Has ari_String (mvr_Changes rs) newAddr"

definition OldAddr :: "MoveResults \<Rightarrow> AbsResourceInstance \<Rightarrow> AbsResourceInstance" where
  "OldAddr rs newAddr =
     (case map_GetOk ari_String (mvr_Changes rs) newAddr of None \<Rightarrow> newAddr | Some change \<Rightarrow> succ_From change)"

definition recordOldAddr :: "MoveResults \<Rightarrow> AbsResourceInstance \<Rightarrow> AbsResourceInstance \<Rightarrow> MoveResults" where
  "recordOldAddr ret oldAddr newAddr =
     (let (changes, oldAddr) =
        (case map_GetOk ari_String (mvr_Changes ret) oldAddr of
           Some prevMove \<Rightarrow> (map_Remove ari_String (mvr_Changes ret) oldAddr, succ_From prevMove)
         | None \<Rightarrow> (mvr_Changes ret, oldAddr))
      in ret\<lparr>mvr_Changes := map_Put ari_String changes newAddr \<lparr>succ_From = oldAddr, succ_To = newAddr\<rparr>\<rparr>)"

definition recordBlockage :: "MoveResults \<Rightarrow> AbsMoveable \<Rightarrow> AbsMoveable \<Rightarrow> MoveResults" where
  "recordBlockage ret newAddr wantedAddr =
     ret\<lparr>mvr_Blocked := map_Put mv_UniqueKey (mvr_Blocked ret) newAddr \<lparr>blk_Wanted = wantedAddr, blk_Actual = newAddr\<rparr>\<rparr>"

section \<open>Execution\<close>

type_synonym ('p, 'v, 'm, 'c) moving = "('p, 'v, 'm, 'c) State \<times> MoveResults"

fun fold_opt :: "('a \<Rightarrow> 's \<Rightarrow> 's option) \<Rightarrow> 'a list \<Rightarrow> 's \<Rightarrow> 's option" where
  "fold_opt f [] s = Some s"
| "fold_opt f (x # xs) s = (case f x s of None \<Rightarrow> None | Some s' \<Rightarrow> fold_opt f xs s')"

text \<open>The addresses of all instances of a module, before and after its move.\<close>

definition module_moves :: "('p, 'v, 'm) Module_state \<Rightarrow> ModuleInstance \<Rightarrow> ModuleInstance \<Rightarrow> (AbsResourceInstance \<times> AbsResourceInstance) list" where
  "module_moves ms modAddr newAddr =
     concat (map (\<lambda>(_, rs).
        (let relAddr = ar_Resource (rs_Addr rs)
         in map (\<lambda>(key, _). (ri_Absolute (res_Instance relAddr key) modAddr, ri_Absolute (res_Instance relAddr key) newAddr)) (rs_Instances rs)))
       (ms_Resources ms))"

definition move_module :: "MoveStatement \<Rightarrow> ('p, 'v, 'm) Module_state \<Rightarrow> ('p, 'v, 'm, 'c) moving \<Rightarrow> ('p, 'v, 'm, 'c) moving option" where
  "move_module stmt ms = (\<lambda>(state, ret).
     (let modAddr = ms_Addr ms in
      case mi_MoveDestination modAddr (mvs_From stmt) (mvs_To stmt) of
        None \<Rightarrow> None
      | Some None \<Rightarrow> Some (state, ret)
      | Some (Some newAddr) \<Rightarrow>
          if st_Module state newAddr \<noteq> None then
            Some (state, recordBlockage ret (MvModuleInstance modAddr) (MvModuleInstance newAddr))
          else
            (let ret = foldl (\<lambda>ret (oldInst, newInst). recordOldAddr ret oldInst newInst) ret (module_moves ms modAddr newAddr)
             in map_option (\<lambda>state. (state, ret)) (st_MoveModuleInstance state modAddr newAddr))))"

definition visit_module :: "string \<Rightarrow> ('p, 'v, 'm, 'c) State \<Rightarrow> ('p, 'v, 'm) Module_state option" where
  "visit_module mk state = gmap_get (st_Modules state) mk"

definition visit_resource :: "string \<Rightarrow> string \<Rightarrow> ('p, 'v, 'm, 'c) State \<Rightarrow> ('p, 'm) Resource_state option" where
  "visit_resource mk rk state = (case visit_module mk state of None \<Rightarrow> None | Some ms \<Rightarrow> gmap_get (ms_Resources ms) rk)"

definition move_instance ::
  "MoveStatement \<Rightarrow> string \<Rightarrow> string \<Rightarrow> AbsResource \<Rightarrow> InstanceKey \<Rightarrow> ('p, 'v, 'm, 'c) moving \<Rightarrow> ('p, 'v, 'm, 'c) moving option" where
  "move_instance stmt mk rk rAddr key = (\<lambda>(state, ret).
     (case visit_resource mk rk state of
        None \<Rightarrow> Some (state, ret)
      | Some rs \<Rightarrow>
          if gmap_get (rs_Instances rs) key = None then Some (state, ret)
          else
            (let iAddr = ar_Instance rAddr key in
             case ari_MoveDestination iAddr (mvs_From stmt) (mvs_To stmt) of
               None \<Rightarrow> None
             | Some None \<Rightarrow> Some (state, ret)
             | Some (Some newAddr) \<Rightarrow>
                 if st_ResourceInstance state newAddr \<noteq> None then
                   Some (state, recordBlockage ret (MvResourceInstance iAddr) (MvResourceInstance newAddr))
                 else map_option (\<lambda>state. (state, recordOldAddr ret iAddr newAddr)) (st_MoveAbsResourceInstance state iAddr newAddr))))"

definition move_resource ::
  "MoveStatement \<Rightarrow> string \<Rightarrow> string \<times> InstanceKey list \<Rightarrow> ('p, 'v, 'm, 'c) moving \<Rightarrow> ('p, 'v, 'm, 'c) moving option" where
  "move_resource stmt mk = (\<lambda>(rk, instKeys) (state, ret).
     (case visit_resource mk rk state of
        None \<Rightarrow> Some (state, ret)
      | Some rs \<Rightarrow>
          (let rAddr = rs_Addr rs in
           case ar_MoveDestination rAddr (mvs_From stmt) (mvs_To stmt) of
             None \<Rightarrow> None
           | Some (Some newAddr) \<Rightarrow>
               if st_Resource state newAddr \<noteq> None then
                 Some (state, recordBlockage ret (MvResource rAddr) (MvResource newAddr))
               else
                 (let ret = foldl (\<lambda>ret (key, _). recordOldAddr ret (ar_Instance rAddr key) (ar_Instance newAddr key)) ret (rs_Instances rs)
                  in map_option (\<lambda>state. (state, ret)) (st_MoveAbsResource state rAddr newAddr))
           | Some None \<Rightarrow> fold_opt (move_instance stmt mk rk rAddr) instKeys (state, ret))))"

type_synonym visits = "(string \<times> (string \<times> InstanceKey list) list) list"

definition move_in_module ::
  "MoveStatement \<Rightarrow> string \<times> (string \<times> InstanceKey list) list \<Rightarrow> ('p, 'v, 'm, 'c) moving \<Rightarrow> ('p, 'v, 'm, 'c) moving option" where
  "move_in_module stmt = (\<lambda>(mk, resources) (state, ret).
     (case visit_module mk state of
        None \<Rightarrow> Some (state, ret)
      | Some ms \<Rightarrow>
          (case mvs_ObjectKind stmt of
             MoveEndpointModule \<Rightarrow> move_module stmt ms (state, ret)
           | MoveEndpointResource \<Rightarrow>
               if \<not> SelectsModule (mvs_From stmt) (ms_Addr ms) then Some (state, ret)
               else fold_opt (move_resource stmt mk) resources (state, ret))))"

text \<open>The visits are given for each statement by its index.\<close>

definition execute_moves ::
  "(nat \<Rightarrow> visits) \<Rightarrow> MoveStatement list \<Rightarrow> nat list \<Rightarrow> ('p, 'v, 'm, 'c) moving \<Rightarrow> ('p, 'v, 'm, 'c) moving option" where
  "execute_moves vis stmts order st = fold_opt (\<lambda>v. fold_opt (move_in_module (stmts ! v)) (vis v)) order st"

definition ApplyMoves ::
  "(nat \<Rightarrow> visits) \<Rightarrow> MoveStatement list \<Rightarrow> ('p, 'v, 'm, 'c) State \<Rightarrow> ('p, 'v, 'm, 'c) moving option" where
  "ApplyMoves vis stmts state =
     (let ret = makeMoveResults in
      if length stmts = 0 then Some (state, ret)
      else case buildMoveStatementGraph stmts of
        None \<Rightarrow> None
      | Some g \<Rightarrow>
          (case validateMoveStatementGraph g of
             None \<Rightarrow> None
           | Some diags \<Rightarrow>
               if diags \<noteq> [] then Some (state, ret)
               else case TransitiveReduction stmt_hash g of
                 Some (Inr g) \<Rightarrow>
                   (let startNodes = filter (\<lambda>v. set_Len (graph_DownEdges stmt_hash g v) = 0) (graph_Vertices g) in
                    if length startNodes = 0 then Some (state, ret)
                    else case ReverseTopologicalOrder stmt_hash g of
                      Some (Inr order) \<Rightarrow> execute_moves vis stmts order (state, ret)
                    | _ \<Rightarrow> None)
               | _ \<Rightarrow> None))"

end
