(* ===== verification/Refactor_Track.thy ===== *)
theory Refactor_Track
  imports Refactor_Moves Addr_Moved State_List
begin

text \<open>
  Executing move statements loses no object: at every moment the record of old addresses is a
  bijection between the resource instances that hold objects now and those that held them before
  the first move, and each holds the same objects as then.
\<close>

section \<open>The record of old addresses\<close>

lemma OldAddr_record:
  assumes "ari_valid old" "ari_valid new" "ari_valid b"
  shows "OldAddr (recordOldAddr R old new) b = (if b = new then OldAddr R old else if b = old then old else OldAddr R b)"
  using assms
  by (auto simp: OldAddr_def recordOldAddr_def ari_uk.get_put ari_uk.get_remove Let_def split: option.splits prod.splits)

abbreviation record_moves :: "MoveResults \<Rightarrow> (AbsResourceInstance \<times> AbsResourceInstance) list \<Rightarrow> MoveResults" where
  "record_moves \<equiv> foldl (\<lambda>ret (oldInst, newInst). recordOldAddr ret oldInst newInst)"

text \<open>A set of moves made at once: from distinct addresses to distinct ones, none of them both.\<close>

definition moves_ok :: "(AbsResourceInstance \<times> AbsResourceInstance) list \<Rightarrow> bool" where
  "moves_ok L \<longleftrightarrow> distinct (map fst L) \<and> distinct (map snd L) \<and> fst ` set L \<inter> snd ` set L = {} \<and>
     list_all (\<lambda>(a, b). ari_valid a \<and> ari_valid b) L"

lemma OldAddr_moves:
  assumes "moves_ok L" "ari_valid b"
  shows "OldAddr (record_moves R L) b =
    (case map_of (map prod.swap L) b of Some a \<Rightarrow> OldAddr R a | None \<Rightarrow> if b \<in> fst ` set L then b else OldAddr R b)"
  using assms
proof (induction L arbitrary: R)
  case (Cons m L)
  obtain a c where m: "m = (a, c)" by (cases m)
  have ok: "moves_ok L" and v: "ari_valid a" "ari_valid c" and new: "a \<notin> fst ` set L" "c \<notin> snd ` set L" "a \<noteq> c" "a \<notin> snd ` set L" "c \<notin> fst ` set L"
    using Cons.prems(1) by (auto simp: moves_ok_def m)
  have "ari_valid x \<and> x \<noteq> c \<and> x \<noteq> a" if "map_of (map prod.swap L) b = Some x" for x
  proof -
    have in_L: "(x, b) \<in> set L" using map_of_SomeD[OF that] by auto
    then have "x \<in> fst ` set L" by (metis fst_conv image_eqI)
    with in_L ok new show ?thesis by (auto simp: moves_ok_def list_all_iff)
  qed
  moreover have "map_of (map prod.swap L) c = None" using new by (force simp: map_of_eq_None_iff image_iff)
  ultimately show ?case
    using Cons.IH[OF ok Cons.prems(2), of "recordOldAddr R a c"] v new Cons.prems(2)
    by (auto simp: m OldAddr_record split: option.splits)
qed simp

section \<open>The objects of a state\<close>

definition live :: "('p, 'v, 'm, 'c) State \<Rightarrow> AbsResourceInstance set" where
  "live s = {b. ari_valid b \<and> (\<exists>gen. st_obj s b gen \<noteq> None)}"

definition tracked :: "('p, 'v, 'm, 'c) State \<Rightarrow> ('p, 'v, 'm, 'c) State \<Rightarrow> MoveResults \<Rightarrow> bool" where
  "tracked s0 s R \<longleftrightarrow> st_wf s \<and> bij_betw (OldAddr R) (live s) (live s0) \<and> (\<forall>b \<in> live s. st_obj s b = st_obj s0 (OldAddr R b))"

lemma live_notin: "ari_valid b \<Longrightarrow> b \<notin> live s \<longleftrightarrow> st_obj s b = (\<lambda>_. None)"
  by (auto simp: live_def)

text \<open>Moves made at once keep the record right.\<close>

lemma tracked_moves:
  assumes tr: "tracked s0 s R" and wf: "st_wf s'" and ok: "moves_ok L"
    and moved: "\<And>a b. (a, b) \<in> set L \<Longrightarrow> st_obj s' b = st_obj s a"
    and gone: "\<And>a. a \<in> fst ` set L \<Longrightarrow> a \<notin> live s'"
    and stay: "\<And>b. ari_valid b \<Longrightarrow> b \<notin> fst ` set L \<Longrightarrow> b \<notin> snd ` set L \<Longrightarrow> st_obj s' b = st_obj s b"
    and free: "\<And>b. b \<in> snd ` set L \<Longrightarrow> b \<notin> live s"
  shows "tracked s0 s' (record_moves R L)"
proof -
  define org where "org b = (case map_of (map prod.swap L) b of Some a \<Rightarrow> a | None \<Rightarrow> b)" for b
  have d: "distinct (map fst L)" "distinct (map snd L)" and disj: "fst ` set L \<inter> snd ` set L = {}"
    and v: "(a, b) \<in> set L \<Longrightarrow> ari_valid a \<and> ari_valid b" for a b
    using ok by (auto simp: moves_ok_def list_all_iff)
  have ds: "distinct (map fst (map prod.swap L))" using d(2) by (simp add: comp_def)
  have org1: "org b = a" if "(a, b) \<in> set L" for a b
    using map_of_is_SomeI[OF ds, of b a] that by (force simp: org_def)
  have org2: "org b = b" if "b \<notin> snd ` set L" for b
  proof -
    have "map_of (map prod.swap L) b = None" using that by (force simp: map_of_eq_None_iff image_iff)
    then show ?thesis by (simp add: org_def)
  qed
  have obj: "st_obj s' b = st_obj s (org b) \<and> ari_valid (org b)" if "b \<in> live s'" for b
  proof (cases "b \<in> snd ` set L")
    case True
    then show ?thesis using moved org1 v by force
  next
    case False
    have "ari_valid b" "b \<notin> fst ` set L" using that gone[of b] by (auto simp: live_def)
    then show ?thesis using org2[OF False] stay[OF _ _ False] by simp
  qed
  have "bij_betw org (live s') (live s)"
  proof (rule bij_betwI')
    fix x y assume xy: "x \<in> live s'" "y \<in> live s'"
    show "org x = org y \<longleftrightarrow> x = y"
    proof
      assume eq: "org x = org y"
      have pre: "org b \<in> fst ` set L \<longleftrightarrow> b \<in> snd ` set L" if "b \<in> live s'" for b
        using that org1 org2 gone by (cases "b \<in> snd ` set L") (force, metis)
      show "x = y"
      proof (cases "x \<in> snd ` set L")
        case True
        then have "y \<in> snd ` set L" using eq pre[OF xy(1)] pre[OF xy(2)] by simp
        with True obtain a a' where L: "(a, x) \<in> set L" "(a', y) \<in> set L" by auto
        with eq have "a = a'" using org1 by simp
        with L map_of_is_SomeI[OF d(1), of a x] map_of_is_SomeI[OF d(1), of a y] show ?thesis by simp
      next
        case False
        with eq pre xy show ?thesis using org2 by metis
      qed
    qed simp
  next
    fix x assume x: "x \<in> live s'"
    then show "org x \<in> live s" using obj[OF x] by (simp add: live_def)
  next
    fix a assume a: "a \<in> live s"
    show "\<exists>x \<in> live s'. a = org x"
    proof (cases "a \<in> fst ` set L")
      case True
      then obtain b where b: "(a, b) \<in> set L" by force
      then have "b \<in> live s'" using a moved v by (auto simp: live_def)
      with org1[OF b] show ?thesis by auto
    next
      case False
      moreover have "a \<notin> snd ` set L" using a free[of a] by auto
      ultimately have "a \<in> live s'" "org a = a" using a stay[of a] org2[of a] by (simp_all add: live_def)
      then show ?thesis by metis
    qed
  qed
  moreover have old: "OldAddr (record_moves R L) b = OldAddr R (org b)" if "b \<in> live s'" for b
  proof -
    have "b \<notin> fst ` set L" "ari_valid b" using that gone[of b] by (auto simp: live_def)
    then show ?thesis using OldAddr_moves[OF ok, of b R] by (simp add: org_def split: option.split)
  qed
  ultimately have "bij_betw (OldAddr (record_moves R L)) (live s') (live s0)"
  proof -
    assume "bij_betw org (live s') (live s)"
    then have "bij_betw (OldAddr R \<circ> org) (live s') (live s0)"
      by (rule bij_betw_trans) (use tr in \<open>simp add: tracked_def\<close>)
    then show ?thesis by (rule bij_betw_cong[THEN iffD1, rotated]) (simp add: old)
  qed
  moreover have "st_obj s' b = st_obj s0 (OldAddr (record_moves R L) b)" if "b \<in> live s'" for b
    using obj[OF that] old[OF that] tr that by (auto simp: tracked_def live_def)
  ultimately show ?thesis using wf by (simp add: tracked_def)
qed

section \<open>What the statements must satisfy\<close>

fun mv_valid :: "AbsMoveable \<Rightarrow> bool" where
  "mv_valid (MvModuleInstance m) = mi_valid m"
| "mv_valid (MvModuleCall c) = (mi_valid (amc_Module c) \<and> valid_name (call_Name (amc_Call c)))"
| "mv_valid (MvResource r) = ar_valid r"
| "mv_valid (MvResourceInstance r) = ari_valid r"

definition stmt_ok :: "MoveStatement \<Rightarrow> bool" where
  "stmt_ok st \<longleftrightarrow> unified (mvs_From st) (mvs_To st) \<and> mv_valid (mm_relSubject (mvs_To st))"

lemma mi_valid_append [simp]: "mi_valid (a @ b) \<longleftrightarrow> mi_valid a \<and> mi_valid b"
  by (auto simp: mi_valid_def)

lemma mi_relocates_valid: "mi_relocates f t m m' \<Longrightarrow> mv_valid (mm_relSubject t) \<Longrightarrow> mi_valid m \<Longrightarrow> mi_valid m'"
  by (cases "mm_relSubject f"; cases "mm_relSubject t") (auto simp: mi_relocates_def amc_Instance_def, auto simp: mi_valid_def)

lemma ar_relocates_valid: "ar_relocates f t r r' \<Longrightarrow> mv_valid (mm_relSubject t) \<Longrightarrow> ar_valid r \<Longrightarrow> ar_valid r'"
  using mi_relocates_valid[of f t "ar_Module r" "ar_Module r'"] by (auto simp: ar_relocates_def ar_valid_def)

lemma ari_relocates_valid: "ari_relocates f t r r' \<Longrightarrow> mv_valid (mm_relSubject t) \<Longrightarrow> ari_valid r \<Longrightarrow> ari_valid r'"
  using ar_relocates_valid[of f t "ari_ContainingResource r" "ari_ContainingResource r'"]
  by (auto simp: ari_relocates_def ar_valid_def ari_valid_def ari_ContainingResource_def ri_IsPlaceholder_def)

section \<open>Each kind of move\<close>

definition store_of :: "('p, 'v, 'm, 'c) State \<Rightarrow> ('v, 'm) store" where
  "store_of s = \<lparr>so_obj = st_obj s, so_out = st_OutputValue s, so_loc = st_LocalValue s\<rparr>"

lemma stores_of: "st_wf s \<Longrightarrow> stores s (store_of s)"
  by (simp add: stores_def store_of_def)

lemma stores_st_obj: "stores s A \<Longrightarrow> ari_valid a \<Longrightarrow> st_obj s a = so_obj A a"
  by (auto simp: stores_def fun_eq_iff)

lemma tracked_instance:
  assumes tr: "tracked s0 s R" and v: "ari_valid a" "ari_valid b"
    and src: "st_ResourceInstance s a = Some i" and dst: "st_ResourceInstance s b = None"
    and m: "st_MoveAbsResourceInstance s a b = Some s'"
  shows "tracked s0 s' (recordOldAddr R a b)"
proof -
  have wf: "st_wf s" using tr by (simp add: tracked_def)
  obtain p where "s' = moved_instance s a b i p"
    using m src dst MoveAbsResourceInstance_put[OF wf v] by auto
  then have st: "stores s' (spec_step (OpMoveInstance a b) (store_of s))"
    using refine_moved_instance[OF stores_of[OF wf] v src] by simp
  have ne: "a \<noteq> b" using src dst by auto
  have obj: "st_obj s' x = (if x = b then st_obj s a else if x = a then \<lambda>_. None else st_obj s x)" if "ari_valid x" for x
    using stores_st_obj[OF st that] by (simp add: store_of_def)
  have "st_obj s b = (\<lambda>_. None)" using dst by (auto simp: st_obj_def)
  then have free: "b \<notin> live s" by (simp add: live_def)
  have "tracked s0 s' (record_moves R [(a, b)])"
  proof (rule tracked_moves[OF tr])
    show "st_wf s'" using st by (simp add: stores_def)
    show "moves_ok [(a, b)]" using ne v by (simp add: moves_ok_def)
  qed (use ne v free in \<open>auto simp: obj live_def\<close>)
  then show ?thesis by simp
qed

lemma st_ResourceInstance_resource:
  "st_ResourceInstance s x =
    (case st_Resource s (ari_ContainingResource x) of None \<Rightarrow> None | Some rs \<Rightarrow> gmap_get (rs_Instances rs) (ri_Key (ari_Resource x)))"
  by (simp add: st_ResourceInstance_def st_Resource_def ms_ResourceInstance_def rs_Instance_def ari_ContainingResource_def split: option.split)

lemma ar_Instance_parts [simp]:
  "ari_ContainingResource (ar_Instance r k) = r" "ri_Key (ari_Resource (ar_Instance r k)) = k"
  "ar_Instance r k = ar_Instance r' k' \<longleftrightarrow> r = r' \<and> k = k'"
  by (auto simp: ari_ContainingResource_def ar_Instance_def res_Instance_def)

lemma ar_Instance_collapse: "ari_ContainingResource x = r \<Longrightarrow> ar_Instance r (ri_Key (ari_Resource x)) = x"
  by (auto simp: ari_ContainingResource_def ar_Instance_def res_Instance_def)

lemma ar_Instance_valid: "ari_valid (ar_Instance r k) \<longleftrightarrow> ar_valid r \<and> \<not> IsPlaceholder k"
  by (auto simp: ari_valid_def ar_valid_def ar_Instance_def res_Instance_def ri_IsPlaceholder_def)

lemma st_Resource_insts:
  assumes "st_wf s" "ar_valid r" "st_Resource s r = Some rs"
  shows "insts_wf (rs_Instances rs)" "rs_Addr rs = r"
proof -
  have v: "mi_valid (ar_Module r)" "res_valid (ar_Resource r)" using assms(2) by (simp_all add: ar_valid_def)
  note md = st_mod_wf[OF assms(1) v(1)]
  have "rs_wf (ar_Module r) (ar_Resource r) rs"
    using ms_Resource_wf[OF conjunct1[OF md] _ v(2), of rs] md assms(3) by (simp add: st_Resource_mod)
  then show "insts_wf (rs_Instances rs)" "rs_Addr rs = r" by (simp_all add: rs_wf_def res_Absolute_def)
qed

lemma tracked_resource:
  assumes tr: "tracked s0 s R" and v: "ar_valid r" "ar_valid r'"
    and src: "st_Resource s r = Some rs" and dst: "st_Resource s r' = None"
    and m: "st_MoveAbsResource s r r' = Some s'"
  shows "tracked s0 s' (foldl (\<lambda>ret (key, _). recordOldAddr ret (ar_Instance r key) (ar_Instance r' key)) R (rs_Instances rs))"
proof -
  let ?is = "rs_Instances rs"
  let ?L = "map (\<lambda>(key, _). (ar_Instance r key, ar_Instance r' key)) ?is"
  have wf: "st_wf s" using tr by (simp add: tracked_def)
  have insts: "distinct (map fst ?is)" "\<And>k i. (k, i) \<in> set ?is \<Longrightarrow> \<not> IsPlaceholder k"
    using st_Resource_insts(1)[OF wf v(1) src] by (auto simp: insts_wf_def gmap_ok_def)
  have "s' = moved_resource s r r' rs" using m src dst MoveAbsResource_put[OF wf v] by simp
  then have st: "stores s' (spec_step (OpMoveResource r r') (store_of s))"
    using refine_moved_resource[OF stores_of[OF wf] v src] by simp
  have ne: "r \<noteq> r'" using src dst by auto
  have obj: "st_obj s' x = (if ari_ContainingResource x = r' then st_obj s (ar_Instance r (ri_Key (ari_Resource x)))
      else if ari_ContainingResource x = r then \<lambda>_. None else st_obj s x)" if "ari_valid x" for x
    using stores_st_obj[OF st that] by (simp add: store_of_def fun_eq_iff)
  have none: "st_obj s (ar_Instance r k) = (\<lambda>_. None)" if "k \<notin> fst ` set ?is" for k
    using src that by (auto simp: st_obj_def st_ResourceInstance_resource map_of_eq_None_iff[symmetric])
  have free: "st_obj s (ar_Instance r' k) = (\<lambda>_. None)" for k
    using dst by (simp add: st_obj_def st_ResourceInstance_resource fun_eq_iff)
  have L: "fst ` set ?L = ar_Instance r ` fst ` set ?is" "snd ` set ?L = ar_Instance r' ` fst ` set ?is" by force+
  have "tracked s0 s' (record_moves R ?L)"
  proof (rule tracked_moves[OF tr])
    show "st_wf s'" using st by (simp add: stores_def)
    show "moves_ok ?L"
      using insts ne v unfolding moves_ok_def L
      by (auto simp: list_all_iff ar_Instance_valid comp_def case_prod_beta distinct_map inj_on_def)
    show "st_obj s' b = st_obj s a" if "(a, b) \<in> set ?L" for a b
      using that insts(2) v obj[of b] by (auto simp: ar_Instance_valid)
    show "a \<notin> live s'" if "a \<in> fst ` set ?L" for a
      using that ne obj[of a] unfolding L live_def by auto
    show "b \<notin> live s" if "b \<in> snd ` set ?L" for b
      using that free unfolding L live_def by auto
    fix b assume b: "ari_valid b" "b \<notin> fst ` set ?L" "b \<notin> snd ` set ?L"
    show "st_obj s' b = st_obj s b"
      using b ar_Instance_collapse[of b r] ar_Instance_collapse[of b r'] obj[OF b(1)] none free[of "ri_Key (ari_Resource b)"]
      unfolding L by (metis image_eqI)
  qed
  then show ?thesis by (simp add: foldl_map case_prod_unfold)
qed

text \<open>The instances of a module, relative to it.\<close>

definition module_insts :: "('p, 'v, 'm) Module_state \<Rightarrow> ResourceInstance list" where
  "module_insts ms = concat (map (\<lambda>e. map (\<lambda>i. res_Instance (ar_Resource (rs_Addr (snd e))) (fst i)) (rs_Instances (snd e))) (ms_Resources ms))"

lemma module_moves_insts: "module_moves ms m m' = map (\<lambda>ri. (ri_Absolute ri m, ri_Absolute ri m')) (module_insts ms)"
  by (simp add: module_moves_def module_insts_def map_concat case_prod_unfold Let_def comp_def)

lemma ms_entry_wf: "ms_wf ms \<Longrightarrow> e \<in> set (ms_Resources ms) \<Longrightarrow> insts_wf (rs_Instances (snd e))"
  by (auto simp: ms_wf_def rs_wf_def)

lemma module_insts_distinct:
  assumes "ms_wf ms"
  shows "distinct (module_insts ms)"
  unfolding module_insts_def
proof (rule distinct_concat_tagged[where h = "\<lambda>e. ar_Resource (rs_Addr (snd e))" and g = ri_Resource])
  have "map fst (ms_Resources ms) = map res_String (map (\<lambda>e. ar_Resource (rs_Addr (snd e))) (ms_Resources ms))"
    using assms by (auto simp: ms_wf_def)
  moreover have "distinct (map fst (ms_Resources ms))" using assms by (simp add: ms_wf_def gmap_ok_def)
  ultimately show "distinct (map (\<lambda>e. ar_Resource (rs_Addr (snd e))) (ms_Resources ms))"
    using distinct_map[of res_String] by metis
next
  fix e assume "e \<in> set (ms_Resources ms)"
  then have "distinct (map fst (rs_Instances (snd e)))" using ms_entry_wf[OF assms] by (simp add: insts_wf_def gmap_ok_def)
  then show "distinct (map (\<lambda>i. res_Instance (ar_Resource (rs_Addr (snd e))) (fst i)) (rs_Instances (snd e)))"
    by (auto simp: distinct_map inj_on_def res_Instance_def)
qed (auto simp: res_Instance_def)

lemma module_insts_iff:
  assumes "ms_wf ms"
  shows "ri \<in> set (module_insts ms) \<longleftrightarrow> res_valid (ri_Resource ri) \<and> ms_ResourceInstance ms ri \<noteq> None"
proof -
  have "ri \<in> set (module_insts ms) \<longleftrightarrow>
      (\<exists>e \<in> set (ms_Resources ms). ar_Resource (rs_Addr (snd e)) = ri_Resource ri \<and> ri_Key ri \<in> fst ` set (rs_Instances (snd e)))"
    by (cases ri) (force simp: module_insts_def res_Instance_def)
  also have "\<dots> \<longleftrightarrow> res_valid (ri_Resource ri) \<and> ms_ResourceInstance ms ri \<noteq> None"
  proof
    assume "\<exists>e \<in> set (ms_Resources ms). ar_Resource (rs_Addr (snd e)) = ri_Resource ri \<and> ri_Key ri \<in> fst ` set (rs_Instances (snd e))"
    then show "res_valid (ri_Resource ri) \<and> ms_ResourceInstance ms ri \<noteq> None"
      using ms_Resources_iff[OF assms] by (auto simp: ms_ResourceInstance_def rs_Instance_def dest: weak_map_of_SomeI)
  next
    assume a: "res_valid (ri_Resource ri) \<and> ms_ResourceInstance ms ri \<noteq> None"
    then obtain rs where rs: "ms_Resource ms (ri_Resource ri) = Some rs" "ri_Key ri \<in> fst ` set (rs_Instances rs)"
      by (force simp: ms_ResourceInstance_def rs_Instance_def dest: map_of_SomeD split: option.splits)
    have "rs_wf (ms_Addr ms) (ri_Resource ri) rs" using ms_Resource_wf[OF assms rs(1)] a by simp
    moreover have "(res_String (ri_Resource ri), rs) \<in> set (ms_Resources ms)"
      using rs(1) by (auto simp: ms_Resource_def dest: map_of_SomeD)
    ultimately show "\<exists>e \<in> set (ms_Resources ms). ar_Resource (rs_Addr (snd e)) = ri_Resource ri \<and> ri_Key ri \<in> fst ` set (rs_Instances (snd e))"
      using rs(2) by (intro bexI[of _ "(res_String (ri_Resource ri), rs)"]) (simp_all add: rs_wf_def res_Absolute_def)
  qed
  finally show ?thesis .
qed

lemma module_insts_real: "ms_wf ms \<Longrightarrow> ri \<in> set (module_insts ms) \<Longrightarrow> \<not> ri_IsPlaceholder ri"
  using ms_entry_wf by (fastforce simp: module_insts_def res_Instance_def ri_IsPlaceholder_def insts_wf_def)

lemma ri_Absolute_parts [simp]:
  "ari_Module (ri_Absolute ri m) = m" "ari_Resource (ri_Absolute ri m) = ri"
  "ri_Absolute ri m = ri_Absolute ri' m' \<longleftrightarrow> ri = ri' \<and> m = m'"
  by (auto simp: ri_Absolute_def)

lemma ri_Absolute_collapse: "ari_Module x = m \<Longrightarrow> ri_Absolute (ari_Resource x) m = x"
  by (auto simp: ri_Absolute_def)

lemma tracked_module:
  assumes tr: "tracked s0 s R" and v: "mi_valid m" "mi_valid m'"
    and src: "st_Module s m = Some ms" and dst: "st_Module s m' = None" and root: "m \<noteq> []"
    and mv: "st_MoveModuleInstance s m m' = Some s'"
  shows "tracked s0 s' (record_moves R (module_moves ms m m'))"
proof -
  have wf: "st_wf s" using tr by (simp add: tracked_def)
  have ms: "ms_wf ms" "ms_Addr ms = m" using st_Module_wf[OF wf v(1) src] by auto
  have ne: "m \<noteq> m'" using src dst by auto
  have "s' = moved_module s m m'" using mv MoveModuleInstance_put[OF wf v] by (simp split: if_splits)
  then have st: "stores s' (spec_step (OpMoveModule m m') (store_of s))"
    using refine_moved_module[OF stores_of[OF wf] v root ne] by simp
  let ?K = "module_insts ms"
  let ?L = "map (\<lambda>ri. (ri_Absolute ri m, ri_Absolute ri m')) ?K"
  have obj: "st_obj s' x = (if ari_Module x = m' then st_obj s (ri_Absolute (ari_Resource x) m)
      else if ari_Module x = m then \<lambda>_. None else st_obj s x)" if "ari_valid x" for x
    using stores_st_obj[OF st that] by (cases x) (simp add: store_of_def fun_eq_iff move_key_def ri_Absolute_def)
  have none: "st_obj s (ri_Absolute ri m) = (\<lambda>_. None)" if "ri \<notin> set ?K" "res_valid (ri_Resource ri)" for ri
    using that src module_insts_iff[OF ms(1)] by (simp add: st_obj_def st_ResourceInstance_def fun_eq_iff)
  have free: "st_obj s (ri_Absolute ri m') = (\<lambda>_. None)" for ri
    using dst by (simp add: st_obj_def st_ResourceInstance_def fun_eq_iff)
  have valid: "ari_valid (ri_Absolute ri m)" "ari_valid (ri_Absolute ri m')" if "ri \<in> set ?K" for ri
    using that v module_insts_iff[OF ms(1)] module_insts_real[OF ms(1)] by (simp_all add: ari_valid_def)
  have L: "fst ` set ?L = (\<lambda>ri. ri_Absolute ri m) ` set ?K" "snd ` set ?L = (\<lambda>ri. ri_Absolute ri m') ` set ?K" by force+
  have "tracked s0 s' (record_moves R ?L)"
  proof (rule tracked_moves[OF tr])
    show "st_wf s'" using st by (simp add: stores_def)
    show "moves_ok ?L"
      using module_insts_distinct[OF ms(1)] ne valid unfolding moves_ok_def L
      by (auto simp: list_all_iff comp_def distinct_map inj_on_def)
    show "st_obj s' b = st_obj s a" if "(a, b) \<in> set ?L" for a b
      using that valid(2) obj[of b] by auto
    show "a \<notin> live s'" if "a \<in> fst ` set ?L" for a
      using that ne obj[of a] unfolding L live_def by auto
    show "b \<notin> live s" if "b \<in> snd ` set ?L" for b
      using that free unfolding L live_def by auto
    fix b assume b: "ari_valid b" "b \<notin> fst ` set ?L" "b \<notin> snd ` set ?L"
    have "res_valid (ri_Resource (ari_Resource b))" using b(1) by (simp add: ari_valid_def)
    then show "st_obj s' b = st_obj s b"
      using b(2,3) ri_Absolute_collapse[of b m] ri_Absolute_collapse[of b m'] obj[OF b(1)] none[of "ari_Resource b"] free[of "ari_Resource b"]
      unfolding L by (metis image_eqI)
  qed
  then show ?thesis by (simp only: module_moves_insts)
qed

section \<open>The loops\<close>

text \<open>A fallible loop whose steps succeed and keep an invariant succeeds and keeps it.\<close>

lemma fold_opt_invariant:
  assumes "P s" "\<And>x s. x \<in> set xs \<Longrightarrow> P s \<Longrightarrow> \<exists>s'. f x s = Some s' \<and> P s'"
  shows "\<exists>s'. fold_opt f xs s = Some s' \<and> P s'"
  using assms
proof (induction xs arbitrary: s)
  case (Cons x xs)
  from Cons.prems(2)[of x s] Cons.prems(1) obtain s' where s': "f x s = Some s'" "P s'" by auto
  from Cons.IH[OF s'(2)] Cons.prems(2) show ?case by (simp add: s'(1))
qed simp

abbreviation keeps_track :: "('p, 'v, 'm, 'c) State \<Rightarrow> (('p, 'v, 'm, 'c) moving \<Rightarrow> ('p, 'v, 'm, 'c) moving option) \<Rightarrow> bool" where
  "keeps_track s0 f \<equiv> (\<forall>s R. tracked s0 s R \<longrightarrow> (\<exists>s' R'. f (s, R) = Some (s', R') \<and> tracked s0 s' R'))"

lemma fold_keeps:
  assumes "tracked s0 s R" "\<And>x s R. tracked s0 s R \<Longrightarrow> \<exists>s' R'. f x (s, R) = Some (s', R') \<and> tracked s0 s' R'"
  shows "\<exists>s' R'. fold_opt f xs (s, R) = Some (s', R') \<and> tracked s0 s' R'"
proof -
  have "\<exists>sR. fold_opt f xs (s, R) = Some sR \<and> tracked s0 (fst sR) (snd sR)"
  proof (rule fold_opt_invariant)
    fix x and sR assume "tracked s0 (fst sR) (snd sR)"
    from assms(2)[OF this, of x] show "\<exists>sR'. f x sR = Some sR' \<and> tracked s0 (fst sR') (snd sR')" by auto
  qed (use assms(1) in simp)
  then show ?thesis by auto
qed

lemma OldAddr_blockage [simp]: "OldAddr (recordBlockage R x y) = OldAddr R"
  by (simp add: fun_eq_iff OldAddr_def recordBlockage_def)

lemma tracked_blockage [simp]: "tracked s0 s (recordBlockage R x y) \<longleftrightarrow> tracked s0 s R"
  by (simp add: tracked_def)

text \<open>The outcomes of a method that looks for a destination.\<close>

lemma destination_cases:
  obtains (panic) "d = None" | (no) "d = Some None" | (yes) x where "d = Some (Some x)"
  by (metis not_None_eq)

lemma tracked_visit_module:
  assumes "tracked s0 s R" "visit_module mk s = Some ms"
  shows "mi_valid (ms_Addr ms)" "st_Module s (ms_Addr ms) = Some ms" "ms_wf ms"
proof -
  have wf: "st_wf s" using assms(1) by (simp add: tracked_def)
  have "(mk, ms) \<in> set (st_Modules s)" using assms(2) by (auto simp: visit_module_def dest: map_of_SomeD)
  with st_Modules_iff[OF wf, of "(mk, ms)"] show v: "mi_valid (ms_Addr ms)" "st_Module s (ms_Addr ms) = Some ms" by auto
  show "ms_wf ms" by (rule st_Module_wf(1)[OF wf v])
qed

lemma tracked_visit_resource:
  assumes "tracked s0 s R" "visit_resource mk rk s = Some rs"
  shows "ar_valid (rs_Addr rs)" "st_Resource s (rs_Addr rs) = Some rs"
proof -
  obtain ms where ms: "visit_module mk s = Some ms" "(rk, rs) \<in> set (ms_Resources ms)"
    using assms(2) by (auto simp: visit_resource_def dest: map_of_SomeD split: option.splits)
  note v = tracked_visit_module[OF assms(1) ms(1)]
  have "rs_wf (ms_Addr ms) (ar_Resource (rs_Addr rs)) rs" using v(3) ms(2) by (auto simp: ms_wf_def)
  then have "ar_Module (rs_Addr rs) = ms_Addr ms" by (simp add: rs_wf_def res_Absolute_def) (metis AbsResource.select_convs(1))
  with v ms_Resources_iff[OF v(3), of "(rk, rs)"] ms(2)
  show "ar_valid (rs_Addr rs)" "st_Resource s (rs_Addr rs) = Some rs" by (auto simp: ar_valid_def st_Resource_def)
qed

text \<open>The keys of a visit determine the address of what is found there.\<close>

lemma visit_resource_key:
  assumes "tracked s0 s R" "visit_resource mk rk s = Some rs"
  shows "mk = mi_String (ar_Module (rs_Addr rs)) \<and> rk = res_String (ar_Resource (rs_Addr rs))"
proof -
  obtain ms where ms: "visit_module mk s = Some ms" "(rk, rs) \<in> set (ms_Resources ms)"
    using assms(2) by (auto simp: visit_resource_def dest: map_of_SomeD split: option.splits)
  note v = tracked_visit_module[OF assms(1) ms(1)]
  have wf: "st_wf s" using assms(1) by (simp add: tracked_def)
  have "(mk, ms) \<in> set (st_Modules s)" using ms(1) by (auto simp: visit_module_def dest: map_of_SomeD)
  then have "mk = mi_String (ms_Addr ms)" using st_Modules_iff[OF wf, of "(mk, ms)"] by simp
  moreover have w: "rs_wf (ms_Addr ms) (ar_Resource (rs_Addr rs)) rs" "rk = res_String (ar_Resource (rs_Addr rs))"
    using v(3) ms(2) by (auto simp: ms_wf_def)
  moreover have "ar_Module (rs_Addr rs) = ms_Addr ms"
    using w(1) by (simp add: rs_wf_def res_Absolute_def) (metis AbsResource.select_convs(1))
  ultimately show ?thesis by simp
qed

lemma visit_resource_unique:
  assumes "tracked s0 s R" "visit_resource mk rk s = Some rs" "tracked s0 s' R'" "visit_resource mk rk s' = Some rs'"
  shows "rs_Addr rs' = rs_Addr rs"
proof -
  have v: "ar_valid (rs_Addr rs)" "ar_valid (rs_Addr rs')"
    using tracked_visit_resource(1)[OF assms(1,2)] tracked_visit_resource(1)[OF assms(3,4)] by auto
  show ?thesis
    using visit_resource_key[OF assms(1,2)] visit_resource_key[OF assms(3,4)] v
    by (auto simp: ar_valid_def mi_String_inj res_String_inj intro!: AbsResource.equality)
qed

lemma move_module_keeps:
  assumes "stmt_ok stmt" "tracked s0 s R" "visit_module mk s = Some ms"
  shows "\<exists>s' R'. move_module stmt ms (s, R) = Some (s', R') \<and> tracked s0 s' R'"
proof -
  have u: "unified (mvs_From stmt) (mvs_To stmt)" using assms(1) by (simp add: stmt_ok_def)
  have wf: "st_wf s" using assms(2) by (simp add: tracked_def)
  note v = tracked_visit_module[OF assms(2,3)]
  show ?thesis
  proof (cases rule: destination_cases[of "mi_MoveDestination (ms_Addr ms) (mvs_From stmt) (mvs_To stmt)"])
    case panic
    then show ?thesis using mi_MoveDestination_iff(1)[OF u] by blast
  next
    case no
    then show ?thesis using assms(2) by (simp add: move_module_def)
  next
    case (yes m')
    then have r: "ms_Addr ms \<noteq> []" "mi_relocates (mvs_From stmt) (mvs_To stmt) (ms_Addr ms) m'"
      using mi_MoveDestination_iff(2)[OF u] by auto
    have v': "mi_valid m'" using mi_relocates_valid[OF r(2) _ v(1)] assms(1) by (simp add: stmt_ok_def)
    show ?thesis
    proof (cases "st_Module s m'")
      case None
      then have "m' \<noteq> []" using wf by (auto simp: st_wf_def)
      then obtain s' where "st_MoveModuleInstance s (ms_Addr ms) m' = Some s'"
        using MoveModuleInstance_put[OF wf v(1) v'] None v(2) r(1) by simp
      with tracked_module[OF assms(2) v(1) v' v(2) None r(1)] yes None show ?thesis by (simp add: move_module_def)
    next
      case (Some x)
      then show ?thesis using yes assms(2) by (simp add: move_module_def)
    qed
  qed
qed

lemma move_instance_keeps:
  assumes "stmt_ok stmt" "tracked s0 s R" "\<And>rs. visit_resource mk rk s = Some rs \<Longrightarrow> rs_Addr rs = rAddr"
  shows "\<exists>s' R'. move_instance stmt mk rk rAddr key (s, R) = Some (s', R') \<and> tracked s0 s' R'"
proof (cases "visit_resource mk rk s")
  case None
  then show ?thesis using assms(2) by (simp add: move_instance_def)
next
  case (Some rs)
  have u: "unified (mvs_From stmt) (mvs_To stmt)" using assms(1) by (simp add: stmt_ok_def)
  have wf: "st_wf s" using assms(2) by (simp add: tracked_def)
  have v: "ar_valid rAddr" "st_Resource s rAddr = Some rs"
    using tracked_visit_resource[OF assms(2) Some] assms(3)[OF Some] by simp_all
  let ?i = "ar_Instance rAddr key"
  show ?thesis
  proof (cases "gmap_get (rs_Instances rs) key")
    case None
    then show ?thesis using Some assms(2) by (simp add: move_instance_def)
  next
    case inst: (Some i)
    have i: "st_ResourceInstance s ?i = Some i" using v(2) inst by (simp add: st_ResourceInstance_resource)
    have "\<not> IsPlaceholder key"
      using st_Resource_insts(1)[OF wf v] map_of_SomeD[OF inst] by (auto simp: insts_wf_def)
    with v(1) have vi: "ari_valid ?i" by (simp add: ar_Instance_valid)
    show ?thesis
    proof (cases rule: destination_cases[of "ari_MoveDestination ?i (mvs_From stmt) (mvs_To stmt)"])
      case panic
      then show ?thesis using ari_MoveDestination_iff(1)[OF u] by blast
    next
      case no
      then show ?thesis using Some inst assms(2) by (simp add: move_instance_def)
    next
      case (yes b)
      then have "ari_relocates (mvs_From stmt) (mvs_To stmt) ?i b" using ari_MoveDestination_iff(2)[OF u] by simp
      then have vb: "ari_valid b" using ari_relocates_valid[OF _ _ vi] assms(1) by (simp add: stmt_ok_def)
      show ?thesis
      proof (cases "st_ResourceInstance s b")
        case None
        have "st_ResourceProvider s (ari_ContainingResource ?i) \<noteq> None"
          using v(2) by (auto simp: st_ResourceProvider_def st_Resource_def split: option.splits)
        then obtain s' where "st_MoveAbsResourceInstance s ?i b = Some s'"
          using MoveAbsResourceInstance_put[OF wf vi vb] None i by auto
        with tracked_instance[OF assms(2) vi vb i None] Some inst yes None show ?thesis by (simp add: move_instance_def)
      next
        case blocked: (Some x)
        then show ?thesis using yes Some inst assms(2) by (simp add: move_instance_def)
      qed
    qed
  qed
qed

lemma move_resource_keeps:
  assumes "stmt_ok stmt" "tracked s0 s R"
  shows "\<exists>s' R'. move_resource stmt mk x (s, R) = Some (s', R') \<and> tracked s0 s' R'"
proof -
  obtain rk ks where x: "x = (rk, ks)" by (cases x)
  show ?thesis
  proof (cases "visit_resource mk rk s")
    case None
    then show ?thesis using assms(2) by (simp add: move_resource_def x)
  next
    case (Some rs)
    let ?r = "rs_Addr rs"
    have u: "unified (mvs_From stmt) (mvs_To stmt)" using assms(1) by (simp add: stmt_ok_def)
    have wf: "st_wf s" using assms(2) by (simp add: tracked_def)
    note v = tracked_visit_resource[OF assms(2) Some]
    show ?thesis
    proof (cases rule: destination_cases[of "ar_MoveDestination ?r (mvs_From stmt) (mvs_To stmt)"])
      case panic
      then show ?thesis using ar_MoveDestination_iff(1)[OF u] by blast
    next
      case no
      have "\<exists>s' R'. fold_opt (move_instance stmt mk rk ?r) ks (s, R) = Some (s', R') \<and> tracked s0 s' R'"
      proof (rule fold_keeps[OF assms(2)])
        fix k s1 R1 assume t: "tracked s0 s1 R1"
        show "\<exists>s' R'. move_instance stmt mk rk ?r k (s1, R1) = Some (s', R') \<and> tracked s0 s' R'"
          by (rule move_instance_keeps[OF assms(1) t]) (rule visit_resource_unique[OF assms(2) Some t])
      qed
      then show ?thesis using Some no by (auto simp: move_resource_def x)
    next
      case (yes r')
      then have "ar_relocates (mvs_From stmt) (mvs_To stmt) ?r r'" using ar_MoveDestination_iff(2)[OF u] by simp
      then have v': "ar_valid r'" using ar_relocates_valid[OF _ _ v(1)] assms(1) by (simp add: stmt_ok_def)
      show ?thesis
      proof (cases "st_Resource s r'")
        case None
        then obtain s' where "st_MoveAbsResource s ?r r' = Some s'" using MoveAbsResource_put[OF wf v(1) v'] v(2) by auto
        with tracked_resource[OF assms(2) v(1) v' v(2) None] Some yes None show ?thesis by (simp add: move_resource_def x)
      next
        case blocked: (Some y)
        then show ?thesis using yes Some assms(2) by (simp add: move_resource_def x)
      qed
    qed
  qed
qed

lemma move_in_module_keeps:
  assumes "stmt_ok stmt" "tracked s0 s R"
  shows "\<exists>s' R'. move_in_module stmt x (s, R) = Some (s', R') \<and> tracked s0 s' R'"
proof -
  obtain mk rs where x: "x = (mk, rs)" by (cases x)
  show ?thesis
  proof (cases "visit_module mk s")
    case (Some ms)
    show ?thesis
    proof (cases "mvs_ObjectKind stmt")
      case MoveEndpointModule
      then show ?thesis using move_module_keeps[OF assms Some] Some by (simp add: move_in_module_def x)
    next
      case MoveEndpointResource
      have "\<exists>s' R'. fold_opt (move_resource stmt mk) rs (s, R) = Some (s', R') \<and> tracked s0 s' R'"
        by (rule fold_keeps[OF assms(2)]) (rule move_resource_keeps[OF assms(1)])
      with MoveEndpointResource show ?thesis using Some assms(2) by (simp add: move_in_module_def x)
    qed
  qed (use assms(2) in \<open>simp add: move_in_module_def x\<close>)
qed

lemma execute_moves_keeps:
  assumes "list_all stmt_ok stmts" "set order \<subseteq> {..<length stmts}" "tracked s0 s R"
  shows "\<exists>s' R'. execute_moves vis stmts order (s, R) = Some (s', R') \<and> tracked s0 s' R'"
proof -
  let ?f = "\<lambda>v. fold_opt (move_in_module (stmts ! v)) (vis v)"
  have "\<exists>sR. fold_opt ?f order (s, R) = Some sR \<and> tracked s0 (fst sR) (snd sR)"
  proof (rule fold_opt_invariant)
    fix v and sR :: "('a, 'b, 'c, 'd) moving" assume v: "v \<in> set order" and t: "tracked s0 (fst sR) (snd sR)"
    have "stmt_ok (stmts ! v)" using v assms(1,2) by (auto simp: list_all_length)
    then have "\<exists>s' R'. ?f v (fst sR, snd sR) = Some (s', R') \<and> tracked s0 s' R'"
      using move_in_module_keeps by (intro fold_keeps[OF t]) blast
    then show "\<exists>sR'. ?f v sR = Some sR' \<and> tracked s0 (fst sR') (snd sR')" by auto
  qed (use assms(3) in simp)
  then show ?thesis by (auto simp: execute_moves_def)
qed

end
