(* ===== verification/Refactor_Order.thy ===== *)
theory Refactor_Order
  imports Refactor_Moves Addr_Moved Dag_Props
begin

text \<open>
  The order in which move statements are executed: the graph of the statements is the relation of
  dependence between them, it is rejected exactly when that relation has a cycle, and otherwise
  every statement is executed once and after all those it depends on.
\<close>

section \<open>Dependence\<close>

lemma CanMatch_total: "length modA \<le> length modB \<Longrightarrow> moduleInstanceCanMatch modA modB \<noteq> None"
  by (induction modA modB rule: moduleInstanceCanMatch.induct) auto

lemma CanChainFrom_total: "CanChainFrom e ot \<noteq> None"
  using CanMatch_total[of "synthModuleInstance ot" "synthModuleInstance e"]
  by (auto simp: CanChainFrom_def Let_def split: option.split bool.split)

lemma NestedWithin_total: "NestedWithin e ot \<noteq> None"
  using CanMatch_total[of "synthModuleInstance ot" "synthModuleInstance e"]
  by (cases "length (synthModuleInstance e) < length (synthModuleInstance ot)")
    (auto simp: NestedWithin_def Let_def split: option.split bool.split)

lemma IsModuleReIndex_total: "unified f t \<Longrightarrow> IsModuleReIndex f t \<noteq> None"
  by (simp add: IsModuleReIndex_def unified_def mod_Equal_iff)

lemma first_true_total: "None \<notin> set xs \<Longrightarrow> first_true xs \<noteq> None"
proof (induction xs)
  case (Cons x xs)
  then show ?case by (cases x) (auto split: bool.split)
qed simp

lemma statementDependsOn_total:
  assumes "unified (mvs_From a) (mvs_To a)"
  shows "statementDependsOn a b \<noteq> None"
proof -
  let ?n = "first_true [NestedWithin (mvs_From a) (mvs_To b), NestedWithin (mvs_To a) (mvs_To b),
      NestedWithin (mvs_From b) (mvs_From a), NestedWithin (mvs_To b) (mvs_From a)]"
  obtain c where c: "CanChainFrom (mvs_From a) (mvs_To b) = Some c" using CanChainFrom_total by blast
  have "?n \<noteq> None" using NestedWithin_total by (intro first_true_total) (auto simp: eq_commute[of None])
  then obtain n where n: "?n = Some n" by blast
  obtain r where r: "IsModuleReIndex (mvs_From a) (mvs_To a) = Some r" using IsModuleReIndex_total[OF assms] by blast
  show ?thesis unfolding statementDependsOn_def c n r by (cases c; cases n; cases r) auto
qed

definition depends :: "MoveStatement list \<Rightarrow> (nat \<times> nat) set" where
  "depends stmts = {(i, j). i < length stmts \<and> j < length stmts \<and> i \<noteq> j \<and> statementDependsOn (stmts ! i) (stmts ! j) = Some True}"

definition stmts_unified :: "MoveStatement list \<Rightarrow> bool" where
  "stmts_unified stmts \<longleftrightarrow> list_all (\<lambda>st. unified (mvs_From st) (mvs_To st)) stmts"

section \<open>The graph\<close>

lemma stmt_hash_inj: "inj stmt_hash"
  by (simp add: inj_def stmt_hash_def)

lemma connect_dependees_spec:
  assumes u: "stmts_unified stmts" "i < length stmts"
  shows "graph_wf stmt_hash g \<Longrightarrow> \<exists>g'. connect_dependees stmts i js g = Some g' \<and> graph_wf stmt_hash g' \<and> vertex_set g' = vertex_set g \<and>
    edge_rel g' = edge_rel g \<union> {(i, j) | j. j \<in> set js \<and> j \<noteq> i \<and> statementDependsOn (stmts ! i) (stmts ! j) = Some True}"
proof (induction js arbitrary: g)
  case (Cons j js)
  show ?case
  proof (cases "j \<noteq> i \<and> statementDependsOn (stmts ! i) (stmts ! j) = Some True")
    case True
    note c = graph_Connect_spec[OF stmt_hash_inj Cons.prems, of "BasicEdge i j"]
    obtain g' where g': "connect_dependees stmts i js (graph_Connect stmt_hash g (BasicEdge i j)) = Some g'" "graph_wf stmt_hash g'"
      "vertex_set g' = vertex_set g" "edge_rel g' = insert (i, j) (edge_rel g) \<union>
        {(i, j) | j. j \<in> set js \<and> j \<noteq> i \<and> statementDependsOn (stmts ! i) (stmts ! j) = Some True}"
      using Cons.IH[OF c(1)] unfolding c(2,3) by (auto simp: BasicEdge_def edge_Hashcode_def)
    from True g' show ?thesis by (intro exI[of _ g']) auto
  next
    case False
    have "statementDependsOn (stmts ! i) (stmts ! j) \<noteq> None"
      using u by (intro statementDependsOn_total) (simp add: stmts_unified_def list_all_length)
    with False have "connect_dependees stmts i (j # js) g = connect_dependees stmts i js g"
      by (auto split: option.split bool.split)
    with Cons.IH[OF Cons.prems] False show ?thesis by auto
  qed
qed auto

lemma connect_dependers_spec:
  assumes u: "stmts_unified stmts"
  shows "graph_wf stmt_hash g \<Longrightarrow> set is \<subseteq> {..<length stmts} \<Longrightarrow>
    \<exists>g'. connect_dependers stmts is g = Some g' \<and> graph_wf stmt_hash g' \<and> vertex_set g' = vertex_set g \<and>
      edge_rel g' = edge_rel g \<union> (depends stmts \<inter> set is \<times> UNIV)"
proof (induction "is" arbitrary: g)
  case (Cons i "is")
  from connect_dependees_spec[OF u _ Cons.prems(1), of i "[0..<length stmts]"] Cons.prems(2) obtain g' where
    g': "connect_dependees stmts i [0..<length stmts] g = Some g'" "graph_wf stmt_hash g'" "vertex_set g' = vertex_set g"
      "edge_rel g' = edge_rel g \<union> {(i, j) | j. j \<in> set [0..<length stmts] \<and> j \<noteq> i \<and> statementDependsOn (stmts ! i) (stmts ! j) = Some True}"
    by auto
  then have "edge_rel g' = edge_rel g \<union> (depends stmts \<inter> {i} \<times> UNIV)" using Cons.prems(2) by (auto simp: depends_def)
  moreover have "set is \<subseteq> {..<length stmts}" using Cons.prems(2) by simp
  from Cons.IH[OF g'(2) this] obtain g'' where
    g'': "connect_dependers stmts is g' = Some g''" "graph_wf stmt_hash g''" "vertex_set g'' = vertex_set g'"
      "edge_rel g'' = edge_rel g' \<union> (depends stmts \<inter> set is \<times> UNIV)" by blast
  ultimately show ?case using g'(1,3) by (intro exI[of _ g'']) auto
qed simp

lemma buildMoveStatementGraph_spec:
  assumes "stmts_unified stmts"
  shows "\<exists>g. buildMoveStatementGraph stmts = Some g \<and> graph_wf stmt_hash g \<and> vertex_set g = {..<length stmts} \<and> edge_rel g = depends stmts"
proof -
  note a = foldl_Add_spec[OF stmt_hash_inj emptyGraph_wf(1), of "[0..<length stmts]"]
  have "set [0..<length stmts] \<subseteq> {..<length stmts}" by auto
  from connect_dependers_spec[OF assms conjunct1[OF a] this] a obtain g where
    g: "buildMoveStatementGraph stmts = Some g" "graph_wf stmt_hash g" "vertex_set g = set [0..<length stmts]"
      "edge_rel g = depends stmts \<inter> set [0..<length stmts] \<times> UNIV"
    by (auto simp: buildMoveStatementGraph_def emptyGraph_wf)
  moreover have "depends stmts \<inter> set [0..<length stmts] \<times> UNIV = depends stmts" by (auto simp: depends_def)
  ultimately show ?thesis by (auto simp: lessThan_atLeast0)
qed

lemma validateMoveStatementGraph_spec:
  assumes wf: "graph_wf stmt_hash g" and closed: "graph_closed g"
  shows "\<exists>errs. validateMoveStatementGraph g = Some errs \<and> (errs = [] \<longleftrightarrow> acyclic (edge_rel g))"
proof -
  from StronglyConnected_partition[OF wf closed] obtain sccs where
    s: "StronglyConnected stmt_hash g = Some sccs" "distinct (concat sccs)" "set (concat sccs) = vertex_set g"
      "\<forall>c \<in> set sccs. scc_class (edge_rel g) (set c)" by blast
  have "acyclic (edge_rel g) \<longleftrightarrow> filter (\<lambda>c. length c > 1) sccs = [] \<and> (\<forall>v. (v, v) \<notin> edge_rel g)"
    using acyclic_components[OF s(3,2,4)] closed by (auto simp: graph_closed_def filter_empty_conv)
  then show ?thesis by (auto simp: validateMoveStatementGraph_def Cycles_def s(1) self_edges)
qed

section \<open>The order\<close>

lemma succs_first_trancl:
  assumes "succs_first (\<lambda>v. E `` {v}) xs"
  shows "succs_first (\<lambda>v. E\<^sup>+ `` {v}) xs"
  unfolding succs_first_def
proof (intro allI impI subsetI)
  fix ys v zs w assume "xs = ys @ v # zs" "w \<in> E\<^sup>+ `` {v}"
  then have "(v, w) \<in> E\<^sup>+" "xs = ys @ v # zs" by auto
  then show "w \<in> set ys"
  proof (induction arbitrary: ys zs rule: converse_trancl_induct)
    case (base v)
    then show ?case using assms by (auto simp: succs_first_def)
  next
    case (step v u)
    have "E `` {v} \<subseteq> set ys" using assms step.prems by (simp add: succs_first_def)
    with step.hyps(1) have "u \<in> set ys" by auto
    then obtain ys1 ys2 where "ys = ys1 @ u # ys2" by (auto dest: split_list)
    with step.IH[of ys1 "ys2 @ v # zs"] step.prems show ?case by simp
  qed
qed

lemma ApplyMoves_order_cases:
  assumes u: "stmts_unified stmts" and ne: "stmts \<noteq> []"
  shows "if acyclic (depends stmts)
    then \<exists>order. ApplyMoves vis stmts s = execute_moves vis stmts order (s, makeMoveResults) \<and> distinct order \<and>
      set order = {..<length stmts} \<and> succs_first (\<lambda>v. depends stmts `` {v}) order
    else ApplyMoves vis stmts s = Some (s, makeMoveResults)"
proof -
  from buildMoveStatementGraph_spec[OF u] obtain g where
    g: "buildMoveStatementGraph stmts = Some g" "graph_wf stmt_hash g" "vertex_set g = {..<length stmts}" "edge_rel g = depends stmts" by blast
  have closed: "graph_closed g" by (auto simp: graph_closed_def g depends_def)
  from validateMoveStatementGraph_spec[OF g(2) closed] g(4) obtain errs where
    e: "validateMoveStatementGraph g = Some errs" "errs = [] \<longleftrightarrow> acyclic (depends stmts)" by auto
  show ?thesis
  proof (cases "acyclic (depends stmts)")
    case False
    then show ?thesis using ne g(1) e by (simp add: ApplyMoves_def Let_def)
  next
    case True
    from reduce_all_spec[OF stmt_hash_inj g(2), of "graph_Vertices g"] True g(3,4) obtain g' where
      g': "TransitiveReduction stmt_hash g = Some (Inr g')" "graph_wf stmt_hash g'" "vertex_set g' = {..<length stmts}"
        "edge_rel g' \<subseteq> depends stmts" "(edge_rel g')\<^sup>+ = (depends stmts)\<^sup>+"
      by (auto simp: TransitiveReduction_def)
    have acyc: "acyclic (edge_rel g')" using True g'(4) by (rule acyclic_subset)
    have closed': "graph_closed g'" using g'(3,4) by (auto simp: graph_closed_def depends_def)
    from ReverseTopologicalOrder_cases[OF g'(2) closed'] acyc obtain xs where
      xs: "ReverseTopologicalOrder stmt_hash g' = Some (Inr xs)" "distinct xs" "set xs = {..<length stmts}"
        "succs_first (\<lambda>v. edge_rel g' `` {v}) xs" using g'(3) by auto
    from succs_first_trancl[OF xs(4)] have ord: "succs_first (\<lambda>v. depends stmts `` {v}) xs"
      unfolding g'(5) by (auto simp: succs_first_def)
    obtain v zs where v: "xs = v # zs" using ne xs(3) by (cases xs) auto
    have "edge_rel g' `` {v} \<subseteq> set []" using xs(4)[unfolded succs_first_def, rule_format, of "[]" v zs] v by simp
    then have "set_Len (graph_DownEdges stmt_hash g' v) = 0"
      using graph_wf_adj(1)[OF g'(2), of v] by (simp add: graph_DownEdges_def set_Len_0 set_Copy_def dset_elems_def gmap_vals_def)
    moreover have "v \<in> set (graph_Vertices g')"
      using g'(3) xs(3) v by (auto simp: vertex_set_def graph_Vertices_def set_List_def dset_elems_def)
    ultimately have "filter (\<lambda>v. set_Len (graph_DownEdges stmt_hash g' v) = 0) (graph_Vertices g') \<noteq> []"
      by (auto simp: filter_empty_conv)
    then have "ApplyMoves vis stmts s = execute_moves vis stmts xs (s, makeMoveResults)"
      using ne g(1) e True g'(1) xs(1) by (simp add: ApplyMoves_def Let_def)
    with True xs(2,3) ord show ?thesis by auto
  qed
qed

end
