(* ===== verification/Refactor_Props.thy ===== *)
theory Refactor_Props
  imports Refactor_Track Refactor_Order State_Props
begin

text \<open>
  The properties of the execution of move statements, which rest on the order of the statements and
  on the record of old addresses.
\<close>

lemma stmt_ok_unified: "list_all stmt_ok stmts \<Longrightarrow> stmts_unified stmts"
  by (auto simp: stmts_unified_def stmt_ok_def list_all_iff)

lemma OldAddr_make [simp]: "OldAddr makeMoveResults b = b"
  by (simp add: OldAddr_def makeMoveResults_def MakeMap_def map_GetOk_def)

lemma tracked_refl: "st_wf s \<Longrightarrow> tracked s s makeMoveResults"
  by (auto simp: tracked_def bij_betw_def inj_on_def)

lemma ApplyMoves_tracked:
  assumes "st_wf s0" "list_all stmt_ok stmts"
  shows "\<exists>s R. ApplyMoves vis stmts s0 = Some (s, R) \<and> tracked s0 s R"
proof (cases "stmts = []")
  case True
  then show ?thesis using tracked_refl[OF assms(1)] by (simp add: ApplyMoves_def)
next
  case False
  note c = ApplyMoves_order_cases[OF stmt_ok_unified[OF assms(2)] False, of vis s0]
  show ?thesis
  proof (cases "acyclic (depends stmts)")
    case True
    with c obtain order where o: "ApplyMoves vis stmts s0 = execute_moves vis stmts order (s0, makeMoveResults)"
      "set order = {..<length stmts}" by auto
    from execute_moves_keeps[OF assms(2) equalityD1[OF o(2)] tracked_refl[OF assms(1)]] show ?thesis by (simp add: o(1))
  next
    case False
    with c tracked_refl[OF assms(1)] show ?thesis by simp
  qed
qed

text \<open>
  C4: Whatever the move statements and whatever order Go visits the maps of the state in, executing
  them never panics, keeps the state well-formed, and neither loses, duplicates nor changes an
  object: the old address reported for each resource instance that holds objects is one that held
  the same objects before, and this is a bijection between the instances after and before the
  moves. Objects whose destination is occupied stay where they are.
\<close>
theorem ApplyMoves_keeps_objects:
  assumes "st_wf s0" "list_all stmt_ok stmts"
  shows "\<exists>s R. ApplyMoves vis stmts s0 = Some (s, R) \<and> st_wf s \<and> bij_betw (OldAddr R) (live s) (live s0) \<and>
    (\<forall>b \<in> live s. \<forall>gen. st_obj s b gen = st_obj s0 (OldAddr R b) gen)"
  using ApplyMoves_tracked[OF assms] unfolding tracked_def by metis

definition w_res :: "string \<Rightarrow> AbsResource" where
  "w_res n = \<lparr>ar_Module = [], ar_Resource = \<lparr>res_Mode = ManagedResourceMode, res_Type = ''aws_instance'', res_Name = n\<rparr>\<rparr>"

definition w_stmt :: "string \<Rightarrow> string \<Rightarrow> MoveStatement" where
  "w_stmt f t = \<lparr>mvs_From = \<lparr>mm_SourceRange = w_rng, mm_module = [], mm_relSubject = MvResource (w_res f)\<rparr>,
     mvs_To = \<lparr>mm_SourceRange = w_rng, mm_module = [], mm_relSubject = MvResource (w_res t)\<rparr>,
     mvs_DeclRange = w_rng, mvs_Implied = False\<rparr>"

lemma w_stmt_ok: "list_all stmt_ok [w_stmt ''web'' ''www'']"
  by (simp add: stmt_ok_def w_stmt_def w_res_def unified_def ar_valid_def mi_valid_def res_valid_def valid_name_def)

theorem ApplyMoves_keeps_objects_witness:
  "\<exists>s R b. ApplyMoves (\<lambda>_. [([], [(''aws_instance.web'', [IntKey 0])])]) [w_stmt ''web'' ''www''] state0 = Some (s, R) \<and>
    OldAddr R b = web (IntKey 0) \<and> st_obj s b CurrentGen = Some (obj0 ObjectReady)"
proof -
  let ?vis = "\<lambda>_. [([], [(''aws_instance.web'', [IntKey 0])])]"
  from ApplyMoves_keeps_objects[OF state0_wf w_stmt_ok, of ?vis] obtain s R where
    r: "ApplyMoves ?vis [w_stmt ''web'' ''www''] state0 = Some (s, R)" "bij_betw (OldAddr R) (live s) (live state0)"
      "\<forall>b \<in> live s. \<forall>gen. st_obj s b gen = st_obj state0 (OldAddr R b) gen" by blast
  have "web (IntKey 0) \<in> live state0" by (simp add: live_def state0_obj web_facts)
  with r(2) obtain b where b: "b \<in> live s" "OldAddr R b = web (IntKey 0)" by (metis bij_betw_imp_surj_on imageE)
  with r(3) have "st_obj s b CurrentGen = Some (obj0 ObjectReady)" by (simp add: state0_obj web_facts)
  with r(1) b(2) show ?thesis by blast
qed

text \<open>
  C5: Move statements are executed in dependency order. When the statements depend on one another
  in a cycle, the state is returned unchanged; otherwise every statement is executed exactly once, and
  only after all the statements it is chained from or nested within.
\<close>
theorem ApplyMoves_dependency_order:
  assumes "stmts_unified stmts" "stmts \<noteq> []"
  shows "if acyclic {(i, j). i < length stmts \<and> j < length stmts \<and> i \<noteq> j \<and> statementDependsOn (stmts ! i) (stmts ! j) = Some True}
    then \<exists>order. ApplyMoves vis stmts s = execute_moves vis stmts order (s, makeMoveResults) \<and>
      distinct order \<and> set order = {..<length stmts} \<and>
      (\<forall>before i after j. order = before @ i # after \<and> j < length stmts \<and> j \<noteq> i \<and>
         statementDependsOn (stmts ! i) (stmts ! j) = Some True \<longrightarrow> j \<in> set before)
    else ApplyMoves vis stmts s = Some (s, makeMoveResults)"
proof -
  have dep: "depends stmts = {(i, j). i < length stmts \<and> j < length stmts \<and> i \<noteq> j \<and> statementDependsOn (stmts ! i) (stmts ! j) = Some True}"
    by (simp add: depends_def)
  have "j \<in> set ys" if "set order = {..<length stmts}" "succs_first (\<lambda>v. depends stmts `` {v}) order"
    "order = ys @ i # zs" "j < length stmts" "j \<noteq> i" "statementDependsOn (stmts ! i) (stmts ! j) = Some True" for order ys i zs j
    using that by (auto simp: succs_first_def depends_def)
  with ApplyMoves_order_cases[OF assms, of vis s] show ?thesis unfolding dep[symmetric] by (auto split: if_splits)
qed

lemma w_depends:
  "statementDependsOn (w_stmt ''b'' ''c'') (w_stmt ''a'' ''b'') = Some True"
  "statementDependsOn (w_stmt ''a'' ''b'') (w_stmt ''b'' ''c'') = Some False"
  by (simp_all add: statementDependsOn_def CanChainFrom_def NestedWithin_def w_stmt_def w_res_def synthModuleInstance_def synth_of_def res_Equal_def)

theorem ApplyMoves_dependency_order_witness:
  "ApplyMoves (\<lambda>_. []) [w_stmt ''b'' ''c'', w_stmt ''a'' ''b''] state0 =
    execute_moves (\<lambda>_. []) [w_stmt ''b'' ''c'', w_stmt ''a'' ''b''] [1, 0] (state0, makeMoveResults)"
proof -
  let ?st = "[w_stmt ''b'' ''c'', w_stmt ''a'' ''b'']"
  have u: "stmts_unified ?st" by (simp add: stmts_unified_def unified_def w_stmt_def)
  have dep: "{(i, j). i < length ?st \<and> j < length ?st \<and> i \<noteq> j \<and> statementDependsOn (?st ! i) (?st ! j) = Some True} = {(0, 1)}"
    by (auto simp: less_Suc_eq w_depends)
  have ne: "?st \<noteq> []" by simp
  have acyc: "acyclic {(0 :: nat, 1 :: nat)}" by (simp add: acyclic_insert) (simp add: acyclic_def)
  from ApplyMoves_dependency_order[OF u ne, of "\<lambda>_. []" state0, unfolded dep if_P[OF acyc]] obtain order where
    o: "ApplyMoves (\<lambda>_. []) ?st state0 = execute_moves (\<lambda>_. []) ?st order (state0, makeMoveResults)" "distinct order" "set order = {..<length ?st}"
      "\<forall>before i after j. order = before @ i # after \<and> j < length ?st \<and> j \<noteq> i \<and> statementDependsOn (?st ! i) (?st ! j) = Some True \<longrightarrow> j \<in> set before"
    by blast
  have "length order = 2" using o(2,3) distinct_card[of order] by simp
  then obtain x y where xy: "order = [x, y]" by (auto simp: length_Suc_conv numeral_2_eq_2)
  have "x \<noteq> 0"
  proof
    assume "x = 0"
    with o(4)[rule_format, of "[]" 0 "[y]" 1] xy show False by (simp add: w_depends)
  qed
  moreover have "{x, y} = {0, 1}" using o(3) xy by (simp add: lessThan_Suc insert_commute)
  ultimately have "x = 1" "y = 0" by (simp_all add: doubleton_eq_iff)
  with xy have "order = [1, 0]" by simp
  with o(1) show ?thesis by simp
qed

end
