(* ===== verification/Config_Tree.thy ===== *)
theory Config_Tree
  imports Addr_Move
begin

text \<open>
  The tree of module configurations (\<^verbatim>\<open>internal/configs\<close>), with the fields that the move and removal
  statements and the checks read.  Of an expression they read only its source range, so an
  expression is its range, and a missing one is \<open>None\<close>.  The provisioners of a \<^verbatim>\<open>removed\<close> block are a type
  parameter: they are only handed on.
\<close>

record Moved =
  mov_From :: MoveEndpoint
  mov_To :: MoveEndpoint
  mov_DeclRange :: SourceRange

datatype ConfigRemovable = RmConfigResource ConfigResource | RmModule Module

record RemoveEndpoint =
  rem_SourceRange :: SourceRange
  rem_RelSubject :: ConfigRemovable

record 'pv Removed =
  rmd_From :: RemoveEndpoint
  rmd_Destroy :: bool
  rmd_Provisioners :: "'pv list"
  rmd_DeclRange :: SourceRange

record ModuleCall_cfg =
  mcc_Count :: "SourceRange option"
  mcc_ForEach :: "SourceRange option"
  mcc_DeclRange :: SourceRange

record CheckRule_cfg =
  crc_DeclRange :: SourceRange

record Resource_cfg =
  rcc_Mode :: ResourceMode
  rcc_Name :: string
  rcc_Type :: string
  rcc_Count :: "SourceRange option"
  rcc_ForEach :: "SourceRange option"
  rcc_Preconditions :: "CheckRule_cfg list"
  rcc_Postconditions :: "CheckRule_cfg list"
  rcc_DeclRange :: SourceRange

record Check_cfg =
  ckc_Name :: string
  ckc_DataResource :: "Resource_cfg option"
  ckc_Asserts :: "CheckRule_cfg list"

record Output_cfg =
  outc_Name :: string
  outc_Preconditions :: "CheckRule_cfg list"

record Variable_cfg =
  varc_Name :: string
  varc_Validations :: "CheckRule_cfg list"

record 'pv Module_cfg =
  mdc_Variables :: "(string, Variable_cfg) gomap"
  mdc_Outputs :: "(string, Output_cfg) gomap"
  mdc_ModuleCalls :: "(string, ModuleCall_cfg) gomap"
  mdc_ManagedResources :: "(string, Resource_cfg) gomap"
  mdc_DataResources :: "(string, Resource_cfg) gomap"
  mdc_EphemeralResources :: "(string, Resource_cfg) gomap"
  mdc_Moved :: "Moved list"
  mdc_Removed :: "'pv Removed list"
  mdc_Checks :: "(string, Check_cfg) gomap"

datatype 'pv Config = Config (cfg_Path: Module) (cfg_Module: "'pv Module_cfg") (cfg_Children: "(string \<times> 'pv Config) list")

definition rcc_Addr :: "Resource_cfg \<Rightarrow> Resource" where
  "rcc_Addr r = \<lparr>res_Mode = rcc_Mode r, res_Type = rcc_Type r, res_Name = rcc_Name r\<rparr>"

definition ResourceByAddr :: "'pv Module_cfg \<Rightarrow> Resource \<Rightarrow> Resource_cfg option" where
  "ResourceByAddr m addr =
     (let key = res_String addr in
      case res_Mode addr of
        ManagedResourceMode \<Rightarrow> gmap_get (mdc_ManagedResources m) key
      | DataResourceMode \<Rightarrow> gmap_get (mdc_DataResources m) key
      | EphemeralResourceMode \<Rightarrow> gmap_get (mdc_EphemeralResources m) key
      | _ \<Rightarrow> None)"

fun Descendent :: "'pv Config \<Rightarrow> Module \<Rightarrow> 'pv Config option" where
  "Descendent c [] = Some c"
| "Descendent c (name # path) =
     (case gmap_get (cfg_Children c) name of None \<Rightarrow> None | Some current \<Rightarrow> Descendent current path)"

fun DescendentForInstance :: "'pv Config \<Rightarrow> ModuleInstance \<Rightarrow> 'pv Config option" where
  "DescendentForInstance c [] = Some c"
| "DescendentForInstance c (step # path) =
     (case gmap_get (cfg_Children c) (step_Name step) of None \<Rightarrow> None | Some current \<Rightarrow> DescendentForInstance current path)"

end
