(* ===== verification/Refactor_Config.thy ===== *)
theory Refactor_Config
  imports Refactor_Moves Inst_Expander Config_Tree
begin

text \<open>
  The statements a configuration gives rise to (\<^verbatim>\<open>move_statement.go\<close> and \<^verbatim>\<open>remove_statement.go\<close> of
  \<^verbatim>\<open>internal/refactoring\<close>): the \<^verbatim>\<open>moved\<close> blocks, the moves implied by adding or removing \<^verbatim>\<open>count\<close>, and
  the \<^verbatim>\<open>removed\<close> blocks; the validation of the moves (\<^verbatim>\<open>move_validate.go\<close>), and what planning does
  with them before and after its walk (\<^verbatim>\<open>internal/tofu/context_plan.go\<close>).  A panic is \<open>None\<close>.
\<close>

section \<open>Moves in the configuration\<close>

fun add_moved :: "Module \<Rightarrow> Moved list \<Rightarrow> MoveStatement list \<Rightarrow> MoveStatement list option" where
  "add_moved modAddr [] into = Some into"
| "add_moved modAddr (mc # rest) into =
     (case UnifyMoveEndpoints modAddr (mov_From mc) (mov_To mc) of
        Some (Some (fromAddr, toAddr)) \<Rightarrow>
          add_moved modAddr rest
            (into @ [\<lparr>mvs_From = fromAddr, mvs_To = toAddr, mvs_DeclRange = mov_DeclRange mc, mvs_Implied = False\<rparr>])
      | _ \<Rightarrow> None)"

fun findMoveStatements :: "'pv Config \<Rightarrow> MoveStatement list \<Rightarrow> MoveStatement list option"
  and findMove_children :: "(string \<times> 'pv Config) list \<Rightarrow> MoveStatement list \<Rightarrow> MoveStatement list option" where
  "findMoveStatements (Config path md children) into =
     (case add_moved path (mdc_Moved md) into of None \<Rightarrow> None | Some into \<Rightarrow> findMove_children children into)"
| "findMove_children [] into = Some into"
| "findMove_children ((_, childCfg) # rest) into =
     (case findMoveStatements childCfg into of None \<Rightarrow> None | Some into \<Rightarrow> findMove_children rest into)"

definition FindMoveStatements :: "'pv Config \<Rightarrow> MoveStatement list option" where
  "FindMoveStatements rootCfg = findMoveStatements rootCfg []"

section \<open>Implied moves\<close>

definition haveMoveStatementForResource :: "AbsResource \<Rightarrow> MoveStatement list \<Rightarrow> bool" where
  "haveMoveStatementForResource addr stmts =
     list_ex (\<lambda>stmt. SelectsResource (mvs_From stmt) addr \<or> SelectsResource (mvs_To stmt) addr) stmts"

definition haveMoveStatementForModule :: "ModuleInstance \<Rightarrow> MoveStatement list \<Rightarrow> bool" where
  "haveMoveStatementForModule addr stmts =
     list_ex (\<lambda>stmt. SelectsModule (mvs_From stmt) addr \<or> SelectsModule (mvs_To stmt) addr) stmts"

definition implied_statement :: "AbsMoveable \<Rightarrow> AbsMoveable \<Rightarrow> SourceRange \<Rightarrow> MoveStatement" where
  "implied_statement fromAddr toAddr rng =
     \<lparr>mvs_From = ImpliedMoveStatementEndpoint fromAddr rng, mvs_To = ImpliedMoveStatementEndpoint toAddr rng,
      mvs_DeclRange = rng, mvs_Implied = True\<rparr>"

fun implied_for_instances ::
  "InstanceKey \<Rightarrow> SourceRange \<Rightarrow> MoveStatement list \<Rightarrow> ModuleInstance list \<Rightarrow> MoveStatement list option" where
  "implied_for_instances toKey rng explicitStmts [] = Some []"
| "implied_for_instances toKey rng explicitStmts (addr # rest) =
     (case mi_CallInstance addr of
        None \<Rightarrow> None
      | Some (callerAddr, callAddr) \<Rightarrow>
          (let absCallAddr = \<lparr>amc_Module = callerAddr, amc_Call = mci_Call callAddr\<rparr>; fromKey = mci_Key callAddr;
               others = implied_for_instances toKey rng explicitStmts rest
           in if fromKey \<noteq> NoKey \<and> fromKey \<noteq> IntKey 0 then others
              else if fromKey = toKey \<or> haveMoveStatementForModule addr explicitStmts then others
              else map_option (Cons (implied_statement (MvModuleInstance (amc_Instance absCallAddr fromKey))
                     (MvModuleInstance (amc_Instance absCallAddr toKey)) rng)) others))"

definition impliedMoveStatementsForModules ::
  "('p, 'v, 'm, 'c) State \<Rightarrow> 'pv Config \<Rightarrow> string \<Rightarrow> ModuleCall_cfg \<Rightarrow> MoveStatement list \<Rightarrow> MoveStatement list option" where
  "impliedMoveStatementsForModules prevRunState parentCfg modCallName modCallCfg explicitStmts =
     (case (mcc_Count modCallCfg, mcc_ForEach modCallCfg) of
        (Some rng, _) \<Rightarrow>
          implied_for_instances (IntKey 0) rng explicitStmts
            (map ms_Addr (st_ModuleInstances prevRunState (mod_Child (cfg_Path parentCfg) modCallName)))
      | (None, None) \<Rightarrow>
          implied_for_instances NoKey (mcc_DeclRange modCallCfg) explicitStmts
            (map ms_Addr (st_ModuleInstances prevRunState (mod_Child (cfg_Path parentCfg) modCallName)))
      | _ \<Rightarrow> Some [])"

definition implied_for_resource ::
  "'pv Config \<Rightarrow> MoveStatement list \<Rightarrow> ('p, 'm) Resource_state \<Rightarrow> MoveStatement list" where
  "implied_for_resource cfg explicitStmts rState =
     (let rAddr = rs_Addr rState in
      case ResourceByAddr (cfg_Module cfg) (ar_Resource rAddr) of
        None \<Rightarrow> []
      | Some rCfg \<Rightarrow>
          (let (approxSrcRange, fromKey, toKey) =
             (case (rcc_Count rCfg, rcc_ForEach rCfg) of
                (Some rng, _) \<Rightarrow>
                  (rng, if gmap_get (rs_Instances rState) NoKey \<noteq> None then (NoKey, IntKey 0) else (NoKey, NoKey))
              | (None, None) \<Rightarrow>
                  (rcc_DeclRange rCfg, if gmap_get (rs_Instances rState) (IntKey 0) \<noteq> None then (IntKey 0, NoKey) else (NoKey, NoKey))
              | _ \<Rightarrow> (rcc_DeclRange rCfg, NoKey, NoKey))
           in if fromKey \<noteq> toKey \<and> \<not> haveMoveStatementForResource rAddr explicitStmts
              then [implied_statement (MvResourceInstance (ar_Instance rAddr fromKey)) (MvResourceInstance (ar_Instance rAddr toKey)) approxSrcRange]
              else []))"

definition impliedMoveStatementsForModuleResources ::
  "'pv Config \<Rightarrow> ('p, 'v, 'm) Module_state \<Rightarrow> MoveStatement list \<Rightarrow> MoveStatement list" where
  "impliedMoveStatementsForModuleResources cfg modState explicitStmts =
     concat (map (\<lambda>(_, rState). implied_for_resource cfg explicitStmts rState) (ms_Resources modState))"

fun implied_for_calls ::
  "('p, 'v, 'm, 'c) State \<Rightarrow> 'pv Config \<Rightarrow> MoveStatement list \<Rightarrow> (string \<times> ModuleCall_cfg) list \<Rightarrow> MoveStatement list option" where
  "implied_for_calls prevRunState cfg explicitStmts [] = Some []"
| "implied_for_calls prevRunState cfg explicitStmts ((modCallName, modCallCfg) # rest) =
     (case impliedMoveStatementsForModules prevRunState cfg modCallName modCallCfg explicitStmts of
        None \<Rightarrow> None
      | Some stmts \<Rightarrow> map_option ((@) stmts) (implied_for_calls prevRunState cfg explicitStmts rest))"

fun ImpliedMoveStatements :: "'pv Config \<Rightarrow> ('p, 'v, 'm, 'c) State \<Rightarrow> MoveStatement list \<Rightarrow> MoveStatement list option"
  and implied_children :: "(string \<times> 'pv Config) list \<Rightarrow> ('p, 'v, 'm, 'c) State \<Rightarrow> MoveStatement list \<Rightarrow> MoveStatement list option" where
  "ImpliedMoveStatements (Config path md children) prevRunState explicitStmts =
     (case implied_for_calls prevRunState (Config path md children) explicitStmts (mdc_ModuleCalls md) of
        None \<Rightarrow> None
      | Some forCalls \<Rightarrow>
          map_option (\<lambda>forChildren. forCalls @
              concat (map (\<lambda>modState. impliedMoveStatementsForModuleResources (Config path md children) modState explicitStmts)
                (st_ModuleInstances prevRunState path)) @ forChildren)
            (implied_children children prevRunState explicitStmts))"
| "implied_children [] prevRunState explicitStmts = Some []"
| "implied_children ((_, childCfg) # rest) prevRunState explicitStmts =
     (case ImpliedMoveStatements childCfg prevRunState explicitStmts of
        None \<Rightarrow> None
      | Some stmts \<Rightarrow> map_option ((@) stmts) (implied_children rest prevRunState explicitStmts))"

section \<open>Removals\<close>

definition ParseRemoveEndpoint :: "SourceRange \<Rightarrow> Traversal \<Rightarrow> (Diagnostics + RemoveEndpoint) option" where
  "ParseRemoveEndpoint rng traversal =
     (let (path, remain, diags) = parseModulePrefix traversal in
      if HasErrors diags then Some (Inl diags)
      else if length remain = 0 then Some (Inr \<lparr>rem_SourceRange = rng, rem_RelSubject = RmModule path\<rparr>)
      else case parseResourceUnderModule path remain of
        None \<Rightarrow> None
      | Some (Inl moreDiags) \<Rightarrow> Some (Inl (diags @ moreDiags))
      | Some (Inr riAddr) \<Rightarrow>
          Some (if res_Mode (cr_Resource riAddr) = DataResourceMode then
              Inl (with_error diags ''Data source address is not allowed''
                (''Data sources cannot be destroyed, and therefore, '' @ [CHR 0x27] @ ''removed'' @ [CHR 0x27] @
                 '' blocks are not allowed to target them. To remove data sources from the state, you should remove the data source block from the configuration.''))
            else if res_Mode (cr_Resource riAddr) = EphemeralResourceMode then
              Inl (with_error diags ''Ephemeral resource address is not allowed''
                (''Ephemeral resources cannot be destroyed, and therefore, '' @ [CHR 0x27] @ ''removed'' @ [CHR 0x27] @
                 '' blocks are not allowed to target them. To remove ephemeral resources from the state, you should remove the ephemeral resource block from the configuration.''))
            else Inr \<lparr>rem_SourceRange = rng, rem_RelSubject = RmConfigResource riAddr\<rparr>))"

record 'pv RemoveStatement =
  rms_From :: ConfigRemovable
  rms_Destroy :: bool
  rms_DeclRange :: SourceRange
  rms_Provisioners :: "'pv list"

fun absolute_removable :: "Module \<Rightarrow> ConfigRemovable \<Rightarrow> ConfigRemovable" where
  "absolute_removable modAddr (RmConfigResource from) =
     RmConfigResource \<lparr>cr_Module = modAddr @ cr_Module from, cr_Resource = cr_Resource from\<rparr>"
| "absolute_removable modAddr (RmModule from) = RmModule (modAddr @ from)"

fun findRemoveStatements :: "'pv Config \<Rightarrow> 'pv RemoveStatement list \<Rightarrow> 'pv RemoveStatement list"
  and findRemove_children :: "(string \<times> 'pv Config) list \<Rightarrow> 'pv RemoveStatement list \<Rightarrow> 'pv RemoveStatement list" where
  "findRemoveStatements (Config path md children) into =
     findRemove_children children (into @ map (\<lambda>rc.
       \<lparr>rms_From = absolute_removable path (rem_RelSubject (rmd_From rc)), rms_Destroy = rmd_Destroy rc,
        rms_DeclRange = rmd_DeclRange rc, rms_Provisioners = rmd_Provisioners rc\<rparr>) (mdc_Removed md))"
| "findRemove_children [] into = into"
| "findRemove_children ((_, childCfg) # rest) into = findRemove_children rest (findRemoveStatements childCfg into)"

text \<open>The errors of the validation; their text is left out.\<close>

datatype 'pv remove_error = RemovedResourceStillExists "'pv RemoveStatement" | RemovedModuleStillExists "'pv RemoveStatement"

definition validate_removed :: "'pv Config \<Rightarrow> 'pv RemoveStatement \<Rightarrow> 'pv remove_error list" where
  "validate_removed cfg rs =
     (case rms_From rs of
        RmConfigResource fromAddr \<Rightarrow>
          (case Descendent cfg (cr_Module fromAddr) of
             None \<Rightarrow> []
           | Some moduleConfig \<Rightarrow>
               if ResourceByAddr (cfg_Module moduleConfig) (cr_Resource fromAddr) \<noteq> None then [RemovedResourceStillExists rs] else [])
      | RmModule fromAddr \<Rightarrow> if Descendent cfg fromAddr \<noteq> None then [RemovedModuleStillExists rs] else [])"

definition validateRemoveStatements :: "'pv Config \<Rightarrow> 'pv RemoveStatement list \<Rightarrow> 'pv remove_error list" where
  "validateRemoveStatements cfg removeStatements = concat (map (validate_removed cfg) removeStatements)"

definition FindRemoveStatements :: "'pv Config \<Rightarrow> 'pv RemoveStatement list \<times> 'pv remove_error list" where
  "FindRemoveStatements rootCfg =
     (let rm = findRemoveStatements rootCfg [] in (rm, validateRemoveStatements rootCfg rm))"

fun removable_target :: "ConfigRemovable \<Rightarrow> Targetable" where
  "removable_target (RmConfigResource r) = TConfigResource r"
| "removable_target (RmModule m) = TModule m"

definition FindResourceRemovedStatement :: "'pv Config \<Rightarrow> ConfigResource \<Rightarrow> 'pv RemoveStatement option" where
  "FindResourceRemovedStatement rootCfg resAddr =
     List.find (\<lambda>rs. TargetContains (removable_target (rms_From rs)) (TConfigResource resAddr)) (findRemoveStatements rootCfg [])"

definition FindResourceRemovedBlockProvisioners :: "'pv Config \<Rightarrow> ConfigResource \<Rightarrow> 'pv list" where
  "FindResourceRemovedBlockProvisioners rootCfg resAddr =
     (case FindResourceRemovedStatement rootCfg resAddr of None \<Rightarrow> [] | Some rs \<Rightarrow> rms_Provisioners rs)"

section \<open>Validation of moves\<close>

text \<open>The errors with the addresses they mention; their text is left out.\<close>

datatype move_error =
    RedundantMove AbsMoveable
  | MovedObjectStillExists AbsMoveable "SourceRange option" AbsMoveable
  | AmbiguousDestination AbsMoveable AbsMoveable AbsMoveable
  | AmbiguousSource AbsMoveable AbsMoveable AbsMoveable
  | MoveGraphError move_graph_error

fun moveableObjectExists :: "AbsMoveable \<Rightarrow> 'x expanderModule \<Rightarrow> bool option" where
  "moveableObjectExists (MvModuleInstance addr) e = Some (knowsModuleInstance e addr)"
| "moveableObjectExists (MvModuleCall addr) e = Some (knowsModuleCall e addr)"
| "moveableObjectExists (MvResourceInstance addr) e = knowsResourceInstance e addr"
| "moveableObjectExists (MvResource addr) e = Some (knowsResource e addr)"

definition blame_range :: "SourceRange option \<Rightarrow> SourceRange option \<Rightarrow> SourceRange \<Rightarrow> SourceRange" where
  "blame_range forEach cnt decl =
     (case forEach of Some rng \<Rightarrow> rng | None \<Rightarrow> (case cnt of Some rng \<Rightarrow> rng | None \<Rightarrow> decl))"

definition resource_cfg :: "'pv Config \<Rightarrow> ModuleInstance \<Rightarrow> Resource \<Rightarrow> Resource_cfg option" where
  "resource_cfg cfg m r =
     (case DescendentForInstance cfg m of None \<Rightarrow> None | Some modCfg \<Rightarrow> ResourceByAddr (cfg_Module modCfg) r)"

definition call_cfg :: "'pv Config \<Rightarrow> ModuleInstance \<Rightarrow> ModuleCall \<Rightarrow> ModuleCall_cfg option" where
  "call_cfg cfg m c =
     (case DescendentForInstance cfg m of None \<Rightarrow> None | Some modCfg \<Rightarrow> gmap_get (mdc_ModuleCalls (cfg_Module modCfg)) (call_Name c))"

text \<open>The outer \<open>None\<close> is the panic for the root module, the inner one that there is no range.\<close>

fun movableObjectDeclRange :: "AbsMoveable \<Rightarrow> 'pv Config \<Rightarrow> SourceRange option option" where
  "movableObjectDeclRange (MvModuleInstance addr) cfg =
     (case mi_Call addr of
        None \<Rightarrow> None
      | Some (parentAddr, callAddr) \<Rightarrow>
          Some (map_option (\<lambda>call. blame_range (mcc_ForEach call) (mcc_Count call) (mcc_DeclRange call)) (call_cfg cfg parentAddr callAddr)))"
| "movableObjectDeclRange (MvModuleCall addr) cfg = Some (map_option mcc_DeclRange (call_cfg cfg (amc_Module addr) (amc_Call addr)))"
| "movableObjectDeclRange (MvResourceInstance addr) cfg =
     Some (map_option (\<lambda>rc. blame_range (rcc_ForEach rc) (rcc_Count rc) (rcc_DeclRange rc))
       (resource_cfg cfg (ari_Module addr) (ri_Resource (ari_Resource addr))))"
| "movableObjectDeclRange (MvResource addr) cfg = Some (map_option rcc_DeclRange (resource_cfg cfg (ar_Module addr) (ar_Resource addr)))"

text \<open>The ranges of earlier statements, kept only for the text of the errors, are left out of the maps.\<close>

record validation =
  val_diags :: "move_error list"
  val_stmtFrom :: "(moveable_key, AbsMoveable, AbsMoveable) addr_map"
  val_stmtTo :: "(moveable_key, AbsMoveable, AbsMoveable) addr_map"

definition Equivalent :: "AbsMoveable \<Rightarrow> AbsMoveable \<Rightarrow> bool" where
  "Equivalent a b = (mv_UniqueKey a = mv_UniqueKey b)"

definition validate_endpoints :: "AbsMoveable \<Rightarrow> AbsMoveable \<Rightarrow> validation \<Rightarrow> validation" where
  "validate_endpoints absFrom absTo v =
     (let v = (case map_GetOk mv_UniqueKey (val_stmtFrom v) absFrom of
          Some existing \<Rightarrow>
            if \<not> Equivalent existing absTo then v\<lparr>val_diags := val_diags v @ [AmbiguousDestination absFrom existing absTo]\<rparr> else v
        | None \<Rightarrow> v\<lparr>val_stmtFrom := map_Put mv_UniqueKey (val_stmtFrom v) absFrom absTo\<rparr>)
      in case map_GetOk mv_UniqueKey (val_stmtTo v) absTo of
          Some existing \<Rightarrow>
            if \<not> Equivalent existing absFrom then v\<lparr>val_diags := val_diags v @ [AmbiguousSource absTo existing absFrom]\<rparr> else v
        | None \<Rightarrow> v\<lparr>val_stmtTo := map_Put mv_UniqueKey (val_stmtTo v) absTo absFrom\<rparr>)"

definition validate_instance ::
  "MoveStatement \<Rightarrow> 'pv Config \<Rightarrow> 'x expanderModule \<Rightarrow> ModuleInstance \<Rightarrow> validation \<Rightarrow> validation option" where
  "validate_instance stmt rootCfg declaredInsts fromModInst v =
     (case (InModuleInstance (mvs_From stmt) fromModInst, InModuleInstance (mvs_To stmt) fromModInst) of
        (Some absFrom, Some absTo) \<Rightarrow>
          if Equivalent absFrom absTo then Some (v\<lparr>val_diags := val_diags v @ [RedundantMove absFrom]\<rparr>)
          else (case moveableObjectExists absFrom declaredInsts of
              None \<Rightarrow> None
            | Some False \<Rightarrow> Some (validate_endpoints absFrom absTo v)
            | Some True \<Rightarrow>
                (case movableObjectDeclRange absFrom rootCfg of
                   None \<Rightarrow> None
                 | Some conflictRange \<Rightarrow>
                     Some (validate_endpoints absFrom absTo
                       (v\<lparr>val_diags := val_diags v @ [MovedObjectStillExists absFrom conflictRange absTo]\<rparr>))))
      | _ \<Rightarrow> None)"

definition validate_statement :: "'pv Config \<Rightarrow> 'x expanderModule \<Rightarrow> MoveStatement \<Rightarrow> validation \<Rightarrow> validation option" where
  "validate_statement rootCfg declaredInsts stmt v =
     (case ModuleCallTraversals (mvs_From stmt) of
        None \<Rightarrow> None
      | Some (fromMod, _) \<Rightarrow>
          (case InstancesForModule declaredInsts fromMod of
             None \<Rightarrow> None
           | Some insts \<Rightarrow> fold_opt (validate_instance stmt rootCfg declaredInsts) insts v))"

definition ValidateMoves :: "MoveStatement list \<Rightarrow> 'pv Config \<Rightarrow> 'x expanderModule \<Rightarrow> move_error list option" where
  "ValidateMoves stmts rootCfg declaredInsts =
     (if length stmts = 0 then Some []
      else case buildMoveStatementGraph stmts of
        None \<Rightarrow> None
      | Some g \<Rightarrow>
          (case fold_opt (validate_statement rootCfg declaredInsts) stmts \<lparr>val_diags = [], val_stmtFrom = [], val_stmtTo = []\<rparr> of
             None \<Rightarrow> None
           | Some v \<Rightarrow>
               if val_diags v = [] then map_option (map MoveGraphError) (validateMoveStatementGraph g)
               else Some (val_diags v)))"

section \<open>Moves before planning\<close>

definition prePlanFindAndApplyMoves ::
  "(nat \<Rightarrow> visits) \<Rightarrow> 'pv Config \<Rightarrow> ('p, 'v, 'm, 'c) State \<Rightarrow> (MoveStatement list \<times> ('p, 'v, 'm, 'c) moving) option" where
  "prePlanFindAndApplyMoves vis config prevRunState =
     (case FindMoveStatements config of
        None \<Rightarrow> None
      | Some explicitMoveStmts \<Rightarrow>
          (case ImpliedMoveStatements config prevRunState explicitMoveStmts of
             None \<Rightarrow> None
           | Some implicitMoveStmts \<Rightarrow>
               (let moveStmts = explicitMoveStmts @ implicitMoveStmts
                in map_option (Pair moveStmts) (ApplyMoves vis moveStmts prevRunState))))"

text \<open>
  The verification of moves against \<^verbatim>\<open>-target\<close> and \<^verbatim>\<open>-exclude\<close>.  The result is the list of resources the
  error message names, which is empty when there is no error.
\<close>

fun whole_resources :: "AbsResource \<Rightarrow> AbsResourceInstance list \<Rightarrow> AbsResource list" where
  "whole_resources prevResourceAddr [] = []"
| "whole_resources prevResourceAddr (instAddr # rest) =
     (let resourceAddr = ari_ContainingResource instAddr in
      if ar_Equal resourceAddr prevResourceAddr then whole_resources prevResourceAddr rest
      else resourceAddr # whole_resources resourceAddr rest)"

definition zeroAbsResource :: AbsResource where
  "zeroAbsResource = \<lparr>ar_Module = [], ar_Resource = \<lparr>res_Mode = InvalidResourceMode, res_Type = [], res_Name = []\<rparr>\<rparr>"

definition report_excluded :: "AbsResourceInstance list \<Rightarrow> AbsResource list option" where
  "report_excluded excluded =
     (if length excluded > 0 then map_option (whole_resources zeroAbsResource) (sort_SliceStable ari_Less excluded) else Some [])"

definition target_matches :: "Targetable list \<Rightarrow> AbsResourceInstance \<Rightarrow> bool" where
  "target_matches targets addr = list_ex (\<lambda>targetAddr. TargetContains targetAddr (TAbsResourceInstance addr)) targets"

definition prePlanVerifyMovesWithTargetFlag :: "MoveResults \<Rightarrow> Targetable list \<Rightarrow> AbsResource list option" where
  "prePlanVerifyMovesWithTargetFlag moveResults targets =
     report_excluded (concat (map (\<lambda>result.
       (if \<not> target_matches targets (succ_From result) then [succ_From result] else []) @
       (if \<not> target_matches targets (succ_To result) then [succ_To result] else [])) (map_Values (mvr_Changes moveResults))))"

definition prePlanVerifyMovesWithExcludeFlag :: "MoveResults \<Rightarrow> Targetable list \<Rightarrow> AbsResource list option" where
  "prePlanVerifyMovesWithExcludeFlag moveResults excludes =
     report_excluded (concat (map (\<lambda>result.
       (if target_matches excludes (succ_From result) then [succ_From result] else []) @
       (if target_matches excludes (succ_To result) then [succ_To result] else [])) (map_Values (mvr_Changes moveResults))))"

definition prePlanVerifyTargetedMoves :: "MoveResults \<Rightarrow> Targetable list \<Rightarrow> Targetable list \<Rightarrow> AbsResource list option" where
  "prePlanVerifyTargetedMoves moveResults targets excludes =
     (if length targets > 0 then prePlanVerifyMovesWithTargetFlag moveResults targets
      else if length excludes > 0 then prePlanVerifyMovesWithExcludeFlag moveResults excludes
      else Some [])"

end
