(* ===== verification/Refactor_Validate.thy ===== *)
theory Refactor_Validate
  imports Refactor_Config Refactor_Props Inst_Props
begin

text \<open>
  What the validation of moves accepts: the concrete moves that the statements declare, in every
  declared instance of their modules, and the rules these moves have to satisfy.
\<close>

section \<open>Unique keys of moveable addresses\<close>

lemma join_steps_snoc: "xs \<noteq> [] \<Longrightarrow> join_steps sep (xs @ [x]) = join_steps sep xs @ ''.module.'' @ x"
proof (induction xs arbitrary: sep)
  case (Cons y ys)
  then show ?case by (cases "ys = []") simp_all
qed simp

lemma amc_String_path: "amc_String c = mi_String (amc_Instance c NoKey)"
  by (cases "amc_Module c = []")
    (simp_all add: amc_String_def amc_Instance_def mi_String_def step_String_def join_steps_snoc)

lemma amc_String_inj:
  assumes "amc_String c = amc_String d" "mi_valid (amc_Module c)" "valid_name (call_Name (amc_Call c))"
    "mi_valid (amc_Module d)" "valid_name (call_Name (amc_Call d))"
  shows "c = d"
proof -
  have v: "mi_valid (amc_Instance c NoKey)" "mi_valid (amc_Instance d NoKey)"
    using assms(2-5) by (simp_all add: amc_Instance_def) (simp_all add: mi_valid_def)
  have "amc_Instance c NoKey = amc_Instance d NoKey"
    using assms(1) mi_String_inj[OF v] by (simp add: amc_String_path)
  then show ?thesis by (cases c; cases d) (auto simp: amc_Instance_def intro: ModuleCall.equality)
qed

interpretation mv_uk: unique_key mv_UniqueKey mv_valid
proof
  fix a b assume "mv_valid a" "mv_valid b" "mv_UniqueKey a = mv_UniqueKey b"
  then show "a = b"
    by (cases a; cases b) (auto simp: mi_String_inj ar_String_inj ari_String_inj dest: amc_String_inj)
qed

lemma Equivalent_iff: "mv_valid a \<Longrightarrow> mv_valid b \<Longrightarrow> Equivalent a b \<longleftrightarrow> a = b"
  using mv_uk.uk_inj by (auto simp: Equivalent_def)

section \<open>The rules\<close>

definition good_moves :: "'x expanderModule \<Rightarrow> (AbsMoveable \<times> AbsMoveable) set \<Rightarrow> bool" where
  "good_moves e M \<longleftrightarrow> (\<forall>(a, b) \<in> M. a \<noteq> b \<and> moveableObjectExists a e = Some False) \<and> single_valued M \<and> single_valued (M\<inverse>)"

definition maps_ok :: "(AbsMoveable \<times> AbsMoveable) set \<Rightarrow> validation \<Rightarrow> bool" where
  "maps_ok M v \<longleftrightarrow> (\<forall>a b. mv_valid a \<and> mv_valid b \<longrightarrow>
     (map_GetOk mv_UniqueKey (val_stmtFrom v) a = Some b \<longleftrightarrow> (a, b) \<in> M) \<and>
     (map_GetOk mv_UniqueKey (val_stmtTo v) b = Some a \<longleftrightarrow> (a, b) \<in> M)) \<and>
   (\<forall>a b. mv_valid a \<longrightarrow> map_GetOk mv_UniqueKey (val_stmtFrom v) a = Some b \<longrightarrow> mv_valid b) \<and>
   (\<forall>a b. mv_valid b \<longrightarrow> map_GetOk mv_UniqueKey (val_stmtTo v) b = Some a \<longrightarrow> mv_valid a)"

definition checked :: "'x expanderModule \<Rightarrow> (AbsMoveable \<times> AbsMoveable) set \<Rightarrow> validation \<Rightarrow> bool" where
  "checked e M v \<longleftrightarrow> (if good_moves e M then val_diags v = [] \<and> maps_ok M v else val_diags v \<noteq> [])"

lemma single_valued_insert: "single_valued (insert (a, b) M) \<longleftrightarrow> single_valued M \<and> (\<forall>b'. (a, b') \<in> M \<longrightarrow> b' = b)"
  unfolding single_valued_def by blast

lemma good_moves_insert:
  "good_moves e (insert (a, b) M) \<longleftrightarrow> good_moves e M \<and>
    a \<noteq> b \<and> moveableObjectExists a e = Some False \<and> (\<forall>b'. (a, b') \<in> M \<longrightarrow> b' = b) \<and> (\<forall>a'. (a', b) \<in> M \<longrightarrow> a' = a)"
proof -
  have "(insert (a, b) M)\<inverse> = insert (b, a) (M\<inverse>)" by auto
  then show ?thesis unfolding good_moves_def by (simp add: single_valued_insert) blast
qed

lemma endpoints_diags: "val_diags v \<noteq> [] \<Longrightarrow> val_diags (validate_endpoints a b v) \<noteq> []"
  by (auto simp: validate_endpoints_def Let_def split: option.split)

lemma maps_ok_put:
  assumes v: "mv_valid a" "mv_valid b" and m: "maps_ok M v"
    and none: "\<And>x. (a, x) \<notin> M \<or> \<not> mv_valid x" "\<And>x. (x, b) \<notin> M \<or> \<not> mv_valid x"
  shows "maps_ok (insert (a, b) M) (v\<lparr>val_stmtFrom := map_Put mv_UniqueKey (val_stmtFrom v) a b,
    val_stmtTo := map_Put mv_UniqueKey (val_stmtTo v) b a\<rparr>)"
  unfolding maps_ok_def
proof (intro conjI allI impI)
  fix x y
  have mF: "mv_valid x \<Longrightarrow> mv_valid y \<Longrightarrow> (map_GetOk mv_UniqueKey (val_stmtFrom v) x = Some y) = ((x, y) \<in> M)"
    and mT: "mv_valid x \<Longrightarrow> mv_valid y \<Longrightarrow> (map_GetOk mv_UniqueKey (val_stmtTo v) y = Some x) = ((x, y) \<in> M)"
    using m unfolding maps_ok_def by blast+
  show "mv_valid x \<and> mv_valid y \<Longrightarrow> (map_GetOk mv_UniqueKey (val_stmtFrom (v\<lparr>val_stmtFrom := map_Put mv_UniqueKey (val_stmtFrom v) a b,
      val_stmtTo := map_Put mv_UniqueKey (val_stmtTo v) b a\<rparr>)) x = Some y) = ((x, y) \<in> insert (a, b) M)"
    using v none(1)[of y] mF by (cases "x = a") (auto simp: mv_uk.get_put)
  show "mv_valid x \<and> mv_valid y \<Longrightarrow> (map_GetOk mv_UniqueKey (val_stmtTo (v\<lparr>val_stmtFrom := map_Put mv_UniqueKey (val_stmtFrom v) a b,
      val_stmtTo := map_Put mv_UniqueKey (val_stmtTo v) b a\<rparr>)) y = Some x) = ((x, y) \<in> insert (a, b) M)"
    using v none(2)[of x] mT by (cases "y = b") (auto simp: mv_uk.get_put)
  have vF: "mv_valid x \<Longrightarrow> map_GetOk mv_UniqueKey (val_stmtFrom v) x = Some y \<Longrightarrow> mv_valid y"
    and vT: "mv_valid y \<Longrightarrow> map_GetOk mv_UniqueKey (val_stmtTo v) y = Some x \<Longrightarrow> mv_valid x"
    using m unfolding maps_ok_def by blast+
  show "mv_valid x \<Longrightarrow> map_GetOk mv_UniqueKey (val_stmtFrom (v\<lparr>val_stmtFrom := map_Put mv_UniqueKey (val_stmtFrom v) a b,
      val_stmtTo := map_Put mv_UniqueKey (val_stmtTo v) b a\<rparr>)) x = Some y \<Longrightarrow> mv_valid y"
    using v vF by (cases "x = a") (auto simp: mv_uk.get_put)
  show "mv_valid y \<Longrightarrow> map_GetOk mv_UniqueKey (val_stmtTo (v\<lparr>val_stmtFrom := map_Put mv_UniqueKey (val_stmtFrom v) a b,
      val_stmtTo := map_Put mv_UniqueKey (val_stmtTo v) b a\<rparr>)) y = Some x \<Longrightarrow> mv_valid x"
    using v vT by (cases "y = b") (auto simp: mv_uk.get_put)
qed

lemma endpoints_spec:
  assumes v: "mv_valid a" "mv_valid b" and m: "maps_ok M v" "val_diags v = []"
  shows "if (\<forall>b'. (a, b') \<in> M \<longrightarrow> mv_valid b' \<longrightarrow> b' = b) \<and> (\<forall>a'. (a', b) \<in> M \<longrightarrow> mv_valid a' \<longrightarrow> a' = a)
    then val_diags (validate_endpoints a b v) = [] \<and> maps_ok (insert (a, b) M) (validate_endpoints a b v)
    else val_diags (validate_endpoints a b v) \<noteq> []"
proof -
  let ?F = "map_GetOk mv_UniqueKey (val_stmtFrom v) a" and ?T = "map_GetOk mv_UniqueKey (val_stmtTo v) b"
  have F: "?F = Some x \<longleftrightarrow> (a, x) \<in> M \<and> mv_valid x" and T: "?T = Some x \<longleftrightarrow> (x, b) \<in> M \<and> mv_valid x" for x
    using m(1) v unfolding maps_ok_def by blast+
  consider (bad) "(\<exists>x. ?F = Some x \<and> x \<noteq> b) \<or> (\<exists>x. ?T = Some x \<and> x \<noteq> a)"
    | (old) "?F = Some b" "?T = Some a" | (new) "?F = None" "?T = None"
    using F T v by (cases ?F; cases ?T) auto
  then show ?thesis
  proof cases
    case bad
    have vx: "?F = Some x \<Longrightarrow> mv_valid x" "?T = Some x \<Longrightarrow> mv_valid x" for x using F T by auto
    then have "val_diags (validate_endpoints a b v) \<noteq> []"
      using bad m(2) v by (cases ?F; cases ?T) (auto simp: validate_endpoints_def Let_def Equivalent_iff)
    moreover from bad have "(\<exists>x. ((a, x) \<in> M \<and> mv_valid x) \<and> x \<noteq> b) \<or> (\<exists>x. ((x, b) \<in> M \<and> mv_valid x) \<and> x \<noteq> a)"
      unfolding F T .
    ultimately show ?thesis by auto
  next
    case old
    have "validate_endpoints a b v = v" using old by (simp add: validate_endpoints_def Equivalent_def)
    moreover have "insert (a, b) M = M" using F[THEN iffD1, OF old(1)] by auto
    moreover have cond: "(\<forall>x. (a, x) \<in> M \<longrightarrow> mv_valid x \<longrightarrow> x = b) \<and> (\<forall>x. (x, b) \<in> M \<longrightarrow> mv_valid x \<longrightarrow> x = a)"
    proof (intro conjI allI impI)
      show "x = b" if "(a, x) \<in> M" "mv_valid x" for x using F[THEN iffD2, OF conjI[OF that]] old(1) by simp
      show "x = a" if "(x, b) \<in> M" "mv_valid x" for x using T[THEN iffD2, OF conjI[OF that]] old(2) by simp
    qed
    ultimately show ?thesis unfolding if_P[OF cond] using m by simp
  next
    case new
    then have eq: "validate_endpoints a b v = v\<lparr>val_stmtFrom := map_Put mv_UniqueKey (val_stmtFrom v) a b,
        val_stmtTo := map_Put mv_UniqueKey (val_stmtTo v) b a\<rparr>" by (simp add: validate_endpoints_def)
    have none: "(a, x) \<notin> M \<or> \<not> mv_valid x" "(x, b) \<notin> M \<or> \<not> mv_valid x" for x
      using new F[of x] T[of x] by simp_all
    then have cond: "(\<forall>x. (a, x) \<in> M \<longrightarrow> mv_valid x \<longrightarrow> x = b) \<and> (\<forall>x. (x, b) \<in> M \<longrightarrow> mv_valid x \<longrightarrow> x = a)" by blast
    have "maps_ok (insert (a, b) M) (validate_endpoints a b v)" unfolding eq by (rule maps_ok_put[OF v m(1) none])
    then show ?thesis unfolding if_P[OF cond] using m(2) by (simp add: eq)
  qed
qed

section \<open>The loops\<close>

definition all_valid :: "(AbsMoveable \<times> AbsMoveable) set \<Rightarrow> bool" where
  "all_valid M \<longleftrightarrow> (\<forall>(a, b) \<in> M. mv_valid a \<and> mv_valid b)"

text \<open>What the body of the loops does with a pair of absolute endpoints.\<close>

lemma instance_step:
  assumes "InModuleInstance (mvs_From stmt) m = Some a" "InModuleInstance (mvs_To stmt) m = Some b"
    and v: "mv_valid a" "mv_valid b" "all_valid M" and ex: "moveableObjectExists a e \<noteq> None" and root: "movableObjectDeclRange a cfg \<noteq> None"
    and c: "checked e M v"
  shows "\<exists>v'. validate_instance stmt cfg e m v = Some v' \<and> checked e (insert (a, b) M) v'"
proof -
  obtain known rng where k: "moveableObjectExists a e = Some known" "movableObjectDeclRange a cfg = Some rng" using ex root by auto
  let ?v = "if known then v\<lparr>val_diags := val_diags v @ [MovedObjectStillExists a rng b]\<rparr> else v"
  have eq: "validate_instance stmt cfg e m v =
      Some (if a = b then v\<lparr>val_diags := val_diags v @ [RedundantMove a]\<rparr> else validate_endpoints a b ?v)"
    using assms(1,2) k Equivalent_iff[OF v(1,2)] by (auto simp: validate_instance_def split: bool.split)
  have allv: "(a', b') \<in> M \<Longrightarrow> mv_valid a' \<and> mv_valid b'" for a' b' using v(3) by (auto simp: all_valid_def)
  let ?free = "(\<forall>b'. (a, b') \<in> M \<longrightarrow> mv_valid b' \<longrightarrow> b' = b) \<and> (\<forall>a'. (a', b) \<in> M \<longrightarrow> mv_valid a' \<longrightarrow> a' = a)"
  have good: "good_moves e (insert (a, b) M) \<longleftrightarrow> good_moves e M \<and> a \<noteq> b \<and> \<not> known \<and> ?free"
    unfolding good_moves_insert using allv k(1) by auto
  show ?thesis
  proof (cases "good_moves e M \<and> a \<noteq> b \<and> \<not> known")
    case True
    then have "val_diags v = []" "maps_ok M v" using c by (simp_all add: checked_def)
    note es = endpoints_spec[OF v(1,2) this(2,1)]
    from True have eq': "validate_instance stmt cfg e m v = Some (validate_endpoints a b v)" using eq by simp
    show ?thesis
    proof (cases ?free)
      case free: True
      have g: "good_moves e (insert (a, b) M)" unfolding good using True free by blast
      from es[unfolded if_P[OF free]] show ?thesis unfolding eq' checked_def if_P[OF g] by blast
    next
      case clash: False
      have g: "\<not> good_moves e (insert (a, b) M)" unfolding good using clash by blast
      from es[unfolded if_not_P[OF clash]] show ?thesis unfolding eq' checked_def if_not_P[OF g] by blast
    qed
  next
    case False
    then have "val_diags (if a = b then v\<lparr>val_diags := val_diags v @ [RedundantMove a]\<rparr> else validate_endpoints a b ?v) \<noteq> []"
      using c by (auto simp: checked_def intro!: endpoints_diags split: if_splits)
    with False show ?thesis unfolding eq checked_def good by auto
  qed
qed

text \<open>The moves a statement declares in module instances.\<close>

definition stmt_moves :: "MoveStatement \<Rightarrow> ModuleInstance set \<Rightarrow> (AbsMoveable \<times> AbsMoveable) set" where
  "stmt_moves stmt ms = {(a, b). \<exists>m \<in> ms. InModuleInstance (mvs_From stmt) m = Some a \<and> InModuleInstance (mvs_To stmt) m = Some b}"

definition stmt_wf :: "MoveStatement \<Rightarrow> bool" where
  "stmt_wf stmt \<longleftrightarrow> unified (mvs_From stmt) (mvs_To stmt) \<and> mv_valid (mm_relSubject (mvs_From stmt)) \<and>
     mv_valid (mm_relSubject (mvs_To stmt)) \<and> \<not> names_root (mvs_From stmt)"

lemma InModule_valid:
  "mi_valid m \<Longrightarrow> mv_valid (mm_relSubject x) \<Longrightarrow> InModuleInstance x m = Some a \<Longrightarrow> mv_valid a"
  by (cases "mm_relSubject x")
    (auto simp: call_Absolute_def ri_Absolute_def res_Absolute_def ar_valid_def ari_valid_def split: if_splits)

lemma InModule_total: "InModuleInstance x m \<noteq> None \<longleftrightarrow> length m = length (mm_module x)"
  by simp

lemma InModule_nonroot: "\<not> names_root x \<Longrightarrow> InModuleInstance x m = Some a \<Longrightarrow> a \<noteq> MvModuleInstance []"
  by (cases "mm_relSubject x") (auto simp: names_root_def split: if_splits)

lemma exists_total: "em_wf e \<Longrightarrow> moveableObjectExists a e \<noteq> None"
proof (cases a)
  case (MvResourceInstance r)
  assume wf: "em_wf e"
  have "exp_ok exp" if "getModuleInstance e (ari_Module r) = Some md" "gmap_get (em_resources md) (ri_Resource (ari_Resource r)) = Some exp" for md exp
    using em_wf_node[OF em_wf_get[OF wf that(1)]] that(2) by (auto simp: node_ok_def)
  then show ?thesis using MvResourceInstance keys_of_ok(1) by (auto simp: knowsResourceInstance_def split: option.split)
qed simp_all

lemma range_total: "a \<noteq> MvModuleInstance [] \<Longrightarrow> movableObjectDeclRange a cfg \<noteq> None"
  by (cases a) (auto simp: mi_Call_def split: option.split)

lemma instances_loop:
  assumes wf: "em_wf e" and st: "stmt_wf stmt" and ms: "\<forall>m \<in> set ms. mi_valid m \<and> mi_Module m = mm_module (mvs_From stmt)"
  shows "all_valid M \<Longrightarrow> checked e M v \<Longrightarrow>
    \<exists>v'. fold_opt (validate_instance stmt cfg e) ms v = Some v' \<and> checked e (M \<union> stmt_moves stmt (set ms)) v' \<and>
      all_valid (M \<union> stmt_moves stmt (set ms))"
  using ms
proof (induction ms arbitrary: M v)
  case Nil
  then show ?case by (simp add: stmt_moves_def)
next
  case (Cons m ms)
  have m: "mi_valid m" "length m = length (mm_module (mvs_From stmt))"
    using Cons.prems(3) mi_Module_length[of m "mm_module (mvs_From stmt)"] by simp_all
  have "mm_module (mvs_To stmt) = mm_module (mvs_From stmt)" using st by (simp add: stmt_wf_def unified_def)
  then obtain a b where ab: "InModuleInstance (mvs_From stmt) m = Some a" "InModuleInstance (mvs_To stmt) m = Some b"
    using m(2) InModule_total[of "mvs_From stmt" m] InModule_total[of "mvs_To stmt" m] by auto
  have v: "mv_valid a" "mv_valid b" using ab m(1) st InModule_valid by (auto simp: stmt_wf_def)
  have "movableObjectDeclRange a cfg \<noteq> None" by (rule range_total, rule InModule_nonroot[OF _ ab(1)]) (use st in \<open>simp add: stmt_wf_def\<close>)
  from instance_step[OF ab v Cons.prems(1) exists_total[OF wf] this Cons.prems(2)] obtain v' where
    v': "validate_instance stmt cfg e m v = Some v'" "checked e (insert (a, b) M) v'" by blast
  have "all_valid (insert (a, b) M)" using Cons.prems(1) v by (simp add: all_valid_def)
  from Cons.IH[OF this v'(2)] Cons.prems(3) v'(1) obtain v'' where
    v'': "fold_opt (validate_instance stmt cfg e) (m # ms) v = Some v''" "checked e (insert (a, b) M \<union> stmt_moves stmt (set ms)) v''"
      "all_valid (insert (a, b) M \<union> stmt_moves stmt (set ms))" by auto
  have "insert (a, b) M \<union> stmt_moves stmt (set ms) = M \<union> stmt_moves stmt (set (m # ms))" using ab by (auto simp: stmt_moves_def)
  with v'' show ?case by auto
qed

text \<open>The instances a statement applies to.\<close>

definition declared_in :: "'x expanderModule \<Rightarrow> MoveStatement \<Rightarrow> ModuleInstance set" where
  "declared_in e stmt = {m. mi_Module m = mm_module (mvs_From stmt) \<and> knowsModuleInstance e m}"

lemma statement_step:
  assumes wf: "em_wf e" and st: "stmt_wf stmt" "\<forall>m \<in> declared_in e stmt. mi_valid m" and M: "all_valid M" "checked e M v"
  shows "\<exists>v'. validate_statement cfg e stmt v = Some v' \<and> checked e (M \<union> stmt_moves stmt (declared_in e stmt)) v' \<and>
    all_valid (M \<union> stmt_moves stmt (declared_in e stmt))"
proof -
  have tr: "\<exists>calls. ModuleCallTraversals (mvs_From stmt) = Some (mm_module (mvs_From stmt), calls)"
    using st(1) by (cases "mm_relSubject (mvs_From stmt)") (auto simp: ModuleCallTraversals_def stmt_wf_def names_root_def)
  from expandModule_spec[OF wf, where addr = "mm_module (mvs_From stmt)" and sk = True] obtain ms where
    ms: "InstancesForModule e (mm_module (mvs_From stmt)) = Some ms" "set ms = declared_in e stmt"
    by (auto simp: InstancesForModule_def declared_in_def known_of_def knows_iff split: option.splits)
  have "\<forall>m \<in> set ms. mi_valid m \<and> mi_Module m = mm_module (mvs_From stmt)" using st(2) ms(2) by (auto simp: declared_in_def)
  from instances_loop[OF wf st(1) this M] tr ms show ?thesis by (auto simp: validate_statement_def)
qed

definition declared_moves :: "'x expanderModule \<Rightarrow> MoveStatement list \<Rightarrow> (AbsMoveable \<times> AbsMoveable) set" where
  "declared_moves e stmts = (\<Union>stmt \<in> set stmts. stmt_moves stmt (declared_in e stmt))"

lemma statements_loop:
  assumes wf: "em_wf e"
  shows "\<forall>stmt \<in> set stmts. stmt_wf stmt \<and> (\<forall>m \<in> declared_in e stmt. mi_valid m) \<Longrightarrow> all_valid M \<Longrightarrow> checked e M v \<Longrightarrow>
    \<exists>v'. fold_opt (validate_statement cfg e) stmts v = Some v' \<and> checked e (M \<union> declared_moves e stmts) v'"
proof (induction stmts arbitrary: M v)
  case (Cons st stmts)
  from statement_step[OF wf _ _ Cons.prems(2,3), of st cfg] Cons.prems(1) obtain v' where
    v': "validate_statement cfg e st v = Some v'" "checked e (M \<union> stmt_moves st (declared_in e st)) v'"
      "all_valid (M \<union> stmt_moves st (declared_in e st))" by auto
  from Cons.IH[OF _ v'(3,2)] Cons.prems(1) v'(1) show ?case by (auto simp: declared_moves_def Un_assoc)
qed (simp add: declared_moves_def)

section \<open>Properties\<close>

text \<open>
  C7: \<^verbatim>\<open>ValidateMoves\<close> never panics, and it reports no error exactly when the concrete moves that
  the statements declare, in all declared instances of the modules they are written in, follow
  the rules: no object moves to its own address, no object that is still declared moves, no object
  moves to two places, no two objects move to the same place; and the statements do not depend on
  one another in a cycle.
\<close>
theorem ValidateMoves_ok_iff:
  assumes "em_wf e" "\<forall>stmt \<in> set stmts. stmt_wf stmt \<and> (\<forall>m \<in> declared_in e stmt. mi_valid m)"
  shows "\<exists>errs. ValidateMoves stmts cfg e = Some errs \<and>
    (errs = [] \<longleftrightarrow>
      (\<forall>(a, b) \<in> declared_moves e stmts. a \<noteq> b \<and> moveableObjectExists a e = Some False) \<and>
      single_valued (declared_moves e stmts) \<and> single_valued ((declared_moves e stmts)\<inverse>) \<and>
      acyclic {(i, j). i < length stmts \<and> j < length stmts \<and> i \<noteq> j \<and> statementDependsOn (stmts ! i) (stmts ! j) = Some True})"
proof (cases "stmts = []")
  case True
  then show ?thesis by (simp add: ValidateMoves_def declared_moves_def acyclic_def single_valued_def)
next
  case False
  have u: "stmts_unified stmts" using assms(2) by (auto simp: stmts_unified_def stmt_wf_def list_all_iff)
  from buildMoveStatementGraph_spec[OF u] obtain g where
    g: "buildMoveStatementGraph stmts = Some g" "graph_wf stmt_hash g" "vertex_set g = {..<length stmts}" "edge_rel g = depends stmts" by blast
  have "graph_closed g" by (auto simp: graph_closed_def g depends_def)
  from validateMoveStatementGraph_spec[OF g(2) this] g(4) obtain errs where
    errs: "validateMoveStatementGraph g = Some errs" "errs = [] \<longleftrightarrow> acyclic (depends stmts)" by auto
  let ?v0 = "\<lparr>val_diags = [], val_stmtFrom = [], val_stmtTo = []\<rparr>"
  have "checked e {} ?v0" by (simp add: checked_def good_moves_def maps_ok_def map_GetOk_def single_valued_def)
  from statements_loop[OF assms(1,2) _ this, where cfg = cfg] obtain v where
    v: "fold_opt (validate_statement cfg e) stmts ?v0 = Some v" "checked e (declared_moves e stmts) v" by (auto simp: all_valid_def)
  have "\<exists>errs. ValidateMoves stmts cfg e = Some errs \<and> (errs = [] \<longleftrightarrow> good_moves e (declared_moves e stmts) \<and> acyclic (depends stmts))"
    using False g(1) v errs by (cases "good_moves e (declared_moves e stmts)") (auto simp: ValidateMoves_def checked_def)
  then show ?thesis unfolding good_moves_def depends_def by (simp add: conj_assoc)
qed

definition cfg0 :: "unit Config" where
  "cfg0 = Config [] \<lparr>mdc_Variables = [], mdc_Outputs = [], mdc_ModuleCalls = [], mdc_ManagedResources = [], mdc_DataResources = [], mdc_EphemeralResources = [],
     mdc_Moved = [], mdc_Removed = [], mdc_Checks = []\<rparr> []"

theorem ValidateMoves_ok_iff_witness: "ValidateMoves [w_stmt ''a'' ''b''] cfg0 expander0 = Some []"
proof -
  let ?st = "w_stmt ''a'' ''b''"
  have d: "declared_in expander0 ?st = {[]}"
    by (auto simp: declared_in_def w_stmt_def knowsModuleInstance_def mi_IsRoot_def)
  have i: "InModuleInstance (mvs_From ?st) [] = Some (MvResource (w_res ''a''))" "InModuleInstance (mvs_To ?st) [] = Some (MvResource (w_res ''b''))"
    by (simp_all add: w_stmt_def res_Absolute_def w_res_def)
  have m: "declared_moves expander0 [?st] = {(MvResource (w_res ''a''), MvResource (w_res ''b''))}"
    unfolding declared_moves_def stmt_moves_def by (auto simp: d i simp del: InModuleInstance.simps)
  have "stmt_wf ?st \<and> (\<forall>m \<in> declared_in expander0 ?st. mi_valid m)" unfolding d
    by (simp add: stmt_wf_def names_root_def unified_def w_stmt_def w_res_def ar_valid_def res_valid_def valid_name_def mi_valid_def)
  moreover have "moveableObjectExists (MvResource (w_res ''a'')) expander0 = Some False"
    by (simp add: knowsResource_def w_res_def expander0_def)
  moreover have z: "{(i, j). i < length [?st] \<and> j < length [?st] \<and> i \<noteq> j \<and> statementDependsOn ([?st] ! i) ([?st] ! j) = Some True} = {}" by auto
  ultimately show ?thesis
    using ValidateMoves_ok_iff[OF expander0_wf, of "[?st]" cfg0] unfolding m z
    by (simp add: single_valued_def acyclic_def w_res_def)
qed

end
