(* ===== verification/Refactor_Implied.thy ===== *)
theory Refactor_Implied
  imports Refactor_Config Refactor_Props
begin

text \<open>
  The moves implied by adding or removing \<^verbatim>\<open>count\<close>, and the statements found in a configuration, are
  fit for execution.
\<close>

section \<open>The shape of an implied move\<close>

definition implied_resource :: "('p, 'v, 'm, 'c) State \<Rightarrow> MoveStatement list \<Rightarrow> MoveStatement \<Rightarrow> InstanceKey \<Rightarrow> InstanceKey \<Rightarrow> bool" where
  "implied_resource s explicit st k k' \<longleftrightarrow> (\<exists>r.
     mm_relSubject (mvs_From st) = MvResourceInstance (ar_Instance r k) \<and> mm_relSubject (mvs_To st) = MvResourceInstance (ar_Instance r k') \<and>
     st_ResourceInstance s (ar_Instance r k) \<noteq> None \<and> \<not> haveMoveStatementForResource r explicit)"

definition implied_module :: "('p, 'v, 'm, 'c) State \<Rightarrow> MoveStatement list \<Rightarrow> MoveStatement \<Rightarrow> InstanceKey \<Rightarrow> InstanceKey \<Rightarrow> bool" where
  "implied_module s explicit st k k' \<longleftrightarrow> (\<exists>c.
     mm_relSubject (mvs_From st) = MvModuleInstance (amc_Instance c k) \<and> mm_relSubject (mvs_To st) = MvModuleInstance (amc_Instance c k') \<and>
     st_Module s (amc_Instance c k) \<noteq> None \<and> \<not> haveMoveStatementForModule (amc_Instance c k) explicit)"

definition implied_ok :: "('p, 'v, 'm, 'c) State \<Rightarrow> MoveStatement list \<Rightarrow> MoveStatement \<Rightarrow> bool" where
  "implied_ok s explicit st \<longleftrightarrow> stmt_ok st \<and> mvs_Implied st \<and>
     (\<exists>k k'. {k, k'} = {NoKey, IntKey 0} \<and> (implied_resource s explicit st k k' \<or> implied_module s explicit st k k'))"

lemma implied_unified: "unified (ImpliedMoveStatementEndpoint a rng) (ImpliedMoveStatementEndpoint b rng) \<longleftrightarrow> mv_type a = mv_type b"
  by (simp add: unified_type ImpliedMoveStatementEndpoint_def)

section \<open>Module calls\<close>

lemma amc_Instance_collapse:
  "m \<noteq> [] \<Longrightarrow> amc_Instance \<lparr>amc_Module = butlast m, amc_Call = \<lparr>call_Name = step_Name (last m)\<rparr>\<rparr> (step_InstanceKey (last m)) = m"
  using append_butlast_last_id[of m] by (cases "last m") (simp add: amc_Instance_def)

lemma implied_for_instances_ok:
  assumes "toKey \<in> {NoKey, IntKey 0}" "\<forall>m \<in> set ms. m \<noteq> [] \<and> mi_valid m \<and> st_Module s m \<noteq> None"
  shows "\<exists>l. implied_for_instances toKey rng explicit ms = Some l \<and> (\<forall>st \<in> set l. implied_ok s explicit st)"
  using assms(2)
proof (induction ms)
  case (Cons m ms)
  then obtain l where l: "implied_for_instances toKey rng explicit ms = Some l" "\<forall>st \<in> set l. implied_ok s explicit st" by auto
  have m: "m \<noteq> []" "mi_valid m" "st_Module s m \<noteq> None" using Cons.prems by auto
  let ?c = "\<lparr>amc_Module = butlast m, amc_Call = \<lparr>call_Name = step_Name (last m)\<rparr>\<rparr>" and ?k = "step_InstanceKey (last m)"
  let ?st = "implied_statement (MvModuleInstance (amc_Instance ?c ?k)) (MvModuleInstance (amc_Instance ?c toKey)) rng"
  let ?new = "(?k = NoKey \<or> ?k = IntKey 0) \<and> ?k \<noteq> toKey \<and> \<not> haveMoveStatementForModule m explicit"
  have eq: "implied_for_instances toKey rng explicit (m # ms) = Some (if ?new then ?st # l else l)"
    using m(1) l(1) by (auto simp: mi_CallInstance_def mi_IsRoot_def Let_def)
  have "implied_ok s explicit ?st" if new: ?new
  proof -
    have "m = butlast m @ [last m]" using m(1) by simp
    then have "mi_valid (butlast m)" "valid_name (step_Name (last m))"
      using m(2) by (metis mi_valid_append) (metis m(1,2) last_in_set list_all_iff mi_valid_def)
    then have "mi_valid (amc_Instance ?c toKey)"
      using assms(1) by (simp add: amc_Instance_def) (auto simp: mi_valid_def)
    then have "stmt_ok ?st"
      by (simp add: stmt_ok_def implied_statement_def implied_unified) (simp add: ImpliedMoveStatementEndpoint_def)
    moreover have "implied_module s explicit ?st ?k toKey"
      unfolding implied_module_def using m(3) new amc_Instance_collapse[OF m(1)]
      by (intro exI[of _ ?c]) (simp add: implied_statement_def ImpliedMoveStatementEndpoint_def)
    moreover have "{?k, toKey} = {NoKey, IntKey 0}" using new assms(1) by auto
    ultimately show ?thesis unfolding implied_ok_def by (auto simp: implied_statement_def)
  qed
  with l eq show ?case by auto
qed simp

lemma ModuleInstances_addr:
  assumes "st_wf s"
  shows "\<forall>m \<in> set (map ms_Addr (st_ModuleInstances s addr)). mi_Module m = addr \<and> mi_valid m \<and> st_Module s m \<noteq> None"
proof
  fix m assume "m \<in> set (map ms_Addr (st_ModuleInstances s addr))"
  then obtain e where e: "e \<in> set (st_Modules s)" "m = ms_Addr (snd e)" "mi_Module m = addr"
    by (auto simp: st_ModuleInstances_def IsForModule_iff)
  with st_Modules_iff[OF assms, of e] show "mi_Module m = addr \<and> mi_valid m \<and> st_Module s m \<noteq> None" by simp
qed

lemma impliedForModules_ok:
  assumes "st_wf s"
  shows "\<exists>l. impliedMoveStatementsForModules s cfg n c explicit = Some l \<and> (\<forall>st \<in> set l. implied_ok s explicit st)"
proof -
  let ?ms = "map ms_Addr (st_ModuleInstances s (mod_Child (cfg_Path cfg) n))"
  have "\<forall>m \<in> set ?ms. m \<noteq> [] \<and> mi_valid m \<and> st_Module s m \<noteq> None"
    using ModuleInstances_addr[OF assms, of "mod_Child (cfg_Path cfg) n"] by (auto simp: mod_Child_def mi_Module_def)
  from implied_for_instances_ok[OF _ this] show ?thesis
    by (auto simp: impliedMoveStatementsForModules_def split: option.split)
qed

lemma implied_for_calls_ok:
  assumes "st_wf s"
  shows "\<exists>l. implied_for_calls s cfg explicit cs = Some l \<and> (\<forall>st \<in> set l. implied_ok s explicit st)"
proof (induction cs)
  case (Cons c cs)
  obtain n cc where c: "c = (n, cc)" by (cases c)
  from impliedForModules_ok[OF assms, of cfg n cc explicit] Cons show ?case by (auto simp: c)
qed simp

section \<open>Resources\<close>

lemma implied_for_resource_ok:
  assumes "st_wf s" "ms \<in> set (st_ModuleInstances s addr)" "e \<in> set (ms_Resources ms)" "st \<in> set (implied_for_resource cfg explicit (snd e))"
  shows "implied_ok s explicit st"
proof -
  let ?rs = "snd e" let ?r = "rs_Addr ?rs"
  obtain x where x: "x \<in> set (st_Modules s)" "ms = snd x" using assms(2) by (auto simp: st_ModuleInstances_def)
  have ms: "mi_valid (ms_Addr ms)" "st_Module s (ms_Addr ms) = Some ms" using st_Modules_iff[OF assms(1), of x] x by auto
  have wf: "ms_wf ms" by (rule st_Module_wf(1)[OF assms(1) ms])
  have rs: "rs_wf (ms_Addr ms) (ar_Resource ?r) ?rs" using wf assms(3) by (auto simp: ms_wf_def)
  have m: "ar_Module ?r = ms_Addr ms" using rs by (simp add: rs_wf_def res_Absolute_def) (metis AbsResource.select_convs(1))
  then have r: "ar_valid ?r" "st_Resource s ?r = Some ?rs"
    using ms ms_Resources_iff[OF wf, of e] assms(3) by (auto simp: ar_valid_def st_Resource_def)
  obtain k k' rng where st: "st = implied_statement (MvResourceInstance (ar_Instance ?r k)) (MvResourceInstance (ar_Instance ?r k')) rng"
    and k: "{k, k'} = {NoKey, IntKey 0}" "gmap_get (rs_Instances ?rs) k \<noteq> None" and h: "\<not> haveMoveStatementForResource ?r explicit"
    using assms(4) unfolding implied_for_resource_def Let_def
    by (auto split: option.splits if_splits prod.splits)
  have "\<not> IsPlaceholder k'" using k(1) by (auto simp: doubleton_eq_iff)
  then have "stmt_ok st"
    using r(1) by (simp add: st stmt_ok_def implied_statement_def implied_unified) (simp add: ImpliedMoveStatementEndpoint_def ar_Instance_valid)
  moreover have "implied_resource s explicit st k k'"
    unfolding implied_resource_def using k(2) h r(2)
    by (intro exI[of _ ?r]) (simp add: st implied_statement_def ImpliedMoveStatementEndpoint_def st_ResourceInstance_resource)
  ultimately show ?thesis using k(1) by (auto simp: implied_ok_def st implied_statement_def)
qed

lemma implied_recursion:
  fixes cfg :: "'pv Config" and cs :: "(string \<times> 'pv Config) list" and s :: "('p, 'v, 'm, 'c) State"
  shows "st_wf s \<Longrightarrow> \<exists>l. ImpliedMoveStatements cfg s explicit = Some l \<and> (\<forall>st \<in> set l. implied_ok s explicit st)"
    and "st_wf s \<Longrightarrow> \<exists>l. implied_children cs s explicit = Some l \<and> (\<forall>st \<in> set l. implied_ok s explicit st)"
proof (induction cfg s explicit and cs s explicit rule: ImpliedMoveStatements_implied_children.induct)
  case (1 path md children s explicit)
  let ?cfg = "Config path md children"
  obtain l1 where l1: "implied_for_calls s ?cfg explicit (mdc_ModuleCalls md) = Some l1" "\<forall>st \<in> set l1. implied_ok s explicit st"
    using implied_for_calls_ok[OF "1.prems"] by blast
  obtain l2 where l2: "implied_children children s explicit = Some l2" "\<forall>st \<in> set l2. implied_ok s explicit st"
    using "1.IH"[OF l1(1) "1.prems"] by blast
  have "implied_ok s explicit st"
    if "ms \<in> set (st_ModuleInstances s path)" "st \<in> set (impliedMoveStatementsForModuleResources ?cfg ms explicit)" for ms st
    using that implied_for_resource_ok[OF "1.prems" that(1)] by (auto simp: impliedMoveStatementsForModuleResources_def)
  with l1 l2 show ?case by auto
next
  case (3 n childCfg rest s explicit)
  from "3.IH"(1)[OF "3.prems"] obtain l1 where
    l1: "ImpliedMoveStatements childCfg s explicit = Some l1" "\<forall>st \<in> set l1. implied_ok s explicit st" by blast
  from "3.IH"(2)[OF l1(1) "3.prems"] l1 show ?case by auto
qed simp

section \<open>Statements found in the configuration\<close>

lemma add_moved_unified:
  "add_moved md mcs into = Some l \<Longrightarrow> stmts_unified into \<Longrightarrow> stmts_unified l"
proof (induction mcs arbitrary: into)
  case (Cons mc mcs)
  then obtain f t where ft: "UnifyMoveEndpoints md (mov_From mc) (mov_To mc) = Some (Some (f, t))"
    by (auto split: option.splits)
  from Cons.IH[of "into @ [\<lparr>mvs_From = f, mvs_To = t, mvs_DeclRange = mov_DeclRange mc, mvs_Implied = False\<rparr>]"] Cons.prems ft
  show ?case using Unify_unified[OF ft] by (simp add: stmts_unified_def)
qed simp

lemma findMove_unified:
  fixes cfg :: "'pv Config" and cs :: "(string \<times> 'pv Config) list"
  shows "findMoveStatements cfg into = Some l \<Longrightarrow> stmts_unified into \<Longrightarrow> stmts_unified l"
    and "findMove_children cs into = Some l \<Longrightarrow> stmts_unified into \<Longrightarrow> stmts_unified l"
  by (induction cfg into and cs into arbitrary: l and l rule: findMoveStatements_findMove_children.induct)
    (auto split: option.splits dest: add_moved_unified)

lemma FindMoveStatements_ok:
  assumes "FindMoveStatements cfg = Some l" "\<forall>st \<in> set l. mv_valid (mm_relSubject (mvs_To st))"
  shows "list_all stmt_ok l"
  using findMove_unified(1)[of cfg "[]" l] assms
  by (auto simp: FindMoveStatements_def stmts_unified_def stmt_ok_def list_all_iff)

section \<open>Properties\<close>

text \<open>
  C6: When every \<^verbatim>\<open>moved\<close> block of the configuration unifies, finding and applying the moves before
  planning does not panic.  The moves it adds of its own only switch between no key and the key 0, of
  a resource or module instance that is in the state and for which no block is written; and no
  object of the state is lost, duplicated or changed.
\<close>
theorem prePlanFindAndApplyMoves_safe:
  assumes "st_wf s" "FindMoveStatements cfg = Some explicit" "\<forall>st \<in> set explicit. mv_valid (mm_relSubject (mvs_To st))"
  shows "\<exists>implied s' R. prePlanFindAndApplyMoves vis cfg s = Some (explicit @ implied, s', R) \<and>
    (\<forall>st \<in> set implied. mvs_Implied st \<and> (\<exists>k k'. {k, k'} = {NoKey, IntKey 0} \<and>
       (implied_resource s explicit st k k' \<or> implied_module s explicit st k k'))) \<and>
    st_wf s' \<and> bij_betw (OldAddr R) (live s') (live s) \<and> (\<forall>b \<in> live s'. \<forall>gen. st_obj s' b gen = st_obj s (OldAddr R b) gen)"
proof -
  from implied_recursion(1)[OF assms(1)] obtain l where
    l: "ImpliedMoveStatements cfg s explicit = Some l" "\<forall>st \<in> set l. implied_ok s explicit st" by blast
  have "list_all stmt_ok (explicit @ l)"
    using FindMoveStatements_ok[OF assms(2,3)] l(2) by (auto simp: implied_ok_def list_all_iff)
  from ApplyMoves_tracked[OF assms(1) this, of vis] obtain s' R where
    a: "ApplyMoves vis (explicit @ l) s = Some (s', R)" "tracked s s' R" by blast
  have "prePlanFindAndApplyMoves vis cfg s = Some (explicit @ l, s', R)"
    using assms(2) l(1) a(1) by (simp add: prePlanFindAndApplyMoves_def)
  with a(2) l(2) show ?thesis unfolding tracked_def implied_ok_def
    by (intro exI[of _ l] exI[of _ s'] exI[of _ R]) simp
qed

text \<open>A configuration with one \<^verbatim>\<open>moved\<close> block.\<close>

definition w_cfg :: "unit Config" where
  "w_cfg = Config [] \<lparr>mdc_Variables = [], mdc_Outputs = [], mdc_ModuleCalls = [], mdc_ManagedResources = [], mdc_DataResources = [], mdc_EphemeralResources = [],
     mdc_Moved = [\<lparr>mov_From = \<lparr>me_SourceRange = w_rng, me_relSubject = MvResourceInstance (ar_Instance (w_res ''a'') NoKey)\<rparr>,
       mov_To = \<lparr>me_SourceRange = w_rng, me_relSubject = MvResourceInstance (ar_Instance (w_res ''b'') NoKey)\<rparr>, mov_DeclRange = w_rng\<rparr>],
     mdc_Removed = [], mdc_Checks = []\<rparr> []"

lemma w_cfg_moves: "FindMoveStatements w_cfg = Some [w_stmt ''a'' ''b'']"
  by (simp add: FindMoveStatements_def w_cfg_def w_stmt_def w_res_def UnifyMoveEndpoints_def internalAddrType_def
      prepareMoveEndpointInModule_def ar_Instance_def ari_ContainingResource_def res_Instance_def)

theorem prePlanFindAndApplyMoves_safe_witness:
  "\<exists>implied s R b. prePlanFindAndApplyMoves (\<lambda>_. []) w_cfg state0 = Some (w_stmt ''a'' ''b'' # implied, s, R) \<and>
    OldAddr R b = web (IntKey 0) \<and> st_obj s b CurrentGen = Some (obj0 ObjectReady)"
proof -
  have v: "\<forall>st \<in> set [w_stmt ''a'' ''b'']. mv_valid (mm_relSubject (mvs_To st))"
    by (simp add: w_stmt_def w_res_def ar_valid_def mi_valid_def res_valid_def valid_name_def)
  from prePlanFindAndApplyMoves_safe[OF state0_wf w_cfg_moves v, of "\<lambda>_. []"] obtain implied s R where
    r: "prePlanFindAndApplyMoves (\<lambda>_. []) w_cfg state0 = Some (w_stmt ''a'' ''b'' # implied, s, R)" "bij_betw (OldAddr R) (live s) (live state0)"
      "\<forall>b \<in> live s. \<forall>gen. st_obj s b gen = st_obj state0 (OldAddr R b) gen" by auto
  have "web (IntKey 0) \<in> live state0" by (simp add: live_def state0_obj web_facts)
  with r(2) obtain b where b: "b \<in> live s" "OldAddr R b = web (IntKey 0)" by (metis bij_betw_imp_surj_on imageE)
  with r(3) have "st_obj s b CurrentGen = Some (obj0 ObjectReady)" by (simp add: state0_obj web_facts)
  with r(1) b(2) show ?thesis by blast
qed

section \<open>Moves and targeting\<close>

lemma whole_resources_set:
  assumes "p \<notin> ari_ContainingResource ` set l"
  shows "set (whole_resources p l) = ari_ContainingResource ` set l"
proof -
  have "insert p (set (whole_resources p l)) = insert p (ari_ContainingResource ` set l) \<and>
      (p \<notin> ari_ContainingResource ` set l \<longrightarrow> p \<notin> set (whole_resources p l))" for p
  proof (induction l arbitrary: p)
    case (Cons a l)
    then show ?case using Cons.IH[of "ari_ContainingResource a"]
      by (cases "ari_ContainingResource a = p") (auto simp: Let_def ar_Equal_iff)
  qed simp
  note p = this[of p]
  show ?thesis by (rule iffD1[OF insert_ident conjunct1[OF p]]) (use assms p in auto)
qed

lemma report_excluded_spec:
  assumes "\<forall>a \<in> set l. ari_valid a \<and> ari_real a"
  shows "\<exists>errs. report_excluded l = Some errs \<and> set errs = ari_ContainingResource ` set l"
proof -
  have "zeroAbsResource \<noteq> ari_ContainingResource a" if "ari_valid a" for a
    using that by (cases "ri_Resource (ari_Resource a)") (auto simp: zeroAbsResource_def ari_ContainingResource_def ari_valid_def res_valid_def valid_name_def)
  then have z: "zeroAbsResource \<notin> ari_ContainingResource ` set l" using assms by blast
  have "\<not> list_ex (\<lambda>x. list_ex (\<lambda>y. ari_Less x y = None) l) l" using assms ari.total by (force simp: list_ex_iff)
  then have "sort_SliceStable ari_Less l = Some (sort_Stable (\<lambda>x y. ari_Less x y = Some True) l)"
    by (simp add: sort_SliceStable_def)
  then show ?thesis using whole_resources_set[of zeroAbsResource "sort_Stable (\<lambda>x y. ari_Less x y = Some True) l"] z
    by (simp add: report_excluded_def)
qed

definition moved_addrs :: "MoveResults \<Rightarrow> AbsResourceInstance set" where
  "moved_addrs R = succ_From ` set (map_Values (mvr_Changes R)) \<union> succ_To ` set (map_Values (mvr_Changes R))"

text \<open>
  The check of moves against \<^verbatim>\<open>-target\<close> and \<^verbatim>\<open>-exclude\<close> does not panic, and the resources it reports are
  those with an instance that moved, as its old or its new address, and which no target contains, or,
  without targets, which an excluded address contains.
\<close>
theorem prePlanVerifyTargetedMoves_reports:
  assumes "\<forall>a \<in> moved_addrs R. ari_valid a \<and> ari_real a"
  shows "\<exists>errs. prePlanVerifyTargetedMoves R targets excludes = Some errs \<and>
    set errs = ari_ContainingResource ` {a \<in> moved_addrs R.
      if targets \<noteq> [] then \<forall>t \<in> set targets. \<not> TargetContains t (TAbsResourceInstance a)
      else \<exists>t \<in> set excludes. TargetContains t (TAbsResourceInstance a)}"
proof -
  have P: "\<exists>errs. report_excluded (concat (map (\<lambda>r. (if P (succ_From r) then [succ_From r] else []) @ (if P (succ_To r) then [succ_To r] else []))
      (map_Values (mvr_Changes R)))) = Some errs \<and> set errs = ari_ContainingResource ` {a \<in> moved_addrs R. P a}" for P
  proof -
    let ?l = "concat (map (\<lambda>r. (if P (succ_From r) then [succ_From r] else []) @ (if P (succ_To r) then [succ_To r] else []))
      (map_Values (mvr_Changes R)))"
    have "set ?l = {a \<in> moved_addrs R. P a}" by (auto simp: moved_addrs_def split: if_splits)
    then show ?thesis using report_excluded_spec[of ?l] assms by (simp only: mem_Collect_eq) blast
  qed
  show ?thesis
  proof (cases "targets = []")
    case True
    with P[of "target_matches excludes"] show ?thesis
      by (auto simp: prePlanVerifyTargetedMoves_def prePlanVerifyMovesWithExcludeFlag_def target_matches_def list_ex_iff)
  next
    case False
    with P[of "\<lambda>a. \<not> target_matches targets a"] show ?thesis
      by (simp add: prePlanVerifyTargetedMoves_def prePlanVerifyMovesWithTargetFlag_def target_matches_def list_ex_iff)
  qed
qed

definition w_results :: MoveResults where
  "w_results = \<lparr>mvr_Changes = MakeMap ari_String [(web (IntKey 1), \<lparr>succ_From = web (IntKey 0), succ_To = web (IntKey 1)\<rparr>)],
     mvr_Blocked = []\<rparr>"

theorem prePlanVerifyTargetedMoves_reports_witness:
  "\<exists>errs. prePlanVerifyTargetedMoves w_results [TModule [''b'']] [] = Some errs \<and> set errs = {ari_ContainingResource (web (IntKey 0))}"
proof -
  have m: "moved_addrs w_results = {web (IntKey 0), web (IntKey 1)}"
    by (auto simp: moved_addrs_def w_results_def MakeMap_def map_Values_def map_Put_def)
  have v: "\<forall>a \<in> moved_addrs w_results. ari_valid a \<and> ari_real a" by (simp add: m web_facts)
  have "{a \<in> moved_addrs w_results. if [TModule [''b'']] \<noteq> [] then \<forall>t \<in> set [TModule [''b'']]. \<not> TargetContains t (TAbsResourceInstance a)
      else \<exists>t \<in> set []. TargetContains t (TAbsResourceInstance a)} = {web (IntKey 0), web (IntKey 1)}"
    unfolding m by (auto simp: web_def mi_ResourceInstance_def mod_contains_Module_def)
  with prePlanVerifyTargetedMoves_reports[OF v, of "[TModule [''b'']]" "[]"] show ?thesis
    by (simp add: web_def mi_ResourceInstance_def ari_ContainingResource_def)
qed

end
