(* ===== verification/Addr_Check.thy ===== *)
theory Addr_Check
  imports State_Types Addr_Collections
begin

text \<open>
  Addresses of the objects that can have checks (\<^verbatim>\<open>internal/addrs/checkable.go\<close>, \<^verbatim>\<open>check.go\<close>, \<^verbatim>\<open>check_rule.go\<close>,
  \<^verbatim>\<open>output_value.go\<close>, \<^verbatim>\<open>input_variable.go\<close>): resource instances, output values, check blocks and input
  variables, each with the configuration object that declares it, their unique keys, and the
  parser of their renderings.
\<close>

section \<open>Check blocks, output values and input variables\<close>

record Check =
  chk_Name :: string

definition chk_String :: "Check \<Rightarrow> string" where
  "chk_String c = ''check.'' @ chk_Name c"

definition chk_Equal :: "Check \<Rightarrow> Check \<Rightarrow> bool" where
  "chk_Equal c ot = (chk_Name c = chk_Name ot)"

record ConfigCheck =
  cck_Module :: Module
  cck_Check :: Check

record AbsCheck =
  ack_Module :: ModuleInstance
  ack_Check :: Check

definition chk_InModule :: "Check \<Rightarrow> Module \<Rightarrow> ConfigCheck" where
  "chk_InModule c modAddr = \<lparr>cck_Module = modAddr, cck_Check = c\<rparr>"

definition chk_Absolute :: "Check \<Rightarrow> ModuleInstance \<Rightarrow> AbsCheck" where
  "chk_Absolute c modAddr = \<lparr>ack_Module = modAddr, ack_Check = c\<rparr>"

definition cck_String :: "ConfigCheck \<Rightarrow> string" where
  "cck_String c =
     (if length (cck_Module c) = 0 then chk_String (cck_Check c)
      else mod_String (cck_Module c) @ ''.'' @ chk_String (cck_Check c))"

definition ack_String :: "AbsCheck \<Rightarrow> string" where
  "ack_String c =
     (if length (ack_Module c) = 0 then chk_String (ack_Check c)
      else mi_String (ack_Module c) @ ''.'' @ chk_String (ack_Check c))"

text \<open>An output value within a module is its name, as in \<^verbatim>\<open>AbsOutputValue\<close> of the state.\<close>

definition ov_String :: "string \<Rightarrow> string" where
  "ov_String name = ''output.'' @ name"

record ConfigOutputValue =
  cov_Module :: Module
  cov_Name :: string

definition cov_String :: "ConfigOutputValue \<Rightarrow> string" where
  "cov_String v =
     (if mod_IsRoot (cov_Module v) then ov_String (cov_Name v)
      else mod_String (cov_Module v) @ ''.'' @ ov_String (cov_Name v))"

definition aov_String :: "AbsOutputValue \<Rightarrow> string" where
  "aov_String v =
     (if mi_IsRoot (aov_Module v) then ov_String (aov_Name v)
      else mi_String (aov_Module v) @ ''.'' @ ov_String (aov_Name v))"

definition aov_ConfigOutputValue :: "AbsOutputValue \<Rightarrow> ConfigOutputValue" where
  "aov_ConfigOutputValue v = \<lparr>cov_Module = mi_Module (aov_Module v), cov_Name = aov_Name v\<rparr>"

record InputVariable =
  iv_Name :: string

record ConfigInputVariable =
  civ_Module :: Module
  civ_Variable :: InputVariable

record AbsInputVariableInstance =
  aiv_Module :: ModuleInstance
  aiv_Variable :: InputVariable

definition iv_String :: "InputVariable \<Rightarrow> string" where
  "iv_String v = ''var.'' @ iv_Name v"

definition iv_Absolute :: "InputVariable \<Rightarrow> ModuleInstance \<Rightarrow> AbsInputVariableInstance" where
  "iv_Absolute v m = \<lparr>aiv_Module = m, aiv_Variable = v\<rparr>"

definition iv_InModule :: "InputVariable \<Rightarrow> Module \<Rightarrow> ConfigInputVariable" where
  "iv_InModule v m = \<lparr>civ_Module = m, civ_Variable = v\<rparr>"

definition civ_String :: "ConfigInputVariable \<Rightarrow> string" where
  "civ_String v =
     (if length (civ_Module v) = 0 then iv_String (civ_Variable v)
      else mod_String (civ_Module v) @ ''.'' @ iv_String (civ_Variable v))"

definition aiv_String :: "AbsInputVariableInstance \<Rightarrow> string" where
  "aiv_String v =
     (if length (aiv_Module v) = 0 then iv_String (aiv_Variable v)
      else mi_String (aiv_Module v) @ ''.'' @ iv_String (aiv_Variable v))"

section \<open>Checkable objects\<close>

datatype CheckableKind = CheckableKindInvalid | CheckableResource | CheckableOutputValue | CheckableCheck | CheckableInputVariable

datatype Checkable =
    CkResourceInstance AbsResourceInstance
  | CkOutputValue AbsOutputValue
  | CkCheck AbsCheck
  | CkInputVariable AbsInputVariableInstance

datatype ConfigCheckable =
    CcResource ConfigResource
  | CcOutputValue ConfigOutputValue
  | CcCheck ConfigCheck
  | CcInputVariable ConfigInputVariable

fun ck_ConfigCheckable :: "Checkable \<Rightarrow> ConfigCheckable" where
  "ck_ConfigCheckable (CkResourceInstance r) = CcResource (ari_ConfigResource r)"
| "ck_ConfigCheckable (CkOutputValue v) = CcOutputValue (aov_ConfigOutputValue v)"
| "ck_ConfigCheckable (CkCheck c) = CcCheck \<lparr>cck_Module = mi_Module (ack_Module c), cck_Check = ack_Check c\<rparr>"
| "ck_ConfigCheckable (CkInputVariable v) = CcInputVariable \<lparr>civ_Module = mi_Module (aiv_Module v), civ_Variable = aiv_Variable v\<rparr>"

fun ck_CheckableKind :: "Checkable \<Rightarrow> CheckableKind" where
  "ck_CheckableKind (CkResourceInstance _) = CheckableResource"
| "ck_CheckableKind (CkOutputValue _) = CheckableOutputValue"
| "ck_CheckableKind (CkCheck _) = CheckableCheck"
| "ck_CheckableKind (CkInputVariable _) = CheckableInputVariable"

fun cc_CheckableKind :: "ConfigCheckable \<Rightarrow> CheckableKind" where
  "cc_CheckableKind (CcResource _) = CheckableResource"
| "cc_CheckableKind (CcOutputValue _) = CheckableOutputValue"
| "cc_CheckableKind (CcCheck _) = CheckableCheck"
| "cc_CheckableKind (CcInputVariable _) = CheckableInputVariable"

text \<open>Unique keys of different address types are of different Go types.\<close>

datatype checkable_key =
    ckResourceInstanceKey string
  | absOutputValueUniqueKey string
  | absCheckUniqueKey string
  | absInputVariableInstanceUniqueKey string

fun ck_UniqueKey :: "Checkable \<Rightarrow> checkable_key" where
  "ck_UniqueKey (CkResourceInstance r) = ckResourceInstanceKey (ari_String r)"
| "ck_UniqueKey (CkOutputValue v) = absOutputValueUniqueKey (aov_String v)"
| "ck_UniqueKey (CkCheck c) = absCheckUniqueKey (ack_String c)"
| "ck_UniqueKey (CkInputVariable v) = absInputVariableInstanceUniqueKey (aiv_String v)"

datatype config_checkable_key =
    configResourceKey string
  | configOutputValueUniqueKey string
  | configCheckUniqueKey string
  | configInputVariableUniqueKey string

fun cc_UniqueKey :: "ConfigCheckable \<Rightarrow> config_checkable_key" where
  "cc_UniqueKey (CcResource r) = configResourceKey (cr_String r)"
| "cc_UniqueKey (CcOutputValue v) = configOutputValueUniqueKey (cov_String v)"
| "cc_UniqueKey (CcCheck c) = configCheckUniqueKey (cck_String c)"
| "cc_UniqueKey (CcInputVariable v) = configInputVariableUniqueKey (civ_String v)"

section \<open>Check rules\<close>

datatype CheckRuleType =
    InvalidCondition
  | ResourcePrecondition
  | ResourcePostcondition
  | OutputPrecondition
  | CheckDataResource
  | CheckAssertion
  | InputValidation

record CheckRule =
  cru_Container :: Checkable
  cru_Type :: CheckRuleType
  cru_Index :: int

definition NewCheckRule :: "Checkable \<Rightarrow> CheckRuleType \<Rightarrow> int \<Rightarrow> CheckRule" where
  "NewCheckRule container typ index = \<lparr>cru_Container = container, cru_Type = typ, cru_Index = index\<rparr>"

type_synonym checkRuleKey = "checkable_key \<times> CheckRuleType \<times> int"

definition cru_UniqueKey :: "CheckRule \<Rightarrow> checkRuleKey" where
  "cru_UniqueKey c = (ck_UniqueKey (cru_Container c), cru_Type c, cru_Index c)"

section \<open>Parsing\<close>

text \<open>
  The name after the keyword.  The errors are given to \<^verbatim>\<open>Append\<close> as \<^verbatim>\<open>hcl.Diagnostic\<close> values; \<^verbatim>\<open>Append\<close> knows only
  pointers to them, and only a pointer is an \<^verbatim>\<open>error\<close>, so they are items of unknown type.  Index 1 is
  read even after its absence was reported.  The outer \<open>None\<close> is a panic.
\<close>

definition getCheckableName :: "Traversal \<Rightarrow> string \<Rightarrow> (string \<times> Diagnostics) option" where
  "getCheckableName remain keyword =
     Option.bind (if length remain \<noteq> 2 then diags_Append [] [ItemOther] else Some []) (\<lambda>diags.
       case RootName remain of
         None \<Rightarrow> None
       | Some root \<Rightarrow>
           Option.bind (if root \<noteq> keyword then diags_Append diags [ItemOther] else Some diags) (\<lambda>diags.
             case tl remain of
               [] \<Rightarrow> None
             | TraverseAttr name # _ \<Rightarrow> Some (name, diags)
             | _ \<Rightarrow> map_option (Pair []) (diags_Append diags [ItemOther])))"

definition parse_named :: "Traversal \<Rightarrow> Diagnostics \<Rightarrow> string \<Rightarrow> (string \<Rightarrow> Checkable) \<Rightarrow> (Diagnostics + Checkable) option" where
  "parse_named remain diags keyword mk =
     map_option (\<lambda>(name, nameDiags). if HasErrors (diags @ nameDiags) then Inl (diags @ nameDiags) else Inr (mk name))
       (getCheckableName remain keyword)"

text \<open>
  \<open>parse\<close> is \<^verbatim>\<open>hclsyntax.ParseTraversalAbs\<close>: the traversal a string denotes, or the diagnostics of its
  errors.
\<close>

definition ParseCheckableStr ::
  "(string \<Rightarrow> Diagnostics + Traversal) \<Rightarrow> CheckableKind \<Rightarrow> string \<Rightarrow> (Diagnostics + Checkable) option" where
  "ParseCheckableStr parse kind src =
     (case parse src of
        Inl parseDiags \<Rightarrow> Some (Inl parseDiags)
      | Inr traversal \<Rightarrow>
          (let (path, remain, diags) = parseModuleInstancePrefix traversal in
           if HasErrors diags then Some (Inl diags)
           else if RootName remain = None then
             Some (Inl (with_error diags ''Invalid checkable address''
               ''Module path must be followed by either a resource instance address or an output value address.''))
           else case kind of
               CheckableResource \<Rightarrow>
                 map_option (\<lambda>r. case r of Inl moreDiags \<Rightarrow> Inl (diags @ moreDiags) | Inr riAddr \<Rightarrow> Inr (CkResourceInstance riAddr))
                   (parseResourceInstanceUnderModule path remain)
             | CheckableOutputValue \<Rightarrow>
                 parse_named remain diags ''output'' (\<lambda>name. CkOutputValue \<lparr>aov_Module = path, aov_Name = name\<rparr>)
             | CheckableCheck \<Rightarrow> parse_named remain diags ''check'' (\<lambda>name. CkCheck (chk_Absolute \<lparr>chk_Name = name\<rparr> path))
             | CheckableInputVariable \<Rightarrow>
                 parse_named remain diags ''var'' (\<lambda>name. CkInputVariable (iv_Absolute \<lparr>iv_Name = name\<rparr> path))
             | CheckableKindInvalid \<Rightarrow> None))"

end
