(* ===== verification/Addr_Checkable.thy ===== *)
theory Addr_Checkable
  imports Addr_Check
begin

text \<open>
  The unique keys of checkable objects identify them, and what \<^verbatim>\<open>ParseCheckableStr\<close> does with the
  renderings of their addresses and with other strings.
\<close>

section \<open>Unique keys\<close>

fun ck_valid :: "Checkable \<Rightarrow> bool" where
  "ck_valid (CkResourceInstance r) = ari_valid r"
| "ck_valid (CkOutputValue v) = (mi_valid (aov_Module v) \<and> valid_name (aov_Name v))"
| "ck_valid (CkCheck c) = (mi_valid (ack_Module c) \<and> valid_name (chk_Name (ack_Check c)))"
| "ck_valid (CkInputVariable v) = (mi_valid (aiv_Module v) \<and> valid_name (iv_Name (aiv_Variable v)))"

fun cc_valid :: "ConfigCheckable \<Rightarrow> bool" where
  "cc_valid (CcResource r) = cr_valid r"
| "cc_valid (CcOutputValue v) = (list_all valid_name (cov_Module v) \<and> valid_name (cov_Name v))"
| "cc_valid (CcCheck c) = (list_all valid_name (cck_Module c) \<and> valid_name (chk_Name (cck_Check c)))"
| "cc_valid (CcInputVariable v) = (list_all valid_name (civ_Module v) \<and> valid_name (iv_Name (civ_Variable v)))"

text \<open>A keyword and a name are rendered like the type and the name of a managed resource.\<close>

definition as_resource :: "string \<Rightarrow> string \<Rightarrow> Resource" where
  "as_resource kw name = \<lparr>res_Mode = ManagedResourceMode, res_Type = kw, res_Name = name\<rparr>"

lemma as_resource_facts [simp]:
  "res_String (as_resource kw name) = kw @ ''.'' @ name"
  "valid_name kw \<Longrightarrow> valid_name name \<Longrightarrow> res_valid (as_resource kw name)"
  "as_resource kw name = as_resource kw name' \<longleftrightarrow> name = name'"
  by (simp_all add: as_resource_def res_String_def res_valid_def)

lemma keyword_as_resource:
  "aov_String v = ar_String \<lparr>ar_Module = aov_Module v, ar_Resource = as_resource ''output'' (aov_Name v)\<rparr>"
  "ack_String c = ar_String \<lparr>ar_Module = ack_Module c, ar_Resource = as_resource ''check'' (chk_Name (ack_Check c))\<rparr>"
  "aiv_String i = ar_String \<lparr>ar_Module = aiv_Module i, ar_Resource = as_resource ''var'' (iv_Name (aiv_Variable i))\<rparr>"
  "cov_String v' = cr_String \<lparr>cr_Module = cov_Module v', cr_Resource = as_resource ''output'' (cov_Name v')\<rparr>"
  "cck_String c' = cr_String \<lparr>cr_Module = cck_Module c', cr_Resource = as_resource ''check'' (chk_Name (cck_Check c'))\<rparr>"
  "civ_String i' = cr_String \<lparr>cr_Module = civ_Module i', cr_Resource = as_resource ''var'' (iv_Name (civ_Variable i'))\<rparr>"
  by (simp_all add: ar_String_def cr_String_def aov_String_def cov_String_def ov_String_def ack_String_def cck_String_def chk_String_def
      aiv_String_def civ_String_def iv_String_def mi_IsRoot_def mod_IsRoot_def)

lemma keywords_valid [simp]: "valid_name ''output''" "valid_name ''check''" "valid_name ''var''"
  by (simp_all add: valid_name_def)

interpretation cku: unique_key ck_UniqueKey ck_valid
proof
  fix a b assume "ck_valid a" "ck_valid b" "ck_UniqueKey a = ck_UniqueKey b"
  then show "a = b"
    by (cases a; cases b) (simp_all add: ari_String_inj keyword_as_resource ar_String_inj ar_valid_def)
qed

interpretation ccu: unique_key cc_UniqueKey cc_valid
proof
  fix a b assume "cc_valid a" "cc_valid b" "cc_UniqueKey a = cc_UniqueKey b"
  then show "a = b"
    by (cases a; cases b) (simp_all add: cr_String_inj keyword_as_resource cr_valid_def)
qed

definition cru_valid :: "CheckRule \<Rightarrow> bool" where
  "cru_valid r \<longleftrightarrow> ck_valid (cru_Container r)"

interpretation cru: unique_key cru_UniqueKey cru_valid
proof
  fix a b :: CheckRule assume "cru_valid a" "cru_valid b" "cru_UniqueKey a = cru_UniqueKey b"
  then show "a = b" using cku.uk_inj by (cases a; cases b) (simp add: cru_valid_def cru_UniqueKey_def)
qed

lemma step_names_valid: "mi_valid m \<Longrightarrow> list_all valid_name (map step_Name m)"
  by (auto simp: mi_valid_def list_all_iff)

lemma ck_ConfigCheckable_valid: "ck_valid a \<Longrightarrow> cc_valid (ck_ConfigCheckable a)"
  by (cases a) (auto simp: step_names_valid aov_ConfigOutputValue_def ari_ConfigResource_def ari_valid_def cr_valid_def)

section \<open>Parsing\<close>

text \<open>The traversal that denotes a checkable object.\<close>

definition named_steps :: "ModuleInstance \<Rightarrow> string \<Rightarrow> string \<Rightarrow> Traversal" where
  "named_steps m kw name = normalize_remain (mi_steps m @ [TraverseAttr kw, TraverseAttr name])"

fun ck_traversal :: "Checkable \<Rightarrow> Traversal" where
  "ck_traversal (CkResourceInstance r) = ari_traversal r"
| "ck_traversal (CkOutputValue v) = named_steps (aov_Module v) ''output'' (aov_Name v)"
| "ck_traversal (CkCheck c) = named_steps (ack_Module c) ''check'' (chk_Name (ack_Check c))"
| "ck_traversal (CkInputVariable v) = named_steps (aiv_Module v) ''var'' (iv_Name (aiv_Variable v))"

fun ck_expressible :: "Checkable \<Rightarrow> bool" where
  "ck_expressible (CkResourceInstance r) = ari_expressible r"
| "ck_expressible (CkOutputValue v) = (\<not> mi_IsPlaceholder (aov_Module v))"
| "ck_expressible (CkCheck c) = (\<not> mi_IsPlaceholder (ack_Module c))"
| "ck_expressible (CkInputVariable v) = (\<not> mi_IsPlaceholder (aiv_Module v))"

lemma parse_prefix_named:
  assumes "\<not> mi_IsPlaceholder m" "kw \<noteq> ''module''"
  shows "parseModuleInstancePrefix (named_steps m kw name) = (m, [TraverseRoot kw, TraverseAttr name], [])"
proof -
  have "mi_prefix_loop (mi_steps m @ [TraverseAttr kw, TraverseAttr name]) [] [] = mi_prefix_loop [TraverseAttr kw, TraverseAttr name] m []"
    using prefix_loop_mi_steps[OF _ assms(1), of "[TraverseAttr kw, TraverseAttr name]" "[]"] by simp
  also have "\<dots> = (m, [TraverseAttr kw, TraverseAttr name], [])"
    using assms(2) by (intro prefix_loop_stop[of _ "[]"]) (simp add: getModuleName_def)
  finally show ?thesis unfolding named_steps_def parse_prefix_normalize by (simp add: parseModuleInstancePrefix_def)
qed

lemma getCheckableName_spec:
  "getCheckableName remain kw = (case remain of [TraverseRoot root, TraverseAttr name] \<Rightarrow> if root = kw then Some (name, []) else None | _ \<Rightarrow> None)"
  by (auto simp: getCheckableName_def length_Suc_conv split: list.split traverser.split)

section \<open>Properties\<close>

text \<open>
  \<^verbatim>\<open>ParseCheckableStr\<close> undoes the rendering of the address of a checkable object, when it is given
  the kind of the object and the HCL parser reads the rendering as the traversal it denotes.
\<close>
theorem ParseCheckableStr_roundtrip:
  assumes "ck_expressible a" "parse src = Inr (ck_traversal a)"
  shows "ParseCheckableStr parse (ck_CheckableKind a) src = Some (Inr a)"
proof (cases a)
  case (CkResourceInstance r)
  then have r: "ari_expressible r" using assms(1) by simp
  have "ri_Absolute (ari_Resource r) (ari_Module r) = r" by (simp add: ri_Absolute_def)
  moreover have "RootName (normalize_remain (ri_steps (ari_Resource r))) \<noteq> None" using ri_steps_head[OF r] by auto
  ultimately show ?thesis using assms(2) CkResourceInstance
    by (simp add: ParseCheckableStr_def parse_prefix_ari[OF r] parse_instance_ri[OF r])
qed (use assms in \<open>simp_all add: ParseCheckableStr_def parse_prefix_named parse_named_def getCheckableName_spec chk_Absolute_def iv_Absolute_def\<close>)

theorem ParseCheckableStr_roundtrip_witness:
  "ParseCheckableStr (\<lambda>_. Inr (ck_traversal (CkOutputValue \<lparr>aov_Module = ari_Module (web NoKey), aov_Name = ''ip''\<rparr>))) CheckableOutputValue ''module.a[0].output.ip'' =
    Some (Inr (CkOutputValue \<lparr>aov_Module = ari_Module (web NoKey), aov_Name = ''ip''\<rparr>))"
  using ParseCheckableStr_roundtrip[of "CkOutputValue \<lparr>aov_Module = ari_Module (web NoKey), aov_Name = ''ip''\<rparr>"
      "\<lambda>_. Inr (ck_traversal (CkOutputValue \<lparr>aov_Module = ari_Module (web NoKey), aov_Name = ''ip''\<rparr>))" "''module.a[0].output.ip''"]
  by (simp add: web_def mi_ResourceInstance_def mi_IsPlaceholder_def)

text \<open>
  C36: \<^verbatim>\<open>ParseCheckableStr\<close> reports an error in the address of a resource instance, but panics on an
  address of the other kinds whose module path is followed by a name and then by anything but the
  keyword and one attribute: it hands its diagnostics to \<^verbatim>\<open>Append\<close> by value.
\<close>
theorem ParseCheckableStr_panics_iff:
  assumes "parse src = Inr t" "parseModuleInstancePrefix t = (path, remain, diags)"
  shows "ParseCheckableStr parse kind src = None \<longleftrightarrow> \<not> HasErrors diags \<and> RootName remain \<noteq> None \<and>
    (case kind of
       CheckableResource \<Rightarrow> False
     | CheckableOutputValue \<Rightarrow> \<nexists>name. remain = [TraverseRoot ''output'', TraverseAttr name]
     | CheckableCheck \<Rightarrow> \<nexists>name. remain = [TraverseRoot ''check'', TraverseAttr name]
     | CheckableInputVariable \<Rightarrow> \<nexists>name. remain = [TraverseRoot ''var'', TraverseAttr name]
     | CheckableKindInvalid \<Rightarrow> True)"
proof -
  have name: "getCheckableName remain kw = None \<longleftrightarrow> (\<nexists>name. remain = [TraverseRoot kw, TraverseAttr name])" for kw
    by (auto simp: getCheckableName_spec split: list.split traverser.split)
  have "parseResourceInstanceUnderModule path remain \<noteq> None" if "RootName remain \<noteq> None"
    using parse_instance_no_panic[OF that] .
  with name show ?thesis
    by (cases kind; cases "HasErrors diags"; cases "RootName remain") (simp_all add: ParseCheckableStr_def assms parse_named_def)
qed

theorem ParseCheckableStr_panics_iff_witness:
  "ParseCheckableStr (\<lambda>_. Inr [TraverseRoot ''output'']) CheckableOutputValue ''output'' = None"
proof -
  have "parseModuleInstancePrefix [TraverseRoot ''output''] = ([], [TraverseRoot ''output''], [])"
    by (simp add: parseModuleInstancePrefix_def prefix_loop_stop[of _ "[]"] getModuleName_def)
  from ParseCheckableStr_panics_iff[of "\<lambda>_. Inr [TraverseRoot ''output'']" "''output''", OF refl this, of CheckableOutputValue]
  show ?thesis by simp
qed

end
