(* ===== verification/Checks_State.thy ===== *)
theory Checks_State
  imports Addr_Checkable Config_Tree Tofu_Sort
begin

text \<open>
  The container that tracks the statuses of checks during a run (\<^verbatim>\<open>internal/checks\<close>), and the summary of it that the
  state keeps afterwards (\<^verbatim>\<open>internal/states/checks.go\<close>).

  A map that is nil is \<open>None\<close> where the code tells it from an empty one.  The statuses of a
  configuration object are reached through a pointer, so a change of them is made in the entry of the
  map.  A panic is \<open>None\<close>.  The methods run under the mutex of the container, so each is one step.
\<close>

section \<open>Statuses\<close>

datatype Status = StatusUnknown | StatusPass | StatusFail | StatusError

definition summarizeCheckStatuses :: "nat \<Rightarrow> nat \<Rightarrow> nat \<Rightarrow> Status" where
  "summarizeCheckStatuses errorCount failCount unknownCount =
     (if errorCount > 0 then StatusError
      else if failCount > 0 then StatusFail
      else if unknownCount > 0 then StatusUnknown
      else StatusPass)"

text \<open>
  \<open>cty\<close> values are not in the repository: \<open>is_bool\<close>, \<open>is_null\<close>, \<open>is_known\<close> and the two constants are what
  the conversion asks of them.
\<close>

definition StatusForCtyValue ::
  "('v \<Rightarrow> bool) \<Rightarrow> ('v \<Rightarrow> bool) \<Rightarrow> ('v \<Rightarrow> bool) \<Rightarrow> 'v \<Rightarrow> 'v \<Rightarrow> 'v \<Rightarrow> Status option" where
  "StatusForCtyValue is_bool is_null is_known ctyTrue ctyFalse v =
     (if \<not> is_bool v then None
      else if is_null v then None
      else if v = ctyTrue then Some StatusPass
      else if v = ctyFalse then Some StatusFail
      else if \<not> is_known v then Some StatusUnknown
      else None)"

section \<open>The container\<close>

type_synonym rule_statuses = "(CheckRuleType, Status list) gomap"

record configCheckableState =
  ccs_checkTypes :: "(CheckRuleType, nat) gomap"
  ccs_objects :: "(checkable_key, Checkable, rule_statuses) addr_map option"

record ChecksState =
  cks_statuses :: "(config_checkable_key, ConfigCheckable, configCheckableState) addr_map"
  cks_failureMsgs :: "(checkRuleKey, CheckRule, string) addr_map option"

section \<open>Initial statuses\<close>

type_synonym statuses = "(config_checkable_key, ConfigCheckable, configCheckableState) addr_map"

definition collectInitialStatusForResource :: "statuses \<Rightarrow> ConfigResource \<Rightarrow> Resource_cfg \<Rightarrow> statuses" where
  "collectInitialStatusForResource into addr rc =
     (if length (rcc_Preconditions rc) + length (rcc_Postconditions rc) = 0 then into
      else let types = [];
               types = (let ct = length (rcc_Preconditions rc) in if ct > 0 then gmap_put ResourcePrecondition ct types else types);
               types = (let ct = length (rcc_Postconditions rc) in if ct > 0 then gmap_put ResourcePostcondition ct types else types)
           in map_Put cc_UniqueKey into (CcResource addr) \<lparr>ccs_checkTypes = types, ccs_objects = None\<rparr>)"

definition collect_resources :: "Module \<Rightarrow> (string, Resource_cfg) gomap \<Rightarrow> statuses \<Rightarrow> statuses" where
  "collect_resources moduleAddr rcs into =
     foldl (\<lambda>into (_, rc). collectInitialStatusForResource into \<lparr>cr_Module = moduleAddr, cr_Resource = rcc_Addr rc\<rparr> rc) into rcs"

definition collect_outputs :: "Module \<Rightarrow> (string, Output_cfg) gomap \<Rightarrow> statuses \<Rightarrow> statuses" where
  "collect_outputs moduleAddr ocs into =
     foldl (\<lambda>into (_, oc).
       let addr = \<lparr>cov_Module = moduleAddr, cov_Name = outc_Name oc\<rparr>; ct = length (outc_Preconditions oc) in
       if ct = 0 then into
       else map_Put cc_UniqueKey into (CcOutputValue addr) \<lparr>ccs_checkTypes = [(OutputPrecondition, ct)], ccs_objects = None\<rparr>) into ocs"

definition collect_checks :: "Module \<Rightarrow> (string, Check_cfg) gomap \<Rightarrow> statuses \<Rightarrow> statuses" where
  "collect_checks moduleAddr cs into =
     foldl (\<lambda>into (_, c).
       let addr = chk_InModule \<lparr>chk_Name = ckc_Name c\<rparr> moduleAddr;
           types = [(CheckAssertion, length (ckc_Asserts c))];
           types = (if ckc_DataResource c \<noteq> None then gmap_put CheckDataResource 1 types else types)
       in map_Put cc_UniqueKey into (CcCheck addr) \<lparr>ccs_checkTypes = types, ccs_objects = None\<rparr>) into cs"

definition collect_variables :: "Module \<Rightarrow> (string, Variable_cfg) gomap \<Rightarrow> statuses \<Rightarrow> statuses" where
  "collect_variables moduleAddr vs into =
     foldl (\<lambda>into (_, v).
       let addr = iv_InModule \<lparr>iv_Name = varc_Name v\<rparr> moduleAddr; ct = length (varc_Validations v) in
       if ct = 0 then into
       else map_Put cc_UniqueKey into (CcInputVariable addr) \<lparr>ccs_checkTypes = [(InputValidation, ct)], ccs_objects = None\<rparr>) into vs"

fun collectInitialStatuses :: "statuses \<Rightarrow> 'pv Config \<Rightarrow> statuses"
  and collect_children :: "statuses \<Rightarrow> (string \<times> 'pv Config) list \<Rightarrow> statuses" where
  "collectInitialStatuses into (Config moduleAddr md children) =
     collect_children
       (collect_variables moduleAddr (mdc_Variables md)
         (collect_checks moduleAddr (mdc_Checks md)
           (collect_outputs moduleAddr (mdc_Outputs md)
             (collect_resources moduleAddr (mdc_EphemeralResources md)
               (collect_resources moduleAddr (mdc_DataResources md)
                 (collect_resources moduleAddr (mdc_ManagedResources md) into)))))) children"
| "collect_children into [] = into"
| "collect_children into ((_, child) # rest) = collect_children (collectInitialStatuses into child) rest"

definition initialStatuses :: "'pv Config option \<Rightarrow> statuses" where
  "initialStatuses cfg = (case cfg of None \<Rightarrow> [] | Some cfg \<Rightarrow> collectInitialStatuses [] cfg)"

definition NewChecksState :: "'pv Config option \<Rightarrow> ChecksState" where
  "NewChecksState config = \<lparr>cks_statuses = initialStatuses config, cks_failureMsgs = None\<rparr>"

section \<open>Queries\<close>

definition ConfigHasChecks :: "ChecksState \<Rightarrow> ConfigCheckable \<Rightarrow> bool" where
  "ConfigHasChecks c addr = map_Has cc_UniqueKey (cks_statuses c) addr"

definition AllConfigAddrs :: "ChecksState \<Rightarrow> (config_checkable_key, ConfigCheckable) addr_set" where
  "AllConfigAddrs c = map_Keys (cks_statuses c)"

definition ObjectAddrs :: "ChecksState \<Rightarrow> ConfigCheckable \<Rightarrow> (checkable_key, Checkable) addr_set option" where
  "ObjectAddrs c configAddr =
     (case map_GetOk cc_UniqueKey (cks_statuses c) configAddr of
        None \<Rightarrow> None
      | Some st \<Rightarrow> Some (foldl (\<lambda>ret (_, key, _). aset_Add ck_UniqueKey ret key) (MakeSet ck_UniqueKey [])
          (case ccs_objects st of None \<Rightarrow> [] | Some objs \<Rightarrow> objs)))"

text \<open>The counts of errors, failures and unknown results.\<close>

fun tally :: "nat \<times> nat \<times> nat \<Rightarrow> Status \<Rightarrow> nat \<times> nat \<times> nat" where
  "tally (e, f, u) StatusPass = (e, f, u)"
| "tally (e, f, u) StatusFail = (e, f + 1, u)"
| "tally (e, f, u) StatusError = (e + 1, f, u)"
| "tally (e, f, u) StatusUnknown = (e, f, u + 1)"

definition tally_checks :: "nat \<times> nat \<times> nat \<Rightarrow> rule_statuses \<Rightarrow> nat \<times> nat \<times> nat" where
  "tally_checks counts checks = foldl (\<lambda>counts (_, statuses). foldl tally counts statuses) counts checks"

definition AggregateCheckStatus :: "ChecksState \<Rightarrow> ConfigCheckable \<Rightarrow> Status option" where
  "AggregateCheckStatus c addr =
     (case map_GetOk cc_UniqueKey (cks_statuses c) addr of
        None \<Rightarrow> None
      | Some st \<Rightarrow>
          (case ccs_objects st of
             None \<Rightarrow> Some StatusUnknown
           | Some objs \<Rightarrow>
               (let (errorCount, failCount, unknownCount) = foldl (\<lambda>counts (_, _, checks). tally_checks counts checks) (0, 0, 0) objs
                in Some (summarizeCheckStatuses errorCount failCount unknownCount))))"

text \<open>The lookup that the queries of one object start with.\<close>

definition object_checks :: "ChecksState \<Rightarrow> Checkable \<Rightarrow> rule_statuses option" where
  "object_checks c addr =
     (case map_GetOk cc_UniqueKey (cks_statuses c) (ck_ConfigCheckable addr) of
        None \<Rightarrow> None
      | Some st \<Rightarrow> (case ccs_objects st of None \<Rightarrow> None | Some objs \<Rightarrow> map_GetOk ck_UniqueKey objs addr))"

definition ObjectCheckStatus :: "ChecksState \<Rightarrow> Checkable \<Rightarrow> Status option" where
  "ObjectCheckStatus c addr =
     (case object_checks c addr of
        None \<Rightarrow> None
      | Some checks \<Rightarrow>
          (let (errorCount, failCount, unknownCount) = tally_checks (0, 0, 0) checks
           in Some (summarizeCheckStatuses errorCount failCount unknownCount)))"

fun fail_messages :: "ChecksState \<Rightarrow> Checkable \<Rightarrow> CheckRuleType \<Rightarrow> int \<Rightarrow> Status list \<Rightarrow> string list" where
  "fail_messages c addr checkType i [] = []"
| "fail_messages c addr checkType i (status # checks) =
     (let msg = map_Get [] cru_UniqueKey (case cks_failureMsgs c of None \<Rightarrow> [] | Some msgs \<Rightarrow> msgs) (NewCheckRule addr checkType i)
      in (if status = StatusFail \<and> msg \<noteq> [] then [msg] else []) @ fail_messages c addr checkType (i + 1) checks)"

definition ObjectFailureMessages :: "ChecksState \<Rightarrow> Checkable \<Rightarrow> string list option" where
  "ObjectFailureMessages c addr =
     (case object_checks c addr of
        None \<Rightarrow> None
      | Some checksByType \<Rightarrow>
          Some (sort (concat (map (\<lambda>(checkType, checks). fail_messages c addr checkType 0 checks) checksByType))))"

section \<open>Reports\<close>

text \<open>A change of the value that an entry of a map points to.\<close>

definition map_modify :: "('k \<Rightarrow> 'u) \<Rightarrow> ('u, 'k, 'v) addr_map \<Rightarrow> 'k \<Rightarrow> ('v \<Rightarrow> 'v) \<Rightarrow> ('u, 'k, 'v) addr_map" where
  "map_modify uk m key f = map (\<lambda>(u, k, v). if u = uk key then (u, k, f v) else (u, k, v)) m"

fun report_objects ::
  "ConfigCheckable \<Rightarrow> (CheckRuleType, nat) gomap \<Rightarrow> (checkable_key \<times> Checkable) list \<Rightarrow> (checkable_key, Checkable, rule_statuses) addr_map \<Rightarrow>
    (checkable_key, Checkable, rule_statuses) addr_map option" where
  "report_objects configAddr checkTypes [] objs = Some objs"
| "report_objects configAddr checkTypes ((_, objectAddr) # rest) objs =
     (if cc_UniqueKey configAddr \<noteq> cc_UniqueKey (ck_ConfigCheckable objectAddr) then None
      else report_objects configAddr checkTypes rest
        (map_Put ck_UniqueKey objs objectAddr
          (foldl (\<lambda>checks (checkType, cnt). gmap_put checkType (replicate cnt StatusUnknown) checks) [] checkTypes)))"

definition ReportCheckableObjects ::
  "ChecksState \<Rightarrow> ConfigCheckable \<Rightarrow> (checkable_key, Checkable) addr_set \<Rightarrow> ChecksState option" where
  "ReportCheckableObjects c configAddr objectAddrs =
     (case map_GetOk cc_UniqueKey (cks_statuses c) configAddr of
        None \<Rightarrow> None
      | Some st \<Rightarrow>
          if ccs_objects st \<noteq> None then Some c
          else map_option (\<lambda>objs. c\<lparr>cks_statuses := map_modify cc_UniqueKey (cks_statuses c) configAddr (\<lambda>st. st\<lparr>ccs_objects := Some objs\<rparr>)\<rparr>)
            (report_objects configAddr (ccs_checkTypes st) objectAddrs []))"

definition reportCheckResult :: "ChecksState \<Rightarrow> Checkable \<Rightarrow> CheckRuleType \<Rightarrow> int \<Rightarrow> Status \<Rightarrow> ChecksState option" where
  "reportCheckResult c objectAddr checkType index status =
     (let configAddr = ck_ConfigCheckable objectAddr in
      case map_GetOk cc_UniqueKey (cks_statuses c) configAddr of
        None \<Rightarrow> None
      | Some st \<Rightarrow>
          (case map_GetOk ck_UniqueKey (case ccs_objects st of None \<Rightarrow> [] | Some objs \<Rightarrow> objs) objectAddr of
             None \<Rightarrow> None
           | Some checks \<Rightarrow>
               (let statuses = (case gmap_get checks checkType of None \<Rightarrow> [] | Some l \<Rightarrow> l) in
                if index \<ge> int (length statuses) then None
                else if index < 0 then None
                else if statuses ! nat index \<noteq> StatusUnknown then None
                else Some (c\<lparr>cks_statuses := map_modify cc_UniqueKey (cks_statuses c) configAddr (\<lambda>st.
                  st\<lparr>ccs_objects := map_option (\<lambda>objs. map_modify ck_UniqueKey objs objectAddr (\<lambda>checks.
                    gmap_put checkType (statuses[nat index := status]) checks)) (ccs_objects st)\<rparr>)\<rparr>))))"

definition ReportCheckResult :: "ChecksState \<Rightarrow> Checkable \<Rightarrow> CheckRuleType \<Rightarrow> int \<Rightarrow> Status \<Rightarrow> ChecksState option" where
  "ReportCheckResult c objectAddr checkType index status = reportCheckResult c objectAddr checkType index status"

definition ReportCheckFailure :: "ChecksState \<Rightarrow> Checkable \<Rightarrow> CheckRuleType \<Rightarrow> int \<Rightarrow> string \<Rightarrow> ChecksState option" where
  "ReportCheckFailure c objectAddr checkType index errorMessage =
     map_option (\<lambda>c.
       let msgs = (case cks_failureMsgs c of None \<Rightarrow> MakeMap cru_UniqueKey [] | Some msgs \<Rightarrow> msgs)
       in c\<lparr>cks_failureMsgs := Some (map_Put cru_UniqueKey msgs (NewCheckRule objectAddr checkType index) errorMessage)\<rparr>)
       (reportCheckResult c objectAddr checkType index StatusFail)"

section \<open>The results kept in the state\<close>

record CheckResultObject =
  cro_Status :: Status
  cro_FailureMessages :: "string list"

record CheckResultAggregate =
  cra_Status :: Status
  cra_ObjectResults :: "(checkable_key, Checkable, CheckResultObject) addr_map option"

record CheckResults =
  crs_ConfigResults :: "(config_checkable_key, ConfigCheckable, CheckResultAggregate) addr_map option"

fun object_results ::
  "ChecksState \<Rightarrow> (checkable_key \<times> Checkable) list \<Rightarrow> (checkable_key, Checkable, CheckResultObject) addr_map \<Rightarrow>
    (checkable_key, Checkable, CheckResultObject) addr_map option" where
  "object_results source [] res = Some res"
| "object_results source ((_, objectAddr) # rest) res =
     (case (ObjectCheckStatus source objectAddr, ObjectFailureMessages source objectAddr) of
        (Some status, Some msgs) \<Rightarrow>
          object_results source rest (map_Put ck_UniqueKey res objectAddr \<lparr>cro_Status = status, cro_FailureMessages = msgs\<rparr>)
      | _ \<Rightarrow> None)"

fun config_results ::
  "ChecksState \<Rightarrow> (config_checkable_key \<times> ConfigCheckable) list \<Rightarrow> (config_checkable_key, ConfigCheckable, CheckResultAggregate) addr_map \<Rightarrow>
    (config_checkable_key, ConfigCheckable, CheckResultAggregate) addr_map option" where
  "config_results source [] res = Some res"
| "config_results source ((_, configAddr) # rest) res =
     (case (AggregateCheckStatus source configAddr, ObjectAddrs source configAddr) of
        (Some status, Some objs) \<Rightarrow>
          (case object_results source objs (MakeMap ck_UniqueKey []) of
             None \<Rightarrow> None
           | Some objectResults \<Rightarrow>
               config_results source rest
                 (map_Put cc_UniqueKey res configAddr \<lparr>cra_Status = status, cra_ObjectResults = Some objectResults\<rparr>))
      | _ \<Rightarrow> None)"

definition NewCheckResults :: "ChecksState \<Rightarrow> CheckResults option" where
  "NewCheckResults source =
     map_option (\<lambda>res. \<lparr>crs_ConfigResults = (if map_Len res = 0 then None else Some res)\<rparr>)
       (config_results source (AllConfigAddrs source) (MakeMap cc_UniqueKey []))"

definition nil_map :: "('u, 'k, 'v) addr_map option \<Rightarrow> ('u, 'k, 'v) addr_map" where
  "nil_map m = (case m of None \<Rightarrow> [] | Some m \<Rightarrow> m)"

definition GetObjectResult :: "CheckResults \<Rightarrow> Checkable \<Rightarrow> CheckResultObject option" where
  "GetObjectResult r objectAddr =
     (case map_GetOk cc_UniqueKey (nil_map (crs_ConfigResults r)) (ck_ConfigCheckable objectAddr) of
        None \<Rightarrow> None
      | Some aggr \<Rightarrow> map_GetOk ck_UniqueKey (nil_map (cra_ObjectResults aggr)) objectAddr)"

definition aggregate_copy :: "CheckResultAggregate \<Rightarrow> CheckResultAggregate" where
  "aggregate_copy aggr = \<lparr>cra_Status = cra_Status aggr,
     cra_ObjectResults = (case cra_ObjectResults aggr of
       None \<Rightarrow> None
     | Some objs \<Rightarrow> Some (foldl (\<lambda>ret (_, key, obj). map_Put ck_UniqueKey ret key
         \<lparr>cro_Status = cro_Status obj, cro_FailureMessages = cro_FailureMessages obj\<rparr>) (MakeMap ck_UniqueKey []) objs))\<rparr>"

definition CheckResults_DeepCopy :: "CheckResults option \<Rightarrow> CheckResults option" where
  "CheckResults_DeepCopy r =
     (case r of
        None \<Rightarrow> None
      | Some r \<Rightarrow>
          (case crs_ConfigResults r of
             None \<Rightarrow> Some \<lparr>crs_ConfigResults = None\<rparr>
           | Some elems \<Rightarrow> Some \<lparr>crs_ConfigResults = Some (foldl (\<lambda>ret (_, key, aggr). map_Put cc_UniqueKey ret key (aggregate_copy aggr))
               (MakeMap cc_UniqueKey []) elems)\<rparr>))"

definition ObjectAddrsKnown :: "CheckResultAggregate \<Rightarrow> bool" where
  "ObjectAddrsKnown r = (if map_Len (nil_map (cra_ObjectResults r)) \<noteq> 0 then True else cra_Status r \<noteq> StatusUnknown)"

end
