(* ===== verification/Checks_Refine.thy ===== *)
theory Checks_Refine
  imports Checks_State
begin

text \<open>
  The container of check statuses implements a ledger: the declared numbers of rules, the known
  objects, and one status and message per rule of an object.  The reports are steps of the
  ledger, and they panic exactly when the ledger does not allow them.
\<close>

section \<open>The ledger\<close>

record ledger =
  lg_rules :: "ConfigCheckable \<Rightarrow> (CheckRuleType \<Rightarrow> nat) option"
  lg_objects :: "ConfigCheckable \<Rightarrow> Checkable set option"
  lg_status :: "Checkable \<Rightarrow> CheckRuleType \<Rightarrow> nat \<Rightarrow> Status"
  lg_msg :: "Checkable \<Rightarrow> CheckRuleType \<Rightarrow> nat \<Rightarrow> string"

definition registered :: "ledger \<Rightarrow> Checkable \<Rightarrow> bool" where
  "registered L a \<longleftrightarrow> (\<exists>S. lg_objects L (ck_ConfigCheckable a) = Some S \<and> a \<in> S)"

definition rule_count :: "ledger \<Rightarrow> Checkable \<Rightarrow> CheckRuleType \<Rightarrow> nat" where
  "rule_count L a t = (case lg_rules L (ck_ConfigCheckable a) of None \<Rightarrow> 0 | Some n \<Rightarrow> n t)"

datatype report =
    ReportObjects ConfigCheckable "(checkable_key, Checkable) addr_set"
  | ReportResult Checkable CheckRuleType int Status
  | ReportFailure Checkable CheckRuleType int string

definition set_status :: "ledger \<Rightarrow> Checkable \<Rightarrow> CheckRuleType \<Rightarrow> int \<Rightarrow> Status \<Rightarrow> ledger option" where
  "set_status L a t i s =
     (if registered L a \<and> 0 \<le> i \<and> nat i < rule_count L a t \<and> lg_status L a t (nat i) = StatusUnknown
      then Some (L\<lparr>lg_status := (lg_status L)(a := (lg_status L a)(t := (lg_status L a t)(nat i := s)))\<rparr>) else None)"

fun spec_report :: "ledger \<Rightarrow> report \<Rightarrow> ledger option" where
  "spec_report L (ReportObjects a objs) =
     (if lg_rules L a = None then None
      else if lg_objects L a \<noteq> None then Some L
      else if \<exists>b \<in> aset_members objs. ck_ConfigCheckable b \<noteq> a then None
      else Some (L\<lparr>lg_objects := (lg_objects L)(a := Some (aset_members objs))\<rparr>))"
| "spec_report L (ReportResult a t i s) = set_status L a t i s"
| "spec_report L (ReportFailure a t i msg) =
     map_option (\<lambda>L. L\<lparr>lg_msg := (lg_msg L)(a := (lg_msg L a)(t := (lg_msg L a t)(nat i := msg)))\<rparr>) (set_status L a t i StatusFail)"

fun run_report :: "ChecksState \<Rightarrow> report \<Rightarrow> ChecksState option" where
  "run_report c (ReportObjects a objs) = ReportCheckableObjects c a objs"
| "run_report c (ReportResult a t i s) = ReportCheckResult c a t i s"
| "run_report c (ReportFailure a t i msg) = ReportCheckFailure c a t i msg"

fun report_valid :: "report \<Rightarrow> bool" where
  "report_valid (ReportObjects a objs) \<longleftrightarrow> cc_valid a \<and> aset_wf ck_UniqueKey ck_valid objs"
| "report_valid (ReportResult a t i s) \<longleftrightarrow> ck_valid a"
| "report_valid (ReportFailure a t i msg) \<longleftrightarrow> ck_valid a"

fun run_all :: "('s \<Rightarrow> 'r \<Rightarrow> 's option) \<Rightarrow> 's \<Rightarrow> 'r list \<Rightarrow> 's option" where
  "run_all step s [] = Some s"
| "run_all step s (r # rs) = (case step s r of None \<Rightarrow> None | Some s \<Rightarrow> run_all step s rs)"

section \<open>Entries reached through pointers\<close>

lemma get_modify:
  "map_GetOk uk (map_modify uk m k f) k' = (if uk k' = uk k then map_option f (map_GetOk uk m k') else map_GetOk uk m k')"
  by (induction m) (auto simp: map_modify_def map_GetOk_def)

lemma map_wf_keys:
  "map_wf uk ok m \<longleftrightarrow> distinct (map fst m) \<and> list_all (\<lambda>(u, k). u = uk k \<and> ok k) (zip (map fst m) (map (fst \<circ> snd) m))"
  by (induction m) (auto simp: map_wf_def gmap_ok_def)

lemma modify_wf [simp]: "map_wf uk ok (map_modify uk m k f) \<longleftrightarrow> map_wf uk ok m"
proof -
  have "map fst (map_modify uk m k f) = map fst m" "map (fst \<circ> snd) (map_modify uk m k f) = map (fst \<circ> snd) m"
    by (auto simp: map_modify_def)
  then show ?thesis by (simp add: map_wf_keys)
qed

section \<open>What the container represents\<close>

definition types_of :: "configCheckableState \<Rightarrow> CheckRuleType \<Rightarrow> nat" where
  "types_of st t = (case gmap_get (ccs_checkTypes st) t of None \<Rightarrow> 0 | Some n \<Rightarrow> n)"

lemma types_of_objects [simp]: "types_of (st\<lparr>ccs_objects := x\<rparr>) = types_of st"
  by (rule ext) (simp add: types_of_def)

definition statuses_of :: "rule_statuses \<Rightarrow> CheckRuleType \<Rightarrow> Status list" where
  "statuses_of checks t = (case gmap_get checks t of None \<Rightarrow> [] | Some l \<Rightarrow> l)"

definition checks_rep :: "(CheckRuleType \<Rightarrow> nat) \<Rightarrow> (CheckRuleType \<Rightarrow> nat \<Rightarrow> Status) \<Rightarrow> rule_statuses \<Rightarrow> bool" where
  "checks_rep n s checks \<longleftrightarrow> gmap_ok checks \<and> (\<forall>t. statuses_of checks t = map (s t) [0..<n t])"

definition objects_rep ::
  "ledger \<Rightarrow> ConfigCheckable \<Rightarrow> (CheckRuleType \<Rightarrow> nat) \<Rightarrow> (checkable_key, Checkable, rule_statuses) addr_map \<Rightarrow> Checkable set \<Rightarrow> bool" where
  "objects_rep L a n objs S \<longleftrightarrow> map_wf ck_UniqueKey ck_valid objs \<and> (\<forall>b \<in> S. ck_valid b \<and> ck_ConfigCheckable b = a) \<and>
     (\<forall>b. ck_valid b \<longrightarrow> (case map_GetOk ck_UniqueKey objs b of None \<Rightarrow> b \<notin> S | Some checks \<Rightarrow> b \<in> S \<and> checks_rep n (lg_status L b) checks))"

definition config_rep :: "ledger \<Rightarrow> ConfigCheckable \<Rightarrow> configCheckableState \<Rightarrow> bool" where
  "config_rep L a st \<longleftrightarrow> lg_rules L a = Some (types_of st) \<and> gmap_ok (ccs_checkTypes st) \<and>
     (case ccs_objects st of
        None \<Rightarrow> lg_objects L a = None \<and> (\<forall>b t i. ck_ConfigCheckable b = a \<longrightarrow> lg_status L b t i = StatusUnknown)
      | Some objs \<Rightarrow> \<exists>S. lg_objects L a = Some S \<and> objects_rep L a (types_of st) objs S)"

definition rep :: "ChecksState \<Rightarrow> ledger \<Rightarrow> bool" where
  "rep c L \<longleftrightarrow> map_wf cc_UniqueKey cc_valid (cks_statuses c) \<and>
     (\<forall>a. cc_valid a \<longrightarrow> (case map_GetOk cc_UniqueKey (cks_statuses c) a of
        None \<Rightarrow> lg_rules L a = None \<and> lg_objects L a = None | Some st \<Rightarrow> config_rep L a st)) \<and>
     (\<forall>b t i. ck_valid b \<longrightarrow> 0 \<le> i \<longrightarrow> map_Get [] cru_UniqueKey (nil_map (cks_failureMsgs c)) (NewCheckRule b t i) = lg_msg L b t (nat i))"

lemma repD:
  assumes "rep c L" "cc_valid a"
  shows "map_GetOk cc_UniqueKey (cks_statuses c) a = None \<Longrightarrow> lg_rules L a = None \<and> lg_objects L a = None"
    and "map_GetOk cc_UniqueKey (cks_statuses c) a = Some st \<Longrightarrow> config_rep L a st"
  using assms by (force simp: rep_def)+

text \<open>The statuses of an object, as the lookups of the container find them.\<close>

lemma rep_object_checks:
  assumes "rep c L" "ck_valid b"
  shows "case object_checks c b of None \<Rightarrow> \<not> registered L b | Some checks \<Rightarrow> registered L b \<and> checks_rep (rule_count L b) (lg_status L b) checks"
proof -
  let ?a = "ck_ConfigCheckable b"
  have a: "cc_valid ?a" by (rule ck_ConfigCheckable_valid[OF assms(2)])
  show ?thesis
  proof (cases "map_GetOk cc_UniqueKey (cks_statuses c) ?a")
    case None
    then show ?thesis using repD(1)[OF assms(1) a] by (simp add: object_checks_def registered_def)
  next
    case (Some st)
    have st: "config_rep L ?a st" by (rule repD(2)[OF assms(1) a Some])
    show ?thesis
    proof (cases "ccs_objects st")
      case None
      with st Some show ?thesis by (simp add: object_checks_def registered_def config_rep_def)
    next
      case (Some objs)
      with st obtain S where S: "lg_objects L ?a = Some S" "objects_rep L ?a (types_of st) objs S" "lg_rules L ?a = Some (types_of st)"
        by (auto simp: config_rep_def)
      then have n: "rule_count L b = types_of st" by (intro ext) (simp add: rule_count_def)
      have "case map_GetOk ck_UniqueKey objs b of None \<Rightarrow> b \<notin> S | Some checks \<Rightarrow> b \<in> S \<and> checks_rep (types_of st) (lg_status L b) checks"
        using S(2) assms(2) by (simp add: objects_rep_def)
      with S(1) n \<open>map_GetOk cc_UniqueKey (cks_statuses c) ?a = Some st\<close> Some show ?thesis
        by (simp add: object_checks_def registered_def split: option.splits)
    qed
  qed
qed

section \<open>Objects are reported\<close>

lemma initial_checks:
  fixes types :: "(CheckRuleType, nat) gomap"
  defines "checks \<equiv> foldl (\<lambda>checks (t, n). gmap_put t (replicate n StatusUnknown) checks) [] types"
  assumes "gmap_ok types"
  shows "gmap_ok checks" and "statuses_of checks t = replicate (case gmap_get types t of None \<Rightarrow> 0 | Some n \<Rightarrow> n) StatusUnknown"
proof -
  let ?types = "map (\<lambda>(t, n). (t, replicate n StatusUnknown)) types"
  have eq: "checks = foldl (\<lambda>ret (t, l). if True then gmap_put t l ret else ret) [] ?types"
    unfolding checks_def by (induction types rule: rev_induct) (auto split: prod.split)
  show "gmap_ok checks" unfolding eq by (rule put_all_ok) simp
  have "gmap_get (rev ?types) t = gmap_get ?types t"
    using map_of_inject_set[of "rev ?types" ?types] assms(2) by (simp add: gmap_ok_def rev_map[symmetric] comp_def case_prod_unfold)
  also have "\<dots> = map_option (\<lambda>n. replicate n StatusUnknown) (gmap_get types t)" by (induction types) auto
  finally show "statuses_of checks t = replicate (case gmap_get types t of None \<Rightarrow> 0 | Some n \<Rightarrow> n) StatusUnknown"
    unfolding eq by (cases "gmap_get types t") (simp_all add: statuses_of_def put_all_get[where P = "\<lambda>_. True", simplified])
qed

lemma report_objects_spec:
  assumes "cc_valid a" "gmap_ok types" "\<forall>(u, b) \<in> set objs. ck_valid b" "map_wf ck_UniqueKey ck_valid m"
  defines "checks \<equiv> foldl (\<lambda>checks (t, n). gmap_put t (replicate n StatusUnknown) checks) [] types"
  shows "if \<exists>b \<in> snd ` set objs. ck_ConfigCheckable b \<noteq> a then report_objects a types objs m = None
    else \<exists>m'. report_objects a types objs m = Some m' \<and> map_wf ck_UniqueKey ck_valid m' \<and>
      (\<forall>b. ck_valid b \<longrightarrow> map_GetOk ck_UniqueKey m' b = (if b \<in> snd ` set objs then Some checks else map_GetOk ck_UniqueKey m b))"
  using assms(3,4)
proof (induction objs arbitrary: m)
  case (Cons e objs)
  obtain u b where e: "e = (u, b)" by (cases e)
  have b: "ck_valid b" using Cons.prems(1) e by simp
  have eqv: "cc_UniqueKey a = cc_UniqueKey (ck_ConfigCheckable b) \<longleftrightarrow> ck_ConfigCheckable b = a"
    using ccu.uk_inj[OF assms(1) ck_ConfigCheckable_valid[OF b]] by auto
  show ?case
  proof (cases "ck_ConfigCheckable b = a")
    case True
    let ?m = "map_Put ck_UniqueKey m b checks"
    have eq: "report_objects a types (e # objs) m = report_objects a types objs ?m"
      using True eqv by (simp add: e checks_def)
    have "map_wf ck_UniqueKey ck_valid ?m" by (rule cku.put_wf[OF Cons.prems(2) b])
    note IH = Cons.IH[OF _ this]
    show ?thesis unfolding eq using IH Cons.prems(1) True b cku.get_put[OF b, of _ m checks]
      by (auto simp: e split: if_splits)
  next
    case False
    with eqv show ?thesis by (simp add: e)
  qed
qed simp

lemma rep_modify:
  assumes "rep c L" "cc_valid a" "map_GetOk cc_UniqueKey (cks_statuses c) a = Some st" "config_rep L' a (f st)"
    and "\<And>a'. a' \<noteq> a \<Longrightarrow> lg_rules L' a' = lg_rules L a' \<and> lg_objects L' a' = lg_objects L a'"
    and "\<And>b. ck_ConfigCheckable b \<noteq> a \<Longrightarrow> lg_status L' b = lg_status L b" and "lg_msg L' = lg_msg L"
  shows "rep (c\<lparr>cks_statuses := map_modify cc_UniqueKey (cks_statuses c) a f\<rparr>) L'"
proof -
  have other: "config_rep L' a' st'" if "a' \<noteq> a" "config_rep L a' st'" for a' st'
  proof -
    have "objects_rep L' a' n objs S" if o: "objects_rep L a' n objs S" for n objs S
    proof -
      have "b \<in> S \<Longrightarrow> lg_status L' b = lg_status L b" for b
        using o assms(6) \<open>a' \<noteq> a\<close> by (auto simp: objects_rep_def)
      with o show ?thesis unfolding objects_rep_def by (auto split: option.splits)
    qed
    then show ?thesis using that assms(5)[OF that(1)] assms(6) by (auto simp: config_rep_def split: option.splits)
  qed
  have key: "cc_UniqueKey a' = cc_UniqueKey a \<longleftrightarrow> a' = a" if "cc_valid a'" for a'
    using ccu.uk_inj[OF that assms(2)] by auto
  have "case map_GetOk cc_UniqueKey (map_modify cc_UniqueKey (cks_statuses c) a f) a' of
      None \<Rightarrow> lg_rules L' a' = None \<and> lg_objects L' a' = None | Some st \<Rightarrow> config_rep L' a' st" if a': "cc_valid a'" for a'
  proof (cases "a' = a")
    case True
    then show ?thesis using assms(3,4) by (simp add: get_modify)
  next
    case False
    then show ?thesis using repD[OF assms(1) a'] other[OF False] assms(5)[OF False] key[OF a']
      by (cases "map_GetOk cc_UniqueKey (cks_statuses c) a'") (simp_all add: get_modify)
  qed
  with assms(1,7) show ?thesis by (simp add: rep_def)
qed

lemma ReportObjects_refines:
  assumes "rep c L" "cc_valid a" "aset_wf ck_UniqueKey ck_valid objs"
  shows "rel_option rep (run_report c (ReportObjects a objs)) (spec_report L (ReportObjects a objs))"
proof (cases "map_GetOk cc_UniqueKey (cks_statuses c) a")
  case None
  then show ?thesis using repD(1)[OF assms(1,2)] by (simp add: ReportCheckableObjects_def)
next
  case (Some st)
  have st: "config_rep L a st" by (rule repD(2)[OF assms(1,2) Some])
  then have rules: "lg_rules L a = Some (types_of st)" "gmap_ok (ccs_checkTypes st)" by (auto simp: config_rep_def)
  show ?thesis
  proof (cases "ccs_objects st")
    case None
    with st have fresh: "lg_objects L a = None" "\<And>b t i. ck_ConfigCheckable b = a \<Longrightarrow> lg_status L b t i = StatusUnknown"
      by (auto simp: config_rep_def)
    have v: "\<forall>(u, b) \<in> set objs. ck_valid b" "map_wf ck_UniqueKey ck_valid []" using assms(3) by (auto simp: aset_wf_def map_wf_def)
    note spec = report_objects_spec[OF assms(2) rules(2) v]
    have mem: "snd ` set objs = aset_members objs" by (simp add: aset_members_def)
    show ?thesis
    proof (cases "\<exists>b \<in> aset_members objs. ck_ConfigCheckable b \<noteq> a")
      case True
      then have "report_objects a (ccs_checkTypes st) objs [] = None" using spec by (simp add: mem)
      with True Some None rules fresh show ?thesis by (simp add: ReportCheckableObjects_def)
    next
      case False
      let ?checks = "foldl (\<lambda>checks (t, n). gmap_put t (replicate n StatusUnknown) checks) [] (ccs_checkTypes st)"
      from spec[unfolded mem if_not_P[OF False]] obtain m where m: "report_objects a (ccs_checkTypes st) objs [] = Some m"
        "map_wf ck_UniqueKey ck_valid m"
        "\<And>b. ck_valid b \<Longrightarrow> map_GetOk ck_UniqueKey m b = (if b \<in> aset_members objs then Some ?checks else None)"
        by (auto simp: map_GetOk_def)
      let ?L = "L\<lparr>lg_objects := (lg_objects L)(a := Some (aset_members objs))\<rparr>"
      have "checks_rep (types_of st) (lg_status L b) ?checks" if "ck_ConfigCheckable b = a" for b
        using initial_checks[OF rules(2)] fresh(2)[OF that]
        by (auto simp: checks_rep_def types_of_def map_replicate_const intro: nth_equalityI)
      then have "objects_rep ?L a (types_of st) m (aset_members objs)"
        using m(2,3) False cku.aset_ok[OF assms(3)] by (auto simp: objects_rep_def)
      then have "config_rep ?L a (st\<lparr>ccs_objects := Some m\<rparr>)"
        using rules by (simp add: config_rep_def)
      then have "rep (c\<lparr>cks_statuses := map_modify cc_UniqueKey (cks_statuses c) a (\<lambda>st. st\<lparr>ccs_objects := Some m\<rparr>)\<rparr>) ?L"
        by (intro rep_modify[OF assms(1,2) Some]) simp_all
      with Some None m(1) rules fresh(1) False show ?thesis by (simp add: ReportCheckableObjects_def)
    qed
  next
    case objs: (Some m)
    with st obtain S where "lg_objects L a = Some S" by (auto simp: config_rep_def)
    with Some objs rules assms(1) show ?thesis by (simp add: ReportCheckableObjects_def)
  qed
qed

section \<open>Results are reported\<close>

definition put_status :: "ledger \<Rightarrow> Checkable \<Rightarrow> CheckRuleType \<Rightarrow> nat \<Rightarrow> Status \<Rightarrow> ledger" where
  "put_status L a t i s = L\<lparr>lg_status := (lg_status L)(a := (lg_status L a)(t := (lg_status L a t)(i := s)))\<rparr>"

lemma put_status_facts [simp]:
  "lg_rules (put_status L a t i s) = lg_rules L" "lg_objects (put_status L a t i s) = lg_objects L" "lg_msg (put_status L a t i s) = lg_msg L"
  "b \<noteq> a \<Longrightarrow> lg_status (put_status L a t i s) b = lg_status L b"
  "lg_status (put_status L a t i s) a = (lg_status L a)(t := (lg_status L a t)(i := s))"
  by (simp_all add: put_status_def)

lemma checks_rep_put:
  assumes "checks_rep n f checks" "i < n t"
  shows "checks_rep n (f(t := (f t)(i := s))) (gmap_put t ((statuses_of checks t)[i := s]) checks)"
proof -
  have st: "statuses_of checks t' = map (f t') [0..<n t']" for t' using assms(1) by (simp add: checks_rep_def)
  have upd: "(map (f t) [0..<n t])[i := s] = map ((f t)(i := s)) [0..<n t]" by (rule nth_equalityI) (auto simp: nth_list_update)
  have "statuses_of (gmap_put t ((statuses_of checks t)[i := s]) checks) t' = map ((f(t := (f t)(i := s))) t') [0..<n t']" for t'
    using st[of t'] upd by (cases "t' = t") (simp_all add: statuses_of_def[of "gmap_put _ _ _"] gm.get_put st[of t] statuses_of_def[symmetric])
  then show ?thesis using assms(1) by (simp add: checks_rep_def gm.ok_put)
qed

lemma objects_rep_put:
  assumes "objects_rep L a n objs S" "ck_valid b" "b \<in> S" "i < n t" "map_GetOk ck_UniqueKey objs b = Some checks"
  shows "objects_rep (put_status L b t i s) a n
    (map_modify ck_UniqueKey objs b (gmap_put t ((statuses_of checks t)[i := s]))) S"
proof -
  have rep: "checks_rep n (lg_status L b) checks" using assms(1,2,5) by (force simp: objects_rep_def)
  have "case map_GetOk ck_UniqueKey (map_modify ck_UniqueKey objs b (gmap_put t ((statuses_of checks t)[i := s]))) b' of
      None \<Rightarrow> b' \<notin> S | Some checks \<Rightarrow> b' \<in> S \<and> checks_rep n (lg_status (put_status L b t i s) b') checks" if "ck_valid b'" for b'
  proof (cases "b' = b")
    case True
    then show ?thesis using checks_rep_put[of n "lg_status L b", OF rep assms(4)] assms(3,5) by (simp add: get_modify)
  next
    case False
    then have "ck_UniqueKey b' \<noteq> ck_UniqueKey b" using cku.uk_inj[OF that assms(2)] by blast
    moreover have "case map_GetOk ck_UniqueKey objs b' of None \<Rightarrow> b' \<notin> S | Some checks \<Rightarrow> b' \<in> S \<and> checks_rep n (lg_status L b') checks"
      using assms(1) that by (simp add: objects_rep_def)
    ultimately show ?thesis using False by (cases "map_GetOk ck_UniqueKey objs b'") (simp_all add: get_modify)
  qed
  with assms(1) show ?thesis by (simp add: objects_rep_def)
qed

lemma reportCheckResult_refines:
  assumes "rep c L" "ck_valid b"
  shows "rel_option rep (reportCheckResult c b t i s) (set_status L b t i s)"
proof (cases "object_checks c b")
  case None
  then have "\<not> registered L b" using rep_object_checks[OF assms] by simp
  moreover from None have "reportCheckResult c b t i s = None"
    by (auto simp: reportCheckResult_def object_checks_def map_GetOk_def Let_def split: option.splits)
  ultimately show ?thesis by (simp add: set_status_def)
next
  case (Some checks)
  let ?a = "ck_ConfigCheckable b"
  from Some obtain st objs where st: "map_GetOk cc_UniqueKey (cks_statuses c) ?a = Some st" "ccs_objects st = Some objs"
    "map_GetOk ck_UniqueKey objs b = Some checks" by (auto simp: object_checks_def split: option.splits)
  have a: "cc_valid ?a" by (rule ck_ConfigCheckable_valid[OF assms(2)])
  from repD(2)[OF assms(1) a st(1)] st(2) obtain S where S: "lg_rules L ?a = Some (types_of st)" "gmap_ok (ccs_checkTypes st)"
    "lg_objects L ?a = Some S" "objects_rep L ?a (types_of st) objs S" by (auto simp: config_rep_def)
  have b: "b \<in> S" "checks_rep (types_of st) (lg_status L b) checks" using S(4) st(3) assms(2) by (force simp: objects_rep_def)+
  have n: "rule_count L b = types_of st" by (rule ext) (simp add: rule_count_def S(1))
  have l: "statuses_of checks t = map (lg_status L b t) [0..<types_of st t]" using b(2) by (simp add: checks_rep_def)
  let ?f = "\<lambda>st. st\<lparr>ccs_objects := map_option (\<lambda>objs. map_modify ck_UniqueKey objs b
      (gmap_put t ((statuses_of checks t)[nat i := s]))) (ccs_objects st)\<rparr>"
  let ?c = "c\<lparr>cks_statuses := map_modify cc_UniqueKey (cks_statuses c) ?a ?f\<rparr>"
  have run: "reportCheckResult c b t i s = (if i \<ge> int (types_of st t) \<or> i < 0 \<or> lg_status L b t (nat i) \<noteq> StatusUnknown then None else Some ?c)"
    using st by (auto simp: reportCheckResult_def statuses_of_def[symmetric] l Let_def)
  have reg: "registered L b" using S(3) b(1) by (simp add: registered_def)
  show ?thesis
  proof (cases "0 \<le> i \<and> nat i < types_of st t \<and> lg_status L b t (nat i) = StatusUnknown")
    case True
    have sp: "set_status L b t i s = Some (put_status L b t (nat i) s)" using True reg n by (simp add: set_status_def put_status_def)
    have "objects_rep (put_status L b t (nat i) s) ?a (types_of st) (map_modify ck_UniqueKey objs b (gmap_put t ((statuses_of checks t)[nat i := s]))) S"
      by (rule objects_rep_put[OF S(4) assms(2) b(1) _ st(3)]) (use True in simp)
    then have "config_rep (put_status L b t (nat i) s) ?a (?f st)" using S st(2) by (simp add: config_rep_def)
    then have "rep ?c (put_status L b t (nat i) s)"
      by (rule rep_modify[OF assms(1) a st(1)]) (auto simp: put_status_def)
    moreover have "\<not> i \<ge> int (types_of st t)" using True by linarith
    ultimately show ?thesis using True unfolding run sp by simp
  next
    case False
    then have "set_status L b t i s = None" using n by (simp add: set_status_def)
    moreover have "reportCheckResult c b t i s = None" unfolding run using False by auto
    ultimately show ?thesis by simp
  qed
qed

lemma get_rule:
  assumes "ck_valid a" "ck_valid b"
  shows "map_Get [] cru_UniqueKey (map_Put cru_UniqueKey m (NewCheckRule a t i) msg) (NewCheckRule b t' i') =
    (if b = a \<and> t' = t \<and> i' = i then msg else map_Get [] cru_UniqueKey m (NewCheckRule b t' i'))"
proof -
  have v: "cru_valid (NewCheckRule a t i)" "cru_valid (NewCheckRule b t' i')" using assms by (simp_all add: cru_valid_def NewCheckRule_def)
  have get: "map_Get [] cru_UniqueKey m r = (case map_GetOk cru_UniqueKey m r of None \<Rightarrow> [] | Some v \<Rightarrow> v)" for r :: CheckRule and m
    by (auto simp: map_Get_def map_GetOk_def split: option.split)
  have "NewCheckRule b t' i' = NewCheckRule a t i \<longleftrightarrow> b = a \<and> t' = t \<and> i' = i" by (auto simp: NewCheckRule_def)
  then show ?thesis unfolding get cru.get_put[OF v] by simp
qed

lemma reportCheckResult_msgs: "reportCheckResult c b t i s = Some c' \<Longrightarrow> cks_failureMsgs c' = cks_failureMsgs c"
  by (auto simp: reportCheckResult_def Let_def split: option.splits if_splits)

lemma ReportFailure_refines:
  assumes "rep c L" "ck_valid b"
  shows "rel_option rep (ReportCheckFailure c b t i msg) (spec_report L (ReportFailure b t i msg))"
proof (cases "reportCheckResult c b t i StatusFail")
  case None
  then have "set_status L b t i StatusFail = None" using reportCheckResult_refines[OF assms, of t i StatusFail] by simp
  with None show ?thesis by (simp add: ReportCheckFailure_def)
next
  case (Some c')
  then obtain L' where L': "set_status L b t i StatusFail = Some L'" "rep c' L'"
    using reportCheckResult_refines[OF assms, of t i StatusFail] by (cases "set_status L b t i StatusFail") auto
  have i: "0 \<le> i" using L'(1) by (simp add: set_status_def split: if_splits)
  let ?m = "map_Put cru_UniqueKey (nil_map (cks_failureMsgs c')) (NewCheckRule b t i) msg"
  let ?L = "L'\<lparr>lg_msg := (lg_msg L')(b := (lg_msg L' b)(t := (lg_msg L' b t)(nat i := msg)))\<rparr>"
  have run: "ReportCheckFailure c b t i msg = Some (c'\<lparr>cks_failureMsgs := Some ?m\<rparr>)"
    using Some by (cases "cks_failureMsgs c'") (simp_all add: ReportCheckFailure_def nil_map_def MakeMap_def)
  have "map_Get [] cru_UniqueKey ?m (NewCheckRule b' t' i') = lg_msg ?L b' t' (nat i')" if "ck_valid b'" "0 \<le> i'" for b' t' i'
    using L'(2) that i assms(2) unfolding get_rule[OF assms(2) that(1)] by (auto simp: rep_def nat_eq_iff)
  moreover have "config_rep ?L = config_rep L'" by (intro ext) (simp add: config_rep_def objects_rep_def cong: option.case_cong)
  ultimately have "rep (c'\<lparr>cks_failureMsgs := Some ?m\<rparr>) ?L" using L'(2) by (simp add: rep_def nil_map_def cong: option.case_cong)
  then show ?thesis unfolding run spec_report.simps L'(1) by simp
qed

lemma run_refines:
  assumes "rep c L"
  shows "list_all report_valid rs \<Longrightarrow> rel_option rep (run_all run_report c rs) (run_all spec_report L rs)"
  using assms
proof (induction rs arbitrary: c L)
  case (Cons r rs)
  have "rel_option rep (run_report c r) (spec_report L r)"
  proof (cases r)
    case (ReportObjects a objs)
    then show ?thesis using ReportObjects_refines Cons.prems by (simp del: run_report.simps spec_report.simps)
  next
    case (ReportResult b t i s)
    then show ?thesis using reportCheckResult_refines Cons.prems by (simp add: ReportCheckResult_def)
  next
    case (ReportFailure b t i msg)
    then show ?thesis using ReportFailure_refines Cons.prems by (simp del: spec_report.simps)
  qed
  then show ?case using Cons by (cases "run_report c r"; cases "spec_report L r") auto
qed simp

section \<open>Summaries\<close>

definition worst :: "Status set \<Rightarrow> Status" where
  "worst S = (if StatusError \<in> S then StatusError else if StatusFail \<in> S then StatusFail
     else if StatusUnknown \<in> S then StatusUnknown else StatusPass)"

lemma tally_all:
  "foldl tally (e, f, u) l = (e + count_list l StatusError, f + count_list l StatusFail, u + count_list l StatusUnknown)"
proof (induction l arbitrary: e f u)
  case (Cons s l)
  then show ?case by (cases s) simp_all
qed simp

lemma summarize_tally:
  "(case foldl tally (0, 0, 0) l of (e, f, u) \<Rightarrow> Some (summarizeCheckStatuses e f u)) = Some (worst (set l))"
  by (simp add: tally_all summarizeCheckStatuses_def worst_def count_list_0_iff)

lemma tally_checks_concat: "tally_checks counts checks = foldl tally counts (concat (map snd checks))"
  by (induction checks arbitrary: counts) (auto simp: tally_checks_def)

lemma tally_objects_concat:
  "foldl (\<lambda>counts (_, _, checks). tally_checks counts checks) counts objs = foldl tally counts (concat (map (concat \<circ> map snd \<circ> snd \<circ> snd) objs))"
  by (induction objs arbitrary: counts) (auto simp: tally_checks_concat)

text \<open>The statuses of the rules of an object.\<close>

definition object_statuses :: "ledger \<Rightarrow> Checkable \<Rightarrow> Status set" where
  "object_statuses L b = {lg_status L b t i | t i. i < rule_count L b t}"

lemma checks_rep_statuses:
  assumes "checks_rep n s checks"
  shows "set (concat (map snd checks)) = {s t i | t i. i < n t}"
proof (intro set_eqI iffI)
  have get: "(t, l) \<in> set checks \<longleftrightarrow> gmap_get checks t = Some l" for t l
    using assms by (simp add: checks_rep_def gmap_get_in_set)
  have st: "statuses_of checks t = map (s t) [0..<n t]" for t using assms by (simp add: checks_rep_def)
  fix x
  {
    assume "x \<in> set (concat (map snd checks))"
    then obtain t l where "(t, l) \<in> set checks" "x \<in> set l" by auto
    then have "x \<in> set (statuses_of checks t)" by (simp add: get statuses_of_def)
    then obtain i where "i < n t" "x = s t i" by (auto simp: st)
    then show "x \<in> {s t i | t i. i < n t}" by blast
  next
    assume "x \<in> {s t i | t i. i < n t}"
    then obtain t i where "i < n t" "x = s t i" by blast
    then have "x \<in> set (statuses_of checks t)" by (auto simp: st)
    then obtain l where "gmap_get checks t = Some l" "x \<in> set l" by (cases "gmap_get checks t") (auto simp: statuses_of_def)
    then show "x \<in> set (concat (map snd checks))" using get by force
  }
qed

lemma ObjectCheckStatus_spec:
  assumes "rep c L" "ck_valid b"
  shows "ObjectCheckStatus c b = (if registered L b then Some (worst (object_statuses L b)) else None)"
  using rep_object_checks[OF assms]
  by (auto simp: ObjectCheckStatus_def tally_checks_concat summarize_tally object_statuses_def checks_rep_statuses simp del: set_concat split: option.splits)

definition config_statuses :: "ledger \<Rightarrow> Checkable set \<Rightarrow> Status set" where
  "config_statuses L S = (\<Union>b \<in> S. object_statuses L b)"

lemma objects_rep_elements:
  assumes "objects_rep L a n objs S"
  shows "(u, b, checks) \<in> set objs \<Longrightarrow> b \<in> S \<and> ck_valid b \<and> checks_rep n (lg_status L b) checks"
    and "b \<in> S \<Longrightarrow> \<exists>u checks. (u, b, checks) \<in> set objs"
proof -
  have wf: "map_wf ck_UniqueKey ck_valid objs" using assms by (simp add: objects_rep_def)
  have el: "(\<exists>u. (u, b, checks) \<in> set objs) \<longleftrightarrow> map_GetOk ck_UniqueKey objs b = Some checks" if "ck_valid b" for b checks
    using cku.get_elements[OF wf that, of checks] by (force simp: map_Elements_def)
  {
    assume e: "(u, b, checks) \<in> set objs"
    then have v: "ck_valid b" using wf by (auto simp: map_wf_def)
    then have "map_GetOk ck_UniqueKey objs b = Some checks" using el[OF v, of checks] e by blast
    with v show "b \<in> S \<and> ck_valid b \<and> checks_rep n (lg_status L b) checks" using assms by (force simp: objects_rep_def)
  next
    assume b: "b \<in> S"
    then have v: "ck_valid b" using assms by (simp add: objects_rep_def)
    have "case map_GetOk ck_UniqueKey objs b of None \<Rightarrow> b \<notin> S | Some checks \<Rightarrow> b \<in> S \<and> checks_rep n (lg_status L b) checks"
      using v assms by (simp add: objects_rep_def)
    with b have "map_GetOk ck_UniqueKey objs b \<noteq> None" by (cases "map_GetOk ck_UniqueKey objs b") simp_all
    then show "\<exists>u checks. (u, b, checks) \<in> set objs" using el[OF v] by blast
  }
qed

lemma AggregateCheckStatus_spec:
  assumes "rep c L" "cc_valid a"
  shows "AggregateCheckStatus c a = (if lg_rules L a = None then None else Some (case lg_objects L a of None \<Rightarrow> StatusUnknown | Some S \<Rightarrow> worst (config_statuses L S)))"
proof (cases "map_GetOk cc_UniqueKey (cks_statuses c) a")
  case None
  then show ?thesis using repD(1)[OF assms] by (simp add: AggregateCheckStatus_def)
next
  case (Some st)
  have st: "config_rep L a st" by (rule repD(2)[OF assms Some])
  show ?thesis
  proof (cases "ccs_objects st")
    case None
    with Some st show ?thesis by (simp add: AggregateCheckStatus_def config_rep_def)
  next
    case (Some objs)
    with st obtain S where S: "lg_rules L a = Some (types_of st)" "lg_objects L a = Some S" "objects_rep L a (types_of st) objs S"
      by (auto simp: config_rep_def)
    have n: "rule_count L b = types_of st" if "b \<in> S" for b
      using that S by (intro ext) (simp add: rule_count_def objects_rep_def)
    have part: "set (concat (map snd checks)) = object_statuses L b" if "(u, b, checks) \<in> set objs" for u b checks
      using objects_rep_elements(1)[OF S(3) that] n[of b] checks_rep_statuses[of "types_of st" "lg_status L b" checks] by (simp add: object_statuses_def)
    have "set (concat (map (concat \<circ> map snd \<circ> snd \<circ> snd) objs)) = config_statuses L S"
      using part objects_rep_elements[OF S(3)] unfolding config_statuses_def by force
    with S \<open>map_GetOk cc_UniqueKey (cks_statuses c) a = Some st\<close> Some show ?thesis
      by (simp add: AggregateCheckStatus_def tally_objects_concat summarize_tally del: set_concat)
  qed
qed

end
