(* ===== verification/Checks_Props.thy ===== *)
theory Checks_Props
  imports Checks_Refine
begin

text \<open>
  The properties of the container of check statuses: what it tracks of a configuration, that
  the reports refine the ledger, and that the results kept in the state are a faithful snapshot.
\<close>

section \<open>What a configuration declares\<close>

definition decl_resource :: "Module \<Rightarrow> Resource_cfg \<Rightarrow> (ConfigCheckable \<times> (CheckRuleType \<Rightarrow> nat)) list" where
  "decl_resource path rc =
     (if rcc_Preconditions rc = [] \<and> rcc_Postconditions rc = [] then []
      else [(CcResource \<lparr>cr_Module = path, cr_Resource = rcc_Addr rc\<rparr>,
        (\<lambda>_. 0)(ResourcePrecondition := length (rcc_Preconditions rc), ResourcePostcondition := length (rcc_Postconditions rc)))])"

definition decl_output :: "Module \<Rightarrow> Output_cfg \<Rightarrow> (ConfigCheckable \<times> (CheckRuleType \<Rightarrow> nat)) list" where
  "decl_output path oc =
     (if outc_Preconditions oc = [] then []
      else [(CcOutputValue \<lparr>cov_Module = path, cov_Name = outc_Name oc\<rparr>, (\<lambda>_. 0)(OutputPrecondition := length (outc_Preconditions oc)))])"

definition decl_check :: "Module \<Rightarrow> Check_cfg \<Rightarrow> (ConfigCheckable \<times> (CheckRuleType \<Rightarrow> nat)) list" where
  "decl_check path c =
     [(CcCheck \<lparr>cck_Module = path, cck_Check = \<lparr>chk_Name = ckc_Name c\<rparr>\<rparr>,
       (\<lambda>_. 0)(CheckAssertion := length (ckc_Asserts c), CheckDataResource := (if ckc_DataResource c = None then 0 else 1)))]"

definition decl_variable :: "Module \<Rightarrow> Variable_cfg \<Rightarrow> (ConfigCheckable \<times> (CheckRuleType \<Rightarrow> nat)) list" where
  "decl_variable path v =
     (if varc_Validations v = [] then []
      else [(CcInputVariable \<lparr>civ_Module = path, civ_Variable = \<lparr>iv_Name = varc_Name v\<rparr>\<rparr>, (\<lambda>_. 0)(InputValidation := length (varc_Validations v)))])"

definition decl_module :: "Module \<Rightarrow> 'pv Module_cfg \<Rightarrow> (ConfigCheckable \<times> (CheckRuleType \<Rightarrow> nat)) list" where
  "decl_module path md =
     concat (map (decl_resource path \<circ> snd) (mdc_ManagedResources md @ mdc_DataResources md @ mdc_EphemeralResources md)) @
     concat (map (decl_output path \<circ> snd) (mdc_Outputs md)) @
     concat (map (decl_check path \<circ> snd) (mdc_Checks md)) @
     concat (map (decl_variable path \<circ> snd) (mdc_Variables md))"

fun declared :: "'pv Config \<Rightarrow> (ConfigCheckable \<times> (CheckRuleType \<Rightarrow> nat)) list"
  and declared_children :: "(string \<times> 'pv Config) list \<Rightarrow> (ConfigCheckable \<times> (CheckRuleType \<Rightarrow> nat)) list" where
  "declared (Config path md children) = decl_module path md @ declared_children children"
| "declared_children [] = []"
| "declared_children ((_, child) # rest) = declared child @ declared_children rest"

definition initial_ledger :: "'pv Config \<Rightarrow> ledger" where
  "initial_ledger cfg = \<lparr>lg_rules = map_of (rev (declared cfg)), lg_objects = (\<lambda>_. None),
     lg_status = (\<lambda>_ _ _. StatusUnknown), lg_msg = (\<lambda>_ _ _. [])\<rparr>"

section \<open>The initial statuses\<close>

text \<open>
  \<open>tracks d m\<close>: the map of initial statuses holds the declarations \<open>d\<close>, a later one replacing an
  earlier one of the same object.
\<close>

definition tracks :: "(ConfigCheckable \<times> (CheckRuleType \<Rightarrow> nat)) list \<Rightarrow> statuses \<Rightarrow> bool" where
  "tracks d m \<longleftrightarrow> map_wf cc_UniqueKey cc_valid m \<and>
     (\<forall>a. cc_valid a \<longrightarrow> (case map_GetOk cc_UniqueKey m a of
        None \<Rightarrow> map_of (rev d) a = None
      | Some st \<Rightarrow> map_of (rev d) a = Some (types_of st) \<and> gmap_ok (ccs_checkTypes st) \<and> ccs_objects st = None))"

lemma tracks_put:
  assumes "tracks d m" "cc_valid a" "gmap_ok types" "\<And>t. n t = (case gmap_get types t of None \<Rightarrow> 0 | Some k \<Rightarrow> k)"
  shows "tracks (d @ [(a, n)]) (map_Put cc_UniqueKey m a \<lparr>ccs_checkTypes = types, ccs_objects = None\<rparr>)"
proof -
  have n: "types_of \<lparr>ccs_checkTypes = types, ccs_objects = None\<rparr> = n" by (rule ext) (simp add: types_of_def assms(4))
  have get: "case map_GetOk cc_UniqueKey (map_Put cc_UniqueKey m a \<lparr>ccs_checkTypes = types, ccs_objects = None\<rparr>) a' of
      None \<Rightarrow> map_of (rev (d @ [(a, n)])) a' = None
    | Some st \<Rightarrow> map_of (rev (d @ [(a, n)])) a' = Some (types_of st) \<and> gmap_ok (ccs_checkTypes st) \<and> ccs_objects st = None"
    if "cc_valid a'" for a'
    using assms(1-3) that n unfolding ccu.get_put[OF assms(2) that] tracks_def
    by (cases "a' = a"; cases "map_GetOk cc_UniqueKey m a'") force+
  have wf: "map_wf cc_UniqueKey cc_valid m" using assms(1) by (simp add: tracks_def)
  show ?thesis unfolding tracks_def by (intro conjI allI impI) (rule ccu.put_wf[OF wf assms(2)], rule get)
qed

definition all_cc_valid :: "(ConfigCheckable \<times> 'n) list \<Rightarrow> bool" where
  "all_cc_valid d \<longleftrightarrow> list_all (\<lambda>e. cc_valid (fst e)) d"

lemma tracks_fold:
  assumes "\<And>d m x. tracks d m \<Longrightarrow> all_cc_valid (g x) \<Longrightarrow> tracks (d @ g x) (f m x)"
  shows "tracks d m \<Longrightarrow> all_cc_valid (concat (map g xs)) \<Longrightarrow> tracks (d @ concat (map g xs)) (foldl f m xs)"
proof (induction xs arbitrary: d m)
  case (Cons x xs)
  then have "tracks (d @ g x) (f m x)" "all_cc_valid (concat (map g xs))" using assms by (simp_all add: all_cc_valid_def)
  from Cons.IH[OF this] show ?case by simp
qed simp

lemma tracks_resource:
  assumes "tracks d m" "all_cc_valid (decl_resource path rc)"
  shows "tracks (d @ decl_resource path rc) (collectInitialStatusForResource m \<lparr>cr_Module = path, cr_Resource = rcc_Addr rc\<rparr> rc)"
  using assms unfolding decl_resource_def collectInitialStatusForResource_def Let_def
  by (auto simp: all_cc_valid_def gm.get_put gm.ok_put gmap_ok_def intro!: tracks_put)

lemma tracks_module:
  assumes "tracks d m" "all_cc_valid (decl_module path md)"
  shows "tracks (d @ decl_module path md)
     (collect_variables path (mdc_Variables md) (collect_checks path (mdc_Checks md) (collect_outputs path (mdc_Outputs md)
       (collect_resources path (mdc_EphemeralResources md) (collect_resources path (mdc_DataResources md)
         (collect_resources path (mdc_ManagedResources md) m))))))"
proof -
  have r: "tracks (d @ concat (map (decl_resource path \<circ> snd) rcs)) (collect_resources path rcs m)"
    if "tracks d m" "all_cc_valid (concat (map (decl_resource path \<circ> snd) rcs))" for d m and rcs :: "(string, Resource_cfg) gomap"
    unfolding collect_resources_def by (rule tracks_fold[OF _ that]) (auto intro: tracks_resource split: prod.split)
  have o: "tracks (d @ concat (map (decl_output path \<circ> snd) ocs)) (collect_outputs path ocs m)"
    if "tracks d m" "all_cc_valid (concat (map (decl_output path \<circ> snd) ocs))" for d m and ocs :: "(string, Output_cfg) gomap"
    unfolding collect_outputs_def
    by (rule tracks_fold[OF _ that]) (auto simp: decl_output_def all_cc_valid_def Let_def gmap_ok_def intro!: tracks_put split: prod.split)
  have c: "tracks (d @ concat (map (decl_check path \<circ> snd) cs)) (collect_checks path cs m)"
    if "tracks d m" "all_cc_valid (concat (map (decl_check path \<circ> snd) cs))" for d m and cs :: "(string, Check_cfg) gomap"
    unfolding collect_checks_def
    by (rule tracks_fold[OF _ that]) (auto simp: decl_check_def all_cc_valid_def Let_def chk_InModule_def gm.get_put gm.ok_put gmap_ok_def intro!: tracks_put split: prod.split)
  have v: "tracks (d @ concat (map (decl_variable path \<circ> snd) vs)) (collect_variables path vs m)"
    if "tracks d m" "all_cc_valid (concat (map (decl_variable path \<circ> snd) vs))" for d m and vs :: "(string, Variable_cfg) gomap"
    unfolding collect_variables_def
    by (rule tracks_fold[OF _ that]) (auto simp: decl_variable_def all_cc_valid_def Let_def iv_InModule_def gmap_ok_def intro!: tracks_put split: prod.split)
  have val: "all_cc_valid (x @ y) \<longleftrightarrow> all_cc_valid x \<and> all_cc_valid y" for x y :: "(ConfigCheckable \<times> (CheckRuleType \<Rightarrow> nat)) list"
    by (simp add: all_cc_valid_def)
  from v[OF c[OF o[OF r[OF r[OF r[OF assms(1)]]]]]] assms(2) show ?thesis by (simp add: decl_module_def val)
qed

lemma tracks_config:
  fixes cfg :: "'pv Config" and cs :: "(string \<times> 'pv Config) list"
  shows "tracks d m \<Longrightarrow> all_cc_valid (declared cfg) \<Longrightarrow> tracks (d @ declared cfg) (collectInitialStatuses m cfg)"
    and "tracks d m \<Longrightarrow> all_cc_valid (declared_children cs) \<Longrightarrow> tracks (d @ declared_children cs) (collect_children m cs)"
proof (induction m cfg and m cs arbitrary: d and d rule: collectInitialStatuses_collect_children.induct)
  case (1 m path md children)
  then have v: "all_cc_valid (decl_module path md)" "all_cc_valid (declared_children children)" by (simp_all add: all_cc_valid_def)
  from "1.IH"[OF tracks_module[OF "1.prems"(1) v(1)] v(2)] show ?case by simp
next
  case (3 m n child rest)
  then have v: "all_cc_valid (declared child)" "all_cc_valid (declared_children rest)" by (simp_all add: all_cc_valid_def)
  from "3.IH"(2)[OF "3.IH"(1)[OF "3.prems"(1) v(1)] v(2)] show ?case by simp
qed simp

lemma rep_initial:
  assumes "all_cc_valid (declared cfg)"
  shows "rep (NewChecksState (Some cfg)) (initial_ledger cfg)"
proof -
  have "tracks [] []" by (simp add: tracks_def map_wf_def map_GetOk_def)
  from tracks_config(1)[OF this assms] have t: "tracks (declared cfg) (initialStatuses (Some cfg))" by (simp add: initialStatuses_def)
  have "config_rep (initial_ledger cfg) a st"
    if "map_of (rev (declared cfg)) a = Some (types_of st) \<and> gmap_ok (ccs_checkTypes st) \<and> ccs_objects st = None" for a st
    using that by (simp add: config_rep_def initial_ledger_def)
  with t show ?thesis unfolding rep_def tracks_def
    by (auto simp: NewChecksState_def initial_ledger_def nil_map_def map_Get_def split: option.splits)
qed

section \<open>Failure messages\<close>

definition messages :: "ledger \<Rightarrow> Checkable \<Rightarrow> string set" where
  "messages L b = {lg_msg L b t i | t i. i < rule_count L b t \<and> lg_status L b t i = StatusFail \<and> lg_msg L b t i \<noteq> []}"

lemma fail_messages_set:
  assumes "rep c L" "ck_valid b"
  shows "set (fail_messages c b t (int k) l) = {x. \<exists>j < length l. l ! j = StatusFail \<and> lg_msg L b t (k + j) \<noteq> [] \<and> x = lg_msg L b t (k + j)}"
proof (induction l arbitrary: k)
  case (Cons s l)
  have msg: "map_Get [] cru_UniqueKey (case cks_failureMsgs c of None \<Rightarrow> [] | Some msgs \<Rightarrow> msgs) (NewCheckRule b t (int k)) = lg_msg L b t k"
    using assms by (simp add: rep_def nil_map_def)
  have "set (fail_messages c b t (int k) (s # l)) =
      (if s = StatusFail \<and> lg_msg L b t k \<noteq> [] then {lg_msg L b t k} else {}) \<union> set (fail_messages c b t (int (Suc k)) l)"
    by (auto simp: msg Let_def add.commute)
  also have "\<dots> = {x. \<exists>j < length (s # l). (s # l) ! j = StatusFail \<and> lg_msg L b t (k + j) \<noteq> [] \<and> x = lg_msg L b t (k + j)}"
    unfolding Cons.IH by (auto simp: Ex_less_Suc2)
  finally show ?case .
qed simp

lemma ObjectFailureMessages_spec:
  assumes "rep c L" "ck_valid b"
  shows "case ObjectFailureMessages c b of None \<Rightarrow> \<not> registered L b | Some msgs \<Rightarrow> registered L b \<and> sorted msgs \<and> set msgs = messages L b"
proof (cases "object_checks c b")
  case None
  then show ?thesis using rep_object_checks[OF assms] by (simp add: ObjectFailureMessages_def)
next
  case (Some checks)
  then have r: "registered L b" "checks_rep (rule_count L b) (lg_status L b) checks" using rep_object_checks[OF assms] by simp_all
  have get: "(t, l) \<in> set checks \<longleftrightarrow> gmap_get checks t = Some l" for t l using r(2) by (simp add: checks_rep_def gmap_get_in_set)
  have st: "(t, l) \<in> set checks \<Longrightarrow> l = map (lg_status L b t) [0..<rule_count L b t]" for t l
    using r(2) by (simp add: checks_rep_def get statuses_of_def) (metis option.simps(5))
  have ex: "\<exists>l. (t, l) \<in> set checks" if "i < rule_count L b t" for t i
    using r(2) that by (cases "gmap_get checks t") (auto simp: checks_rep_def get statuses_of_def dest: spec[of _ t])
  define A where "A t = {lg_msg L b t i | i. i < rule_count L b t \<and> lg_status L b t i = StatusFail \<and> lg_msg L b t i \<noteq> []}" for t
  have one: "set (fail_messages c b t 0 l) = A t" if "(t, l) \<in> set checks" for t l
    using fail_messages_set[OF assms, of t 0 l] st[OF that] by (auto simp: A_def)
  have "messages L b = (\<Union>t. A t)" by (auto simp: messages_def A_def)
  also have "\<dots> = (\<Union>(t, l) \<in> set checks. A t)" using ex by (fastforce simp: A_def)
  also have "\<dots> = (\<Union>(t, l) \<in> set checks. set (fail_messages c b t 0 l))" using one by (intro SUP_cong) auto
  finally have "(\<Union>(t, l) \<in> set checks. set (fail_messages c b t 0 l)) = messages L b" ..
  then show ?thesis using Some r(1) by (simp add: ObjectFailureMessages_def case_prod_unfold)
qed

end
