(* ===== verification/Checks_Results.thy ===== *)
theory Checks_Results
  imports Checks_Props
begin

text \<open>
  The snapshot of the check statuses that the state keeps: it is built without a panic, and a
  lookup in it returns what the container said of the object.
\<close>

section \<open>The addresses that are iterated over\<close>

lemma put_fresh: "k \<notin> fst ` set m \<Longrightarrow> gmap_put k v m = m @ [(k, v)]"
  by (induction m) auto

lemma put_all_fresh:
  "distinct (map fst es) \<Longrightarrow> fst ` set acc \<inter> fst ` set es = {} \<Longrightarrow> foldl (\<lambda>ret (k, v). gmap_put k v ret) acc es = acc @ es"
proof (induction es arbitrary: acc)
  case (Cons e es)
  then show ?case by (cases e) (auto simp: put_fresh)
qed simp

definition addrs_of :: "('u, 'k, 'v) addr_map \<Rightarrow> ('u \<times> 'k) list" where
  "addrs_of m = map (\<lambda>(u, k, v). (u, k)) m"

lemma map_Keys_addrs: "map_wf uk ok m \<Longrightarrow> map_Keys m = addrs_of m"
  using put_all_fresh[of "addrs_of m" "[]"]
  by (simp add: map_Keys_def addrs_of_def foldl_map case_prod_unfold map_wf_def gmap_ok_def comp_def)

lemma add_all_addrs:
  assumes "map_wf uk ok m"
  shows "foldl (\<lambda>ret (_, key, _). aset_Add uk ret key) [] m = addrs_of m"
proof -
  have "foldl (\<lambda>ret (_, key, _). aset_Add uk ret key) acc m = foldl (\<lambda>ret (k, v). gmap_put k v ret) acc (addrs_of m)" for acc
    using assms by (induction m arbitrary: acc) (auto simp: addrs_of_def aset_Add_def map_wf_def gmap_ok_def)
  then show ?thesis using assms put_all_fresh[of "addrs_of m" "[]"]
    by (simp add: addrs_of_def map_wf_def gmap_ok_def comp_def case_prod_unfold)
qed

section \<open>Object results\<close>

definition object_result :: "ChecksState \<Rightarrow> Checkable \<Rightarrow> CheckResultObject" where
  "object_result c b = \<lparr>cro_Status = the (ObjectCheckStatus c b), cro_FailureMessages = the (ObjectFailureMessages c b)\<rparr>"

lemma object_results_spec:
  "\<forall>(u, b) \<in> set objs. ck_valid b \<and> ObjectCheckStatus c b \<noteq> None \<and> ObjectFailureMessages c b \<noteq> None \<Longrightarrow>
    \<exists>m. object_results c objs res = Some m \<and>
      (\<forall>b. ck_valid b \<longrightarrow> map_GetOk ck_UniqueKey m b = (if b \<in> snd ` set objs then Some (object_result c b) else map_GetOk ck_UniqueKey res b))"
proof (induction objs arbitrary: res)
  case (Cons e objs)
  obtain u b where e: "e = (u, b)" by (cases e)
  have b: "ck_valid b" "ObjectCheckStatus c b \<noteq> None" "ObjectFailureMessages c b \<noteq> None" using Cons.prems e by auto
  have eq: "object_results c (e # objs) res = object_results c objs (map_Put ck_UniqueKey res b (object_result c b))"
    using b(2,3) by (auto simp: e object_result_def)
  from Cons.IH[of "map_Put ck_UniqueKey res b (object_result c b)"] Cons.prems obtain m where
    m: "object_results c objs (map_Put ck_UniqueKey res b (object_result c b)) = Some m"
      "\<forall>b'. ck_valid b' \<longrightarrow> map_GetOk ck_UniqueKey m b' = (if b' \<in> snd ` set objs then Some (object_result c b')
         else map_GetOk ck_UniqueKey (map_Put ck_UniqueKey res b (object_result c b)) b')" by auto
  show ?case unfolding eq using m by (auto simp: e cku.get_put[OF b(1)])
qed simp

text \<open>The objects of a configuration object, as the ledger knows them.\<close>

definition known_objects :: "ledger \<Rightarrow> ConfigCheckable \<Rightarrow> Checkable set" where
  "known_objects L a = (case lg_objects L a of None \<Rightarrow> {} | Some S \<Rightarrow> S)"

lemma ObjectAddrs_spec:
  assumes "rep c L" "cc_valid a" "lg_rules L a \<noteq> None"
  shows "\<exists>objs. ObjectAddrs c a = Some objs \<and> snd ` set objs = known_objects L a"
proof -
  obtain st where st: "map_GetOk cc_UniqueKey (cks_statuses c) a = Some st"
    using repD(1)[OF assms(1,2)] assms(3) by (cases "map_GetOk cc_UniqueKey (cks_statuses c) a") simp_all
  have r: "config_rep L a st" by (rule repD(2)[OF assms(1,2) st])
  show ?thesis
  proof (cases "ccs_objects st")
    case None
    with r st show ?thesis by (simp add: ObjectAddrs_def MakeSet_def config_rep_def known_objects_def)
  next
    case (Some objs)
    with r obtain S where S: "lg_objects L a = Some S" "objects_rep L a (types_of st) objs S" by (auto simp: config_rep_def)
    have wf: "map_wf ck_UniqueKey ck_valid objs" using S(2) by (simp add: objects_rep_def)
    have "snd ` set (addrs_of objs) = S" using objects_rep_elements[OF S(2)] by (force simp: addrs_of_def)
    then show ?thesis using Some st S(1) add_all_addrs[OF wf] by (simp add: ObjectAddrs_def MakeSet_def known_objects_def)
  qed
qed

lemma known_registered: "rep c L \<Longrightarrow> cc_valid a \<Longrightarrow> b \<in> known_objects L a \<Longrightarrow> ck_valid b \<and> ck_ConfigCheckable b = a \<and> registered L b"
proof -
  assume r: "rep c L" and a: "cc_valid a" and b: "b \<in> known_objects L a"
  then obtain S where S: "lg_objects L a = Some S" "b \<in> S" by (auto simp: known_objects_def split: option.splits)
  then obtain st where "map_GetOk cc_UniqueKey (cks_statuses c) a = Some st"
    using repD(1)[OF r a] by (cases "map_GetOk cc_UniqueKey (cks_statuses c) a") simp_all
  from repD(2)[OF r a this] S have "ck_valid b" "ck_ConfigCheckable b = a"
    by (auto simp: config_rep_def objects_rep_def split: option.splits)
  with S show ?thesis by (simp add: registered_def)
qed

section \<open>Configuration results\<close>

definition aggregate_ok :: "ChecksState \<Rightarrow> ledger \<Rightarrow> ConfigCheckable \<Rightarrow> CheckResultAggregate \<Rightarrow> bool" where
  "aggregate_ok c L a x \<longleftrightarrow> AggregateCheckStatus c a = Some (cra_Status x) \<and>
     (\<exists>m. cra_ObjectResults x = Some m \<and> (\<forall>b. ck_valid b \<longrightarrow>
        map_GetOk ck_UniqueKey m b = (if b \<in> known_objects L a then Some (object_result c b) else None)))"

lemma aggregate_exists:
  assumes "rep c L" "cc_valid a" "lg_rules L a \<noteq> None"
  shows "\<exists>status objs m. AggregateCheckStatus c a = Some status \<and> ObjectAddrs c a = Some objs \<and>
    object_results c objs (MakeMap ck_UniqueKey []) = Some m \<and> aggregate_ok c L a \<lparr>cra_Status = status, cra_ObjectResults = Some m\<rparr>"
proof -
  from ObjectAddrs_spec[OF assms] obtain objs where o: "ObjectAddrs c a = Some objs" "snd ` set objs = known_objects L a" by blast
  have "ck_valid b \<and> ObjectCheckStatus c b \<noteq> None \<and> ObjectFailureMessages c b \<noteq> None" if "(u, b) \<in> set objs" for u b
  proof -
    have "b \<in> known_objects L a" using that o(2) by force
    then have k: "ck_valid b" "registered L b" using known_registered[OF assms(1,2)] by auto
    then show ?thesis using ObjectCheckStatus_spec[OF assms(1) k(1)] ObjectFailureMessages_spec[OF assms(1) k(1)]
      by (auto split: option.splits)
  qed
  then have "\<forall>(u, b) \<in> set objs. ck_valid b \<and> ObjectCheckStatus c b \<noteq> None \<and> ObjectFailureMessages c b \<noteq> None" by blast
  from object_results_spec[OF this, of "MakeMap ck_UniqueKey []"] obtain m where
    m: "object_results c objs (MakeMap ck_UniqueKey []) = Some m"
      "\<forall>b. ck_valid b \<longrightarrow> map_GetOk ck_UniqueKey m b = (if b \<in> known_objects L a then Some (object_result c b) else None)"
    by (auto simp: o(2) MakeMap_def map_GetOk_def)
  obtain s where "AggregateCheckStatus c a = Some s" using AggregateCheckStatus_spec[OF assms(1,2)] assms(3) by simp
  with o(1) m show ?thesis by (auto simp: aggregate_ok_def)
qed

lemma config_results_spec:
  assumes "rep c L"
  shows "\<forall>(u, a) \<in> set cfgs. cc_valid a \<and> lg_rules L a \<noteq> None \<Longrightarrow>
    \<forall>a x. cc_valid a \<longrightarrow> map_GetOk cc_UniqueKey res a = Some x \<longrightarrow> aggregate_ok c L a x \<Longrightarrow>
    \<exists>m. config_results c cfgs res = Some m \<and>
      (\<forall>a. cc_valid a \<longrightarrow> (map_GetOk cc_UniqueKey m a \<noteq> None \<longleftrightarrow> a \<in> snd ` set cfgs \<or> map_GetOk cc_UniqueKey res a \<noteq> None)) \<and>
      (\<forall>a x. cc_valid a \<longrightarrow> map_GetOk cc_UniqueKey m a = Some x \<longrightarrow> aggregate_ok c L a x)"
proof (induction cfgs arbitrary: res)
  case (Cons e cfgs)
  obtain u a where e: "e = (u, a)" by (cases e)
  have a: "cc_valid a" "lg_rules L a \<noteq> None" using Cons.prems(1) e by auto
  from aggregate_exists[OF assms a] obtain status objs m where
    x: "AggregateCheckStatus c a = Some status" "ObjectAddrs c a = Some objs" "object_results c objs (MakeMap ck_UniqueKey []) = Some m"
      "aggregate_ok c L a \<lparr>cra_Status = status, cra_ObjectResults = Some m\<rparr>" by blast
  let ?res = "map_Put cc_UniqueKey res a \<lparr>cra_Status = status, cra_ObjectResults = Some m\<rparr>"
  have eq: "config_results c (e # cfgs) res = config_results c cfgs ?res" using x by (simp add: e)
  have get: "map_GetOk cc_UniqueKey ?res a' = (if a' = a then Some \<lparr>cra_Status = status, cra_ObjectResults = Some m\<rparr> else map_GetOk cc_UniqueKey res a')"
    if "cc_valid a'" for a' by (rule ccu.get_put[OF a(1) that])
  have "\<forall>a' y. cc_valid a' \<longrightarrow> map_GetOk cc_UniqueKey ?res a' = Some y \<longrightarrow> aggregate_ok c L a' y"
    using Cons.prems(2) x(4) get by auto
  from Cons.IH[OF _ this] Cons.prems(1) obtain m' where m':
    "config_results c cfgs ?res = Some m'"
    "\<forall>a. cc_valid a \<longrightarrow> (map_GetOk cc_UniqueKey m' a \<noteq> None \<longleftrightarrow> a \<in> snd ` set cfgs \<or> map_GetOk cc_UniqueKey ?res a \<noteq> None)"
    "\<forall>a x. cc_valid a \<longrightarrow> map_GetOk cc_UniqueKey m' a = Some x \<longrightarrow> aggregate_ok c L a x" by auto
  show ?case unfolding eq using m' get by (auto simp: e)
qed simp

lemma NewCheckResults_rep:
  assumes "rep c L"
  shows "\<exists>r. NewCheckResults c = Some r \<and>
    (\<forall>a. cc_valid a \<longrightarrow> (case map_GetOk cc_UniqueKey (nil_map (crs_ConfigResults r)) a of
       None \<Rightarrow> lg_rules L a = None | Some x \<Rightarrow> lg_rules L a \<noteq> None \<and> aggregate_ok c L a x))"
proof -
  have wf: "map_wf cc_UniqueKey cc_valid (cks_statuses c)" using assms by (simp add: rep_def)
  have el: "(\<exists>u. (u, a) \<in> set (addrs_of (cks_statuses c))) \<longleftrightarrow> map_GetOk cc_UniqueKey (cks_statuses c) a \<noteq> None" if "cc_valid a" for a
  proof -
    have "(\<exists>u. (u, a) \<in> set (addrs_of (cks_statuses c))) \<longleftrightarrow> (\<exists>v. (a, v) \<in> set (map_Elements (cks_statuses c)))"
      by (force simp: addrs_of_def map_Elements_def)
    then show ?thesis by (simp add: ccu.get_elements[OF wf that, symmetric])
  qed
  have rules: "map_GetOk cc_UniqueKey (cks_statuses c) a \<noteq> None \<longleftrightarrow> lg_rules L a \<noteq> None" if "cc_valid a" for a
    using repD[OF assms that] by (cases "map_GetOk cc_UniqueKey (cks_statuses c) a") (auto simp: config_rep_def)
  have valid: "cc_valid a" if "(u, a) \<in> set (addrs_of (cks_statuses c))" for u a
    using wf that by (auto simp: map_wf_def addrs_of_def)
  have "\<forall>(u, a) \<in> set (addrs_of (cks_statuses c)). cc_valid a \<and> lg_rules L a \<noteq> None" using valid el rules by blast
  from config_results_spec[OF assms this, of "MakeMap cc_UniqueKey []"] obtain m where m:
    "config_results c (addrs_of (cks_statuses c)) (MakeMap cc_UniqueKey []) = Some m"
    "\<forall>a. cc_valid a \<longrightarrow> (map_GetOk cc_UniqueKey m a \<noteq> None \<longleftrightarrow> a \<in> snd ` set (addrs_of (cks_statuses c)))"
    "\<forall>a x. cc_valid a \<longrightarrow> map_GetOk cc_UniqueKey m a = Some x \<longrightarrow> aggregate_ok c L a x" by (auto simp: MakeMap_def map_GetOk_def)
  have in_iff: "a \<in> snd ` set (addrs_of (cks_statuses c)) \<longleftrightarrow> lg_rules L a \<noteq> None" if "cc_valid a" for a
    using el[OF that] rules[OF that] by force
  have run: "NewCheckResults c = Some \<lparr>crs_ConfigResults = (if map_Len m = 0 then None else Some m)\<rparr>"
    using m(1) map_Keys_addrs[OF wf] by (simp add: NewCheckResults_def AllConfigAddrs_def)
  have nil: "nil_map (if map_Len m = 0 then None else Some m) = m" by (simp add: nil_map_def map_Len_def)
  show ?thesis unfolding run using m(2,3) in_iff
    by (intro exI conjI refl) (auto simp: nil split: option.split)
qed

section \<open>Properties\<close>

text \<open>
  C35: In a run over a configuration, the container of check statuses does exactly what a ledger of the
  declared rules does.  It panics exactly on reports that the ledger refuses (an object that is not
  of the configuration object, an object that is not known, an index out of range, a second
  conclusive result); otherwise it tracks the declared configuration objects, the status of an object is
  the worst of those of its rules, with errors worse than failures worse than unknown, and that of a
  configuration object the worst over its objects, unknown while the objects are.
\<close>
theorem check_reports_refine:
  assumes "all_cc_valid (declared cfg)" "list_all report_valid rs"
  shows "case run_all run_report (NewChecksState (Some cfg)) rs of
      None \<Rightarrow> run_all spec_report (initial_ledger cfg) rs = None
    | Some c \<Rightarrow> \<exists>L. run_all spec_report (initial_ledger cfg) rs = Some L \<and>
        (\<forall>a. cc_valid a \<longrightarrow> AggregateCheckStatus c a =
           (if lg_rules L a = None then None
            else Some (case lg_objects L a of None \<Rightarrow> StatusUnknown | Some S \<Rightarrow> worst (\<Union>b \<in> S. object_statuses L b)))) \<and>
        (\<forall>b. ck_valid b \<longrightarrow> ObjectCheckStatus c b = (if registered L b then Some (worst (object_statuses L b)) else None))"
proof -
  have "rel_option rep (run_all run_report (NewChecksState (Some cfg)) rs) (run_all spec_report (initial_ledger cfg) rs)"
    by (rule run_refines[OF rep_initial[OF assms(1)] assms(2)])
  then show ?thesis
    by (cases "run_all run_report (NewChecksState (Some cfg)) rs"; cases "run_all spec_report (initial_ledger cfg) rs")
      (auto simp: ObjectCheckStatus_spec AggregateCheckStatus_spec[unfolded config_statuses_def])
qed

text \<open>A module with one output value that has a precondition, which fails.\<close>

definition ck_cfg :: "unit Config" where
  "ck_cfg = Config [] \<lparr>mdc_Variables = [],
     mdc_Outputs = [(''ip'', \<lparr>outc_Name = ''ip'', outc_Preconditions = [\<lparr>crc_DeclRange =
       \<lparr>rng_Filename = ''main.tf'', rng_Start = \<lparr>pos_Line = 1, pos_Column = 1, pos_Byte = 0\<rparr>, rng_End = \<lparr>pos_Line = 1, pos_Column = 1, pos_Byte = 0\<rparr>\<rparr>\<rparr>]\<rparr>)],
     mdc_ModuleCalls = [], mdc_ManagedResources = [], mdc_DataResources = [], mdc_EphemeralResources = [], mdc_Moved = [], mdc_Removed = [], mdc_Checks = []\<rparr> []"

definition ck_config :: ConfigCheckable where
  "ck_config = CcOutputValue \<lparr>cov_Module = [], cov_Name = ''ip''\<rparr>"

definition ck_obj :: Checkable where
  "ck_obj = CkOutputValue \<lparr>aov_Module = [], aov_Name = ''ip''\<rparr>"

definition ck_reports :: "report list" where
  "ck_reports = [ReportObjects ck_config [(ck_UniqueKey ck_obj, ck_obj)], ReportFailure ck_obj OutputPrecondition 0 ''no address'']"

lemma ck_facts:
  "all_cc_valid (declared ck_cfg)" "list_all report_valid ck_reports" "ck_valid ck_obj" "ck_ConfigCheckable ck_obj = ck_config"
  by (simp_all add: all_cc_valid_def ck_cfg_def decl_module_def decl_output_def ck_reports_def ck_config_def ck_obj_def valid_name_def
      aset_wf_def gmap_ok_def mi_valid_def aov_ConfigOutputValue_def)

lemma ck_rules: "lg_rules (initial_ledger ck_cfg) ck_config = Some ((\<lambda>_. 0)(OutputPrecondition := 1))"
  by (simp add: initial_ledger_def ck_cfg_def decl_module_def decl_output_def ck_config_def)

lemma ck_run:
  "\<exists>L. run_all spec_report (initial_ledger ck_cfg) ck_reports = Some L \<and> registered L ck_obj \<and>
    object_statuses L ck_obj = {StatusFail} \<and> messages L ck_obj = {''no address''}"
proof -
  let ?L = "initial_ledger ck_cfg"
  let ?L1 = "?L\<lparr>lg_objects := (lg_objects ?L)(ck_config := Some {ck_obj})\<rparr>"
  let ?L2 = "(put_status ?L1 ck_obj OutputPrecondition 0 StatusFail)\<lparr>lg_msg := (lg_msg ?L1)(ck_obj := (lg_msg ?L1 ck_obj)(OutputPrecondition := (lg_msg ?L1 ck_obj OutputPrecondition)(0 := ''no address'')))\<rparr>"
  have "spec_report ?L (ReportObjects ck_config [(ck_UniqueKey ck_obj, ck_obj)]) = Some ?L1"
    by (simp add: ck_rules ck_facts aset_members_def) (simp add: initial_ledger_def)
  moreover have n: "rule_count ?L1 ck_obj = (\<lambda>_. 0)(OutputPrecondition := 1)"
    by (rule ext) (simp add: rule_count_def ck_facts ck_rules)
  then have "spec_report ?L1 (ReportFailure ck_obj OutputPrecondition 0 ''no address'') = Some ?L2"
    by (simp add: set_status_def registered_def ck_facts put_status_def) (simp add: initial_ledger_def)
  moreover have n2: "rule_count ?L2 ck_obj = (\<lambda>_. 0)(OutputPrecondition := 1)"
    by (rule ext) (simp add: rule_count_def ck_facts ck_rules)
  have "registered ?L2 ck_obj" by (simp add: registered_def ck_facts)
  moreover have "object_statuses ?L2 ck_obj = {StatusFail}" unfolding object_statuses_def n2 by (auto split: if_splits)
  moreover have "messages ?L2 ck_obj = {''no address''}" unfolding messages_def n2 by (auto split: if_splits)
  ultimately show ?thesis by (simp add: ck_reports_def del: spec_report.simps)
qed

theorem check_reports_refine_witness:
  "\<exists>c. run_all run_report (NewChecksState (Some ck_cfg)) ck_reports = Some c \<and> ObjectCheckStatus c ck_obj = Some StatusFail"
proof -
  obtain L where L: "run_all spec_report (initial_ledger ck_cfg) ck_reports = Some L" "registered L ck_obj" "object_statuses L ck_obj = {StatusFail}"
    using ck_run by blast
  with check_reports_refine[OF ck_facts(1,2)] ck_facts(3) show ?thesis
    by (cases "run_all run_report (NewChecksState (Some ck_cfg)) ck_reports") (auto simp: worst_def)
qed

text \<open>
  The results kept in the state are a faithful snapshot: building them from the container does not
  panic, every declared configuration object has its aggregate status, and looking up an object gives
  its status and, sorted, the messages of its failed rules, or nothing when the object was never
  reported.
\<close>
theorem NewCheckResults_snapshot:
  assumes "all_cc_valid (declared cfg)" "list_all report_valid rs" "run_all run_report (NewChecksState (Some cfg)) rs = Some c"
  shows "\<exists>L r. run_all spec_report (initial_ledger cfg) rs = Some L \<and> NewCheckResults c = Some r \<and>
    (\<forall>a. cc_valid a \<longrightarrow> map_option cra_Status (map_GetOk cc_UniqueKey (nil_map (crs_ConfigResults r)) a) = AggregateCheckStatus c a) \<and>
    (\<forall>b. ck_valid b \<longrightarrow> (case GetObjectResult r b of
       None \<Rightarrow> \<not> registered L b
     | Some x \<Rightarrow> registered L b \<and> cro_Status x = worst (object_statuses L b) \<and>
         sorted (cro_FailureMessages x) \<and> set (cro_FailureMessages x) = messages L b))"
proof -
  obtain L where L: "run_all spec_report (initial_ledger cfg) rs = Some L" "rep c L"
    using run_refines[OF rep_initial[OF assms(1)] assms(2)] assms(3)
    by (cases "run_all spec_report (initial_ledger cfg) rs") auto
  from NewCheckResults_rep[OF L(2)] obtain r where r: "NewCheckResults c = Some r"
    "\<And>a. cc_valid a \<Longrightarrow> case map_GetOk cc_UniqueKey (nil_map (crs_ConfigResults r)) a of
       None \<Rightarrow> lg_rules L a = None | Some x \<Rightarrow> lg_rules L a \<noteq> None \<and> aggregate_ok c L a x" by blast
  have "map_option cra_Status (map_GetOk cc_UniqueKey (nil_map (crs_ConfigResults r)) a) = AggregateCheckStatus c a" if "cc_valid a" for a
    using r(2)[OF that] AggregateCheckStatus_spec[OF L(2) that]
    by (cases "map_GetOk cc_UniqueKey (nil_map (crs_ConfigResults r)) a") (auto simp: aggregate_ok_def)
  moreover have "case GetObjectResult r b of None \<Rightarrow> \<not> registered L b
     | Some x \<Rightarrow> registered L b \<and> cro_Status x = worst (object_statuses L b) \<and>
         sorted (cro_FailureMessages x) \<and> set (cro_FailureMessages x) = messages L b" if b: "ck_valid b" for b
  proof -
    let ?a = "ck_ConfigCheckable b"
    have a: "cc_valid ?a" by (rule ck_ConfigCheckable_valid[OF b])
    have reg: "registered L b \<longleftrightarrow> b \<in> known_objects L ?a" by (auto simp: registered_def known_objects_def split: option.split)
    have none: "lg_objects L ?a = None" if "lg_rules L ?a = None"
      using repD[OF L(2) a] that by (cases "map_GetOk cc_UniqueKey (cks_statuses c) ?a") (auto simp: config_rep_def)
    have eq: "GetObjectResult r b = (if registered L b then Some (object_result c b) else None)"
      using r(2)[OF a] b none unfolding reg GetObjectResult_def
      by (cases "map_GetOk cc_UniqueKey (nil_map (crs_ConfigResults r)) ?a") (auto simp: aggregate_ok_def nil_map_def known_objects_def)
    show ?thesis
      using ObjectCheckStatus_spec[OF L(2) b] ObjectFailureMessages_spec[OF L(2) b]
      by (cases "registered L b"; cases "ObjectFailureMessages c b") (simp_all add: eq object_result_def)
  qed
  ultimately show ?thesis using L(1) r(1) by blast
qed

theorem NewCheckResults_snapshot_witness:
  "\<exists>c r x. run_all run_report (NewChecksState (Some ck_cfg)) ck_reports = Some c \<and> NewCheckResults c = Some r \<and>
    GetObjectResult r ck_obj = Some x \<and> cro_Status x = StatusFail \<and> set (cro_FailureMessages x) = {''no address''}"
proof -
  obtain L where L: "run_all spec_report (initial_ledger ck_cfg) ck_reports = Some L" "registered L ck_obj" "object_statuses L ck_obj = {StatusFail}"
    "messages L ck_obj = {''no address''}" using ck_run by blast
  obtain c where c: "run_all run_report (NewChecksState (Some ck_cfg)) ck_reports = Some c"
    using run_refines[OF rep_initial[OF ck_facts(1)] ck_facts(2)] L(1)
    by (cases "run_all run_report (NewChecksState (Some ck_cfg)) ck_reports") auto
  from NewCheckResults_snapshot[OF ck_facts(1,2) c] L(1) obtain r where r: "NewCheckResults c = Some r"
    "\<forall>b. ck_valid b \<longrightarrow> (case GetObjectResult r b of
       None \<Rightarrow> \<not> registered L b
     | Some x \<Rightarrow> registered L b \<and> cro_Status x = worst (object_statuses L b) \<and>
         sorted (cro_FailureMessages x) \<and> set (cro_FailureMessages x) = messages L b)" by auto
  from r(2)[rule_format, OF ck_facts(3)] L(2-4) obtain x where
    "GetObjectResult r ck_obj = Some x" "cro_Status x = StatusFail" "set (cro_FailureMessages x) = {''no address''}"
    by (cases "GetObjectResult r ck_obj") (auto simp: worst_def)
  with c r(1) show ?thesis by blast
qed

end
