(* ===== verification/Plans_Changes.thy ===== *)
theory Plans_Changes
  imports Addr_Check State_Ops
begin

text \<open>
  Planned changes (\<^verbatim>\<open>internal/plans\<close>: \<^verbatim>\<open>action.go\<close>, \<^verbatim>\<open>changes.go\<close>, \<^verbatim>\<open>changes_src.go\<close>, \<^verbatim>\<open>changes_sync.go\<close>, \<^verbatim>\<open>dynamic_value.go\<close>, \<^verbatim>\<open>plan.go\<close>).
  The methods of \<^verbatim>\<open>ChangesSync\<close> run under its mutex, so each is one step on the change set.

  Values, types and path sets of \<open>cty\<close> are type parameters, and the functions of \<open>cty\<close> that are called are
  the fields of a record that the definitions take as an argument.
\<close>

section \<open>Changes\<close>

datatype Action =
    NoOp | Create | Read | Update | DeleteThenCreate | CreateThenDelete | Delete | Forget | ForgetThenCreate | Open

definition IsReplace :: "Action \<Rightarrow> bool" where
  "IsReplace a \<longleftrightarrow> a = DeleteThenCreate \<or> a = CreateThenDelete"

datatype ResourceInstanceChangeActionReason =
    ResourceInstanceChangeNoReason
  | ResourceInstanceReplaceBecauseTainted
  | ResourceInstanceReplaceByRequest
  | ResourceInstanceReplaceByTriggers
  | ResourceInstanceReplaceBecauseCannotUpdate
  | ResourceInstanceDeleteBecauseNoResourceConfig
  | ResourceInstanceDeleteBecauseWrongRepetition
  | ResourceInstanceDeleteBecauseCountIndex
  | ResourceInstanceDeleteBecauseEachKey
  | ResourceInstanceDeleteBecauseEnabledFalse
  | ResourceInstanceDeleteBecauseNoModule
  | ResourceInstanceDeleteBecauseNoMoveTarget
  | ResourceInstanceReadBecauseConfigUnknown
  | ResourceInstanceReadBecauseDependencyPending
  | ResourceInstanceReadBecauseCheckNested
  | ResourceInstanceForgotBecauseLifecycleDestroyInState
  | ResourceInstanceForgotBecauseLifecycleDestroyInConfig

type_synonym DynamicValue = "string option"

text \<open>An import is described by the identifier of the imported resource.\<close>

record 'mk ChangeSrc =
  chs_Action :: Action
  chs_Before :: DynamicValue
  chs_After :: DynamicValue
  chs_BeforeValMarks :: "'mk list"
  chs_AfterValMarks :: "'mk list"
  chs_Importing :: "string option"
  chs_GeneratedConfig :: string

record 'v Change =
  chg_Action :: Action
  chg_Before :: 'v
  chg_After :: 'v
  chg_Importing :: "string option"
  chg_GeneratedConfig :: string

record ('p, 'mk, 'ps) ResourceInstanceChangeSrc =
  rcs_Addr :: AbsResourceInstance
  rcs_PrevRunAddr :: AbsResourceInstance
  rcs_DeposedKey :: DeposedKey
  rcs_ProviderAddr :: "'p AbsProviderConfig"
  rcs_ChangeSrc :: "'mk ChangeSrc"
  rcs_ActionReason :: ResourceInstanceChangeActionReason
  rcs_RequiredReplace :: 'ps
  rcs_Private :: string

record ('p, 'v, 'ps) ResourceInstanceChange =
  ric_Addr :: AbsResourceInstance
  ric_PrevRunAddr :: AbsResourceInstance
  ric_DeposedKey :: DeposedKey
  ric_ProviderAddr :: "'p AbsProviderConfig"
  ric_Change :: "'v Change"
  ric_ActionReason :: ResourceInstanceChangeActionReason
  ric_RequiredReplace :: 'ps
  ric_Private :: string

record 'mk OutputChangeSrc =
  ocs_Addr :: AbsOutputValue
  ocs_ChangeSrc :: "'mk ChangeSrc"
  ocs_Sensitive :: bool

record 'v OutputChange =
  ouc_Addr :: AbsOutputValue
  ouc_Change :: "'v Change"
  ouc_Sensitive :: bool

record ('p, 'mk, 'ps) Changes =
  chg_Resources :: "('p, 'mk, 'ps) ResourceInstanceChangeSrc list"
  chg_Outputs :: "'mk OutputChangeSrc list"

definition NewChanges :: "('p, 'mk, 'ps) Changes" where
  "NewChanges = \<lparr>chg_Resources = [], chg_Outputs = []\<rparr>"

definition rcs_Moved :: "('p, 'mk, 'ps) ResourceInstanceChangeSrc \<Rightarrow> bool" where
  "rcs_Moved rcs = (\<not> ari_Equal (rcs_Addr rcs) (rcs_PrevRunAddr rcs))"

definition ric_Moved :: "('p, 'v, 'ps) ResourceInstanceChange \<Rightarrow> bool" where
  "ric_Moved rc = (\<not> ari_Equal (ric_Addr rc) (ric_PrevRunAddr rc))"

definition Changes_Empty :: "('p, 'mk, 'ps) Changes \<Rightarrow> bool" where
  "Changes_Empty c =
     (list_all (\<lambda>res. if chs_Action (rcs_ChangeSrc res) = Open then True
        else if chs_Action (rcs_ChangeSrc res) \<noteq> NoOp \<or> rcs_Moved res then False
        else chs_Importing (rcs_ChangeSrc res) = None) (chg_Resources c) \<and>
      list_all (\<lambda>out. \<not> (mi_IsRoot (aov_Module (ocs_Addr out)) \<and> chs_Action (ocs_ChangeSrc out) \<noteq> NoOp)) (chg_Outputs c))"

section \<open>Queries\<close>

definition ResourceInstance_change ::
  "('p, 'mk, 'ps) Changes \<Rightarrow> AbsResourceInstance \<Rightarrow> ('p, 'mk, 'ps) ResourceInstanceChangeSrc option" where
  "ResourceInstance_change c addr =
     List.find (\<lambda>rc. ari_Equal (rcs_Addr rc) addr \<and> rcs_DeposedKey rc = NotDeposed) (chg_Resources c)"

definition ResourceInstanceDeposed ::
  "('p, 'mk, 'ps) Changes \<Rightarrow> AbsResourceInstance \<Rightarrow> DeposedKey \<Rightarrow> ('p, 'mk, 'ps) ResourceInstanceChangeSrc option" where
  "ResourceInstanceDeposed c addr key =
     List.find (\<lambda>rc. ari_Equal (rcs_Addr rc) addr \<and> rcs_DeposedKey rc = key) (chg_Resources c)"

definition InstancesForAbsResource ::
  "('p, 'mk, 'ps) Changes \<Rightarrow> AbsResource \<Rightarrow> ('p, 'mk, 'ps) ResourceInstanceChangeSrc list" where
  "InstancesForAbsResource c addr =
     filter (\<lambda>rc. ar_Equal (ari_ContainingResource (rcs_Addr rc)) addr \<and> rcs_DeposedKey rc = NotDeposed) (chg_Resources c)"

definition InstancesForConfigResource ::
  "('p, 'mk, 'ps) Changes \<Rightarrow> ConfigResource \<Rightarrow> ('p, 'mk, 'ps) ResourceInstanceChangeSrc list" where
  "InstancesForConfigResource c addr =
     filter (\<lambda>rc. cr_Equal (ar_Config (ari_ContainingResource (rcs_Addr rc))) addr \<and> rcs_DeposedKey rc = NotDeposed) (chg_Resources c)"

definition aov_Equal :: "AbsOutputValue \<Rightarrow> AbsOutputValue \<Rightarrow> bool" where
  "aov_Equal v ot \<longleftrightarrow> aov_Name v = aov_Name ot \<and> mi_Equal (aov_Module v) (aov_Module ot)"

definition OutputValue_change :: "('p, 'mk, 'ps) Changes \<Rightarrow> AbsOutputValue \<Rightarrow> 'mk OutputChangeSrc option" where
  "OutputValue_change c addr = List.find (\<lambda>oc. aov_Equal (ocs_Addr oc) addr) (chg_Outputs c)"

definition RootOutputValues :: "('p, 'mk, 'ps) Changes \<Rightarrow> 'mk OutputChangeSrc list" where
  "RootOutputValues c = filter (\<lambda>oc. mi_Equal (aov_Module (ocs_Addr oc)) []) (chg_Outputs c)"

text \<open>\<^verbatim>\<open>Call\<close> panics on the root module, which is left out before.\<close>

definition OutputValues :: "('p, 'mk, 'ps) Changes \<Rightarrow> ModuleInstance \<Rightarrow> ModuleCall \<Rightarrow> 'mk OutputChangeSrc list" where
  "OutputValues c parent md =
     filter (\<lambda>oc.
       if mi_Equal (aov_Module (ocs_Addr oc)) [] then False
       else case mi_Call (aov_Module (ocs_Addr oc)) of
           None \<Rightarrow> False
         | Some (changeMod, changeCall) \<Rightarrow> if \<not> mi_Equal changeMod parent then False else call_Name changeCall = call_Name md) (chg_Outputs c)"

section \<open>The synchronized methods\<close>

text \<open>\<open>cp\<close> is the copy of a path set through its list (\<^verbatim>\<open>cty.NewPathSet\<close> of \<^verbatim>\<open>List\<close>).\<close>

definition rcs_DeepCopy :: "('ps \<Rightarrow> 'ps) \<Rightarrow> ('p, 'mk, 'ps) ResourceInstanceChangeSrc \<Rightarrow> ('p, 'mk, 'ps) ResourceInstanceChangeSrc" where
  "rcs_DeepCopy cp rcs = rcs\<lparr>rcs_RequiredReplace := cp (rcs_RequiredReplace rcs)\<rparr>"

definition ocs_DeepCopy :: "'mk OutputChangeSrc \<Rightarrow> 'mk OutputChangeSrc" where
  "ocs_DeepCopy ocs = ocs"

definition AppendResourceInstanceChange ::
  "('ps \<Rightarrow> 'ps) \<Rightarrow> ('p, 'mk, 'ps) Changes \<Rightarrow> ('p, 'mk, 'ps) ResourceInstanceChangeSrc \<Rightarrow> ('p, 'mk, 'ps) Changes" where
  "AppendResourceInstanceChange cp cs changeSrc = cs\<lparr>chg_Resources := chg_Resources cs @ [rcs_DeepCopy cp changeSrc]\<rparr>"

fun GetResourceInstanceChange ::
  "('ps \<Rightarrow> 'ps) \<Rightarrow> ('p, 'mk, 'ps) Changes \<Rightarrow> AbsResourceInstance \<Rightarrow> Generation \<Rightarrow> ('p, 'mk, 'ps) ResourceInstanceChangeSrc option" where
  "GetResourceInstanceChange cp cs addr CurrentGen = map_option (rcs_DeepCopy cp) (ResourceInstance_change cs addr)"
| "GetResourceInstanceChange cp cs addr (DeposedGen dk) = map_option (rcs_DeepCopy cp) (ResourceInstanceDeposed cs addr dk)"

definition GetChangesForConfigResource ::
  "('ps \<Rightarrow> 'ps) \<Rightarrow> ('p, 'mk, 'ps) Changes \<Rightarrow> ConfigResource \<Rightarrow> ('p, 'mk, 'ps) ResourceInstanceChangeSrc list" where
  "GetChangesForConfigResource cp cs addr = map (rcs_DeepCopy cp) (InstancesForConfigResource cs addr)"

definition GetChangesForAbsResource ::
  "('ps \<Rightarrow> 'ps) \<Rightarrow> ('p, 'mk, 'ps) Changes \<Rightarrow> AbsResource \<Rightarrow> ('p, 'mk, 'ps) ResourceInstanceChangeSrc list" where
  "GetChangesForAbsResource cp cs addr = map (rcs_DeepCopy cp) (InstancesForAbsResource cs addr)"

fun remove_first :: "('a \<Rightarrow> bool) \<Rightarrow> 'a list \<Rightarrow> 'a list" where
  "remove_first P [] = []"
| "remove_first P (x # xs) = (if \<not> P x then x # remove_first P xs else xs)"

definition RemoveResourceInstanceChange ::
  "('p, 'mk, 'ps) Changes \<Rightarrow> AbsResourceInstance \<Rightarrow> Generation \<Rightarrow> ('p, 'mk, 'ps) Changes" where
  "RemoveResourceInstanceChange cs addr gen =
     (let dk = (case gen of DeposedGen realDK \<Rightarrow> realDK | CurrentGen \<Rightarrow> NotDeposed)
      in cs\<lparr>chg_Resources := remove_first (\<lambda>r. ari_Equal (rcs_Addr r) addr \<and> rcs_DeposedKey r = dk) (chg_Resources cs)\<rparr>)"

definition AppendOutputChange :: "('p, 'mk, 'ps) Changes \<Rightarrow> 'mk OutputChangeSrc \<Rightarrow> ('p, 'mk, 'ps) Changes" where
  "AppendOutputChange cs changeSrc = cs\<lparr>chg_Outputs := chg_Outputs cs @ [ocs_DeepCopy changeSrc]\<rparr>"

definition GetOutputChange :: "('p, 'mk, 'ps) Changes \<Rightarrow> AbsOutputValue \<Rightarrow> 'mk OutputChangeSrc option" where
  "GetOutputChange cs addr = OutputValue_change cs addr"

definition GetRootOutputChanges :: "('p, 'mk, 'ps) Changes \<Rightarrow> 'mk OutputChangeSrc list" where
  "GetRootOutputChanges cs = RootOutputValues cs"

definition GetOutputChanges :: "('p, 'mk, 'ps) Changes \<Rightarrow> ModuleInstance \<Rightarrow> ModuleCall \<Rightarrow> 'mk OutputChangeSrc list" where
  "GetOutputChanges cs parent md = OutputValues cs parent md"

definition RemoveOutputChange :: "('p, 'mk, 'ps) Changes \<Rightarrow> AbsOutputValue \<Rightarrow> ('p, 'mk, 'ps) Changes" where
  "RemoveOutputChange cs addr = cs\<lparr>chg_Outputs := remove_first (\<lambda>ot. aov_Equal (ocs_Addr ot) addr) (chg_Outputs cs)\<rparr>"

section \<open>Encoding\<close>

record ('v, 'ty, 'mk) cty_ops =
  ct_NilVal :: 'v
  ct_DynamicPseudoType :: 'ty
  ct_NullVal :: "'ty \<Rightarrow> 'v"
  ct_Type :: "'v \<Rightarrow> 'ty"
  ct_ContainsMarked :: "'v \<Rightarrow> bool"
  ct_UnmarkDeepWithPaths :: "'v \<Rightarrow> 'v \<times> 'mk list"
  ct_MarkWithPaths :: "'v \<Rightarrow> 'mk list \<Rightarrow> 'v"
  ct_Marshal :: "'v \<Rightarrow> 'ty \<Rightarrow> string + string"
  ct_Unmarshal :: "string \<Rightarrow> 'ty \<Rightarrow> string + 'v"

definition NewDynamicValue :: "('v, 'ty, 'mk) cty_ops \<Rightarrow> 'v \<Rightarrow> 'ty \<Rightarrow> string + DynamicValue" where
  "NewDynamicValue ct val ty =
     (if val = ct_NilVal ct then Inr None
      else case ct_Marshal ct val ty of Inl err \<Rightarrow> Inl err | Inr buf \<Rightarrow> Inr (Some buf))"

definition DynamicValue_Decode :: "('v, 'ty, 'mk) cty_ops \<Rightarrow> DynamicValue \<Rightarrow> 'ty \<Rightarrow> string + 'v" where
  "DynamicValue_Decode ct v ty = (case v of None \<Rightarrow> Inr (ct_NilVal ct) | Some buf \<Rightarrow> ct_Unmarshal ct buf ty)"

definition unmarked :: "('v, 'ty, 'mk) cty_ops \<Rightarrow> 'v \<Rightarrow> 'v \<times> 'mk list" where
  "unmarked ct v = (if ct_ContainsMarked ct v then ct_UnmarkDeepWithPaths ct v else (v, []))"

definition Change_Encode :: "('v, 'ty, 'mk) cty_ops \<Rightarrow> 'v Change \<Rightarrow> 'ty \<Rightarrow> string + 'mk ChangeSrc" where
  "Change_Encode ct c ty =
     (let (unmarkedBefore, beforeVM) = unmarked ct (chg_Before c) in
      case NewDynamicValue ct unmarkedBefore ty of
        Inl err \<Rightarrow> Inl err
      | Inr beforeDV \<Rightarrow>
          (let (unmarkedAfter, afterVM) = unmarked ct (chg_After c) in
           case NewDynamicValue ct unmarkedAfter ty of
             Inl err \<Rightarrow> Inl err
           | Inr afterDV \<Rightarrow>
               Inr \<lparr>chs_Action = chg_Action c, chs_Before = beforeDV, chs_After = afterDV, chs_BeforeValMarks = beforeVM,
                 chs_AfterValMarks = afterVM, chs_Importing = chg_Importing c, chs_GeneratedConfig = chg_GeneratedConfig c\<rparr>))"

definition decode_or_null :: "('v, 'ty, 'mk) cty_ops \<Rightarrow> DynamicValue \<Rightarrow> 'ty \<Rightarrow> string + 'v" where
  "decode_or_null ct v ty =
     (if (case v of None \<Rightarrow> 0 | Some buf \<Rightarrow> length buf) > 0 then DynamicValue_Decode ct v ty else Inr (ct_NullVal ct ty))"

definition ChangeSrc_Decode :: "('v, 'ty, 'mk) cty_ops \<Rightarrow> 'mk ChangeSrc \<Rightarrow> 'ty \<Rightarrow> string + 'v Change" where
  "ChangeSrc_Decode ct cs ty =
     (case decode_or_null ct (chs_Before cs) ty of
        Inl err \<Rightarrow> Inl (''error decoding '' @ [CHR 0x27] @ ''before'' @ [CHR 0x27] @ '' value: '' @ err)
      | Inr before \<Rightarrow>
          (case decode_or_null ct (chs_After cs) ty of
             Inl err \<Rightarrow> Inl (''error decoding '' @ [CHR 0x27] @ ''after'' @ [CHR 0x27] @ '' value: '' @ err)
           | Inr after \<Rightarrow>
               Inr \<lparr>chg_Action = chs_Action cs, chg_Before = ct_MarkWithPaths ct before (chs_BeforeValMarks cs),
                 chg_After = ct_MarkWithPaths ct after (chs_AfterValMarks cs), chg_Importing = chs_Importing cs,
                 chg_GeneratedConfig = chs_GeneratedConfig cs\<rparr>))"

definition prev_run_addr :: "AbsResourceInstance \<Rightarrow> AbsResourceInstance \<Rightarrow> AbsResourceInstance" where
  "prev_run_addr prev addr = (if res_Type (ri_Resource (ari_Resource prev)) = [] then addr else prev)"

definition ric_Encode ::
  "('v, 'ty, 'mk) cty_ops \<Rightarrow> ('p, 'v, 'ps) ResourceInstanceChange \<Rightarrow> 'ty \<Rightarrow> string + ('p, 'mk, 'ps) ResourceInstanceChangeSrc" where
  "ric_Encode ct rc ty =
     (case Change_Encode ct (ric_Change rc) ty of
        Inl err \<Rightarrow> Inl err
      | Inr cs \<Rightarrow> Inr \<lparr>rcs_Addr = ric_Addr rc, rcs_PrevRunAddr = prev_run_addr (ric_PrevRunAddr rc) (ric_Addr rc),
          rcs_DeposedKey = ric_DeposedKey rc, rcs_ProviderAddr = ric_ProviderAddr rc, rcs_ChangeSrc = cs,
          rcs_ActionReason = ric_ActionReason rc, rcs_RequiredReplace = ric_RequiredReplace rc, rcs_Private = ric_Private rc\<rparr>)"

definition rcs_Decode ::
  "('v, 'ty, 'mk) cty_ops \<Rightarrow> ('p, 'mk, 'ps) ResourceInstanceChangeSrc \<Rightarrow> 'ty \<Rightarrow> string + ('p, 'v, 'ps) ResourceInstanceChange" where
  "rcs_Decode ct rcs ty =
     (case ChangeSrc_Decode ct (rcs_ChangeSrc rcs) ty of
        Inl err \<Rightarrow> Inl err
      | Inr change \<Rightarrow> Inr \<lparr>ric_Addr = rcs_Addr rcs, ric_PrevRunAddr = prev_run_addr (rcs_PrevRunAddr rcs) (rcs_Addr rcs),
          ric_DeposedKey = rcs_DeposedKey rcs, ric_ProviderAddr = rcs_ProviderAddr rcs, ric_Change = change,
          ric_ActionReason = rcs_ActionReason rcs, ric_RequiredReplace = rcs_RequiredReplace rcs, ric_Private = rcs_Private rcs\<rparr>)"

definition ouc_Encode :: "('v, 'ty, 'mk) cty_ops \<Rightarrow> 'v OutputChange \<Rightarrow> string + 'mk OutputChangeSrc" where
  "ouc_Encode ct oc =
     (case Change_Encode ct (ouc_Change oc) (ct_DynamicPseudoType ct) of
        Inl err \<Rightarrow> Inl err
      | Inr cs \<Rightarrow> Inr \<lparr>ocs_Addr = ouc_Addr oc, ocs_ChangeSrc = cs, ocs_Sensitive = ouc_Sensitive oc\<rparr>)"

definition ocs_Decode :: "('v, 'ty, 'mk) cty_ops \<Rightarrow> 'mk OutputChangeSrc \<Rightarrow> string + 'v OutputChange" where
  "ocs_Decode ct ocs =
     (case ChangeSrc_Decode ct (ocs_ChangeSrc ocs) (ct_DynamicPseudoType ct) of
        Inl err \<Rightarrow> Inl err
      | Inr change \<Rightarrow> Inr \<lparr>ouc_Addr = ocs_Addr ocs, ouc_Change = change, ouc_Sensitive = ocs_Sensitive ocs\<rparr>)"

section \<open>Simplification\<close>

text \<open>The fields a simplified change does not set have their zero values; \<open>zps\<close> is the zero path set.\<close>

definition zeroAbsResourceInstance :: AbsResourceInstance where
  "zeroAbsResourceInstance = \<lparr>ari_Module = [], ari_Resource =
     \<lparr>ri_Resource = \<lparr>res_Mode = InvalidResourceMode, res_Type = [], res_Name = []\<rparr>, ri_Key = NoKey\<rparr>\<rparr>"

definition simplified ::
  "'ps \<Rightarrow> ('p, 'v, 'ps) ResourceInstanceChange \<Rightarrow> Action \<Rightarrow> 'v \<Rightarrow> 'v \<Rightarrow> ('p, 'v, 'ps) ResourceInstanceChange" where
  "simplified zps rc action before after =
     \<lparr>ric_Addr = ric_Addr rc, ric_PrevRunAddr = zeroAbsResourceInstance, ric_DeposedKey = ric_DeposedKey rc,
      ric_ProviderAddr = ric_ProviderAddr rc,
      ric_Change = \<lparr>chg_Action = action, chg_Before = before, chg_After = after,
        chg_Importing = chg_Importing (ric_Change rc), chg_GeneratedConfig = chg_GeneratedConfig (ric_Change rc)\<rparr>,
      ric_ActionReason = ResourceInstanceChangeNoReason, ric_RequiredReplace = zps, ric_Private = ric_Private rc\<rparr>"

definition Simplify ::
  "('v, 'ty, 'mk) cty_ops \<Rightarrow> 'ps \<Rightarrow> ('p, 'v, 'ps) ResourceInstanceChange \<Rightarrow> bool \<Rightarrow> ('p, 'v, 'ps) ResourceInstanceChange" where
  "Simplify ct zps rc destroying =
     (let before = chg_Before (ric_Change rc); after = chg_After (ric_Change rc) in
      if destroying then
        (case chg_Action (ric_Change rc) of
           Delete \<Rightarrow> rc
         | CreateThenDelete \<Rightarrow> simplified zps rc Delete before (ct_NullVal ct (ct_Type ct before))
         | DeleteThenCreate \<Rightarrow> simplified zps rc Delete before (ct_NullVal ct (ct_Type ct before))
         | _ \<Rightarrow> simplified zps rc NoOp before before)
      else
        (case chg_Action (ric_Change rc) of
           Delete \<Rightarrow> simplified zps rc NoOp before before
         | CreateThenDelete \<Rightarrow> simplified zps rc Create (ct_NullVal ct (ct_Type ct after)) after
         | DeleteThenCreate \<Rightarrow> simplified zps rc Create (ct_NullVal ct (ct_Type ct after)) after
         | ForgetThenCreate \<Rightarrow> simplified zps rc Create (ct_NullVal ct (ct_Type ct after)) after
         | _ \<Rightarrow> rc))"

section \<open>Plans\<close>

datatype Mode = NormalMode | DestroyMode | RefreshOnlyMode

record ('p, 'v, 'm, 'c, 'mk, 'ps) Plan =
  pl_UIMode :: Mode
  pl_Changes :: "('p, 'mk, 'ps) Changes"
  pl_Errored :: bool
  pl_PrevRunState :: "('p, 'v, 'm, 'c) State option"
  pl_PriorState :: "('p, 'v, 'm, 'c) State option"

definition CanApply ::
  "('p \<Rightarrow> string) \<Rightarrow> ('m \<Rightarrow> 'm \<Rightarrow> bool) \<Rightarrow> (InstanceKey \<Rightarrow> InstanceKey \<Rightarrow> bool) \<Rightarrow> ('p, 'v, 'm, 'c, 'mk, 'ps) Plan \<Rightarrow> bool" where
  "CanApply pq meq kdiff p =
     (if pl_Errored p then False
      else if \<not> Changes_Empty (pl_Changes p) then True
      else if \<not> ManagedResourcesEqual pq meq kdiff (pl_PriorState p) (pl_PrevRunState p) then pl_UIMode p = RefreshOnlyMode
      else False)"

definition Plan_ProviderAddrs :: "('p \<Rightarrow> string) \<Rightarrow> ('p, 'mk, 'ps) Changes option \<Rightarrow> 'p AbsProviderConfig list" where
  "Plan_ProviderAddrs pq changes =
     (case changes of
        None \<Rightarrow> []
      | Some c \<Rightarrow>
          (let m = foldl (\<lambda>m rc. gmap_put (apc_String pq (rcs_ProviderAddr rc)) (rcs_ProviderAddr rc) m) [] (chg_Resources c)
           in if length m = 0 then [] else map (\<lambda>key. the (gmap_get m key)) (sort (map fst m))))"

end
