(* ===== verification/Plans_Props.thy ===== *)
theory Plans_Props
  imports Plans_Changes Addr_Props
begin

text \<open>
  Properties of planned changes: the synchronized change set is a pair of finite maps, the encoding of a change is
  undone by decoding it, and the simplification of a change splits a replacement into its two halves.
\<close>

section \<open>Keyed logs\<close>

text \<open>
  Both lists of a change set are logs whose entries have a key: a lookup finds the first entry with a key, and a
  removal takes the first one out.  While no key occurs twice, such a log is a finite map.
\<close>

definition keyed_ok :: "('e \<Rightarrow> 'k) \<Rightarrow> 'e list \<Rightarrow> bool" where
  "keyed_ok key es \<longleftrightarrow> distinct (map key es)"

definition keyed_map :: "('e \<Rightarrow> 'k) \<Rightarrow> 'e list \<Rightarrow> 'k \<Rightarrow> 'e option" where
  "keyed_map key es = map_of (map (\<lambda>e. (key e, e)) es)"

locale change_log =
  fixes entries :: "'s \<Rightarrow> 'e list"
    and key :: "'e \<Rightarrow> 'k"
    and copy :: "'e \<Rightarrow> 'e"
    and app :: "'s \<Rightarrow> 'e \<Rightarrow> 's"
    and rem :: "'s \<Rightarrow> 'k \<Rightarrow> 's"
    and get :: "'s \<Rightarrow> 'k \<Rightarrow> 'e option"
  assumes entries_app: "entries (app s e) = entries s @ [copy e]"
    and entries_rem: "entries (rem s k) = remove_first (\<lambda>e. key e = k) (entries s)"
    and get_find: "get s k = List.find (\<lambda>e. key e = k) (entries s)"
    and key_copy: "key (copy e) = key e"
begin

lemma get_map: "get s k = keyed_map key (entries s) k"
proof -
  have "List.find (\<lambda>e. key e = k) es = keyed_map key es k" for es
    by (induction es) (auto simp: keyed_map_def)
  then show ?thesis by (simp add: get_find)
qed

lemma map_None: "keyed_map key es k = None \<longleftrightarrow> k \<notin> key ` set es"
  by (induction es) (auto simp: keyed_map_def)

lemma map_Some: "keyed_ok key es \<Longrightarrow> keyed_map key es k = Some e \<longleftrightarrow> e \<in> set es \<and> key e = k"
  by (induction es) (auto simp: keyed_map_def keyed_ok_def rev_image_eqI)

lemma app_ok: "keyed_ok key (entries s) \<Longrightarrow> keyed_map key (entries s) (key e) = None \<Longrightarrow> keyed_ok key (entries (app s e))"
  by (auto simp: entries_app keyed_ok_def map_None key_copy)

lemma app_map:
  "keyed_map key (entries s) (key e) = None \<Longrightarrow> keyed_map key (entries (app s e)) = (keyed_map key (entries s))(key e \<mapsto> copy e)"
  by (auto simp: entries_app keyed_map_def key_copy fun_eq_iff map_add_def split: option.splits)

lemma remove_first_set: "set (remove_first P es) \<subseteq> set es"
  by (induction es) auto

lemma rem_ok: "keyed_ok key (entries s) \<Longrightarrow> keyed_ok key (entries (rem s k))"
proof -
  have "keyed_ok key es \<Longrightarrow> keyed_ok key (remove_first P es)" for es P
    by (induction es) (use remove_first_set in \<open>fastforce simp: keyed_ok_def\<close>)+
  then show "keyed_ok key (entries s) \<Longrightarrow> keyed_ok key (entries (rem s k))" by (simp add: entries_rem)
qed

lemma rem_map: "keyed_ok key (entries s) \<Longrightarrow> keyed_map key (entries (rem s k)) = (keyed_map key (entries s))(k := None)"
proof -
  have "keyed_ok key es \<Longrightarrow> keyed_map key (remove_first (\<lambda>e. key e = k) es) k' = (if k' = k then None else keyed_map key es k')" for es k'
  proof (induction es)
    case (Cons e es)
    then show ?case using map_None[of es "key e"] by (auto simp: keyed_map_def keyed_ok_def)
  qed (simp add: keyed_map_def)
  then show "keyed_ok key (entries s) \<Longrightarrow> keyed_map key (entries (rem s k)) = (keyed_map key (entries s))(k := None)"
    by (auto simp: entries_rem fun_eq_iff)
qed

end

definition rcs_key :: "('p, 'mk, 'ps) ResourceInstanceChangeSrc \<Rightarrow> AbsResourceInstance \<times> DeposedKey" where
  "rcs_key rc = (rcs_Addr rc, rcs_DeposedKey rc)"

fun gen_key :: "Generation \<Rightarrow> DeposedKey" where
  "gen_key CurrentGen = NotDeposed"
| "gen_key (DeposedGen k) = k"

lemma Remove_gen_key: "RemoveResourceInstanceChange cs a gen = RemoveResourceInstanceChange cs a (DeposedGen (gen_key gen))"
  by (cases gen) (simp_all add: RemoveResourceInstanceChange_def)

lemma Get_gen_key: "GetResourceInstanceChange cp cs a gen = map_option (rcs_DeepCopy cp) (ResourceInstanceDeposed cs a (gen_key gen))"
  by (cases gen) (simp_all add: ResourceInstance_change_def ResourceInstanceDeposed_def)

lemma aov_Equal_iff: "aov_Equal a b \<longleftrightarrow> a = b"
  by (cases a, cases b) (auto simp: aov_Equal_def mi_Equal_iff)

interpretation rlog: change_log chg_Resources rcs_key "rcs_DeepCopy cp" "AppendResourceInstanceChange cp"
  "\<lambda>cs k. RemoveResourceInstanceChange cs (fst k) (DeposedGen (snd k))" "\<lambda>cs k. ResourceInstanceDeposed cs (fst k) (snd k)" for cp
  by unfold_locales
    (auto simp: AppendResourceInstanceChange_def RemoveResourceInstanceChange_def ResourceInstanceDeposed_def rcs_key_def
      rcs_DeepCopy_def ari_Equal_iff intro!: arg_cong2[where f = remove_first] arg_cong2[where f = List.find])

interpretation olog: change_log chg_Outputs ocs_Addr ocs_DeepCopy AppendOutputChange RemoveOutputChange GetOutputChange
  by unfold_locales
    (auto simp: AppendOutputChange_def RemoveOutputChange_def GetOutputChange_def OutputValue_change_def ocs_DeepCopy_def aov_Equal_iff)

lemma log_frames:
  "chg_Outputs (AppendResourceInstanceChange cp cs rc) = chg_Outputs cs"
  "chg_Outputs (RemoveResourceInstanceChange cs a gen) = chg_Outputs cs"
  "chg_Resources (AppendOutputChange cs oc) = chg_Resources cs"
  "chg_Resources (RemoveOutputChange cs ao) = chg_Resources cs"
  by (simp_all add: AppendResourceInstanceChange_def RemoveResourceInstanceChange_def AppendOutputChange_def RemoveOutputChange_def)

section \<open>The change set as two finite maps\<close>

datatype ('p, 'mk, 'ps) change_op =
    AppendResource "('p, 'mk, 'ps) ResourceInstanceChangeSrc"
  | RemoveResource AbsResourceInstance Generation
  | AppendOutput "'mk OutputChangeSrc"
  | RemoveOutput AbsOutputValue

fun change_step :: "('ps \<Rightarrow> 'ps) \<Rightarrow> ('p, 'mk, 'ps) Changes \<Rightarrow> ('p, 'mk, 'ps) change_op \<Rightarrow> ('p, 'mk, 'ps) Changes" where
  "change_step cp cs (AppendResource rc) = AppendResourceInstanceChange cp cs rc"
| "change_step cp cs (RemoveResource a gen) = RemoveResourceInstanceChange cs a gen"
| "change_step cp cs (AppendOutput oc) = AppendOutputChange cs oc"
| "change_step cp cs (RemoveOutput ao) = RemoveOutputChange cs ao"

record ('p, 'mk, 'ps) change_maps =
  cm_res :: "AbsResourceInstance \<times> DeposedKey \<Rightarrow> ('p, 'mk, 'ps) ResourceInstanceChangeSrc option"
  cm_out :: "AbsOutputValue \<Rightarrow> 'mk OutputChangeSrc option"

fun spec_change_step :: "('ps \<Rightarrow> 'ps) \<Rightarrow> ('p, 'mk, 'ps) change_maps \<Rightarrow> ('p, 'mk, 'ps) change_op \<Rightarrow> ('p, 'mk, 'ps) change_maps" where
  "spec_change_step cp m (AppendResource rc) = m\<lparr>cm_res := (cm_res m)(rcs_key rc \<mapsto> rcs_DeepCopy cp rc)\<rparr>"
| "spec_change_step cp m (RemoveResource a gen) = m\<lparr>cm_res := (cm_res m)((a, gen_key gen) := None)\<rparr>"
| "spec_change_step cp m (AppendOutput oc) = m\<lparr>cm_out := (cm_out m)(ocs_Addr oc \<mapsto> oc)\<rparr>"
| "spec_change_step cp m (RemoveOutput ao) = m\<lparr>cm_out := (cm_out m)(ao := None)\<rparr>"

text \<open>An append is admissible when no change is recorded for its object.\<close>

fun change_fresh :: "('p, 'mk, 'ps) change_maps \<Rightarrow> ('p, 'mk, 'ps) change_op \<Rightarrow> bool" where
  "change_fresh m (AppendResource rc) \<longleftrightarrow> cm_res m (rcs_key rc) = None"
| "change_fresh m (AppendOutput oc) \<longleftrightarrow> cm_out m (ocs_Addr oc) = None"
| "change_fresh m _ \<longleftrightarrow> True"

fun changes_fresh :: "('ps \<Rightarrow> 'ps) \<Rightarrow> ('p, 'mk, 'ps) change_maps \<Rightarrow> ('p, 'mk, 'ps) change_op list \<Rightarrow> bool" where
  "changes_fresh cp m [] \<longleftrightarrow> True"
| "changes_fresh cp m (op # ops) \<longleftrightarrow> change_fresh m op \<and> changes_fresh cp (spec_change_step cp m op) ops"

definition changes_ok :: "('p, 'mk, 'ps) Changes \<Rightarrow> bool" where
  "changes_ok cs \<longleftrightarrow> keyed_ok rcs_key (chg_Resources cs) \<and> keyed_ok ocs_Addr (chg_Outputs cs)"

definition changes_abs :: "('p, 'mk, 'ps) Changes \<Rightarrow> ('p, 'mk, 'ps) change_maps" where
  "changes_abs cs = \<lparr>cm_res = keyed_map rcs_key (chg_Resources cs), cm_out = keyed_map ocs_Addr (chg_Outputs cs)\<rparr>"

lemma change_step_sim:
  assumes "changes_ok cs" "change_fresh (changes_abs cs) op"
  shows "changes_ok (change_step cp cs op) \<and> changes_abs (change_step cp cs op) = spec_change_step cp (changes_abs cs) op"
proof (cases op)
  case (AppendResource rc)
  then show ?thesis using assms rlog.app_ok[of cs rc cp] rlog.app_map[of cs rc cp]
    by (simp add: changes_ok_def changes_abs_def log_frames)
next
  case (RemoveResource a gen)
  then show ?thesis using assms rlog.rem_ok[of cs "(a, gen_key gen)"] rlog.rem_map[of cs "(a, gen_key gen)"]
    by (simp add: changes_ok_def changes_abs_def log_frames Remove_gen_key[of cs a gen])
next
  case (AppendOutput oc)
  then show ?thesis using assms olog.app_ok[of cs oc] olog.app_map[of cs oc]
    by (simp add: changes_ok_def changes_abs_def log_frames ocs_DeepCopy_def)
next
  case (RemoveOutput ao)
  then show ?thesis using assms olog.rem_ok[of cs ao] olog.rem_map[of cs ao]
    by (simp add: changes_ok_def changes_abs_def log_frames)
qed

lemma change_run_sim:
  "changes_ok cs \<Longrightarrow> changes_fresh cp (changes_abs cs) ops \<Longrightarrow>
   changes_ok (foldl (change_step cp) cs ops) \<and>
   changes_abs (foldl (change_step cp) cs ops) = foldl (spec_change_step cp) (changes_abs cs) ops"
proof (induction ops arbitrary: cs)
  case (Cons op ops)
  have "changes_ok (change_step cp cs op) \<and> changes_abs (change_step cp cs op) = spec_change_step cp (changes_abs cs) op"
    using change_step_sim Cons.prems by auto
  then show ?case using Cons.IH[of "change_step cp cs op"] Cons.prems by simp
qed simp

lemma GetResourceInstanceChange_map:
  "GetResourceInstanceChange cp cs a gen = map_option (rcs_DeepCopy cp) (cm_res (changes_abs cs) (a, gen_key gen))"
  using rlog.get_map[of cs "(a, gen_key gen)"] by (simp add: Get_gen_key changes_abs_def)

lemma GetOutputChange_map: "GetOutputChange cs ao = cm_out (changes_abs cs) ao"
  using olog.get_map[of cs ao] by (simp add: changes_abs_def)

lemma GetChangesForConfigResource_set:
  assumes "changes_ok cs"
  shows "set (GetChangesForConfigResource cp cs cr) =
    {rcs_DeepCopy cp rc | rc a. cm_res (changes_abs cs) (a, NotDeposed) = Some rc \<and> ar_Config (ari_ContainingResource a) = cr}"
proof -
  have "rc \<in> set (InstancesForConfigResource cs cr) \<longleftrightarrow>
      (\<exists>a. cm_res (changes_abs cs) (a, NotDeposed) = Some rc \<and> ar_Config (ari_ContainingResource a) = cr)" for rc
    using assms by (auto simp: InstancesForConfigResource_def cr_Equal_iff changes_ok_def changes_abs_def rlog.map_Some rcs_key_def)
  then show ?thesis by (auto simp: GetChangesForConfigResource_def)
qed

text \<open>
  C33: The change set that the nodes of a graph share refines a pair of finite maps, one from resource instance
  objects and one from output values to their planned changes.  Any sequence of appends and removals, in which a
  change is appended only for an object that has none recorded, has the effect of the same updates of the maps;
  afterwards a lookup by address and generation gives a copy of what the map holds, and the changes of the
  instances of a configuration resource are the copies of the entries of its current objects.
\<close>

theorem ChangesSync_refines:
  assumes "changes_ok cs" "changes_fresh cp (changes_abs cs) ops"
  shows "let cs' = foldl (change_step cp) cs ops; m = foldl (spec_change_step cp) (changes_abs cs) ops in
    changes_ok cs' \<and>
    GetResourceInstanceChange cp cs' a gen = map_option (rcs_DeepCopy cp) (cm_res m (a, gen_key gen)) \<and>
    GetOutputChange cs' ao = cm_out m ao \<and>
    set (GetChangesForConfigResource cp cs' cr) =
      {rcs_DeepCopy cp rc | rc a. cm_res m (a, NotDeposed) = Some rc \<and> ar_Config (ari_ContainingResource a) = cr}"
  using change_run_sim[OF assms] GetChangesForConfigResource_set[of "foldl (change_step cp) cs ops" cp cr]
    GetResourceInstanceChange_map[of cp "foldl (change_step cp) cs ops" a gen] GetOutputChange_map[of "foldl (change_step cp) cs ops" ao]
  by (simp add: Let_def)

definition ex_ari :: "string \<Rightarrow> AbsResourceInstance" where
  "ex_ari n = \<lparr>ari_Module = [], ari_Resource = \<lparr>ri_Resource = \<lparr>res_Mode = ManagedResourceMode, res_Type = ''t'', res_Name = n\<rparr>, ri_Key = NoKey\<rparr>\<rparr>"

definition ex_rcs :: "string \<Rightarrow> Action \<Rightarrow> (unit, unit, unit) ResourceInstanceChangeSrc" where
  "ex_rcs n act = \<lparr>rcs_Addr = ex_ari n, rcs_PrevRunAddr = ex_ari n, rcs_DeposedKey = NotDeposed,
     rcs_ProviderAddr = \<lparr>apc_Module = [], apc_Provider = (), apc_Alias = []\<rparr>,
     rcs_ChangeSrc = \<lparr>chs_Action = act, chs_Before = None, chs_After = Some ''x'', chs_BeforeValMarks = [], chs_AfterValMarks = [],
       chs_Importing = None, chs_GeneratedConfig = []\<rparr>,
     rcs_ActionReason = ResourceInstanceChangeNoReason, rcs_RequiredReplace = (), rcs_Private = []\<rparr>"

definition ex_change_ops :: "(unit, unit, unit) change_op list" where
  "ex_change_ops = [AppendResource (ex_rcs ''a'' Create), RemoveResource (ex_ari ''a'') CurrentGen, AppendResource (ex_rcs ''a'' Update)]"

theorem ChangesSync_refines_witness:
  "changes_ok (NewChanges :: (unit, unit, unit) Changes) \<and> changes_fresh (\<lambda>p. p) (changes_abs NewChanges) ex_change_ops \<and>
   GetResourceInstanceChange (\<lambda>p. p) (foldl (change_step (\<lambda>p. p)) NewChanges ex_change_ops) (ex_ari ''a'') CurrentGen =
     Some (ex_rcs ''a'' Update)"
proof -
  have ok: "changes_ok (NewChanges :: (unit, unit, unit) Changes)"
    and fresh: "changes_fresh (\<lambda>p. p) (changes_abs NewChanges) ex_change_ops"
    by (simp_all add: changes_ok_def keyed_ok_def NewChanges_def ex_change_ops_def changes_abs_def keyed_map_def rcs_key_def ex_rcs_def)
  have "cm_res (foldl (spec_change_step (\<lambda>p. p)) (changes_abs NewChanges) ex_change_ops) (ex_ari ''a'', NotDeposed) = Some (ex_rcs ''a'' Update)"
    by (simp add: ex_change_ops_def rcs_key_def ex_rcs_def rcs_DeepCopy_def)
  then show ?thesis using ok fresh ChangesSync_refines[OF ok fresh, where a = "ex_ari ''a''" and gen = CurrentGen and ao = undefined and cr = undefined]
    by (simp add: Let_def rcs_DeepCopy_def ex_rcs_def del: GetResourceInstanceChange.simps)
qed

section \<open>Encoding and decoding\<close>

text \<open>
  What the encoding relies on: the values of a set \<open>C\<close> are values of the type, none of them the absent value;
  serializing an unmarked one gives a non-empty text from which it is read back; taking the marks off gives an
  unmarked value of the set, and putting them back gives the value; marking with no paths changes nothing.
\<close>

definition cty_laws :: "('v, 'ty, 'mk) cty_ops \<Rightarrow> 'ty \<Rightarrow> 'v set \<Rightarrow> bool" where
  "cty_laws ct ty C \<longleftrightarrow>
     ct_NilVal ct \<notin> C \<and>
     (\<forall>v \<in> C. \<not> ct_ContainsMarked ct v \<longrightarrow> (\<exists>buf. ct_Marshal ct v ty = Inr buf \<and> buf \<noteq> [] \<and> ct_Unmarshal ct buf ty = Inr v)) \<and>
     (\<forall>v \<in> C. \<forall>u m. ct_ContainsMarked ct v \<longrightarrow> ct_UnmarkDeepWithPaths ct v = (u, m) \<longrightarrow>
        u \<in> C \<and> \<not> ct_ContainsMarked ct u \<and> ct_MarkWithPaths ct u m = v) \<and>
     (\<forall>v \<in> C. ct_MarkWithPaths ct v [] = v)"

lemma unmarked_encoded:
  assumes "cty_laws ct ty C" "v \<in> C" "unmarked ct v = (u, m)"
  obtains buf where "NewDynamicValue ct u ty = Inr (Some buf)" "decode_or_null ct (Some buf) ty = Inr u" "ct_MarkWithPaths ct u m = v"
proof -
  have "u \<in> C \<and> \<not> ct_ContainsMarked ct u \<and> ct_MarkWithPaths ct u m = v"
  proof (cases "ct_ContainsMarked ct v")
    case True
    then show ?thesis using assms unfolding cty_laws_def unmarked_def by (metis (full_types))
  next
    case False
    then have "u = v" "m = []" using assms(3) by (simp_all add: unmarked_def)
    moreover have "ct_MarkWithPaths ct v [] = v" using assms(1,2) unfolding cty_laws_def by blast
    ultimately show ?thesis using False assms(2) by simp
  qed
  then have "u \<in> C" "\<not> ct_ContainsMarked ct u" "ct_MarkWithPaths ct u m = v" by simp_all
  moreover from this obtain buf where "ct_Marshal ct u ty = Inr buf" "buf \<noteq> []" "ct_Unmarshal ct buf ty = Inr u"
    using assms(1) unfolding cty_laws_def by blast
  moreover have "u \<noteq> ct_NilVal ct" using assms(1) \<open>u \<in> C\<close> by (auto simp: cty_laws_def)
  ultimately show ?thesis using that by (simp add: NewDynamicValue_def decode_or_null_def DynamicValue_Decode_def)
qed

lemma Change_roundtrip:
  assumes "cty_laws ct ty C" "chg_Before c \<in> C" "chg_After c \<in> C"
  shows "\<exists>src. Change_Encode ct c ty = Inr src \<and> ChangeSrc_Decode ct src ty = Inr c"
proof -
  obtain ub mb where b: "unmarked ct (chg_Before c) = (ub, mb)" by (cases "unmarked ct (chg_Before c)")
  obtain ua ma where a: "unmarked ct (chg_After c) = (ua, ma)" by (cases "unmarked ct (chg_After c)")
  obtain bb where bb: "NewDynamicValue ct ub ty = Inr (Some bb)" "decode_or_null ct (Some bb) ty = Inr ub" "ct_MarkWithPaths ct ub mb = chg_Before c"
    using unmarked_encoded[OF assms(1,2) b] .
  obtain ba where ba: "NewDynamicValue ct ua ty = Inr (Some ba)" "decode_or_null ct (Some ba) ty = Inr ua" "ct_MarkWithPaths ct ua ma = chg_After c"
    using unmarked_encoded[OF assms(1,3) a] .
  show ?thesis by (simp add: Change_Encode_def ChangeSrc_Decode_def a b ba bb)
qed

text \<open>
  C34: Writing a resource instance change to the form a plan file holds and reading it back, with the same type, gives
  the change again: its action, both values with their marks, the import, the reason, the paths and the private data.
  Only the previous address is normalized, to the current address when it was never set.
\<close>

theorem ResourceInstanceChange_roundtrip:
  assumes "cty_laws ct ty C" "chg_Before (ric_Change rc) \<in> C" "chg_After (ric_Change rc) \<in> C"
  shows "\<exists>src. ric_Encode ct rc ty = Inr src \<and>
    rcs_Decode ct src ty = Inr (rc\<lparr>ric_PrevRunAddr := prev_run_addr (ric_PrevRunAddr rc) (ric_Addr rc)\<rparr>)"
proof -
  obtain src where "Change_Encode ct (ric_Change rc) ty = Inr src" "ChangeSrc_Decode ct src ty = Inr (ric_Change rc)"
    using Change_roundtrip[OF assms] by blast
  then show ?thesis by (cases rc) (auto simp: ric_Encode_def rcs_Decode_def prev_run_addr_def)
qed

text \<open>A model of the laws: a value is a text with a flag saying that it is marked.\<close>

definition ex_cty :: "((string \<times> bool) option, unit, unit) cty_ops" where
  "ex_cty = \<lparr>ct_NilVal = None, ct_DynamicPseudoType = (), ct_NullVal = (\<lambda>_. Some ([], False)), ct_Type = (\<lambda>_. ()),
     ct_ContainsMarked = (\<lambda>v. v \<noteq> None \<and> snd (the v)),
     ct_UnmarkDeepWithPaths = (\<lambda>v. (map_option (\<lambda>p. (fst p, False)) v, [()])),
     ct_MarkWithPaths = (\<lambda>v m. map_option (\<lambda>p. (fst p, snd p \<or> m \<noteq> [])) v),
     ct_Marshal = (\<lambda>v _. Inr (CHR ''v'' # fst (the v))), ct_Unmarshal = (\<lambda>b _. Inr (Some (tl b, False)))\<rparr>"

definition ex_ric :: "(unit, (string \<times> bool) option, unit) ResourceInstanceChange" where
  "ex_ric = \<lparr>ric_Addr = ex_ari ''a'', ric_PrevRunAddr = ex_ari ''b'', ric_DeposedKey = NotDeposed,
     ric_ProviderAddr = \<lparr>apc_Module = [], apc_Provider = (), apc_Alias = []\<rparr>,
     ric_Change = \<lparr>chg_Action = Update, chg_Before = Some (''old'', True), chg_After = Some (''new'', False), chg_Importing = Some ''i'',
       chg_GeneratedConfig = []\<rparr>,
     ric_ActionReason = ResourceInstanceChangeNoReason, ric_RequiredReplace = (), ric_Private = ''p''\<rparr>"

theorem ResourceInstanceChange_roundtrip_witness:
  "cty_laws ex_cty () (range Some) \<and> (\<exists>src. ric_Encode ex_cty ex_ric () = Inr src \<and> rcs_Decode ex_cty src () = Inr ex_ric)"
proof -
  have laws: "cty_laws ex_cty () (range Some)" by (auto simp: cty_laws_def ex_cty_def)
  show ?thesis using laws ResourceInstanceChange_roundtrip[OF laws, of ex_ric] by (simp add: ex_ric_def prev_run_addr_def ex_ari_def)
qed

section \<open>Simplification\<close>

text \<open>
  A destroy node and an apply node divide a change between them by simplifying it.  The destroy node is left with a
  deletion exactly for deletions and replacements, and with nothing otherwise; the apply node is left with a creation
  exactly for creations and the three replacing actions, with nothing for deletions, and with the action itself
  otherwise; simplifying again changes nothing, and what one of them leaves the other is done by neither twice.
\<close>

theorem Simplify_divides:
  "chg_Action (ric_Change (Simplify ct zps rc True)) =
     (if chg_Action (ric_Change rc) = Delete \<or> IsReplace (chg_Action (ric_Change rc)) then Delete else NoOp) \<and>
   chg_Action (ric_Change (Simplify ct zps rc False)) =
     (if chg_Action (ric_Change rc) = Delete then NoOp
      else if IsReplace (chg_Action (ric_Change rc)) \<or> chg_Action (ric_Change rc) = ForgetThenCreate then Create
      else chg_Action (ric_Change rc)) \<and>
   Simplify ct zps (Simplify ct zps rc destroying) destroying = Simplify ct zps rc destroying \<and>
   chg_Action (ric_Change (Simplify ct zps (Simplify ct zps rc False) True)) = NoOp \<and>
   chg_Action (ric_Change (Simplify ct zps (Simplify ct zps rc True) False)) = NoOp"
  by (cases "chg_Action (ric_Change rc)"; cases destroying) (simp_all add: Simplify_def simplified_def IsReplace_def Let_def)

end
