(* ===== verification/Graph_Transform.thy ===== *)
theory Graph_Transform
  imports Plans_Changes Refactor_Moves Dag_Scc Config_Tree
begin

text \<open>
  The transformers that shape a dependency graph (\<^verbatim>\<open>internal/tofu\<close>: \<^verbatim>\<open>transform.go\<close>, \<^verbatim>\<open>graph_builder.go\<close>,
  \<^verbatim>\<open>transform_targets.go\<close>, \<^verbatim>\<open>transform_root.go\<close>, \<^verbatim>\<open>transform_transitive_reduction.go\<close>, \<^verbatim>\<open>transform_destroy_cbd.go\<close>,
  \<^verbatim>\<open>transform_destroy_edge.go\<close>, \<^verbatim>\<open>transform_state.go\<close>, \<^verbatim>\<open>transform_orphan_resource.go\<close>).

  A vertex is a value of a type parameter, and \<open>hc\<close> gives its hash code.  What a vertex is, is asked by type assertions to
  interfaces: the record \<open>node_ops\<close> has one field per interface, \<open>None\<close> when the vertex does not implement it and what its
  methods return otherwise.  Graph walks are partial functions, so a transformer that uses one returns an option.
\<close>

section \<open>Vertices\<close>

datatype walkOperation =
    walkInvalid | walkApply | walkPlan | walkPlanDestroy | walkValidate | walkDestroy | walkImport | walkEval

record LocalProviderConfig =
  lpc_LocalName :: string
  lpc_Alias :: string

datatype 'p ProviderConfig = AbsPC "'p AbsProviderConfig" | LocalPC LocalProviderConfig | NoPC

record ('v, 'p) node_ops =
  nd_ResourceInstance :: "'v \<Rightarrow> AbsResourceInstance option"
  nd_StateDependencies :: "'v \<Rightarrow> ConfigResource list"
  nd_ConfigResource :: "'v \<Rightarrow> ConfigResource option"
  nd_Targetable :: "'v \<Rightarrow> bool"
  nd_TemporaryValue :: "'v \<Rightarrow> (walkOperation \<Rightarrow> bool) option"
  nd_Destroyer :: "'v \<Rightarrow> AbsResourceInstance option option"
  nd_Creator :: "'v \<Rightarrow> AbsResourceInstance option option"
  nd_ProviderConsumer :: "'v \<Rightarrow> ('p ProviderConfig \<times> 'p) option"
  nd_Referencer :: "'v \<Rightarrow> bool"
  nd_Retained :: "'v \<Rightarrow> bool"
  nd_DynamicExpandable :: "'v \<Rightarrow> bool"
  nd_Provider :: "'v \<Rightarrow> bool"

text \<open>What \<^verbatim>\<open>deps, _ := g.Ancestors(v)\<close> leaves in \<^verbatim>\<open>deps\<close>: an error is dropped and the set is then nil.\<close>

definition walked :: "(unit walk_exit + ('h, 'v) dset) option \<Rightarrow> ('h, 'v) dset option" where
  "walked r = (case r of Some (Inr s) \<Rightarrow> Some s | Some (Inl (CallbackError _)) \<Rightarrow> Some [] | _ \<Rightarrow> None)"

definition add_all :: "('v \<Rightarrow> 'h) \<Rightarrow> ('h, 'v) dset \<Rightarrow> 'v list \<Rightarrow> ('h, 'v) dset" where
  "add_all hc s vs = foldl (set_Add hc) s vs"

section \<open>Targeting\<close>

definition getTargetableNodeResourceAddr :: "('v, 'p) node_ops \<Rightarrow> 'v \<Rightarrow> Targetable option" where
  "getTargetableNodeResourceAddr nd v =
     (case nd_ResourceInstance nd v of
        Some r \<Rightarrow> Some (TAbsResourceInstance r)
      | None \<Rightarrow> (case nd_ConfigResource nd v of Some r \<Rightarrow> Some (TConfigResource r) | None \<Rightarrow> None))"

text \<open>Before expansion vertices know only a configuration address, so a more specific target is generalized.\<close>

fun generalized :: "Targetable \<Rightarrow> Targetable \<Rightarrow> Targetable" where
  "generalized (TConfigResource _) (TAbsResourceInstance target) = TConfigResource (ar_Config (ari_ContainingResource target))"
| "generalized (TConfigResource _) (TAbsResource target) = TConfigResource (ar_Config target)"
| "generalized (TConfigResource _) (TModuleInstance target) = TModule (mi_Module target)"
| "generalized _ target = target"

definition nodeIsTarget :: "('v, 'p) node_ops \<Rightarrow> 'v \<Rightarrow> Targetable list \<Rightarrow> bool" where
  "nodeIsTarget nd v targets =
     (case getTargetableNodeResourceAddr nd v of
        None \<Rightarrow> False
      | Some vertexAddr \<Rightarrow> list_ex (\<lambda>targetAddr. TargetContains (generalized vertexAddr targetAddr) vertexAddr) targets)"

definition nodeIsExcluded :: "Targetable \<Rightarrow> Targetable list \<Rightarrow> bool" where
  "nodeIsExcluded vertexAddr excludes = list_ex (\<lambda>excludeAddr. TargetContains excludeAddr vertexAddr) excludes"

definition nodeDescendantsExcluded :: "Targetable \<Rightarrow> Targetable list \<Rightarrow> bool" where
  "nodeDescendantsExcluded vertexAddr excludes =
     list_ex (\<lambda>excludeAddr. TargetContains (generalized vertexAddr excludeAddr) vertexAddr) excludes"

text \<open>How many resources among the dependencies are targeted; none count as soon as one is not.\<close>

fun found_targeted :: "('v \<Rightarrow> 'h) \<Rightarrow> ('v, 'p) node_ops \<Rightarrow> ('h, 'v) dset \<Rightarrow> 'v list \<Rightarrow> nat \<Rightarrow> nat" where
  "found_targeted hc nd targetedNodes [] found = found"
| "found_targeted hc nd targetedNodes (d # deps) found =
     (if getTargetableNodeResourceAddr nd d = None then found_targeted hc nd targetedNodes deps found
      else if \<not> set_Include hc targetedNodes d then 0
      else found_targeted hc nd targetedNodes deps (Suc found))"

definition targeted_output ::
  "('v \<Rightarrow> 'h) \<Rightarrow> ('v, 'p) node_ops \<Rightarrow> ('h, 'v) dset \<Rightarrow> ('h, 'v) graph \<Rightarrow> 'v \<Rightarrow> ('h, 'v) dset \<Rightarrow> ('h, 'v) dset option" where
  "targeted_output hc nd targetedNodes g v outs =
     (case nd_TemporaryValue nd v of
        None \<Rightarrow> Some outs
      | Some temporaryValue \<Rightarrow>
          if temporaryValue walkInvalid then Some outs
          else case walked (Ancestors hc g v) of
              None \<Rightarrow> None
            | Some deps \<Rightarrow>
                if found_targeted hc nd targetedNodes (set_List deps) 0 > 0 then Some (add_all hc (set_Add hc outs v) (set_List deps))
                else Some outs)"

definition getTargetedOutputNodes ::
  "('v \<Rightarrow> 'h) \<Rightarrow> ('v, 'p) node_ops \<Rightarrow> ('h, 'v) dset \<Rightarrow> ('h, 'v) graph \<Rightarrow> ('h, 'v) dset option" where
  "getTargetedOutputNodes hc nd targetedNodes g = fold_opt (targeted_output hc nd targetedNodes g) (graph_Vertices g) []"

text \<open>
  The vertices that are told their targets or excludes are returned with the set: \<^verbatim>\<open>SetTargets\<close> and \<^verbatim>\<open>SetExcludes\<close> get the
  whole list.
\<close>

definition select_node ::
  "('v \<Rightarrow> 'h) \<Rightarrow> ('v, 'p) node_ops \<Rightarrow> ('h, 'v) graph \<Rightarrow> 'v \<Rightarrow> ('h, 'v) dset \<times> 'v list \<Rightarrow> (('h, 'v) dset \<times> 'v list) option" where
  "select_node hc nd g v st =
     (case st of (targetedNodes, told) \<Rightarrow>
        (let targetedNodes = set_Add hc targetedNodes v;
             told = (if nd_Targetable nd v then told @ [v] else told)
         in case walked (Ancestors hc g v) of
              None \<Rightarrow> None
            | Some deps \<Rightarrow> Some (add_all hc targetedNodes (set_List deps), told)))"

definition with_outputs ::
  "('v \<Rightarrow> 'h) \<Rightarrow> ('v, 'p) node_ops \<Rightarrow> ('h, 'v) graph \<Rightarrow> ('h, 'v) dset \<times> 'v list \<Rightarrow> (('h, 'v) dset \<times> 'v list) option" where
  "with_outputs hc nd g st =
     (case st of (targetedNodes, told) \<Rightarrow>
        (case getTargetedOutputNodes hc nd targetedNodes g of
           None \<Rightarrow> None
         | Some outs \<Rightarrow> Some (add_all hc targetedNodes (set_List outs), told)))"

definition selectTargetedNodes ::
  "('v \<Rightarrow> 'h) \<Rightarrow> ('v, 'p) node_ops \<Rightarrow> ('h, 'v) graph \<Rightarrow> Targetable list \<Rightarrow> (('h, 'v) dset \<times> 'v list) option" where
  "selectTargetedNodes hc nd g addrs =
     (case fold_opt (\<lambda>v st. if nodeIsTarget nd v addrs then select_node hc nd g v st else Some st) (graph_Vertices g) ([], []) of
        None \<Rightarrow> None
      | Some st \<Rightarrow> with_outputs hc nd g st)"

definition exclude_dependent :: "('v \<Rightarrow> 'h) \<Rightarrow> ('v, 'p) node_ops \<Rightarrow> Targetable \<Rightarrow> ('h, 'v) dset \<Rightarrow> 'v \<Rightarrow> ('h, 'v) dset" where
  "exclude_dependent hc nd vertexAddr excludedNodes d =
     (case getTargetableNodeResourceAddr nd d of
        None \<Rightarrow> excludedNodes
      | Some depVertexAddr \<Rightarrow> if \<not> TargetContains vertexAddr depVertexAddr then set_Add hc excludedNodes d else excludedNodes)"

definition exclude_node ::
  "('v \<Rightarrow> 'h) \<Rightarrow> ('v, 'p) node_ops \<Rightarrow> ('h, 'v) graph \<Rightarrow> Targetable list \<Rightarrow> 'v \<Rightarrow> ('h, 'v) dset \<times> ('h, 'v) dset \<Rightarrow>
   (('h, 'v) dset \<times> ('h, 'v) dset) option" where
  "exclude_node hc nd g excludes v st =
     (case st of (targetableNodes, excludedNodes) \<Rightarrow>
        (case getTargetableNodeResourceAddr nd v of
           None \<Rightarrow> Some (targetableNodes, excludedNodes)
         | Some vertexAddr \<Rightarrow>
             (let targetableNodes = set_Add hc targetableNodes v;
                  nodeExcluded = nodeIsExcluded vertexAddr excludes;
                  excludedNodes = (if nodeExcluded then set_Add hc excludedNodes v else excludedNodes)
              in if nodeExcluded \<or> nodeDescendantsExcluded vertexAddr excludes then
                   (case walked (Descendents hc g v) of
                      None \<Rightarrow> None
                    | Some deps \<Rightarrow> Some (targetableNodes, foldl (exclude_dependent hc nd vertexAddr) excludedNodes (set_List deps)))
                 else Some (targetableNodes, excludedNodes))))"

definition removeExcludedNodes ::
  "('v \<Rightarrow> 'h) \<Rightarrow> ('v, 'p) node_ops \<Rightarrow> ('h, 'v) graph \<Rightarrow> Targetable list \<Rightarrow> (('h, 'v) dset \<times> 'v list) option" where
  "removeExcludedNodes hc nd g excludes =
     (case fold_opt (exclude_node hc nd g excludes) (graph_Vertices g) ([], []) of
        None \<Rightarrow> None
      | Some (targetableNodes, excludedNodes) \<Rightarrow>
          (case fold_opt (\<lambda>v st. if \<not> set_Include hc excludedNodes v then select_node hc nd g v st else Some st) (set_List targetableNodes) ([], []) of
             None \<Rightarrow> None
           | Some st \<Rightarrow> with_outputs hc nd g st))"

definition TargetingTransformer ::
  "('v \<Rightarrow> 'h) \<Rightarrow> ('v, 'p) node_ops \<Rightarrow> Targetable list \<Rightarrow> Targetable list \<Rightarrow> ('h, 'v) graph \<Rightarrow> (('h, 'v) graph \<times> 'v list) option" where
  "TargetingTransformer hc nd targets excludes g =
     (if length targets = 0 \<and> length excludes = 0 then Some (g, [])
      else case (if length targets > 0 then selectTargetedNodes hc nd g targets else removeExcludedNodes hc nd g excludes) of
          None \<Rightarrow> None
        | Some (targetedNodes, told) \<Rightarrow>
            Some (foldl (\<lambda>g v. if \<not> set_Include hc targetedNodes v then graph_Remove hc g v else g) g (graph_Vertices g), told))"

section \<open>Roots\<close>

definition connect_tops :: "('v \<Rightarrow> 'h) \<Rightarrow> 'v \<Rightarrow> ('h, 'v) graph \<Rightarrow> 'v \<Rightarrow> ('h, 'v) graph" where
  "connect_tops hc root g v =
     (if v = root then g
      else if set_Len (graph_UpEdges hc g v) = 0 then graph_Connect hc g (BasicEdge root v) else g)"

definition addRootNodeToGraph :: "('v \<Rightarrow> 'h) \<Rightarrow> 'v \<Rightarrow> ('h, 'v) graph \<Rightarrow> ('h, 'v) graph" where
  "addRootNodeToGraph hc rootNode g =
     (let g = graph_Add hc g rootNode in foldl (connect_tops hc rootNode) g (graph_Vertices g))"

text \<open>The closer of the root module is a new vertex.\<close>

definition CloseRootModuleTransformer :: "('v \<Rightarrow> 'h) \<Rightarrow> 'v \<Rightarrow> ('h, 'v) graph \<Rightarrow> ('h, 'v) graph" where
  "CloseRootModuleTransformer hc closeRoot g =
     (let g = graph_Add hc g closeRoot in foldl (connect_tops hc closeRoot) g (graph_Vertices g))"

definition TransitiveReductionTransformer :: "('v \<Rightarrow> 'h) \<Rightarrow> ('h, 'v) graph \<Rightarrow> ('h, 'v) graph option" where
  "TransitiveReductionTransformer hc g =
     (case Validate hc g of
        None \<Rightarrow> None
      | Some errs \<Rightarrow>
          if errs \<noteq> [] then Some g
          else case TransitiveReduction hc g of Some (Inr g') \<Rightarrow> Some g' | _ \<Rightarrow> None)"

section \<open>Building a graph\<close>

text \<open>
  A step changes a state that holds the graph and whatever its vertices store, and returns an error that carries either
  diagnostics that are not fatal or one that is.
\<close>

datatype 'd transform_error = NonFatalError "'d list" | FatalError 'd

datatype ('s, 'd, 'v) build_result = BuildFailed 's "'d list" | BuildInvalid "'v validate_error list" "'d list" | Built 's "'d list"

fun build_steps :: "('s \<Rightarrow> ('s \<times> 'd transform_error option) option) option list \<Rightarrow> 's \<Rightarrow> 'd list \<Rightarrow> (('s \<times> 'd list) + ('s \<times> 'd list)) option" where
  "build_steps [] s diags = Some (Inr (s, diags))"
| "build_steps (None # steps) s diags = build_steps steps s diags"
| "build_steps (Some step # steps) s diags =
     (case step s of
        None \<Rightarrow> None
      | Some (s, None) \<Rightarrow> build_steps steps s diags
      | Some (s, Some (NonFatalError ds)) \<Rightarrow> build_steps steps s (diags @ ds)
      | Some (s, Some (FatalError d)) \<Rightarrow> Some (Inl (s, diags @ [d])))"

definition BasicGraphBuilder_Build ::
  "('v \<Rightarrow> 'h) \<Rightarrow> ('s \<Rightarrow> ('h, 'v) graph) \<Rightarrow> ('s \<Rightarrow> ('s \<times> 'd transform_error option) option) option list \<Rightarrow> 's \<Rightarrow>
   ('s, 'd, 'v) build_result option" where
  "BasicGraphBuilder_Build hc gr steps s =
     (case build_steps steps s [] of
        None \<Rightarrow> None
      | Some (Inl (s, diags)) \<Rightarrow> Some (BuildFailed s diags)
      | Some (Inr (s, diags)) \<Rightarrow>
          (case Validate hc (gr s) of
             None \<Rightarrow> None
           | Some errs \<Rightarrow> if errs \<noteq> [] then Some (BuildInvalid errs diags) else Some (Built s diags)))"

fun graphTransformerMulti :: "('s \<Rightarrow> ('s \<times> 'd transform_error option) option) list \<Rightarrow> 's \<Rightarrow> ('s \<times> 'd transform_error option) option" where
  "graphTransformerMulti [] s = Some (s, None)"
| "graphTransformerMulti (t # ts) s =
     (case t s of None \<Rightarrow> None | Some (s, Some err) \<Rightarrow> Some (s, Some err) | Some (s, None) \<Rightarrow> graphTransformerMulti ts s)"

section \<open>Create before destroy\<close>

text \<open>
  The four implementations of \<^verbatim>\<open>GraphNodeDestroyerCBD\<close>, each with the fields its methods read: a forced setting, the setting
  of the configuration when there is one, and that of the current object in the state when there is one.
\<close>

datatype DestroyerCBD =
    ExpandPlannableResource "bool option" "bool option"
  | ApplyableResourceInstance bool "bool option"
  | DestroyResourceInstance "bool option" "bool option"
  | DestroyDeposedResourceInstanceObject

definition configured :: "bool option \<Rightarrow> bool" where
  "configured cfg = (case cfg of None \<Rightarrow> False | Some b \<Rightarrow> b)"

fun CreateBeforeDestroy :: "DestroyerCBD \<Rightarrow> bool" where
  "CreateBeforeDestroy (ExpandPlannableResource force cfg) = (case force of Some b \<Rightarrow> b | None \<Rightarrow> configured cfg)"
| "CreateBeforeDestroy (ApplyableResourceInstance force cfg) = (if force then force else configured cfg)"
| "CreateBeforeDestroy (DestroyResourceInstance cur cfg) = (case cur of Some b \<Rightarrow> b | None \<Rightarrow> configured cfg)"
| "CreateBeforeDestroy DestroyDeposedResourceInstanceObject = True"

fun ModifyCreateBeforeDestroy :: "DestroyerCBD \<Rightarrow> bool \<Rightarrow> string + DestroyerCBD" where
  "ModifyCreateBeforeDestroy (ExpandPlannableResource force cfg) v = Inr (ExpandPlannableResource (Some v) cfg)"
| "ModifyCreateBeforeDestroy (ApplyableResourceInstance force cfg) v = Inr (ApplyableResourceInstance v cfg)"
| "ModifyCreateBeforeDestroy (DestroyResourceInstance cur cfg) v = Inr (DestroyResourceInstance cur cfg)"
| "ModifyCreateBeforeDestroy DestroyDeposedResourceInstanceObject v =
     (if \<not> v then Inl ''can't deactivate create_before_destroy for a deposed instance'' else Inr DestroyDeposedResourceInstanceObject)"

definition hasCBDDescendent :: "('v \<Rightarrow> 'h) \<Rightarrow> ('v \<Rightarrow> DestroyerCBD option) \<Rightarrow> ('h, 'v) graph \<Rightarrow> 'v \<Rightarrow> bool option" where
  "hasCBDDescendent hc cbd g v =
     (case Descendents hc g v of
        Some (Inr s) \<Rightarrow> Some (list_ex (\<lambda>ov. case cbd ov of None \<Rightarrow> False | Some dn \<Rightarrow> CreateBeforeDestroy dn) (set_List s))
      | Some (Inl (CallbackError _)) \<Rightarrow> Some True
      | _ \<Rightarrow> None)"

fun ForcedCBD_loop ::
  "('v \<Rightarrow> 'h) \<Rightarrow> ('h, 'v) graph \<Rightarrow> 'v list \<Rightarrow> ('v \<Rightarrow> DestroyerCBD option) \<Rightarrow> ('v \<times> string + ('v \<Rightarrow> DestroyerCBD option)) option" where
  "ForcedCBD_loop hc g [] cbd = Some (Inr cbd)"
| "ForcedCBD_loop hc g (v # vs) cbd =
     (case cbd v of
        None \<Rightarrow> ForcedCBD_loop hc g vs cbd
      | Some dn \<Rightarrow>
          if \<not> CreateBeforeDestroy dn then
            (case hasCBDDescendent hc cbd g v of
               None \<Rightarrow> None
             | Some False \<Rightarrow> ForcedCBD_loop hc g vs cbd
             | Some True \<Rightarrow>
                 (case ModifyCreateBeforeDestroy dn True of
                    Inl err \<Rightarrow> Some (Inl (v, err))
                  | Inr dn' \<Rightarrow> ForcedCBD_loop hc g vs (cbd(v \<mapsto> dn'))))
          else ForcedCBD_loop hc g vs cbd)"

definition ForcedCBDTransformer ::
  "('v \<Rightarrow> 'h) \<Rightarrow> ('h, 'v) graph \<Rightarrow> ('v \<Rightarrow> DestroyerCBD option) \<Rightarrow> ('v \<times> string + ('v \<Rightarrow> DestroyerCBD option)) option" where
  "ForcedCBDTransformer hc g cbd = ForcedCBD_loop hc g (graph_Vertices g) cbd"

definition invert_edge :: "('v \<Rightarrow> 'h) \<Rightarrow> ('v, 'p) node_ops \<Rightarrow> 'v \<Rightarrow> ('h, 'v) graph \<Rightarrow> 'v basicEdge \<Rightarrow> ('h, 'v) graph" where
  "invert_edge hc nd v g e =
     (if nd_Creator nd (edge_S e) \<noteq> None then graph_Connect hc (graph_RemoveEdge hc g e) (BasicEdge v (edge_S e)) else g)"

definition invert_edges ::
  "('v \<Rightarrow> 'h) \<Rightarrow> ('v, 'p) node_ops \<Rightarrow> ('v \<Rightarrow> DestroyerCBD option) \<Rightarrow> ('h, 'v) graph \<Rightarrow> 'v \<Rightarrow> ('h, 'v) graph" where
  "invert_edges hc nd cbd g v =
     (case cbd v of
        None \<Rightarrow> g
      | Some dn \<Rightarrow>
          if nd_Destroyer nd v = None then g
          else if \<not> CreateBeforeDestroy dn then g
          else foldl (invert_edge hc nd v) g (graph_EdgesTo hc g v))"

definition CBDEdgeTransformer ::
  "('v \<Rightarrow> 'h) \<Rightarrow> ('v, 'p) node_ops \<Rightarrow> ('v \<Rightarrow> DestroyerCBD option) \<Rightarrow> ('h, 'v) graph \<Rightarrow> ('h, 'v) graph" where
  "CBDEdgeTransformer hc nd cbd g = foldl (invert_edges hc nd cbd) g (graph_Vertices g)"

end
