(* ===== verification/Graph_Destroy.thy ===== *)
theory Graph_Destroy
  imports Graph_Transform
begin

text \<open>
  Ordering of destruction and pruning (\<^verbatim>\<open>internal/tofu/transform_destroy_edge.go\<close>): the edges that make destroying an object
  wait for the destruction of what depends on it, and the removal of vertices that nothing needs.
\<close>

section \<open>Destroy edges\<close>

definition lpc_String :: "LocalProviderConfig \<Rightarrow> string" where
  "lpc_String pc =
     (if lpc_LocalName pc = [] then ''provider.<invalid>''
      else if lpc_Alias pc \<noteq> [] then ''provider.'' @ lpc_LocalName pc @ ''.'' @ lpc_Alias pc
      else ''provider.'' @ lpc_LocalName pc)"

text \<open>\<open>pq\<close> renders a provider address in a configuration address and \<open>ps\<close> by itself.\<close>

fun getComparableProvider :: "('p \<Rightarrow> string) \<Rightarrow> ('p \<Rightarrow> string) \<Rightarrow> 'p ProviderConfig \<times> 'p \<Rightarrow> string" where
  "getComparableProvider pq ps (AbsPC p, prov) = apc_String pq p"
| "getComparableProvider pq ps (LocalPC p, prov) = lpc_String p"
| "getComparableProvider pq ps (NoPC, prov) = ps prov"

definition tryInterProviderDestroyEdge ::
  "('v \<Rightarrow> 'h) \<Rightarrow> ('v, 'p) node_ops \<Rightarrow> ('p \<Rightarrow> string) \<Rightarrow> ('p \<Rightarrow> string) \<Rightarrow> walkOperation \<Rightarrow> 'v \<Rightarrow> 'v \<Rightarrow> ('h, 'v) graph \<Rightarrow> ('h, 'v) graph option" where
  "tryInterProviderDestroyEdge hc nd pq ps operation from_v to_v g =
     (let e = BasicEdge from_v to_v; g = graph_Connect hc g e in
      if operation = walkDestroy \<or> operation = walkPlanDestroy then Some g
      else case nd_ProviderConsumer nd from_v of
          None \<Rightarrow> Some g
        | Some pc \<Rightarrow>
            (case nd_ProviderConsumer nd to_v of
               None \<Rightarrow> Some g
             | Some pc' \<Rightarrow>
                 if getComparableProvider pq ps pc \<noteq> getComparableProvider pq ps pc' then
                   (case Cycles hc g of
                      None \<Rightarrow> None
                    | Some cycles \<Rightarrow> if length cycles > 0 then Some (graph_RemoveEdge hc g e) else Some g)
                 else Some g))"

definition inDifferentInstancesOfSameModule :: "('v, 'p) node_ops \<Rightarrow> 'v \<Rightarrow> 'v \<Rightarrow> bool" where
  "inDifferentInstancesOfSameModule nd a b =
     (case (nd_ResourceInstance nd a, nd_ResourceInstance nd b) of
        (Some aRI, Some bRI) \<Rightarrow>
          if \<not> HasSameModule (ari_Module aRI) (ari_Module bRI) then False else \<not> mi_Equal (ari_Module aRI) (ari_Module bRI)
      | _ \<Rightarrow> False)"

record 'v destroy_index =
  di_destroyers :: "(string, 'v list) gomap"
  di_creators :: "(string, 'v list) gomap"
  di_destroyersByResource :: "(string, 'v list) gomap"

definition index_get :: "(string, 'v list) gomap \<Rightarrow> string \<Rightarrow> 'v list" where
  "index_get m k = (case gmap_get m k of None \<Rightarrow> [] | Some vs \<Rightarrow> vs)"

definition index_add :: "string \<Rightarrow> 'v \<Rightarrow> (string, 'v list) gomap \<Rightarrow> (string, 'v list) gomap" where
  "index_add k v m = gmap_put k (index_get m k @ [v]) m"

text \<open>A creator without an address is a nil pointer that is followed.\<close>

definition index_vertex :: "('v, 'p) node_ops \<Rightarrow> ('p, 'mk, 'ps) Changes option \<Rightarrow> 'v \<Rightarrow> 'v destroy_index \<Rightarrow> 'v destroy_index option" where
  "index_vertex nd changes v ix =
     (case nd_Destroyer nd v of
        Some None \<Rightarrow> Some ix
      | Some (Some addr) \<Rightarrow>
          Some (ix\<lparr>di_destroyers := index_add (ari_String addr) v (di_destroyers ix),
                  di_destroyersByResource := index_add (cr_String (ar_Config (ari_ContainingResource addr))) v (di_destroyersByResource ix)\<rparr>)
      | None \<Rightarrow>
          (case nd_Creator nd v of
             None \<Rightarrow> Some ix
           | Some None \<Rightarrow> None
           | Some (Some addr) \<Rightarrow>
               (let added = ix\<lparr>di_creators := index_add (cr_String (ar_Config (ari_ContainingResource addr))) v (di_creators ix)\<rparr> in
                case changes of
                  None \<Rightarrow> Some added
                | Some c \<Rightarrow>
                    (case ResourceInstance_change c addr of
                       None \<Rightarrow> Some ix
                     | Some rc \<Rightarrow>
                         if chs_Action (rcs_ChangeSrc rc) \<noteq> NoOp \<and> chs_Action (rcs_ChangeSrc rc) \<noteq> Open then Some added else Some ix))))"

definition connect_own_destroyers :: "('v \<Rightarrow> 'h) \<Rightarrow> ('v, 'p) node_ops \<Rightarrow> 'v destroy_index \<Rightarrow> ('h, 'v) graph \<Rightarrow> 'v \<Rightarrow> ('h, 'v) graph" where
  "connect_own_destroyers hc nd ix g v =
     (case nd_Creator nd v of
        Some (Some addr) \<Rightarrow> foldl (\<lambda>g a_d. graph_Connect hc g (BasicEdge v a_d)) g (index_get (di_destroyers ix) (ari_String addr))
      | _ \<Rightarrow> g)"

definition connect_creator :: "('v \<Rightarrow> 'h) \<Rightarrow> ('v, 'p) node_ops \<Rightarrow> 'v destroy_index \<Rightarrow> ('h, 'v) graph \<Rightarrow> 'v \<Rightarrow> ('h, 'v) graph" where
  "connect_creator hc nd ix g c =
     (if nd_ResourceInstance nd c = None then g
      else foldl (\<lambda>g resAddr.
          foldl (\<lambda>g desDep. if \<not> inDifferentInstancesOfSameModule nd c desDep then graph_Connect hc g (BasicEdge c desDep) else g)
            g (index_get (di_destroyersByResource ix) (cr_String resAddr))) g (nd_StateDependencies nd c))"

definition connect_dependency ::
  "('v \<Rightarrow> 'h) \<Rightarrow> ('v, 'p) node_ops \<Rightarrow> ('p \<Rightarrow> string) \<Rightarrow> ('p \<Rightarrow> string) \<Rightarrow> walkOperation \<Rightarrow> 'v \<Rightarrow> 'v \<Rightarrow> ('h, 'v) graph \<Rightarrow> ('h, 'v) graph option" where
  "connect_dependency hc nd pq ps operation des dep g =
     (if \<not> inDifferentInstancesOfSameModule nd dep des then tryInterProviderDestroyEdge hc nd pq ps operation dep des g else Some g)"

definition connect_destroyer ::
  "('v \<Rightarrow> 'h) \<Rightarrow> ('v, 'p) node_ops \<Rightarrow> ('p \<Rightarrow> string) \<Rightarrow> ('p \<Rightarrow> string) \<Rightarrow> walkOperation \<Rightarrow> 'v destroy_index \<Rightarrow> 'v \<Rightarrow> ('h, 'v) graph \<Rightarrow>
   ('h, 'v) graph option" where
  "connect_destroyer hc nd pq ps operation ix des g =
     (if nd_ResourceInstance nd des = None then Some g
      else fold_opt (\<lambda>resAddr g.
          case fold_opt (connect_dependency hc nd pq ps operation des) (index_get (di_destroyersByResource ix) (cr_String resAddr)) g of
            None \<Rightarrow> None
          | Some g \<Rightarrow> fold_opt (connect_dependency hc nd pq ps operation des) (index_get (di_creators ix) (cr_String resAddr)) g)
        (nd_StateDependencies nd des) g)"

text \<open>\<open>visit\<close> is the order in which Go ranges over the two maps.\<close>

definition DestroyEdgeTransformer ::
  "('v \<Rightarrow> 'h) \<Rightarrow> ('v, 'p) node_ops \<Rightarrow> ('p \<Rightarrow> string) \<Rightarrow> ('p \<Rightarrow> string) \<Rightarrow> ((string, 'v list) gomap \<Rightarrow> (string, 'v list) gomap) \<Rightarrow>
   ('p, 'mk, 'ps) Changes option \<Rightarrow> walkOperation \<Rightarrow> ('h, 'v) graph \<Rightarrow> ('h, 'v) graph option" where
  "DestroyEdgeTransformer hc nd pq ps visit changes operation g =
     (case fold_opt (index_vertex nd changes) (graph_Vertices g) \<lparr>di_destroyers = [], di_creators = [], di_destroyersByResource = []\<rparr> of
        None \<Rightarrow> None
      | Some ix \<Rightarrow>
          if length (di_destroyers ix) = 0 then Some g
          else
            (let g = foldl (connect_own_destroyers hc nd ix) g (graph_Vertices g);
                 g = foldl (connect_creator hc nd ix) g (concat (map snd (visit (di_creators ix))))
             in fold_opt (connect_destroyer hc nd pq ps operation ix) (concat (map snd (visit (di_destroyers ix)))) g))"

section \<open>Pruning\<close>

definition needed_temporary :: "('v \<Rightarrow> 'h) \<Rightarrow> ('v, 'p) node_ops \<Rightarrow> ('h, 'v) graph \<Rightarrow> 'v \<Rightarrow> bool" where
  "needed_temporary hc nd g n = list_ex (nd_Referencer nd) (set_List (graph_UpEdges hc g n))"

definition expands_for :: "('v, 'p) node_ops \<Rightarrow> walkOperation \<Rightarrow> 'v \<Rightarrow> bool" where
  "expands_for nd op v =
     (if nd_Retained nd v \<or> nd_DynamicExpandable nd v then
        (case nd_TemporaryValue nd v of Some temporaryValue \<Rightarrow> temporaryValue op | None \<Rightarrow> True)
      else nd_ResourceInstance nd v \<noteq> None \<or> nd_Provider nd v)"

definition prune_keeps :: "('v \<Rightarrow> 'h) \<Rightarrow> ('v, 'p) node_ops \<Rightarrow> walkOperation \<Rightarrow> ('h, 'v) graph \<Rightarrow> 'v \<Rightarrow> bool option" where
  "prune_keeps hc nd op g n =
     (case nd_TemporaryValue nd n of
        Some temporaryValue \<Rightarrow> Some (if \<not> temporaryValue op then True else needed_temporary hc nd g n)
      | None \<Rightarrow>
          if nd_Retained nd n then Some (list_ex (expands_for nd op) (set_List (graph_UpEdges hc g n)))
          else if nd_Provider nd n then
            (case walked (Descendents hc g n) of
               None \<Rightarrow> None
             | Some des \<Rightarrow> Some (list_ex (\<lambda>v. nd_ProviderConsumer nd v \<noteq> None \<or> nd_Referencer nd v) (set_List des)))
          else Some True)"

function prune_pass ::
  "('v \<Rightarrow> 'h) \<Rightarrow> ('v, 'p) node_ops \<Rightarrow> walkOperation \<Rightarrow> ('h, 'v) graph \<Rightarrow> 'v list \<Rightarrow> nat \<Rightarrow> bool \<Rightarrow> (('h, 'v) graph \<times> 'v list \<times> bool) option" where
  "prune_pass hc nd op g nodes i removed =
     (if i < length nodes then
        (case prune_keeps hc nd op g (nodes ! i) of
           None \<Rightarrow> None
         | Some True \<Rightarrow> prune_pass hc nd op g nodes (Suc i) removed
         | Some False \<Rightarrow> prune_pass hc nd op (graph_Remove hc g (nodes ! i)) (butlast (nodes[i := last nodes])) i True)
      else Some (g, nodes, removed))"
  by pat_completeness auto
termination
  by (relation "measure (\<lambda>(hc, nd, op, g, nodes, i, removed). length nodes - i)") auto

declare prune_pass.simps [simp del]

lemma prune_pass_shrinks:
  "prune_pass hc nd op g nodes i removed = Some (g', nodes', removed') \<Longrightarrow>
   length nodes' \<le> length nodes \<and> (removed' \<longrightarrow> removed \<or> length nodes' < length nodes)"
proof (induction hc nd op g nodes i removed rule: prune_pass.induct)
  case (1 hc nd op g nodes i removed)
  show ?case
  proof (cases "i < length nodes")
    case True
    then show ?thesis using 1
      by (subst (asm) (3) prune_pass.simps) (force split: option.splits bool.splits)
  next
    case False
    then show ?thesis using 1(3) by (subst (asm) prune_pass.simps) auto
  qed
qed

function prune_loop :: "('v \<Rightarrow> 'h) \<Rightarrow> ('v, 'p) node_ops \<Rightarrow> walkOperation \<Rightarrow> ('h, 'v) graph \<Rightarrow> 'v list \<Rightarrow> ('h, 'v) graph option" where
  "prune_loop hc nd op g nodes =
     (case prune_pass hc nd op g nodes 0 False of
        None \<Rightarrow> None
      | Some (g', nodes', removed) \<Rightarrow> if removed then prune_loop hc nd op g' nodes' else Some g')"
  by pat_completeness auto
termination
  by (relation "measure (\<lambda>(hc, nd, op, g, nodes). length nodes)") (auto dest: prune_pass_shrinks)

declare prune_loop.simps [simp del]

definition pruneUnusedNodesTransformer :: "('v \<Rightarrow> 'h) \<Rightarrow> ('v, 'p) node_ops \<Rightarrow> walkOperation \<Rightarrow> ('h, 'v) graph \<Rightarrow> ('h, 'v) graph option" where
  "pruneUnusedNodesTransformer hc nd op g =
     (if op \<noteq> walkPlanDestroy \<and> op \<noteq> walkDestroy \<and> op \<noteq> walkApply then Some g else prune_loop hc nd op g (graph_Vertices g))"

end
