(* ===== verification/Graph_Build_Props.thy ===== *)
theory Graph_Build_Props
  imports Graph_Transform Dag_Props
begin

text \<open>
  The steps that finish a graph: giving it one root, the transitive reduction and the validation; and the two
  transformers for create-before-destroy.
\<close>

section \<open>Transformers keep graphs well formed\<close>

text \<open>
  What a builder relies on in each of its steps that only reads and changes the graph: it ends, and a graph whose indices
  agree with its edges and whose edges join vertices of the graph stays such a graph.
\<close>

locale graph_transformer =
  fixes hc :: "'v \<Rightarrow> 'h"
    and transform :: "('h, 'v) graph \<Rightarrow> ('h, 'v) graph option"
  assumes keeps: "inj hc \<Longrightarrow> graph_wf hc g \<Longrightarrow> graph_closed g \<Longrightarrow> \<exists>g'. transform g = Some g' \<and> graph_wf hc g' \<and> graph_closed g'"
begin

lemma keeps_elim:
  assumes "inj hc" "graph_wf hc g" "graph_closed g"
  obtains g' where "transform g = Some g'" "graph_wf hc g'" "graph_closed g'"
  using keeps[OF assms] by blast

end

definition as_step :: "(('h, 'v) graph \<Rightarrow> ('h, 'v) graph option) \<Rightarrow> ('h, 'v) graph \<Rightarrow> (('h, 'v) graph \<times> 'd transform_error option) option" where
  "as_step tr g = map_option (\<lambda>g. (g, None)) (tr g)"

lemma build_steps_keep:
  assumes "inj hc" "list_all (graph_transformer hc) trs" "graph_wf hc g" "graph_closed g"
  shows "\<exists>g'. build_steps (map (\<lambda>tr. Some (as_step tr)) trs) g diags = Some (Inr (g', diags)) \<and> graph_wf hc g' \<and> graph_closed g'"
  using assms(2-4)
proof (induction trs arbitrary: g)
  case (Cons tr trs)
  obtain g1 where "tr g = Some g1" "graph_wf hc g1" "graph_closed g1"
    using graph_transformer.keeps_elim[OF _ assms(1) Cons.prems(2,3)] Cons.prems(1) by auto
  then show ?case using Cons by (simp add: as_step_def)
qed simp

section \<open>One root\<close>

lemma graph_UpEdges_Len: "graph_wf hc g \<Longrightarrow> set_Len (graph_UpEdges hc g v) = 0 \<longleftrightarrow> v \<notin> Range (edge_rel g)"
  using NoCopy_wf(2)[of hc g v]
  by (auto simp: graph_UpEdges_def set_Copy_eq dset_wf_def set_Len_0 graph_wf_adj)

lemma connect_tops_fold:
  assumes "inj hc" "graph_wf hc g" "distinct vs"
  shows "graph_wf hc (foldl (connect_tops hc r) g vs) \<and> vertex_set (foldl (connect_tops hc r) g vs) = vertex_set g \<and>
    edge_rel (foldl (connect_tops hc r) g vs) = edge_rel g \<union> {(r, v) | v. v \<in> set vs \<and> v \<noteq> r \<and> v \<notin> Range (edge_rel g)}"
  using assms(2,3)
proof (induction vs arbitrary: g)
  case (Cons v vs)
  show ?case
  proof (cases "v = r \<or> v \<in> Range (edge_rel g)")
    case True
    then have "connect_tops hc r g v = g" using graph_UpEdges_Len[OF Cons.prems(1), of v] by (auto simp: connect_tops_def)
    then show ?thesis using Cons.IH[OF Cons.prems(1)] Cons.prems(2) True by auto
  next
    case False
    then have "connect_tops hc r g v = graph_Connect hc g (BasicEdge r v)"
      using graph_UpEdges_Len[OF Cons.prems(1), of v] by (simp add: connect_tops_def)
    moreover note graph_Connect_spec[OF assms(1) Cons.prems(1), of "BasicEdge r v"]
    ultimately show ?thesis using Cons.IH[of "graph_Connect hc g (BasicEdge r v)"] Cons.prems(2) False by auto
  qed
qed simp

text \<open>A graph with a new top above everything that had none.\<close>

definition rooted :: "('h, 'v) graph \<Rightarrow> 'v \<Rightarrow> ('h, 'v) graph \<Rightarrow> bool" where
  "rooted g r g' \<longleftrightarrow> vertex_set g' = insert r (vertex_set g) \<and>
     edge_rel g' = edge_rel g \<union> {(r, v) | v. v \<in> vertex_set g \<and> v \<noteq> r \<and> v \<notin> Range (edge_rel g)}"

lemma CloseRootModule_is_addRoot: "CloseRootModuleTransformer = addRootNodeToGraph"
  by (intro ext) (simp add: CloseRootModuleTransformer_def addRootNodeToGraph_def)

lemma addRoot_rooted:
  assumes "inj hc" "graph_wf hc g"
  shows "graph_wf hc (addRootNodeToGraph hc r g)" and "rooted g r (addRootNodeToGraph hc r g)"
  using connect_tops_fold[OF assms(1) graph_Add_spec(1)[OF assms, of r] distinct_graph_Vertices[OF graph_Add_spec(1)[OF assms, of r]], of r]
  by (auto simp: addRootNodeToGraph_def Let_def rooted_def graph_Add_spec[OF assms])

lemma rooted_closed: "rooted g r g' \<Longrightarrow> graph_closed g \<Longrightarrow> graph_closed g'"
  by (auto simp: rooted_def graph_closed_def)

lemma rooted_is_root:
  assumes "rooted g r g'" "r \<notin> Range (edge_rel g)"
  shows "is_root g' v \<longleftrightarrow> v = r"
  using assms by (auto simp: is_root_def rooted_def Range_Un_eq Range_iff)

lemma rooted_acyclic:
  assumes "rooted g r g'" "r \<notin> Range (edge_rel g)"
  shows "acyclic (edge_rel g') \<longleftrightarrow> acyclic (edge_rel g)"
proof
  assume "acyclic (edge_rel g')"
  then show "acyclic (edge_rel g)" by (rule acyclic_subset) (use assms(1) in \<open>auto simp: rooted_def\<close>)
next
  assume ac: "acyclic (edge_rel g)"
  have r: "(x, r) \<notin> (edge_rel g')\<^sup>+" for x using assms by (auto simp: rooted_def dest: tranclD2)
  have "(x, y) \<in> (edge_rel g)\<^sup>+" if "(x, y) \<in> (edge_rel g')\<^sup>+" "x \<noteq> r" for x y
    using that
  proof (induction rule: trancl_induct)
    case (step y z)
    moreover have "y \<noteq> r" using step r by blast
    ultimately show ?case using assms(1) by (auto simp: rooted_def intro: trancl_into_trancl)
  qed (use assms(1) in \<open>auto simp: rooted_def\<close>)
  with ac r show "acyclic (edge_rel g')" unfolding acyclic_def by metis
qed

lemma rooted_reaches:
  assumes "rooted g r g'" "r \<notin> Range (edge_rel g)" "acyclic (edge_rel g)" "graph_closed g" "v \<in> vertex_set g'"
  shows "(r, v) \<in> (edge_rel g')\<^sup>*"
proof -
  have "acyclic (edge_rel g')" using rooted_acyclic[OF assms(1,2)] assms(3) by simp
  then have "wf (edge_rel g')" by (rule finite_acyclic_wf[OF finite_edge_rel])
  then show ?thesis using assms(5)
  proof (induction v)
    case (less v)
    show ?case
    proof (cases "v = r")
      case False
      then obtain u where u: "(u, v) \<in> edge_rel g'" using rooted_is_root[OF assms(1,2), of v] less.prems by (auto simp: is_root_def)
      then have "u \<in> vertex_set g'" using rooted_closed[OF assms(1,4)] by (auto simp: graph_closed_def)
      with less.IH[OF u] u show ?thesis by (meson rtrancl.rtrancl_into_rtrancl)
    qed simp
  qed
qed

lemma rooted_valid:
  assumes "inj hc" "graph_wf hc g" "graph_closed g" "r \<notin> Range (edge_rel g)"
  shows "Validate hc (addRootNodeToGraph hc r g) \<noteq> None \<and>
    (Validate hc (addRootNodeToGraph hc r g) = Some [] \<longleftrightarrow> acyclic (edge_rel g))"
proof -
  note r = addRoot_rooted[OF assms(1,2), of r]
  have "graph_Root hc (addRootNodeToGraph hc r g) = Inr r"
    unfolding graph_Root_cases(3)[OF r(1)] using rooted_is_root[OF r(2) assms(4)] by blast
  then show ?thesis using Validate_empty[OF r(1) rooted_closed[OF r(2) assms(3)]] rooted_acyclic[OF r(2) assms(4)] by simp
qed

section \<open>The last steps of a builder\<close>

lemma reduction_valid:
  assumes "inj hc" "graph_wf hc g" "graph_closed g" "acyclic (edge_rel g)" "Validate hc g = Some []"
  shows "\<exists>g'. TransitiveReduction hc g = Some (Inr g') \<and> graph_wf hc g' \<and> graph_closed g' \<and> vertex_set g' = vertex_set g \<and>
    (edge_rel g')\<^sup>+ = (edge_rel g)\<^sup>+ \<and> Validate hc g' = Some []"
proof -
  from reduce_all_spec[OF assms(1,2,4), of "graph_Vertices g"] obtain g' where
    g': "TransitiveReduction hc g = Some (Inr g')" "graph_wf hc g'" "vertex_set g' = vertex_set g"
      "edge_rel g' \<subseteq> edge_rel g" "(edge_rel g')\<^sup>+ = (edge_rel g)\<^sup>+" unfolding TransitiveReduction_def by auto
  have closed: "graph_closed g'" using assms(3) g'(3,4) by (auto simp: graph_closed_def)
  have "Range (edge_rel g') = Range (edge_rel g)" using g'(5) by (metis trancl_range)
  then have "is_root g' = is_root g" using g'(3) by (auto simp: is_root_def fun_eq_iff)
  moreover obtain r where "graph_Root hc g = Inr r" using Validate_empty[OF assms(2,3)] assms(5) by auto
  ultimately have "graph_Root hc g' = Inr r" using graph_Root_cases(3)[OF assms(2)] graph_Root_cases(3)[OF g'(2)] by simp
  moreover have "acyclic (edge_rel g')" using assms(4) g'(4) by (rule acyclic_subset)
  ultimately have "Validate hc g' = Some []" using Validate_empty[OF g'(2) closed] by simp
  then show ?thesis using g' closed by blast
qed

text \<open>
  C18: The last steps of the graph builders make the new closer of the root module the only root and reduce the graph.  When
  the graph before them has no cycle, the result passes the validation, the closer is its only root, every vertex can be
  reached from it, and between the old vertices reachability is as before; when it has a cycle the builder reports it and
  returns no graph.
\<close>

theorem Build_last_steps:
  assumes "inj hc" "graph_wf hc g" "graph_closed g" "r \<notin> vertex_set g"
  shows "if acyclic (edge_rel g)
    then \<exists>g'. BasicGraphBuilder_Build hc (\<lambda>g. g)
           [Some (as_step (\<lambda>g. Some (CloseRootModuleTransformer hc r g))), None, Some (as_step (TransitiveReductionTransformer hc))] g =
           Some (Built g' []) \<and>
         vertex_set g' = insert r (vertex_set g) \<and> graph_Root hc g' = Inr r \<and> acyclic (edge_rel g') \<and>
         (\<forall>v \<in> vertex_set g. (r, v) \<in> (edge_rel g')\<^sup>+) \<and>
         (\<forall>u \<in> vertex_set g. \<forall>v. (u, v) \<in> (edge_rel g')\<^sup>+ \<longleftrightarrow> (u, v) \<in> (edge_rel g)\<^sup>+)
    else \<exists>errs. errs \<noteq> [] \<and> BasicGraphBuilder_Build hc (\<lambda>g. g)
           [Some (as_step (\<lambda>g. Some (CloseRootModuleTransformer hc r g))), None, Some (as_step (TransitiveReductionTransformer hc))] g =
           Some (BuildInvalid errs [])"
proof -
  let ?g1 = "addRootNodeToGraph hc r g"
  have nr: "r \<notin> Range (edge_rel g)" using assms(3,4) by (auto simp: graph_closed_def)
  note g1 = addRoot_rooted[OF assms(1,2), of r]
  note closed = rooted_closed[OF g1(2) assms(3)] and v = rooted_valid[OF assms(1-3) nr]
  show ?thesis
  proof (cases "acyclic (edge_rel g)")
    case True
    then have ac: "acyclic (edge_rel ?g1)" using rooted_acyclic[OF g1(2) nr] by simp
    from reduction_valid[OF assms(1) g1(1) closed ac] v True obtain g' where
      g': "TransitiveReduction hc ?g1 = Some (Inr g')" "graph_wf hc g'" "graph_closed g'" "vertex_set g' = vertex_set ?g1"
        "(edge_rel g')\<^sup>+ = (edge_rel ?g1)\<^sup>+" "Validate hc g' = Some []" by blast
    have "acyclic (edge_rel g')" using ac g'(5) by (simp add: acyclic_def)
    moreover have "is_root g' u \<longleftrightarrow> u = r" for u
      using rooted_is_root[OF g1(2) nr, of u] g'(4,5) by (metis is_root_def trancl_range)
    then have "graph_Root hc g' = Inr r" using graph_Root_cases(3)[OF g'(2)] by blast
    moreover have "(r, u) \<in> (edge_rel g')\<^sup>+" if "u \<in> vertex_set g" for u
    proof -
      have "u \<in> vertex_set ?g1" "u \<noteq> r" using that assms(4) g1(2) by (auto simp: rooted_def)
      then show ?thesis using rooted_reaches[OF g1(2) nr True assms(3), of u] g'(5) by (simp add: rtrancl_eq_or_trancl)
    qed
    moreover have "(u, w) \<in> (edge_rel g')\<^sup>+ \<longleftrightarrow> (u, w) \<in> (edge_rel g)\<^sup>+" if u: "u \<in> vertex_set g" for u w
    proof -
      have "(u, w) \<in> (edge_rel g)\<^sup>+" if "(u, w) \<in> (edge_rel ?g1)\<^sup>+" using that
      proof (induction rule: trancl_induct)
        case (base y)
        then show ?case using u assms(4) g1(2) by (auto simp: rooted_def)
      next
        case (step y z)
        then have "y \<in> vertex_set g" using assms(3) by (auto simp: graph_closed_def dest: tranclD2)
        then show ?case using step assms(4) g1(2) by (auto simp: rooted_def intro: trancl_into_trancl)
      qed
      moreover have "(edge_rel g)\<^sup>+ \<subseteq> (edge_rel ?g1)\<^sup>+" using g1(2) by (auto simp: rooted_def intro: trancl_mono)
      ultimately show ?thesis unfolding g'(5) by blast
    qed
    ultimately show ?thesis using True v g' g1(2)
      by (auto simp: BasicGraphBuilder_Build_def as_step_def CloseRootModule_is_addRoot TransitiveReductionTransformer_def rooted_def)
  next
    case False
    then show ?thesis using v
      by (auto simp: BasicGraphBuilder_Build_def as_step_def CloseRootModule_is_addRoot TransitiveReductionTransformer_def)
  qed
qed

theorem Build_last_steps_witness:
  "\<exists>g'. BasicGraphBuilder_Build id (\<lambda>g. g)
     [Some (as_step (\<lambda>g. Some (CloseRootModuleTransformer id 0 g))), None, Some (as_step (TransitiveReductionTransformer id))] diamond =
     Some (Built g' ([] :: unit list)) \<and> graph_Root id g' = Inr 0"
  using Build_last_steps[OF inj_on_id diamond_spec(1) diamond_closed, of 0] diamond_acyclic by (auto simp: diamond_spec(2))

section \<open>Interpretations of the step contract\<close>

interpretation root_tr: graph_transformer hc "\<lambda>g. Some (addRootNodeToGraph hc r g)" for hc :: "'v \<Rightarrow> 'h" and r
  by unfold_locales (auto simp: addRoot_rooted dest: rooted_closed[OF addRoot_rooted(2)])

interpretation close_tr: graph_transformer hc "\<lambda>g. Some (CloseRootModuleTransformer hc r g)" for hc :: "'v \<Rightarrow> 'h" and r
  unfolding CloseRootModule_is_addRoot by (rule root_tr.graph_transformer_axioms)

interpretation reduce_tr: graph_transformer hc "TransitiveReductionTransformer hc" for hc :: "'v \<Rightarrow> 'h"
proof
  fix g :: "('h, 'v) graph"
  assume a: "inj hc" "graph_wf hc g" "graph_closed g"
  show "\<exists>g'. TransitiveReductionTransformer hc g = Some g' \<and> graph_wf hc g' \<and> graph_closed g'"
  proof (cases "Validate hc g = Some []")
    case True
    then have "acyclic (edge_rel g)" using Validate_empty[OF a(2,3)] by simp
    then show ?thesis using reduction_valid[OF a _ True] True by (auto simp: TransitiveReductionTransformer_def)
  next
    case False
    then show ?thesis using Validate_empty[OF a(2,3)] a by (auto simp: TransitiveReductionTransformer_def)
  qed
qed

section \<open>Create before destroy\<close>

definition cbd_flag :: "('v \<Rightarrow> DestroyerCBD option) \<Rightarrow> 'v \<Rightarrow> bool" where
  "cbd_flag cbd v \<longleftrightarrow> (case cbd v of None \<Rightarrow> False | Some dn \<Rightarrow> CreateBeforeDestroy dn)"

text \<open>The nodes whose setting can be forced: resources being planned and instances being applied.\<close>

definition forceable :: "('v \<Rightarrow> DestroyerCBD option) \<Rightarrow> 'v \<Rightarrow> bool" where
  "forceable cbd v \<longleftrightarrow> (\<exists>f c. cbd v = Some (ExpandPlannableResource f c)) \<or> (\<exists>f c. cbd v = Some (ApplyableResourceInstance f c))"

definition forced_spec :: "('v \<times> 'v) set \<Rightarrow> ('v \<Rightarrow> DestroyerCBD option) \<Rightarrow> 'v \<Rightarrow> bool" where
  "forced_spec E cbd v \<longleftrightarrow> forceable cbd v \<and> (\<exists>d. (d, v) \<in> E\<^sup>+ \<and> cbd_flag cbd d)"

lemma hasCBDDescendent_iff:
  assumes "inj hc" "graph_wf hc g"
  shows "hasCBDDescendent hc cbd g v = Some (\<exists>d. (d, v) \<in> (edge_rel g)\<^sup>+ \<and> cbd_flag cbd d)"
  using Descendents_reach[OF assms, of v] by (auto simp: hasCBDDescendent_def list_ex_iff cbd_flag_def)

lemma Modify_forced:
  assumes "cbd v = Some dn" "\<not> CreateBeforeDestroy dn"
  obtains dn' where "ModifyCreateBeforeDestroy dn True = Inr dn'" "CreateBeforeDestroy dn' \<longleftrightarrow> forceable cbd v"
  using assms by (cases dn) (auto simp: forceable_def configured_def split: option.splits)

lemma ForcedCBD_loop_spec:
  assumes "inj hc" "graph_wf hc g" "distinct vs" "\<forall>v \<in> set vs. cbd v = cbd0 v"
    and "\<forall>v. (cbd v = None) = (cbd0 v = None)" "\<forall>v. v \<notin> set vs \<longrightarrow> cbd_flag cbd v = (cbd_flag cbd0 v \<or> v \<in> V \<and> forced_spec (edge_rel g) cbd0 v)"
    and "V \<inter> set vs = {}"
  shows "\<exists>cbd'. ForcedCBD_loop hc g vs cbd = Some (Inr cbd') \<and> (\<forall>v. (cbd' v = None) = (cbd0 v = None)) \<and>
    (\<forall>v. cbd_flag cbd' v = (cbd_flag cbd0 v \<or> v \<in> V \<union> set vs \<and> forced_spec (edge_rel g) cbd0 v))"
  using assms(3-7)
proof (induction vs arbitrary: cbd V)
  case (Cons v vs)
  let ?E = "edge_rel g"
  have flag: "cbd_flag cbd u = (cbd_flag cbd0 u \<or> u \<in> V \<and> forced_spec ?E cbd0 u)" for u
    using Cons.prems(2,4,5) by (cases "u \<in> set (v # vs)") (auto simp: cbd_flag_def)
  have desc: "(\<exists>d. (d, v) \<in> ?E\<^sup>+ \<and> cbd_flag cbd d) = (\<exists>d. (d, v) \<in> ?E\<^sup>+ \<and> cbd_flag cbd0 d)"
    unfolding flag by (auto simp: forced_spec_def intro: trancl_trans)
  define P where "P \<longleftrightarrow> (\<exists>d. (d, v) \<in> ?E\<^sup>+ \<and> cbd_flag cbd0 d)"
  have has: "hasCBDDescendent hc cbd g v = Some P" using hasCBDDescendent_iff[OF assms(1,2), of cbd v] desc by (simp add: P_def)
  have same: "cbd v = cbd0 v" "v \<notin> V" using Cons.prems(2,5) by simp_all
  have go: "\<exists>cbd'. ForcedCBD_loop hc g vs c = Some (Inr cbd') \<and> (\<forall>v. (cbd' v = None) = (cbd0 v = None)) \<and>
      (\<forall>u. cbd_flag cbd' u = (cbd_flag cbd0 u \<or> u \<in> V \<union> set (v # vs) \<and> forced_spec ?E cbd0 u))"
    if "\<forall>u. u \<noteq> v \<longrightarrow> c u = cbd u" "(c v = None) = (cbd0 v = None)" "cbd_flag c v = (cbd_flag cbd0 v \<or> forced_spec ?E cbd0 v)" for c
  proof -
    have "\<exists>cbd'. ForcedCBD_loop hc g vs c = Some (Inr cbd') \<and> (\<forall>v. (cbd' v = None) = (cbd0 v = None)) \<and>
        (\<forall>u. cbd_flag cbd' u = (cbd_flag cbd0 u \<or> u \<in> insert v V \<union> set vs \<and> forced_spec ?E cbd0 u))"
    proof (rule Cons.IH)
      show "distinct vs" "insert v V \<inter> set vs = {}" using Cons.prems(1,5) by auto
      show "\<forall>u \<in> set vs. c u = cbd0 u" using Cons.prems(1,2) that(1) by auto
      show "\<forall>u. (c u = None) = (cbd0 u = None)" using Cons.prems(3) that(1,2) by metis
      show "\<forall>u. u \<notin> set vs \<longrightarrow> cbd_flag c u = (cbd_flag cbd0 u \<or> u \<in> insert v V \<and> forced_spec ?E cbd0 u)"
        using that(1,3) flag by (metis cbd_flag_def insert_iff)
    qed
    then show ?thesis by auto
  qed
  show ?case
  proof (cases "cbd v")
    case None
    then show ?thesis using go[of cbd] same by (simp add: cbd_flag_def forced_spec_def forceable_def)
  next
    case (Some dn)
    show ?thesis
    proof (cases "CreateBeforeDestroy dn \<or> \<not> P")
      case True
      have "cbd0 v = Some dn" using same(1) Some by simp
      with True have "cbd_flag cbd v = (cbd_flag cbd0 v \<or> forced_spec ?E cbd0 v)" using same(1)
        by (auto simp: cbd_flag_def[of _ v] forced_spec_def P_def)
      moreover have "ForcedCBD_loop hc g (v # vs) cbd = ForcedCBD_loop hc g vs cbd"
        using True Some has by (cases P) auto
      ultimately show ?thesis using go[of cbd] same by simp
    next
      case False
      then obtain dn' where dn': "ModifyCreateBeforeDestroy dn True = Inr dn'" "CreateBeforeDestroy dn' \<longleftrightarrow> forceable cbd v"
        using Modify_forced[of cbd v dn] Some by blast
      have "ForcedCBD_loop hc g (v # vs) cbd = ForcedCBD_loop hc g vs (cbd(v \<mapsto> dn'))"
        using False Some dn'(1) has by simp
      moreover have "cbd_flag (cbd(v \<mapsto> dn')) v = (cbd_flag cbd0 v \<or> forced_spec ?E cbd0 v)"
      proof -
        have "\<not> cbd_flag cbd0 v" "forceable cbd v = forceable cbd0 v" "forced_spec ?E cbd0 v = (forceable cbd0 v \<and> P)"
          using same(1) Some False by (auto simp: cbd_flag_def forceable_def forced_spec_def P_def split: option.splits)
        then show ?thesis using dn'(2) False by (simp add: cbd_flag_def)
      qed
      ultimately show ?thesis using go[of "cbd(v \<mapsto> dn')"] same(1)[symmetric] Some by (simp del: ForcedCBD_loop.simps)
    qed
  qed
qed auto

text \<open>
  C14: Forcing create-before-destroy never fails, and does not depend on the order in which vertices are visited: a vertex has
  the setting afterwards exactly when it had it before or its setting can be forced and something that depends on it had it.
  So whatever a vertex with the setting depends on has it too, as far as it can be forced.
\<close>

theorem ForcedCBDTransformer_spec:
  assumes "inj hc" "graph_wf hc g" "graph_closed g"
  shows "\<exists>cbd'. ForcedCBDTransformer hc g cbd = Some (Inr cbd') \<and>
    (\<forall>v \<in> vertex_set g. cbd_flag cbd' v \<longleftrightarrow> cbd_flag cbd v \<or> forceable cbd v \<and> (\<exists>d. (d, v) \<in> (edge_rel g)\<^sup>+ \<and> cbd_flag cbd d)) \<and>
    (\<forall>u v. (u, v) \<in> (edge_rel g)\<^sup>+ \<longrightarrow> cbd_flag cbd' u \<longrightarrow> forceable cbd v \<longrightarrow> cbd_flag cbd' v)"
proof -
  obtain cbd' where 1: "ForcedCBDTransformer hc g cbd = Some (Inr cbd')"
    "\<forall>v. cbd_flag cbd' v = (cbd_flag cbd v \<or> v \<in> vertex_set g \<and> forced_spec (edge_rel g) cbd v)"
    using ForcedCBD_loop_spec[OF assms(1,2) distinct_graph_Vertices[OF assms(2)], of cbd cbd "{}"] by (auto simp: ForcedCBDTransformer_def)
  have "v \<in> vertex_set g" if "(u, v) \<in> (edge_rel g)\<^sup>+" for u v using that assms(3) by (auto simp: graph_closed_def dest: tranclD2)
  then have "cbd_flag cbd' v" if "(u, v) \<in> (edge_rel g)\<^sup>+" "cbd_flag cbd' u" "forceable cbd v" for u v
    using that 1(2) by (auto simp: forced_spec_def intro: trancl_trans)
  with 1 show ?thesis unfolding forced_spec_def by blast
qed

definition ex_cbd :: "nat \<Rightarrow> DestroyerCBD option" where
  "ex_cbd v = (if v = 2 then Some (ExpandPlannableResource None (Some True)) else Some (ExpandPlannableResource None None))"

theorem ForcedCBDTransformer_spec_witness:
  "\<exists>cbd'. ForcedCBDTransformer id diamond ex_cbd = Some (Inr cbd') \<and> cbd_flag cbd' 4 \<and> \<not> cbd_flag cbd' 3"
proof -
  obtain cbd' where 1: "ForcedCBDTransformer id diamond ex_cbd = Some (Inr cbd')"
    "\<forall>v \<in> vertex_set diamond. cbd_flag cbd' v \<longleftrightarrow> cbd_flag ex_cbd v \<or> forceable ex_cbd v \<and> (\<exists>d. (d, v) \<in> (edge_rel diamond)\<^sup>+ \<and> cbd_flag ex_cbd d)"
    using ForcedCBDTransformer_spec[OF inj_on_id diamond_spec(1) diamond_closed, of ex_cbd] by blast
  have "cbd_flag ex_cbd d \<longleftrightarrow> d = 2" "forceable ex_cbd d" for d by (simp_all add: cbd_flag_def ex_cbd_def configured_def forceable_def)
  then show ?thesis using 1 by (auto simp: diamond_reach diamond_spec(2))
qed

section \<open>Inverting edges\<close>

definition cbd_destroyer :: "('v, 'p) node_ops \<Rightarrow> ('v \<Rightarrow> DestroyerCBD option) \<Rightarrow> 'v \<Rightarrow> bool" where
  "cbd_destroyer nd cbd v \<longleftrightarrow> nd_Destroyer nd v \<noteq> None \<and> cbd_flag cbd v"

definition creates :: "('v, 'p) node_ops \<Rightarrow> 'v \<Rightarrow> bool" where
  "creates nd v \<longleftrightarrow> nd_Creator nd v \<noteq> None"

text \<open>The edges from creators to the vertices of a set turned round, and the others kept.\<close>

definition inverted :: "('v, 'p) node_ops \<Rightarrow> 'v set \<Rightarrow> ('v \<times> 'v) set \<Rightarrow> ('v \<times> 'v) set" where
  "inverted nd B E = {(a, b) \<in> E. \<not> (creates nd a \<and> b \<in> B)} \<union> {(b, a) | a b. (a, b) \<in> E \<and> creates nd a \<and> b \<in> B}"

lemma invert_edge_fold:
  assumes "inj hc" "graph_wf hc g" "\<not> creates nd v" "\<forall>e \<in> set es. edge_T e = v"
  shows "graph_wf hc (foldl (invert_edge hc nd v) g es) \<and> vertex_set (foldl (invert_edge hc nd v) g es) = vertex_set g \<and>
    edge_rel (foldl (invert_edge hc nd v) g es) =
      (edge_rel g - {(a, v) | a. a \<in> edge_S ` set es \<and> creates nd a}) \<union> {(v, a) | a. a \<in> edge_S ` set es \<and> creates nd a}"
  using assms(2,4)
proof (induction es arbitrary: g)
  case (Cons e es)
  let ?g = "invert_edge hc nd v g e"
  have "graph_wf hc ?g" "vertex_set ?g = vertex_set g"
    "edge_rel ?g = (if creates nd (edge_S e) then insert (v, edge_S e) (edge_rel g - {(edge_S e, v)}) else edge_rel g)"
    using Cons.prems graph_RemoveEdge_spec[OF assms(1) Cons.prems(1), of e]
      graph_Connect_spec[OF assms(1) graph_RemoveEdge_spec(1)[OF assms(1) Cons.prems(1)], of e "BasicEdge v (edge_S e)"]
    by (auto simp: invert_edge_def creates_def edge_Hashcode_def)
  moreover have "edge_S e \<noteq> v" if "creates nd (edge_S e)" using that assms(3) by auto
  ultimately show ?case using Cons.IH[of ?g] Cons.prems(2) assms(3) by auto
qed simp

lemma EdgesTo_sources:
  assumes "inj hc"
  shows "edge_S ` set (graph_EdgesTo hc g v) = {a. (a, v) \<in> edge_rel g}" and "\<forall>e \<in> set (graph_EdgesTo hc g v). edge_T e = v"
  using assms set_graph_Edges[of g] by (force simp: graph_EdgesTo_def inj_eq edge_Hashcode_def image_iff)+

lemma invert_edges_spec:
  assumes "inj hc" "graph_wf hc g" "\<not> (creates nd v \<and> cbd_destroyer nd cbd v)"
  shows "graph_wf hc (invert_edges hc nd cbd g v) \<and> vertex_set (invert_edges hc nd cbd g v) = vertex_set g \<and>
    edge_rel (invert_edges hc nd cbd g v) = inverted nd {u. u = v \<and> cbd_destroyer nd cbd v} (edge_rel g)"
proof (cases "cbd_destroyer nd cbd v")
  case True
  then have "invert_edges hc nd cbd g v = foldl (invert_edge hc nd v) g (graph_EdgesTo hc g v)"
    by (auto simp: invert_edges_def cbd_destroyer_def cbd_flag_def split: option.splits)
  then show ?thesis
    using invert_edge_fold[OF assms(1,2) _ EdgesTo_sources(2)[OF assms(1)], of nd v] assms(3) True EdgesTo_sources(1)[OF assms(1), of g v]
    by (auto simp: inverted_def)
next
  case False
  then have "invert_edges hc nd cbd g v = g" by (auto simp: invert_edges_def cbd_destroyer_def cbd_flag_def split: option.splits)
  then show ?thesis using assms(2) False by (auto simp: inverted_def)
qed

lemma inverted_twice:
  assumes "\<forall>b \<in> B \<union> B'. \<not> creates nd b"
  shows "inverted nd B' (inverted nd B E) = inverted nd (B \<union> B') E"
  using assms by (auto simp: inverted_def)

lemma invert_all_fold:
  assumes "inj hc" "graph_wf hc g" "\<forall>v. \<not> (creates nd v \<and> cbd_destroyer nd cbd v)"
  shows "graph_wf hc (foldl (invert_edges hc nd cbd) g vs) \<and> vertex_set (foldl (invert_edges hc nd cbd) g vs) = vertex_set g \<and>
    edge_rel (foldl (invert_edges hc nd cbd) g vs) = inverted nd {v \<in> set vs. cbd_destroyer nd cbd v} (edge_rel g)"
  using assms(2)
proof (induction vs arbitrary: g)
  case (Cons v vs)
  let ?B = "{u. u = v \<and> cbd_destroyer nd cbd v}" and ?B' = "{u \<in> set vs. cbd_destroyer nd cbd u}"
  have all: "{u \<in> set (v # vs). cbd_destroyer nd cbd u} = ?B \<union> ?B'" by auto
  have "\<forall>b \<in> ?B \<union> ?B'. \<not> creates nd b" using assms(3) by auto
  then have "inverted nd {u \<in> set (v # vs). cbd_destroyer nd cbd u} (edge_rel g) = inverted nd ?B' (inverted nd ?B (edge_rel g))"
    unfolding all by (rule inverted_twice[symmetric])
  then show ?case
    using Cons.IH[of "invert_edges hc nd cbd g v"] invert_edges_spec[OF assms(1) Cons.prems, of nd v cbd] assms(3) by simp
qed (auto simp: inverted_def)

text \<open>
  C13: When no vertex both creates and destroys with create-before-destroy, the edge transformer turns round exactly the edges
  that lead from a creating vertex to such a destroying vertex, whatever the order of its visits: the destruction then waits
  for the creation of the replacement and of everything that depended on the old object, and all other edges are as before.
\<close>

theorem CBDEdgeTransformer_inverts:
  assumes "inj hc" "graph_wf hc g" "graph_closed g" "\<forall>v. \<not> (creates nd v \<and> cbd_destroyer nd cbd v)"
  shows "graph_wf hc (CBDEdgeTransformer hc nd cbd g) \<and> vertex_set (CBDEdgeTransformer hc nd cbd g) = vertex_set g \<and>
    (\<forall>a b. (a, b) \<in> edge_rel (CBDEdgeTransformer hc nd cbd g) \<longleftrightarrow>
      (a, b) \<in> edge_rel g \<and> \<not> (creates nd a \<and> cbd_destroyer nd cbd b) \<or> (b, a) \<in> edge_rel g \<and> creates nd b \<and> cbd_destroyer nd cbd a)"
proof -
  have vs: "a \<in> vertex_set g" "b \<in> vertex_set g" if "(a, b) \<in> edge_rel g" for a b using that assms(3) by (auto simp: graph_closed_def)
  show ?thesis using invert_all_fold[OF assms(1,2,4), of "graph_Vertices g"] unfolding CBDEdgeTransformer_def inverted_def
    by (simp, blast dest: vs)
qed

definition ex_destroy_nodes :: "(nat, unit) node_ops" where
  "ex_destroy_nodes = \<lparr>nd_ResourceInstance = (\<lambda>_. None), nd_StateDependencies = (\<lambda>_. []), nd_ConfigResource = (\<lambda>_. None), nd_Targetable = (\<lambda>_. False),
     nd_TemporaryValue = (\<lambda>_. None), nd_Destroyer = (\<lambda>v. if v = 4 then Some None else None), nd_Creator = (\<lambda>v. if v = 2 then Some None else None),
     nd_ProviderConsumer = (\<lambda>_. None), nd_Referencer = (\<lambda>_. False), nd_Retained = (\<lambda>_. False), nd_DynamicExpandable = (\<lambda>_. False), nd_Provider = (\<lambda>_. False)\<rparr>"

theorem CBDEdgeTransformer_inverts_witness:
  "(4, 2) \<in> edge_rel (CBDEdgeTransformer id ex_destroy_nodes (\<lambda>_. Some DestroyDeposedResourceInstanceObject) diamond) \<and>
   (2, 4) \<notin> edge_rel (CBDEdgeTransformer id ex_destroy_nodes (\<lambda>_. Some DestroyDeposedResourceInstanceObject) diamond)"
proof -
  have cr: "creates ex_destroy_nodes v \<longleftrightarrow> v = 2" "cbd_destroyer ex_destroy_nodes (\<lambda>_. Some DestroyDeposedResourceInstanceObject) v \<longleftrightarrow> v = 4" for v
    by (simp_all add: creates_def cbd_destroyer_def cbd_flag_def ex_destroy_nodes_def)
  then show ?thesis
    using CBDEdgeTransformer_inverts[OF inj_on_id diamond_spec(1) diamond_closed, of ex_destroy_nodes "\<lambda>_. Some DestroyDeposedResourceInstanceObject"]
    by (simp add: diamond_spec(3))
qed

end
