(* ===== verification/Graph_Target_Props.thy ===== *)
theory Graph_Target_Props
  imports Graph_Transform Dag_Props Addr_Props
begin

text \<open>
  What targeting leaves of a graph: the selected vertices with everything they depend on, and the outputs that depend on
  selected resources only.
\<close>

section \<open>Walks and sets\<close>

lemma walked_Ancestors:
  assumes "inj hc" "graph_wf hc g"
  obtains s where "walked (Ancestors hc g v) = Some s" "dset_wf hc s" "set (set_List s) = (edge_rel g)\<^sup>+ `` {v}"
  using Ancestors_reach[OF assms, of v] by (auto simp: walked_def)

lemma walked_Descendents:
  assumes "inj hc" "graph_wf hc g"
  obtains s where "walked (Descendents hc g v) = Some s" "dset_wf hc s" "set (set_List s) = ((edge_rel g)\<^sup>+)\<inverse> `` {v}"
  using Descendents_reach[OF assms, of v] by (auto simp: walked_def)

lemma add_all_spec:
  assumes "inj hc" "dset_wf hc s"
  shows "dset_wf hc (add_all hc s vs) \<and> dset_elems (add_all hc s vs) = dset_elems s \<union> set vs"
  using assms(2) unfolding add_all_def by (induction vs arbitrary: s) (auto simp: set_Add_wf dset_simps(1)[OF assms(1)])

lemma dset_empty [simp]: "dset_wf hc []" "dset_elems [] = {}"
  by (simp_all add: dset_wf_def dset_elems_def gmap_ok_def gmap_vals_def)

section \<open>Selecting vertices\<close>

lemma select_fold:
  assumes "inj hc" "graph_wf hc g" "dset_wf hc T"
  shows "\<exists>T' told'. fold_opt (\<lambda>v st. if P v then select_node hc nd g v st else Some st) vs (T, told) = Some (T', told') \<and>
    dset_wf hc T' \<and> dset_elems T' = dset_elems T \<union> (edge_rel g)\<^sup>* `` {v \<in> set vs. P v} \<and>
    told' = told @ filter (\<lambda>v. P v \<and> nd_Targetable nd v) vs"
  using assms(3)
proof (induction vs arbitrary: T told)
  case (Cons v vs)
  show ?case
  proof (cases "P v")
    case True
    obtain s where s: "walked (Ancestors hc g v) = Some s" "set (set_List s) = (edge_rel g)\<^sup>+ `` {v}"
      by (rule walked_Ancestors[OF assms(1,2), of v])
    have T1: "dset_wf hc (add_all hc (set_Add hc T v) (set_List s))"
      "dset_elems (add_all hc (set_Add hc T v) (set_List s)) = dset_elems T \<union> (edge_rel g)\<^sup>* `` {v}"
      using add_all_spec[OF assms(1) set_Add_wf[OF Cons.prems], of v "set_List s"] s(2) Cons.prems
      by (auto simp: dset_simps(1)[OF assms(1)] rtrancl_eq_or_trancl)
    have "(edge_rel g)\<^sup>* `` {u \<in> set (v # vs). P u} = (edge_rel g)\<^sup>* `` {v} \<union> (edge_rel g)\<^sup>* `` {u \<in> set vs. P u}"
      using True by auto
    then show ?thesis using Cons.IH[OF T1(1), of "if nd_Targetable nd v then told @ [v] else told"] True s(1) T1(2)
      by (auto simp: select_node_def Let_def)
  next
    case False
    then have "{u \<in> set (v # vs). P u} = {u \<in> set vs. P u}" by auto
    then show ?thesis using Cons.IH[OF Cons.prems, of told] False by simp
  qed
qed simp

section \<open>Outputs\<close>

definition resource_vertex :: "('v, 'p) node_ops \<Rightarrow> 'v \<Rightarrow> bool" where
  "resource_vertex nd v \<longleftrightarrow> getTargetableNodeResourceAddr nd v \<noteq> None"

text \<open>An output that is not a temporary value, depends on a resource and only on resources of the set.\<close>

definition output_of :: "('v, 'p) node_ops \<Rightarrow> ('v \<times> 'v) set \<Rightarrow> 'v set \<Rightarrow> 'v \<Rightarrow> bool" where
  "output_of nd E T v \<longleftrightarrow>
     (\<exists>f. nd_TemporaryValue nd v = Some f \<and> \<not> f walkInvalid) \<and>
     (\<exists>d \<in> E\<^sup>+ `` {v}. resource_vertex nd d) \<and> (\<forall>d \<in> E\<^sup>+ `` {v}. resource_vertex nd d \<longrightarrow> d \<in> T)"

lemma found_targeted_pos:
  "found_targeted hc nd T ds f > 0 \<longleftrightarrow>
   (\<forall>d \<in> set ds. resource_vertex nd d \<longrightarrow> set_Include hc T d) \<and> (f > 0 \<or> (\<exists>d \<in> set ds. resource_vertex nd d))"
  by (induction ds arbitrary: f) (auto simp: resource_vertex_def)

lemma outputs_fold:
  assumes "inj hc" "graph_wf hc g" "dset_wf hc T" "dset_wf hc outs"
  shows "\<exists>outs'. fold_opt (targeted_output hc nd T g) vs outs = Some outs' \<and> dset_wf hc outs' \<and>
    dset_elems outs' = dset_elems outs \<union> (edge_rel g)\<^sup>* `` {v \<in> set vs. output_of nd (edge_rel g) (dset_elems T) v}"
  using assms(4)
proof (induction vs arbitrary: outs)
  case (Cons v vs)
  let ?E = "edge_rel g" and ?P = "output_of nd (edge_rel g) (dset_elems T)"
  obtain s where s: "walked (Ancestors hc g v) = Some s" "set (set_List s) = ?E\<^sup>+ `` {v}"
    by (rule walked_Ancestors[OF assms(1,2), of v])
  let ?new = "if ?P v then add_all hc (set_Add hc outs v) (set_List s) else outs"
  have found: "found_targeted hc nd T (set_List s) 0 > 0 \<longleftrightarrow>
      (\<exists>d \<in> ?E\<^sup>+ `` {v}. resource_vertex nd d) \<and> (\<forall>d \<in> ?E\<^sup>+ `` {v}. resource_vertex nd d \<longrightarrow> d \<in> dset_elems T)"
    unfolding found_targeted_pos using s(2) dset_simps(3)[OF assms(1,3)] by auto
  have step: "targeted_output hc nd T g v outs = Some ?new"
    using found s(1) by (auto simp: targeted_output_def output_of_def split: option.splits)
  have new: "dset_wf hc ?new" "dset_elems ?new = dset_elems outs \<union> ?E\<^sup>* `` {u. u = v \<and> ?P v}"
    using add_all_spec[OF assms(1) set_Add_wf[OF Cons.prems], of v "set_List s"] s(2) Cons.prems
    by (auto simp: dset_simps(1)[OF assms(1)] rtrancl_eq_or_trancl)
  have "?E\<^sup>* `` {u \<in> set (v # vs). ?P u} = ?E\<^sup>* `` {u. u = v \<and> ?P v} \<union> ?E\<^sup>* `` {u \<in> set vs. ?P u}" by auto
  then show ?case using Cons.IH[OF new(1)] step new(2) by (simp add: Un_assoc)
qed simp

definition with_outputs_spec :: "('v, 'p) node_ops \<Rightarrow> ('h, 'v) graph \<Rightarrow> 'v set \<Rightarrow> 'v set" where
  "with_outputs_spec nd g D =
     (let E = edge_rel g; T = E\<^sup>* `` D in T \<union> E\<^sup>* `` {v \<in> vertex_set g. output_of nd E T v})"

lemma with_outputs_elems:
  assumes "inj hc" "graph_wf hc g" "dset_wf hc T" "dset_elems T = (edge_rel g)\<^sup>* `` D"
  shows "\<exists>T'. with_outputs hc nd g (T, told) = Some (T', told) \<and> dset_wf hc T' \<and> dset_elems T' = with_outputs_spec nd g D"
proof -
  obtain outs where "getTargetedOutputNodes hc nd T g = Some outs" "dset_wf hc outs"
    "dset_elems outs = (edge_rel g)\<^sup>* `` {v \<in> vertex_set g. output_of nd (edge_rel g) (dset_elems T) v}"
    using outputs_fold[OF assms(1-3), of "[]" nd "graph_Vertices g"] by (auto simp: getTargetedOutputNodes_def)
  then show ?thesis using add_all_spec[OF assms(1,3), of "set_List outs"] assms(4)
    by (auto simp: with_outputs_def with_outputs_spec_def Let_def)
qed

lemma with_outputs_spec_closed: "edge_rel g `` with_outputs_spec nd g D \<subseteq> with_outputs_spec nd g D"
  by (auto simp: with_outputs_spec_def Let_def intro: rtrancl_into_rtrancl)

lemma with_outputs_spec_vertices: "graph_closed g \<Longrightarrow> D \<subseteq> vertex_set g \<Longrightarrow> with_outputs_spec nd g D \<subseteq> vertex_set g"
proof -
  assume "graph_closed g" "D \<subseteq> vertex_set g"
  then have "(edge_rel g)\<^sup>* `` A \<subseteq> vertex_set g" if "A \<subseteq> vertex_set g" for A
    using that by (auto simp: graph_closed_def elim: rtranclE)
  then show "with_outputs_spec nd g D \<subseteq> vertex_set g" using \<open>D \<subseteq> vertex_set g\<close> by (auto simp: with_outputs_spec_def Let_def)
qed

section \<open>Removing what is not selected\<close>

lemma remove_others:
  assumes "inj hc" "graph_wf hc g"
  shows "graph_wf hc (foldl (\<lambda>g v. if \<not> P v then graph_Remove hc g v else g) g vs) \<and>
    vertex_set (foldl (\<lambda>g v. if \<not> P v then graph_Remove hc g v else g) g vs) = vertex_set g - {v \<in> set vs. \<not> P v} \<and>
    edge_rel (foldl (\<lambda>g v. if \<not> P v then graph_Remove hc g v else g) g vs) =
      {(a, b) \<in> edge_rel g. a \<notin> {v \<in> set vs. \<not> P v} \<and> b \<notin> {v \<in> set vs. \<not> P v}}"
  using assms(2) by (induction vs arbitrary: g) (auto simp: graph_Remove_spec[OF assms(1)])

definition induced :: "('h, 'v) graph \<Rightarrow> 'v set \<Rightarrow> ('h, 'v) graph \<Rightarrow> bool" where
  "induced g K g' \<longleftrightarrow> vertex_set g' = K \<and> edge_rel g' = edge_rel g \<inter> K \<times> K"

lemma keep_selected:
  assumes "inj hc" "graph_wf hc g" "graph_closed g" "dset_wf hc T" "dset_elems T \<subseteq> vertex_set g"
  defines "g' \<equiv> foldl (\<lambda>g v. if \<not> set_Include hc T v then graph_Remove hc g v else g) g (graph_Vertices g)"
  shows "graph_wf hc g'" and "induced g (dset_elems T) g'"
  using remove_others[OF assms(1,2), of "set_Include hc T" "graph_Vertices g"] assms(3,5)
  unfolding g'_def by (auto simp: induced_def graph_closed_def dset_simps(3)[OF assms(1,4)])

lemma selectTargetedNodes_elems:
  assumes "inj hc" "graph_wf hc g"
  shows "\<exists>T. selectTargetedNodes hc nd g addrs = Some (T, filter (\<lambda>v. nodeIsTarget nd v addrs \<and> nd_Targetable nd v) (graph_Vertices g)) \<and>
    dset_wf hc T \<and> dset_elems T = with_outputs_spec nd g {v \<in> vertex_set g. nodeIsTarget nd v addrs}"
proof -
  obtain T told where T: "fold_opt (\<lambda>v st. if nodeIsTarget nd v addrs then select_node hc nd g v st else Some st) (graph_Vertices g) ([], []) = Some (T, told)"
    "dset_wf hc T" "dset_elems T = (edge_rel g)\<^sup>* `` {v \<in> vertex_set g. nodeIsTarget nd v addrs}"
    "told = filter (\<lambda>v. nodeIsTarget nd v addrs \<and> nd_Targetable nd v) (graph_Vertices g)"
    using select_fold[OF assms dset_empty(1), of "\<lambda>v. nodeIsTarget nd v addrs" nd "graph_Vertices g" "[]"] by auto
  show ?thesis using with_outputs_elems[OF assms T(2,3), of nd told] T(1,4) by (auto simp: selectTargetedNodes_def)
qed

definition targeted_vertices :: "('v, 'p) node_ops \<Rightarrow> ('h, 'v) graph \<Rightarrow> Targetable list \<Rightarrow> 'v set" where
  "targeted_vertices nd g targets = with_outputs_spec nd g {v \<in> vertex_set g. nodeIsTarget nd v targets}"

text \<open>
  C8: Targeting ends, and keeps exactly the vertices that a target selects, everything these depend on, and, with what they
  depend on, the outputs that depend on at least one resource and only on kept resources; edges between kept vertices stay.
  So every kept vertex still has all its dependencies.  Exactly the selected vertices that ask for them are told the targets.
\<close>

theorem TargetingTransformer_targets:
  assumes "inj hc" "graph_wf hc g" "graph_closed g" "targets \<noteq> []"
  shows "\<exists>g' told. TargetingTransformer hc nd targets excludes g = Some (g', told) \<and> graph_wf hc g' \<and>
    induced g (targeted_vertices nd g targets) g' \<and> edge_rel g `` targeted_vertices nd g targets \<subseteq> targeted_vertices nd g targets \<and>
    (\<forall>v. v \<in> set told \<longleftrightarrow> v \<in> vertex_set g \<and> nodeIsTarget nd v targets \<and> nd_Targetable nd v)"
proof -
  obtain T where T: "selectTargetedNodes hc nd g targets = Some (T, filter (\<lambda>v. nodeIsTarget nd v targets \<and> nd_Targetable nd v) (graph_Vertices g))"
    "dset_wf hc T" "dset_elems T = targeted_vertices nd g targets"
    using selectTargetedNodes_elems[OF assms(1,2)] unfolding targeted_vertices_def by blast
  have "dset_elems T \<subseteq> vertex_set g" unfolding T(3) targeted_vertices_def by (rule with_outputs_spec_vertices[OF assms(3)]) auto
  from keep_selected[OF assms(1-3) T(2) this] show ?thesis
    using assms(4) T(1,3) with_outputs_spec_closed[of g nd] by (auto simp: TargetingTransformer_def targeted_vertices_def)
qed

text \<open>An example: on the diamond the vertices below the top are resource instances and the top is an output.\<close>

definition ex_nodes :: "(nat, unit) node_ops" where
  "ex_nodes = \<lparr>nd_ResourceInstance = (\<lambda>v. if v = 1 then None else Some (web (IntKey (int v)))), nd_StateDependencies = (\<lambda>_. []),
     nd_ConfigResource = (\<lambda>_. None), nd_Targetable = (\<lambda>_. True), nd_TemporaryValue = (\<lambda>v. if v = 1 then Some (\<lambda>_. False) else None),
     nd_Destroyer = (\<lambda>_. None), nd_Creator = (\<lambda>_. None), nd_ProviderConsumer = (\<lambda>_. None), nd_Referencer = (\<lambda>_. False),
     nd_Retained = (\<lambda>_. False), nd_DynamicExpandable = (\<lambda>_. False), nd_Provider = (\<lambda>_. False)\<rparr>"

lemma web_contains:
  "ari_String (web (IntKey j)) = ari_String (web (IntKey k)) \<longleftrightarrow> j = k"
  by (subst ari_String_inj) (auto simp: web_facts(1), auto simp: web_def mi_ResourceInstance_def)

lemma ex_nodes_addr:
  "getTargetableNodeResourceAddr ex_nodes v = (if v = 1 then None else Some (TAbsResourceInstance (web (IntKey (int v)))))"
  by (simp add: getTargetableNodeResourceAddr_def ex_nodes_def)

lemma ex_outputs:
  assumes "2 \<notin> T \<or> 3 \<notin> T"
  shows "\<not> output_of ex_nodes (edge_rel diamond) T v"
proof (cases "v = 1")
  case True
  have "resource_vertex ex_nodes 2" "resource_vertex ex_nodes 3" by (simp_all add: resource_vertex_def ex_nodes_addr)
  moreover have "2 \<in> (edge_rel diamond)\<^sup>+ `` {1}" "3 \<in> (edge_rel diamond)\<^sup>+ `` {1}" by (simp_all add: diamond_reach)
  ultimately show ?thesis using True assms unfolding output_of_def by blast
qed (simp add: output_of_def ex_nodes_def)

theorem TargetingTransformer_targets_witness:
  "\<exists>g' told. TargetingTransformer id ex_nodes [TAbsResourceInstance (web (IntKey 2))] [] diamond = Some (g', told) \<and> vertex_set g' = {2, 4}"
proof -
  have sel: "{v \<in> vertex_set diamond. nodeIsTarget ex_nodes v [TAbsResourceInstance (web (IntKey 2))]} = {2}"
    by (auto simp: diamond_spec nodeIsTarget_def ex_nodes_addr web_contains)
  have "(edge_rel diamond)\<^sup>* `` {2} = {2, 4}" by (auto simp: rtrancl_eq_or_trancl diamond_reach)
  then have "targeted_vertices ex_nodes diamond [TAbsResourceInstance (web (IntKey 2))] = {2, 4}"
    unfolding targeted_vertices_def with_outputs_spec_def sel Let_def by (simp add: ex_outputs)
  then show ?thesis
    using TargetingTransformer_targets[OF inj_on_id diamond_spec(1) diamond_closed, of "[TAbsResourceInstance (web (IntKey 2))]" ex_nodes "[]"]
    by (auto simp: induced_def)
qed

section \<open>Excluding vertices\<close>

text \<open>The vertices that one vertex excludes: itself, and the dependents that it does not contain.\<close>

definition excluded_by :: "('v, 'p) node_ops \<Rightarrow> ('v \<times> 'v) set \<Rightarrow> Targetable list \<Rightarrow> 'v \<Rightarrow> 'v set" where
  "excluded_by nd E excludes v =
     (case getTargetableNodeResourceAddr nd v of
        None \<Rightarrow> {}
      | Some a \<Rightarrow> {u. u = v \<and> nodeIsExcluded a excludes} \<union>
          {d. (nodeIsExcluded a excludes \<or> (\<exists>x \<in> set excludes. TargetContains (generalized a x) a)) \<and> (d, v) \<in> E\<^sup>+ \<and>
             (\<exists>b. getTargetableNodeResourceAddr nd d = Some b \<and> \<not> TargetContains a b)})"

definition excluded_vertices :: "('v, 'p) node_ops \<Rightarrow> ('h, 'v) graph \<Rightarrow> Targetable list \<Rightarrow> 'v set" where
  "excluded_vertices nd g excludes = (\<Union>v \<in> vertex_set g. excluded_by nd (edge_rel g) excludes v)"

definition remaining_vertices :: "('v, 'p) node_ops \<Rightarrow> ('h, 'v) graph \<Rightarrow> Targetable list \<Rightarrow> 'v set" where
  "remaining_vertices nd g excludes =
     with_outputs_spec nd g {v \<in> vertex_set g. resource_vertex nd v \<and> v \<notin> excluded_vertices nd g excludes}"

lemma exclude_dependents:
  assumes "inj hc" "dset_wf hc X"
  shows "dset_wf hc (foldl (exclude_dependent hc nd a) X ds) \<and>
    dset_elems (foldl (exclude_dependent hc nd a) X ds) =
      dset_elems X \<union> {d \<in> set ds. \<exists>b. getTargetableNodeResourceAddr nd d = Some b \<and> \<not> TargetContains a b}"
  using assms(2)
  by (induction ds arbitrary: X) (auto simp: exclude_dependent_def set_Add_wf dset_simps(1)[OF assms(1)] split: option.splits)

lemma exclude_step:
  assumes "inj hc" "graph_wf hc g" "dset_wf hc Tg" "dset_wf hc X"
  shows "\<exists>Tg' X'. exclude_node hc nd g excludes v (Tg, X) = Some (Tg', X') \<and> dset_wf hc Tg' \<and> dset_wf hc X' \<and>
    dset_elems Tg' = dset_elems Tg \<union> {u. u = v \<and> resource_vertex nd v} \<and>
    dset_elems X' = dset_elems X \<union> excluded_by nd (edge_rel g) excludes v"
proof (cases "getTargetableNodeResourceAddr nd v")
  case None
  then show ?thesis using assms(3,4) by (auto simp: exclude_node_def excluded_by_def resource_vertex_def)
next
  case (Some a)
  let ?X = "if nodeIsExcluded a excludes then set_Add hc X v else X"
  obtain s where s: "walked (Descendents hc g v) = Some s" "set (set_List s) = ((edge_rel g)\<^sup>+)\<inverse> `` {v}"
    by (rule walked_Descendents[OF assms(1,2), of v])
  have X: "dset_wf hc ?X" "dset_elems ?X = dset_elems X \<union> {u. u = v \<and> nodeIsExcluded a excludes}"
    using assms(4) by (auto simp: set_Add_wf dset_simps(1)[OF assms(1)])
  have "nodeDescendantsExcluded a excludes \<longleftrightarrow> (\<exists>x \<in> set excludes. TargetContains (generalized a x) a)"
    by (simp add: nodeDescendantsExcluded_def list_ex_iff)
  then show ?thesis using exclude_dependents[OF assms(1) X(1), of nd a "set_List s"] X s assms(3) Some
    by (auto simp: exclude_node_def excluded_by_def resource_vertex_def Let_def set_Add_wf dset_simps(1)[OF assms(1)])
qed

lemma exclude_fold:
  assumes "inj hc" "graph_wf hc g" "dset_wf hc Tg" "dset_wf hc X"
  shows "\<exists>Tg' X'. fold_opt (exclude_node hc nd g excludes) vs (Tg, X) = Some (Tg', X') \<and> dset_wf hc Tg' \<and> dset_wf hc X' \<and>
    dset_elems Tg' = dset_elems Tg \<union> {v \<in> set vs. resource_vertex nd v} \<and>
    dset_elems X' = dset_elems X \<union> (\<Union>v \<in> set vs. excluded_by nd (edge_rel g) excludes v)"
  using assms(3,4)
proof (induction vs arbitrary: Tg X)
  case (Cons v vs)
  obtain Tg1 X1 where 1: "exclude_node hc nd g excludes v (Tg, X) = Some (Tg1, X1)" "dset_wf hc Tg1" "dset_wf hc X1"
    "dset_elems Tg1 = dset_elems Tg \<union> {u. u = v \<and> resource_vertex nd v}"
    "dset_elems X1 = dset_elems X \<union> excluded_by nd (edge_rel g) excludes v"
    using exclude_step[OF assms(1,2) Cons.prems, of nd excludes v] by blast
  have "{u \<in> set (v # vs). resource_vertex nd u} = {u. u = v \<and> resource_vertex nd v} \<union> {u \<in> set vs. resource_vertex nd u}" by auto
  then show ?case using Cons.IH[OF 1(2,3)] 1(1,4,5) by (simp add: Un_assoc)
qed simp

lemma removeExcludedNodes_elems:
  assumes "inj hc" "graph_wf hc g"
  shows "\<exists>T told. removeExcludedNodes hc nd g excludes = Some (T, told) \<and> dset_wf hc T \<and> dset_elems T = remaining_vertices nd g excludes"
proof -
  obtain Tg X where 1: "fold_opt (exclude_node hc nd g excludes) (graph_Vertices g) ([], []) = Some (Tg, X)" "dset_wf hc Tg" "dset_wf hc X"
    "dset_elems Tg = {v \<in> vertex_set g. resource_vertex nd v}" "dset_elems X = excluded_vertices nd g excludes"
    using exclude_fold[OF assms dset_empty(1) dset_empty(1), of nd excludes "graph_Vertices g"] by (auto simp: excluded_vertices_def)
  have D: "{v \<in> set (set_List Tg). \<not> set_Include hc X v} = {v \<in> vertex_set g. resource_vertex nd v \<and> v \<notin> excluded_vertices nd g excludes}"
    using 1(4,5) dset_simps(3)[OF assms(1) 1(3)] by auto
  obtain T told where 2: "fold_opt (\<lambda>v st. if \<not> set_Include hc X v then select_node hc nd g v st else Some st) (set_List Tg) ([], []) = Some (T, told)"
    "dset_wf hc T" "dset_elems T = (edge_rel g)\<^sup>* `` {v \<in> vertex_set g. resource_vertex nd v \<and> v \<notin> excluded_vertices nd g excludes}"
    using select_fold[OF assms dset_empty(1), of "\<lambda>v. \<not> set_Include hc X v" nd "set_List Tg" "[]"] D by auto
  show ?thesis using with_outputs_elems[OF assms 2(2,3), of nd told] 1(1) 2(1) by (auto simp: removeExcludedNodes_def remaining_vertices_def)
qed

text \<open>Containment is transitive where the address in the middle is that of a resource instance.\<close>

lemma TargetContains_through_instance:
  assumes "target_valid x" "ari_valid i" "target_valid b"
    and "TargetContains x (TAbsResourceInstance i)" "TargetContains (TAbsResourceInstance i) b"
    and "(\<exists>r. b = TConfigResource r) \<or> (\<exists>j. b = TAbsResourceInstance j)"
  shows "TargetContains x b"
proof -
  have x: "target_spec x (TAbsResourceInstance i)" and b: "target_spec (TAbsResourceInstance i) b"
    using assms TargetContains_spec[of x "TAbsResourceInstance i"] TargetContains_spec[of "TAbsResourceInstance i" b] by simp_all
  have "target_spec x b"
  proof (cases b)
    case (TConfigResource r)
    then have i: "i = ar_Instance (cr_Absolute r (UnkeyedInstanceShim (cr_Module r))) NoKey" using b by simp
    have "ari_Module i = UnkeyedInstanceShim (cr_Module r)" "ari_ConfigResource i = r"
      "ari_ContainingResource i = cr_Absolute r (UnkeyedInstanceShim (cr_Module r))"
      by (simp_all add: i ar_Instance_def cr_Absolute_def ari_ConfigResource_def ari_ContainingResource_def res_Instance_def UnkeyedInstanceShim_def comp_def)
    then show ?thesis using x i TConfigResource by (cases x) (simp_all add: UnkeyedInstanceShim_def comp_def)
  qed (use x b assms(6) in auto)
  then show ?thesis using TargetContains_spec assms(1,3) by blast
qed

text \<open>A vertex that is excluded itself can only stay for an instance of its own resource that depends on it.\<close>

lemma excluded_not_selected:
  assumes valid: "list_all target_valid excludes" "\<forall>u \<in> vertex_set g. \<forall>a. getTargetableNodeResourceAddr nd u = Some a \<longrightarrow> target_valid a"
    and v: "v \<in> vertex_set g" "getTargetableNodeResourceAddr nd v = Some a" "nodeIsExcluded a excludes"
    and w: "w \<in> vertex_set g" "w \<notin> excluded_vertices nd g excludes" "getTargetableNodeResourceAddr nd w = Some b" "(w, v) \<in> (edge_rel g)\<^sup>*"
  shows "\<exists>c i. a = TConfigResource c \<and> b = TAbsResourceInstance i \<and> ari_ConfigResource i = c"
proof -
  have notx: "\<not> nodeIsExcluded b excludes" using w by (auto simp: excluded_vertices_def excluded_by_def)
  then have "w \<noteq> v" using v w(3) by auto
  then have "(w, v) \<in> (edge_rel g)\<^sup>+" using w(4) by (simp add: rtrancl_eq_or_trancl)
  then have ab: "TargetContains a b" using v w by (auto simp: excluded_vertices_def excluded_by_def)
  obtain x where x: "x \<in> set excludes" "TargetContains x a" using v(3) by (auto simp: nodeIsExcluded_def list_ex_iff)
  have xb: "\<not> TargetContains x b" using notx x(1) by (auto simp: nodeIsExcluded_def list_ex_iff)
  have ok: "target_valid x" "target_valid a" "target_valid b" using valid v w x(1) by (auto simp: list_all_iff)
  have kinds: "(\<exists>r. b = TConfigResource r) \<or> (\<exists>j. b = TAbsResourceInstance j)" "(\<exists>r. a = TConfigResource r) \<or> (\<exists>j. a = TAbsResourceInstance j)"
    using v(2) w(3) by (auto simp: getTargetableNodeResourceAddr_def split: option.splits)
  have "a \<noteq> TAbsResourceInstance j" for j
    using TargetContains_through_instance[OF ok(1) _ ok(3) _ _ kinds(1), of j] ok(2) x(2) ab xb by auto
  then obtain c where c: "a = TConfigResource c" using kinds(2) by blast
  have spec: "target_spec a b" using TargetContains_spec[OF ok(2,3)] ab by simp
  have "b \<noteq> TConfigResource r" for r using spec c x(2) xb by auto
  then show ?thesis using kinds(1) spec c by auto
qed

text \<open>
  C9: Excluding ends, and keeps exactly the resources that are not excluded, everything they depend on, and the outputs that
  depend on kept resources only.  A resource instance that an exclude contains never stays; a resource that is not expanded
  and that an exclude contains stays only for an instance of that very resource that depends on it.
\<close>

theorem TargetingTransformer_excludes:
  assumes "inj hc" "graph_wf hc g" "graph_closed g" "excludes \<noteq> []"
    and "list_all target_valid excludes" "\<forall>u \<in> vertex_set g. \<forall>a. getTargetableNodeResourceAddr nd u = Some a \<longrightarrow> target_valid a"
  shows "(\<exists>g' told. TargetingTransformer hc nd [] excludes g = Some (g', told) \<and> graph_wf hc g' \<and>
      induced g (remaining_vertices nd g excludes) g' \<and> edge_rel g `` remaining_vertices nd g excludes \<subseteq> remaining_vertices nd g excludes) \<and>
    (\<forall>v \<in> vertex_set g. \<forall>a. getTargetableNodeResourceAddr nd v = Some a \<longrightarrow> nd_TemporaryValue nd v = None \<longrightarrow> nodeIsExcluded a excludes \<longrightarrow>
      v \<in> remaining_vertices nd g excludes \<longrightarrow>
      (\<exists>c w i. a = TConfigResource c \<and> w \<in> vertex_set g \<and> (w, v) \<in> (edge_rel g)\<^sup>+ \<and> nd_ResourceInstance nd w = Some i \<and> ari_ConfigResource i = c))"
    (is "?run \<and> ?safe")
proof
  obtain T told where T: "removeExcludedNodes hc nd g excludes = Some (T, told)" "dset_wf hc T" "dset_elems T = remaining_vertices nd g excludes"
    using removeExcludedNodes_elems[OF assms(1,2)] by blast
  have "dset_elems T \<subseteq> vertex_set g" unfolding T(3) remaining_vertices_def by (rule with_outputs_spec_vertices[OF assms(3)]) auto
  from keep_selected[OF assms(1-3) T(2) this] show ?run
    using assms(4) T(1,3) with_outputs_spec_closed[of g nd] by (auto simp: TargetingTransformer_def remaining_vertices_def)
next
  let ?D = "{w \<in> vertex_set g. resource_vertex nd w \<and> w \<notin> excluded_vertices nd g excludes}" and ?E = "edge_rel g"
  have "\<exists>c w i. a = TConfigResource c \<and> w \<in> vertex_set g \<and> (w, v) \<in> ?E\<^sup>+ \<and> nd_ResourceInstance nd w = Some i \<and> ari_ConfigResource i = c"
    if v: "v \<in> vertex_set g" "getTargetableNodeResourceAddr nd v = Some a" "nd_TemporaryValue nd v = None" "nodeIsExcluded a excludes"
      "v \<in> remaining_vertices nd g excludes" for v a
  proof -
    have "v \<in> ?E\<^sup>* `` ?D" using v(2,3,5)
      by (auto simp: remaining_vertices_def with_outputs_spec_def Let_def output_of_def resource_vertex_def rtrancl_eq_or_trancl)
    then obtain w where w: "w \<in> vertex_set g" "resource_vertex nd w" "w \<notin> excluded_vertices nd g excludes" "(w, v) \<in> ?E\<^sup>*" by blast
    then obtain b where b: "getTargetableNodeResourceAddr nd w = Some b" by (auto simp: resource_vertex_def)
    obtain c i where ci: "a = TConfigResource c" "b = TAbsResourceInstance i" "ari_ConfigResource i = c"
      using excluded_not_selected[OF assms(5,6) v(1,2,4) w(1,3) b w(4)] by blast
    have "w \<noteq> v" using ci b v(2) by auto
    then have "(w, v) \<in> ?E\<^sup>+" using w(4) by (simp add: rtrancl_eq_or_trancl)
    moreover have "nd_ResourceInstance nd w = Some i" using b ci(2) by (auto simp: getTargetableNodeResourceAddr_def split: option.splits)
    ultimately show ?thesis using ci w(1) by blast
  qed
  then show ?safe by blast
qed

theorem TargetingTransformer_excludes_witness:
  "\<exists>g' told. TargetingTransformer id ex_nodes [] [TAbsResourceInstance (web (IntKey 2))] diamond = Some (g', told) \<and> vertex_set g' = {3, 4}"
proof -
  let ?x = "[TAbsResourceInstance (web (IntKey 2))]"
  have valid: "\<forall>u \<in> vertex_set diamond. \<forall>a. getTargetableNodeResourceAddr ex_nodes u = Some a \<longrightarrow> target_valid a"
    using web_facts(1) by (auto simp: ex_nodes_addr)
  have "{v \<in> vertex_set diamond. resource_vertex ex_nodes v \<and> v \<notin> excluded_vertices ex_nodes diamond ?x} = {3, 4}"
    by (auto simp: excluded_vertices_def excluded_by_def diamond_spec(2) diamond_reach resource_vertex_def ex_nodes_addr nodeIsExcluded_def
        web_contains)
  moreover have "(edge_rel diamond)\<^sup>* `` {3, 4} = {3, 4}" by (auto simp: rtrancl_eq_or_trancl diamond_reach)
  ultimately have "remaining_vertices ex_nodes diamond ?x = {3, 4}"
    unfolding remaining_vertices_def with_outputs_spec_def Let_def by (simp add: ex_outputs)
  then show ?thesis
    using TargetingTransformer_excludes[OF inj_on_id diamond_spec(1) diamond_closed, of ?x ex_nodes] valid web_facts(1)
    by (auto simp: induced_def)
qed

end
