(* ===== verification/Graph_Prune_Props.thy ===== *)
theory Graph_Prune_Props
  imports Graph_Destroy Graph_Build_Props Graph_Target_Props
begin

text \<open>
  Pruning computes the largest part of a graph in which every vertex is needed, whatever the order in which vertices are
  looked at.
\<close>

section \<open>When a vertex is needed\<close>

definition needed :: "('v, 'p) node_ops \<Rightarrow> walkOperation \<Rightarrow> ('v \<times> 'v) set \<Rightarrow> 'v \<Rightarrow> bool" where
  "needed nd op E n \<longleftrightarrow>
     (case nd_TemporaryValue nd n of
        Some f \<Rightarrow> \<not> f op \<or> (\<exists>u. (u, n) \<in> E \<and> nd_Referencer nd u)
      | None \<Rightarrow>
          if nd_Retained nd n then \<exists>u. (u, n) \<in> E \<and> expands_for nd op u
          else if nd_Provider nd n then \<exists>u. (u, n) \<in> E\<^sup>+ \<and> (nd_ProviderConsumer nd u \<noteq> None \<or> nd_Referencer nd u)
          else True)"

lemma needed_mono: "needed nd op E n \<Longrightarrow> E \<subseteq> F \<Longrightarrow> needed nd op F n"
  by (auto simp: needed_def split: option.splits if_splits intro: trancl_mono)

lemma set_UpEdges: "graph_wf hc g \<Longrightarrow> dset_elems (graph_UpEdges hc g v) = {u. (u, v) \<in> edge_rel g}"
  using NoCopy_wf(2)[of hc g v] by (auto simp: graph_UpEdges_def set_Copy_eq dset_wf_def graph_wf_adj)

lemma prune_keeps_needed:
  assumes "inj hc" "graph_wf hc g"
  shows "prune_keeps hc nd op g n = Some (needed nd op (edge_rel g) n)"
proof -
  obtain s where "walked (Descendents hc g n) = Some s" "set (set_List s) = ((edge_rel g)\<^sup>+)\<inverse> `` {n}"
    by (rule walked_Descendents[OF assms, of n])
  then show ?thesis
    by (auto simp: prune_keeps_def needed_def needed_temporary_def list_ex_iff set_UpEdges[OF assms(2)] split: option.splits)
qed

section \<open>Passes\<close>

text \<open>The list of candidates holds each vertex once, and the graph is what is left of the one at the start.\<close>

definition prune_inv :: "('v \<Rightarrow> 'h) \<Rightarrow> ('h, 'v) graph \<Rightarrow> ('h, 'v) graph \<Rightarrow> 'v list \<Rightarrow> bool" where
  "prune_inv hc g0 g nodes \<longleftrightarrow> graph_wf hc g \<and> distinct nodes \<and> set nodes = vertex_set g \<and> induced g0 (vertex_set g) g"

text \<open>Whatever part of the first set holds only vertices it needs is in the second.\<close>

definition prune_safe :: "('v, 'p) node_ops \<Rightarrow> walkOperation \<Rightarrow> ('h, 'v) graph \<Rightarrow> 'v set \<Rightarrow> 'v set \<Rightarrow> bool" where
  "prune_safe nd op g0 A B \<longleftrightarrow> (\<forall>S \<subseteq> A. (\<forall>v \<in> S. needed nd op (edge_rel g0 \<inter> S \<times> S) v) \<longrightarrow> S \<subseteq> B)"

lemma prune_safe_refl: "prune_safe nd op g0 A A"
  by (simp add: prune_safe_def)

lemma prune_safe_trans: "prune_safe nd op g0 A B \<Longrightarrow> prune_safe nd op g0 B C \<Longrightarrow> prune_safe nd op g0 A C"
  by (simp add: prune_safe_def)

lemma swap_out:
  assumes "i < length nodes" "distinct nodes"
  shows "distinct (butlast (nodes[i := last nodes]))" and "set (butlast (nodes[i := last nodes])) = set nodes - {nodes ! i}"
proof -
  have "nodes \<noteq> []" using assms(1) by auto
  then obtain xs x where nodes: "nodes = xs @ [x]" by (cases nodes rule: rev_cases) auto
  have "distinct (butlast (nodes[i := last nodes])) \<and> set (butlast (nodes[i := last nodes])) = set nodes - {nodes ! i}"
  proof (cases "i < length xs")
    case True
    then have "butlast (nodes[i := last nodes]) = xs[i := x]" by (simp add: nodes list_update_append)
    moreover have "distinct xs" "x \<notin> set xs" using assms(2) by (simp_all add: nodes)
    moreover from this True have "set (xs[i := x]) = insert x (set xs - {xs ! i})" by (rule_tac set_update_distinct)
    moreover have "xs ! i \<noteq> x" using True \<open>x \<notin> set xs\<close> nth_mem by blast
    ultimately show ?thesis using True by (auto simp: nodes nth_append distinct_list_update)
  next
    case False
    then have "i = length xs" using assms(1) by (simp add: nodes)
    then show ?thesis using assms(2) by (simp add: nodes)
  qed
  then show "distinct (butlast (nodes[i := last nodes]))" "set (butlast (nodes[i := last nodes])) = set nodes - {nodes ! i}" by simp_all
qed

lemma prune_inv_Remove:
  assumes "inj hc" "prune_inv hc g0 g nodes" "i < length nodes"
  shows "prune_inv hc g0 (graph_Remove hc g (nodes ! i)) (butlast (nodes[i := last nodes]))"
  using assms graph_Remove_spec[OF assms(1), of g "nodes ! i"] swap_out[OF assms(3)]
  by (auto simp: prune_inv_def induced_def)

lemma prune_pass_removed: "prune_pass hc nd op g nodes i removed = Some (g', nodes', removed') \<Longrightarrow> removed \<Longrightarrow> removed'"
proof (induction hc nd op g nodes i removed rule: prune_pass.induct)
  case (1 hc nd op g nodes i removed)
  then show ?case by (subst (asm) (3) prune_pass.simps) (auto split: if_splits option.splits bool.splits)
qed

lemma prune_pass_subset:
  assumes "inj hc" "prune_inv hc g0 g nodes" "prune_pass hc nd op g nodes i removed = Some (g', nodes', removed')"
  shows "vertex_set g' \<subseteq> vertex_set g"
  using assms
proof (induction hc nd op g nodes i removed rule: prune_pass.induct)
  case (1 hc nd op g nodes i removed)
  have wf: "graph_wf hc g" using "1.prems"(2) by (simp add: prune_inv_def)
  consider (stop) "\<not> i < length nodes" | (keep) "i < length nodes" "prune_keeps hc nd op g (nodes ! i) = Some True"
    | (drop) "i < length nodes" "prune_keeps hc nd op g (nodes ! i) = Some False"
    using prune_keeps_needed[OF "1.prems"(1) wf, of nd op "nodes ! i"] by (cases "needed nd op (edge_rel g) (nodes ! i)") auto
  then show ?case
  proof cases
    case stop
    then show ?thesis using "1.prems"(3) by (subst (asm) prune_pass.simps) simp
  next
    case keep
    then have "prune_pass hc nd op g nodes (Suc i) removed = Some (g', nodes', removed')"
      using "1.prems"(3) by (subst (asm) prune_pass.simps) simp
    then show ?thesis using "1.IH"(1)[OF keep _ "1.prems"(1,2)] by simp
  next
    case drop
    then have "prune_pass hc nd op (graph_Remove hc g (nodes ! i)) (butlast (nodes[i := last nodes])) i True = Some (g', nodes', removed')"
      using "1.prems"(3) by (subst (asm) prune_pass.simps) simp
    then show ?thesis
      using "1.IH"(2)[OF drop _ "1.prems"(1) prune_inv_Remove[OF "1.prems"(1,2) drop(1)]] graph_Remove_spec(3)[OF "1.prems"(1) wf] by auto
  qed
qed

lemma prune_pass_spec:
  assumes "inj hc" "prune_inv hc g0 g nodes"
  shows "\<exists>g' nodes' removed'. prune_pass hc nd op g nodes i removed = Some (g', nodes', removed') \<and> prune_inv hc g0 g' nodes' \<and>
    prune_safe nd op g0 (vertex_set g) (vertex_set g') \<and>
    (\<not> removed' \<longrightarrow> g' = g \<and> (\<forall>j. i \<le> j \<and> j < length nodes \<longrightarrow> needed nd op (edge_rel g) (nodes ! j)))"
  using assms
proof (induction hc nd op g nodes i removed rule: prune_pass.induct)
  case (1 hc nd op g nodes i removed)
  have wf: "graph_wf hc g" and ind: "edge_rel g = edge_rel g0 \<inter> vertex_set g \<times> vertex_set g"
    using "1.prems"(2) by (simp_all add: prune_inv_def induced_def)
  note keeps = prune_keeps_needed[OF "1.prems"(1) wf, of nd op "nodes ! i"]
  consider (stop) "\<not> i < length nodes" | (keep) "i < length nodes" "needed nd op (edge_rel g) (nodes ! i)"
    | (drop) "i < length nodes" "\<not> needed nd op (edge_rel g) (nodes ! i)" by blast
  then show ?case
  proof cases
    case stop
    then show ?thesis using "1.prems" prune_safe_refl by (subst prune_pass.simps) auto
  next
    case keep
    then have eq: "prune_pass hc nd op g nodes i removed = prune_pass hc nd op g nodes (Suc i) removed"
      using keeps by (subst prune_pass.simps) simp
    have K: "prune_keeps hc nd op g (nodes ! i) = Some True" using keeps keep(2) by simp
    obtain g' nodes' removed' where r: "prune_pass hc nd op g nodes (Suc i) removed = Some (g', nodes', removed')" "prune_inv hc g0 g' nodes'"
      "prune_safe nd op g0 (vertex_set g) (vertex_set g')"
      "\<not> removed' \<longrightarrow> g' = g \<and> (\<forall>j. Suc i \<le> j \<and> j < length nodes \<longrightarrow> needed nd op (edge_rel g) (nodes ! j))"
      using "1.IH"(1)[OF keep(1) K _ "1.prems"] by blast
    have "\<not> removed' \<longrightarrow> g' = g \<and> (\<forall>j. i \<le> j \<and> j < length nodes \<longrightarrow> needed nd op (edge_rel g) (nodes ! j))"
      using r(4) keep(2) by (metis Suc_leI le_neq_implies_less)
    then show ?thesis unfolding eq using r(1-3) by blast
  next
    case drop
    have K: "prune_keeps hc nd op g (nodes ! i) = Some False" using keeps drop(2) by simp
    let ?g = "graph_Remove hc g (nodes ! i)" and ?nodes = "butlast (nodes[i := last nodes])"
    have eq: "prune_pass hc nd op g nodes i removed = prune_pass hc nd op ?g ?nodes i True"
      using keeps drop by (subst prune_pass.simps) simp
    have inv: "prune_inv hc g0 ?g ?nodes" by (rule prune_inv_Remove[OF "1.prems" drop(1)])
    obtain g' nodes' removed' where r: "prune_pass hc nd op ?g ?nodes i True = Some (g', nodes', removed')" "prune_inv hc g0 g' nodes'"
      "prune_safe nd op g0 (vertex_set ?g) (vertex_set g')"
      "\<not> removed' \<longrightarrow> g' = ?g"
      using "1.IH"(2)[OF drop(1) K _ "1.prems"(1) inv] by blast
    have sub: "S \<subseteq> vertex_set ?g" if S: "S \<subseteq> vertex_set g" "\<forall>v \<in> S. needed nd op (edge_rel g0 \<inter> S \<times> S) v" for S
    proof -
      have "edge_rel g0 \<inter> S \<times> S \<subseteq> edge_rel g" using S(1) ind by auto
      then have "nodes ! i \<in> S \<Longrightarrow> needed nd op (edge_rel g) (nodes ! i)" using S(2) by (blast intro: needed_mono[rotated])
      then have "nodes ! i \<notin> S" using drop(2) by blast
      then show ?thesis using S(1) by (auto simp: graph_Remove_spec[OF "1.prems"(1) wf])
    qed
    have "prune_safe nd op g0 (vertex_set g) (vertex_set ?g)" unfolding prune_safe_def by (intro allI impI) (rule sub)
    then have "prune_safe nd op g0 (vertex_set g) (vertex_set g')" using r(3) by (rule prune_safe_trans)
    moreover have "removed'" using prune_pass_removed[OF r(1)] by simp
    ultimately show ?thesis unfolding eq using r(1,2) by blast
  qed
qed

section \<open>The fixpoint\<close>

lemma prune_loop_spec:
  assumes "inj hc" "prune_inv hc g0 g nodes"
  shows "\<exists>g' nodes'. prune_loop hc nd op g nodes = Some g' \<and> prune_inv hc g0 g' nodes' \<and>
    (\<forall>v \<in> vertex_set g'. needed nd op (edge_rel g') v) \<and> vertex_set g' \<subseteq> vertex_set g \<and>
    prune_safe nd op g0 (vertex_set g) (vertex_set g')"
  using assms
proof (induction hc nd op g nodes rule: prune_loop.induct)
  case (1 hc nd op g nodes)
  obtain g1 nodes1 removed where r: "prune_pass hc nd op g nodes 0 False = Some (g1, nodes1, removed)" "prune_inv hc g0 g1 nodes1"
    "prune_safe nd op g0 (vertex_set g) (vertex_set g1)"
    "\<not> removed \<longrightarrow> g1 = g \<and> (\<forall>j. 0 \<le> j \<and> j < length nodes \<longrightarrow> needed nd op (edge_rel g) (nodes ! j))"
    using prune_pass_spec[OF "1.prems", of nd op 0 False] by blast
  show ?case
  proof (cases removed)
    case True
    then have eq: "prune_loop hc nd op g nodes = prune_loop hc nd op g1 nodes1" using r(1) by (subst prune_loop.simps) simp
    have sub: "vertex_set g1 \<subseteq> vertex_set g" using r(2) "1.prems"(2) prune_pass_subset[OF "1.prems" r(1)] by blast
    obtain g' nodes' where "prune_loop hc nd op g1 nodes1 = Some g'" "prune_inv hc g0 g' nodes'"
      "\<forall>v \<in> vertex_set g'. needed nd op (edge_rel g') v" "vertex_set g' \<subseteq> vertex_set g1"
      "prune_safe nd op g0 (vertex_set g1) (vertex_set g')"
      using "1.IH"[OF r(1) refl refl True "1.prems"(1) r(2)] by blast
    then show ?thesis unfolding eq using sub r(3) prune_safe_trans by blast
  next
    case False
    then have g1: "g1 = g" and all: "\<forall>j < length nodes. needed nd op (edge_rel g) (nodes ! j)" using r(4) by auto
    have "\<forall>v \<in> vertex_set g. needed nd op (edge_rel g) v"
      using all "1.prems"(2) by (metis in_set_conv_nth prune_inv_def)
    moreover have "prune_loop hc nd op g nodes = Some g" using r(1) False g1 by (subst prune_loop.simps) simp
    ultimately show ?thesis using "1.prems"(2) prune_safe_refl by blast
  qed
qed

text \<open>
  C15: Pruning ends.  What it leaves is the largest part of the graph in which every vertex is needed: a temporary value that
  something still refers to, an expander of something that is still there, a provider with something below it that uses it,
  or a vertex of another kind.  So it removes everything that is not needed, nothing that is, and the outcome does not depend
  on the order of the vertices.
\<close>

theorem pruneUnusedNodes_greatest:
  assumes "inj hc" "graph_wf hc g" "graph_closed g" "op \<in> {walkPlanDestroy, walkDestroy, walkApply}"
  shows "\<exists>g'. pruneUnusedNodesTransformer hc nd op g = Some g' \<and> graph_wf hc g' \<and> induced g (vertex_set g') g' \<and>
    vertex_set g' = \<Union> {S. S \<subseteq> vertex_set g \<and> (\<forall>v \<in> S. needed nd op (edge_rel g \<inter> S \<times> S) v)} \<and>
    (\<forall>v \<in> vertex_set g'. needed nd op (edge_rel g') v)"
proof -
  have inv: "prune_inv hc g g (graph_Vertices g)"
    using assms(2,3) distinct_graph_Vertices[OF assms(2)] by (auto simp: prune_inv_def induced_def graph_closed_def)
  obtain g' nodes' where r: "prune_loop hc nd op g (graph_Vertices g) = Some g'" "prune_inv hc g g' nodes'"
    "\<forall>v \<in> vertex_set g'. needed nd op (edge_rel g') v" "vertex_set g' \<subseteq> vertex_set g"
    "prune_safe nd op g (vertex_set g) (vertex_set g')"
    using prune_loop_spec[OF assms(1) inv, of nd op] by blast
  have ind: "edge_rel g' = edge_rel g \<inter> vertex_set g' \<times> vertex_set g'" "graph_wf hc g'" "induced g (vertex_set g') g'"
    using r(2) by (auto simp: prune_inv_def induced_def)
  have "vertex_set g' \<in> {S. S \<subseteq> vertex_set g \<and> (\<forall>v \<in> S. needed nd op (edge_rel g \<inter> S \<times> S) v)}"
    using r(3,4) ind(1) by auto
  then have "vertex_set g' = \<Union> {S. S \<subseteq> vertex_set g \<and> (\<forall>v \<in> S. needed nd op (edge_rel g \<inter> S \<times> S) v)}"
    using r(5) unfolding prune_safe_def by blast
  then show ?thesis using r(1,3) ind(2,3) assms(4) by (auto simp: pruneUnusedNodesTransformer_def)
qed

text \<open>An example: the vertices of the diamond are temporary values, and only the vertex 3 refers to others.\<close>

definition ex_prune_nodes :: "(nat, unit) node_ops" where
  "ex_prune_nodes = ex_nodes\<lparr>nd_TemporaryValue := (\<lambda>v. Some (\<lambda>_. v \<noteq> 3)), nd_Referencer := (\<lambda>v. v = 3)\<rparr>"

theorem pruneUnusedNodes_greatest_witness:
  "\<exists>g'. pruneUnusedNodesTransformer id ex_prune_nodes walkApply diamond = Some g' \<and> vertex_set g' = {3, 4}"
proof -
  have needed: "needed ex_prune_nodes walkApply E v \<longleftrightarrow> v = 3 \<or> (3, v) \<in> E" for E v
    by (auto simp: needed_def ex_prune_nodes_def)
  obtain g' where g': "pruneUnusedNodesTransformer id ex_prune_nodes walkApply diamond = Some g'" "induced diamond (vertex_set g') g'"
    "vertex_set g' = \<Union> {S. S \<subseteq> vertex_set diamond \<and> (\<forall>v \<in> S. needed ex_prune_nodes walkApply (edge_rel diamond \<inter> S \<times> S) v)}"
    "\<forall>v \<in> vertex_set g'. needed ex_prune_nodes walkApply (edge_rel g') v"
    using pruneUnusedNodes_greatest[OF inj_on_id diamond_spec(1) diamond_closed, of walkApply ex_prune_nodes] by blast
  have "{3, 4} \<in> {S. S \<subseteq> vertex_set diamond \<and> (\<forall>v \<in> S. needed ex_prune_nodes walkApply (edge_rel diamond \<inter> S \<times> S) v)}"
    by (simp add: needed diamond_spec)
  then have "{3, 4} \<subseteq> vertex_set g'" unfolding g'(3) by (rule Union_upper)
  moreover have "vertex_set g' \<subseteq> {3, 4}" using g'(2,4) by (auto simp: needed induced_def diamond_spec)
  ultimately show ?thesis using g'(1) by blast
qed

interpretation prune_tr: graph_transformer hc "pruneUnusedNodesTransformer hc nd op" for hc :: "'v \<Rightarrow> 'h" and nd op
proof
  fix g :: "('h, 'v) graph"
  assume a: "inj hc" "graph_wf hc g" "graph_closed g"
  have inv: "prune_inv hc g g (graph_Vertices g)"
    using a distinct_graph_Vertices[OF a(2)] by (auto simp: prune_inv_def induced_def graph_closed_def)
  show "\<exists>g'. pruneUnusedNodesTransformer hc nd op g = Some g' \<and> graph_wf hc g' \<and> graph_closed g'"
    using prune_loop_spec[OF a(1) inv, of nd op] a
    by (auto simp: pruneUnusedNodesTransformer_def prune_inv_def induced_def graph_closed_def)
qed

end
