(* ===== verification/Graph_Destroy_Props.thy ===== *)
theory Graph_Destroy_Props
  imports Graph_Prune_Props
begin

text \<open>
  The edges that order destruction: a resource is destroyed only after everything that, according to the state, depends on it.
\<close>

section \<open>Steps that add edges\<close>

definition full_destroy :: "walkOperation \<Rightarrow> bool" where
  "full_destroy op \<longleftrightarrow> op = walkDestroy \<or> op = walkPlanDestroy"

text \<open>
  A step adds at most the edges of a set; it adds all of them in a full destroy, and when no cycle can arise.
\<close>

definition adds :: "('v \<Rightarrow> 'h) \<Rightarrow> walkOperation \<Rightarrow> ('v \<times> 'v) set \<Rightarrow> ('h, 'v) graph \<Rightarrow> ('h, 'v) graph \<Rightarrow> bool" where
  "adds hc op N g g' \<longleftrightarrow> graph_wf hc g' \<and> vertex_set g' = vertex_set g \<and> edge_rel g' \<subseteq> edge_rel g \<union> N \<and>
     (full_destroy op \<or> acyclic (edge_rel g \<union> N) \<longrightarrow> edge_rel g' = edge_rel g \<union> N)"

lemma adds_none: "graph_wf hc g \<Longrightarrow> adds hc op {} g g"
  by (simp add: adds_def)

lemma adds_trans:
  assumes "adds hc op M g g1" "adds hc op N g1 g2"
  shows "adds hc op (M \<union> N) g g2"
proof -
  have "edge_rel g2 = edge_rel g \<union> (M \<union> N)" if "full_destroy op \<or> acyclic (edge_rel g \<union> (M \<union> N))"
  proof -
    have "full_destroy op \<or> acyclic (edge_rel g \<union> M)" using that by (auto intro: acyclic_subset)
    then have g1: "edge_rel g1 = edge_rel g \<union> M" using assms(1) by (auto simp: adds_def)
    then have "full_destroy op \<or> acyclic (edge_rel g1 \<union> N)" using that by (simp add: Un_assoc)
    then show ?thesis using assms(2) g1 by (auto simp: adds_def)
  qed
  then show ?thesis using assms by (auto simp: adds_def)
qed

lemma adds_closed: "adds hc op N g g' \<Longrightarrow> graph_closed g \<Longrightarrow> N \<subseteq> vertex_set g \<times> vertex_set g \<Longrightarrow> graph_closed g'"
  by (auto simp: adds_def graph_closed_def)

lemma adds_fold_opt:
  assumes "\<And>x g. x \<in> set xs \<Longrightarrow> graph_wf hc g \<Longrightarrow> graph_closed g \<Longrightarrow> vertex_set g = V \<Longrightarrow> \<exists>g'. f x g = Some g' \<and> adds hc op (N x) g g'"
    and "\<And>x. x \<in> set xs \<Longrightarrow> N x \<subseteq> V \<times> V" "graph_wf hc g" "graph_closed g" "vertex_set g = V"
  shows "\<exists>g'. fold_opt f xs g = Some g' \<and> adds hc op (\<Union>x \<in> set xs. N x) g g'"
  using assms
proof (induction xs arbitrary: g)
  case (Cons x xs)
  obtain g1 where g1: "f x g = Some g1" "adds hc op (N x) g g1" using Cons.prems(1)[of x g] Cons.prems(3-5) by auto
  have ok: "graph_wf hc g1" "graph_closed g1" "vertex_set g1 = V"
    using g1(2) adds_closed[OF g1(2)] Cons.prems(2)[of x] Cons.prems(4,5) by (auto simp: adds_def)
  have "\<exists>g2. fold_opt f xs g1 = Some g2 \<and> adds hc op (\<Union>x \<in> set xs. N x) g1 g2"
  proof (rule Cons.IH)
    show "\<exists>g'. f y g = Some g' \<and> adds hc op (N y) g g'" if "y \<in> set xs" "graph_wf hc g" "graph_closed g" "vertex_set g = V" for y g
      using Cons.prems(1)[of y g] that by simp
    show "N y \<subseteq> V \<times> V" if "y \<in> set xs" for y using Cons.prems(2)[of y] that by simp
  qed (rule ok)+
  then show ?case using g1 adds_trans[OF g1(2)] by auto
qed (simp add: adds_none)

lemma adds_foldl:
  assumes "\<And>x g. x \<in> set xs \<Longrightarrow> graph_wf hc g \<Longrightarrow> adds hc op (N x) g (f g x)" "graph_wf hc g"
  shows "adds hc op (\<Union>x \<in> set xs. N x) g (foldl f g xs)"
  using assms
proof (induction xs arbitrary: g)
  case (Cons x xs)
  have 1: "adds hc op (N x) g (f g x)" using Cons.prems by simp
  then have "adds hc op (\<Union>x \<in> set xs. N x) (f g x) (foldl f (f g x) xs)" using Cons.IH Cons.prems(1) by (simp add: adds_def)
  then show ?case using adds_trans[OF 1] by simp
qed (simp add: adds_none)

lemma adds_Connect: "inj hc \<Longrightarrow> graph_wf hc g \<Longrightarrow> adds hc op {(u, v)} g (graph_Connect hc g (BasicEdge u v))"
  using graph_Connect_spec[of hc g "BasicEdge u v"] by (simp add: adds_def)

lemma adds_Connect_if:
  "inj hc \<Longrightarrow> graph_wf hc g \<Longrightarrow> adds hc op {e. e = (u, v) \<and> P} g (if P then graph_Connect hc g (BasicEdge u v) else g)"
  using adds_Connect[of hc g op u v] adds_none[of hc g op] by (cases P) simp_all

lemma Cycles_acyclic:
  assumes "graph_wf hc g" "graph_closed g"
  shows "\<exists>cs. Cycles hc g = Some cs \<and> (acyclic (edge_rel g) \<longrightarrow> cs = [])"
proof -
  from StronglyConnected_partition[OF assms] obtain sccs where
    s: "StronglyConnected hc g = Some sccs" "distinct (concat sccs)" "set (concat sccs) = vertex_set g"
      "\<forall>c \<in> set sccs. scc_class (edge_rel g) (set c)" by blast
  have "Domain (edge_rel g) \<subseteq> vertex_set g" using assms(2) by (auto simp: graph_closed_def)
  then have "acyclic (edge_rel g) \<longrightarrow> (\<forall>c \<in> set sccs. \<not> length c > 1)" using acyclic_components[OF s(3,2,4)] by blast
  then show ?thesis using s(1) by (simp add: Cycles_def filter_empty_conv)
qed

lemma tryInterProvider_adds:
  assumes "inj hc" "graph_wf hc g" "graph_closed g" "u \<in> vertex_set g" "v \<in> vertex_set g"
  shows "\<exists>g'. tryInterProviderDestroyEdge hc nd pq ps op u v g = Some g' \<and> adds hc op {(u, v)} g g'"
proof -
  let ?g = "graph_Connect hc g (BasicEdge u v)"
  note c = graph_Connect_spec[OF assms(1,2), of "BasicEdge u v"] and a = adds_Connect[OF assms(1,2), of op u v]
  obtain cs where cs: "Cycles hc ?g = Some cs" "acyclic (edge_rel ?g) \<longrightarrow> cs = []"
    using Cycles_acyclic[OF c(1)] adds_closed[OF a assms(3)] assms(4,5) by auto
  have rem: "adds hc op {(u, v)} g (graph_RemoveEdge hc ?g (BasicEdge u v))" if "cs \<noteq> []" "\<not> full_destroy op"
    using that cs(2) c graph_RemoveEdge_spec[OF assms(1) c(1), of "BasicEdge u v"] by (auto simp: adds_def)
  have full: "full_destroy op \<longleftrightarrow> op = walkDestroy \<or> op = walkPlanDestroy" by (simp add: full_destroy_def)
  show ?thesis using a cs(1) rem
    by (auto simp: tryInterProviderDestroyEdge_def Let_def full split: option.splits)
qed

section \<open>The index of creators and destroyers\<close>

definition participates :: "('p, 'mk, 'ps) Changes option \<Rightarrow> AbsResourceInstance \<Rightarrow> bool" where
  "participates changes addr \<longleftrightarrow>
     (case changes of
        None \<Rightarrow> True
      | Some c \<Rightarrow> (\<exists>rc. ResourceInstance_change c addr = Some rc \<and> chs_Action (rcs_ChangeSrc rc) \<notin> {NoOp, Open}))"

definition destroys :: "('v, 'p) node_ops \<Rightarrow> 'v \<Rightarrow> AbsResourceInstance \<Rightarrow> bool" where
  "destroys nd v a \<longleftrightarrow> nd_Destroyer nd v = Some (Some a)"

text \<open>A vertex that only creates or updates an object, for which a change is planned that does something.\<close>

definition applies :: "('v, 'p) node_ops \<Rightarrow> ('p, 'mk, 'ps) Changes option \<Rightarrow> 'v \<Rightarrow> AbsResourceInstance \<Rightarrow> bool" where
  "applies nd changes v a \<longleftrightarrow> nd_Destroyer nd v = None \<and> nd_Creator nd v = Some (Some a) \<and> participates changes a"

lemma index_get_add: "index_get (index_add k v m) k' = (if k' = k then index_get m k @ [v] else index_get m k')"
  by (simp add: index_get_def index_add_def gomap_simps)

lemma index_values: "gmap_ok m \<Longrightarrow> set (concat (map snd m)) = (\<Union>k. set (index_get m k))"
  by (force simp: index_get_def gmap_ok_def split: option.splits dest: map_of_SomeD)

definition index_spec :: "('v, 'p) node_ops \<Rightarrow> ('p, 'mk, 'ps) Changes option \<Rightarrow> 'v set \<Rightarrow> 'v destroy_index \<Rightarrow> bool" where
  "index_spec nd changes V ix \<longleftrightarrow>
     gmap_ok (di_destroyers ix) \<and> gmap_ok (di_creators ix) \<and>
     (\<forall>k. set (index_get (di_destroyers ix) k) = {v \<in> V. \<exists>a. destroys nd v a \<and> ari_String a = k}) \<and>
     (\<forall>k. set (index_get (di_destroyersByResource ix) k) = {v \<in> V. \<exists>a. destroys nd v a \<and> cr_String (ari_ConfigResource a) = k}) \<and>
     (\<forall>k. set (index_get (di_creators ix) k) = {v \<in> V. \<exists>a. applies nd changes v a \<and> cr_String (ari_ConfigResource a) = k})"

lemma index_add_ok: "gmap_ok m \<Longrightarrow> gmap_ok (index_add k v m)"
  by (simp add: index_add_def gomap_simps)

lemma index_vertex_spec:
  assumes "index_spec nd changes V ix" "nd_Destroyer nd v \<noteq> None \<or> nd_Creator nd v \<noteq> Some None"
  shows "\<exists>ix'. index_vertex nd changes v ix = Some ix' \<and> index_spec nd changes (insert v V) ix'"
proof -
  consider (nothing) "nd_Destroyer nd v = Some None" | (destroys) a where "nd_Destroyer nd v = Some (Some a)"
    | (neither) "nd_Destroyer nd v = None" "nd_Creator nd v = None" | (creates) a where "nd_Destroyer nd v = None" "nd_Creator nd v = Some (Some a)"
    using assms(2) by (metis option.exhaust)
  then show ?thesis
  proof cases
    case (destroys a)
    then show ?thesis using assms(1)
      by (auto simp: index_vertex_def index_spec_def index_get_add index_add_ok destroys_def applies_def ar_Config_Containing)
  next
    case (creates a)
    let ?added = "ix\<lparr>di_creators := index_add (cr_String (ar_Config (ari_ContainingResource a))) v (di_creators ix)\<rparr>"
    have "index_vertex nd changes v ix = Some (if participates changes a then ?added else ix)"
      using creates by (auto simp: index_vertex_def participates_def Let_def split: option.splits)
    moreover have "index_spec nd changes (insert v V) (if participates changes a then ?added else ix)" using assms(1) creates
      by (auto simp: index_spec_def index_get_add index_add_ok destroys_def applies_def ar_Config_Containing)
    ultimately show ?thesis by blast
  qed (use assms(1) in \<open>auto simp: index_vertex_def index_spec_def destroys_def applies_def\<close>)
qed

lemma index_fold_spec:
  assumes "index_spec nd changes V ix" "\<forall>v \<in> set vs. nd_Destroyer nd v \<noteq> None \<or> nd_Creator nd v \<noteq> Some None"
  shows "\<exists>ix'. fold_opt (index_vertex nd changes) vs ix = Some ix' \<and> index_spec nd changes (V \<union> set vs) ix'"
  using assms
proof (induction vs arbitrary: V ix)
  case (Cons v vs)
  obtain ix1 where "index_vertex nd changes v ix = Some ix1" "index_spec nd changes (insert v V) ix1"
    using index_vertex_spec[OF Cons.prems(1)] Cons.prems(2) by auto
  then show ?case using Cons.IH[of "insert v V" ix1] Cons.prems(2) by simp
qed simp

section \<open>The edges of the transformer\<close>

definition addresses_valid :: "('v, 'p) node_ops \<Rightarrow> 'v set \<Rightarrow> bool" where
  "addresses_valid nd V \<longleftrightarrow>
     (\<forall>v \<in> V. (\<forall>a. nd_Destroyer nd v = Some (Some a) \<or> nd_Creator nd v = Some (Some a) \<longrightarrow> ari_valid a) \<and>
       (\<forall>r \<in> set (nd_StateDependencies nd v). cr_valid r))"

text \<open>An object is created or updated after the destruction of the old one.\<close>

definition own_edges :: "('v, 'p) node_ops \<Rightarrow> 'v set \<Rightarrow> ('v \<times> 'v) set" where
  "own_edges nd V = {(c, d). c \<in> V \<and> d \<in> V \<and> (\<exists>a. nd_Creator nd c = Some (Some a) \<and> destroys nd d a)}"

text \<open>An object is created or updated after the destruction of what it depends on.\<close>

definition creator_edges :: "('v, 'p) node_ops \<Rightarrow> ('p, 'mk, 'ps) Changes option \<Rightarrow> 'v set \<Rightarrow> ('v \<times> 'v) set" where
  "creator_edges nd changes V = {(c, d). c \<in> V \<and> d \<in> V \<and> (\<exists>a. applies nd changes c a) \<and> nd_ResourceInstance nd c \<noteq> None \<and>
     (\<exists>a. destroys nd d a \<and> ari_ConfigResource a \<in> set (nd_StateDependencies nd c)) \<and> \<not> inDifferentInstancesOfSameModule nd c d}"

text \<open>What an object depends on is destroyed, or changed, after the destruction of the object.\<close>

definition destroyer_edges :: "('v, 'p) node_ops \<Rightarrow> ('p, 'mk, 'ps) Changes option \<Rightarrow> 'v set \<Rightarrow> ('v \<times> 'v) set" where
  "destroyer_edges nd changes V = {(x, d). x \<in> V \<and> d \<in> V \<and> (\<exists>a. destroys nd d a) \<and> nd_ResourceInstance nd d \<noteq> None \<and>
     (\<exists>a. (destroys nd x a \<or> applies nd changes x a) \<and> ari_ConfigResource a \<in> set (nd_StateDependencies nd d)) \<and>
     \<not> inDifferentInstancesOfSameModule nd x d}"

lemma ConfigResource_valid: "ari_valid a \<Longrightarrow> cr_valid (ari_ConfigResource a)"
  using valid_conversions(3,4) by (simp add: ar_Config_Containing[symmetric])

lemma resource_key:
  assumes "addresses_valid nd V" "v \<in> V" "u \<in> V" "destroys nd v a \<or> applies nd changes v a" "r \<in> set (nd_StateDependencies nd u)"
  shows "cr_String (ari_ConfigResource a) = cr_String r \<longleftrightarrow> ari_ConfigResource a = r"
  using assms by (intro cr_String_inj ConfigResource_valid) (auto simp: addresses_valid_def destroys_def applies_def)

lemma own_adds:
  assumes "inj hc" "index_spec nd changes V ix" "addresses_valid nd V" "v \<in> V" "graph_wf hc g"
  shows "adds hc op {(c, d) \<in> own_edges nd V. c = v} g (connect_own_destroyers hc nd ix g v)"
proof (cases "\<exists>a. nd_Creator nd v = Some (Some a)")
  case True
  then obtain a where a: "nd_Creator nd v = Some (Some a)" by blast
  have "set (index_get (di_destroyers ix) (ari_String a)) = {d \<in> V. destroys nd d a}"
    using assms(2-4) a by (auto simp: index_spec_def addresses_valid_def destroys_def ari_String_inj)
  then have "{(c, d) \<in> own_edges nd V. c = v} = (\<Union>d \<in> set (index_get (di_destroyers ix) (ari_String a)). {(v, d)})"
    using a assms(4) by (auto simp: own_edges_def)
  moreover have "connect_own_destroyers hc nd ix g v =
      foldl (\<lambda>g a_d. graph_Connect hc g (BasicEdge v a_d)) g (index_get (di_destroyers ix) (ari_String a))"
    by (simp add: connect_own_destroyers_def a)
  moreover have "adds hc op (\<Union>d \<in> set (index_get (di_destroyers ix) (ari_String a)). {(v, d)}) g
      (foldl (\<lambda>g a_d. graph_Connect hc g (BasicEdge v a_d)) g (index_get (di_destroyers ix) (ari_String a)))"
    by (rule adds_foldl) (simp_all add: adds_Connect assms(1,5))
  ultimately show ?thesis by simp
next
  case False
  then have no: "connect_own_destroyers hc nd ix g v = g" "{(c, d) \<in> own_edges nd V. c = v} = {}"
    by (auto simp: connect_own_destroyers_def own_edges_def split: option.splits)
  then show ?thesis unfolding no using adds_none[OF assms(5)] by simp
qed

lemma creator_adds:
  assumes "inj hc" "index_spec nd changes V ix" "addresses_valid nd V" "c \<in> V" "applies nd changes c a" "graph_wf hc g"
  shows "adds hc op {(x, d) \<in> creator_edges nd changes V. x = c} g (connect_creator hc nd ix g c)"
proof (cases "nd_ResourceInstance nd c = None")
  case True
  then have no: "connect_creator hc nd ix g c = g" "{(x, d) \<in> creator_edges nd changes V. x = c} = {}"
    by (auto simp: connect_creator_def creator_edges_def)
  then show ?thesis unfolding no using adds_none[OF assms(6)] by simp
next
  case False
  let ?ds = "\<lambda>r. index_get (di_destroyersByResource ix) (cr_String r)"
  have ds: "set (?ds r) = {d \<in> V. \<exists>a. destroys nd d a \<and> ari_ConfigResource a = r}" if "r \<in> set (nd_StateDependencies nd c)" for r
    using assms(2) resource_key[OF assms(3) _ assms(4) _ that] by (auto simp: index_spec_def)
  have "{(x, d) \<in> creator_edges nd changes V. x = c} =
      (\<Union>r \<in> set (nd_StateDependencies nd c). \<Union>d \<in> set (?ds r). {e. e = (c, d) \<and> \<not> inDifferentInstancesOfSameModule nd c d})"
    using False assms(4,5) ds by (auto simp: creator_edges_def)
  moreover have "adds hc op (\<Union>r \<in> set (nd_StateDependencies nd c). \<Union>d \<in> set (?ds r). {e. e = (c, d) \<and> \<not> inDifferentInstancesOfSameModule nd c d}) g
      (connect_creator hc nd ix g c)"
    unfolding connect_creator_def if_not_P[OF False]
    by (intro adds_foldl adds_Connect_if assms(1,6))
  ultimately show ?thesis by simp
qed

lemma dependency_adds:
  assumes "inj hc" "graph_wf hc g" "graph_closed g" "vertex_set g = V" "x \<in> V" "d \<in> V"
  shows "\<exists>g'. connect_dependency hc nd pq ps op d x g = Some g' \<and> adds hc op {e. e = (x, d) \<and> \<not> inDifferentInstancesOfSameModule nd x d} g g'"
  using tryInterProvider_adds[OF assms(1-3), of x d nd pq ps op] adds_none[OF assms(2)] assms(4-6)
  by (cases "inDifferentInstancesOfSameModule nd x d") (auto simp: connect_dependency_def)

lemma dependencies_add:
  assumes "inj hc" "graph_wf hc g" "graph_closed g" "vertex_set g = V" "set xs \<subseteq> V" "d \<in> V"
  shows "\<exists>g'. fold_opt (connect_dependency hc nd pq ps op d) xs g = Some g' \<and>
    adds hc op (\<Union>x \<in> set xs. {e. e = (x, d) \<and> \<not> inDifferentInstancesOfSameModule nd x d}) g g'"
proof (rule adds_fold_opt[where V = V])
  show "\<exists>g'. connect_dependency hc nd pq ps op d x g = Some g' \<and> adds hc op {e. e = (x, d) \<and> \<not> inDifferentInstancesOfSameModule nd x d} g g'"
    if "x \<in> set xs" "graph_wf hc g" "graph_closed g" "vertex_set g = V" for x g
    using that(1) assms(5) by (intro dependency_adds[OF assms(1) that(2-4) _ assms(6)]) auto
  show "{e. e = (x, d) \<and> \<not> inDifferentInstancesOfSameModule nd x d} \<subseteq> V \<times> V" if "x \<in> set xs" for x using that assms(5,6) by auto
qed (rule assms)+

lemma destroyer_adds:
  assumes "inj hc" "index_spec nd changes V ix" "addresses_valid nd V" "d \<in> V" "destroys nd d b"
    and "graph_wf hc g" "graph_closed g" "vertex_set g = V"
  shows "\<exists>g'. connect_destroyer hc nd pq ps op ix d g = Some g' \<and> adds hc op {(x, y) \<in> destroyer_edges nd changes V. y = d} g g'"
proof (cases "nd_ResourceInstance nd d = None")
  case True
  then have no: "connect_destroyer hc nd pq ps op ix d g = Some g" "{(x, y) \<in> destroyer_edges nd changes V. y = d} = {}"
    by (auto simp: connect_destroyer_def destroyer_edges_def)
  then show ?thesis unfolding no using adds_none[OF assms(6)] by simp
next
  case False
  let ?ds = "\<lambda>r. index_get (di_destroyersByResource ix) (cr_String r)" and ?cs = "\<lambda>r. index_get (di_creators ix) (cr_String r)"
  let ?e = "\<lambda>x. {e. e = (x, d) \<and> \<not> inDifferentInstancesOfSameModule nd x d}"
  let ?N = "\<lambda>r. (\<Union>x \<in> set (?ds r). ?e x) \<union> (\<Union>x \<in> set (?cs r). ?e x)"
  have sub: "set (?ds r) \<subseteq> V" "set (?cs r) \<subseteq> V" for r using assms(2) by (auto simp: index_spec_def)
  have sets: "set (?ds r) = {x \<in> V. \<exists>a. destroys nd x a \<and> ari_ConfigResource a = r}"
    "set (?cs r) = {x \<in> V. \<exists>a. applies nd changes x a \<and> ari_ConfigResource a = r}" if "r \<in> set (nd_StateDependencies nd d)" for r
    using assms(2) resource_key[OF assms(3) _ assms(4) _ that] by (auto simp: index_spec_def)
  have "{(x, y) \<in> destroyer_edges nd changes V. y = d} = (\<Union>r \<in> set (nd_StateDependencies nd d). ?N r)"
    using False assms(4,5) sets by (auto simp: destroyer_edges_def) blast
  moreover have "\<exists>g'. connect_destroyer hc nd pq ps op ix d g = Some g' \<and> adds hc op (\<Union>r \<in> set (nd_StateDependencies nd d). ?N r) g g'"
    unfolding connect_destroyer_def if_not_P[OF False]
  proof (rule adds_fold_opt[where V = V])
    fix r g
    assume g: "graph_wf hc g" "graph_closed g" "vertex_set g = V"
    obtain g1 where g1: "fold_opt (connect_dependency hc nd pq ps op d) (?ds r) g = Some g1" "adds hc op (\<Union>x \<in> set (?ds r). ?e x) g g1"
      using dependencies_add[OF assms(1) g sub(1) assms(4)] by blast
    have ok: "graph_wf hc g1" "vertex_set g1 = V" "graph_closed g1"
      using g1(2) g(3) adds_closed[OF g1(2) g(2)] sub(1)[of r] assms(4) by (auto simp: adds_def)
    obtain g2 where g2: "fold_opt (connect_dependency hc nd pq ps op d) (?cs r) g1 = Some g2" "adds hc op (\<Union>x \<in> set (?cs r). ?e x) g1 g2"
      using dependencies_add[OF assms(1) ok(1,3,2) sub(2) assms(4)] by blast
    show "\<exists>g'. (case fold_opt (connect_dependency hc nd pq ps op d) (?ds r) g of None \<Rightarrow> None
        | Some g \<Rightarrow> fold_opt (connect_dependency hc nd pq ps op d) (?cs r) g) = Some g' \<and> adds hc op (?N r) g g'"
      using g1(1) g2(1) adds_trans[OF g1(2) g2(2)] by simp
  next
    show "?N r \<subseteq> V \<times> V" for r using sub[of r] assms(4) by auto
  qed (rule assms)+
  ultimately show ?thesis by simp
qed

section \<open>The transformer\<close>

text \<open>
  C10: The destroy-edge transformer ends, keeps the vertices, and adds no edges but these: from the vertex that creates or
  updates an object to the vertices that destroy it; from one that applies a change to those that destroy what its object
  depended on; and to a vertex that destroys an object, from those that destroy or change what this object depends on.
  Dependencies are those recorded in the state, and vertices in different instances of the same module are not joined.  In a
  full destroy, and whenever the old and these edges together have no cycle, it adds all of them and removes none, in whatever
  order it ranges over its maps.
\<close>

theorem DestroyEdgeTransformer_edges:
  assumes "inj hc" "graph_wf hc g" "graph_closed g" "addresses_valid nd (vertex_set g)"
    and "\<forall>v \<in> vertex_set g. nd_Creator nd v \<noteq> Some None" "\<forall>m. set (visit m) = set m"
  shows "\<exists>g'. DestroyEdgeTransformer hc nd pq ps visit changes op g = Some g' \<and> graph_wf hc g' \<and> vertex_set g' = vertex_set g \<and>
    (let N = own_edges nd (vertex_set g) \<union> creator_edges nd changes (vertex_set g) \<union> destroyer_edges nd changes (vertex_set g) in
     edge_rel g' \<subseteq> edge_rel g \<union> N \<and> (full_destroy op \<or> acyclic (edge_rel g \<union> N) \<longrightarrow> edge_rel g' = edge_rel g \<union> N))"
proof -
  let ?V = "vertex_set g"
  have empty: "index_spec nd changes {} \<lparr>di_destroyers = [], di_creators = [], di_destroyersByResource = []\<rparr>"
    by (simp add: index_spec_def index_get_def gmap_ok_def)
  obtain ix where ix: "fold_opt (index_vertex nd changes) (graph_Vertices g) \<lparr>di_destroyers = [], di_creators = [], di_destroyersByResource = []\<rparr> = Some ix"
    "index_spec nd changes ?V ix" using index_fold_spec[OF empty, of "graph_Vertices g"] assms(5) by auto
  have visited: "set (concat (map snd (visit m))) = set (concat (map snd m))" for m using assms(6) by simp
  have cs: "set (concat (map snd (visit (di_creators ix)))) = {v \<in> ?V. \<exists>a. applies nd changes v a}"
    and ds: "set (concat (map snd (visit (di_destroyers ix)))) = {v \<in> ?V. \<exists>a. destroys nd v a}"
    unfolding visited using ix(2) by (auto simp: index_spec_def index_values simp del: set_concat)
  have *: "adds hc op (own_edges nd ?V \<union> creator_edges nd changes ?V \<union> destroyer_edges nd changes ?V) g g' \<Longrightarrow> ?thesis"
    if "DestroyEdgeTransformer hc nd pq ps visit changes op g = Some g'" for g' using that by (auto simp: adds_def Let_def)
  show ?thesis
  proof (cases "length (di_destroyers ix) = 0")
    case True
    then have "\<not> destroys nd v a" if "v \<in> ?V" for v a using ix(2) that by (auto simp: index_spec_def index_get_def)
    then have "own_edges nd ?V \<union> creator_edges nd changes ?V \<union> destroyer_edges nd changes ?V = {}"
      by (auto simp: own_edges_def creator_edges_def destroyer_edges_def)
    then show ?thesis using *[of g] adds_none[OF assms(2), of op] ix(1) True by (simp add: DestroyEdgeTransformer_def)
  next
    case False
    let ?g1 = "foldl (connect_own_destroyers hc nd ix) g (graph_Vertices g)"
    let ?g2 = "foldl (connect_creator hc nd ix) ?g1 (concat (map snd (visit (di_creators ix))))"
    have "adds hc op (\<Union>v \<in> set (graph_Vertices g). {(c, d) \<in> own_edges nd ?V. c = v}) g ?g1"
      using own_adds[OF assms(1) ix(2) assms(4)] by (intro adds_foldl assms(2)) simp
    moreover have "(\<Union>v \<in> set (graph_Vertices g). {(c, d) \<in> own_edges nd ?V. c = v}) = own_edges nd ?V" by (auto simp: own_edges_def)
    ultimately have 1: "adds hc op (own_edges nd ?V) g ?g1" by simp
    have "adds hc op (\<Union>v \<in> set (concat (map snd (visit (di_creators ix)))). {(c, d) \<in> creator_edges nd changes ?V. c = v}) ?g1 ?g2"
    proof (rule adds_foldl)
      show "adds hc op {(c, d) \<in> creator_edges nd changes ?V. c = v} h (connect_creator hc nd ix h v)"
        if "v \<in> set (concat (map snd (visit (di_creators ix))))" "graph_wf hc h" for v h
        using that(1) creator_adds[OF assms(1) ix(2) assms(4) _ _ that(2)] unfolding cs by blast
      show "graph_wf hc ?g1" using 1 by (simp add: adds_def)
    qed
    moreover have "(\<Union>v \<in> set (concat (map snd (visit (di_creators ix)))). {(c, d) \<in> creator_edges nd changes ?V. c = v}) = creator_edges nd changes ?V"
      unfolding cs by (auto simp: creator_edges_def)
    ultimately have 2: "adds hc op (own_edges nd ?V \<union> creator_edges nd changes ?V) g ?g2" using adds_trans[OF 1] by simp
    have ok: "graph_wf hc ?g2" "vertex_set ?g2 = ?V" "graph_closed ?g2"
      using 2 adds_closed[OF 2 assms(3)] by (auto simp: adds_def own_edges_def creator_edges_def)
    have "\<exists>g3. fold_opt (connect_destroyer hc nd pq ps op ix) (concat (map snd (visit (di_destroyers ix)))) ?g2 = Some g3 \<and>
        adds hc op (\<Union>v \<in> set (concat (map snd (visit (di_destroyers ix)))). {(x, y) \<in> destroyer_edges nd changes ?V. y = v}) ?g2 g3"
    proof (rule adds_fold_opt[where V = ?V])
      show "\<exists>h'. connect_destroyer hc nd pq ps op ix v h = Some h' \<and> adds hc op {(x, y) \<in> destroyer_edges nd changes ?V. y = v} h h'"
        if "v \<in> set (concat (map snd (visit (di_destroyers ix))))" "graph_wf hc h" "graph_closed h" "vertex_set h = ?V" for v h
        using that(1) destroyer_adds[OF assms(1) ix(2) assms(4) _ _ that(2-4)] unfolding ds by blast
      show "{(x, y) \<in> destroyer_edges nd changes ?V. y = v} \<subseteq> ?V \<times> ?V" for v by (auto simp: destroyer_edges_def)
    qed (rule ok)+
    moreover have all: "(\<Union>v \<in> set (concat (map snd (visit (di_destroyers ix)))). {(x, y) \<in> destroyer_edges nd changes ?V. y = v}) = destroyer_edges nd changes ?V"
      unfolding ds by (auto simp: destroyer_edges_def)
    ultimately obtain g3 where g3: "fold_opt (connect_destroyer hc nd pq ps op ix) (concat (map snd (visit (di_destroyers ix)))) ?g2 = Some g3"
      "adds hc op (destroyer_edges nd changes ?V) ?g2 g3" unfolding all by (elim exE conjE) (rule that)
    show ?thesis using *[of g3, OF _ adds_trans[OF 2 g3(2)]] g3(1) ix(1) False by (simp add: DestroyEdgeTransformer_def)
  qed
qed

text \<open>An example: the vertex 2 destroys an object that depends on the one that the vertex 4 destroys.\<close>

definition ex_object :: "string \<Rightarrow> AbsResourceInstance" where
  "ex_object n = \<lparr>ari_Module = [], ari_Resource = \<lparr>ri_Resource = \<lparr>res_Mode = ManagedResourceMode, res_Type = ''t'', res_Name = n\<rparr>, ri_Key = NoKey\<rparr>\<rparr>"

definition ex_destroyers :: "(nat, unit) node_ops" where
  "ex_destroyers = ex_nodes\<lparr>
     nd_ResourceInstance := (\<lambda>v. if v = 2 then Some (ex_object ''b'') else if v = 4 then Some (ex_object ''a'') else None),
     nd_Destroyer := (\<lambda>v. if v = 2 then Some (Some (ex_object ''b'')) else if v = 4 then Some (Some (ex_object ''a'')) else None),
     nd_StateDependencies := (\<lambda>v. if v = 2 then [ari_ConfigResource (ex_object ''a'')] else [])\<rparr>"

lemma ex_object_valid: "ari_valid (ex_object ''a'')" "ari_valid (ex_object ''b'')"
  by (simp_all add: ex_object_def ari_valid_def mi_valid_def res_valid_def valid_name_def ri_IsPlaceholder_def)

theorem DestroyEdgeTransformer_edges_witness:
  "\<exists>g'. DestroyEdgeTransformer id ex_destroyers (\<lambda>_. []) (\<lambda>_. []) (\<lambda>m. m) (None :: (unit, unit, unit) Changes option) walkDestroy diamond = Some g' \<and>
     (4, 2) \<in> edge_rel g'"
proof -
  have valid: "addresses_valid ex_destroyers (vertex_set diamond)"
    using ex_object_valid ConfigResource_valid[OF ex_object_valid(1)] by (auto simp: addresses_valid_def ex_destroyers_def ex_nodes_def split: if_splits)
  have "\<forall>v \<in> vertex_set diamond. nd_Creator ex_destroyers v \<noteq> Some None" by (simp add: ex_destroyers_def ex_nodes_def)
  moreover have "(4, 2) \<in> destroyer_edges ex_destroyers (None :: (unit, unit, unit) Changes option) (vertex_set diamond)"
    by (simp add: destroyer_edges_def destroys_def applies_def ex_destroyers_def ex_nodes_def diamond_spec(2) inDifferentInstancesOfSameModule_def
        ex_object_def HasSameModule_def mi_Equal_iff)
  ultimately show ?thesis
    using DestroyEdgeTransformer_edges[OF inj_on_id diamond_spec(1) diamond_closed valid, of "\<lambda>m. m" "\<lambda>_. []" "\<lambda>_. []"
      "None :: (unit, unit, unit) Changes option" walkDestroy]
    by (auto simp: Let_def full_destroy_def)
qed

end
