(* ===== verification/Graph_State.thy ===== *)
theory Graph_State
  imports Graph_Build_Props State_Props
begin

text \<open>
  The vertices that come from the state (\<^verbatim>\<open>internal/tofu\<close>: \<^verbatim>\<open>transform_state.go\<close>, \<^verbatim>\<open>transform_orphan_resource.go\<close>): one
  for every object, or for every current object whose resource the configuration no longer has.

  The functions that make the vertices are given by the graph builder; each call gives a new vertex for an address.
\<close>

section \<open>Definitions\<close>

definition add_objects ::
  "('v \<Rightarrow> 'h) \<Rightarrow> (AbsResourceInstance \<Rightarrow> 'v) option \<Rightarrow> (AbsResourceInstance \<Rightarrow> DeposedKey \<Rightarrow> 'v) option \<Rightarrow>
   AbsResourceInstance \<Rightarrow> 'm ResourceInstance_state \<Rightarrow> ('h, 'v) graph \<Rightarrow> ('h, 'v) graph" where
  "add_objects hc concreteCurrent concreteDeposed addr i g =
     (let g = (case (is_Current i, concreteCurrent) of (Some _, Some f) \<Rightarrow> graph_Add hc g (f addr) | _ \<Rightarrow> g)
      in case concreteDeposed of
           None \<Rightarrow> g
         | Some f \<Rightarrow> foldl (\<lambda>g (dk, _). graph_Add hc g (f addr dk)) g (is_Deposed i))"

definition StateTransformer ::
  "('v \<Rightarrow> 'h) \<Rightarrow> (AbsResourceInstance \<Rightarrow> 'v) option \<Rightarrow> (AbsResourceInstance \<Rightarrow> DeposedKey \<Rightarrow> 'v) option \<Rightarrow>
   ('p, 'w, 'm, 'c) State option \<Rightarrow> ('h, 'v) graph \<Rightarrow> ('h, 'v) graph" where
  "StateTransformer hc concreteCurrent concreteDeposed state g =
     (case state of
        None \<Rightarrow> g
      | Some s \<Rightarrow>
          foldl (\<lambda>g (_, ms).
            foldl (\<lambda>g (_, rs).
              foldl (\<lambda>g (key, i). add_objects hc concreteCurrent concreteDeposed (ar_Instance (rs_Addr rs) key) i g)
                g (rs_Instances rs))
              g (ms_Resources ms))
            g (st_Modules s))"

definition orphan_resource :: "'pv Module_cfg option \<Rightarrow> AbsResource \<Rightarrow> bool" where
  "orphan_resource m addr = (case m of None \<Rightarrow> True | Some m \<Rightarrow> ResourceByAddr m (ar_Resource addr) = None)"

definition orphans_of_module ::
  "('v \<Rightarrow> 'h) \<Rightarrow> (AbsResourceInstance \<Rightarrow> 'v) \<Rightarrow> 'pv Config \<Rightarrow> ('p, 'w, 'm) Module_state \<Rightarrow> ('h, 'v) graph \<Rightarrow> ('h, 'v) graph" where
  "orphans_of_module hc concrete config ms g =
     (let m = map_option cfg_Module (DescendentForInstance config (ms_Addr ms))
      in foldl (\<lambda>g (_, rs).
           if orphan_resource m (rs_Addr rs) then
             foldl (\<lambda>g (key, i). case is_Current i of None \<Rightarrow> g | Some _ \<Rightarrow> graph_Add hc g (concrete (ar_Instance (rs_Addr rs) key)))
               g (rs_Instances rs)
           else g)
         g (ms_Resources ms))"

text \<open>Without a configuration the transformer panics.\<close>

definition OrphanResourceInstanceTransformer ::
  "('v \<Rightarrow> 'h) \<Rightarrow> (AbsResourceInstance \<Rightarrow> 'v) \<Rightarrow> bool \<Rightarrow> ('p, 'w, 'm, 'c) State option \<Rightarrow> 'pv Config option \<Rightarrow> ('h, 'v) graph \<Rightarrow>
   ('h, 'v) graph option" where
  "OrphanResourceInstanceTransformer hc concrete skip state config g =
     (if skip then Some g
      else case state of
          None \<Rightarrow> Some g
        | Some s \<Rightarrow>
            (case config of
               None \<Rightarrow> None
             | Some cfg \<Rightarrow> Some (foldl (\<lambda>g (_, ms). orphans_of_module hc concrete cfg ms g) g (st_Modules s))))"

section \<open>The instances of a state\<close>

lemma ms_instances:
  assumes "ms_wf ms"
  shows "(\<exists>er \<in> set (ms_Resources ms). \<exists>ei \<in> set (rs_Instances (snd er)). a = ar_Instance (rs_Addr (snd er)) (fst ei) \<and> i = snd ei) \<longleftrightarrow>
    ari_Module a = ms_Addr ms \<and> ri_ok (ari_Resource a) \<and> ms_ResourceInstance ms (ari_Resource a) = Some i" (is "?L \<longleftrightarrow> ?R")
proof
  assume ?L
  then obtain er ei where e: "er \<in> set (ms_Resources ms)" "ei \<in> set (rs_Instances (snd er))" "a = ar_Instance (rs_Addr (snd er)) (fst ei)" "i = snd ei" by blast
  have w: "rs_wf (ms_Addr ms) (ar_Resource (rs_Addr (snd er))) (snd er)" using assms e(1) by (auto simp: ms_wf_def)
  then have addr: "ar_Module (rs_Addr (snd er)) = ms_Addr ms" "gmap_ok (rs_Instances (snd er))" "\<not> IsPlaceholder (fst ei)"
    using e(2) by (cases "rs_Addr (snd er)"; auto simp: rs_wf_def res_Absolute_def insts_wf_def)+
  have "gmap_get (rs_Instances (snd er)) (fst ei) = Some (snd ei)" using e(2) addr(2) by (auto simp: gmap_ok_def)
  then show ?R using ms_Resources_iff[OF assms, of er] e addr
    by (auto simp: ar_Instance_def res_Instance_def ri_ok_def ms_ResourceInstance_def rs_Instance_def)
next
  assume R: ?R
  then obtain rs where r: "ms_Resource ms (ri_Resource (ari_Resource a)) = Some rs" "gmap_get (rs_Instances rs) (ri_Key (ari_Resource a)) = Some i"
    by (auto simp: ms_ResourceInstance_def rs_Instance_def split: option.splits)
  have v: "res_valid (ri_Resource (ari_Resource a))" using R by (simp add: ri_ok_def)
  have addr: "rs_Addr rs = \<lparr>ar_Module = ms_Addr ms, ar_Resource = ri_Resource (ari_Resource a)\<rparr>"
    using ms_Resource_wf[OF assms r(1) v] by (simp add: rs_wf_def res_Absolute_def)
  have "(res_String (ri_Resource (ari_Resource a)), rs) \<in> set (ms_Resources ms)"
    using ms_Resources_iff[OF assms, of "(res_String (ri_Resource (ari_Resource a)), rs)"] r(1) v addr by simp
  moreover have "a = ar_Instance (rs_Addr rs) (ri_Key (ari_Resource a))"
    using R by (cases a; cases "ari_Resource a") (simp add: addr ar_Instance_def res_Instance_def)
  moreover have "(ri_Key (ari_Resource a), i) \<in> set (rs_Instances rs)" using r(2) by (rule map_of_SomeD)
  ultimately show ?L by (intro bexI[of _ "(res_String (ri_Resource (ari_Resource a)), rs)"] bexI[of _ "(ri_Key (ari_Resource a), i)"]) simp_all
qed

lemma st_instances:
  assumes "st_wf s"
  shows "(\<exists>em \<in> set (st_Modules s). ari_Module a = ms_Addr (snd em) \<and> ri_ok (ari_Resource a) \<and> ms_ResourceInstance (snd em) (ari_Resource a) = Some i) \<longleftrightarrow>
    ari_valid a \<and> st_ResourceInstance s a = Some i" (is "?L \<longleftrightarrow> ?R")
proof
  assume ?L
  then obtain em where e: "em \<in> set (st_Modules s)" "ari_Module a = ms_Addr (snd em)" "ri_ok (ari_Resource a)"
    "ms_ResourceInstance (snd em) (ari_Resource a) = Some i" by blast
  then show ?R using st_Modules_iff[OF assms, of em]
    by (auto simp: st_ResourceInstance_def ari_valid_def ri_ok_def ri_IsPlaceholder_def)
next
  assume R: ?R
  then have v: "mi_valid (ari_Module a)" "ri_ok (ari_Resource a)" using ari_valid_parts[of a] by auto
  from R obtain ms where ms: "st_Module s (ari_Module a) = Some ms" "ms_ResourceInstance ms (ari_Resource a) = Some i"
    by (auto simp: st_ResourceInstance_def split: option.splits)
  note w = st_Module_wf[OF assms v(1) ms(1)]
  then have "(mi_String (ari_Module a), ms) \<in> set (st_Modules s)"
    using st_Modules_iff[OF assms, of "(mi_String (ari_Module a), ms)"] ms(1) v(1) by simp
  then show ?L using w(2) v(2) ms(2) by force
qed

section \<open>Adding vertices\<close>

text \<open>A step that adds vertices, and a loop of such steps.\<close>

definition adds_vertices :: "('v \<Rightarrow> 'h) \<Rightarrow> 'v set \<Rightarrow> ('h, 'v) graph \<Rightarrow> ('h, 'v) graph \<Rightarrow> bool" where
  "adds_vertices hc A g g' \<longleftrightarrow> graph_wf hc g' \<and> edge_rel g' = edge_rel g \<and> vertex_set g' = vertex_set g \<union> A"

lemma adds_vertices_none: "graph_wf hc g \<Longrightarrow> adds_vertices hc {} g g"
  by (simp add: adds_vertices_def)

lemma adds_vertices_Add: "inj hc \<Longrightarrow> graph_wf hc g \<Longrightarrow> adds_vertices hc {v} g (graph_Add hc g v)"
  by (simp add: adds_vertices_def graph_Add_spec)

lemma adds_vertices_trans: "adds_vertices hc A g g1 \<Longrightarrow> adds_vertices hc B g1 g2 \<Longrightarrow> adds_vertices hc (A \<union> B) g g2"
  by (auto simp: adds_vertices_def)

lemma adds_vertices_foldl:
  assumes "\<And>x g. x \<in> set xs \<Longrightarrow> graph_wf hc g \<Longrightarrow> adds_vertices hc (A x) g (f g x)" "graph_wf hc g"
  shows "adds_vertices hc (\<Union>x \<in> set xs. A x) g (foldl f g xs)"
  using assms
proof (induction xs arbitrary: g)
  case (Cons x xs)
  have 1: "adds_vertices hc (A x) g (f g x)" using Cons.prems by simp
  then have "adds_vertices hc (\<Union>x \<in> set xs. A x) (f g x) (foldl f (f g x) xs)" using Cons.IH Cons.prems(1) by (simp add: adds_vertices_def)
  then show ?case using adds_vertices_trans[OF 1] by simp
qed (simp add: adds_vertices_none)

definition object_vertices ::
  "(AbsResourceInstance \<Rightarrow> 'v) option \<Rightarrow> (AbsResourceInstance \<Rightarrow> DeposedKey \<Rightarrow> 'v) option \<Rightarrow> AbsResourceInstance \<Rightarrow> 'm ResourceInstance_state \<Rightarrow> 'v set" where
  "object_vertices cur dep a i =
     {v. \<exists>f. cur = Some f \<and> GetGeneration i CurrentGen \<noteq> None \<and> v = f a} \<union>
     {v. \<exists>f k. dep = Some f \<and> GetGeneration i (DeposedGen k) \<noteq> None \<and> v = f a k}"

lemma add_objects_adds:
  assumes "inj hc" "graph_wf hc g"
  shows "adds_vertices hc (object_vertices cur dep a i) g (add_objects hc cur dep a i g)"
proof -
  define h where "h = (case (is_Current i, cur) of (Some _, Some f) \<Rightarrow> graph_Add hc g (f a) | _ \<Rightarrow> g)"
  have 1: "adds_vertices hc {v. \<exists>f. cur = Some f \<and> is_Current i \<noteq> None \<and> v = f a} g h"
    unfolding h_def using adds_vertices_Add[OF assms] adds_vertices_none[OF assms(2)] by (cases cur; cases "is_Current i") simp_all
  then have wf: "graph_wf hc h" by (simp add: adds_vertices_def)
  have keys: "k \<in> fst ` set (is_Deposed i) \<longleftrightarrow> gmap_get (is_Deposed i) k \<noteq> None" for k by (simp add: map_of_eq_None_iff)
  have 2: "adds_vertices hc {v. \<exists>f k. dep = Some f \<and> gmap_get (is_Deposed i) k \<noteq> None \<and> v = f a k} h (add_objects hc cur dep a i g)"
  proof (cases dep)
    case None
    then show ?thesis using adds_vertices_none[OF wf] by (simp add: add_objects_def h_def)
  next
    case (Some f)
    have "adds_vertices hc (\<Union>x \<in> set (is_Deposed i). {f a (fst x)}) h (foldl (\<lambda>g (dk, _). graph_Add hc g (f a dk)) h (is_Deposed i))"
      by (rule adds_vertices_foldl) (auto simp: wf intro: adds_vertices_Add[OF assms(1)])
    moreover have "(\<Union>x \<in> set (is_Deposed i). {f a (fst x)}) = {v. \<exists>f k. dep = Some f \<and> gmap_get (is_Deposed i) k \<noteq> None \<and> v = f a k}"
      unfolding keys[symmetric] using Some by auto
    ultimately show ?thesis using Some by (simp add: add_objects_def h_def)
  qed
  show ?thesis using adds_vertices_trans[OF 1 2] by (simp add: object_vertices_def)
qed

section \<open>Every object has its vertex\<close>

lemma StateTransformer_adds:
  assumes "inj hc" "graph_wf hc g" "st_wf s"
  shows "adds_vertices hc (\<Union>(a, i) \<in> {(a, i). ari_valid a \<and> st_ResourceInstance s a = Some i}. object_vertices cur dep a i) g
    (StateTransformer hc cur dep (Some s) g)"
proof -
  have "adds_vertices hc (\<Union>em \<in> set (st_Modules s). \<Union>er \<in> set (ms_Resources (snd em)). \<Union>ei \<in> set (rs_Instances (snd er)).
      object_vertices cur dep (ar_Instance (rs_Addr (snd er)) (fst ei)) (snd ei)) g (StateTransformer hc cur dep (Some s) g)"
    unfolding StateTransformer_def option.case case_prod_unfold
    by (intro adds_vertices_foldl add_objects_adds assms(1,2))
  moreover have "(\<Union>em \<in> set (st_Modules s). \<Union>er \<in> set (ms_Resources (snd em)). \<Union>ei \<in> set (rs_Instances (snd er)).
      object_vertices cur dep (ar_Instance (rs_Addr (snd er)) (fst ei)) (snd ei)) =
      (\<Union>(a, i) \<in> {(a, i). \<exists>em \<in> set (st_Modules s). \<exists>er \<in> set (ms_Resources (snd em)). \<exists>ei \<in> set (rs_Instances (snd er)).
        a = ar_Instance (rs_Addr (snd er)) (fst ei) \<and> i = snd ei}. object_vertices cur dep a i)"
    by (intro equalityI subsetI) (simp_all, blast+)
  moreover have "(\<exists>em \<in> set (st_Modules s). \<exists>er \<in> set (ms_Resources (snd em)). \<exists>ei \<in> set (rs_Instances (snd er)).
      a = ar_Instance (rs_Addr (snd er)) (fst ei) \<and> i = snd ei) \<longleftrightarrow> ari_valid a \<and> st_ResourceInstance s a = Some i" for a i
    unfolding st_instances[OF assms(3), symmetric] using assms(3) ms_instances[of _ a i] by (intro bex_cong refl) (auto simp: st_wf_def)
  ultimately show ?thesis by simp
qed

lemma st_obj_Some: "st_obj s a gen \<noteq> None \<longleftrightarrow> (\<exists>i. st_ResourceInstance s a = Some i \<and> GetGeneration i gen \<noteq> None)"
  by (simp add: st_obj_def split: option.splits)

definition configured_resource :: "'pv Config \<Rightarrow> AbsResourceInstance \<Rightarrow> bool" where
  "configured_resource cfg a \<longleftrightarrow>
     (\<exists>c. DescendentForInstance cfg (ari_Module a) = Some c \<and> ResourceByAddr (cfg_Module c) (ri_Resource (ari_Resource a)) \<noteq> None)"

lemma containing: "ari_ContainingResource (ar_Instance r k) = r"
  by (simp add: ar_Instance_def res_Instance_def ari_ContainingResource_def)

lemma orphans_of_module_adds:
  assumes "inj hc" "graph_wf hc g" "ms_wf ms"
  shows "adds_vertices hc (concrete ` {a. \<exists>i. ari_Module a = ms_Addr ms \<and> ri_ok (ari_Resource a) \<and>
      ms_ResourceInstance ms (ari_Resource a) = Some i \<and> is_Current i \<noteq> None \<and> \<not> configured_resource cfg a}) g
    (orphans_of_module hc concrete cfg ms g)"
proof -
  define m where "m = map_option cfg_Module (DescendentForInstance cfg (ms_Addr ms))"
  let ?A = "\<lambda>er ei. {v. orphan_resource m (rs_Addr (snd er)) \<and> is_Current (snd ei) \<noteq> None \<and> v = concrete (ar_Instance (rs_Addr (snd er)) (fst ei))}"
  have step: "adds_vertices hc (\<Union>ei \<in> set (rs_Instances (snd er)). ?A er ei) h
      (if orphan_resource m (rs_Addr (snd er)) then
         foldl (\<lambda>g ei. case is_Current (snd ei) of None \<Rightarrow> g | Some _ \<Rightarrow> graph_Add hc g (concrete (ar_Instance (rs_Addr (snd er)) (fst ei)))) h (rs_Instances (snd er))
       else h)" if "graph_wf hc h" for er h
  proof (cases "orphan_resource m (rs_Addr (snd er))")
    case True
    have "adds_vertices hc (?A er ei) h (case is_Current (snd ei) of None \<Rightarrow> h | Some _ \<Rightarrow> graph_Add hc h (concrete (ar_Instance (rs_Addr (snd er)) (fst ei))))"
      if "graph_wf hc h" for ei h
      using adds_vertices_Add[OF assms(1) that] adds_vertices_none[OF that] True by (cases "is_Current (snd ei)") simp_all
    then show ?thesis unfolding if_P[OF True] by (rule adds_vertices_foldl[OF _ that])
  qed (simp add: adds_vertices_none that)
  have "adds_vertices hc (\<Union>er \<in> set (ms_Resources ms). \<Union>ei \<in> set (rs_Instances (snd er)). ?A er ei) g (orphans_of_module hc concrete cfg ms g)"
    unfolding orphans_of_module_def Let_def case_prod_unfold m_def[symmetric] by (intro adds_vertices_foldl step assms(2))
  moreover have "(\<Union>er \<in> set (ms_Resources ms). \<Union>ei \<in> set (rs_Instances (snd er)). ?A er ei) =
      concrete ` {a. \<exists>i. (\<exists>er \<in> set (ms_Resources ms). \<exists>ei \<in> set (rs_Instances (snd er)). a = ar_Instance (rs_Addr (snd er)) (fst ei) \<and> i = snd ei) \<and>
        is_Current i \<noteq> None \<and> orphan_resource m (ari_ContainingResource a)}"
    (is "?lhs = concrete ` ?S")
  proof (intro equalityI subsetI)
    fix v assume "v \<in> ?lhs"
    then obtain er ei where e: "er \<in> set (ms_Resources ms)" "ei \<in> set (rs_Instances (snd er))" "v \<in> ?A er ei" by blast
    then have "ar_Instance (rs_Addr (snd er)) (fst ei) \<in> ?S" using containing by force
    then show "v \<in> concrete ` ?S" using e(3) by blast
  next
    fix v assume "v \<in> concrete ` ?S"
    then obtain er ei where e: "er \<in> set (ms_Resources ms)" "ei \<in> set (rs_Instances (snd er))" "v = concrete (ar_Instance (rs_Addr (snd er)) (fst ei))"
      "is_Current (snd ei) \<noteq> None" "orphan_resource m (rs_Addr (snd er))" using containing by force
    then have "v \<in> ?A er ei" by simp
    then show "v \<in> ?lhs" using e(1,2) by blast
  qed
  moreover have "orphan_resource m (ari_ContainingResource a) \<longleftrightarrow> \<not> configured_resource cfg a" if "ari_Module a = ms_Addr ms" for a
    using that by (auto simp: orphan_resource_def configured_resource_def m_def ari_ContainingResource_def split: option.splits)
  then have "{a. \<exists>i. (ari_Module a = ms_Addr ms \<and> ri_ok (ari_Resource a) \<and> ms_ResourceInstance ms (ari_Resource a) = Some i) \<and>
        is_Current i \<noteq> None \<and> orphan_resource m (ari_ContainingResource a)} =
      {a. \<exists>i. ari_Module a = ms_Addr ms \<and> ri_ok (ari_Resource a) \<and> ms_ResourceInstance ms (ari_Resource a) = Some i \<and>
        is_Current i \<noteq> None \<and> \<not> configured_resource cfg a}" by blast
  ultimately show ?thesis unfolding ms_instances[OF assms(3)] by simp
qed

text \<open>
  C16: The vertices that a graph gets from a well-formed state are complete.  Where the builder asks for them, every current
  object and every deposed object of every instance gets its vertex; and every current object whose resource the configuration
  of its module does not declare, or whose module is gone, gets its orphan vertex, and no other object does.  Nothing else of
  the graph changes.
\<close>

theorem state_vertices_complete:
  assumes "inj hc" "graph_wf hc g" "st_wf s"
  shows "adds_vertices hc
      ({v. \<exists>f a. cur = Some f \<and> ari_valid a \<and> st_obj s a CurrentGen \<noteq> None \<and> v = f a} \<union>
       {v. \<exists>f a k. dep = Some f \<and> ari_valid a \<and> st_obj s a (DeposedGen k) \<noteq> None \<and> v = f a k}) g
      (StateTransformer hc cur dep (Some s) g) \<and>
    (\<exists>g'. OrphanResourceInstanceTransformer hc concrete False (Some s) (Some cfg) g = Some g' \<and>
      adds_vertices hc {v. \<exists>a. ari_valid a \<and> st_obj s a CurrentGen \<noteq> None \<and> \<not> configured_resource cfg a \<and> v = concrete a} g g')"
proof
  have "(\<Union>(a, i) \<in> {(a, i). ari_valid a \<and> st_ResourceInstance s a = Some i}. object_vertices cur dep a i) =
      {v. \<exists>f a. cur = Some f \<and> ari_valid a \<and> st_obj s a CurrentGen \<noteq> None \<and> v = f a} \<union>
      {v. \<exists>f a k. dep = Some f \<and> ari_valid a \<and> st_obj s a (DeposedGen k) \<noteq> None \<and> v = f a k}"
    unfolding object_vertices_def st_obj_Some by (rule set_eqI) (simp, blast)
  then show "adds_vertices hc
      ({v. \<exists>f a. cur = Some f \<and> ari_valid a \<and> st_obj s a CurrentGen \<noteq> None \<and> v = f a} \<union>
       {v. \<exists>f a k. dep = Some f \<and> ari_valid a \<and> st_obj s a (DeposedGen k) \<noteq> None \<and> v = f a k}) g
      (StateTransformer hc cur dep (Some s) g)"
    using StateTransformer_adds[OF assms, of cur dep] by simp
next
  let ?S = "\<lambda>em. {a. \<exists>i. ari_Module a = ms_Addr (snd em) \<and> ri_ok (ari_Resource a) \<and> ms_ResourceInstance (snd em) (ari_Resource a) = Some i \<and>
      is_Current i \<noteq> None \<and> \<not> configured_resource cfg a}"
  have "adds_vertices hc (\<Union>em \<in> set (st_Modules s). concrete ` ?S em) g
      (foldl (\<lambda>g em. orphans_of_module hc concrete cfg (snd em) g) g (st_Modules s))"
    by (rule adds_vertices_foldl[OF orphans_of_module_adds assms(2)]) (use assms(1,3) in \<open>auto simp: st_wf_def\<close>)
  moreover have "(\<Union>em \<in> set (st_Modules s). concrete ` ?S em) =
      {v. \<exists>a i. (\<exists>em \<in> set (st_Modules s). ari_Module a = ms_Addr (snd em) \<and> ri_ok (ari_Resource a) \<and> ms_ResourceInstance (snd em) (ari_Resource a) = Some i) \<and>
        is_Current i \<noteq> None \<and> \<not> configured_resource cfg a \<and> v = concrete a}" by blast
  moreover have "{v. \<exists>a i. (ari_valid a \<and> st_ResourceInstance s a = Some i) \<and> is_Current i \<noteq> None \<and> \<not> configured_resource cfg a \<and> v = concrete a} =
      {v. \<exists>a. ari_valid a \<and> st_obj s a CurrentGen \<noteq> None \<and> \<not> configured_resource cfg a \<and> v = concrete a}"
    unfolding st_obj_Some by auto
  ultimately show "\<exists>g'. OrphanResourceInstanceTransformer hc concrete False (Some s) (Some cfg) g = Some g' \<and>
      adds_vertices hc {v. \<exists>a. ari_valid a \<and> st_obj s a CurrentGen \<noteq> None \<and> \<not> configured_resource cfg a \<and> v = concrete a} g g'"
    unfolding st_instances[OF assms(3)] by (simp add: OrphanResourceInstanceTransformer_def case_prod_unfold)
qed

definition empty_config :: "unit Config" where
  "empty_config = Config [] \<lparr>mdc_Variables = [], mdc_Outputs = [], mdc_ModuleCalls = [], mdc_ManagedResources = [], mdc_DataResources = [],
     mdc_EphemeralResources = [], mdc_Moved = [], mdc_Removed = [], mdc_Checks = []\<rparr> []"

theorem state_vertices_complete_witness:
  "web (IntKey 0) \<in> vertex_set (StateTransformer id (Some (\<lambda>a. a)) None (Some state0) (emptyGraph :: (AbsResourceInstance, AbsResourceInstance) graph)) \<and>
   (\<exists>g'. OrphanResourceInstanceTransformer id (\<lambda>a. a) False (Some state0) (Some empty_config) (emptyGraph :: (AbsResourceInstance, AbsResourceInstance) graph) =
      Some g' \<and> web (IntKey 0) \<in> vertex_set g')"
proof -
  have gone: "\<not> configured_resource empty_config (web (IntKey 0))" by (simp add: configured_resource_def empty_config_def)
  note c = state_vertices_complete[OF inj_on_id emptyGraph_wf(1) state0_wf, of "Some (\<lambda>a. a)" None "\<lambda>a. a" empty_config]
  show ?thesis using c[THEN conjunct1] c[THEN conjunct2] gone by (auto simp: adds_vertices_def state0_obj)
qed

end
