(* ===== verification/Graph_Builders.thy ===== *)
theory Graph_Builders
  imports Graph_Destroy_Props Graph_State
begin

text \<open>
  The transformers put together: each of them keeps graphs well formed, so a builder that runs them never panics and
  returns only valid graphs.
\<close>

section \<open>The remaining transformers keep the contract\<close>

lemma invert_edge_keeps:
  assumes "inj hc" "graph_wf hc g" "graph_closed g" "v \<in> vertex_set g" "edge_S e \<in> vertex_set g"
  shows "graph_wf hc (invert_edge hc nd v g e) \<and> graph_closed (invert_edge hc nd v g e) \<and> vertex_set (invert_edge hc nd v g e) = vertex_set g"
  using assms graph_RemoveEdge_spec[OF assms(1,2), of e]
    graph_Connect_spec[OF assms(1) graph_RemoveEdge_spec(1)[OF assms(1,2)], of e "BasicEdge v (edge_S e)"]
  by (auto simp: invert_edge_def graph_closed_def)

lemma invert_edge_fold_keeps:
  assumes "inj hc" "graph_wf hc g" "graph_closed g" "v \<in> vertex_set g" "edge_S ` set es \<subseteq> vertex_set g"
  shows "graph_wf hc (foldl (invert_edge hc nd v) g es) \<and> graph_closed (foldl (invert_edge hc nd v) g es) \<and>
    vertex_set (foldl (invert_edge hc nd v) g es) = vertex_set g"
  using assms(2-5)
proof (induction es arbitrary: g)
  case (Cons e es)
  then show ?case using invert_edge_keeps[OF assms(1), of g v e nd] Cons.IH[of "invert_edge hc nd v g e"] by auto
qed simp

lemma invert_edges_keeps:
  assumes "inj hc" "graph_wf hc g" "graph_closed g" "v \<in> vertex_set g"
  shows "graph_wf hc (invert_edges hc nd cbd g v) \<and> graph_closed (invert_edges hc nd cbd g v) \<and> vertex_set (invert_edges hc nd cbd g v) = vertex_set g"
proof -
  have "edge_S ` set (graph_EdgesTo hc g v) \<subseteq> vertex_set g"
    unfolding EdgesTo_sources(1)[OF assms(1)] using assms(3) by (auto simp: graph_closed_def)
  then show ?thesis using invert_edge_fold_keeps[OF assms, of "graph_EdgesTo hc g v" nd] assms(2,3)
    by (auto simp: invert_edges_def split: option.splits)
qed

lemma invert_all_keeps:
  assumes "inj hc" "graph_wf hc g" "graph_closed g" "set vs \<subseteq> vertex_set g"
  shows "graph_wf hc (foldl (invert_edges hc nd cbd) g vs) \<and> graph_closed (foldl (invert_edges hc nd cbd) g vs)"
  using assms(2-4)
proof (induction vs arbitrary: g)
  case (Cons v vs)
  then show ?case using invert_edges_keeps[OF assms(1), of g v nd cbd] Cons.IH[of "invert_edges hc nd cbd g v"] by auto
qed simp

interpretation cbd_tr: graph_transformer hc "\<lambda>g. Some (CBDEdgeTransformer hc nd cbd g)" for hc :: "'v \<Rightarrow> 'h" and nd cbd
proof
  fix g :: "('h, 'v) graph"
  assume "inj hc" "graph_wf hc g" "graph_closed g"
  from invert_all_keeps[OF this, of "graph_Vertices g" nd cbd]
  show "\<exists>g'. Some (CBDEdgeTransformer hc nd cbd g) = Some g' \<and> graph_wf hc g' \<and> graph_closed g'" by (simp add: CBDEdgeTransformer_def)
qed

lemma induced_closed: "induced g K g' \<Longrightarrow> graph_closed g'"
  by (auto simp: induced_def graph_closed_def)

lemma targeting_selects:
  assumes "inj hc" "graph_wf hc g"
  shows "\<exists>T told D. (if length targets > 0 then selectTargetedNodes hc nd g targets else removeExcludedNodes hc nd g excludes) = Some (T, told) \<and>
    dset_wf hc T \<and> D \<subseteq> vertex_set g \<and> dset_elems T = with_outputs_spec nd g D"
proof (cases "length targets > 0")
  case True
  obtain T told where "selectTargetedNodes hc nd g targets = Some (T, told)" "dset_wf hc T"
    "dset_elems T = with_outputs_spec nd g {v \<in> vertex_set g. nodeIsTarget nd v targets}"
    using selectTargetedNodes_elems[OF assms, of nd targets] by blast
  moreover have "{v \<in> vertex_set g. nodeIsTarget nd v targets} \<subseteq> vertex_set g" by blast
  ultimately show ?thesis unfolding if_P[OF True] by blast
next
  case False
  obtain T told where "removeExcludedNodes hc nd g excludes = Some (T, told)" "dset_wf hc T"
    "dset_elems T = with_outputs_spec nd g {v \<in> vertex_set g. resource_vertex nd v \<and> v \<notin> excluded_vertices nd g excludes}"
    using removeExcludedNodes_elems[OF assms, of nd excludes] unfolding remaining_vertices_def by blast
  moreover have "{v \<in> vertex_set g. resource_vertex nd v \<and> v \<notin> excluded_vertices nd g excludes} \<subseteq> vertex_set g" by blast
  ultimately show ?thesis unfolding if_not_P[OF False] by blast
qed

interpretation target_tr: graph_transformer hc "\<lambda>g. map_option fst (TargetingTransformer hc nd targets excludes g)"
  for hc :: "'v \<Rightarrow> 'h" and nd targets excludes
proof
  fix g :: "('h, 'v) graph"
  assume a: "inj hc" "graph_wf hc g" "graph_closed g"
  obtain T told D where T: "(if length targets > 0 then selectTargetedNodes hc nd g targets else removeExcludedNodes hc nd g excludes) = Some (T, told)"
    "dset_wf hc T" "D \<subseteq> vertex_set g" "dset_elems T = with_outputs_spec nd g D"
    using targeting_selects[OF a(1,2)] by blast
  have "dset_elems T \<subseteq> vertex_set g" unfolding T(4) by (rule with_outputs_spec_vertices[OF a(3) T(3)])
  from keep_selected[OF a T(2) this] show "\<exists>g'. map_option fst (TargetingTransformer hc nd targets excludes g) = Some g' \<and> graph_wf hc g' \<and> graph_closed g'"
    using a induced_closed unfolding TargetingTransformer_def T(1) by auto
qed

section \<open>A builder\<close>

lemma built_or_invalid:
  assumes "build_steps steps g [] = Some (Inr (g', []))" "Validate hc g' = Some errs" "errs = [] \<Longrightarrow> P g'"
  shows "\<exists>r. BasicGraphBuilder_Build hc (\<lambda>g. g) steps g = Some r \<and>
    (case r of Built g' diags \<Rightarrow> diags = [] \<and> P g' | BuildInvalid errs diags \<Rightarrow> errs \<noteq> [] \<and> diags = [] | BuildFailed _ _ \<Rightarrow> False)"
  using assms by (cases "errs = []") (simp_all add: BasicGraphBuilder_Build_def)



end
