(* ===== verification/Graph_Diff.thy ===== *)
theory Graph_Diff
  imports Graph_Destroy_Props Graph_State Refactor_Config
begin

text \<open>
  The vertices of the apply graph that carry out the planned changes (\<^verbatim>\<open>internal/tofu/transform_diff.go\<close>).

  The vertices that the transformer makes are values of the vertex type: the record \<open>diff_nodes\<close> has a function for each
  kind of vertex it makes, and for each of the two interfaces it asks the vertex for an object's update for, \<open>None\<close> when
  the vertex does not implement it and otherwise the vertex after the method's call.  For the \<open>i\<close>-th change \<open>rand i\<close> is the source
  of random numbers.
\<close>

section \<open>Definitions\<close>

record ('v, 'pv) diff_nodes =
  dn_Concrete :: "AbsResourceInstance \<Rightarrow> 'v"
  dn_SetPreallocatedDeposedKey :: "'v \<Rightarrow> (DeposedKey \<Rightarrow> 'v) option"
  dn_ModifyCreateBeforeDestroy :: "'v \<Rightarrow> (bool \<Rightarrow> string + 'v) option"
  dn_Destroy :: "AbsResourceInstance \<Rightarrow> 'pv list \<Rightarrow> 'v"
  dn_DestroyDeposed :: "AbsResourceInstance \<Rightarrow> DeposedKey \<Rightarrow> 'v"
  dn_Forget :: "AbsResourceInstance \<Rightarrow> 'v"
  dn_ForgetDeposed :: "AbsResourceInstance \<Rightarrow> DeposedKey \<Rightarrow> 'v"

datatype 'v diff_error =
    InvalidDeposedChange AbsResourceInstance DeposedKey
  | ReplaceOfMissing AbsResourceInstance
  | CannotForceCBD 'v string

definition hasConfigConditions :: "'pv Config option \<Rightarrow> AbsResourceInstance \<Rightarrow> bool" where
  "hasConfigConditions config addr =
     (case config of
        None \<Rightarrow> False
      | Some c \<Rightarrow>
          (case DescendentForInstance c (ari_Module addr) of
             None \<Rightarrow> False
           | Some cfg \<Rightarrow>
               (case ResourceByAddr (cfg_Module cfg) (cr_Resource (ari_ConfigResource addr)) of
                  None \<Rightarrow> False
                | Some res \<Rightarrow> length (rcc_Preconditions res) > 0 \<or> length (rcc_Postconditions res) > 0)))"

definition resource_nodes :: "('v, 'p) node_ops \<Rightarrow> 'v list \<Rightarrow> (string, 'v list) gomap" where
  "resource_nodes nd vs =
     foldl (\<lambda>m v. case nd_ConfigResource nd v of
         None \<Rightarrow> m
       | Some r \<Rightarrow> if nd_ResourceInstance nd v \<noteq> None then m else index_add (cr_String r) v m) [] vs"

record diff_flags =
  df_update :: bool
  df_delete :: bool
  df_forget :: bool
  df_open :: bool
  df_createBeforeDestroy :: bool

definition no_flags :: diff_flags where
  "no_flags = \<lparr>df_update = False, df_delete = False, df_forget = False, df_open = False, df_createBeforeDestroy = False\<rparr>"

definition change_flags :: "'pv Config option \<Rightarrow> AbsResourceInstance \<Rightarrow> Action \<Rightarrow> diff_flags" where
  "change_flags config addr action =
     (case action of
        NoOp \<Rightarrow> no_flags\<lparr>df_update := hasConfigConditions config addr\<rparr>
      | Delete \<Rightarrow> no_flags\<lparr>df_delete := True\<rparr>
      | Forget \<Rightarrow> no_flags\<lparr>df_forget := True\<rparr>
      | ForgetThenCreate \<Rightarrow> no_flags\<lparr>df_update := True, df_forget := True\<rparr>
      | DeleteThenCreate \<Rightarrow> no_flags\<lparr>df_update := True, df_delete := True, df_createBeforeDestroy := (action = CreateThenDelete)\<rparr>
      | CreateThenDelete \<Rightarrow> no_flags\<lparr>df_update := True, df_delete := True, df_createBeforeDestroy := (action = CreateThenDelete)\<rparr>
      | Open \<Rightarrow> no_flags\<lparr>df_open := True\<rparr>
      | _ \<Rightarrow> no_flags\<lparr>df_update := True\<rparr>)"

text \<open>The key for the object that a replacement deposes.  The search for an unused one may not end, which is the outer \<open>None\<close>.\<close>

definition replace_key :: "(nat \<Rightarrow> 32 word) \<Rightarrow> ('p, 'w, 'm, 'c) State option \<Rightarrow> AbsResourceInstance \<Rightarrow> DeposedKey option option" where
  "replace_key rand state addr =
     (case state of
        None \<Rightarrow> Some (Some (NewDeposedKey (rand 0)))
      | Some s \<Rightarrow>
          (case st_ResourceInstance s addr of
             None \<Rightarrow> Some None
           | Some ris \<Rightarrow> map_option Some (findUnusedDeposedKey rand 0 (is_Deposed ris))))"

definition produceForgetNode :: "('v, 'pv) diff_nodes \<Rightarrow> AbsResourceInstance \<Rightarrow> DeposedKey \<Rightarrow> 'v" where
  "produceForgetNode dn addr deposedKey = (if deposedKey = NotDeposed then dn_Forget dn addr else dn_ForgetDeposed dn addr deposedKey)"

definition connect_resource :: "('v \<Rightarrow> 'h) \<Rightarrow> 'v \<Rightarrow> 'v list \<Rightarrow> ('h, 'v) graph \<Rightarrow> ('h, 'v) graph" where
  "connect_resource hc node rsrcNodes g = foldl (\<lambda>g rsrcNode. graph_Connect hc g (BasicEdge node rsrcNode)) g rsrcNodes"

definition add_open ::
  "('v \<Rightarrow> 'h) \<Rightarrow> ('v, 'pv) diff_nodes \<Rightarrow> (string, 'v list) gomap \<Rightarrow> AbsResourceInstance \<Rightarrow> ('h, 'v) graph \<Rightarrow> ('h, 'v) graph" where
  "add_open hc dn resourceNodes addr g =
     (let node = dn_Concrete dn addr;
          resourceContaining = ari_ContainingResource addr;
          resourceAddress = ar_String \<lparr>ar_Module = UnkeyedInstanceShim (mi_Module (ar_Module resourceContaining)), ar_Resource = ar_Resource resourceContaining\<rparr>
      in connect_resource hc node (index_get resourceNodes resourceAddress) (graph_Add hc g node))"

definition cbd_node :: "('v, 'pv) diff_nodes \<Rightarrow> DeposedKey \<Rightarrow> 'v \<Rightarrow> 'v diff_error + 'v" where
  "cbd_node dn dk node =
     (let node = (case dn_SetPreallocatedDeposedKey dn node of None \<Rightarrow> node | Some f \<Rightarrow> f dk) in
      case dn_ModifyCreateBeforeDestroy dn node of
        None \<Rightarrow> Inr node
      | Some modify \<Rightarrow> (case modify True of Inl err \<Rightarrow> Inl (CannotForceCBD node err) | Inr node \<Rightarrow> Inr node))"

definition add_update ::
  "('v \<Rightarrow> 'h) \<Rightarrow> ('v, 'pv) diff_nodes \<Rightarrow> (string, 'v list) gomap \<Rightarrow> AbsResourceInstance \<Rightarrow> DeposedKey \<Rightarrow> diff_flags \<Rightarrow> ('h, 'v) graph \<Rightarrow>
   'v diff_error + ('h, 'v) graph" where
  "add_update hc dn resourceNodes addr dk fl g =
     (case (if df_createBeforeDestroy fl then cbd_node dn dk (dn_Concrete dn addr) else Inr (dn_Concrete dn addr)) of
        Inl err \<Rightarrow> Inl err
      | Inr node \<Rightarrow>
          (let g = graph_Add hc g node;
               g = connect_resource hc node (index_get resourceNodes (ar_String (ari_ContainingResource addr))) g
           in if df_forget fl then
                (let forgetNode = produceForgetNode dn addr dk
                 in Inr (graph_Connect hc (graph_Add hc g forgetNode) (BasicEdge node forgetNode)))
              else Inr g))"

text \<open>The removed blocks are searched in the configuration without testing that there is one.\<close>

definition add_delete ::
  "('v \<Rightarrow> 'h) \<Rightarrow> ('v, 'pv) diff_nodes \<Rightarrow> 'pv Config option \<Rightarrow> AbsResourceInstance \<Rightarrow> DeposedKey \<Rightarrow> ('h, 'v) graph \<Rightarrow> ('h, 'v) graph option" where
  "add_delete hc dn config addr dk g =
     (if dk = NotDeposed then
        (case config of
           None \<Rightarrow> None
         | Some cfg \<Rightarrow> Some (graph_Add hc g (dn_Destroy dn addr (FindResourceRemovedBlockProvisioners cfg (ari_ConfigResource addr)))))
      else Some (graph_Add hc g (dn_DestroyDeposed dn addr dk)))"

definition add_vertices ::
  "('v \<Rightarrow> 'h) \<Rightarrow> ('v, 'pv) diff_nodes \<Rightarrow> 'pv Config option \<Rightarrow> (string, 'v list) gomap \<Rightarrow> AbsResourceInstance \<Rightarrow> DeposedKey \<Rightarrow> diff_flags \<Rightarrow>
   ('h, 'v) graph \<times> 'v diff_error list \<Rightarrow> (('h, 'v) graph \<times> 'v diff_error list) option" where
  "add_vertices hc dn config resourceNodes addr dk fl st =
     (case st of (g, diags) \<Rightarrow>
        (let g = (if df_open fl then add_open hc dn resourceNodes addr g else g) in
         case (if df_update fl then add_update hc dn resourceNodes addr dk fl g else Inr g) of
           Inl err \<Rightarrow> Some (g, diags @ [err])
         | Inr g \<Rightarrow>
             (case (if df_delete fl then add_delete hc dn config addr dk g else Some g) of
                None \<Rightarrow> None
              | Some g \<Rightarrow> Some (if df_forget fl \<and> \<not> df_update fl then graph_Add hc g (produceForgetNode dn addr dk) else g, diags))))"

definition diff_change ::
  "('v \<Rightarrow> 'h) \<Rightarrow> ('v, 'pv) diff_nodes \<Rightarrow> 'pv Config option \<Rightarrow> ('p, 'w, 'm, 'c) State option \<Rightarrow> (string, 'v list) gomap \<Rightarrow> (nat \<Rightarrow> 32 word) \<Rightarrow>
   ('q, 'mk, 'ps) ResourceInstanceChangeSrc \<Rightarrow> ('h, 'v) graph \<times> 'v diff_error list \<Rightarrow> (('h, 'v) graph \<times> 'v diff_error list) option" where
  "diff_change hc dn config state resourceNodes rand rc st =
     (let addr = rcs_Addr rc; dk = rcs_DeposedKey rc; action = chs_Action (rcs_ChangeSrc rc); fl = change_flags config addr action in
      if dk \<noteq> NotDeposed \<and> action \<noteq> Delete \<and> action \<noteq> NoOp \<and> action \<noteq> Forget then Some (fst st, snd st @ [InvalidDeposedChange addr dk])
      else if df_update fl \<and> df_delete fl \<and> df_createBeforeDestroy fl then
        (case replace_key rand state addr of
           None \<Rightarrow> None
         | Some None \<Rightarrow> Some (fst st, snd st @ [ReplaceOfMissing addr])
         | Some (Some dk) \<Rightarrow> add_vertices hc dn config resourceNodes addr dk fl st)
      else add_vertices hc dn config resourceNodes addr dk fl st)"

definition DiffTransformer ::
  "('v \<Rightarrow> 'h) \<Rightarrow> ('v, 'p) node_ops \<Rightarrow> ('v, 'pv) diff_nodes \<Rightarrow> 'pv Config option \<Rightarrow> ('p, 'w, 'm, 'c) State option \<Rightarrow> (nat \<Rightarrow> nat \<Rightarrow> 32 word) \<Rightarrow>
   ('q, 'mk, 'ps) Changes option \<Rightarrow> ('h, 'v) graph \<Rightarrow> (('h, 'v) graph \<times> 'v diff_error list) option" where
  "DiffTransformer hc nd dn config state rand changes g =
     (case changes of
        None \<Rightarrow> Some (g, [])
      | Some c \<Rightarrow>
          if length (chg_Resources c) = 0 then Some (g, [])
          else fold_opt (\<lambda>(i, rc). diff_change hc dn config state (resource_nodes nd (graph_Vertices g)) (rand i) rc)
            (enumerate 0 (chg_Resources c)) (g, []))"

section \<open>What a change adds\<close>

text \<open>
  The vertices, the edges and the errors that stand for one change, by its action.  \<open>k\<close> is the key reserved for the object that
  a replacement deposes, and \<open>whole\<close> gives the vertices of a whole resource.
\<close>

definition change_effect ::
  "('v, 'pv) diff_nodes \<Rightarrow> 'pv Config \<Rightarrow> (AbsResource \<Rightarrow> 'v set) \<Rightarrow> DeposedKey option \<Rightarrow> ('q, 'mk, 'ps) ResourceInstanceChangeSrc \<Rightarrow>
   'v set \<times> ('v \<times> 'v) set \<times> 'v diff_error list" where
  "change_effect dn cfg whole k rc =
     (let a = rcs_Addr rc; dk = rcs_DeposedKey rc; n = dn_Concrete dn a; own = whole (ari_ContainingResource a);
          destroy = dn_Destroy dn a (FindResourceRemovedBlockProvisioners cfg (ari_ConfigResource a))
      in if dk \<noteq> NotDeposed \<and> chs_Action (rcs_ChangeSrc rc) \<notin> {Delete, NoOp, Forget} then ({}, {}, [InvalidDeposedChange a dk])
         else case chs_Action (rcs_ChangeSrc rc) of
             NoOp \<Rightarrow> if hasConfigConditions (Some cfg) a then ({n}, {n} \<times> own, []) else ({}, {}, [])
           | Delete \<Rightarrow> ({if dk = NotDeposed then destroy else dn_DestroyDeposed dn a dk}, {}, [])
           | Forget \<Rightarrow> ({if dk = NotDeposed then dn_Forget dn a else dn_ForgetDeposed dn a dk}, {}, [])
           | ForgetThenCreate \<Rightarrow> ({n, dn_Forget dn a}, insert (n, dn_Forget dn a) ({n} \<times> own), [])
           | DeleteThenCreate \<Rightarrow> ({n, destroy}, {n} \<times> own, [])
           | CreateThenDelete \<Rightarrow>
               (case k of
                  None \<Rightarrow> ({}, {}, [ReplaceOfMissing a])
                | Some k \<Rightarrow> (case cbd_node dn k n of Inl err \<Rightarrow> ({}, {}, [err]) | Inr n \<Rightarrow> ({n, dn_DestroyDeposed dn a k}, {n} \<times> own, [])))
           | Open \<Rightarrow> ({n}, {n} \<times> whole (cr_Absolute (ari_ConfigResource a) (UnkeyedInstanceShim (cr_Module (ari_ConfigResource a)))), [])
           | _ \<Rightarrow> ({n}, {n} \<times> own, []))"

definition grows :: "('v \<Rightarrow> 'h) \<Rightarrow> 'v set \<Rightarrow> ('v \<times> 'v) set \<Rightarrow> ('h, 'v) graph \<Rightarrow> ('h, 'v) graph \<Rightarrow> bool" where
  "grows hc V E g g' \<longleftrightarrow> graph_wf hc g' \<and> vertex_set g' = vertex_set g \<union> V \<and> edge_rel g' = edge_rel g \<union> E"

lemma grows_none: "graph_wf hc g \<Longrightarrow> grows hc {} {} g g"
  by (simp add: grows_def)

lemma grows_trans: "grows hc V E g g1 \<Longrightarrow> grows hc V' E' g1 g2 \<Longrightarrow> grows hc (V \<union> V') (E \<union> E') g g2"
  by (auto simp: grows_def)

lemma grows_wf: "grows hc V E g g' \<Longrightarrow> graph_wf hc g'"
  by (simp add: grows_def)

lemma grows_Add: "inj hc \<Longrightarrow> graph_wf hc g \<Longrightarrow> grows hc {v} {} g (graph_Add hc g v)"
  by (simp add: grows_def graph_Add_spec)

lemma grows_Connect: "inj hc \<Longrightarrow> graph_wf hc g \<Longrightarrow> grows hc {} {(u, v)} g (graph_Connect hc g (BasicEdge u v))"
  by (simp add: grows_def graph_Connect_spec)

lemma grows_connect_resource:
  assumes "inj hc" "graph_wf hc g"
  shows "grows hc {} ({n} \<times> set rs) g (connect_resource hc n rs g)"
  using assms(2) unfolding connect_resource_def
proof (induction rs arbitrary: g)
  case (Cons r rs)
  note 1 = grows_Connect[OF assms(1) Cons.prems, of n r]
  have "{n} \<times> set (r # rs) = {(n, r)} \<union> {n} \<times> set rs" by auto
  then show ?case using grows_trans[OF 1 Cons.IH[OF grows_wf[OF 1]]] by simp
qed (simp add: grows_none)

lemma grows_vertex:
  assumes "inj hc" "graph_wf hc g"
  shows "grows hc {n} ({n} \<times> set rs) g (connect_resource hc n rs (graph_Add hc g n))"
  using grows_trans[OF grows_Add[OF assms, of n] grows_connect_resource[OF assms(1), of "graph_Add hc g n" n rs]] graph_Add_spec(1)[OF assms] by simp

lemma resource_nodes_get:
  "set (index_get (resource_nodes nd vs) k) = {v \<in> set vs. nd_ResourceInstance nd v = None \<and> (\<exists>c. nd_ConfigResource nd v = Some c \<and> cr_String c = k)}"
proof (induction vs rule: rev_induct)
  case (snoc v vs)
  define m where "m = resource_nodes nd vs"
  have "resource_nodes nd (vs @ [v]) = (case nd_ConfigResource nd v of
      None \<Rightarrow> m | Some r \<Rightarrow> if nd_ResourceInstance nd v \<noteq> None then m else index_add (cr_String r) v m)"
    unfolding m_def resource_nodes_def by simp
  then show ?case using snoc[folded m_def] by (cases "nd_ConfigResource nd v") (auto simp: index_get_add)
qed (simp add: resource_nodes_def index_get_def)

text \<open>
  The key that a replacement reserves: there is none exactly when the object to replace is not in the state, and otherwise no
  object of the instance is deposed under it.
\<close>

definition reserved_key :: "('p, 'w, 'm, 'c) State option \<Rightarrow> AbsResourceInstance \<Rightarrow> DeposedKey option \<Rightarrow> bool" where
  "reserved_key state a k \<longleftrightarrow>
     (k = None \<longleftrightarrow> (\<exists>s. state = Some s \<and> st_ResourceInstance s a = None)) \<and>
     (\<forall>key. k = Some key \<longrightarrow> key \<noteq> NotDeposed \<and> (\<forall>s. state = Some s \<longrightarrow> st_obj s a (DeposedGen key) = None))"

lemma NewDeposedKey_deposed: "NewDeposedKey v \<noteq> NotDeposed"
  using NewDeposedKey_length[of v] by (auto simp: NotDeposed_def)

lemma reserved_key_sound: "replace_key rand state a = Some k \<Longrightarrow> reserved_key state a k"
  by (auto simp: replace_key_def reserved_key_def NewDeposedKey_deposed st_obj_def split: option.splits dest!: findUnused_sound)

lemma replace_key_returns:
  assumes "\<And>s ris. state = Some s \<Longrightarrow> st_ResourceInstance s a = Some ris \<Longrightarrow> \<exists>n. gmap_get (is_Deposed ris) (NewDeposedKey (rand n)) = None"
  shows "\<exists>k. replace_key rand state a = Some k"
proof (cases "\<exists>s ris. state = Some s \<and> st_ResourceInstance s a = Some ris")
  case True
  then obtain s ris where s: "state = Some s" "st_ResourceInstance s a = Some ris" by blast
  obtain n where "gmap_get (is_Deposed ris) (NewDeposedKey (rand n)) = None" using assms[OF s] by blast
  then obtain k where "findUnusedDeposedKey rand 0 (is_Deposed ris) = Some k" using findUnused_returns[of "is_Deposed ris" rand 0 n] by auto
  then show ?thesis using s by (simp add: replace_key_def)
qed (auto simp: replace_key_def split: option.splits)

lemma add_update_plain:
  assumes "inj hc" "graph_wf hc g" "\<not> df_createBeforeDestroy fl" "\<not> df_forget fl"
  shows "\<exists>g'. add_update hc dn rn a dk fl g = Inr g' \<and>
    grows hc {dn_Concrete dn a} ({dn_Concrete dn a} \<times> set (index_get rn (ar_String (ari_ContainingResource a)))) g g'"
  using assms grows_vertex[OF assms(1,2)] by (simp add: add_update_def Let_def)

lemma add_update_forget:
  assumes "inj hc" "graph_wf hc g" "\<not> df_createBeforeDestroy fl" "df_forget fl"
  shows "\<exists>g'. add_update hc dn rn a NotDeposed fl g = Inr g' \<and> grows hc {dn_Concrete dn a, dn_Forget dn a}
    (insert (dn_Concrete dn a, dn_Forget dn a) ({dn_Concrete dn a} \<times> set (index_get rn (ar_String (ari_ContainingResource a))))) g g'"
proof -
  let ?n = "dn_Concrete dn a" and ?f = "dn_Forget dn a"
  let ?g1 = "connect_resource hc ?n (index_get rn (ar_String (ari_ContainingResource a))) (graph_Add hc g ?n)"
  note 1 = grows_vertex[OF assms(1,2), of ?n "index_get rn (ar_String (ari_ContainingResource a))"]
  note 2 = grows_Add[OF assms(1) grows_wf[OF 1], of ?f]
  note 3 = grows_Connect[OF assms(1) grows_wf[OF 2], of ?n ?f]
  show ?thesis using grows_trans[OF grows_trans[OF 1 2] 3] assms(3,4) by (simp add: add_update_def Let_def produceForgetNode_def insert_commute)
qed

lemma add_update_cbd:
  assumes "inj hc" "graph_wf hc g" "df_createBeforeDestroy fl" "\<not> df_forget fl" "cbd_node dn k (dn_Concrete dn a) = Inr n"
  shows "\<exists>g'. add_update hc dn rn a k fl g = Inr g' \<and> grows hc {n} ({n} \<times> set (index_get rn (ar_String (ari_ContainingResource a)))) g g'"
  using assms grows_vertex[OF assms(1,2)] by (simp add: add_update_def Let_def)

lemma grows_then_Add:
  assumes "inj hc" "grows hc V E g g1"
  shows "grows hc (insert v V) E g (graph_Add hc g1 v)"
  using grows_trans[OF assms(2) grows_Add[OF assms(1) grows_wf[OF assms(2)], of v]] by simp

lemmas flag_simps = change_flags_def no_flags_def

lemma diff_change_effect:
  assumes "inj hc" "graph_wf hc g" "chs_Action (rcs_ChangeSrc rc) = CreateThenDelete \<Longrightarrow> replace_key rand state (rcs_Addr rc) = Some k"
    and own: "set (index_get rn (ar_String (ari_ContainingResource (rcs_Addr rc)))) = whole (ari_ContainingResource (rcs_Addr rc))"
    and cfg_node: "set (index_get rn (cr_String (ari_ConfigResource (rcs_Addr rc)))) =
      whole (cr_Absolute (ari_ConfigResource (rcs_Addr rc)) (UnkeyedInstanceShim (cr_Module (ari_ConfigResource (rcs_Addr rc)))))"
  shows "\<exists>g'. diff_change hc dn (Some cfg) state rn rand rc (g, errs) = Some (g', errs @ snd (snd (change_effect dn cfg whole k rc))) \<and>
    grows hc (fst (change_effect dn cfg whole k rc)) (fst (snd (change_effect dn cfg whole k rc))) g g'"
proof -
  define a dk act where d: "a = rcs_Addr rc" "dk = rcs_DeposedKey rc" "act = chs_Action (rcs_ChangeSrc rc)"
  note g0 = grows_none[OF assms(2)]
  note plain = add_update_plain[OF assms(1,2), of "change_flags (Some cfg) a act" dn rn a dk]
  show ?thesis
  proof (cases "dk \<noteq> NotDeposed \<and> act \<notin> {Delete, NoOp, Forget}")
    case True
    then show ?thesis using g0 by (auto simp: diff_change_def change_effect_def d Let_def)
  next
    case False
    note F = this[unfolded d]
    show ?thesis
    proof (cases act)
      case NoOp
      then show ?thesis using plain g0 F own
        by (cases "hasConfigConditions (Some cfg) a") (auto simp: diff_change_def change_effect_def d Let_def flag_simps add_vertices_def)
    next
      case CreateThenDelete
      have k: "replace_key rand state a = Some k" using assms(3) CreateThenDelete by (simp add: d)
      show ?thesis
      proof (cases k)
        case None
        then show ?thesis using k CreateThenDelete F g0 by (auto simp: diff_change_def change_effect_def d Let_def flag_simps)
      next
        case (Some key)
        have key: "key \<noteq> NotDeposed" using reserved_key_sound[OF k] Some by (simp add: reserved_key_def)
        show ?thesis
        proof (cases "cbd_node dn key (dn_Concrete dn a)")
          case (Inl err)
          then show ?thesis using k Some CreateThenDelete F g0
            by (auto simp: diff_change_def change_effect_def d Let_def flag_simps add_vertices_def add_update_def)
        next
          case (Inr n)
          obtain g1 where g1: "add_update hc dn rn a key (change_flags (Some cfg) a act) g = Inr g1"
            "grows hc {n} ({n} \<times> set (index_get rn (ar_String (ari_ContainingResource a)))) g g1"
            using add_update_cbd[OF assms(1,2) _ _ Inr, of "change_flags (Some cfg) a act" rn] CreateThenDelete by (auto simp: flag_simps)
          then show ?thesis using k Some CreateThenDelete F Inr own key grows_then_Add[OF assms(1) g1(2), of "dn_DestroyDeposed dn a key"]
            by (auto simp: diff_change_def change_effect_def d Let_def flag_simps add_vertices_def add_delete_def insert_commute)
        qed
      qed
    next
      case DeleteThenCreate
      obtain g1 where g1: "add_update hc dn rn a dk (change_flags (Some cfg) a act) g = Inr g1"
        "grows hc {dn_Concrete dn a} ({dn_Concrete dn a} \<times> set (index_get rn (ar_String (ari_ContainingResource a)))) g g1"
        using plain DeleteThenCreate by (auto simp: flag_simps)
      then show ?thesis using DeleteThenCreate F own grows_then_Add[OF assms(1) g1(2), of "dn_Destroy dn a (FindResourceRemovedBlockProvisioners cfg (ari_ConfigResource a))"]
        by (auto simp: diff_change_def change_effect_def d Let_def flag_simps add_vertices_def add_delete_def insert_commute)
    next
      case ForgetThenCreate
      then show ?thesis using add_update_forget[OF assms(1,2), of "change_flags (Some cfg) a act" dn rn a] F own
        by (auto simp: diff_change_def change_effect_def d Let_def flag_simps add_vertices_def)
    next
      case Open
      have "ar_String \<lparr>ar_Module = UnkeyedInstanceShim (mi_Module (ari_Module a)), ar_Resource = ri_Resource (ari_Resource a)\<rparr> = cr_String (ari_ConfigResource a)"
        by (simp add: cr_String_shim cr_Absolute_def ari_ConfigResource_def)
      then show ?thesis using Open F cfg_node grows_vertex[OF assms(1,2), of "dn_Concrete dn a" "index_get rn (cr_String (ari_ConfigResource a))"]
        by (auto simp: diff_change_def change_effect_def d Let_def flag_simps add_vertices_def add_open_def ari_ContainingResource_def)
    qed (use plain g0 F own grows_Add[OF assms(1,2)] in
      \<open>auto simp: diff_change_def change_effect_def d Let_def flag_simps add_vertices_def add_delete_def produceForgetNode_def\<close>)
  qed
qed

section \<open>The transformer\<close>

lemma effects_fold:
  assumes "\<And>x g errs. x \<in> set xs \<Longrightarrow> graph_wf hc g \<Longrightarrow> \<exists>g'. f x (g, errs) = Some (g', errs @ er x) \<and> grows hc (V x) (E x) g g'" "graph_wf hc g"
  shows "\<exists>g'. fold_opt f xs (g, errs) = Some (g', errs @ concat (map er xs)) \<and> grows hc (\<Union>x \<in> set xs. V x) (\<Union>x \<in> set xs. E x) g g'"
  using assms
proof (induction xs arbitrary: g errs)
  case (Cons x xs)
  obtain g1 where 1: "f x (g, errs) = Some (g1, errs @ er x)" "grows hc (V x) (E x) g g1" using Cons.prems(1)[OF _ Cons.prems(2), of x errs] by auto
  obtain g2 where 2: "fold_opt f xs (g1, errs @ er x) = Some (g2, (errs @ er x) @ concat (map er xs))"
    "grows hc (\<Union>x \<in> set xs. V x) (\<Union>x \<in> set xs. E x) g1 g2" using Cons.IH[OF Cons.prems(1) grows_wf[OF 1(2)], of "errs @ er x"] by auto
  show ?case using 1(1) 2(1) grows_trans[OF 1(2) 2(2)] by simp
qed (simp add: grows_none)

definition whole_nodes :: "('v, 'p) node_ops \<Rightarrow> ('h, 'v) graph \<Rightarrow> AbsResource \<Rightarrow> 'v set" where
  "whole_nodes nd g r = {v \<in> vertex_set g. nd_ResourceInstance nd v = None \<and>
     (\<exists>c. nd_ConfigResource nd v = Some c \<and> r = cr_Absolute c (UnkeyedInstanceShim (cr_Module c)))}"

lemma whole_nodes_index:
  assumes "\<forall>v \<in> vertex_set g. \<forall>c. nd_ConfigResource nd v = Some c \<longrightarrow> cr_valid c" "ar_valid r"
  shows "set (index_get (resource_nodes nd (graph_Vertices g)) (ar_String r)) = whole_nodes nd g r"
  using assms ar_String_inj[OF _ assms(2)] valid_conversions(1) unfolding resource_nodes_get whole_nodes_def cr_String_shim by force

text \<open>
  In a module instance with a key no vertex of a whole resource is the own one, since those have the addresses of the
  configuration: an updated object there gets no edge to its resource.
\<close>

lemma keyed_module_no_own_resource:
  assumes "step \<in> set (ari_Module a)" "step_InstanceKey step \<noteq> NoKey"
  shows "whole_nodes nd g (ari_ContainingResource a) = {}"
  using assms by (auto simp: whole_nodes_def cr_Absolute_def ari_ContainingResource_def UnkeyedInstanceShim_def)

text \<open>
  C11: The transformer ends when the random source does, and the apply graph then has for every planned change the vertices and
  edges that its action asks for: one that creates or updates the object, after the vertex of its whole resource, one that
  destroys or forgets the object, and for a forgotten and re-created object the edge between the two.  A replacement that creates
  first gets a vertex that destroys a deposed object under a key that no object of the instance has, and the same key is told
  to the vertex that will depose the old object.  A change of a deposed object other than its removal and a replacement of
  an object that does not exist add nothing and are reported, in the order of the changes.
\<close>

theorem DiffTransformer_changes:
  assumes "inj hc" "graph_wf hc g"
    and valid: "\<forall>rc \<in> set (chg_Resources c). ari_valid (rcs_Addr rc)" "\<forall>v \<in> vertex_set g. \<forall>r. nd_ConfigResource nd v = Some r \<longrightarrow> cr_valid r"
    and rand: "\<forall>i < length (chg_Resources c). \<forall>s ris. state = Some s \<longrightarrow> st_ResourceInstance s (rcs_Addr (chg_Resources c ! i)) = Some ris \<longrightarrow>
      (\<exists>n. gmap_get (is_Deposed ris) (NewDeposedKey (rand i n)) = None)"
  shows "\<exists>g' key. let n = length (chg_Resources c); effect = (\<lambda>i. change_effect dn cfg (whole_nodes nd g) (key i) (chg_Resources c ! i)) in
    (\<forall>i < n. reserved_key state (rcs_Addr (chg_Resources c ! i)) (key i)) \<and>
    DiffTransformer hc nd dn (Some cfg) state rand (Some c) g = Some (g', concat (map (\<lambda>i. snd (snd (effect i))) [0..<n])) \<and>
    grows hc (\<Union>i < n. fst (effect i)) (\<Union>i < n. fst (snd (effect i))) g g'"
proof -
  let ?rs = "chg_Resources c" and ?rn = "resource_nodes nd (graph_Vertices g)"
  have "\<exists>k. i < length ?rs \<longrightarrow> replace_key (rand i) state (rcs_Addr (?rs ! i)) = Some k" for i
    using replace_key_returns[of state "rcs_Addr (?rs ! i)" "rand i"] rand by blast
  then obtain key where key: "i < length ?rs \<Longrightarrow> replace_key (rand i) state (rcs_Addr (?rs ! i)) = Some (key i)" for i by metis
  let ?e = "\<lambda>i. change_effect dn cfg (whole_nodes nd g) (key i) (?rs ! i)"
  have step: "\<exists>g'. diff_change hc dn (Some cfg) state ?rn (rand i) (?rs ! i) (h, errs) = Some (g', errs @ snd (snd (?e i))) \<and>
      grows hc (fst (?e i)) (fst (snd (?e i))) h g'" if "i < length ?rs" "graph_wf hc h" for i h errs
  proof -
    have a: "ari_valid (rcs_Addr (?rs ! i))" using valid(1) that(1) by simp
    then have "ar_valid (ari_ContainingResource (rcs_Addr (?rs ! i)))" "cr_valid (ari_ConfigResource (rcs_Addr (?rs ! i)))"
      using valid_conversions(3,4) by (metis ar_Config_Containing)+
    then show ?thesis using diff_change_effect[OF assms(1) that(2) key[OF that(1)]] whole_nodes_index[OF valid(2)] valid_conversions(1) cr_String_shim by metis
  qed
  let ?f = "\<lambda>(i, rc). diff_change hc dn (Some cfg) state ?rn (rand i) rc" and ?xs = "map (\<lambda>i. (i, ?rs ! i)) [0..<length ?rs]"
  have xs: "enumerate 0 ?rs = ?xs" using enumerate_map_upt[of 0 "\<lambda>i. ?rs ! i" "length ?rs"] by (simp add: map_nth)
  have "\<exists>g'. fold_opt ?f ?xs (g, []) = Some (g', [] @ concat (map (\<lambda>x. snd (snd (?e (fst x)))) ?xs)) \<and>
      grows hc (\<Union>x \<in> set ?xs. fst (?e (fst x))) (\<Union>x \<in> set ?xs. fst (snd (?e (fst x)))) g g'"
    by (rule effects_fold[OF _ assms(2)]) (use step in auto)
  then obtain g' where g': "fold_opt ?f ?xs (g, []) = Some (g', concat (map (\<lambda>i. snd (snd (?e i))) [0..<length ?rs]))"
    "grows hc (\<Union>i < length ?rs. fst (?e i)) (\<Union>i < length ?rs. fst (snd (?e i))) g g'"
    by (auto simp: comp_def lessThan_atLeast0)
  have "DiffTransformer hc nd dn (Some cfg) state rand (Some c) g = Some (g', concat (map (\<lambda>i. snd (snd (?e i))) [0..<length ?rs]))"
    using g'(1) by (cases "?rs = []") (simp_all add: DiffTransformer_def xs)
  then show ?thesis using g'(2) reserved_key_sound[OF key] unfolding Let_def by blast
qed

definition ex_diff_nodes :: "(string \<times> AbsResourceInstance \<times> DeposedKey, unit) diff_nodes" where
  "ex_diff_nodes = \<lparr>dn_Concrete = (\<lambda>a. (''apply'', a, NotDeposed)), dn_SetPreallocatedDeposedKey = (\<lambda>(n, a, _). Some (\<lambda>k. (n, a, k))),
     dn_ModifyCreateBeforeDestroy = (\<lambda>_. None), dn_Destroy = (\<lambda>a _. (''destroy'', a, NotDeposed)), dn_DestroyDeposed = (\<lambda>a k. (''destroy'', a, k)),
     dn_Forget = (\<lambda>a. (''forget'', a, NotDeposed)), dn_ForgetDeposed = (\<lambda>a k. (''forget'', a, k))\<rparr>"

definition plain_nodes :: "('v, unit) node_ops" where
  "plain_nodes = \<lparr>nd_ResourceInstance = (\<lambda>_. None), nd_StateDependencies = (\<lambda>_. []), nd_ConfigResource = (\<lambda>_. None), nd_Targetable = (\<lambda>_. False),
     nd_TemporaryValue = (\<lambda>_. None), nd_Destroyer = (\<lambda>_. None), nd_Creator = (\<lambda>_. None), nd_ProviderConsumer = (\<lambda>_. None), nd_Referencer = (\<lambda>_. False),
     nd_Retained = (\<lambda>_. False), nd_DynamicExpandable = (\<lambda>_. False), nd_Provider = (\<lambda>_. False)\<rparr>"

definition replace_web :: "(unit, unit, unit) ResourceInstanceChangeSrc" where
  "replace_web = \<lparr>rcs_Addr = web (IntKey 0), rcs_PrevRunAddr = web (IntKey 0), rcs_DeposedKey = NotDeposed, rcs_ProviderAddr = pc0 (),
     rcs_ChangeSrc = \<lparr>chs_Action = CreateThenDelete, chs_Before = None, chs_After = None, chs_BeforeValMarks = [], chs_AfterValMarks = [],
       chs_Importing = None, chs_GeneratedConfig = []\<rparr>,
     rcs_ActionReason = ResourceInstanceChangeNoReason, rcs_RequiredReplace = (), rcs_Private = []\<rparr>"

theorem DiffTransformer_changes_witness:
  "\<exists>g' k. DiffTransformer id plain_nodes ex_diff_nodes (Some empty_config) (Some state0) (\<lambda>_ _. 42) (Some \<lparr>chg_Resources = [replace_web], chg_Outputs = []\<rparr>)
      emptyGraph = Some (g', []) \<and> vertex_set g' = {(''apply'', web (IntKey 0), k), (''destroy'', web (IntKey 0), k)} \<and>
      st_obj state0 (web (IntKey 0)) (DeposedGen k) = None"
proof -
  let ?c = "\<lparr>chg_Resources = [replace_web], chg_Outputs = []\<rparr> :: (unit, unit, unit) Changes"
  have valid: "\<forall>rc \<in> set (chg_Resources ?c). ari_valid (rcs_Addr rc)" by (simp add: replace_web_def)
  have nodes: "\<forall>v \<in> vertex_set (emptyGraph :: (string \<times> AbsResourceInstance \<times> DeposedKey, string \<times> AbsResourceInstance \<times> DeposedKey) graph).
      \<forall>r. nd_ConfigResource (plain_nodes :: (string \<times> AbsResourceInstance \<times> DeposedKey, unit) node_ops) v = Some r \<longrightarrow> cr_valid r" by (simp add: plain_nodes_def)
  have "gmap_get (is_Deposed ris) k = None" if "st_ResourceInstance state0 (web (IntKey 0)) = Some ris" for ris k
    using state0_obj[OF web_valid, of 0 "DeposedGen k"] that by (simp add: st_obj_def)
  then have rand: "\<forall>i < length (chg_Resources ?c). \<forall>s ris. Some state0 = Some s \<longrightarrow> st_ResourceInstance s (rcs_Addr (chg_Resources ?c ! i)) = Some ris \<longrightarrow>
      (\<exists>n. gmap_get (is_Deposed ris) (NewDeposedKey ((\<lambda>_ _. 42) i n)) = None)" by (simp add: replace_web_def)
  have some: "st_ResourceInstance state0 (web (IntKey 0)) \<noteq> None"
    using state0_obj[OF web_valid, of 0 CurrentGen] by (auto simp: st_obj_def split: option.splits)
  show ?thesis
    using DiffTransformer_changes[OF inj_on_id emptyGraph_wf(1) valid nodes rand, of ex_diff_nodes empty_config] some
    by (auto simp: reserved_key_def grows_def change_effect_def replace_web_def cbd_node_def ex_diff_nodes_def emptyGraph_wf lessThan_Suc Let_def)
qed

end
