(* ===== verification/Graph_Modules.thy ===== *)
theory Graph_Modules
  imports Graph_Diff "HOL-Library.Sublist"
begin

text \<open>
  The vertices for the expansion and the closing of modules (\<^verbatim>\<open>internal/tofu\<close>: \<^verbatim>\<open>transform_module_expansion.go\<close>,
  \<^verbatim>\<open>transform_removed_modules.go\<close>), with the tree by which the first finds the vertices of a module.

  The record \<open>module_ops\<close> has what a vertex answers when asked for its module path and whether it closes a module, and
  functions for the two kinds of vertices that are made.
\<close>

section \<open>Definitions\<close>

text \<open>A tree of the vertices by module path.  The set at a node without vertices is nil, which ranges like an empty set.\<close>

datatype ('h, 'v) pathTree = PathTree (pt_children: "(string \<times> ('h, 'v) pathTree) list") (pt_leaves: "('h, 'v) dset")

fun pt_add :: "('v \<Rightarrow> 'h) \<Rightarrow> 'v \<Rightarrow> Module \<Rightarrow> ('h, 'v) pathTree \<Rightarrow> ('h, 'v) pathTree" where
  "pt_add hc v [] t = PathTree (pt_children t) (set_Add hc (pt_leaves t) v)"
| "pt_add hc v (name # addr) t =
     (let child = (case gmap_get (pt_children t) name of None \<Rightarrow> PathTree [] [] | Some child \<Rightarrow> child)
      in PathTree (gmap_put name (pt_add hc v addr child) (pt_children t)) (pt_leaves t))"

fun pt_find :: "Module \<Rightarrow> ('h, 'v) pathTree \<Rightarrow> ('h, 'v) dset" where
  "pt_find [] t = pt_leaves t"
| "pt_find (name # addr) t = (case gmap_get (pt_children t) name of None \<Rightarrow> [] | Some child \<Rightarrow> pt_find addr child)"

record ('v, 'pv) module_ops =
  mo_ModulePath :: "'v \<Rightarrow> Module option"
  mo_IsCloser :: "'v \<Rightarrow> bool"
  mo_Expand :: "Module \<Rightarrow> 'pv Module_cfg \<Rightarrow> ModuleCall_cfg option \<Rightarrow> 'v"
  mo_Close :: "Module \<Rightarrow> 'v"

definition pt_addVertex :: "('v \<Rightarrow> 'h) \<Rightarrow> ('v, 'pv) module_ops \<Rightarrow> ('h, 'v) pathTree \<Rightarrow> 'v \<Rightarrow> ('h, 'v) pathTree" where
  "pt_addVertex hc mo t v = (case mo_ModulePath mo v of None \<Rightarrow> t | Some p \<Rightarrow> pt_add hc v p t)"

text \<open>The closers of the transformer, each with its address, by the rendering of the address.\<close>

record ('h, 'v) module_expansion =
  me_graph :: "('h, 'v) graph"
  me_tree :: "('h, 'v) pathTree"
  me_closers :: "(string, Module \<times> 'v) gomap"

definition connect_child ::
  "('v \<Rightarrow> 'h) \<Rightarrow> ('v, 'p) node_ops \<Rightarrow> ('v, 'pv) module_ops \<Rightarrow> Module \<Rightarrow> 'v \<Rightarrow> ('h, 'v) graph \<Rightarrow> 'v \<Rightarrow> ('h, 'v) graph" where
  "connect_child hc nd mo path expander g childV =
     (if childV = expander then g
      else if nd_Destroyer nd childV \<noteq> None then g
      else case mo_ModulePath mo childV of
          None \<Rightarrow> g
        | Some p \<Rightarrow> if mod_Equal p path then graph_Connect hc g (BasicEdge childV expander) else g)"

definition expand_one ::
  "('v \<Rightarrow> 'h) \<Rightarrow> ('v, 'p) node_ops \<Rightarrow> ('v, 'pv) module_ops \<Rightarrow> 'v option \<Rightarrow> Module \<Rightarrow> 'v \<Rightarrow> ('h, 'v) module_expansion \<Rightarrow> ('h, 'v) module_expansion" where
  "expand_one hc nd mo parentNode path expander st =
     (let g = graph_Add hc (me_graph st) expander;
          tree = pt_addVertex hc mo (me_tree st) expander;
          g = (case parentNode of None \<Rightarrow> g | Some n \<Rightarrow> graph_Connect hc g (BasicEdge expander n));
          closer = mo_Close mo path;
          g = graph_Add hc g closer;
          tree = pt_addVertex hc mo tree closer;
          g = graph_Connect hc g (BasicEdge closer expander);
          closers = gmap_put (mod_String path) (path, closer) (me_closers st)
      in \<lparr>me_graph = foldl (connect_child hc nd mo path expander) g (set_List (pt_find path tree)), me_tree = tree, me_closers = closers\<rparr>)"

fun expand_module ::
  "('v \<Rightarrow> 'h) \<Rightarrow> ('v, 'p) node_ops \<Rightarrow> ('v, 'pv) module_ops \<Rightarrow> 'pv Module_cfg \<Rightarrow> 'v option \<Rightarrow> 'pv Config \<Rightarrow> ('h, 'v) module_expansion \<Rightarrow>
   ('h, 'v) module_expansion option"
  and expand_modules ::
  "('v \<Rightarrow> 'h) \<Rightarrow> ('v, 'p) node_ops \<Rightarrow> ('v, 'pv) module_ops \<Rightarrow> 'pv Module_cfg \<Rightarrow> 'v option \<Rightarrow> (string \<times> 'pv Config) list \<Rightarrow> ('h, 'v) module_expansion \<Rightarrow>
   ('h, 'v) module_expansion option" where
  "expand_module hc nd mo parent parentNode (Config path md children) st =
     (case mod_Call path of
        None \<Rightarrow> None
      | Some (_, call) \<Rightarrow>
          (let expander = mo_Expand mo path md (gmap_get (mdc_ModuleCalls parent) (call_Name call))
           in expand_modules hc nd mo md (Some expander) children (expand_one hc nd mo parentNode path expander st)))"
| "expand_modules hc nd mo parent parentNode [] st = Some st"
| "expand_modules hc nd mo parent parentNode ((_, c) # rest) st =
     (case expand_module hc nd mo parent parentNode c st of
        None \<Rightarrow> None
      | Some st \<Rightarrow> expand_modules hc nd mo parent parentNode rest st)"

definition connect_closer ::
  "('v \<Rightarrow> 'h) \<Rightarrow> ('v, 'p) node_ops \<Rightarrow> ('v, 'pv) module_ops \<Rightarrow> (string, Module \<times> 'v) gomap \<Rightarrow> ('h, 'v) graph \<Rightarrow> 'v \<Rightarrow> ('h, 'v) graph" where
  "connect_closer hc nd mo closers g v =
     (if nd_Destroyer nd v \<noteq> None \<or> mo_IsCloser mo v then g
      else case mo_ModulePath mo v of
          None \<Rightarrow> g
        | Some p \<Rightarrow>
            (case gmap_get closers (mod_String p) of
               None \<Rightarrow> g
             | Some (_, closer) \<Rightarrow> graph_Connect hc g (BasicEdge closer v)))"

definition connect_parents :: "('v \<Rightarrow> 'h) \<Rightarrow> (string, Module \<times> 'v) gomap \<Rightarrow> ('h, 'v) graph \<Rightarrow> Module \<times> 'v \<Rightarrow> ('h, 'v) graph" where
  "connect_parents hc closers g c =
     foldl (\<lambda>g i. case gmap_get closers (mod_String (take i (fst c))) of
         None \<Rightarrow> g
       | Some (_, parent) \<Rightarrow> graph_Connect hc g (BasicEdge parent (snd c))) g [1..<length (fst c)]"

text \<open>\<open>visit\<close> is the order in which Go ranges over the closers.\<close>

definition ModuleExpansionTransformer ::
  "('v \<Rightarrow> 'h) \<Rightarrow> ('v, 'p) node_ops \<Rightarrow> ('v, 'pv) module_ops \<Rightarrow> ((string, Module \<times> 'v) gomap \<Rightarrow> (string, Module \<times> 'v) gomap) \<Rightarrow> 'pv Config \<Rightarrow>
   ('h, 'v) graph \<Rightarrow> ('h, 'v) graph option" where
  "ModuleExpansionTransformer hc nd mo visit config g =
     (let tree = foldl (pt_addVertex hc mo) (PathTree [] []) (graph_Vertices g) in
      case expand_modules hc nd mo (cfg_Module config) None (cfg_Children config) \<lparr>me_graph = g, me_tree = tree, me_closers = []\<rparr> of
        None \<Rightarrow> None
      | Some st \<Rightarrow>
          (let g = foldl (connect_closer hc nd mo (me_closers st)) (me_graph st) (graph_Vertices (me_graph st))
           in Some (foldl (connect_parents hc (me_closers st)) g (map snd (visit (me_closers st))))))"

definition RemovedModuleTransformer ::
  "('v \<Rightarrow> 'h) \<Rightarrow> ('v, 'pv) module_ops \<Rightarrow> ('p, 'w, 'm, 'c) State option \<Rightarrow> 'pv Config \<Rightarrow> ('h, 'v) graph \<Rightarrow> ('h, 'v) graph" where
  "RemovedModuleTransformer hc mo state config g =
     (case state of
        None \<Rightarrow> g
      | Some s \<Rightarrow>
          (let removed = foldl (\<lambda>removed (_, ms).
                 if DescendentForInstance config (ms_Addr ms) \<noteq> None then removed
                 else gmap_put (mod_String (mi_Module (ms_Addr ms))) (mi_Module (ms_Addr ms)) removed) [] (st_Modules s)
           in foldl (\<lambda>g (_, modAddr). graph_Add hc g (mo_Close mo modAddr)) g removed))"

section \<open>The tree of paths\<close>

text \<open>The tree holds a finite map from module paths to sets of vertices: adding a vertex at a path changes that set and no other.\<close>

lemma pt_find_add: "pt_find p (pt_add hc v q t) = (if p = q then set_Add hc (pt_find p t) v else pt_find p t)"
proof (induction q arbitrary: p t)
  case Nil
  show ?case by (cases p) simp_all
next
  case (Cons n q)
  have empty: "pt_find p' (PathTree [] [] :: ('a, 'b) pathTree) = []" for p' by (cases p') simp_all
  show ?case using Cons.IH by (cases p) (auto simp: Let_def gomap_simps empty split: option.splits)
qed

lemma pt_addVertex_find:
  "pt_find p (pt_addVertex hc mo t v) = (if mo_ModulePath mo v = Some p then set_Add hc (pt_find p t) v else pt_find p t)"
  by (auto simp: pt_addVertex_def pt_find_add split: option.splits)

definition tree_ok :: "('v \<Rightarrow> 'h) \<Rightarrow> ('v, 'pv) module_ops \<Rightarrow> 'v set \<Rightarrow> ('h, 'v) pathTree \<Rightarrow> bool" where
  "tree_ok hc mo V t \<longleftrightarrow> (\<forall>p. dset_wf hc (pt_find p t) \<and> dset_elems (pt_find p t) = {v \<in> V. mo_ModulePath mo v = Some p})"

lemma tree_ok_add: "inj hc \<Longrightarrow> tree_ok hc mo V t \<Longrightarrow> tree_ok hc mo (insert v V) (pt_addVertex hc mo t v)"
  by (auto simp: tree_ok_def pt_addVertex_find set_Add_wf dset_simps)

lemma pt_find_empty [simp]: "pt_find p (PathTree [] []) = []"
  by (cases p) simp_all

lemma tree_ok_empty: "tree_ok hc mo {} (PathTree [] [])"
  by (simp add: tree_ok_def)

lemma tree_ok_foldl: "inj hc \<Longrightarrow> tree_ok hc mo V t \<Longrightarrow> tree_ok hc mo (V \<union> set vs) (foldl (pt_addVertex hc mo) t vs)"
  by (induction vs arbitrary: V t) (force dest: tree_ok_add)+

section \<open>Expanding one module\<close>

lemma mod_String_inj: "list_all valid_name p \<Longrightarrow> list_all valid_name q \<Longrightarrow> mod_String p = mod_String q \<longleftrightarrow> p = q"
  by (simp add: mod_String_shim mi_String_inj shim_valid shim_inj)

text \<open>What the vertices for the expansion and the closing of a module answer (\<^verbatim>\<open>node_module_expand.go\<close>).\<close>

definition module_vertices :: "('v, 'p) node_ops \<Rightarrow> ('v, 'pv) module_ops \<Rightarrow> bool" where
  "module_vertices nd mo \<longleftrightarrow>
     (\<forall>p md mc. mo_ModulePath mo (mo_Expand mo p md mc) = Some p \<and> \<not> mo_IsCloser mo (mo_Expand mo p md mc) \<and> nd_Destroyer nd (mo_Expand mo p md mc) = None) \<and>
     (\<forall>p. mo_ModulePath mo (mo_Close mo p) = Some p \<and> mo_IsCloser mo (mo_Close mo p) \<and> nd_Destroyer nd (mo_Close mo p) = None)"

definition expander_of :: "('v, 'pv) module_ops \<Rightarrow> 'pv Config \<Rightarrow> Module \<Rightarrow> 'v" where
  "expander_of mo root p = mo_Expand mo p (cfg_Module (the (Descendent root p)))
     (gmap_get (mdc_ModuleCalls (cfg_Module (the (Descendent root (butlast p))))) (last p))"

definition expansion_edges :: "('v, 'p) node_ops \<Rightarrow> ('v, 'pv) module_ops \<Rightarrow> 'pv Config \<Rightarrow> 'v set \<Rightarrow> Module \<Rightarrow> ('v \<times> 'v) set" where
  "expansion_edges nd mo root V p =
     {e. butlast p \<noteq> [] \<and> e = (expander_of mo root p, expander_of mo root (butlast p))} \<union>
     {(mo_Close mo p, expander_of mo root p)} \<union>
     {v \<in> V. v \<noteq> expander_of mo root p \<and> mo_ModulePath mo v = Some p \<and> nd_Destroyer nd v = None} \<times> {expander_of mo root p}"

definition expand_inv ::
  "('v \<Rightarrow> 'h) \<Rightarrow> ('v, 'p) node_ops \<Rightarrow> ('v, 'pv) module_ops \<Rightarrow> 'pv Config \<Rightarrow> ('h, 'v) graph \<Rightarrow> Module set \<Rightarrow> ('h, 'v) module_expansion \<Rightarrow> bool" where
  "expand_inv hc nd mo root g P st \<longleftrightarrow>
     grows hc (\<Union>p \<in> P. {expander_of mo root p, mo_Close mo p}) (\<Union>p \<in> P. expansion_edges nd mo root (vertex_set g) p) g (me_graph st) \<and>
     tree_ok hc mo (vertex_set g \<union> (\<Union>p \<in> P. {expander_of mo root p, mo_Close mo p})) (me_tree st) \<and>
     (\<forall>p. list_all valid_name p \<longrightarrow> gmap_get (me_closers st) (mod_String p) = (if p \<in> P then Some (p, mo_Close mo p) else None)) \<and>
     (\<forall>e \<in> set (me_closers st). \<exists>p \<in> P. snd e = (p, mo_Close mo p)) \<and> (\<forall>p \<in> P. list_all valid_name p)"

lemma grows_foldl:
  assumes "\<And>x g. x \<in> set xs \<Longrightarrow> graph_wf hc g \<Longrightarrow> grows hc {} (E x) g (f g x)" "graph_wf hc g"
  shows "grows hc {} (\<Union>x \<in> set xs. E x) g (foldl f g xs)"
  using assms
proof (induction xs arbitrary: g)
  case (Cons x xs)
  have 1: "grows hc {} (E x) g (f g x)" using Cons.prems by simp
  then show ?case using grows_trans[OF 1 Cons.IH[OF Cons.prems(1) grows_wf[OF 1]]] by simp
qed (simp add: grows_none)

lemma connect_child_grows:
  assumes "inj hc" "graph_wf hc g"
  shows "grows hc {} {e. e = (v, x) \<and> v \<noteq> x \<and> mo_ModulePath mo v = Some p \<and> nd_Destroyer nd v = None} g (connect_child hc nd mo p x g v)"
  using grows_Connect[OF assms, of v x] grows_none[OF assms(2)] by (auto simp: connect_child_def mod_Equal_iff split: option.splits)

lemma set_gmap_put: "set (gmap_put k v m) \<subseteq> insert (k, v) (set m)"
  by (induction m) auto

lemma set_gmap_put_same: "(\<And>x. (k, x) \<in> set m \<Longrightarrow> x = v) \<Longrightarrow> set (gmap_put k v m) = insert (k, v) (set m)"
  by (induction m) auto

lemma expand_one_inv:
  assumes "inj hc" "module_vertices nd mo" "expand_inv hc nd mo root g P st" "list_all valid_name p"
    and pn: "parentNode = (if butlast p = [] then None else Some (expander_of mo root (butlast p)))"
  shows "expand_inv hc nd mo root g (insert p P) (expand_one hc nd mo parentNode p (expander_of mo root p) st)"
proof -
  let ?x = "expander_of mo root p" and ?c = "mo_Close mo p" and ?V = "vertex_set g" and ?st = "expand_one hc nd mo parentNode p (expander_of mo root p) st"
  let ?N = "\<Union>p \<in> P. {expander_of mo root p, mo_Close mo p}"
  note inv = assms(3)[unfolded expand_inv_def]
  have G: "grows hc ?N (\<Union>p \<in> P. expansion_edges nd mo root ?V p) g (me_graph st)" and wf: "graph_wf hc (me_graph st)"
    using inv by (auto simp: grows_def)
  define g1 where "g1 = (case parentNode of None \<Rightarrow> graph_Add hc (me_graph st) ?x | Some n \<Rightarrow> graph_Connect hc (graph_Add hc (me_graph st) ?x) (BasicEdge ?x n))"
  have g1: "grows hc {?x} {e. butlast p \<noteq> [] \<and> e = (?x, expander_of mo root (butlast p))} (me_graph st) g1"
    using grows_Add[OF assms(1) wf, of ?x] grows_trans[OF grows_Add[OF assms(1) wf, of ?x] grows_Connect[OF assms(1) graph_Add_spec(1)[OF assms(1) wf]]]
    by (auto simp: g1_def pn)
  define g2 where "g2 = graph_Connect hc (graph_Add hc g1 ?c) (BasicEdge ?c ?x)"
  have g2: "grows hc {?c} {(?c, ?x)} g1 g2"
    using grows_trans[OF grows_Add[OF assms(1) grows_wf[OF g1], of ?c] grows_Connect[OF assms(1) graph_Add_spec(1)[OF assms(1) grows_wf[OF g1]]]]
    by (simp add: g2_def)
  define tree where "tree = pt_addVertex hc mo (pt_addVertex hc mo (me_tree st) ?x) ?c"
  have "tree_ok hc mo (?V \<union> ?N) (me_tree st)" using inv by simp
  then have tree: "tree_ok hc mo (insert ?c (insert ?x (?V \<union> ?N))) tree" unfolding tree_def by (intro tree_ok_add assms(1))
  have st: "?st = \<lparr>me_graph = foldl (connect_child hc nd mo p ?x) g2 (set_List (pt_find p tree)), me_tree = tree,
      me_closers = gmap_put (mod_String p) (p, ?c) (me_closers st)\<rparr>"
    by (simp add: expand_one_def Let_def g1_def g2_def tree_def)
  have "grows hc {} (\<Union>v \<in> set (set_List (pt_find p tree)). {e. e = (v, ?x) \<and> v \<noteq> ?x \<and> mo_ModulePath mo v = Some p \<and> nd_Destroyer nd v = None})
      g2 (me_graph ?st)"
    unfolding st module_expansion.simps by (intro grows_foldl connect_child_grows assms(1) grows_wf[OF g2])
  note all = grows_trans[OF G grows_trans[OF g1 grows_trans[OF g2 this]]]
  have path: "mo_ModulePath mo (expander_of mo root q) = Some q" "mo_ModulePath mo (mo_Close mo q) = Some q" "?c \<noteq> ?x" "nd_Destroyer nd ?c = None" for q
    using assms(2) by (auto simp: module_vertices_def expander_of_def) metis
  have "set (set_List (pt_find p tree)) = {v \<in> insert ?c (insert ?x (?V \<union> ?N)). mo_ModulePath mo v = Some p}" using tree by (simp add: tree_ok_def)
  then have "(\<Union>v \<in> set (set_List (pt_find p tree)). {e. e = (v, ?x) \<and> v \<noteq> ?x \<and> mo_ModulePath mo v = Some p \<and> nd_Destroyer nd v = None}) =
      {v \<in> ?V. v \<noteq> ?x \<and> mo_ModulePath mo v = Some p \<and> nd_Destroyer nd v = None} \<times> {?x} \<union> {(?c, ?x)}"
    using path by auto
  then have "grows hc (\<Union>p \<in> insert p P. {expander_of mo root p, mo_Close mo p}) (\<Union>p \<in> insert p P. expansion_edges nd mo root ?V p) g (me_graph ?st)"
    using all unfolding expansion_edges_def by (simp add: Un_ac insert_commute)
  moreover have "?V \<union> (\<Union>p \<in> insert p P. {expander_of mo root p, mo_Close mo p}) = insert ?c (insert ?x (?V \<union> ?N))" by auto
  moreover have "set (me_closers ?st) \<subseteq> insert (mod_String p, p, ?c) (set (me_closers st))" using set_gmap_put by (simp add: st)
  ultimately show ?thesis using tree inv assms(4) mod_String_inj[OF _ assms(4)] unfolding expand_inv_def
    by (auto simp: st gomap_simps)
qed

section \<open>Expanding a configuration\<close>

text \<open>In a loaded configuration every module knows its path, and the calls of a module have different names.\<close>

definition config_ok :: "'pv Config \<Rightarrow> bool" where
  "config_ok root \<longleftrightarrow> (\<forall>p c. Descendent root p = Some c \<longrightarrow>
     cfg_Path c = p \<and> gmap_ok (cfg_Children c) \<and> (\<forall>e \<in> set (cfg_Children c). valid_name (fst e)))"

definition below :: "'pv Config \<Rightarrow> Module \<Rightarrow> Module set" where
  "below root p = {p @ q | q. Descendent root (p @ q) \<noteq> None}"

definition module_paths :: "'pv Config \<Rightarrow> Module set" where
  "module_paths root = {p. p \<noteq> [] \<and> Descendent root p \<noteq> None}"

lemma Descendent_append: "Descendent c (p @ q) = (case Descendent c p of None \<Rightarrow> None | Some c' \<Rightarrow> Descendent c' q)"
  by (induction p arbitrary: c) (auto split: option.splits)

lemma Descendent_valid: "config_ok root \<Longrightarrow> Descendent root p = Some c \<Longrightarrow> list_all valid_name p"
proof (induction p arbitrary: c rule: rev_induct)
  case (snoc n p)
  then obtain c' where c': "Descendent root p = Some c'" "gmap_get (cfg_Children c') n \<noteq> None"
    by (auto simp: Descendent_append split: option.splits)
  then have "valid_name n" using snoc.prems(1) by (force simp: config_ok_def dest: map_of_SomeD)
  then show ?case using snoc.IH[OF snoc.prems(1) c'(1)] by simp
qed simp

lemma children_below:
  assumes "config_ok root" "Descendent root p = Some c"
  shows "below root p = insert p (\<Union>e \<in> set (cfg_Children c). below root (p @ [fst e]))" (is "_ = ?R")
proof (intro equalityI subsetI)
  fix r assume "r \<in> below root p"
  then obtain q where q: "r = p @ q" "Descendent root (p @ q) \<noteq> None" by (auto simp: below_def)
  show "r \<in> ?R"
  proof (cases q)
    case (Cons n q')
    then obtain cc where "(n, cc) \<in> set (cfg_Children c)"
      using q(2) assms(2) by (auto simp: Descendent_append split: option.splits dest: map_of_SomeD)
    then show ?thesis using q Cons by (force simp: below_def)
  qed (use q in simp)
qed (use assms(2) in \<open>auto simp: below_def\<close>)

lemma expand_modules_list:
  assumes "\<And>e P st. e \<in> set ccs \<Longrightarrow> I P st \<Longrightarrow> \<exists>st'. expand_module hc nd mo parent pn (snd e) st = Some st' \<and> I (P \<union> B e) st'" "I P st"
  shows "\<exists>st'. expand_modules hc nd mo parent pn ccs st = Some st' \<and> I (P \<union> (\<Union>e \<in> set ccs. B e)) st'"
  using assms
proof (induction ccs arbitrary: P st)
  case (Cons e ccs)
  obtain st1 where st1: "expand_module hc nd mo parent pn (snd e) st = Some st1" "I (P \<union> B e) st1" using Cons.prems(1)[of e, OF _ Cons.prems(2)] by auto
  obtain st2 where "expand_modules hc nd mo parent pn ccs st1 = Some st2" "I (P \<union> B e \<union> (\<Union>e \<in> set ccs. B e)) st2"
    using Cons.IH[OF Cons.prems(1) st1(2)] by auto
  then show ?case using st1(1) by (cases e) (auto simp: Un_assoc)
qed simp

lemma expand_module_inv:
  assumes "inj hc" "module_vertices nd mo" "config_ok root"
  shows "Descendent root p = Some c \<Longrightarrow> p \<noteq> [] \<Longrightarrow> parent = cfg_Module (the (Descendent root (butlast p))) \<Longrightarrow>
    pn = (if butlast p = [] then None else Some (expander_of mo root (butlast p))) \<Longrightarrow> expand_inv hc nd mo root g P st \<Longrightarrow>
    \<exists>st'. expand_module hc nd mo parent pn c st = Some st' \<and> expand_inv hc nd mo root g (P \<union> below root p) st'"
proof (induction c arbitrary: p parent pn P st)
  case (Config path md children)
  have path: "path = p" "gmap_ok children" using assms(3) Config.prems(1) by (force simp: config_ok_def)+
  let ?x = "expander_of mo root p"
  have x: "mo_Expand mo p md (gmap_get (mdc_ModuleCalls parent) (last p)) = ?x" using Config.prems(1,3) by (simp add: expander_of_def)
  note st1 = expand_one_inv[OF assms(1,2) Config.prems(5) Descendent_valid[OF assms(3) Config.prems(1)] Config.prems(4)]
  have "\<exists>st'. expand_module hc nd mo md (Some ?x) (snd e) st = Some st' \<and> expand_inv hc nd mo root g (Q \<union> below root (p @ [fst e])) st'"
    if "e \<in> set children" "expand_inv hc nd mo root g Q st" for e Q st
  proof -
    have "gmap_get children (fst e) = Some (snd e)" using that(1) path(2) by (auto simp: gmap_ok_def)
    then have "Descendent root (p @ [fst e]) = Some (snd e)" using Config.prems(1) by (simp add: Descendent_append)
    then show ?thesis using Config.IH[of e "snd e" "p @ [fst e]" md "Some ?x" Q st] that Config.prems(1,2) by (cases e) simp
  qed
  from expand_modules_list[of children "expand_inv hc nd mo root g", OF this st1] obtain st' where
    "expand_modules hc nd mo md (Some ?x) children (expand_one hc nd mo pn p ?x st) = Some st'"
    "expand_inv hc nd mo root g (insert p P \<union> (\<Union>e \<in> set children. below root (p @ [fst e]))) st'" by blast
  then show ?case using Config.prems(2) children_below[OF assms(3) Config.prems(1)] x path(1) by (simp add: mod_Call_def)
qed

section \<open>Closing modules\<close>

lemma connect_closer_grows:
  assumes "inj hc" "graph_wf hc h" "expand_inv hc nd mo root g P st" "\<And>p. mo_ModulePath mo v = Some p \<Longrightarrow> list_all valid_name p"
  shows "grows hc {} {e. \<exists>p \<in> P. mo_ModulePath mo v = Some p \<and> nd_Destroyer nd v = None \<and> \<not> mo_IsCloser mo v \<and> e = (mo_Close mo p, v)}
    h (connect_closer hc nd mo (me_closers st) h v)"
proof (cases "mo_ModulePath mo v")
  case (Some p)
  then have get: "gmap_get (me_closers st) (mod_String p) = (if p \<in> P then Some (p, mo_Close mo p) else None)"
    using assms(3,4) by (simp add: expand_inv_def)
  show ?thesis
    using grows_Connect[OF assms(1,2), of "mo_Close mo p" v] grows_none[OF assms(2)] Some get by (auto simp: connect_closer_def)
qed (use grows_none[OF assms(2)] in \<open>simp add: connect_closer_def\<close>)

lemma connect_parents_grows:
  assumes "inj hc" "graph_wf hc h" "expand_inv hc nd mo root g P st" "p \<in> P"
  shows "grows hc {} {e. \<exists>q \<in> P. strict_prefix q p \<and> q \<noteq> [] \<and> e = (mo_Close mo q, mo_Close mo p)} h
    (connect_parents hc (me_closers st) h (p, mo_Close mo p))"
proof -
  let ?E = "\<lambda>i. {e. take i p \<in> P \<and> e = (mo_Close mo (take i p), mo_Close mo p)}"
  have valid: "list_all valid_name (take i p)" for i using assms(3,4) by (auto simp: expand_inv_def list_all_iff dest: in_set_takeD)
  have "grows hc {} (\<Union>i \<in> set [1..<length p]. ?E i) h (connect_parents hc (me_closers st) h (p, mo_Close mo p))"
    unfolding connect_parents_def fst_conv snd_conv
  proof (rule grows_foldl[OF _ assms(2)])
    fix i h assume h: "graph_wf hc h"
    have "gmap_get (me_closers st) (mod_String (take i p)) = (if take i p \<in> P then Some (take i p, mo_Close mo (take i p)) else None)"
      using assms(3) valid by (simp add: expand_inv_def)
    then show "grows hc {} (?E i) h (case gmap_get (me_closers st) (mod_String (take i p)) of None \<Rightarrow> h | Some (_, parent) \<Rightarrow> graph_Connect hc h (BasicEdge parent (mo_Close mo p)))"
      using grows_Connect[OF assms(1) h, of "mo_Close mo (take i p)" "mo_Close mo p"] grows_none[OF h] by simp
  qed
  moreover have "(\<Union>i \<in> set [1..<length p]. ?E i) = {e. \<exists>q \<in> P. strict_prefix q p \<and> q \<noteq> [] \<and> e = (mo_Close mo q, mo_Close mo p)}"
  proof (intro equalityI subsetI)
    fix e assume "e \<in> {e. \<exists>q \<in> P. strict_prefix q p \<and> q \<noteq> [] \<and> e = (mo_Close mo q, mo_Close mo p)}"
    then obtain q where q: "q \<in> P" "strict_prefix q p" "q \<noteq> []" "e = (mo_Close mo q, mo_Close mo p)" by blast
    then have "take (length q) p = q" "length q \<in> set [1..<length p]"
      by (auto simp: strict_prefix_def prefix_def Suc_le_eq)
    then show "e \<in> (\<Union>i \<in> set [1..<length p]. ?E i)" using q(1,4) by force
  next
    fix e assume "e \<in> (\<Union>i \<in> set [1..<length p]. ?E i)"
    then obtain i where i: "1 \<le> i" "i < length p" "take i p \<in> P" "e = (mo_Close mo (take i p), mo_Close mo p)" by auto
    then have "strict_prefix (take i p) p" "take i p \<noteq> []" by (auto simp: strict_prefix_def take_is_prefix)
    then show "e \<in> {e. \<exists>q \<in> P. strict_prefix q p \<and> q \<noteq> [] \<and> e = (mo_Close mo q, mo_Close mo p)}" using i(3,4) by blast
  qed
  ultimately show ?thesis by simp
qed

definition closing_edges :: "('v, 'p) node_ops \<Rightarrow> ('v, 'pv) module_ops \<Rightarrow> 'pv Config \<Rightarrow> Module set \<Rightarrow> 'v set \<Rightarrow> Module \<Rightarrow> ('v \<times> 'v) set" where
  "closing_edges nd mo root P V p =
     {mo_Close mo p} \<times> {v \<in> insert (expander_of mo root p) V. mo_ModulePath mo v = Some p \<and> nd_Destroyer nd v = None \<and> \<not> mo_IsCloser mo v} \<union>
     {(mo_Close mo q, mo_Close mo p) | q. q \<in> P \<and> strict_prefix q p \<and> q \<noteq> []}"

lemma closers_connected:
  assumes "inj hc" "module_vertices nd mo" "expand_inv hc nd mo root g P st"
    and paths: "\<forall>v \<in> vertex_set g. \<forall>p. mo_ModulePath mo v = Some p \<longrightarrow> list_all valid_name p"
  shows "grows hc {} (\<Union>p \<in> P. {mo_Close mo p} \<times> {v \<in> insert (expander_of mo root p) (vertex_set g).
      mo_ModulePath mo v = Some p \<and> nd_Destroyer nd v = None \<and> \<not> mo_IsCloser mo v})
    (me_graph st) (foldl (connect_closer hc nd mo (me_closers st)) (me_graph st) (graph_Vertices (me_graph st)))"
proof -
  let ?E = "\<lambda>v. {e. \<exists>p \<in> P. mo_ModulePath mo v = Some p \<and> nd_Destroyer nd v = None \<and> \<not> mo_IsCloser mo v \<and> e = (mo_Close mo p, v)}"
  have V: "set (graph_Vertices (me_graph st)) = vertex_set g \<union> (\<Union>p \<in> P. {expander_of mo root p, mo_Close mo p})" and wf: "graph_wf hc (me_graph st)"
    using assms(3) by (auto simp: expand_inv_def grows_def)
  have path: "mo_ModulePath mo (expander_of mo root q) = Some q" "mo_ModulePath mo (mo_Close mo q) = Some q" "mo_IsCloser mo (mo_Close mo q)" for q
    using assms(2) by (simp_all add: module_vertices_def expander_of_def)
  have valid: "list_all valid_name p" if "v \<in> set (graph_Vertices (me_graph st))" "mo_ModulePath mo v = Some p" for v p
    using that paths assms(3) path unfolding V expand_inv_def by auto
  have "grows hc {} (\<Union>v \<in> set (graph_Vertices (me_graph st)). ?E v) (me_graph st)
      (foldl (connect_closer hc nd mo (me_closers st)) (me_graph st) (graph_Vertices (me_graph st)))"
    by (rule grows_foldl[OF connect_closer_grows[OF assms(1) _ assms(3)] wf]) (use valid in auto)
  moreover have "(\<Union>v \<in> set (graph_Vertices (me_graph st)). ?E v) = (\<Union>p \<in> P. {mo_Close mo p} \<times> {v \<in> insert (expander_of mo root p) (vertex_set g).
      mo_ModulePath mo v = Some p \<and> nd_Destroyer nd v = None \<and> \<not> mo_IsCloser mo v})"
    unfolding V using path by auto
  ultimately show ?thesis by simp
qed

lemma closing_grows:
  assumes "inj hc" "module_vertices nd mo" "expand_inv hc nd mo root g P st" "\<forall>m. set (visit m) = set m"
    and paths: "\<forall>v \<in> vertex_set g. \<forall>p. mo_ModulePath mo v = Some p \<longrightarrow> list_all valid_name p"
  shows "grows hc {} (\<Union>p \<in> P. closing_edges nd mo root P (vertex_set g) p) (me_graph st) (foldl (connect_parents hc (me_closers st))
      (foldl (connect_closer hc nd mo (me_closers st)) (me_graph st) (graph_Vertices (me_graph st))) (map snd (visit (me_closers st))))"
proof -
  let ?B = "\<lambda>p. {(mo_Close mo q, mo_Close mo p) | q. q \<in> P \<and> strict_prefix q p \<and> q \<noteq> []}"
  note 1 = closers_connected[OF assms(1-3) paths]
  have "(p, mo_Close mo p) \<in> snd ` set (me_closers st)" if "p \<in> P" for p
  proof -
    have "gmap_get (me_closers st) (mod_String p) = Some (p, mo_Close mo p)" using assms(3) that by (simp add: expand_inv_def)
    then show ?thesis by (force dest: map_of_SomeD)
  qed
  moreover have "x \<in> (\<lambda>p. (p, mo_Close mo p)) ` P" if "x \<in> snd ` set (me_closers st)" for x using assms(3) that by (auto simp: expand_inv_def)
  ultimately have "snd ` set (me_closers st) = (\<lambda>p. (p, mo_Close mo p)) ` P" by blast
  then have xs: "set (map snd (visit (me_closers st))) = (\<lambda>p. (p, mo_Close mo p)) ` P" using assms(4) by simp
  have "grows hc {} (\<Union>x \<in> set (map snd (visit (me_closers st))). ?B (fst x))
      (foldl (connect_closer hc nd mo (me_closers st)) (me_graph st) (graph_Vertices (me_graph st)))
      (foldl (connect_parents hc (me_closers st))
        (foldl (connect_closer hc nd mo (me_closers st)) (me_graph st) (graph_Vertices (me_graph st))) (map snd (visit (me_closers st))))"
  proof (rule grows_foldl[OF _ grows_wf[OF 1]])
    fix x h assume x: "x \<in> set (map snd (visit (me_closers st)))" "graph_wf hc h"
    then obtain p where p: "p \<in> P" "x = (p, mo_Close mo p)" unfolding xs by blast
    have "?B p = {e. \<exists>q \<in> P. strict_prefix q p \<and> q \<noteq> [] \<and> e = (mo_Close mo q, mo_Close mo p)}" by blast
    then show "grows hc {} (?B (fst x)) h (connect_parents hc (me_closers st) h x)"
      using connect_parents_grows[OF assms(1) x(2) assms(3) p(1)] p(2) by simp
  qed
  from grows_trans[OF 1 this] show ?thesis unfolding xs closing_edges_def by (simp add: UN_Un_distrib)
qed

text \<open>
  C12: For every module of the configuration but the root the transformer adds a vertex that expands it and one that closes it,
  and nothing else.  The expander of a module waits for that of the module around it, everything in the module, its closer too,
  waits for the expander, the closer waits for everything in the module but what destroys objects, and for the closers of all
  modules inside it.  Destroyers get no edge and other edges stay.  The tree in which it looks up the vertices of a module
  finds exactly those, and the order of its maps does not matter.
\<close>

theorem ModuleExpansionTransformer_edges:
  assumes "inj hc" "graph_wf hc g" "module_vertices nd mo" "config_ok root" "\<forall>m. set (visit m) = set m"
    and paths: "\<forall>v \<in> vertex_set g. \<forall>p. mo_ModulePath mo v = Some p \<longrightarrow> list_all valid_name p"
  shows "\<exists>g'. ModuleExpansionTransformer hc nd mo visit root g = Some g' \<and> graph_wf hc g' \<and>
    vertex_set g' = vertex_set g \<union> (\<Union>p \<in> module_paths root. {expander_of mo root p, mo_Close mo p}) \<and>
    edge_rel g' = edge_rel g \<union> (\<Union>p \<in> module_paths root. expansion_edges nd mo root (vertex_set g) p \<union>
      closing_edges nd mo root (module_paths root) (vertex_set g) p)"
proof -
  let ?I = "expand_inv hc nd mo root g" and ?st0 = "\<lparr>me_graph = g, me_tree = foldl (pt_addVertex hc mo) (PathTree [] []) (graph_Vertices g), me_closers = []\<rparr>"
  let ?M = "module_paths root"
  have "tree_ok hc mo ({} \<union> set (graph_Vertices g)) (me_tree ?st0)" unfolding module_expansion.simps by (rule tree_ok_foldl[OF assms(1) tree_ok_empty])
  then have I0: "?I {} ?st0" using grows_none[OF assms(2)] by (simp add: expand_inv_def)
  have child: "\<exists>st'. expand_module hc nd mo (cfg_Module root) None (snd e) st = Some st' \<and> ?I (P \<union> below root [fst e]) st'"
    if "e \<in> set (cfg_Children root)" "?I P st" for e P st
  proof -
    have "gmap_ok (cfg_Children root)" using assms(4) unfolding config_ok_def by (metis Descendent.simps(1))
    then have "gmap_get (cfg_Children root) (fst e) = Some (snd e)" using that(1) by (auto simp: gmap_ok_def)
    then have "Descendent root [fst e] = Some (snd e)" by simp
    then show ?thesis using expand_module_inv[OF assms(1,3,4), of "[fst e]" "snd e"] that(2) by simp
  qed
  obtain st where st: "expand_modules hc nd mo (cfg_Module root) None (cfg_Children root) ?st0 = Some st"
    "?I ({} \<union> (\<Union>e \<in> set (cfg_Children root). below root [fst e])) st"
    using expand_modules_list[of "cfg_Children root" ?I, OF child I0] by blast
  have "below root [] = {p. Descendent root p \<noteq> None}" by (auto simp: below_def)
  moreover have "[] \<notin> below root [n]" for n by (simp add: below_def)
  ultimately have "{} \<union> (\<Union>e \<in> set (cfg_Children root). below root [fst e]) = ?M"
    using children_below[OF assms(4), of "[]" root] by (auto simp: module_paths_def)
  then have I: "?I ?M st" using st(2) by simp
  have G: "grows hc (\<Union>p \<in> ?M. {expander_of mo root p, mo_Close mo p}) (\<Union>p \<in> ?M. expansion_edges nd mo root (vertex_set g) p) g (me_graph st)"
    using I by (simp add: expand_inv_def)
  show ?thesis using grows_trans[OF G closing_grows[OF assms(1,3) I assms(5) paths]] st(1)
    by (simp add: ModuleExpansionTransformer_def Let_def grows_def UN_Un_distrib)
qed

definition ex_module_ops :: "(string \<times> Module, unit) module_ops" where
  "ex_module_ops = \<lparr>mo_ModulePath = (\<lambda>v. Some (snd v)), mo_IsCloser = (\<lambda>v. fst v = ''close''), mo_Expand = (\<lambda>p _ _. (''expand'', p)),
     mo_Close = (\<lambda>p. (''close'', p))\<rparr>"

definition one_module_config :: "unit Config" where
  "one_module_config = Config [] (cfg_Module empty_config) [(''a'', Config [''a''] (cfg_Module empty_config) [])]"

lemma one_module_descendents:
  "Descendent one_module_config p = Some c \<longleftrightarrow> (p = [] \<and> c = one_module_config) \<or> (p = [''a''] \<and> c = Config [''a''] (cfg_Module empty_config) [])"
  by (cases p; cases "tl p") (auto simp: one_module_config_def)

theorem ModuleExpansionTransformer_edges_witness:
  "\<exists>g'. ModuleExpansionTransformer id plain_nodes ex_module_ops (\<lambda>m. m) one_module_config
      (graph_Add id (emptyGraph :: (string \<times> Module, string \<times> Module) graph) (''x'', [''a''])) = Some g' \<and>
    ((''x'', [''a'']), (''expand'', [''a''])) \<in> edge_rel g' \<and> ((''close'', [''a'']), (''x'', [''a''])) \<in> edge_rel g'"
proof -
  let ?g = "graph_Add id (emptyGraph :: (string \<times> Module, string \<times> Module) graph) (''x'', [''a''])"
  have g: "graph_wf id ?g" "vertex_set ?g = {(''x'', [''a''])}" by (simp_all add: graph_Add_spec emptyGraph_wf)
  have nodes: "module_vertices plain_nodes ex_module_ops" by (simp add: module_vertices_def plain_nodes_def ex_module_ops_def)
  have cfg: "config_ok one_module_config"
    unfolding config_ok_def one_module_descendents by (auto simp: one_module_config_def gmap_ok_def valid_name_def)
  have paths: "\<forall>v \<in> vertex_set ?g. \<forall>p. mo_ModulePath ex_module_ops v = Some p \<longrightarrow> list_all valid_name p"
    by (simp add: g(2) ex_module_ops_def valid_name_def)
  have "[''a''] \<in> module_paths one_module_config" by (simp add: module_paths_def one_module_config_def)
  then show ?thesis using ModuleExpansionTransformer_edges[OF inj_on_id g(1) nodes cfg _ paths, of "\<lambda>m. m"]
    by (fastforce simp: g(2) expansion_edges_def closing_edges_def expander_of_def ex_module_ops_def plain_nodes_def)
qed

section \<open>Removed modules\<close>

text \<open>Every module that the state has instances of and the configuration does not have gets one closer.\<close>

lemma removed_modules:
  assumes "\<forall>e \<in> set ms. mi_valid (ms_Addr (snd e))"
  shows "set (foldl (\<lambda>removed (_, m). if Q m then removed else gmap_put (mod_String (mi_Module (ms_Addr m))) (mi_Module (ms_Addr m)) removed) [] ms) =
    {(mod_String p, p) | p. \<exists>e \<in> set ms. \<not> Q (snd e) \<and> p = mi_Module (ms_Addr (snd e))}"
  using assms
proof (induction ms rule: rev_induct)
  case (snoc e ms)
  let ?r = "foldl (\<lambda>removed (_, m). if Q m then removed else gmap_put (mod_String (mi_Module (ms_Addr m))) (mi_Module (ms_Addr m)) removed) [] ms"
  let ?p = "mi_Module (ms_Addr (snd e))"
  have valid: "list_all valid_name (mi_Module (ms_Addr (snd e')))" if "e' \<in> set (ms @ [e])" for e'
    using snoc.prems that by (auto simp: mi_valid_def mi_Module_def list_all_iff)
  have "q = ?p" if in_r: "(mod_String ?p, q) \<in> set ?r" for q
  proof -
    have "\<forall>e \<in> set ms. mi_valid (ms_Addr (snd e))" using snoc.prems by simp
    then obtain e' where e': "e' \<in> set ms" "q = mi_Module (ms_Addr (snd e'))" "mod_String ?p = mod_String q"
      using in_r unfolding snoc.IH[OF \<open>\<forall>e \<in> set ms. mi_valid (ms_Addr (snd e))\<close>] by blast
    then have "list_all valid_name q" using valid[of e'] by simp
    then show ?thesis using mod_String_inj[OF valid[of e], of q] e'(3) by simp
  qed
  then have "set (gmap_put (mod_String ?p) ?p ?r) = insert (mod_String ?p, ?p) (set ?r)" by (rule set_gmap_put_same)
  then show ?case using snoc.IH snoc.prems by (cases e) auto
qed simp

lemma RemovedModuleTransformer_adds:
  assumes "inj hc" "graph_wf hc g" "st_wf s"
  shows "adds_vertices hc {mo_Close mo (mi_Module m) | m. mi_valid m \<and> st_Module s m \<noteq> None \<and> DescendentForInstance config m = None} g
    (RemovedModuleTransformer hc mo (Some s) config g)"
proof -
  have valid: "\<forall>e \<in> set (st_Modules s). mi_valid (ms_Addr (snd e))" using assms(3) by (simp add: st_wf_def)
  let ?R = "{(mod_String p, p) | p. \<exists>e \<in> set (st_Modules s). \<not> DescendentForInstance config (ms_Addr (snd e)) \<noteq> None \<and> p = mi_Module (ms_Addr (snd e))}"
  have "adds_vertices hc (\<Union>x \<in> ?R. {mo_Close mo (snd x)}) g (RemovedModuleTransformer hc mo (Some s) config g)"
    unfolding RemovedModuleTransformer_def Let_def option.case
      removed_modules[OF valid, of "\<lambda>m. DescendentForInstance config (ms_Addr m) \<noteq> None", symmetric]
    by (rule adds_vertices_foldl) (auto simp: assms(2) adds_vertices_Add[OF assms(1)])
  moreover have "mi_valid m \<and> st_Module s m \<noteq> None \<longleftrightarrow> (\<exists>e \<in> set (st_Modules s). ms_Addr (snd e) = m)" for m
  proof
    assume m: "mi_valid m \<and> st_Module s m \<noteq> None"
    then obtain ms where ms: "st_Module s m = Some ms" "ms_Addr ms = m" using st_Module_wf(2)[OF assms(3)] by blast
    then show "\<exists>e \<in> set (st_Modules s). ms_Addr (snd e) = m" using st_Modules_iff[OF assms(3), of "(mi_String m, ms)"] m
      by (intro bexI[of _ "(mi_String m, ms)"]) simp_all
  qed (use st_Modules_iff[OF assms(3)] in force)
  moreover have "(\<Union>x \<in> ?R. {mo_Close mo (snd x)}) =
      {mo_Close mo (mi_Module m) | m. (\<exists>e \<in> set (st_Modules s). ms_Addr (snd e) = m) \<and> DescendentForInstance config m = None}"
    by (rule set_eqI) (simp, blast)
  ultimately show ?thesis by (simp add: conj_assoc[symmetric] del: conj_assoc)
qed

end
