(* ===== verification/Spec2Isabelle.thy ===== *)
theory Spec2Isabelle
  imports Dag_Props Dag_Walker_Props Addr_Collections State_Props Inst_Props Addr_Moved Refactor_Props Refactor_Validate Refactor_Implied Checks_Results Plans_Props Graph_Builders Graph_Modules
begin

text \<open>
  A verification library for OpenTofu, the Go program under \<^verbatim>\<open>src/\<close>.

  \<^bold>\<open>The program.\<close>  OpenTofu reads a configuration, compares it with a stored state and plans and applies changes.  Its core
  (\<^verbatim>\<open>internal/tofu\<close>) builds a dependency graph whose vertices are the objects of the configuration and of the state
  (\<^verbatim>\<open>internal/dag\<close>), walks it concurrently, and lets the nodes read and write shared containers: the state
  (\<^verbatim>\<open>internal/states\<close>), the planned changes (\<^verbatim>\<open>internal/plans\<close>), the expansion of modules and resources into instances
  (\<^verbatim>\<open>internal/instances\<close>) and the statuses of checks (\<^verbatim>\<open>internal/checks\<close>).  Before the walk, move and removal statements
  of the configuration rewrite the state (\<^verbatim>\<open>internal/refactoring\<close>).  All of them name objects by addresses
  (\<^verbatim>\<open>internal/addrs\<close>) and report problems as diagnostics (\<^verbatim>\<open>internal/tfdiags\<close>).

  \<^bold>\<open>Conventions.\<close>  A Go struct is a record, an enumeration or an interface with a known set of implementations a datatype,
  and every method one function.  A Go map is an association list with distinct keys; since Go leaves the order of
  iteration open and the theorems are about arbitrary lists, they hold for every order, and a loop that changes the map it
  ranges over takes the order of its visits as an argument.  A panic or a returned error is \<open>None\<close> or the left summand.
  Values of \<open>cty\<close>, source ranges of \<open>hcl\<close> and provider addresses are type variables; functions of third-party packages are
  arguments, with what is relied on as hypotheses.  Methods that run under the mutex of their container are atomic steps.

  \<^bold>\<open>Theories.\<close>
  \<^item> \<open>Tofu_Prelude\<close>, \<open>Tofu_Sort\<close>: Go maps (interface \<open>go_map\<close>), and sorting with a comparison function.
  \<^item> \<open>Dag_Set\<close>, \<open>Dag_Graph\<close>, \<open>Dag_Walk\<close>, \<open>Dag_Order\<close>, \<open>Dag_Scc\<close>, \<open>Dag_Props\<close> (\<^verbatim>\<open>internal/dag/set.go\<close>, \<^verbatim>\<open>edge.go\<close>, \<^verbatim>\<open>graph.go\<close>,
    \<^verbatim>\<open>dag.go\<close>, \<^verbatim>\<open>tarjan.go\<close>): sets keyed by hash codes, graphs with their adjacency maps and the invariant that these agree
    with the edges, traversals, topological orders, transitive reduction, strongly connected components, validation.
    The lemmas show that the operations are those of a vertex set with an edge relation, that traversals visit exactly
    what is reachable, that \<^verbatim>\<open>Validate\<close> accepts exactly the acyclic graphs with one root, that a topological order exists
    exactly for acyclic graphs and is one, and that the transitive reduction is minimal with the same reachability.
  \<^item> \<open>Dag_Walker\<close>, \<open>Dag_Walker_Inv\<close>, \<open>Dag_Walker_Props\<close> (\<^verbatim>\<open>internal/dag/walk.go\<close>): the concurrent walker as a step relation over
    goroutines and channels, with \<^verbatim>\<open>Update\<close> during the walk.  In every interleaving a vertex is visited once, after its
    dependencies, not at all when one of them failed, and a walk that cannot step has finished.
  \<^item> \<open>Tfdiags\<close> (\<^verbatim>\<open>internal/tfdiags\<close>): diagnostics, their conversion to errors and back, sorting, consolidation, overrides.
  \<^item> \<open>Addr_Key\<close>, \<open>Addr_Module\<close>, \<open>Addr_Resource\<close>, \<open>Addr_Props\<close>, \<open>Addr_Collections\<close> (\<^verbatim>\<open>internal/addrs\<close>): instance keys, module and
    resource addresses, renderings and parsers, targets, orders, maps and sets keyed by addresses.  Renderings are
    injective on valid addresses, parsing inverts rendering, containment of targets is what it means on the addresses.
  \<^item> \<open>Addr_Move\<close>, \<open>Addr_Moved\<close>: move endpoints; which objects a statement selects and where they go.
  \<^item> \<open>Addr_Check\<close>, \<open>Addr_Checkable\<close>: checkable objects, check rules and their parser.
  \<^item> \<open>State_Types\<close>, \<open>State_Module\<close>, \<open>State_Ops\<close>, \<open>State_Sync\<close>, \<open>State_Refine\<close>, \<open>State_Moves\<close>, \<open>State_List\<close>, \<open>State_Props\<close>
    (\<^verbatim>\<open>internal/states\<close>): objects, resources, modules, the state and its synchronized methods.  The methods refine a store
    of objects by address and generation and keep the state well formed.
  \<^item> \<open>Inst_Expander\<close>, \<open>Inst_Tree\<close>, \<open>Inst_Query\<close>, \<open>Inst_Props\<close> (\<^verbatim>\<open>internal/instances\<close>): registration of repetition modes and
    expansion, against a specification of which instances exist.
  \<^item> \<open>Config_Tree\<close> (\<^verbatim>\<open>internal/configs\<close>): the tree of module configurations, with the fields that moves and checks read.
  \<^item> \<open>Refactor_Moves\<close>, \<open>Refactor_Track\<close>, \<open>Refactor_Order\<close>, \<open>Refactor_Props\<close>, \<open>Refactor_Config\<close>, \<open>Refactor_Validate\<close>, \<open>Refactor_Implied\<close>
    (\<^verbatim>\<open>internal/refactoring\<close>, \<^verbatim>\<open>internal/tofu/context_plan.go\<close>): statements, explicit and implied, their graph, execution,
    validation, removals and the check against targets.  Executing moves loses and duplicates no object, follows the
    dependencies of the statements, and is safe as the planner calls it.
  \<^item> \<open>Checks_State\<close>, \<open>Checks_Refine\<close>, \<open>Checks_Props\<close>, \<open>Checks_Results\<close> (\<^verbatim>\<open>internal/checks\<close>, \<^verbatim>\<open>internal/states/checks.go\<close>): check
    statuses as a ledger of reports, and the results kept in the state.
  \<^item> \<open>Plans_Changes\<close>, \<open>Plans_Props\<close> (\<^verbatim>\<open>internal/plans\<close>): planned changes, the synchronized change set as two finite maps, encoding
    and decoding, simplification.
  \<^item> \<open>Graph_Transform\<close>, \<open>Graph_Destroy\<close>, \<open>Graph_State\<close>, \<open>Graph_Diff\<close>, \<open>Graph_Modules\<close> with \<open>Graph_Target_Props\<close>, \<open>Graph_Build_Props\<close>, \<open>Graph_Prune_Props\<close>,
    \<open>Graph_Destroy_Props\<close>, \<open>Graph_Builders\<close> (\<^verbatim>\<open>internal/tofu/graph_builder.go\<close> and the transformers \<^verbatim>\<open>transform_targets.go\<close>,
    \<^verbatim>\<open>transform_root.go\<close>, \<^verbatim>\<open>transform_transitive_reduction.go\<close>, \<^verbatim>\<open>transform_destroy_cbd.go\<close>, \<^verbatim>\<open>transform_destroy_edge.go\<close>,
    \<^verbatim>\<open>transform_state.go\<close>, \<^verbatim>\<open>transform_orphan_resource.go\<close>, \<^verbatim>\<open>transform_diff.go\<close>, \<^verbatim>\<open>transform_module_expansion.go\<close>,
    \<^verbatim>\<open>transform_removed_modules.go\<close>): the builder runs steps on a graph and validates it.  A vertex is
    known by what its type assertions answer, the record \<open>node_ops\<close>.  Each transformer is related to the vertex set and the
    edge relation: which vertices targets and excludes keep, which edges order destruction, which of them
    create-before-destroy turns round, which vertices pruning leaves, which vertices and edges stand for the planned changes
    and for the modules.  The interface \<open>graph_transformer\<close> says that a step ends
    and keeps graphs well formed; with it a builder of these steps always ends with a valid graph or with its errors.

  \<^bold>\<open>Fuel.\<close>  The recursive closure of the topological order and the recursion of Tarjan's algorithm take fuel, the first one
  more than the number of edges, the second more than the number of vertices; both are proved enough for every graph.
  Graph walks and the loop that draws a random deposed key are partial functions in the option monad: the walks are proved
  to end, and the loop to end when the source of random keys gives a fresh one.  Pruning repeats passes over a list of
  vertices that gets shorter with every removal, which is its measure.

  \<^bold>\<open>Not modelled.\<close>  Rendering of graphs as text; \<^verbatim>\<open>contextual.go\<close> and \<^verbatim>\<open>config_traversals.go\<close> of the diagnostics, which read
  bodies of \<open>hcl\<close> and paths of \<open>cty\<close>; provider addresses, references and module sources; decoding of object values; the plan
  and state files; the transformers that attach configuration, schemas, references and providers to vertices, and the vertices'
  own operations; evaluation, providers, backends, registries and the command line, which are input and output or rest on
  \<open>hcl\<close>, \<open>cty\<close> and remote procedure calls.
\<close>

end
